(* ===== verification/Prelude.thy ===== *)
theory Prelude
  imports Main "HOL-Library.Word" "HOL-Library.Multiset"
begin

text \<open>
  What the components share: the names of the model's types (fixed-width integers,
  file descriptors and the addresses of the C objects), C's integer arithmetic where
  it differs from HOL's, the operations of libwayland's intrusive lists on HOL lists,
  and the counting lemmas the reference-count proofs rest on.

  A C pointer to a heap object is a number that names the object (\<open>sid\<close> for a
  \<^verbatim>\<open>struct compositor_surface *\<close>, \<open>bid\<close> for a \<^verbatim>\<open>struct shm_buffer *\<close>,
  \<open>rid\<close> for a \<^verbatim>\<open>struct wl_resource *\<close>); a pointer that may be
  \<^verbatim>\<open>NULL\<close> is an option.
\<close>

unbundle bit_operations_syntax

section \<open>Types\<close>

type_synonym u8 = "8 word"
type_synonym u16 = "16 word"
type_synonym u32 = "32 word"
type_synonym u64 = "64 word"
type_synonym fd = int
type_synonym rid = nat
type_synonym cid = nat
type_synonym sid = nat
type_synonym bid = nat
type_synonym pool_id = nat
type_synonym addr = nat

section \<open>Collections of lemmas\<close>

named_theorems view_simps \<open>what an operation leaves of the observable parts of the state\<close>
named_theorems keep_simps \<open>fields an operation does not write\<close>

section \<open>C integer arithmetic\<close>

text \<open>
  \<open>int32_t\<close> values are integers; \<open>i32_wrap\<close> is the two's complement value a
  32-bit operation leaves. \<open>c_div\<close> is C's division, which truncates towards zero.
\<close>

definition INT32_MAX :: int where
  "INT32_MAX = 2147483647"

definition i32_wrap :: "int \<Rightarrow> int" where
  "i32_wrap x = (x + 2147483648) mod 4294967296 - 2147483648"

definition in_i32 :: "int \<Rightarrow> bool" where
  "in_i32 x \<longleftrightarrow> - 2147483648 \<le> x \<and> x \<le> 2147483647"

lemma i32_wrap_id [simp]: "in_i32 x \<Longrightarrow> i32_wrap x = x"
  by (simp add: in_i32_def i32_wrap_def)

lemma in_i32_wrap [simp]: "in_i32 (i32_wrap x)"
proof -
  have "0 \<le> (x + 2147483648) mod 4294967296" "(x + 2147483648) mod 4294967296 < 4294967296"
    by simp_all
  then show ?thesis unfolding in_i32_def i32_wrap_def by linarith
qed

definition c_div :: "int \<Rightarrow> int \<Rightarrow> int" where
  "c_div a b = sgn a * sgn b * (\<bar>a\<bar> div \<bar>b\<bar>)"

lemma c_div_nonneg: "0 \<le> a \<Longrightarrow> 0 < b \<Longrightarrow> c_div a b = a div b"
  by (cases "a = 0") (simp_all add: c_div_def)

lemma c_div2_bounds: "2 * c_div a 2 \<le> a + 1 \<and> a - 1 \<le> 2 * c_div a 2"
proof (cases "0 \<le> a")
  case True
  then have "c_div a 2 = a div 2" by (simp add: c_div_nonneg)
  then show ?thesis by linarith
next
  case False
  then have "c_div a 2 = - ((- a) div 2)" by (simp add: c_div_def)
  then show ?thesis by linarith
qed

section \<open>Counting\<close>

text \<open>
  \<open>uses f v xs\<close> is how many of the objects \<open>xs\<close> have the value \<open>v\<close> in
  their field \<open>f\<close>: how many surfaces of the list point at a given buffer.
\<close>

definition uses :: "('a \<Rightarrow> 'b) \<Rightarrow> 'b \<Rightarrow> 'a list \<Rightarrow> nat" where
  "uses f v xs = length (filter (\<lambda>x. f x = v) xs)"

lemma uses_Nil [simp]: "uses f v [] = 0"
  by (simp add: uses_def)

lemma uses_Cons [simp]: "uses f v (x # xs) = of_bool (f x = v) + uses f v xs"
  by (simp add: uses_def)

lemma uses_cong: "(\<And>x. x \<in> set xs \<Longrightarrow> f x = g x) \<Longrightarrow> uses f v xs = uses g v xs"
  unfolding uses_def by (intro arg_cong [where f = length] filter_cong) auto

lemma uses_fun_upd_notin [simp]: "s \<notin> set xs \<Longrightarrow> uses (f(s := a)) v xs = uses f v xs"
  by (rule uses_cong) auto

lemma uses_fun_upd:
  "distinct xs \<Longrightarrow> s \<in> set xs \<Longrightarrow>
    uses (f(s := a)) v xs + of_bool (f s = v) = uses f v xs + of_bool (a = v)"
  by (induction xs) auto

lemma uses_pos: "x \<in> set xs \<Longrightarrow> f x = v \<Longrightarrow> 0 < uses f v xs"
  by (auto simp: uses_def filter_empty_conv)

lemma uses_zero_iff: "uses f v xs = 0 \<longleftrightarrow> (\<forall>x \<in> set xs. f x \<noteq> v)"
  by (auto simp: uses_def filter_empty_conv)

lemma uses_remove1:
  "s \<in> set xs \<Longrightarrow> uses f v (remove1 s xs) + of_bool (f s = v) = uses f v xs"
  by (induction xs) auto

section \<open>Intrusive lists\<close>

text \<open>
  A \<^verbatim>\<open>struct wl_list\<close> head is the list of the elements linked into it, from
  \<^verbatim>\<open>head.next\<close> to \<^verbatim>\<open>head.prev\<close>. \<^verbatim>\<open>wl_list_insert(p, e)\<close> links \<open>e\<close>
  right after \<open>p\<close>, which is the head or an element: after the head is the front,
  after \<^verbatim>\<open>head.prev\<close> the back.
\<close>

fun insert_after :: "'a \<Rightarrow> 'a \<Rightarrow> 'a list \<Rightarrow> 'a list" where
  "insert_after p e [] = []"
| "insert_after p e (x # xs) = (if x = p then x # e # xs else x # insert_after p e xs)"

text \<open>
  The element that follows \<open>p\<close>, \<open>None\<close> when \<open>p\<close> is the last one: then
  \<^verbatim>\<open>p.next\<close> is the head of the list.
\<close>

fun next_of :: "'a \<Rightarrow> 'a list \<Rightarrow> 'a option" where
  "next_of p [] = None"
| "next_of p (x # xs) =
     (if x = p then (case xs of [] \<Rightarrow> None | y # _ \<Rightarrow> Some y) else next_of p xs)"

lemma mset_insert_after: "p \<in> set xs \<Longrightarrow> mset (insert_after p e xs) = add_mset e (mset xs)"
  by (induction xs) auto

lemma set_insert_after: "p \<in> set xs \<Longrightarrow> set (insert_after p e xs) = insert e (set xs)"
  by (induction xs) auto

lemma distinct_insert_after:
  "p \<in> set xs \<Longrightarrow> e \<notin> set xs \<Longrightarrow> distinct xs \<Longrightarrow> distinct (insert_after p e xs)"
  by (induction xs) (auto simp: set_insert_after)

lemma insert_after_append:
  "p \<notin> set xs \<Longrightarrow> insert_after p e (xs @ p # ys) = xs @ p # e # ys"
  by (induction xs) auto

lemma next_of_Some_in: "next_of p xs = Some y \<Longrightarrow> y \<in> set xs"
  by (induction xs) (auto split: if_splits list.splits)

lemma next_of_append: "p \<notin> set xs \<Longrightarrow>
    next_of p (xs @ p # ys) = (case ys of [] \<Rightarrow> None | y # _ \<Rightarrow> Some y)"
  by (induction xs) auto

section \<open>Fields of the objects of a heap\<close>

text \<open>
  \<open>fld m f\<close> reads the optional field \<open>f\<close> of the objects of the heap \<open>m\<close>; an
  object that is not live has no value. Updates of the heap become updates of the field.
\<close>

definition fld :: "('k \<rightharpoonup> 'v) \<Rightarrow> ('v \<Rightarrow> 'a option) \<Rightarrow> 'k \<Rightarrow> 'a option" where
  "fld m f k = Option.bind (m k) f"

lemma fld_Some [simp]: "m k = Some x \<Longrightarrow> fld m f k = f x"
  by (simp add: fld_def)

lemma fld_None [simp]: "m k = None \<Longrightarrow> fld m f k = None"
  by (simp add: fld_def)

lemma fld_upd [simp]: "fld (m(k := a)) f = (fld m f)(k := Option.bind a f)"
  by (rule ext) (simp add: fld_def)

lemma fld_upd_same [simp]: "fld m f k = a \<Longrightarrow> (fld m f)(k := a) = fld m f"
  by auto

lemma fld_eq_Some: "fld m f k = Some y \<longleftrightarrow> (\<exists>x. m k = Some x \<and> f x = Some y)"
  by (cases "m k") auto

section \<open>Transition systems\<close>

text \<open>
  A step relation with an invariant: what holds at the start holds after every sequence of
  steps. The repaint machine, the host and the state machines of the helper programs are
  instances.
\<close>

locale transition_system =
  fixes step :: "'s \<Rightarrow> 's \<Rightarrow> bool" and inv :: "'s \<Rightarrow> bool"
  assumes step_inv: "step s s' \<Longrightarrow> inv s \<Longrightarrow> inv s'"
begin

lemma run_inv: "step\<^sup>*\<^sup>* s s' \<Longrightarrow> inv s \<Longrightarrow> inv s'"
  by (induction rule: rtranclp_induct) (auto intro: step_inv)

lemma run_from_inv: "inv s \<Longrightarrow> step\<^sup>*\<^sup>* s s' \<Longrightarrow> step\<^sup>*\<^sup>* s' s'' \<Longrightarrow> inv s' \<and> inv s''"
  using run_inv by blast

end

end
