(* ===== verification/Host_State.thy ===== *)
theory Host_State
  imports Prelude
begin

text \<open>
  The state of the Wayland host (\<^verbatim>\<open>wayland-host/src/server_internal.h\<close>): the
  structs \<^verbatim>\<open>shm_buffer\<close>, \<^verbatim>\<open>compositor_surface\<close> and \<^verbatim>\<open>wayland_server\<close> as
  records, the heap of live objects, and what the host does to the outside (protocol
  events, errors, closed descriptors) as a log.

  An object that has been freed is not in its heap map. An operation that follows a
  pointer to it sets \<open>h_fault\<close>, which no operation resets: a state without the fault
  was reached without a use after free.

  Reference and user counts are natural numbers: each unit is held by a live object,
  so a count stays far below \<open>2 ^ 32\<close>. Diagnostic counters keep their 64 bits.
\<close>

section \<open>Buffers\<close>

record shm_buffer =
  b_references :: nat
  b_resource :: "rid option"
  b_pool :: "pool_id option"
  b_data :: "addr option"
  b_size :: u64
  b_offset :: int
  b_width :: int
  b_height :: int
  b_stride :: int
  b_format :: u32
  b_busy_users :: nat
  b_single_pixel :: bool
  b_dmabuf :: bool
  b_tvg_token :: bool
  b_egl_buffer :: bool
  b_android_buffer :: bool
  b_diag_counted :: bool
  b_egl_resource :: "rid option"
  b_android_hardware_buffer :: "addr option"
  b_dmabuf_fd :: fd
  b_tvg_fd :: fd
  b_acquire_fence_fd :: fd
  b_explicit_release :: "rid option"
  b_egl_cache_linked :: bool
  b_dmabuf_mapping :: "addr option"
  b_dmabuf_mapping_size :: u64
  b_dmabuf_offset :: u32
  b_dmabuf_modifier :: u64
  b_server :: bool
  b_deferred_next :: "bid option"
  b_egl_listener_attached :: bool

text \<open>What \<^verbatim>\<open>calloc\<close> returns: every field zero, so descriptors are 0, not -1.\<close>

definition calloc_buffer :: shm_buffer where
  "calloc_buffer = \<lparr>
     b_references = 0, b_resource = None, b_pool = None, b_data = None, b_size = 0,
     b_offset = 0, b_width = 0, b_height = 0, b_stride = 0, b_format = 0,
     b_busy_users = 0, b_single_pixel = False, b_dmabuf = False, b_tvg_token = False,
     b_egl_buffer = False, b_android_buffer = False, b_diag_counted = False,
     b_egl_resource = None, b_android_hardware_buffer = None, b_dmabuf_fd = 0,
     b_tvg_fd = 0, b_acquire_fence_fd = 0, b_explicit_release = None,
     b_egl_cache_linked = False, b_dmabuf_mapping = None, b_dmabuf_mapping_size = 0,
     b_dmabuf_offset = 0, b_dmabuf_modifier = 0, b_server = False,
     b_deferred_next = None, b_egl_listener_attached = False \<rparr>"

text \<open>\<^verbatim>\<open>struct shm_pool\<close> of \<^verbatim>\<open>buffer_shm.c\<close>.\<close>

record shm_pool =
  p_data :: addr
  p_size :: u64
  p_references :: nat
  p_fd :: fd
  p_buffers :: "bid list"

section \<open>Surfaces\<close>

record surface_perf =
  sp_commits :: u64
  sp_damage :: u64
  sp_buffer_replacements :: u64
  sp_frame_callbacks_requested :: u64
  sp_frame_callbacks_committed :: u64
  sp_frame_callbacks_captured :: u64
  sp_frame_callbacks_completed :: u64

record layer_state =
  layer_x :: int
  layer_y :: int
  layer_kind :: u32
  layer_anchor :: u32
  layer_width :: u32
  layer_height :: u32
  layer_exclusive_zone :: int
  layer_margin_top :: int
  layer_margin_right :: int
  layer_margin_bottom :: int
  layer_margin_left :: int
  layer_configured :: bool

record viewport_state =
  viewport_source_set :: bool
  viewport_source_x :: int
  viewport_source_y :: int
  viewport_source_width :: int
  viewport_source_height :: int
  viewport_destination_set :: bool
  viewport_destination_width :: int
  viewport_destination_height :: int

record compositor_surface =
  s_wl_surface :: rid
  s_xdg_surface :: "rid option"
  s_xdg_toplevel :: "rid option"
  s_subsurface :: "rid option"
  s_viewport :: "rid option"
  s_fractional_scale :: "rid option"
  s_layer_surface :: "rid option"
  s_parent :: "sid option"
  s_children :: "sid list"
  s_subsurface_x :: int
  s_subsurface_y :: int
  s_buffer_scale :: int
  s_current :: "bid option"
  s_pending :: "bid option"
  s_pending_detach :: bool
  s_explicit_sync :: "rid option"
  s_acquire_fence_fd :: fd
  s_pending_explicit_release :: "rid option"
  s_width :: int
  s_height :: int
  s_layer :: layer_state
  s_configured :: bool
  s_mapped :: bool
  s_is_cursor :: bool
  s_damaged :: bool
  s_viewport_state :: viewport_state
  s_pending_frame_callbacks :: "rid list"
  s_committed_frame_callbacks :: "rid list"
  s_presented_frame_callbacks :: "rid list"
  s_perf :: surface_perf

definition zero_surface_perf :: surface_perf where
  "zero_surface_perf = \<lparr> sp_commits = 0, sp_damage = 0, sp_buffer_replacements = 0,
     sp_frame_callbacks_requested = 0, sp_frame_callbacks_committed = 0,
     sp_frame_callbacks_captured = 0, sp_frame_callbacks_completed = 0 \<rparr>"

definition zero_layer_state :: layer_state where
  "zero_layer_state = \<lparr> layer_x = 0, layer_y = 0, layer_kind = 0, layer_anchor = 0,
     layer_width = 0, layer_height = 0, layer_exclusive_zone = 0, layer_margin_top = 0,
     layer_margin_right = 0, layer_margin_bottom = 0, layer_margin_left = 0,
     layer_configured = False \<rparr>"

definition zero_viewport_state :: viewport_state where
  "zero_viewport_state = \<lparr> viewport_source_set = False, viewport_source_x = 0,
     viewport_source_y = 0, viewport_source_width = 0, viewport_source_height = 0,
     viewport_destination_set = False, viewport_destination_width = 0,
     viewport_destination_height = 0 \<rparr>"

text \<open>A surface as \<^verbatim>\<open>compositor_create_surface\<close> initialises it.\<close>

definition new_surface :: "rid \<Rightarrow> compositor_surface" where
  "new_surface r = \<lparr>
     s_wl_surface = r, s_xdg_surface = None, s_xdg_toplevel = None, s_subsurface = None,
     s_viewport = None, s_fractional_scale = None, s_layer_surface = None,
     s_parent = None, s_children = [], s_subsurface_x = 0, s_subsurface_y = 0,
     s_buffer_scale = 1, s_current = None, s_pending = None, s_pending_detach = False,
     s_explicit_sync = None, s_acquire_fence_fd = -1, s_pending_explicit_release = None,
     s_width = 0, s_height = 0, s_layer = zero_layer_state, s_configured = False,
     s_mapped = False, s_is_cursor = False, s_damaged = False,
     s_viewport_state = zero_viewport_state, s_pending_frame_callbacks = [],
     s_committed_frame_callbacks = [], s_presented_frame_callbacks = [],
     s_perf = zero_surface_perf \<rparr>"

section \<open>The server\<close>

record server_perf =
  pf_surface_commits :: u64
  pf_surface_damage :: u64
  pf_surface_commit_generation :: u64
  pf_surface_damage_generation :: u64
  pf_frame_callbacks_requested :: u64
  pf_frame_callbacks_committed :: u64
  pf_frame_callbacks_captured :: u64
  pf_frame_callbacks_completed :: u64
  pf_repaint_requests :: u64
  pf_repaint_coalesced :: u64
  pf_repaint_started :: u64

definition zero_server_perf :: server_perf where
  "zero_server_perf = \<lparr> pf_surface_commits = 0, pf_surface_damage = 0,
     pf_surface_commit_generation = 0, pf_surface_damage_generation = 0,
     pf_frame_callbacks_requested = 0, pf_frame_callbacks_committed = 0,
     pf_frame_callbacks_captured = 0, pf_frame_callbacks_completed = 0,
     pf_repaint_requests = 0, pf_repaint_coalesced = 0, pf_repaint_started = 0 \<rparr>"

record server_diag =
  dg_dmabuf_accept :: u64
  dg_dmabuf_reject :: u64
  dg_tvg_buffers :: u64
  dg_deferred_enqueued :: u64
  dg_deferred_duplicates :: u64
  dg_deferred_flushed :: u64
  dg_viewport_changes :: u64
  dg_acquire_fence_waits :: u64
  dg_acquire_fence_failures :: u64

definition zero_server_diag :: server_diag where
  "zero_server_diag = \<lparr> dg_dmabuf_accept = 0, dg_dmabuf_reject = 0, dg_tvg_buffers = 0,
     dg_deferred_enqueued = 0, dg_deferred_duplicates = 0, dg_deferred_flushed = 0,
     dg_viewport_changes = 0, dg_acquire_fence_waits = 0, dg_acquire_fence_failures = 0 \<rparr>"

text \<open>The repaint flags of \<^verbatim>\<open>struct wayland_server\<close>, with the timer descriptor.\<close>

record repaint_state =
  repaint_needed :: bool
  repaint_scheduled :: bool
  repaint_ready :: bool
  repaint_rendering :: bool
  repaint_fd :: fd

record keyboard_state =
  keyboard_mods_depressed :: u32
  keyboard_mods_locked :: u32
  keyboard_caps_lock :: bool
  keyboard_num_lock :: bool
  keyboard_scroll_lock :: bool
  keyboard_caps_lock_down :: bool
  keyboard_num_lock_down :: bool
  keyboard_scroll_lock_down :: bool

text \<open>\<^verbatim>\<open>struct trierarch_dmabuf_feedback_device\<close>: the reported device, if any, and the
  reporting client.\<close>

record feedback_device =
  fb_client_fd :: fd
  fb_client_source :: bool
  fb_device :: u64
  fb_known :: bool

record wayland_server =
  sv_surfaces :: "sid list"
  sv_egl_buffers :: "bid list"
  sv_output_resources :: "rid list"
  sv_xdg_output_resources :: "rid list"
  sv_pointer_resources :: "rid list"
  sv_keyboard_resources :: "rid list"
  sv_pointer_focus :: "sid option"
  sv_keyboard_focus :: "sid option"
  sv_cursor_surface :: "sid option"
  sv_pointer_x :: int
  sv_pointer_y :: int
  sv_cursor_hotspot_x :: int
  sv_cursor_hotspot_y :: int
  sv_pointer_buttons :: u32
  sv_keyboard :: keyboard_state
  sv_cursor_visible :: bool
  sv_output_width :: int
  sv_output_height :: int
  sv_egl_buffer_supported :: bool
  sv_dmabuf_enabled :: bool
  sv_dmabuf_feedback_device :: "feedback_device option"
  sv_dmabuf_global :: bool
  sv_repaint :: repaint_state
  sv_perf :: server_perf
  sv_diag :: server_diag

section \<open>What leaves the host\<close>

datatype protocol_error =
    Err_surface_invalid_offset
  | Err_surface_invalid_size
  | Err_shm_invalid_stride
  | Err_shm_invalid_format
  | Err_shm_invalid_fd
  | Err_subsurface_bad_surface
  | Err_subcompositor_bad_surface
  | Err_sync_duplicate_fence
  | Err_sync_duplicate_release
  | Err_sync_exists
  | Err_layer_surface_invalid_size
  | Err_layer_surface_invalid_anchor
  | Err_layer_surface_invalid_keyboard_interactivity
  | Err_layer_shell_invalid_layer
  | Err_layer_shell_role
  | Err_layer_shell_already_constructed
  | Err_xdg_role
  | Err_xdg_invalid_surface_state
  | Err_viewport_no_surface
  | Err_viewport_exists
  | Err_fractional_scale_exists
  | Err_params_already_used
  | Err_params_invalid_format
  | Err_params_incomplete

text \<open>The events of \<^verbatim>\<open>wl_output\<close> and \<^verbatim>\<open>zxdg_output_v1\<close>.\<close>

datatype output_event =
    Out_geometry int int
  | Out_mode int int
  | Out_scale int
  | Out_logical_position int int
  | Out_logical_size int int
  | Out_name
  | Out_description
  | Out_done

text \<open>The events of the seat and its devices; the surface argument is its \<^verbatim>\<open>wl_surface\<close>.\<close>

datatype seat_event =
    Seat_capabilities
  | Seat_name
  | Pointer_enter u32 rid int int
  | Pointer_leave u32 rid
  | Pointer_motion u32 int int
  | Pointer_button u32 u32 u32 bool
  | Pointer_axis_source u32
  | Pointer_axis u32 u32 int
  | Pointer_frame
  | Keyboard_keymap
  | Keyboard_repeat_info
  | Keyboard_enter u32 rid
  | Keyboard_leave u32 rid
  | Keyboard_modifiers u32 u32 u32
  | Keyboard_key u32 u32 u32 bool

datatype shell_event =
    Toplevel_configure int int
  | Xdg_surface_configure u32
  | Popup_configure int int int int
  | Popup_repositioned u32
  | Layer_configure u32 u32 u32
  | Preferred_scale u32

datatype dmabuf_event =
    Dmabuf_format u32
  | Dmabuf_modifier u32 u64
  | Feedback_format_table
  | Feedback_main_device u64
  | Feedback_tranche_target_device u64
  | Feedback_tranche_flags u32
  | Feedback_tranche_formats "u16 list"
  | Feedback_tranche_done
  | Feedback_done
  | Params_failed
  | Params_created rid

text \<open>The events of the small extensions.\<close>

datatype extra_event =
    Pointer_locked
  | Pointer_confined
  | Frame_presented u32 u32 u32 u32 u32
  | Frame_discarded
  | Clock_id u32
  | Decoration_configure u32

text \<open>
  \<open>Send_*\<close> are events sent to a resource; the rest are errors, the destruction of a
  resource by the host, and what the host asks of the operating system.
\<close>

datatype event =
    Post_no_memory cid
  | Post_error rid protocol_error
  | Post_implementation_error cid
  | Destroyed rid
  | Buffer_release rid
  | Immediate_release rid
  | Callback_done rid u32
  | Surface_enter rid rid
  | Shm_format rid u32
  | Send_shell rid shell_event
  | Send_output rid output_event
  | Send_xdg_output rid output_event
  | Send_seat rid seat_event
  | Send_dmabuf rid dmabuf_event
  | Send_extra rid extra_event
  | Report_ack fd bool
  | Tvg_present fd
  | Close_fd fd
  | Munmap addr u64
  | Ahb_acquire addr
  | Ahb_release addr
  | Wait_idle

section \<open>The host\<close>

text \<open>\<^verbatim>\<open>struct release_binding\<close> of \<^verbatim>\<open>explicit_sync.c\<close>, kept per release object.\<close>

record release_binding =
  rb_surface :: "sid option"
  rb_buffer :: "bid option"

text \<open>
  \<open>h_client\<close> and \<open>h_version\<close> are what \<^verbatim>\<open>wl_resource_get_client\<close> and
  \<^verbatim>\<open>wl_resource_get_version\<close> return, set where the host creates a resource whose
  client or version it reads later; \<open>h_timer_ok\<close> and \<open>h_poll_result\<close> are
  the answers of the operating system to \<^verbatim>\<open>timerfd_settime\<close> and \<^verbatim>\<open>poll\<close>,
  which no operation of the host changes.
\<close>

record host =
  h_server :: wayland_server
  h_surfaces :: "sid \<rightharpoonup> compositor_surface"
  h_buffers :: "bid \<rightharpoonup> shm_buffer"
  h_pools :: "pool_id \<rightharpoonup> shm_pool"
  h_bindings :: "rid \<rightharpoonup> release_binding"
  h_deferred :: "bid option"
  h_client :: "rid \<Rightarrow> cid"
  h_version :: "rid \<Rightarrow> nat"
  h_serial :: u32
  h_timer_ok :: bool
  h_poll_result :: int
  h_log :: "event list"
  h_fault :: bool

section \<open>Access to the heap\<close>

definition fault :: "host \<Rightarrow> host" where
  "fault h = h\<lparr>h_fault := True\<rparr>"

definition emit :: "event \<Rightarrow> host \<Rightarrow> host" where
  "emit e h = h\<lparr>h_log := h_log h @ [e]\<rparr>"

definition emits :: "event list \<Rightarrow> host \<Rightarrow> host" where
  "emits es h = h\<lparr>h_log := h_log h @ es\<rparr>"

definition upd_server :: "(wayland_server \<Rightarrow> wayland_server) \<Rightarrow> host \<Rightarrow> host" where
  "upd_server f h = h\<lparr>h_server := f (h_server h)\<rparr>"

definition upd_surface ::
  "sid \<Rightarrow> (compositor_surface \<Rightarrow> compositor_surface) \<Rightarrow> host \<Rightarrow> host" where
  "upd_surface s f h = (case h_surfaces h s of
       None \<Rightarrow> fault h
     | Some x \<Rightarrow> h\<lparr>h_surfaces := (h_surfaces h)(s \<mapsto> f x)\<rparr>)"

definition upd_buffer :: "bid \<Rightarrow> (shm_buffer \<Rightarrow> shm_buffer) \<Rightarrow> host \<Rightarrow> host" where
  "upd_buffer b f h = (case h_buffers h b of
       None \<Rightarrow> fault h
     | Some x \<Rightarrow> h\<lparr>h_buffers := (h_buffers h)(b \<mapsto> f x)\<rparr>)"

definition upd_pool :: "pool_id \<Rightarrow> (shm_pool \<Rightarrow> shm_pool) \<Rightarrow> host \<Rightarrow> host" where
  "upd_pool p f h = (case h_pools h p of
       None \<Rightarrow> fault h
     | Some x \<Rightarrow> h\<lparr>h_pools := (h_pools h)(p \<mapsto> f x)\<rparr>)"

definition upd_perf :: "(server_perf \<Rightarrow> server_perf) \<Rightarrow> host \<Rightarrow> host" where
  "upd_perf f = upd_server (\<lambda>v. v\<lparr>sv_perf := f (sv_perf v)\<rparr>)"

definition upd_diag :: "(server_diag \<Rightarrow> server_diag) \<Rightarrow> host \<Rightarrow> host" where
  "upd_diag f = upd_server (\<lambda>v. v\<lparr>sv_diag := f (sv_diag v)\<rparr>)"

definition upd_repaint :: "(repaint_state \<Rightarrow> repaint_state) \<Rightarrow> host \<Rightarrow> host" where
  "upd_repaint f = upd_server (\<lambda>v. v\<lparr>sv_repaint := f (sv_repaint v)\<rparr>)"

definition close_fd :: "fd \<Rightarrow> host \<Rightarrow> host" where
  "close_fd d = emit (Close_fd d)"

text \<open>What \<^verbatim>\<open>wl_resource_create\<close> records of the new resource.\<close>

definition new_resource :: "cid \<Rightarrow> nat \<Rightarrow> rid \<Rightarrow> host \<Rightarrow> host" where
  "new_resource client v r h =
     h\<lparr>h_client := (h_client h)(r := client), h_version := (h_version h)(r := v)\<rparr>"

text \<open>\<^verbatim>\<open>wl_display_next_serial\<close> increments the display's serial and returns it.\<close>

definition next_serial :: "host \<Rightarrow> u32" where
  "next_serial h = h_serial h + 1"

definition bump_serial :: "host \<Rightarrow> host" where
  "bump_serial h = h\<lparr>h_serial := h_serial h + 1\<rparr>"

abbreviation sids :: "host \<Rightarrow> sid list" where
  "sids h \<equiv> sv_surfaces (h_server h)"

abbreviation current_of :: "host \<Rightarrow> sid \<Rightarrow> bid option" where
  "current_of h \<equiv> fld (h_surfaces h) s_current"

abbreviation pending_of :: "host \<Rightarrow> sid \<Rightarrow> bid option" where
  "pending_of h \<equiv> fld (h_surfaces h) s_pending"

abbreviation deferred_next_of :: "host \<Rightarrow> bid \<Rightarrow> bid option" where
  "deferred_next_of h \<equiv> fld (h_buffers h) b_deferred_next"

lemmas access_defs =
  fault_def emit_def emits_def upd_server_def upd_perf_def upd_diag_def upd_repaint_def
  close_fd_def bump_serial_def

lemma upd_surface_Some:
  "h_surfaces h s = Some x \<Longrightarrow>
    upd_surface s f h = h\<lparr>h_surfaces := (h_surfaces h)(s \<mapsto> f x)\<rparr>"
  by (simp add: upd_surface_def)

lemma upd_buffer_Some:
  "h_buffers h b = Some x \<Longrightarrow>
    upd_buffer b f h = h\<lparr>h_buffers := (h_buffers h)(b \<mapsto> f x)\<rparr>"
  by (simp add: upd_buffer_def)

lemma upd_pool_Some:
  "h_pools h p = Some x \<Longrightarrow> upd_pool p f h = h\<lparr>h_pools := (h_pools h)(p \<mapsto> f x)\<rparr>"
  by (simp add: upd_pool_def)

end
