(* ===== verification/Repaint.thy ===== *)
theory Repaint
  imports Host_State
begin

text \<open>
  The output repaint machine of \<^verbatim>\<open>wayland-host/src/compositor.c\<close>: requests are
  coalesced until a one-shot timer makes a frame eligible, at most one frame is being
  rendered, and a request that arrives while a frame is rendered schedules another one.
  The lemmas show that the three phases exclude each other, that a request is never
  lost, and what a failed frame leaves behind.
\<close>

section \<open>Operations\<close>

text \<open>
  \<^verbatim>\<open>schedule_repaint\<close> arms the timer unless a frame is on its way; where the timer
  cannot be armed the frame is eligible at once.
\<close>

definition schedule_repaint :: "host \<Rightarrow> host" where
  "schedule_repaint h = (let r = sv_repaint (h_server h) in
     if repaint_scheduled r \<or> repaint_ready r \<or> repaint_rendering r then h
     else if 0 \<le> repaint_fd r \<and> h_timer_ok h then upd_repaint (repaint_scheduled_update (\<lambda>_. True)) h
     else upd_repaint (repaint_ready_update (\<lambda>_. True)) h)"

definition repaint_timer_fired :: "host \<Rightarrow> host" where
  "repaint_timer_fired h =
     (let h1 = upd_repaint (repaint_scheduled_update (\<lambda>_. False)) h;
          r = sv_repaint (h_server h1)
      in if repaint_needed r \<and> \<not> repaint_rendering r
         then upd_repaint (repaint_ready_update (\<lambda>_. True)) h1 else h1)"

definition trierarch_wayland_begin_repaint :: "host \<Rightarrow> bool \<times> host" where
  "trierarch_wayland_begin_repaint h = (let r = sv_repaint (h_server h) in
     if \<not> repaint_needed r \<or> \<not> repaint_ready r \<or> repaint_rendering r then (False, h)
     else (True,
       upd_perf (pf_repaint_started_update (\<lambda>n. n + 1))
        (upd_repaint (\<lambda>r. r\<lparr>repaint_needed := False, repaint_ready := False,
            repaint_rendering := True\<rparr>) h)))"

definition trierarch_wayland_request_render :: "host \<Rightarrow> host" where
  "trierarch_wayland_request_render h =
     (let h1 = upd_perf (pf_repaint_requests_update (\<lambda>n. n + 1)) h;
          r = sv_repaint (h_server h1);
          h2 = (if repaint_scheduled r \<or> repaint_ready r \<or> repaint_rendering r
                then upd_perf (pf_repaint_coalesced_update (\<lambda>n. n + 1)) h1 else h1);
          h3 = upd_repaint (repaint_needed_update (\<lambda>_. True)) h2
      in schedule_repaint h3)"

definition trierarch_wayland_repaint_failed :: "host \<Rightarrow> host" where
  "trierarch_wayland_repaint_failed h =
     schedule_repaint (upd_repaint (\<lambda>r. r\<lparr>repaint_rendering := False,
        repaint_ready := False\<rparr>) h)"

text \<open>The repaint half of \<^verbatim>\<open>trierarch_wayland_frame_presented\<close>, after the callbacks.\<close>

definition repaint_frame_done :: "host \<Rightarrow> host" where
  "repaint_frame_done h =
     (let h1 = upd_repaint (\<lambda>r. r\<lparr>repaint_rendering := False, repaint_ready := False\<rparr>) h
      in if repaint_needed (sv_repaint (h_server h1)) then schedule_repaint h1 else h1)"

lemmas repaint_defs =
  schedule_repaint_def repaint_timer_fired_def trierarch_wayland_begin_repaint_def
  trierarch_wayland_request_render_def trierarch_wayland_repaint_failed_def
  repaint_frame_done_def

section \<open>What the operations leave alone\<close>

text \<open>
  The machine writes its own flags and counters only, so every other component can
  request a frame without changing anything it relies on.
\<close>

definition strip_repaint :: "host \<Rightarrow> host" where
  "strip_repaint h = h\<lparr>h_server := (h_server h)\<lparr>
     sv_repaint := \<lparr>repaint_needed = False, repaint_scheduled = False,
       repaint_ready = False, repaint_rendering = False, repaint_fd = 0\<rparr>,
     sv_perf := zero_server_perf\<rparr>\<rparr>"

definition same_but_repaint :: "host \<Rightarrow> host \<Rightarrow> bool" where
  "same_but_repaint h h' \<longleftrightarrow> strip_repaint h' = strip_repaint h"

lemma same_but_repaint_refl [simp]: "same_but_repaint h h"
  by (simp add: same_but_repaint_def)

lemma same_but_repaint_upd [simp]:
  "same_but_repaint h (upd_repaint f h') = same_but_repaint h h'"
  "same_but_repaint h (upd_perf g h') = same_but_repaint h h'"
  by (simp_all add: same_but_repaint_def strip_repaint_def access_defs)

lemma same_but_repaint_trans [trans]:
  "same_but_repaint a b \<Longrightarrow> same_but_repaint b c \<Longrightarrow> same_but_repaint a c"
  by (simp add: same_but_repaint_def)

lemma strip_repaint_keep:
  shows "h_surfaces (strip_repaint h) = h_surfaces h"
    "h_buffers (strip_repaint h) = h_buffers h"
    "h_pools (strip_repaint h) = h_pools h"
    "h_bindings (strip_repaint h) = h_bindings h"
    "h_deferred (strip_repaint h) = h_deferred h"
    "h_client (strip_repaint h) = h_client h"
    "h_version (strip_repaint h) = h_version h"
    "h_log (strip_repaint h) = h_log h"
    "h_fault (strip_repaint h) = h_fault h"
    "h_serial (strip_repaint h) = h_serial h"
    "h_poll_result (strip_repaint h) = h_poll_result h"
    "sids (strip_repaint h) = sids h"
    "sv_cursor_surface (h_server (strip_repaint h)) = sv_cursor_surface (h_server h)"
    "sv_cursor_visible (h_server (strip_repaint h)) = sv_cursor_visible (h_server h)"
    "sv_pointer_focus (h_server (strip_repaint h)) = sv_pointer_focus (h_server h)"
    "sv_keyboard_focus (h_server (strip_repaint h)) = sv_keyboard_focus (h_server h)"
    "sv_output_width (h_server (strip_repaint h)) = sv_output_width (h_server h)"
    "sv_output_height (h_server (strip_repaint h)) = sv_output_height (h_server h)"
    "sv_output_resources (h_server (strip_repaint h)) = sv_output_resources (h_server h)"
    "sv_diag (h_server (strip_repaint h)) = sv_diag (h_server h)"
    "sv_egl_buffers (h_server (strip_repaint h)) = sv_egl_buffers (h_server h)"
    "sv_pointer_buttons (h_server (strip_repaint h)) = sv_pointer_buttons (h_server h)"
    "sv_keyboard (h_server (strip_repaint h)) = sv_keyboard (h_server h)"
  by (simp_all add: strip_repaint_def)

lemma same_but_repaintD:
  assumes "same_but_repaint h h'"
  shows "h_surfaces h' = h_surfaces h"
    "h_buffers h' = h_buffers h"
    "h_pools h' = h_pools h"
    "h_bindings h' = h_bindings h"
    "h_deferred h' = h_deferred h"
    "h_client h' = h_client h"
    "h_version h' = h_version h"
    "h_log h' = h_log h"
    "h_fault h' = h_fault h"
    "h_serial h' = h_serial h"
    "h_poll_result h' = h_poll_result h"
    "sids h' = sids h"
    "sv_cursor_surface (h_server h') = sv_cursor_surface (h_server h)"
    "sv_cursor_visible (h_server h') = sv_cursor_visible (h_server h)"
    "sv_pointer_focus (h_server h') = sv_pointer_focus (h_server h)"
    "sv_keyboard_focus (h_server h') = sv_keyboard_focus (h_server h)"
    "sv_output_width (h_server h') = sv_output_width (h_server h)"
    "sv_output_height (h_server h') = sv_output_height (h_server h)"
    "sv_output_resources (h_server h') = sv_output_resources (h_server h)"
    "sv_diag (h_server h') = sv_diag (h_server h)"
    "sv_egl_buffers (h_server h') = sv_egl_buffers (h_server h)"
    "sv_pointer_buttons (h_server h') = sv_pointer_buttons (h_server h)"
    "sv_keyboard (h_server h') = sv_keyboard (h_server h)"
  using assms unfolding same_but_repaint_def by (metis strip_repaint_keep)+

lemma schedule_repaint_same [simp]:
  "same_but_repaint h (schedule_repaint h') = same_but_repaint h h'"
  by (simp add: schedule_repaint_def Let_def)

lemma request_render_same: "same_but_repaint h (trierarch_wayland_request_render h)"
  by (simp add: trierarch_wayland_request_render_def Let_def)

lemmas request_render_keep [simp] = same_but_repaintD [OF request_render_same]

section \<open>The phases of a frame\<close>

text \<open>
  At most one of scheduled, ready and rendering holds, and while a repaint is needed
  one of them does: the request is on its way to a frame.
\<close>

definition phases_exclusive :: "repaint_state \<Rightarrow> bool" where
  "phases_exclusive r \<longleftrightarrow>
     \<not> (repaint_scheduled r \<and> repaint_ready r) \<and>
     \<not> (repaint_scheduled r \<and> repaint_rendering r) \<and>
     \<not> (repaint_ready r \<and> repaint_rendering r)"

definition request_pending :: "repaint_state \<Rightarrow> bool" where
  "request_pending r \<longleftrightarrow>
     (repaint_needed r \<longrightarrow> repaint_scheduled r \<or> repaint_ready r \<or> repaint_rendering r)"

definition repaint_inv :: "repaint_state \<Rightarrow> bool" where
  "repaint_inv r \<longleftrightarrow> phases_exclusive r \<and> request_pending r"

lemmas repaint_inv_defs = repaint_inv_def phases_exclusive_def request_pending_def

text \<open>The initial flags: \<^verbatim>\<open>calloc\<close> and the timer descriptor.\<close>

definition init_repaint :: "fd \<Rightarrow> repaint_state" where
  "init_repaint d = \<lparr>repaint_needed = False, repaint_scheduled = False,
     repaint_ready = False, repaint_rendering = False, repaint_fd = d\<rparr>"

lemma sv_repaint_upd [simp]:
  "sv_repaint (h_server (upd_repaint f h)) = f (sv_repaint (h_server h))"
  "sv_repaint (h_server (upd_perf g h)) = sv_repaint (h_server h)"
  "h_timer_ok (upd_repaint f h) = h_timer_ok h"
  "h_timer_ok (upd_perf g h) = h_timer_ok h"
  by (simp_all add: access_defs)

text \<open>
  The steps of the machine. The timer fires only while it is armed; a frame is begun by
  the dispatch loop, which then either presents it or reports its failure. Timers may
  start or stop being armable at any time.
\<close>

inductive repaint_step :: "host \<Rightarrow> host \<Rightarrow> bool" where
  request: "repaint_step h (trierarch_wayland_request_render h)"
| fire: "repaint_scheduled (sv_repaint (h_server h)) \<Longrightarrow> repaint_step h (repaint_timer_fired h)"
| begin_frame: "repaint_step h (snd (trierarch_wayland_begin_repaint h))"
| presented: "repaint_rendering (sv_repaint (h_server h)) \<Longrightarrow> repaint_step h (repaint_frame_done h)"
| failed: "repaint_rendering (sv_repaint (h_server h)) \<Longrightarrow>
    repaint_step h (trierarch_wayland_repaint_failed h)"
| timers: "repaint_step h (h\<lparr>h_timer_ok := ok\<rparr>)"

inductive_cases repaint_stepE: "repaint_step h h'"

text \<open>Each operation, seen through the flags only.\<close>

definition arm :: "bool \<Rightarrow> repaint_state \<Rightarrow> repaint_state" where
  "arm ok r =
     (if repaint_scheduled r \<or> repaint_ready r \<or> repaint_rendering r then r
      else if 0 \<le> repaint_fd r \<and> ok then r\<lparr>repaint_scheduled := True\<rparr>
      else r\<lparr>repaint_ready := True\<rparr>)"

lemma schedule_repaint_flags:
  "sv_repaint (h_server (schedule_repaint h)) = arm (h_timer_ok h) (sv_repaint (h_server h))"
  by (simp add: schedule_repaint_def arm_def Let_def)

lemma repaint_flags:
  "sv_repaint (h_server (trierarch_wayland_request_render h)) =
     arm (h_timer_ok h) ((sv_repaint (h_server h))\<lparr>repaint_needed := True\<rparr>)"
  "sv_repaint (h_server (trierarch_wayland_repaint_failed h)) =
     arm (h_timer_ok h) ((sv_repaint (h_server h))\<lparr>repaint_rendering := False,
       repaint_ready := False\<rparr>)"
  "sv_repaint (h_server (repaint_frame_done h)) =
     (let r = (sv_repaint (h_server h))\<lparr>repaint_rendering := False, repaint_ready := False\<rparr>
      in if repaint_needed r then arm (h_timer_ok h) r else r)"
  by (simp_all add: repaint_defs(4-6) schedule_repaint_flags Let_def)

lemma repaint_inv_phases: "repaint_inv r \<Longrightarrow> phases_exclusive r"
  by (simp add: repaint_inv_def)

lemma arm_inv: "phases_exclusive r \<Longrightarrow> repaint_inv (arm ok r)"
  by (auto simp: arm_def repaint_inv_defs)

lemma arm_on_the_way:
  "repaint_scheduled (arm ok r) \<or> repaint_ready (arm ok r) \<or> repaint_rendering (arm ok r)"
  by (simp add: arm_def)

lemma phases_exclusive_keep:
  "phases_exclusive r \<Longrightarrow> phases_exclusive (r\<lparr>repaint_needed := x\<rparr>)"
  "phases_exclusive r \<Longrightarrow> phases_exclusive (r\<lparr>repaint_rendering := False, repaint_ready := False\<rparr>)"
  by (simp_all add: phases_exclusive_def)

lemma repaint_step_inv:
  assumes "repaint_step h h'" and inv: "repaint_inv (sv_repaint (h_server h))"
  shows "repaint_inv (sv_repaint (h_server h'))"
  using assms(1)
proof (cases rule: repaint_step.cases)
  case request
  with inv show ?thesis
    by (simp add: repaint_flags arm_inv phases_exclusive_keep repaint_inv_phases)
next
  case fire
  with inv show ?thesis by (auto simp: repaint_timer_fired_def Let_def repaint_inv_defs)
next
  case begin_frame
  with inv show ?thesis
    by (auto simp: trierarch_wayland_begin_repaint_def Let_def repaint_inv_defs)
next
  case presented
  then show ?thesis
    using repaint_inv_phases [OF inv]
    by (simp add: repaint_flags Let_def arm_inv phases_exclusive_keep)
      (simp add: repaint_inv_defs)
next
  case failed
  with inv show ?thesis
    by (simp add: repaint_flags arm_inv phases_exclusive_keep repaint_inv_phases)
next
  case timers
  with inv show ?thesis by simp
qed

interpretation repaint: transition_system repaint_step "\<lambda>h. repaint_inv (sv_repaint (h_server h))"
  by unfold_locales (rule repaint_step_inv)

lemma init_repaint_inv [simp]: "repaint_inv (init_repaint d)"
  by (simp add: init_repaint_def repaint_inv_defs)

end
