(* ===== verification/Seat.thy ===== *)
theory Seat
  imports Repaint Complex_Main
begin

text \<open>
  The seat (\<^verbatim>\<open>wayland-host/src/seat.c\<close>, \<^verbatim>\<open>keycode_map.c\<close>): the surface that has the
  focus, the pointer with its buttons and cursor, and the keyboard with its modifiers.

  The pointer and the keyboard move their focus the same way; the locale \<open>focus_protocol\<close>
  states what a client may rely on and is interpreted for both.
\<close>

section \<open>The target of input\<close>

text \<open>
  \<^verbatim>\<open>find_pointer_target\<close> walks the surfaces, newest first, and keeps the first one of the
  largest area. A 32-bit width times a 32-bit height fits 64 bits. \<open>None\<close>: the walk met
  a freed surface.
\<close>

definition focusable :: "compositor_surface \<Rightarrow> bool" where
  "focusable x \<longleftrightarrow> s_parent x = None \<and> s_xdg_toplevel x \<noteq> None \<and> s_mapped x \<and> s_current x \<noteq> None"

definition area_of :: "compositor_surface \<Rightarrow> int" where
  "area_of x = s_width x * s_height x"

fun find_target_in :: "(sid \<rightharpoonup> compositor_surface) \<Rightarrow> sid list \<Rightarrow> sid option \<Rightarrow> int \<Rightarrow> sid option option" where
  "find_target_in m [] best best_area = Some best"
| "find_target_in m (s # ss) best best_area = (case m s of None \<Rightarrow> None | Some x \<Rightarrow>
     if \<not> focusable x then find_target_in m ss best best_area
     else if best_area < area_of x then find_target_in m ss (Some s) (area_of x)
     else find_target_in m ss best best_area)"

definition find_pointer_target :: "host \<Rightarrow> sid option option" where
  "find_pointer_target h = find_target_in (h_surfaces h) (sids h) None (-1)"

section \<open>The pointer\<close>

text \<open>The tracked resources of the client a surface belongs to.\<close>

definition resources_of :: "host \<Rightarrow> rid list \<Rightarrow> rid \<Rightarrow> rid list" where
  "resources_of h rs wl_surface = filter (\<lambda>r. h_client h r = h_client h wl_surface) rs"

definition pointers_of :: "host \<Rightarrow> rid \<Rightarrow> rid list" where
  "pointers_of h = resources_of h (sv_pointer_resources (h_server h))"

definition keyboards_of :: "host \<Rightarrow> rid \<Rightarrow> rid list" where
  "keyboards_of h = resources_of h (sv_keyboard_resources (h_server h))"

definition send_pointer_enter :: "sid option \<Rightarrow> host \<Rightarrow> host" where
  "send_pointer_enter surface h = (case surface of None \<Rightarrow> h | Some s \<Rightarrow>
     (case h_surfaces h s of None \<Rightarrow> fault h | Some x \<Rightarrow>
       (let w = s_wl_surface x; h1 = bump_serial h in
        emits (map (\<lambda>r. Send_seat r (Pointer_enter (h_serial h1) w
                 (sv_pointer_x (h_server h)) (sv_pointer_y (h_server h)))) (pointers_of h w)) h1)))"

definition send_pointer_leave :: "sid option \<Rightarrow> host \<Rightarrow> host" where
  "send_pointer_leave surface h = (case surface of None \<Rightarrow> h | Some s \<Rightarrow>
     (case h_surfaces h s of None \<Rightarrow> fault h | Some x \<Rightarrow>
       (let w = s_wl_surface x; h1 = bump_serial h in
        emits (map (\<lambda>r. Send_seat r (Pointer_leave (h_serial h1) w)) (pointers_of h w)) h1)))"

definition update_pointer_focus :: "host \<Rightarrow> host" where
  "update_pointer_focus h = (case find_pointer_target h of None \<Rightarrow> fault h | Some target \<Rightarrow>
     if target = sv_pointer_focus (h_server h) then h
     else let h1 = send_pointer_leave (sv_pointer_focus (h_server h)) h;
              h2 = upd_server (sv_pointer_focus_update (\<lambda>_. target)) h1
          in send_pointer_enter target h2)"

text \<open>A frame event ends the group on a pointer of version 5 or later.\<close>

definition pointer_group :: "host \<Rightarrow> rid \<Rightarrow> seat_event list \<Rightarrow> event list" where
  "pointer_group h r es = map (Send_seat r) (es @ (if 5 \<le> h_version h r then [Pointer_frame] else []))"

text \<open>What is sent to the pointers of the client in focus; nothing without a focus.\<close>

definition to_pointers :: "(host \<Rightarrow> rid \<Rightarrow> seat_event list) \<Rightarrow> host \<Rightarrow> host" where
  "to_pointers ev h = (case sv_pointer_focus (h_server h) of None \<Rightarrow> h | Some s \<Rightarrow>
     (case h_surfaces h s of None \<Rightarrow> fault h | Some x \<Rightarrow>
       emits (concat (map (\<lambda>r. pointer_group h r (ev h r)) (pointers_of h (s_wl_surface x)))) h))"

definition send_pointer_motion :: "u32 \<Rightarrow> host \<Rightarrow> host" where
  "send_pointer_motion time_ms h =
     to_pointers (\<lambda>h r. [Pointer_motion time_ms (sv_pointer_x (h_server h)) (sv_pointer_y (h_server h))])
       (update_pointer_focus h)"

text \<open>
  Coordinates arrive as floating-point numbers; \<open>to_fixed\<close> is libwayland's
  \<^verbatim>\<open>wl_fixed_from_double\<close>.
\<close>

definition clamp_to_output :: "int \<Rightarrow> rat \<Rightarrow> rat" where
  "clamp_to_output extent x =
     (if 0 < extent then if x < 0 then 0 else if of_int extent < x then of_int extent else x else x)"

definition trierarch_pointer_move_absolute ::
  "(rat \<Rightarrow> int) \<Rightarrow> rat \<Rightarrow> rat \<Rightarrow> u32 \<Rightarrow> host \<Rightarrow> host" where
  "trierarch_pointer_move_absolute to_fixed x y time_ms h =
     (let v = h_server h;
          h1 = upd_server (\<lambda>v. v\<lparr>sv_pointer_x := to_fixed (clamp_to_output (sv_output_width v) x),
                 sv_pointer_y := to_fixed (clamp_to_output (sv_output_height v) y)\<rparr>) h
      in trierarch_wayland_request_render (send_pointer_motion time_ms h1))"

text \<open>\<open>fl\<close>: the rounding of a sum to a \<^verbatim>\<open>float\<close>.\<close>

definition trierarch_pointer_move_relative ::
  "(rat \<Rightarrow> int) \<Rightarrow> (rat \<Rightarrow> rat) \<Rightarrow> rat \<Rightarrow> rat \<Rightarrow> u32 \<Rightarrow> host \<Rightarrow> host" where
  "trierarch_pointer_move_relative to_fixed fl delta_x delta_y time_ms h =
     trierarch_pointer_move_absolute to_fixed
       (fl (fl (of_int (sv_pointer_x (h_server h)) / 256) + delta_x))
       (fl (fl (of_int (sv_pointer_y (h_server h)) / 256) + delta_y)) time_ms h"

definition BTN_LEFT :: u32 where "BTN_LEFT = 0x110"
definition BTN_RIGHT :: u32 where "BTN_RIGHT = 0x111"
definition BTN_MIDDLE :: u32 where "BTN_MIDDLE = 0x112"

definition button_bit :: "int \<Rightarrow> u32" where
  "button_bit button = (if 1 \<le> button \<and> button \<le> 3 then push_bit (nat (button - 1)) 1 else 0)"

definition linux_button :: "int \<Rightarrow> u32" where
  "linux_button button = (if button = 2 then BTN_MIDDLE else if button = 3 then BTN_RIGHT else BTN_LEFT)"

definition trierarch_pointer_set_button :: "int \<Rightarrow> bool \<Rightarrow> u32 \<Rightarrow> host \<Rightarrow> host" where
  "trierarch_pointer_set_button button pressed time_ms h =
     (let bit = button_bit button in
      if bit = 0 \<or> (sv_pointer_buttons (h_server h) AND bit \<noteq> 0) = pressed then h
      else let h1 = update_pointer_focus h in
       (case sv_pointer_focus (h_server h1) of
          None \<Rightarrow> if pressed then h1
                  else upd_server (sv_pointer_buttons_update (\<lambda>b. b AND NOT bit)) h1
        | Some _ \<Rightarrow>
            (let h2 = bump_serial h1;
                 h3 = to_pointers (\<lambda>h r. [Pointer_button (h_serial h) time_ms (linux_button button) pressed]) h2
             in upd_server (sv_pointer_buttons_update
                  (\<lambda>b. if pressed then b OR bit else b AND NOT bit)) h3)))"

definition trierarch_pointer_scroll ::
  "(rat \<Rightarrow> int) \<Rightarrow> rat \<Rightarrow> rat \<Rightarrow> u32 \<Rightarrow> u32 \<Rightarrow> host \<Rightarrow> host" where
  "trierarch_pointer_scroll to_fixed delta_x delta_y source time_ms h =
     to_pointers (\<lambda>h r.
        (if 5 \<le> h_version h r then [Pointer_axis_source source] else [])
        @ (if delta_y \<noteq> 0 then [Pointer_axis time_ms 0 (to_fixed delta_y)] else [])
        @ (if delta_x \<noteq> 0 then [Pointer_axis time_ms 1 (to_fixed delta_x)] else []))
      (update_pointer_focus h)"

definition reset_button :: "u32 \<Rightarrow> int \<Rightarrow> host \<Rightarrow> host" where
  "reset_button time_ms button h =
     (if sv_pointer_buttons (h_server h) AND push_bit (nat (button - 1)) 1 \<noteq> 0
      then trierarch_pointer_set_button button False time_ms h else h)"

definition trierarch_pointer_reset :: "u32 \<Rightarrow> host \<Rightarrow> host" where
  "trierarch_pointer_reset time_ms h = fold (reset_button time_ms) [1, 2, 3] h"

definition trierarch_pointer_set_cursor_visible :: "bool \<Rightarrow> host \<Rightarrow> host" where
  "trierarch_pointer_set_cursor_visible visible h =
     (if sv_cursor_visible (h_server h) \<noteq> visible
      then trierarch_wayland_request_render (upd_server (sv_cursor_visible_update (\<lambda>_. visible)) h)
      else h)"

text \<open>
  \<open>surface\<close> is the \<^verbatim>\<open>wl_surface\<close> named by the request with the surface behind it.
\<close>

definition pointer_set_cursor ::
  "cid \<Rightarrow> (rid \<times> sid option) option \<Rightarrow> int \<Rightarrow> int \<Rightarrow> host \<Rightarrow> host" where
  "pointer_set_cursor client surface hotspot_x hotspot_y h =
     (let h1 = (case sv_cursor_surface (h_server h) of None \<Rightarrow> h | Some s \<Rightarrow>
            upd_surface s (s_is_cursor_update (\<lambda>_. False)) h);
          h2 = trierarch_wayland_request_render
            (upd_server (\<lambda>v. v\<lparr>sv_cursor_surface := None, sv_cursor_hotspot_x := 0,
               sv_cursor_hotspot_y := 0\<rparr>) h1)
      in (case surface of
            Some (r, Some s) \<Rightarrow>
              if h_client h2 r \<noteq> client then h2
              else upd_server (\<lambda>v. v\<lparr>sv_cursor_surface := Some s, sv_cursor_hotspot_x := hotspot_x,
                     sv_cursor_hotspot_y := hotspot_y\<rparr>)
                   (upd_surface s (s_is_cursor_update (\<lambda>_. True)) h2)
          | _ \<Rightarrow> h2))"

section \<open>The keyboard\<close>

text \<open>Each event to a keyboard takes a serial of its own.\<close>

definition keyboard_entered :: "rid \<Rightarrow> rid \<Rightarrow> host \<Rightarrow> host" where
  "keyboard_entered w r h =
     (let h1 = bump_serial h;
          h2 = bump_serial (emit (Send_seat r (Keyboard_enter (h_serial h1) w)) h1);
          k = sv_keyboard (h_server h)
      in emit (Send_seat r (Keyboard_modifiers (h_serial h2) (keyboard_mods_depressed k)
           (keyboard_mods_locked k))) h2)"

definition send_keyboard_enter :: "sid option \<Rightarrow> host \<Rightarrow> host" where
  "send_keyboard_enter surface h = (case surface of None \<Rightarrow> h | Some s \<Rightarrow>
     (case h_surfaces h s of None \<Rightarrow> fault h | Some x \<Rightarrow>
       fold (keyboard_entered (s_wl_surface x)) (keyboards_of h (s_wl_surface x)) h))"

definition keyboard_left :: "rid \<Rightarrow> rid \<Rightarrow> host \<Rightarrow> host" where
  "keyboard_left w r h = (let h1 = bump_serial h
     in emit (Send_seat r (Keyboard_leave (h_serial h1) w)) h1)"

definition send_keyboard_leave :: "sid option \<Rightarrow> host \<Rightarrow> host" where
  "send_keyboard_leave surface h = (case surface of None \<Rightarrow> h | Some s \<Rightarrow>
     (case h_surfaces h s of None \<Rightarrow> fault h | Some x \<Rightarrow>
       fold (keyboard_left (s_wl_surface x)) (keyboards_of h (s_wl_surface x)) h))"

definition update_keyboard_focus :: "host \<Rightarrow> host" where
  "update_keyboard_focus h = (case find_pointer_target h of None \<Rightarrow> fault h | Some target \<Rightarrow>
     if target = sv_keyboard_focus (h_server h) then h
     else let h1 = send_keyboard_leave (sv_keyboard_focus (h_server h)) h;
              h2 = upd_server (sv_keyboard_focus_update (\<lambda>_. target)) h1
          in send_keyboard_enter target h2)"

definition modifier_bit :: "u32 \<Rightarrow> u32" where
  "modifier_bit key =
     (if key = 42 \<or> key = 54 then push_bit 0 1
      else if key = 29 \<or> key = 97 then push_bit 2 1
      else if key = 56 \<or> key = 100 then push_bit 3 1
      else if key = 125 \<or> key = 126 then push_bit 6 1 else 0)"

definition locked_mask :: "keyboard_state \<Rightarrow> u32" where
  "locked_mask k = (if keyboard_caps_lock k then push_bit 1 1 else 0) OR
     (if keyboard_num_lock k then push_bit 4 1 else 0) OR
     (if keyboard_scroll_lock k then push_bit 5 1 else 0)"

definition update_keyboard_modifiers :: "u32 \<Rightarrow> bool \<Rightarrow> keyboard_state \<Rightarrow> keyboard_state" where
  "update_keyboard_modifiers key pressed k =
     (let bit = modifier_bit key in
      if bit = 0 \<and> key \<noteq> 58 \<and> key \<noteq> 69 \<and> key \<noteq> 70 then k
      else let k1 =
            (if key = 58 then
               k\<lparr>keyboard_caps_lock := (if pressed \<and> \<not> keyboard_caps_lock_down k
                    then \<not> keyboard_caps_lock k else keyboard_caps_lock k),
                 keyboard_caps_lock_down := pressed\<rparr>
             else if key = 69 then
               k\<lparr>keyboard_num_lock := (if pressed \<and> \<not> keyboard_num_lock_down k
                    then \<not> keyboard_num_lock k else keyboard_num_lock k),
                 keyboard_num_lock_down := pressed\<rparr>
             else if key = 70 then
               k\<lparr>keyboard_scroll_lock := (if pressed \<and> \<not> keyboard_scroll_lock_down k
                    then \<not> keyboard_scroll_lock k else keyboard_scroll_lock k)\<rparr>
             else k);
           k2 = (if bit \<noteq> 0
             then k1\<lparr>keyboard_mods_depressed := (if pressed then keyboard_mods_depressed k1 OR bit
                    else keyboard_mods_depressed k1 AND NOT bit)\<rparr>
             else k1)
       in k2\<lparr>keyboard_mods_locked := locked_mask k2\<rparr>)"

definition keyboard_keyed :: "u32 \<Rightarrow> bool \<Rightarrow> u32 \<Rightarrow> rid \<Rightarrow> host \<Rightarrow> host" where
  "keyboard_keyed key pressed time_ms r h =
     (let h1 = bump_serial h;
          k = sv_keyboard (h_server h);
          h2 = bump_serial (emit (Send_seat r (Keyboard_modifiers (h_serial h1)
                 (keyboard_mods_depressed k) (keyboard_mods_locked k))) h1)
      in emit (Send_seat r (Keyboard_key (h_serial h2) time_ms key pressed)) h2)"

definition trierarch_keyboard_set_key :: "u32 \<Rightarrow> bool \<Rightarrow> u32 \<Rightarrow> host \<Rightarrow> host" where
  "trierarch_keyboard_set_key key pressed time_ms h =
     (if key = 0 then h
      else let h1 = update_keyboard_focus h in
       (case sv_keyboard_focus (h_server h1) of None \<Rightarrow> h1 | Some s \<Rightarrow>
         (case h_surfaces h1 s of None \<Rightarrow> fault h1 | Some x \<Rightarrow>
           (let h2 = upd_server (sv_keyboard_update (update_keyboard_modifiers key pressed)) h1
            in fold (keyboard_keyed key pressed time_ms) (keyboards_of h2 (s_wl_surface x)) h2))))"

section \<open>The seat's objects\<close>

text \<open>
  \<open>res\<close> is the new resource, \<open>mem\<close> whether the list node could be allocated;
  \<open>max_version\<close> is the version of the generated interface.
\<close>

definition track_pointer_resource :: "bool \<Rightarrow> rid \<Rightarrow> host \<Rightarrow> host" where
  "track_pointer_resource mem r h = (if mem then upd_server (sv_pointer_resources_update (\<lambda>rs. r # rs)) h else h)"

definition track_keyboard_resource :: "bool \<Rightarrow> rid \<Rightarrow> host \<Rightarrow> host" where
  "track_keyboard_resource mem r h = (if mem then upd_server (sv_keyboard_resources_update (\<lambda>rs. r # rs)) h else h)"

definition seat_get_pointer :: "cid \<Rightarrow> rid \<Rightarrow> nat \<Rightarrow> rid option \<Rightarrow> bool \<Rightarrow> host \<Rightarrow> host" where
  "seat_get_pointer client seat max_version res mem h = (case res of
       None \<Rightarrow> emit (Post_no_memory client) h
     | Some r \<Rightarrow>
         track_pointer_resource mem r (new_resource client (min (h_version h seat) max_version) r h))"

text \<open>\<open>file\<close>: the descriptor of the temporary file, if it could be made, and whether the whole keymap could be written to it.\<close>

definition send_keymap :: "(fd \<times> bool) option \<Rightarrow> rid \<Rightarrow> host \<Rightarrow> host" where
  "send_keymap file r h = (case file of None \<Rightarrow> h | Some (f, whole) \<Rightarrow>
     emit (Close_fd f) (if whole then emit (Send_seat r Keyboard_keymap) h else h))"

definition seat_get_keyboard :: "cid \<Rightarrow> rid \<Rightarrow> nat \<Rightarrow> rid option \<Rightarrow> bool \<Rightarrow> (fd \<times> bool) option \<Rightarrow> host \<Rightarrow> host" where
  "seat_get_keyboard client seat max_version res mem file h = (case res of
       None \<Rightarrow> emit (Post_no_memory client) h
     | Some r \<Rightarrow>
         (let h1 = new_resource client (min (h_version h seat) max_version) r h;
              h2 = send_keymap file r (track_keyboard_resource mem r h1);
              h3 = (if 4 \<le> h_version h2 r then emit (Send_seat r Keyboard_repeat_info) h2 else h2)
          in update_keyboard_focus h3))"

definition seat_get_touch :: "cid \<Rightarrow> rid option \<Rightarrow> host \<Rightarrow> host" where
  "seat_get_touch client res h = (case res of None \<Rightarrow> emit (Post_no_memory client) h | Some _ \<Rightarrow> h)"

definition pointer_resource_destroy :: "rid \<Rightarrow> host \<Rightarrow> host" where
  "pointer_resource_destroy r = upd_server (sv_pointer_resources_update (remove1 r))"

definition keyboard_resource_destroy :: "rid \<Rightarrow> host \<Rightarrow> host" where
  "keyboard_resource_destroy r = upd_server (sv_keyboard_resources_update (remove1 r))"

definition trierarch_seat_bind :: "cid \<Rightarrow> nat \<Rightarrow> rid option \<Rightarrow> host \<Rightarrow> host" where
  "trierarch_seat_bind client version res h = (case res of
       None \<Rightarrow> emit (Post_no_memory client) h
     | Some r \<Rightarrow>
         (let h1 = new_resource client (min version 9) r h
          in emits (map (Send_seat r) (Seat_capabilities # (if 2 \<le> min version 9 then [Seat_name] else []))) h1))"

section \<open>Android key codes\<close>

definition android_keys :: "(int \<times> u32) list" where
  "android_keys =
     [(7, 11), (8, 2), (9, 3), (10, 4), (11, 5), (12, 6), (13, 7), (14, 8), (15, 9), (16, 10),
      (19, 103), (20, 108), (21, 105), (22, 106), (28, 28), (29, 30), (30, 48), (31, 46), (32, 32),
      (33, 18), (34, 33), (35, 34), (36, 35), (37, 23), (38, 36), (39, 37), (40, 38), (41, 50),
      (42, 49), (43, 24), (44, 25), (45, 16), (46, 19), (47, 31), (48, 20), (49, 22), (50, 47),
      (51, 17), (52, 45), (53, 21), (54, 44), (55, 51), (56, 52), (57, 56), (58, 100), (59, 42),
      (60, 54), (61, 15), (62, 57), (66, 28), (67, 14), (68, 41), (69, 12), (70, 13), (71, 26),
      (72, 27), (73, 43), (74, 39), (75, 40), (76, 53), (92, 104), (93, 109), (111, 1), (112, 111),
      (113, 29), (114, 97), (115, 58), (116, 70), (117, 125), (118, 126), (122, 102), (123, 107),
      (124, 110), (131, 59), (132, 60), (133, 61), (134, 62), (135, 63), (136, 64), (137, 65),
      (138, 66), (139, 67), (140, 68), (141, 87), (142, 88), (143, 69)]"

definition trierarch_android_keycode_to_evdev :: "int \<Rightarrow> u32" where
  "trierarch_android_keycode_to_evdev keycode =
     (case map_of android_keys keycode of Some e \<Rightarrow> e | None \<Rightarrow> 0)"

section \<open>The target is the first of the largest\<close>

definition first_largest :: "(sid \<rightharpoonup> compositor_surface) \<Rightarrow> sid list \<Rightarrow> int \<Rightarrow> sid \<Rightarrow> bool" where
  "first_largest m ss a s \<longleftrightarrow> (\<exists>x ys zs. ss = ys @ s # zs \<and> m s = Some x \<and> focusable x \<and> a < area_of x \<and>
     (\<forall>t y. t \<in> set ys \<longrightarrow> m t = Some y \<longrightarrow> focusable y \<longrightarrow> area_of y < area_of x) \<and>
     (\<forall>t y. t \<in> set zs \<longrightarrow> m t = Some y \<longrightarrow> focusable y \<longrightarrow> area_of y \<le> area_of x))"

definition none_larger :: "(sid \<rightharpoonup> compositor_surface) \<Rightarrow> sid list \<Rightarrow> int \<Rightarrow> bool" where
  "none_larger m ss a \<longleftrightarrow> (\<forall>s x. s \<in> set ss \<longrightarrow> m s = Some x \<longrightarrow> focusable x \<longrightarrow> area_of x \<le> a)"

lemma first_largest_Cons:
  assumes "first_largest m ss b s" "m t = Some y" "focusable y \<Longrightarrow> area_of y \<le> b" "a \<le> b"
  shows "first_largest m (t # ss) a s"
proof -
  obtain x ys zs where *: "ss = ys @ s # zs" "m s = Some x" "focusable x" "b < area_of x"
    "\<forall>t y. t \<in> set ys \<longrightarrow> m t = Some y \<longrightarrow> focusable y \<longrightarrow> area_of y < area_of x"
    "\<forall>t y. t \<in> set zs \<longrightarrow> m t = Some y \<longrightarrow> focusable y \<longrightarrow> area_of y \<le> area_of x"
    using assms(1) unfolding first_largest_def by blast
  show ?thesis
    unfolding first_largest_def
    by (intro exI [of _ x] exI [of _ "t # ys"] exI [of _ zs]) (use * assms(2-4) in auto)
qed

lemma find_target_in_spec:
  assumes "set ss \<subseteq> dom m"
  shows "\<exists>t. find_target_in m ss best a = Some t \<and>
    (t = best \<and> none_larger m ss a \<or> (\<exists>s. t = Some s \<and> first_largest m ss a s))"
  using assms
proof (induction ss arbitrary: best a)
  case Nil
  show ?case by (simp add: none_larger_def)
next
  case (Cons s ss)
  obtain x where x: "m s = Some x" using Cons.prems by auto
  have ss: "set ss \<subseteq> dom m" using Cons.prems by simp
  show ?case
  proof (cases "focusable x \<and> a < area_of x")
    case True
    have here: "first_largest m (s # ss) a s" if "none_larger m ss (area_of x)"
      unfolding first_largest_def
      by (intro exI [of _ x] exI [of _ "[]"] exI [of _ ss]) (use that x True in \<open>auto simp: none_larger_def\<close>)
    have "first_largest m (s # ss) a t" if "first_largest m ss (area_of x) t" for t
      using that x True by (intro first_largest_Cons [of m ss "area_of x"]) auto
    with here Cons.IH [OF ss, of "Some s" "area_of x"] x True show ?thesis by auto
  next
    case False
    have "first_largest m (s # ss) a t" if "first_largest m ss a t" for t
      using that x False by (intro first_largest_Cons [of m ss a]) auto
    moreover have "none_larger m (s # ss) a" if "none_larger m ss a"
      using that x False by (auto simp: none_larger_def)
    ultimately show ?thesis using Cons.IH [OF ss, of best a] x False by auto
  qed
qed

lemma find_target_spec:
  assumes "set (sids h) \<subseteq> dom (h_surfaces h)"
  obtains "find_pointer_target h = Some None" "none_larger (h_surfaces h) (sids h) (-1)"
  | s where "find_pointer_target h = Some (Some s)" "first_largest (h_surfaces h) (sids h) (-1) s"
  using find_target_in_spec [OF assms, of None "-1"] unfolding find_pointer_target_def by blast

lemma find_target_focusable:
  assumes "set (sids h) \<subseteq> dom (h_surfaces h)" "find_pointer_target h = Some (Some s)"
  shows "\<exists>x. h_surfaces h s = Some x \<and> focusable x"
  using find_target_spec [OF assms(1)] assms(2) by (metis first_largest_def option.distinct(1) option.inject)

lemma find_target_live:
  assumes "set (sids h) \<subseteq> dom (h_surfaces h)"
  obtains t where "find_pointer_target h = Some t" "\<And>s. t = Some s \<Longrightarrow> h_surfaces h s \<noteq> None"
proof -
  obtain t where t: "find_pointer_target h = Some t" using find_target_spec [OF assms] by blast
  then have "h_surfaces h s \<noteq> None" if "t = Some s" for s
    using find_target_focusable [OF assms, of s] that by auto
  with t that show ?thesis by blast
qed

lemma find_target_cong:
  "h_surfaces h' = h_surfaces h \<Longrightarrow> sids h' = sids h \<Longrightarrow> find_pointer_target h' = find_pointer_target h"
  by (simp add: find_pointer_target_def)

section \<open>Focus\<close>

text \<open>
  The contract of the two focus updates: the focus moves to the target, nothing happens
  when it is there already, surfaces are left alone, and no pointer is followed but that
  of the surface that loses the focus.
\<close>

locale focus_protocol =
  fixes update :: "host \<Rightarrow> host" and focus :: "host \<Rightarrow> sid option"
  assumes update_moves: "find_pointer_target h = Some t \<Longrightarrow> focus (update h) = t"
    and update_stays: "find_pointer_target h = Some (focus h) \<Longrightarrow> update h = h"
    and update_surfaces: "h_surfaces (update h) = h_surfaces h"
    and update_sids: "sids (update h) = sids h"
    and update_fault: "set (sids h) \<subseteq> dom (h_surfaces h) \<Longrightarrow> h_fault (update h) \<longleftrightarrow> h_fault h \<or>
      (find_pointer_target h \<noteq> Some (focus h) \<and> (\<exists>s. focus h = Some s \<and> h_surfaces h s = None))"
begin

lemma update_focus:
  assumes "set (sids h) \<subseteq> dom (h_surfaces h)"
  shows "find_pointer_target h = Some (focus (update h))"
  using find_target_spec [OF assms] by (metis update_moves)

lemma update_idem:
  assumes "set (sids h) \<subseteq> dom (h_surfaces h)"
  shows "update (update h) = update h"
proof (rule update_stays)
  show "find_pointer_target (update h) = Some (focus (update h))"
    using update_focus [OF assms] find_target_cong [OF update_surfaces update_sids] by simp
qed

lemma update_focusable:
  assumes "set (sids h) \<subseteq> dom (h_surfaces h)" "focus (update h) = Some s"
  shows "\<exists>x. h_surfaces (update h) s = Some x \<and> focusable x"
  using find_target_focusable [OF assms(1)] update_focus [OF assms(1)] assms(2) by (simp add: update_surfaces)

text \<open>A focus that is not a live surface is followed by the next update.\<close>

lemma dangling_focus_faults:
  assumes "set (sids h) \<subseteq> dom (h_surfaces h)" "focus h = Some s" "h_surfaces h s = None"
  shows "h_fault (update h)"
proof -
  have "find_pointer_target h \<noteq> Some (focus h)"
    using find_target_focusable [OF assms(1), of s] assms(2,3) by auto
  with assms show ?thesis by (simp add: update_fault)
qed

lemma live_focus_safe:
  assumes "set (sids h) \<subseteq> dom (h_surfaces h)" "\<And>s. focus h = Some s \<Longrightarrow> h_surfaces h s \<noteq> None"
  shows "h_fault (update h) = h_fault h"
  using assms by (auto simp: update_fault)

end

lemma emit_keep [simp]:
  "h_server (emit e h) = h_server h" "h_surfaces (emit e h) = h_surfaces h" "h_fault (emit e h) = h_fault h"
  "h_server (emits es h) = h_server h" "h_surfaces (emits es h) = h_surfaces h" "h_fault (emits es h) = h_fault h"
  "h_server (bump_serial h) = h_server h" "h_surfaces (bump_serial h) = h_surfaces h"
  "h_fault (bump_serial h) = h_fault h"
  "h_server (fault h) = h_server h" "h_surfaces (fault h) = h_surfaces h" "h_fault (fault h)"
  "h_surfaces (upd_server f h) = h_surfaces h" "h_fault (upd_server f h) = h_fault h"
  "h_server (upd_server f h) = f (h_server h)"
  by (simp_all add: access_defs)

lemma fold_keep:
  assumes "\<And>r h. g (f r h) = g h"
  shows "g (fold f rs h) = g h"
  using assms by (induction rs arbitrary: h) simp_all

lemma send_keep:
  "h_server (send_pointer_enter p h) = h_server h" "h_surfaces (send_pointer_enter p h) = h_surfaces h"
  "h_server (send_pointer_leave p h) = h_server h" "h_surfaces (send_pointer_leave p h) = h_surfaces h"
  "h_server (send_keyboard_enter p h) = h_server h" "h_surfaces (send_keyboard_enter p h) = h_surfaces h"
  "h_server (send_keyboard_leave p h) = h_server h" "h_surfaces (send_keyboard_leave p h) = h_surfaces h"
  by (simp_all add: send_pointer_enter_def send_pointer_leave_def send_keyboard_enter_def
      send_keyboard_leave_def Let_def keyboard_entered_def keyboard_left_def fold_keep split: option.splits)

lemma send_fault:
  "h_fault (send_pointer_enter p h) \<longleftrightarrow> h_fault h \<or> (\<exists>s. p = Some s \<and> h_surfaces h s = None)"
  "h_fault (send_pointer_leave p h) \<longleftrightarrow> h_fault h \<or> (\<exists>s. p = Some s \<and> h_surfaces h s = None)"
  "h_fault (send_keyboard_enter p h) \<longleftrightarrow> h_fault h \<or> (\<exists>s. p = Some s \<and> h_surfaces h s = None)"
  "h_fault (send_keyboard_leave p h) \<longleftrightarrow> h_fault h \<or> (\<exists>s. p = Some s \<and> h_surfaces h s = None)"
  by (auto simp: send_pointer_enter_def send_pointer_leave_def send_keyboard_enter_def
      send_keyboard_leave_def Let_def keyboard_entered_def keyboard_left_def fold_keep split: option.splits)

interpretation pointer: focus_protocol update_pointer_focus "\<lambda>h. sv_pointer_focus (h_server h)"
proof
  fix h :: host
  assume live: "set (sids h) \<subseteq> dom (h_surfaces h)"
  show "h_fault (update_pointer_focus h) \<longleftrightarrow> h_fault h \<or>
      (find_pointer_target h \<noteq> Some (sv_pointer_focus (h_server h)) \<and>
       (\<exists>s. sv_pointer_focus (h_server h) = Some s \<and> h_surfaces h s = None))"
  proof -
    obtain t where t: "find_pointer_target h = Some t" "\<And>s. t = Some s \<Longrightarrow> h_surfaces h s \<noteq> None"
      using find_target_live [OF live] by blast
    show ?thesis
      using t by (cases t) (auto simp: update_pointer_focus_def Let_def send_fault send_keep)
  qed
qed (auto simp: update_pointer_focus_def Let_def send_keep split: option.splits)

interpretation keyboard: focus_protocol update_keyboard_focus "\<lambda>h. sv_keyboard_focus (h_server h)"
proof
  fix h :: host
  assume live: "set (sids h) \<subseteq> dom (h_surfaces h)"
  show "h_fault (update_keyboard_focus h) \<longleftrightarrow> h_fault h \<or>
      (find_pointer_target h \<noteq> Some (sv_keyboard_focus (h_server h)) \<and>
       (\<exists>s. sv_keyboard_focus (h_server h) = Some s \<and> h_surfaces h s = None))"
  proof -
    obtain t where t: "find_pointer_target h = Some t" "\<And>s. t = Some s \<Longrightarrow> h_surfaces h s \<noteq> None"
      using find_target_live [OF live] by blast
    show ?thesis
      using t by (cases t) (auto simp: update_keyboard_focus_def Let_def send_fault send_keep)
  qed
qed (auto simp: update_keyboard_focus_def Let_def send_keep split: option.splits)

section \<open>Buttons\<close>

lemma pointer_buttons_keep:
  "sv_pointer_buttons (h_server (update_pointer_focus h)) = sv_pointer_buttons (h_server h)"
  "h_server (to_pointers ev h) = h_server h"
  by (auto simp: update_pointer_focus_def to_pointers_def Let_def send_keep split: option.splits)

lemma and_not_clear: "w AND c = 0 \<Longrightarrow> w AND NOT c = w" for w c :: "'a::len word"
proof (rule bit_word_eqI)
  fix n assume "w AND c = 0" "n < LENGTH('a)"
  then have "\<not> bit (w AND c) n" by simp
  then show "bit (w AND NOT c) n = bit w n" using \<open>n < LENGTH('a)\<close> by (auto simp: bit_simps)
qed

lemma or_bit_held: "w AND push_bit k 1 \<noteq> 0 \<Longrightarrow> w OR push_bit k 1 = w" for w :: "'a::len word"
proof (rule bit_word_eqI)
  fix n assume a: "w AND push_bit k 1 \<noteq> 0" "n < LENGTH('a)"
  then have "bit w k" by (simp add: push_bit_of_1 and_exp_eq_0_iff_not_bit)
  then show "bit (w OR push_bit k 1) n = bit w n" using a(2) by (auto simp: bit_simps)
qed

lemma released_button:
  "sv_pointer_buttons (h_server (trierarch_pointer_set_button button False t h)) =
    sv_pointer_buttons (h_server h) AND NOT (button_bit button)"
proof (cases "sv_pointer_buttons (h_server h) AND button_bit button = 0")
  case True
  then show ?thesis by (simp add: trierarch_pointer_set_button_def Let_def and_not_clear)
next
  case False
  then show ?thesis
    by (cases "sv_pointer_focus (h_server (update_pointer_focus h))")
      (auto simp: trierarch_pointer_set_button_def Let_def pointer_buttons_keep)
qed

lemma pressed_button:
  assumes "1 \<le> button" "button \<le> 3"
  shows "sv_pointer_buttons (h_server (trierarch_pointer_set_button button True t h)) =
    (if sv_pointer_focus (h_server (update_pointer_focus h)) = None
     then sv_pointer_buttons (h_server h)
     else sv_pointer_buttons (h_server h) OR button_bit button)"
proof -
  have b: "button_bit button = push_bit (nat (button - 1)) 1" using assms by (simp add: button_bit_def)
  have "button_bit button \<noteq> 0"
  proof -
    have "button = 1 \<or> button = 2 \<or> button = 3" using assms by linarith
    then show ?thesis by (auto simp: b)
  qed
  then show ?thesis
    using or_bit_held [of "sv_pointer_buttons (h_server h)" "nat (button - 1)"]
    by (cases "sv_pointer_focus (h_server (update_pointer_focus h))")
      (auto simp: trierarch_pointer_set_button_def Let_def pointer_buttons_keep b)
qed

lemma reset_button_buttons:
  assumes "1 \<le> button" "button \<le> 3"
  shows "sv_pointer_buttons (h_server (reset_button t button h)) =
    sv_pointer_buttons (h_server h) AND NOT (button_bit button)"
  using assms by (auto simp: reset_button_def released_button button_bit_def and_not_clear)

lemma reset_buttons:
  "sv_pointer_buttons (h_server (trierarch_pointer_reset t h)) = sv_pointer_buttons (h_server h) AND NOT 7"
proof -
  have "NOT 1 AND NOT 2 AND NOT 4 = (NOT 7 :: u32)" by simp
  then show ?thesis
    by (simp add: trierarch_pointer_reset_def reset_button_buttons button_bit_def and.assoc)
qed

section \<open>Modifiers\<close>

definition lock_mask_ok :: "keyboard_state \<Rightarrow> bool" where
  "lock_mask_ok k \<longleftrightarrow> keyboard_mods_locked k = locked_mask k \<and>
     keyboard_mods_depressed k AND NOT 0x4D = 0"

lemma modifier_bits: "modifier_bit key \<in> {0, 1, 4, 8, 64}"
  by (simp add: modifier_bit_def)

lemma locked_mask_upd [simp]:
  "locked_mask (k\<lparr>keyboard_mods_locked := m\<rparr>) = locked_mask k"
  by (simp add: locked_mask_def)

lemma depressed_modifiers:
  "keyboard_mods_depressed (update_keyboard_modifiers key pressed k) =
     (if pressed then keyboard_mods_depressed k OR modifier_bit key
      else keyboard_mods_depressed k AND NOT (modifier_bit key))"
  by (simp add: update_keyboard_modifiers_def Let_def)

lemma locked_modifiers:
  assumes "keyboard_mods_locked k = locked_mask k"
  shows "keyboard_mods_locked (update_keyboard_modifiers key pressed k) =
    locked_mask (update_keyboard_modifiers key pressed k)"
  using assms by (simp add: update_keyboard_modifiers_def Let_def)

lemma modifiers_mask_ok:
  assumes "lock_mask_ok k"
  shows "lock_mask_ok (update_keyboard_modifiers key pressed k)"
proof -
  let ?d = "keyboard_mods_depressed k" and ?c = "modifier_bit key"
  have z: "?d AND NOT 0x4D = 0" using assms by (simp add: lock_mask_ok_def)
  have "?d AND NOT ?c AND NOT 0x4D = NOT ?c AND ?d AND NOT 0x4D" by (rule and.left_commute)
  then have "?d AND NOT ?c AND NOT 0x4D = 0" unfolding z by simp
  then have "(?d AND NOT ?c) AND NOT 0x4D = 0" by (simp only: and.assoc)
  moreover have "?c AND NOT 0x4D = 0" using modifier_bits [of key] by auto
  then have "(?d OR ?c) AND NOT 0x4D = 0" using z by (simp add: bit.conj_disj_distrib2)
  ultimately show ?thesis
    using assms by (simp add: lock_mask_ok_def depressed_modifiers locked_modifiers)
qed

text \<open>The auto-repeat of a held lock key arrives as further presses.\<close>

lemma caps_lock_repeat:
  "keyboard_caps_lock ((update_keyboard_modifiers 58 True ^^ Suc n) k) =
     (if keyboard_caps_lock_down k then keyboard_caps_lock k else \<not> keyboard_caps_lock k) \<and>
   keyboard_caps_lock_down ((update_keyboard_modifiers 58 True ^^ Suc n) k)"
  by (induction n) (simp_all add: update_keyboard_modifiers_def modifier_bit_def Let_def)

lemma num_lock_repeat:
  "keyboard_num_lock ((update_keyboard_modifiers 69 True ^^ Suc n) k) =
     (if keyboard_num_lock_down k then keyboard_num_lock k else \<not> keyboard_num_lock k) \<and>
   keyboard_num_lock_down ((update_keyboard_modifiers 69 True ^^ Suc n) k)"
  by (induction n) (simp_all add: update_keyboard_modifiers_def modifier_bit_def Let_def)

lemma scroll_lock_repeat:
  assumes "\<not> keyboard_scroll_lock_down k"
  shows "keyboard_scroll_lock ((update_keyboard_modifiers 70 True ^^ n) k) = (keyboard_scroll_lock k \<noteq> odd n) \<and>
   \<not> keyboard_scroll_lock_down ((update_keyboard_modifiers 70 True ^^ n) k)"
  using assms by (induction n) (auto simp: update_keyboard_modifiers_def modifier_bit_def Let_def)

end
