(* ===== verification/Subcompositor.thy ===== *)
theory Subcompositor
  imports Host_State
begin

text \<open>
  Subsurfaces (\<^verbatim>\<open>wayland-host/src/subcompositor.c\<close>): the parent pointer of a surface and
  the list of children of the parent, which is the drawing order, bottom first.

  The lemmas show that the two stay consistent as long as no surface is placed relative
  to itself, what each stacking request does to the order, and that the parent relation
  can be made cyclic.
\<close>

section \<open>Operations\<close>

definition subsurface_set_position :: "sid option \<Rightarrow> int \<Rightarrow> int \<Rightarrow> host \<Rightarrow> host" where
  "subsurface_set_position surface x y h = (case surface of None \<Rightarrow> h | Some s \<Rightarrow>
     upd_surface s (\<lambda>v. v\<lparr>s_subsurface_x := x, s_subsurface_y := y\<rparr>) h)"

text \<open>
  The check the two stacking requests share: the result is the surface, its parent and
  the sibling, or nothing where the request is refused.
\<close>

definition stacking_target :: "host \<Rightarrow> sid option \<Rightarrow> sid option \<Rightarrow> (sid \<times> sid \<times> sid) option" where
  "stacking_target h surface sibling = (case (surface, sibling) of
       (Some s, Some g) \<Rightarrow>
         (case (fld (h_surfaces h) s_parent s) of None \<Rightarrow> None | Some p \<Rightarrow>
           if g \<noteq> p \<and> fld (h_surfaces h) s_parent g \<noteq> Some p then None
           else Some (s, p, g))
     | _ \<Rightarrow> None)"

text \<open>
  \<^verbatim>\<open>wl_list_insert(sibling.next, e)\<close>: the place after the element that follows the
  sibling, which is the front of the list where the sibling is the last element. A
  sibling that is not linked into the list leaves \<open>e\<close> out of it as well.
\<close>

definition insert_above :: "'a \<Rightarrow> 'a \<Rightarrow> 'a list \<Rightarrow> 'a list" where
  "insert_above g e c =
     (if g \<notin> set c then c
      else case next_of g c of None \<Rightarrow> e # c | Some n \<Rightarrow> insert_after n e c)"

text \<open>
  \<^verbatim>\<open>wl_list_remove\<close> clears the link of the surface, so inserting after the link that
  follows the surface itself follows a null pointer.
\<close>

definition subsurface_place_above :: "rid \<Rightarrow> sid option \<Rightarrow> sid option \<Rightarrow> host \<Rightarrow> host" where
  "subsurface_place_above resource surface sibling h =
     (case stacking_target h surface sibling of
        None \<Rightarrow> emit (Post_error resource Err_subsurface_bad_surface) h
      | Some (s, p, g) \<Rightarrow>
          (let h1 = upd_surface p (s_children_update (remove1 s)) h in
           if g = p then upd_surface p (s_children_update (\<lambda>c. c @ [s])) h1
           else if g = s then fault h1
           else upd_surface p (s_children_update (insert_above g s)) h1))"

text \<open>Inserting a link after itself leaves it on its own, outside the list of the parent.\<close>

definition subsurface_place_below :: "rid \<Rightarrow> sid option \<Rightarrow> sid option \<Rightarrow> host \<Rightarrow> host" where
  "subsurface_place_below resource surface sibling h =
     (case stacking_target h surface sibling of
        None \<Rightarrow> emit (Post_error resource Err_subsurface_bad_surface) h
      | Some (s, p, g) \<Rightarrow>
          (let h1 = upd_surface p (s_children_update (remove1 s)) h in
           if g = p then upd_surface p (s_children_update (\<lambda>c. s # c)) h1
           else if g = s then h1
           else upd_surface p (s_children_update (insert_after g s)) h1))"

text \<open>Unlinking a surface from its parent.\<close>

definition unlink_from_parent :: "sid \<Rightarrow> host \<Rightarrow> host" where
  "unlink_from_parent s h = (case h_surfaces h s of None \<Rightarrow> fault h | Some x \<Rightarrow>
     (case s_parent x of None \<Rightarrow> h | Some p \<Rightarrow>
       upd_surface s (s_parent_update (\<lambda>_. None))
        (upd_surface p (s_children_update (remove1 s)) h)))"

definition subsurface_resource_destroy :: "rid \<Rightarrow> sid option \<Rightarrow> host \<Rightarrow> host" where
  "subsurface_resource_destroy resource surface h = (case surface of None \<Rightarrow> h | Some s \<Rightarrow>
     (case h_surfaces h s of None \<Rightarrow> fault h | Some x \<Rightarrow>
       if s_subsurface x = Some resource
       then unlink_from_parent s (upd_surface s (s_subsurface_update (\<lambda>_. None)) h)
       else h))"

definition subcompositor_get_subsurface ::
  "cid \<Rightarrow> rid \<Rightarrow> rid option \<Rightarrow> sid option \<Rightarrow> sid option \<Rightarrow> host \<Rightarrow> host" where
  "subcompositor_get_subsurface client resource res surface parent h =
     (case (surface, parent) of
        (Some s, Some p) \<Rightarrow>
          if s = p \<or> fld (h_surfaces h) s_subsurface s \<noteq> None
          then emit (Post_error resource Err_subcompositor_bad_surface) h
          else (case res of None \<Rightarrow> emit (Post_no_memory client) h | Some r \<Rightarrow>
            upd_surface p (s_children_update (\<lambda>c. s # c))
             (upd_surface s (\<lambda>v. v\<lparr>s_subsurface := Some r, s_parent := Some p\<rparr>) h))
      | _ \<Rightarrow> emit (Post_error resource Err_subcompositor_bad_surface) h)"

section \<open>Stacking\<close>

text \<open>
  The order asked for by the protocol: directly above or directly below the sibling.
\<close>

definition stack_above :: "'a \<Rightarrow> 'a \<Rightarrow> 'a list \<Rightarrow> 'a list" where
  "stack_above g e c = insert_after g e c"

fun stack_below :: "'a \<Rightarrow> 'a \<Rightarrow> 'a list \<Rightarrow> 'a list" where
  "stack_below g e [] = []"
| "stack_below g e (x # xs) = (if x = g then e # x # xs else x # stack_below g e xs)"

lemma insert_above_last:
  "g \<notin> set xs \<Longrightarrow> insert_above g e (xs @ [g]) = e # xs @ [g]"
  by (simp add: insert_above_def next_of_append)

lemma insert_above_inner:
  assumes "distinct (xs @ g # n # ys)"
  shows "insert_above g e (xs @ g # n # ys) = xs @ g # n # e # ys"
proof -
  have "insert_after n e ((xs @ [g]) @ n # ys) = (xs @ [g]) @ n # e # ys"
    using assms by (intro insert_after_append) auto
  then show ?thesis using assms by (simp add: insert_above_def next_of_append)
qed

lemma set_insert_above:
  assumes "g \<in> set c" shows "set (insert_above g e c) = insert e (set c)"
  using assms next_of_Some_in [of g c]
  by (auto simp: insert_above_def set_insert_after split: option.splits)

lemma distinct_insert_above:
  assumes "distinct c" "e \<notin> set c" shows "distinct (insert_above g e c)"
  using assms next_of_Some_in [of g c]
  by (auto simp: insert_above_def distinct_insert_after split: option.splits)

section \<open>Parents and children\<close>

text \<open>
  \<open>family_ok\<close>: the children of a surface are exactly the surfaces whose parent it is,
  each once. Pointers between surfaces then lead to live surfaces.
\<close>

abbreviation parent_of :: "host \<Rightarrow> sid \<Rightarrow> sid option" where
  "parent_of h \<equiv> fld (h_surfaces h) s_parent"

definition children_of :: "host \<Rightarrow> sid \<Rightarrow> sid list" where
  "children_of h p = (case h_surfaces h p of None \<Rightarrow> [] | Some x \<Rightarrow> s_children x)"

definition family :: "(sid \<Rightarrow> sid list) \<Rightarrow> (sid \<Rightarrow> sid option) \<Rightarrow> bool" where
  "family children parent \<longleftrightarrow> (\<forall>p. distinct (children p)) \<and>
     (\<forall>s p. parent s = Some p \<longleftrightarrow> s \<in> set (children p))"

definition family_ok :: "host \<Rightarrow> bool" where
  "family_ok h \<longleftrightarrow> family (children_of h) (parent_of h)"

lemmas family_ok_iff = family_ok_def family_def

lemma family_ok_parent_live:
  "family_ok h \<Longrightarrow> parent_of h s = Some p \<Longrightarrow> h_surfaces h p \<noteq> None"
  by (cases "h_surfaces h p") (auto simp: family_ok_iff children_of_def)

lemma children_of_upd:
  "h_surfaces h p = Some x \<Longrightarrow>
    children_of (h\<lparr>h_surfaces := (h_surfaces h)(p \<mapsto> v)\<rparr>) = (children_of h)(p := s_children v)"
  by (rule ext) (simp add: children_of_def)

text \<open>An update that only permutes the children of one surface keeps the family.\<close>

lemma family_ok_permute:
  assumes "family_ok h" "h_surfaces h p = Some x"
    and "set c = set (s_children x)" "distinct c"
  shows "family_ok (h\<lparr>h_surfaces := (h_surfaces h)(p \<mapsto> x\<lparr>s_children := c\<rparr>)\<rparr>)"
proof -
  have par: "parent_of (h\<lparr>h_surfaces := (h_surfaces h)(p \<mapsto> x\<lparr>s_children := c\<rparr>)\<rparr>) = parent_of h"
    using assms(2) by (auto simp: fun_eq_iff)
  have "children_of h p = s_children x" using assms(2) by (simp add: children_of_def)
  then show ?thesis
    using assms(1,3,4) unfolding family_ok_def children_of_upd [OF assms(2)] par
    by (simp add: family_def)
qed

lemma stacking_targetD:
  assumes "stacking_target h surface sibling = Some (s, p, g)"
  shows "parent_of h s = Some p" "g = p \<or> parent_of h g = Some p"
  using assms by (auto simp: stacking_target_def split: option.splits if_splits)

lemma place_above_children:
  assumes "family_ok h" "stacking_target h surface sibling = Some (s, p, g)" "g \<noteq> s"
  shows "\<exists>x. h_surfaces h p = Some x \<and>
    subsurface_place_above r surface sibling h =
      h\<lparr>h_surfaces := (h_surfaces h)(p \<mapsto> x\<lparr>s_children :=
         (if g = p then remove1 s (s_children x) @ [s]
          else insert_above g s (remove1 s (s_children x)))\<rparr>)\<rparr>"
proof -
  have p: "parent_of h s = Some p" using assms(2) by (rule stacking_targetD)
  then obtain x where x: "h_surfaces h p = Some x"
    using family_ok_parent_live [OF assms(1)] by auto
  show ?thesis using assms x by (cases x) (simp add: subsurface_place_above_def upd_surface_def)
qed

lemma place_below_children:
  assumes "family_ok h" "stacking_target h surface sibling = Some (s, p, g)" "g \<noteq> s"
  shows "\<exists>x. h_surfaces h p = Some x \<and>
    subsurface_place_below r surface sibling h =
      h\<lparr>h_surfaces := (h_surfaces h)(p \<mapsto> x\<lparr>s_children :=
         (if g = p then s # remove1 s (s_children x)
          else insert_after g s (remove1 s (s_children x)))\<rparr>)\<rparr>"
proof -
  have p: "parent_of h s = Some p" using assms(2) by (rule stacking_targetD)
  then obtain x where x: "h_surfaces h p = Some x"
    using family_ok_parent_live [OF assms(1)] by auto
  show ?thesis using assms x by (cases x) (simp add: subsurface_place_below_def upd_surface_def)
qed

lemma family_ok_sibling:
  assumes "family_ok h" "stacking_target h surface sibling = Some (s, p, g)" "g \<noteq> s"
    "h_surfaces h p = Some x"
  shows "s \<in> set (s_children x)" "distinct (s_children x)"
    "g \<noteq> p \<Longrightarrow> g \<in> set (remove1 s (s_children x))"
  using assms stacking_targetD [OF assms(2)]
  by (auto simp: family_ok_iff children_of_def in_set_remove1 dest: spec [of _ p])

lemma family_ok_place_above:
  assumes "family_ok h" and "surface = None \<or> sibling \<noteq> surface"
  shows "family_ok (subsurface_place_above r surface sibling h)"
proof (cases "stacking_target h surface sibling")
  case None
  with assms show ?thesis
    by (simp add: subsurface_place_above_def access_defs family_ok_iff children_of_def)
next
  case (Some t)
  obtain s p g where t: "t = (s, p, g)" by (cases t)
  have ns: "g \<noteq> s" using Some assms(2) t
    by (auto simp: stacking_target_def split: option.splits if_splits)
  obtain x where x: "h_surfaces h p = Some x" "subsurface_place_above r surface sibling h =
      h\<lparr>h_surfaces := (h_surfaces h)(p \<mapsto> x\<lparr>s_children :=
         (if g = p then remove1 s (s_children x) @ [s]
          else insert_above g s (remove1 s (s_children x)))\<rparr>)\<rparr>"
    using place_above_children [OF assms(1) Some [unfolded t] ns] by blast
  note f = family_ok_sibling [OF assms(1) Some [unfolded t] ns x(1)]
  show ?thesis
    unfolding x(2) using f
    by (intro family_ok_permute [OF assms(1) x(1)])
      (auto simp: set_insert_above distinct_insert_above)
qed

lemma family_ok_place_below:
  assumes "family_ok h" and "surface = None \<or> sibling \<noteq> surface"
  shows "family_ok (subsurface_place_below r surface sibling h)"
proof (cases "stacking_target h surface sibling")
  case None
  with assms show ?thesis
    by (simp add: subsurface_place_below_def access_defs family_ok_iff children_of_def)
next
  case (Some t)
  obtain s p g where t: "t = (s, p, g)" by (cases t)
  have ns: "g \<noteq> s" using Some assms(2) t
    by (auto simp: stacking_target_def split: option.splits if_splits)
  obtain x where x: "h_surfaces h p = Some x" "subsurface_place_below r surface sibling h =
      h\<lparr>h_surfaces := (h_surfaces h)(p \<mapsto> x\<lparr>s_children :=
         (if g = p then s # remove1 s (s_children x)
          else insert_after g s (remove1 s (s_children x)))\<rparr>)\<rparr>"
    using place_below_children [OF assms(1) Some [unfolded t] ns] by blast
  note f = family_ok_sibling [OF assms(1) Some [unfolded t] ns x(1)]
  show ?thesis
    unfolding x(2) using f
    by (intro family_ok_permute [OF assms(1) x(1)])
      (auto simp: set_insert_after distinct_insert_after)
qed

end
