(* ===== verification/Shell.thy ===== *)
theory Shell
  imports Repaint
begin

text \<open>
  The roles and per-surface extensions of the host: \<^verbatim>\<open>xdg_shell.c\<close>,
  \<^verbatim>\<open>viewporter.c\<close>, the fractional scale of \<^verbatim>\<open>protocol_stubs.c\<close>, and the outputs
  (\<^verbatim>\<open>output.c\<close>, \<^verbatim>\<open>xdg_output.c\<close>) whose size the shells configure their
  surfaces to.

  A request on a role object carries the surface the object keeps as its user data.
\<close>

section \<open>xdg-shell\<close>

text \<open>
  \<^verbatim>\<open>trierarch_surface_send_configure\<close> asks a toplevel to take the size of the output,
  and ends the sequence with a fresh serial on the xdg surface.
\<close>

definition trierarch_surface_send_configure :: "sid \<Rightarrow> host \<Rightarrow> host" where
  "trierarch_surface_send_configure s h = (case h_surfaces h s of None \<Rightarrow> fault h | Some x \<Rightarrow>
     (case (s_xdg_surface x, s_xdg_toplevel x) of
        (Some xs, Some top_level) \<Rightarrow>
          (let v = h_server h;
               h1 = emit (Send_shell top_level (Toplevel_configure (sv_output_width v) (sv_output_height v))) h;
               h2 = bump_serial h1
           in emit (Send_shell xs (Xdg_surface_configure (h_serial h2))) h2)
      | _ \<Rightarrow> h))"

definition send_configure_to :: "sid option \<Rightarrow> host \<Rightarrow> host" where
  "send_configure_to surface h =
     (case surface of None \<Rightarrow> h | Some s \<Rightarrow> trierarch_surface_send_configure s h)"

definition xdg_toplevel_set_maximized :: "sid option \<Rightarrow> host \<Rightarrow> host" where
  "xdg_toplevel_set_maximized surface h = send_configure_to surface h"

definition xdg_toplevel_unset_maximized :: "sid option \<Rightarrow> host \<Rightarrow> host" where
  "xdg_toplevel_unset_maximized surface h = send_configure_to surface h"

definition xdg_toplevel_set_fullscreen :: "sid option \<Rightarrow> host \<Rightarrow> host" where
  "xdg_toplevel_set_fullscreen surface h = send_configure_to surface h"

definition xdg_toplevel_unset_fullscreen :: "sid option \<Rightarrow> host \<Rightarrow> host" where
  "xdg_toplevel_unset_fullscreen surface h = send_configure_to surface h"

definition xdg_toplevel_resource_destroy :: "sid option \<Rightarrow> host \<Rightarrow> host" where
  "xdg_toplevel_resource_destroy surface h = (case surface of None \<Rightarrow> h | Some s \<Rightarrow>
     upd_surface s (s_xdg_toplevel_update (\<lambda>_. None)) h)"

definition xdg_surface_get_toplevel ::
  "cid \<Rightarrow> rid \<Rightarrow> rid option \<Rightarrow> sid option \<Rightarrow> host \<Rightarrow> host" where
  "xdg_surface_get_toplevel client resource res surface h = (case surface of
       None \<Rightarrow> emit (Post_error resource Err_xdg_role) h
     | Some s \<Rightarrow> (case h_surfaces h s of None \<Rightarrow> fault h | Some x \<Rightarrow>
         if s_xdg_toplevel x \<noteq> None then emit (Post_error resource Err_xdg_role) h
         else (case res of None \<Rightarrow> emit (Post_no_memory client) h | Some r \<Rightarrow>
           trierarch_surface_send_configure s
             (upd_surface s (s_xdg_toplevel_update (\<lambda>_. Some r)) h))))"

definition xdg_surface_get_popup :: "cid \<Rightarrow> rid \<Rightarrow> rid option \<Rightarrow> host \<Rightarrow> host" where
  "xdg_surface_get_popup client resource res h = (case res of
       None \<Rightarrow> emit (Post_no_memory client) h
     | Some r \<Rightarrow>
         (let h1 = bump_serial (emit (Send_shell r (Popup_configure 0 0 1 1)) h)
          in emit (Send_shell resource (Xdg_surface_configure (h_serial h1))) h1))"

definition popup_reposition :: "rid \<Rightarrow> u32 \<Rightarrow> host \<Rightarrow> host" where
  "popup_reposition resource token h = emit (Send_shell resource (Popup_repositioned token)) h"

definition xdg_surface_ack_configure :: "sid option \<Rightarrow> host \<Rightarrow> host" where
  "xdg_surface_ack_configure surface h = (case surface of None \<Rightarrow> h | Some s \<Rightarrow>
     upd_surface s (s_configured_update (\<lambda>_. True)) h)"

definition xdg_surface_resource_destroy :: "sid option \<Rightarrow> host \<Rightarrow> host" where
  "xdg_surface_resource_destroy surface h = (case surface of None \<Rightarrow> h | Some s \<Rightarrow>
     upd_surface s (s_xdg_surface_update (\<lambda>_. None)) h)"

definition wm_base_create_positioner :: "cid \<Rightarrow> rid option \<Rightarrow> host \<Rightarrow> host" where
  "wm_base_create_positioner client res h =
     (case res of None \<Rightarrow> emit (Post_no_memory client) h | Some _ \<Rightarrow> h)"

definition wm_base_get_xdg_surface ::
  "cid \<Rightarrow> rid \<Rightarrow> rid option \<Rightarrow> sid option \<Rightarrow> host \<Rightarrow> host" where
  "wm_base_get_xdg_surface client resource res surface h = (case surface of
       None \<Rightarrow> emit (Post_error resource Err_xdg_invalid_surface_state) h
     | Some s \<Rightarrow> (case h_surfaces h s of None \<Rightarrow> fault h | Some x \<Rightarrow>
         if s_xdg_surface x \<noteq> None
         then emit (Post_error resource Err_xdg_invalid_surface_state) h
         else (case res of None \<Rightarrow> emit (Post_no_memory client) h | Some r \<Rightarrow>
           upd_surface s (s_xdg_surface_update (\<lambda>_. Some r)) h)))"

section \<open>Viewports\<close>

text \<open>\<^verbatim>\<open>wl_fixed_from_int\<close>: 24.8 fixed point.\<close>

definition wl_fixed_from_int :: "int \<Rightarrow> int" where
  "wl_fixed_from_int i = i * 256"

definition viewport_changed :: "host \<Rightarrow> host" where
  "viewport_changed h = upd_diag (dg_viewport_changes_update (\<lambda>n. n + 1)) h"

definition viewport_set_source ::
  "sid option \<Rightarrow> int \<Rightarrow> int \<Rightarrow> int \<Rightarrow> int \<Rightarrow> host \<Rightarrow> host" where
  "viewport_set_source surface x y width height h = (case surface of None \<Rightarrow> h | Some s \<Rightarrow>
     viewport_changed (upd_surface s (s_viewport_state_update (\<lambda>v.
       if x = wl_fixed_from_int (-1) \<and> y = wl_fixed_from_int (-1) \<and>
          width = wl_fixed_from_int (-1) \<and> height = wl_fixed_from_int (-1)
       then v\<lparr>viewport_source_set := False\<rparr>
       else v\<lparr>viewport_source_set := True, viewport_source_x := x, viewport_source_y := y,
              viewport_source_width := width, viewport_source_height := height\<rparr>)) h))"

definition viewport_set_destination :: "sid option \<Rightarrow> int \<Rightarrow> int \<Rightarrow> host \<Rightarrow> host" where
  "viewport_set_destination surface width height h = (case surface of None \<Rightarrow> h | Some s \<Rightarrow>
     viewport_changed (upd_surface s (s_viewport_state_update (\<lambda>v.
       if width = -1 \<and> height = -1 then v\<lparr>viewport_destination_set := False\<rparr>
       else v\<lparr>viewport_destination_set := True, viewport_destination_width := width,
              viewport_destination_height := height\<rparr>)) h))"

definition viewport_resource_destroy :: "sid option \<Rightarrow> host \<Rightarrow> host" where
  "viewport_resource_destroy surface h = (case surface of None \<Rightarrow> h | Some s \<Rightarrow>
     upd_surface s (s_viewport_update (\<lambda>_. None)) h)"

definition viewporter_get_viewport ::
  "cid \<Rightarrow> rid \<Rightarrow> rid option \<Rightarrow> sid option \<Rightarrow> host \<Rightarrow> host" where
  "viewporter_get_viewport client resource res surface h = (case surface of
       None \<Rightarrow> emit (Post_error resource Err_viewport_no_surface) h
     | Some s \<Rightarrow> (case h_surfaces h s of None \<Rightarrow> fault h | Some x \<Rightarrow>
         if s_viewport x \<noteq> None then emit (Post_error resource Err_viewport_exists) h
         else (case res of None \<Rightarrow> emit (Post_no_memory client) h | Some r \<Rightarrow>
           upd_surface s (s_viewport_update (\<lambda>_. Some r)) h)))"

section \<open>Fractional scale\<close>

definition fractional_get :: "cid \<Rightarrow> rid \<Rightarrow> rid option \<Rightarrow> sid option \<Rightarrow> host \<Rightarrow> host" where
  "fractional_get client manager res surface h = (case surface of
       None \<Rightarrow> emit (Post_error manager Err_fractional_scale_exists) h
     | Some s \<Rightarrow> (case h_surfaces h s of None \<Rightarrow> fault h | Some x \<Rightarrow>
         if s_fractional_scale x \<noteq> None
         then emit (Post_error manager Err_fractional_scale_exists) h
         else (case res of None \<Rightarrow> emit (Post_no_memory client) h | Some r \<Rightarrow>
           emit (Send_shell r (Preferred_scale 120))
             (upd_surface s (s_fractional_scale_update (\<lambda>_. Some r)) h))))"

text \<open>The destroy request; the resource has no destroy hook.\<close>

definition fractional_destroy :: "rid \<Rightarrow> sid option \<Rightarrow> host \<Rightarrow> host" where
  "fractional_destroy resource surface h =
     emit (Destroyed resource) (case surface of None \<Rightarrow> h | Some s \<Rightarrow>
       (case h_surfaces h s of None \<Rightarrow> fault h | Some x \<Rightarrow>
         if s_fractional_scale x = Some resource
         then upd_surface s (s_fractional_scale_update (\<lambda>_. None)) h else h))"

section \<open>Outputs\<close>

definition output_size_or :: "int \<Rightarrow> int \<Rightarrow> int" where
  "output_size_or v default_value = (if 0 < v then v else default_value)"

text \<open>What a \<^verbatim>\<open>wl_output\<close> of the given version is sent.\<close>

definition output_state :: "nat \<Rightarrow> int \<Rightarrow> int \<Rightarrow> output_event list" where
  "output_state version width height =
     [Out_geometry (c_div width 4) (c_div height 4), Out_mode width height]
     @ (if 2 \<le> version then [Out_scale 1] else [])
     @ (if 4 \<le> version then [Out_name, Out_description] else [])
     @ (if 2 \<le> version then [Out_done] else [])"

definition send_output_state :: "rid \<Rightarrow> host \<Rightarrow> host" where
  "send_output_state r h =
     emits (map (Send_output r) (output_state (h_version h r)
       (output_size_or (sv_output_width (h_server h)) 1080)
       (output_size_or (sv_output_height (h_server h)) 1920))) h"

definition xdg_output_state :: "nat \<Rightarrow> int \<Rightarrow> int \<Rightarrow> output_event list" where
  "xdg_output_state version width height =
     [Out_logical_position 0 0, Out_logical_size width height]
     @ (if 2 \<le> version then [Out_name, Out_description] else [])
     @ (if version < 3 then [Out_done] else [])"

definition send_xdg_output_state :: "rid \<Rightarrow> host \<Rightarrow> host" where
  "send_xdg_output_state r h =
     emits (map (Send_xdg_output r) (xdg_output_state (h_version h r)
       (output_size_or (sv_output_width (h_server h)) 1080)
       (output_size_or (sv_output_height (h_server h)) 1920))) h"

definition output_resource_destroy :: "rid \<Rightarrow> host \<Rightarrow> host" where
  "output_resource_destroy r =
     upd_server (\<lambda>v. v\<lparr>sv_output_resources := remove1 r (sv_output_resources v)\<rparr>)"

definition xdg_output_resource_destroy :: "rid \<Rightarrow> host \<Rightarrow> host" where
  "xdg_output_resource_destroy r =
     upd_server (\<lambda>v. v\<lparr>sv_xdg_output_resources := remove1 r (sv_xdg_output_resources v)\<rparr>)"

text \<open>\<open>mem\<close>: whether the list node could be allocated.\<close>

definition trierarch_output_bind ::
  "cid \<Rightarrow> nat \<Rightarrow> rid option \<Rightarrow> bool \<Rightarrow> host \<Rightarrow> host" where
  "trierarch_output_bind client version res mem h = (case res of
       None \<Rightarrow> emit (Post_no_memory client) h
     | Some r \<Rightarrow>
         (let h1 = new_resource client (min version 4) r h in
          if \<not> mem then emit (Post_no_memory client) (emit (Destroyed r) h1)
          else send_output_state r
            (upd_server (\<lambda>v. v\<lparr>sv_output_resources := r # sv_output_resources v\<rparr>) h1)))"

definition manager_get_output ::
  "cid \<Rightarrow> rid \<Rightarrow> rid option \<Rightarrow> bool \<Rightarrow> host \<Rightarrow> host" where
  "manager_get_output client resource res mem h = (case res of
       None \<Rightarrow> emit (Post_no_memory client) h
     | Some r \<Rightarrow>
         (let h1 = new_resource client (min (h_version h resource) 3) r h in
          if \<not> mem then emit (Post_no_memory client) (emit (Destroyed r) h1)
          else send_xdg_output_state r
            (upd_server (\<lambda>v. v\<lparr>sv_xdg_output_resources := r # sv_xdg_output_resources v\<rparr>) h1)))"

definition trierarch_xdg_output_notify :: "host \<Rightarrow> host" where
  "trierarch_xdg_output_notify h =
     fold send_xdg_output_state (sv_xdg_output_resources (h_server h)) h"

definition trierarch_wayland_set_output_size :: "int \<Rightarrow> int \<Rightarrow> host \<Rightarrow> host" where
  "trierarch_wayland_set_output_size width height h =
     (if width \<le> 0 \<or> height \<le> 0 \<or>
         (sv_output_width (h_server h) = width \<and> sv_output_height (h_server h) = height) then h
      else let h1 = upd_server (\<lambda>v. v\<lparr>sv_output_width := width, sv_output_height := height\<rparr>) h;
               h2 = fold send_output_state (sv_output_resources (h_server h1)) h1;
               h3 = trierarch_xdg_output_notify h2;
               h4 = fold trierarch_surface_send_configure (sids h3) h3
           in trierarch_wayland_request_render h4)"

definition trierarch_output_enter_surface :: "rid \<Rightarrow> host \<Rightarrow> host" where
  "trierarch_output_enter_surface r h =
     emits (map (Surface_enter r)
       (filter (\<lambda>o_res. h_client h o_res = h_client h r) (sv_output_resources (h_server h)))) h"

end
