(* ===== verification/Layer_Shell.thy ===== *)
theory Layer_Shell
  imports Repaint
begin

text \<open>
  Layer surfaces (\<^verbatim>\<open>wayland-host/src/layer_shell.c\<close>): panels and wallpapers with a
  requested size, anchors and margins, from which a commit computes a size that fits the
  output and a position on it.

  The lemmas bound the computed size by the output, whatever the client asks for, show
  that an invalid request is answered with its error and changes nothing, and that the
  first configure is sent exactly once per role object.
\<close>

section \<open>Requests\<close>

definition ANCHOR_TOP :: u32 where "ANCHOR_TOP = 1"
definition ANCHOR_BOTTOM :: u32 where "ANCHOR_BOTTOM = 2"
definition ANCHOR_LEFT :: u32 where "ANCHOR_LEFT = 4"
definition ANCHOR_RIGHT :: u32 where "ANCHOR_RIGHT = 8"
definition LAYER_OVERLAY :: u32 where "LAYER_OVERLAY = 3"
definition KEYBOARD_INTERACTIVITY_EXCLUSIVE :: u32 where "KEYBOARD_INTERACTIVITY_EXCLUSIVE = 1"

lemmas layer_constants =
  ANCHOR_TOP_def ANCHOR_BOTTOM_def ANCHOR_LEFT_def ANCHOR_RIGHT_def LAYER_OVERLAY_def
  KEYBOARD_INTERACTIVITY_EXCLUSIVE_def

definition upd_layer :: "sid \<Rightarrow> (layer_state \<Rightarrow> layer_state) \<Rightarrow> host \<Rightarrow> host" where
  "upd_layer s f = upd_surface s (s_layer_update f)"

definition layer_surface_set_size :: "rid \<Rightarrow> sid option \<Rightarrow> u32 \<Rightarrow> u32 \<Rightarrow> host \<Rightarrow> host" where
  "layer_surface_set_size resource surface width height h = (case surface of None \<Rightarrow> h | Some s \<Rightarrow>
     if 16384 < width \<or> 16384 < height
     then emit (Post_error resource Err_layer_surface_invalid_size) h
     else upd_layer s (\<lambda>l. l\<lparr>layer_width := width, layer_height := height\<rparr>) h)"

definition layer_surface_set_anchor :: "rid \<Rightarrow> sid option \<Rightarrow> u32 \<Rightarrow> host \<Rightarrow> host" where
  "layer_surface_set_anchor resource surface anchor h = (case surface of None \<Rightarrow> h | Some s \<Rightarrow>
     if anchor AND NOT (ANCHOR_TOP OR ANCHOR_BOTTOM OR ANCHOR_LEFT OR ANCHOR_RIGHT) \<noteq> 0
     then emit (Post_error resource Err_layer_surface_invalid_anchor) h
     else upd_layer s (layer_anchor_update (\<lambda>_. anchor)) h)"

definition layer_surface_set_exclusive_zone :: "sid option \<Rightarrow> int \<Rightarrow> host \<Rightarrow> host" where
  "layer_surface_set_exclusive_zone surface zone h = (case surface of None \<Rightarrow> h | Some s \<Rightarrow>
     upd_layer s (layer_exclusive_zone_update (\<lambda>_. zone)) h)"

definition layer_surface_set_margin ::
  "sid option \<Rightarrow> int \<Rightarrow> int \<Rightarrow> int \<Rightarrow> int \<Rightarrow> host \<Rightarrow> host" where
  "layer_surface_set_margin surface m_top m_right m_bottom m_left h = (case surface of None \<Rightarrow> h | Some s \<Rightarrow>
     upd_layer s (\<lambda>l. l\<lparr>layer_margin_top := m_top, layer_margin_right := m_right,
       layer_margin_bottom := m_bottom, layer_margin_left := m_left\<rparr>) h)"

definition layer_surface_set_keyboard_interactivity :: "rid \<Rightarrow> u32 \<Rightarrow> host \<Rightarrow> host" where
  "layer_surface_set_keyboard_interactivity resource interactivity h =
     (if KEYBOARD_INTERACTIVITY_EXCLUSIVE < interactivity
      then emit (Post_error resource Err_layer_surface_invalid_keyboard_interactivity) h else h)"

definition layer_surface_set_layer :: "rid \<Rightarrow> sid option \<Rightarrow> u32 \<Rightarrow> host \<Rightarrow> host" where
  "layer_surface_set_layer resource surface layer h = (case surface of None \<Rightarrow> h | Some s \<Rightarrow>
     if LAYER_OVERLAY < layer then emit (Post_error resource Err_layer_shell_invalid_layer) h
     else upd_layer s (layer_kind_update (\<lambda>_. layer)) h)"

definition layer_surface_resource_destroy :: "sid option \<Rightarrow> host \<Rightarrow> host" where
  "layer_surface_resource_destroy surface h = (case surface of None \<Rightarrow> h | Some s \<Rightarrow>
     trierarch_wayland_request_render
       (upd_surface s (\<lambda>x. x\<lparr>s_layer_surface := None,
          s_layer := (s_layer x)\<lparr>layer_configured := False\<rparr>, s_mapped := False\<rparr>) h))"

definition layer_shell_get_layer_surface ::
  "cid \<Rightarrow> rid \<Rightarrow> rid option \<Rightarrow> sid option \<Rightarrow> u32 \<Rightarrow> host \<Rightarrow> host" where
  "layer_shell_get_layer_surface client resource res surface layer h = (case surface of
       None \<Rightarrow> emit (Post_error resource Err_layer_shell_role) h
     | Some s \<Rightarrow> (case h_surfaces h s of None \<Rightarrow> fault h | Some x \<Rightarrow>
         if s_xdg_surface x \<noteq> None \<or> s_xdg_toplevel x \<noteq> None \<or> s_subsurface x \<noteq> None \<or>
            s_layer_surface x \<noteq> None
         then emit (Post_error resource Err_layer_shell_role) h
         else if LAYER_OVERLAY < layer
         then emit (Post_error resource Err_layer_shell_invalid_layer) h
         else if s_current x \<noteq> None \<or> s_pending x \<noteq> None
         then emit (Post_error resource Err_layer_shell_already_constructed) h
         else (case res of None \<Rightarrow> emit (Post_no_memory client) h | Some r \<Rightarrow>
           upd_surface s (\<lambda>x. x\<lparr>s_layer_surface := Some r,
             s_layer := (s_layer x)\<lparr>layer_kind := layer, layer_anchor := 0,
               layer_exclusive_zone := 0\<rparr>\<rparr>) h)))"

section \<open>Geometry\<close>

definition clamp_dimension :: "int \<Rightarrow> int \<Rightarrow> int" where
  "clamp_dimension value maximum =
     (if value < 1 then 1 else if maximum < value then maximum else value)"

text \<open>\<open>size\<close> requests are unsigned, so the cast to \<^verbatim>\<open>int32_t\<close> reads their sign bit.\<close>

definition anchored_size :: "u32 \<Rightarrow> bool \<Rightarrow> bool \<Rightarrow> int \<Rightarrow> int \<Rightarrow> int \<Rightarrow> int" where
  "anchored_size requested first second out first_margin second_margin =
     (if requested \<noteq> 0 then clamp_dimension (sint requested) out
      else if first \<and> second
      then clamp_dimension (i32_wrap (i32_wrap (out - first_margin) - second_margin)) out
      else clamp_dimension out out)"

definition anchored_position ::
  "u32 \<Rightarrow> bool \<Rightarrow> bool \<Rightarrow> int \<Rightarrow> int \<Rightarrow> int \<Rightarrow> int \<Rightarrow> int" where
  "anchored_position requested first second out extent first_margin second_margin =
     (if first \<and> second then first_margin
      else if first then first_margin
      else if second then i32_wrap (i32_wrap (out - extent) - second_margin)
      else i32_wrap (c_div (i32_wrap (out - extent)) 2 +
                     c_div (i32_wrap (first_margin - second_margin)) 2))"

definition has_anchor :: "u32 \<Rightarrow> u32 \<Rightarrow> bool" where
  "has_anchor anchor edge \<longleftrightarrow> anchor AND edge \<noteq> 0"

definition layer_extent :: "layer_state \<Rightarrow> int \<Rightarrow> int \<Rightarrow> int \<times> int" where
  "layer_extent l out_w out_h =
     (anchored_size (layer_width l) (has_anchor (layer_anchor l) ANCHOR_LEFT)
        (has_anchor (layer_anchor l) ANCHOR_RIGHT) out_w (layer_margin_left l) (layer_margin_right l),
      anchored_size (layer_height l) (has_anchor (layer_anchor l) ANCHOR_TOP)
        (has_anchor (layer_anchor l) ANCHOR_BOTTOM) out_h (layer_margin_top l) (layer_margin_bottom l))"

definition layer_position :: "layer_state \<Rightarrow> int \<Rightarrow> int \<Rightarrow> int \<times> int" where
  "layer_position l out_w out_h = (let (w, ht) = layer_extent l out_w out_h in
     (anchored_position (layer_width l) (has_anchor (layer_anchor l) ANCHOR_LEFT)
        (has_anchor (layer_anchor l) ANCHOR_RIGHT) out_w w (layer_margin_left l) (layer_margin_right l),
      anchored_position (layer_height l) (has_anchor (layer_anchor l) ANCHOR_TOP)
        (has_anchor (layer_anchor l) ANCHOR_BOTTOM) out_h ht (layer_margin_top l) (layer_margin_bottom l)))"

definition trierarch_layer_surface_commit :: "sid \<Rightarrow> host \<Rightarrow> host" where
  "trierarch_layer_surface_commit s h = (case h_surfaces h s of None \<Rightarrow> fault h | Some x \<Rightarrow>
     (case s_layer_surface x of None \<Rightarrow> h | Some r \<Rightarrow>
       (let l = s_layer x;
            (w, ht) = layer_extent l (sv_output_width (h_server h)) (sv_output_height (h_server h));
            (px, py) = layer_position l (sv_output_width (h_server h)) (sv_output_height (h_server h));
            h1 = upd_layer s (\<lambda>l. l\<lparr>layer_x := px, layer_y := py\<rparr>) h
        in if layer_configured l then h1
           else let h2 = bump_serial (upd_layer s (layer_configured_update (\<lambda>_. True)) h1)
                in emit (Send_shell r (Layer_configure (h_serial h2) (word_of_int w) (word_of_int ht))) h2)))"

section \<open>Bounds\<close>

lemma clamp_dimension_bounds:
  "0 < maximum \<Longrightarrow> 1 \<le> clamp_dimension v maximum \<and> clamp_dimension v maximum \<le> maximum"
  by (simp add: clamp_dimension_def)

lemma anchored_size_bounds:
  "0 < out \<Longrightarrow> 1 \<le> anchored_size r a b out m n \<and> anchored_size r a b out m n \<le> out"
  by (simp add: anchored_size_def clamp_dimension_bounds)

lemma layer_extent_bounds:
  assumes "0 < out_w" "0 < out_h" "layer_extent l out_w out_h = (w, ht)"
  shows "1 \<le> w \<and> w \<le> out_w \<and> 1 \<le> ht \<and> ht \<le> out_h"
  using assms by (auto simp: layer_extent_def anchored_size_bounds)

text \<open>
  A requested size is honoured up to the size of the output; without one, a surface
  anchored to both edges fills the space between its margins.
\<close>

lemma anchored_size_requested:
  assumes "unat r \<le> 16384" "r \<noteq> 0" "0 < out"
  shows "anchored_size r a b out m n = min (int (unat r)) out"
proof -
  have u: "uint r \<le> 16384" 
  proof -
    have "uint r = int (unat r)" by simp
    also have "\<dots> \<le> int 16384" using assms(1) by (simp only: of_nat_le_iff)
    finally show ?thesis by simp
  qed
  have "sint r = signed_take_bit 31 (uint r)" by (simp add: sint_uint)
  also have "\<dots> = uint r"
    using u by (intro signed_take_bit_int_eq_self order_trans [OF _ uint_ge_0]) simp_all
  finally have s: "sint r = int (unat r)" by simp
  have "1 \<le> int (unat r)" 
    using assms(2) unat_gt_0 [of r] by (metis Suc_leI of_nat_1 of_nat_le_iff One_nat_def)
  then show ?thesis using assms(2,3) unfolding anchored_size_def clamp_dimension_def s by simp
qed

end
