(* ===== verification/Buffers.thy ===== *)
theory Buffers
  imports Host_State
begin

text \<open>
  The buffers of \<^verbatim>\<open>wayland-host/src/buffer_shm.c\<close>: reference counts, the list of
  deferred releases, shared-memory pools and the buffers cut from them; and the part of
  \<^verbatim>\<open>explicit_sync.c\<close> that a buffer's release and destruction run through.

  Every creator of a buffer sets its \<^verbatim>\<open>destroy\<close> hook to
  \<^verbatim>\<open>trierarch_buffer_destroy_storage\<close>, so the model calls that operation directly.
\<close>

section \<open>Explicit release objects\<close>

text \<open>
  \<^verbatim>\<open>release_destroy\<close>, the destroy hook of a release object, clears whichever of the
  surface and the buffer still points at the object and frees the binding.
\<close>

definition release_destroy :: "rid \<Rightarrow> host \<Rightarrow> host" where
  "release_destroy r h = (case h_bindings h r of None \<Rightarrow> h | Some bd \<Rightarrow>
     (let h1 = (case rb_surface bd of None \<Rightarrow> h | Some s \<Rightarrow>
            (case h_surfaces h s of None \<Rightarrow> fault h | Some x \<Rightarrow>
              if s_pending_explicit_release x = Some r
              then upd_surface s (s_pending_explicit_release_update (\<lambda>_. None)) h else h));
          h2 = (case rb_buffer bd of None \<Rightarrow> h1 | Some b \<Rightarrow>
            (case h_buffers h1 b of None \<Rightarrow> fault h1 | Some x \<Rightarrow>
              if b_explicit_release x = Some r
              then upd_buffer b (b_explicit_release_update (\<lambda>_. None)) h1 else h1))
      in h2\<lparr>h_bindings := (h_bindings h2)(r := None)\<rparr>))"

text \<open>\<^verbatim>\<open>wl_resource_destroy\<close> of a release object runs its hook and frees it.\<close>

definition destroy_release :: "rid \<Rightarrow> host \<Rightarrow> host" where
  "destroy_release r h = emit (Destroyed r) (release_destroy r h)"

definition trierarch_explicit_sync_buffer_release :: "bid \<Rightarrow> host \<Rightarrow> host" where
  "trierarch_explicit_sync_buffer_release b h = (case h_buffers h b of None \<Rightarrow> fault h | Some x \<Rightarrow>
     (case b_explicit_release x of None \<Rightarrow> h | Some r \<Rightarrow>
       destroy_release r (emit (Immediate_release r)
         (upd_buffer b (b_explicit_release_update (\<lambda>_. None)) h))))"

section \<open>Pools and storage\<close>

text \<open>An unsigned 32-bit decrement.\<close>

definition udec :: "nat \<Rightarrow> nat" where
  "udec n = (if n = 0 then 4294967295 else n - 1)"

definition pool_unref :: "pool_id \<Rightarrow> host \<Rightarrow> host" where
  "pool_unref p h = (case h_pools h p of None \<Rightarrow> fault h | Some q \<Rightarrow>
     if udec (p_references q) \<noteq> 0 then upd_pool p (p_references_update udec) h
     else close_fd (p_fd q) (emit (Munmap (p_data q) (p_size q))
            (h\<lparr>h_pools := (h_pools h)(p := None)\<rparr>)))"

text \<open>
  The parts of \<^verbatim>\<open>trierarch_buffer_destroy_storage\<close>, in its order: the pending release
  object, the EGL cache, mappings and descriptors, the pool, and the buffer itself.
\<close>

definition storage_release :: "bid \<Rightarrow> shm_buffer \<Rightarrow> host \<Rightarrow> host" where
  "storage_release b x h = (case b_explicit_release x of None \<Rightarrow> h | Some r \<Rightarrow>
     destroy_release r (upd_buffer b (b_explicit_release_update (\<lambda>_. None)) h))"

definition storage_uncache :: "bid \<Rightarrow> shm_buffer \<Rightarrow> host \<Rightarrow> host" where
  "storage_uncache b x h =
     (if b_egl_cache_linked x
      then upd_buffer b (b_egl_cache_linked_update (\<lambda>_. False))
            (upd_server (\<lambda>v. v\<lparr>sv_egl_buffers := remove1 b (sv_egl_buffers v)\<rparr>) h)
      else h)"

definition storage_close :: "shm_buffer \<Rightarrow> host \<Rightarrow> host" where
  "storage_close x h =
     (let h1 = (case b_android_hardware_buffer x of None \<Rightarrow> h | Some a \<Rightarrow> emit (Ahb_release a) h);
          h2 = (case b_dmabuf_mapping x of None \<Rightarrow> h1 | Some m \<Rightarrow>
            if b_dmabuf x then emit (Munmap m (b_dmabuf_mapping_size x)) h1 else h1);
          h3 = (if b_dmabuf x \<and> 0 \<le> b_dmabuf_fd x then close_fd (b_dmabuf_fd x) h2 else h2)
      in if b_tvg_token x \<and> 0 \<le> b_tvg_fd x then close_fd (b_tvg_fd x) h3 else h3)"

definition storage_unpool :: "bid \<Rightarrow> shm_buffer \<Rightarrow> host \<Rightarrow> host" where
  "storage_unpool b x h = (case b_pool x of None \<Rightarrow> h | Some p \<Rightarrow>
     pool_unref p (upd_pool p (p_buffers_update (remove1 b)) h))"

definition free_buffer :: "bid \<Rightarrow> host \<Rightarrow> host" where
  "free_buffer b h = h\<lparr>h_buffers := (h_buffers h)(b := None)\<rparr>"

definition trierarch_buffer_destroy_storage :: "bid \<Rightarrow> host \<Rightarrow> host" where
  "trierarch_buffer_destroy_storage b h = (case h_buffers h b of None \<Rightarrow> fault h | Some x \<Rightarrow>
     free_buffer b (storage_unpool b x (storage_close x
       (storage_uncache b x (storage_release b x h)))))"

section \<open>References\<close>

definition trierarch_buffer_ref :: "bid option \<Rightarrow> host \<Rightarrow> host" where
  "trierarch_buffer_ref p h = (case p of None \<Rightarrow> h | Some b \<Rightarrow>
     upd_buffer b (b_references_update Suc) h)"

definition trierarch_buffer_unref :: "bid option \<Rightarrow> host \<Rightarrow> host" where
  "trierarch_buffer_unref p h = (case p of None \<Rightarrow> h | Some b \<Rightarrow>
     (case h_buffers h b of None \<Rightarrow> fault h | Some x \<Rightarrow>
       if b_references x = 0 then h
       else let h1 = upd_buffer b (b_references_update (\<lambda>n. n - 1)) h
            in if b_references x = 1 then trierarch_buffer_destroy_storage b h1 else h1))"

text \<open>
  \<^verbatim>\<open>buffer_resource_destroy\<close>, the destroy hook of every \<^verbatim>\<open>wl_buffer\<close> the host
  creates (\<^verbatim>\<open>dmabuf_buffer_destroy\<close>, \<^verbatim>\<open>android_buffer_destroy\<close> and
  \<^verbatim>\<open>single_pixel_buffer_resource_destroy\<close> are the same code).
\<close>

definition buffer_resource_destroy :: "bid \<Rightarrow> host \<Rightarrow> host" where
  "buffer_resource_destroy b h =
     trierarch_buffer_unref (Some b) (upd_buffer b (b_resource_update (\<lambda>_. None)) h)"

section \<open>Releases\<close>

definition trierarch_shm_buffer_release :: "bid \<Rightarrow> host \<Rightarrow> host" where
  "trierarch_shm_buffer_release b h = (case h_buffers h b of None \<Rightarrow> fault h | Some x \<Rightarrow>
     if b_busy_users x = 0 then h
     else let h1 = upd_buffer b (b_busy_users_update (\<lambda>n. n - 1)) h in
       if 1 < b_busy_users x then h1
       else trierarch_explicit_sync_buffer_release b
             (case b_resource x of None \<Rightarrow> h1 | Some r \<Rightarrow> emit (Buffer_release r) h1))"

text \<open>
  The scan of the deferred list gives up after 1024 entries, which also ends it on a
  cyclic list. \<open>None\<close>: it followed a freed entry.
\<close>

fun deferred_scan :: "nat \<Rightarrow> host \<Rightarrow> bid option \<Rightarrow> bid \<Rightarrow> bool option" where
  "deferred_scan 0 h p b = Some False"
| "deferred_scan (Suc n) h None b = Some False"
| "deferred_scan (Suc n) h (Some e) b =
     (if e = b then Some True
      else case h_buffers h e of None \<Rightarrow> None
           | Some x \<Rightarrow> deferred_scan n h (b_deferred_next x) b)"

definition deferred_contains :: "host \<Rightarrow> bid \<Rightarrow> bool option" where
  "deferred_contains h b = deferred_scan 1024 h (h_deferred h) b"

definition trierarch_defer_buffer_release :: "bid \<Rightarrow> host \<Rightarrow> host" where
  "trierarch_defer_buffer_release b h = (case deferred_contains h b of None \<Rightarrow> fault h
     | Some duplicate \<Rightarrow> (case h_buffers h b of None \<Rightarrow> fault h | Some x \<Rightarrow>
       (let h1 = (if b_server x
              then upd_diag (\<lambda>d. d\<lparr>dg_deferred_enqueued := dg_deferred_enqueued d + 1,
                     dg_deferred_duplicates := dg_deferred_duplicates d + of_bool duplicate\<rparr>) h
              else h);
            h2 = upd_buffer b (b_deferred_next_update (\<lambda>_. h_deferred h1)) h1
        in h2\<lparr>h_deferred := Some b\<rparr>)))"

text \<open>
  One turn of the flush loop. The loop itself is a partial function: that it returns is
  part of what is proved below.
\<close>

definition flush_one :: "bid \<Rightarrow> shm_buffer \<Rightarrow> host \<Rightarrow> host" where
  "flush_one b x h =
     (let h1 = upd_buffer b (b_deferred_next_update (\<lambda>_. None)) h;
          h2 = (if b_server x
            then upd_diag (dg_deferred_flushed_update (\<lambda>n. n + 1)) h1 else h1)
      in trierarch_buffer_unref (Some b) (trierarch_shm_buffer_release b h2))"

partial_function (option) flush_loop :: "bid option \<Rightarrow> host \<Rightarrow> host option" where
  "flush_loop p h = (case p of None \<Rightarrow> Some h | Some b \<Rightarrow>
     (case h_buffers h b of None \<Rightarrow> Some (fault h) | Some x \<Rightarrow>
       flush_loop (b_deferred_next x) (flush_one b x h)))"

definition trierarch_flush_deferred_releases :: "host \<Rightarrow> host option" where
  "trierarch_flush_deferred_releases h = flush_loop (h_deferred h) (h\<lparr>h_deferred := None\<rparr>)"

section \<open>Shared memory\<close>

definition WL_SHM_FORMAT_ARGB8888 :: u32 where "WL_SHM_FORMAT_ARGB8888 = 0"
definition WL_SHM_FORMAT_XRGB8888 :: u32 where "WL_SHM_FORMAT_XRGB8888 = 1"

text \<open>
  The validity check of \<^verbatim>\<open>pool_create_buffer\<close>. \<^verbatim>\<open>width * 4\<close> is a 32-bit product;
  the extent is computed in \<^verbatim>\<open>size_t\<close>.
\<close>

definition pool_buffer_invalid :: "shm_pool \<Rightarrow> int \<Rightarrow> int \<Rightarrow> int \<Rightarrow> int \<Rightarrow> bool" where
  "pool_buffer_invalid q offset width height stride \<longleftrightarrow>
     width \<le> 0 \<or> height \<le> 0 \<or> stride < i32_wrap (width * 4) \<or> offset < 0 \<or>
     p_size q < word_of_int offset + word_of_int stride * word_of_int height"

text \<open>
  \<open>mem\<close> is the address \<^verbatim>\<open>calloc\<close> returns and \<open>res\<close> the resource
  \<^verbatim>\<open>wl_resource_create\<close> returns, \<open>None\<close> where the allocation fails.
\<close>

definition pool_create_buffer ::
  "cid \<Rightarrow> rid \<Rightarrow> pool_id option \<Rightarrow> bid option \<Rightarrow> rid option \<Rightarrow> int \<Rightarrow> int \<Rightarrow> int \<Rightarrow> int \<Rightarrow> u32
    \<Rightarrow> host \<Rightarrow> host" where
  "pool_create_buffer client resource pool mem res offset width height stride format h =
     (case pool of None \<Rightarrow> emit (Post_error resource Err_shm_invalid_stride) h | Some p \<Rightarrow>
      (case h_pools h p of None \<Rightarrow> fault h | Some q \<Rightarrow>
       if pool_buffer_invalid q offset width height stride
       then emit (Post_error resource Err_shm_invalid_stride) h
       else if format \<noteq> WL_SHM_FORMAT_XRGB8888 \<and> format \<noteq> WL_SHM_FORMAT_ARGB8888
       then emit (Post_error resource Err_shm_invalid_format) h
       else (case mem of None \<Rightarrow> emit (Post_no_memory client) h | Some b \<Rightarrow>
        (let x = calloc_buffer\<lparr>b_data := Some (p_data q + nat offset), b_pool := Some p,
               b_size := word_of_int stride * word_of_int height, b_offset := offset,
               b_width := width, b_height := height, b_stride := stride, b_format := format,
               b_single_pixel := False, b_references := 1, b_dmabuf_fd := -1,
               b_acquire_fence_fd := -1\<rparr>;
             h1 = h\<lparr>h_buffers := (h_buffers h)(b \<mapsto> x)\<rparr>;
             h2 = upd_pool p (\<lambda>q. q\<lparr>p_references := Suc (p_references q),
                    p_buffers := b # p_buffers q\<rparr>) h1
         in (case res of
              None \<Rightarrow> emit (Post_no_memory client)
                (free_buffer b (pool_unref p (upd_pool p (p_buffers_update (remove1 b)) h2)))
            | Some r \<Rightarrow> upd_buffer b (b_resource_update (\<lambda>_. Some r)) h2)))))"

text \<open>\<open>mapped\<close> is what \<^verbatim>\<open>mremap\<close> returns, \<open>None\<close> for \<^verbatim>\<open>MAP_FAILED\<close>.\<close>

definition rebase_buffer :: "addr \<Rightarrow> bid \<Rightarrow> host \<Rightarrow> host" where
  "rebase_buffer base b h =
     upd_buffer b (\<lambda>x. x\<lparr>b_data := Some (base + nat (b_offset x))\<rparr>) h"

definition pool_resize :: "rid \<Rightarrow> pool_id option \<Rightarrow> addr option \<Rightarrow> int \<Rightarrow> host \<Rightarrow> host" where
  "pool_resize resource pool mapped new_size h =
     (case pool of None \<Rightarrow> emit (Post_error resource Err_shm_invalid_fd) h | Some p \<Rightarrow>
      (case h_pools h p of None \<Rightarrow> fault h | Some q \<Rightarrow>
       if new_size \<le> 0 \<or> (word_of_int new_size :: u64) \<le> p_size q
       then emit (Post_error resource Err_shm_invalid_fd) h
       else (case mapped of None \<Rightarrow> emit (Post_error resource Err_shm_invalid_fd) h | Some base \<Rightarrow>
         fold (rebase_buffer base) (p_buffers q)
           (upd_pool p (\<lambda>q. q\<lparr>p_data := base, p_size := word_of_int new_size\<rparr>) h))))"

definition shm_create_pool ::
  "cid \<Rightarrow> rid \<Rightarrow> fd \<Rightarrow> pool_id option \<Rightarrow> addr option \<Rightarrow> rid option \<Rightarrow> int \<Rightarrow> host \<Rightarrow> host" where
  "shm_create_pool client resource f mem mapped res pool_size h =
     (if pool_size \<le> 0 then emit (Post_error resource Err_shm_invalid_fd) (close_fd f h)
      else case mem of None \<Rightarrow> emit (Post_no_memory client) (close_fd f h) | Some p \<Rightarrow>
       (case mapped of
          None \<Rightarrow> emit (Post_error resource Err_shm_invalid_fd) (close_fd f h)
        | Some base \<Rightarrow>
           (let h1 = h\<lparr>h_pools := (h_pools h)(p \<mapsto> \<lparr>p_data = base, p_size = word_of_int pool_size,
                  p_references = 1, p_fd = f, p_buffers = []\<rparr>)\<rparr>
            in case res of None \<Rightarrow> emit (Post_no_memory client) (pool_unref p h1)
               | Some _ \<Rightarrow> h1)))"

definition pool_resource_destroy :: "pool_id \<Rightarrow> host \<Rightarrow> host" where
  "pool_resource_destroy p h = pool_unref p h"

text \<open>
  \<^verbatim>\<open>trierarch_shm_buffer_from_resource\<close> and \<^verbatim>\<open>trierarch_dmabuf_buffer_from_resource\<close>
  accept a \<^verbatim>\<open>wl_buffer\<close> by the kind of the buffer it carries.
\<close>

definition trierarch_shm_buffer_from_resource :: "host \<Rightarrow> bid option \<Rightarrow> bid option" where
  "trierarch_shm_buffer_from_resource h p = (case p of None \<Rightarrow> None | Some b \<Rightarrow>
     (case h_buffers h b of None \<Rightarrow> None | Some x \<Rightarrow>
       if b_pool x \<noteq> None \<or> b_single_pixel x then Some b else None))"

end
