(* ===== verification/Explicit_Sync.thy ===== *)
theory Explicit_Sync
  imports Buffers
begin

text \<open>
  Explicit synchronisation (\<^verbatim>\<open>wayland-host/src/explicit_sync.c\<close>): an acquire fence and a
  release object that a client sets for its next commit, which the commit moves to the
  buffer. The destroy hook of a release object and its use by a buffer are in
  \<open>Buffers\<close>.
\<close>

definition trierarch_explicit_sync_adopt_release :: "rid option \<Rightarrow> bid option \<Rightarrow> host \<Rightarrow> host" where
  "trierarch_explicit_sync_adopt_release release buffer h = (case (release, buffer) of
       (Some r, Some b) \<Rightarrow> (case h_bindings h r of None \<Rightarrow> h | Some bd \<Rightarrow>
         h\<lparr>h_bindings := (h_bindings h)(r \<mapsto> bd\<lparr>rb_surface := None, rb_buffer := Some b\<rparr>)\<rparr>)
     | _ \<Rightarrow> h)"

definition close_acquire_fence :: "sid \<Rightarrow> host \<Rightarrow> host" where
  "close_acquire_fence s h = (case h_surfaces h s of None \<Rightarrow> fault h | Some x \<Rightarrow>
     if 0 \<le> s_acquire_fence_fd x
     then upd_surface s (s_acquire_fence_fd_update (\<lambda>_. -1)) (close_fd (s_acquire_fence_fd x) h)
     else h)"

definition sync_resource_destroy :: "rid \<Rightarrow> sid option \<Rightarrow> host \<Rightarrow> host" where
  "sync_resource_destroy resource surface h = (case surface of None \<Rightarrow> h | Some s \<Rightarrow>
     (case h_surfaces h s of None \<Rightarrow> fault h | Some x \<Rightarrow>
       if s_explicit_sync x \<noteq> Some resource then h
       else close_acquire_fence s (upd_surface s (s_explicit_sync_update (\<lambda>_. None)) h)))"

definition sync_set_acquire_fence :: "rid \<Rightarrow> sid option \<Rightarrow> fd \<Rightarrow> host \<Rightarrow> host" where
  "sync_set_acquire_fence resource surface f h = (case surface of
       None \<Rightarrow> if 0 \<le> f then close_fd f h else h
     | Some s \<Rightarrow> (case h_surfaces h s of None \<Rightarrow> fault h | Some x \<Rightarrow>
         if s_explicit_sync x \<noteq> Some resource then if 0 \<le> f then close_fd f h else h
         else if 0 \<le> s_acquire_fence_fd x
         then emit (Post_error resource Err_sync_duplicate_fence) (close_fd f h)
         else upd_surface s (s_acquire_fence_fd_update (\<lambda>_. f)) h))"

text \<open>\<open>mem\<close>: whether the binding could be allocated.\<close>

definition sync_get_release ::
  "cid \<Rightarrow> rid \<Rightarrow> sid option \<Rightarrow> bool \<Rightarrow> rid option \<Rightarrow> host \<Rightarrow> host" where
  "sync_get_release client resource surface mem res h = (case surface of None \<Rightarrow> h | Some s \<Rightarrow>
     (case h_surfaces h s of None \<Rightarrow> fault h | Some x \<Rightarrow>
       if s_explicit_sync x \<noteq> Some resource then h
       else if s_pending_explicit_release x \<noteq> None
       then emit (Post_error resource Err_sync_duplicate_release) h
       else if \<not> mem then emit (Post_no_memory client) h
       else (case res of None \<Rightarrow> emit (Post_no_memory client) h | Some r \<Rightarrow>
         upd_surface s (s_pending_explicit_release_update (\<lambda>_. Some r))
           (h\<lparr>h_bindings := (h_bindings h)(r \<mapsto> \<lparr>rb_surface = Some s, rb_buffer = None\<rparr>)\<rparr>))))"

definition manager_get_sync ::
  "cid \<Rightarrow> rid \<Rightarrow> rid option \<Rightarrow> sid option \<Rightarrow> host \<Rightarrow> host" where
  "manager_get_sync client resource res surface h = (case surface of
       None \<Rightarrow> emit (Post_error resource Err_sync_exists) h
     | Some s \<Rightarrow> (case h_surfaces h s of None \<Rightarrow> fault h | Some x \<Rightarrow>
         if s_explicit_sync x \<noteq> None then emit (Post_error resource Err_sync_exists) h
         else (case res of None \<Rightarrow> emit (Post_no_memory client) h | Some r \<Rightarrow>
           upd_surface s (\<lambda>x. x\<lparr>s_explicit_sync := Some r,
             s_acquire_fence_fd := (if s_acquire_fence_fd x < 0 then -1
                                    else s_acquire_fence_fd x)\<rparr>) h)))"

text \<open>
  The wait on the fence: \<open>h_poll_result\<close> is what \<^verbatim>\<open>poll\<close> answers in the end, after
  the retries on \<^verbatim>\<open>EINTR\<close>.
\<close>

definition trierarch_explicit_sync_wait :: "bid \<Rightarrow> host \<Rightarrow> host" where
  "trierarch_explicit_sync_wait b h = (case h_buffers h b of None \<Rightarrow> fault h | Some x \<Rightarrow>
     if b_acquire_fence_fd x < 0 then h
     else let h1 = (if b_server x
                then upd_diag (dg_acquire_fence_waits_update (\<lambda>n. n + 1)) h else h);
              h2 = upd_buffer b (b_acquire_fence_fd_update (\<lambda>_. -1))
                     (close_fd (b_acquire_fence_fd x) h1)
          in if h_poll_result h \<le> 0 \<and> b_server x
             then upd_diag (dg_acquire_fence_failures_update (\<lambda>n. n + 1)) h2 else h2)"

end
