(* ===== verification/Buffer_Sources.thy ===== *)
theory Buffer_Sources
  imports Buffers
begin

text \<open>
  Where buffers other than those of a shared-memory pool come from: EGL
  (\<^verbatim>\<open>egl_buffer.c\<close>), single pixels (\<^verbatim>\<open>single_pixel_buffer.c\<close>), dma-bufs
  (\<^verbatim>\<open>linux_dmabuf.c\<close>) and Android handles (\<^verbatim>\<open>protocol_stubs.c\<close>).
\<close>

section \<open>EGL buffers\<close>

text \<open>The output's size is an \<^verbatim>\<open>int32_t\<close>, and so is the product.\<close>

definition apply_output_size :: "wayland_server \<Rightarrow> shm_buffer \<Rightarrow> shm_buffer" where
  "apply_output_size v x =
     (let w = (if 0 < sv_output_width v then sv_output_width v else 1080);
          ht = (if 0 < sv_output_height v then sv_output_height v else 1920)
      in x\<lparr>b_width := w, b_height := ht, b_stride := i32_wrap (w * 4)\<rparr>)"

text \<open>\<open>None\<close>: the walk followed a freed wrapper.\<close>

fun find_cached_in :: "host \<Rightarrow> rid \<Rightarrow> bid list \<Rightarrow> bid option option" where
  "find_cached_in h r [] = Some None"
| "find_cached_in h r (b # bs) =
     (case h_buffers h b of None \<Rightarrow> None | Some x \<Rightarrow>
       if b_egl_resource x = Some r then Some (Some b) else find_cached_in h r bs)"

definition find_cached :: "host \<Rightarrow> rid \<Rightarrow> bid option option" where
  "find_cached h r = find_cached_in h r (sv_egl_buffers (h_server h))"

definition egl_resource_destroyed :: "bid \<Rightarrow> host \<Rightarrow> host" where
  "egl_resource_destroyed b h = (case h_buffers h b of None \<Rightarrow> fault h | Some x \<Rightarrow>
     (let h1 = emit Wait_idle (upd_buffer b (b_egl_listener_attached_update (\<lambda>_. False)) h);
          h2 = (if b_egl_cache_linked x
            then upd_buffer b (b_egl_cache_linked_update (\<lambda>_. False))
                  (upd_server (\<lambda>v. v\<lparr>sv_egl_buffers := remove1 b (sv_egl_buffers v)\<rparr>) h1)
            else h1)
      in trierarch_buffer_unref (Some b)
           (upd_buffer b (\<lambda>x. x\<lparr>b_egl_resource := None, b_resource := None\<rparr>) h2)))"

text \<open>\<open>mem\<close>: the wrapper \<^verbatim>\<open>calloc\<close> returns, if any.\<close>

definition trierarch_egl_buffer_from_resource ::
  "rid \<Rightarrow> bid option \<Rightarrow> host \<Rightarrow> bid option \<times> host" where
  "trierarch_egl_buffer_from_resource r mem h =
     (if \<not> sv_egl_buffer_supported (h_server h) then (None, h)
      else case find_cached h r of
          None \<Rightarrow> (None, fault h)
        | Some (Some b) \<Rightarrow> (Some b, upd_buffer b (apply_output_size (h_server h)) h)
        | Some None \<Rightarrow> (case mem of None \<Rightarrow> (None, h) | Some b \<Rightarrow>
            (Some b, upd_server (\<lambda>v. v\<lparr>sv_egl_buffers := b # sv_egl_buffers v\<rparr>)
              (h\<lparr>h_buffers := (h_buffers h)(b \<mapsto>
                 (apply_output_size (h_server h) (calloc_buffer\<lparr>b_references := 1,
                   b_resource := Some r, b_egl_buffer := True, b_server := True,
                   b_acquire_fence_fd := -1, b_egl_resource := Some r,
                   b_egl_listener_attached := True\<rparr>))\<lparr>b_format := WL_SHM_FORMAT_XRGB8888,
                   b_egl_cache_linked := True\<rparr>)\<rparr>))))"

section \<open>Single pixels\<close>

text \<open>\<open>data\<close>: the pixel's \<^verbatim>\<open>malloc\<close>ed storage. The result says whether it was created.\<close>

definition single_pixel_buffer_create ::
  "bid option \<Rightarrow> addr option \<Rightarrow> rid option \<Rightarrow> host \<Rightarrow> bool \<times> host" where
  "single_pixel_buffer_create mem data res h = (case (mem, data, res) of
       (Some b, Some a, Some r) \<Rightarrow>
         (True, h\<lparr>h_buffers := (h_buffers h)(b \<mapsto> calloc_buffer\<lparr>b_data := Some a, b_size := 4,
            b_references := 1, b_width := 1, b_height := 1, b_stride := 4,
            b_format := WL_SHM_FORMAT_ARGB8888, b_single_pixel := True,
            b_acquire_fence_fd := -1, b_resource := Some r\<rparr>)\<rparr>)
     | _ \<Rightarrow> (False, h))"

text \<open>The pixel packs the high bytes of the four 32-bit channels.\<close>

definition pixel_of :: "u32 \<Rightarrow> u32 \<Rightarrow> u32 \<Rightarrow> u32 \<Rightarrow> u32" where
  "pixel_of r g b a = push_bit 24 (drop_bit 24 a) OR push_bit 16 (drop_bit 24 r) OR
     push_bit 8 (drop_bit 24 g) OR drop_bit 24 b"

definition manager_create_u32_rgba_buffer ::
  "cid \<Rightarrow> bid option \<Rightarrow> addr option \<Rightarrow> rid option \<Rightarrow> host \<Rightarrow> host" where
  "manager_create_u32_rgba_buffer client mem data res h =
     (let (created, h1) = single_pixel_buffer_create mem data res h
      in if created then h1 else emit (Post_no_memory client) h1)"

section \<open>dma-bufs\<close>

definition DRM_FORMAT_XRGB8888 :: u32 where "DRM_FORMAT_XRGB8888 = 0x34325258"
definition DRM_FORMAT_ARGB8888 :: u32 where "DRM_FORMAT_ARGB8888 = 0x34325241"
definition DRM_FORMAT_XBGR8888 :: u32 where "DRM_FORMAT_XBGR8888 = 0x34324258"
definition DRM_FORMAT_ABGR8888 :: u32 where "DRM_FORMAT_ABGR8888 = 0x34324241"

lemmas drm_formats = DRM_FORMAT_XRGB8888_def DRM_FORMAT_ARGB8888_def
  DRM_FORMAT_XBGR8888_def DRM_FORMAT_ABGR8888_def

definition supported_format :: "u32 \<Rightarrow> bool" where
  "supported_format f \<longleftrightarrow> f = DRM_FORMAT_XRGB8888 \<or> f = DRM_FORMAT_ARGB8888 \<or>
     f = DRM_FORMAT_XBGR8888 \<or> f = DRM_FORMAT_ABGR8888"

record dmabuf_params =
  pr_fd :: fd
  pr_offset :: u32
  pr_stride :: u32
  pr_modifier :: u64
  pr_added :: bool
  pr_used :: bool

definition params_rejected :: "dmabuf_params \<Rightarrow> int \<Rightarrow> int \<Rightarrow> u32 \<Rightarrow> bool" where
  "params_rejected p width height format \<longleftrightarrow>
     \<not> pr_added p \<or> pr_fd p < 0 \<or> width \<le> 0 \<or> height \<le> 0 \<or> \<not> supported_format format \<or>
     INT32_MAX div 4 < width \<or> pr_stride p < word_of_int width * 4 \<or>
     word_of_int INT32_MAX < pr_stride p"

text \<open>
  \<open>token\<close>: the hardware buffer of the token the descriptor names, if it is one
  (\<^verbatim>\<open>tvg_scanout_lookup_fd\<close>); \<open>mapped\<close>: what \<^verbatim>\<open>mmap\<close> returns. The result is the
  new buffer, the parameters, and the state.
\<close>

definition mapping_end :: "dmabuf_params \<Rightarrow> int \<Rightarrow> u64" where
  "mapping_end p height = ucast (pr_offset p) + ucast (pr_stride p) * word_of_int height"

definition make_dmabuf_buffer ::
  "addr option \<Rightarrow> addr option \<Rightarrow> bid option \<Rightarrow> rid option \<Rightarrow> int \<Rightarrow> int \<Rightarrow> u32
    \<Rightarrow> dmabuf_params \<Rightarrow> host \<Rightarrow> bid option \<times> dmabuf_params \<times> host" where
  "make_dmabuf_buffer token mapped mem res width height format p h =
     (if params_rejected p width height format then (None, p, h)
      else if token = None \<and> pr_modifier p \<noteq> 0 then (None, p, h)
      else let tvg = token \<noteq> None;
               mapping = (if tvg then None else mapped);
               e = mapping_end p height;
               unmap = (\<lambda>h. case mapping of None \<Rightarrow> h | Some m \<Rightarrow> emit (Munmap m e) h)
           in case mem of
                None \<Rightarrow> (None, p\<lparr>pr_fd := -1\<rparr>, close_fd (pr_fd p) (unmap h))
              | Some b \<Rightarrow>
                 (let h1 = (case token of None \<Rightarrow> h | Some a \<Rightarrow> emit (Ahb_acquire a) h);
                      x = calloc_buffer\<lparr>b_references := 1, b_dmabuf := True, b_tvg_token := tvg,
                            b_android_buffer := tvg, b_android_hardware_buffer := token,
                            b_acquire_fence_fd := -1,
                            b_dmabuf_fd := (if tvg then -1 else pr_fd p),
                            b_tvg_fd := (if tvg then pr_fd p else -1),
                            b_dmabuf_mapping := mapping,
                            b_dmabuf_mapping_size := (if mapping = None then 0 else e),
                            b_data := map_option (\<lambda>m. m + unat (pr_offset p)) mapping,
                            b_size := ucast (pr_stride p) * word_of_int height,
                            b_width := width, b_height := height,
                            b_stride := sint (pr_stride p), b_format := format,
                            b_dmabuf_modifier := pr_modifier p, b_dmabuf_offset := pr_offset p\<rparr>;
                      p1 = p\<lparr>pr_fd := -1\<rparr>
                  in case res of
                       None \<Rightarrow>
                        (let h2 = unmap h1;
                             h3 = close_fd (pr_fd p) h2;
                             h4 = (case token of None \<Rightarrow> h3 | Some a \<Rightarrow> emit (Ahb_release a) h3)
                         in (None, p1, h4))
                     | Some r \<Rightarrow>
                        (Some b, p1,
                         h1\<lparr>h_buffers := (h_buffers h1)(b \<mapsto> x\<lparr>b_resource := Some r\<rparr>)\<rparr>)))"

definition params_add ::
  "rid \<Rightarrow> fd \<Rightarrow> u32 \<Rightarrow> u32 \<Rightarrow> u32 \<Rightarrow> u32 \<Rightarrow> u32 \<Rightarrow> dmabuf_params \<Rightarrow> host
    \<Rightarrow> dmabuf_params \<times> host" where
  "params_add resource f plane offset stride modifier_hi modifier_lo p h =
     (if pr_used p \<or> pr_added p \<or> plane \<noteq> 0 \<or> f < 0
      then (p, emit (Post_error resource Err_params_already_used)
                 (if 0 \<le> f then close_fd f h else h))
      else (p\<lparr>pr_fd := f, pr_offset := offset, pr_stride := stride,
              pr_modifier := push_bit 32 (ucast modifier_hi) OR ucast modifier_lo,
              pr_added := True\<rparr>, h))"

definition params_create ::
  "rid \<Rightarrow> addr option \<Rightarrow> addr option \<Rightarrow> bid option \<Rightarrow> rid option \<Rightarrow> int \<Rightarrow> int \<Rightarrow> u32
    \<Rightarrow> dmabuf_params \<Rightarrow> host \<Rightarrow> dmabuf_params \<times> host" where
  "params_create resource token mapped mem res width height format p h =
     (if pr_used p then (p, h)
      else let (made, p1, h1) = make_dmabuf_buffer token mapped mem res width height format p h;
               p2 = p1\<lparr>pr_used := True\<rparr>
           in case (made, res) of
                (Some b, Some r) \<Rightarrow> (p2, emit (Send_dmabuf resource (Params_created r)) h1)
              | _ \<Rightarrow> (p2, emit (Send_dmabuf resource Params_failed)
                        (upd_diag (dg_dmabuf_reject_update (\<lambda>n. n + 1)) h1)))"

definition params_create_immed ::
  "rid \<Rightarrow> addr option \<Rightarrow> addr option \<Rightarrow> bid option \<Rightarrow> rid option \<Rightarrow> int \<Rightarrow> int \<Rightarrow> u32
    \<Rightarrow> dmabuf_params \<Rightarrow> host \<Rightarrow> dmabuf_params \<times> host" where
  "params_create_immed resource token mapped mem res width height format p h =
     (if pr_used p then (p, h)
      else let (made, p1, h1) = make_dmabuf_buffer token mapped mem res width height format p h;
               p2 = p1\<lparr>pr_used := True\<rparr>
           in if made = None
              then (p2, emit (Post_error resource
                     (if pr_added p2 then Err_params_invalid_format else Err_params_incomplete))
                     (upd_diag (dg_dmabuf_reject_update (\<lambda>n. n + 1)) h1))
              else (p2, h1))"

definition params_resource_destroy :: "dmabuf_params \<Rightarrow> host \<Rightarrow> host" where
  "params_resource_destroy p h = (if 0 \<le> pr_fd p then close_fd (pr_fd p) h else h)"

definition new_params :: dmabuf_params where
  "new_params = \<lparr>pr_fd = -1, pr_offset = 0, pr_stride = 0, pr_modifier = 0, pr_added = False,
     pr_used = False\<rparr>"

definition dmabuf_create_params ::
  "cid \<Rightarrow> bool \<Rightarrow> rid option \<Rightarrow> host \<Rightarrow> dmabuf_params option \<times> host" where
  "dmabuf_create_params client mem res h =
     (if \<not> mem \<or> res = None then (None, emit (Post_no_memory client) h)
      else (Some new_params, h))"

definition trierarch_dmabuf_buffer_from_resource :: "host \<Rightarrow> bid option \<Rightarrow> bid option" where
  "trierarch_dmabuf_buffer_from_resource h p = (case p of None \<Rightarrow> None | Some b \<Rightarrow>
     (case h_buffers h b of None \<Rightarrow> None | Some x \<Rightarrow> if b_dmabuf x then Some b else None))"

section \<open>Android handles\<close>

text \<open>\<open>is_android\<close>: whether \<^verbatim>\<open>wl_resource_instance_of\<close> recognises the implementation.\<close>

definition trierarch_android_buffer_from_resource ::
  "host \<Rightarrow> bool \<Rightarrow> bid option \<Rightarrow> bid option" where
  "trierarch_android_buffer_from_resource h is_android p =
     (if \<not> is_android then None else case p of None \<Rightarrow> None | Some b \<Rightarrow>
       (case h_buffers h b of None \<Rightarrow> None | Some x \<Rightarrow> if b_android_buffer x then Some b else None))"

record wlegl_handle =
  wh_expected :: int
  wh_fds :: "fd list"
  wh_ints :: "int list"

text \<open>\<open>wh_fds\<close> holds the descriptors received so far; the source's array is \<open>-1\<close> beyond.\<close>

definition wlegl_handle_add_fd :: "fd \<Rightarrow> wlegl_handle \<Rightarrow> host \<Rightarrow> wlegl_handle \<times> host" where
  "wlegl_handle_add_fd f w h =
     (if wh_expected w \<le> int (length (wh_fds w)) then (w, if 0 \<le> f then close_fd f h else h)
      else (w\<lparr>wh_fds := wh_fds w @ [f]\<rparr>, h))"

definition wlegl_handle_destroy :: "wlegl_handle \<Rightarrow> host \<Rightarrow> host" where
  "wlegl_handle_destroy w h = fold close_fd (filter (\<lambda>f. 0 \<le> f) (wh_fds w)) h"

definition wlegl_create_handle ::
  "cid \<Rightarrow> int \<Rightarrow> int list \<Rightarrow> bool \<Rightarrow> rid option \<Rightarrow> host \<Rightarrow> wlegl_handle option \<times> host" where
  "wlegl_create_handle client num_fds ints mem res h =
     (if num_fds < 0 \<or> \<not> mem \<or> res = None then (None, emit (Post_no_memory client) h)
      else (Some \<lparr>wh_expected = num_fds, wh_fds = [], wh_ints = ints\<rparr>, h))"

text \<open>
  \<open>native\<close>: whether the handle could be allocated; \<open>ahb\<close>: the hardware buffer
  \<^verbatim>\<open>AHardwareBuffer_createFromHandle\<close> makes, if it succeeds.
\<close>

definition wlegl_format_ok :: "u32 \<Rightarrow> bool" where
  "wlegl_format_ok f \<longleftrightarrow> f = 0x34325258 \<or> f = 0x34325241 \<or> f = 0x34324142"

definition wlegl_create_buffer ::
  "cid \<Rightarrow> bool \<Rightarrow> addr option \<Rightarrow> bid option \<Rightarrow> rid option \<Rightarrow> int \<Rightarrow> int \<Rightarrow> int \<Rightarrow> u32
    \<Rightarrow> wlegl_handle \<Rightarrow> host \<Rightarrow> host" where
  "wlegl_create_buffer client native ahb mem res width height stride format w h =
     (if int (length (wh_fds w)) \<noteq> wh_expected w \<or> width \<le> 0 \<or> height \<le> 0 \<or> stride \<le> 0 \<or>
         wh_expected w = 0 then h
      else if \<not> wlegl_format_ok format then h
      else if \<not> native then emit (Post_no_memory client) h
      else case ahb of None \<Rightarrow> h | Some a \<Rightarrow>
        (case (mem, res) of
           (Some b, Some r) \<Rightarrow>
             h\<lparr>h_buffers := (h_buffers h)(b \<mapsto> calloc_buffer\<lparr>b_android_buffer := True,
               b_references := 1, b_acquire_fence_fd := -1, b_android_hardware_buffer := Some a,
               b_width := width, b_height := height, b_stride := stride, b_format := format,
               b_resource := Some r\<rparr>)\<rparr>
         | _ \<Rightarrow> emit (Post_no_memory client) (emit (Ahb_release a) h)))"

end
