(* ===== verification/Surface.thy ===== *)
theory Surface
  imports Subcompositor Shell Layer_Shell Explicit_Sync Buffer_Sources
begin

text \<open>
  Surfaces (\<^verbatim>\<open>wayland-host/src/surface.c\<close>) and the end of a frame
  (\<^verbatim>\<open>compositor.c\<close>): attaching a buffer to the pending state, the commit that makes it
  current, frame callbacks on their way from the request to the presented frame, and the
  destruction of a surface with everything it owns.

  A long C function is cut into the parts its blank lines and branches suggest; the
  function is the composition of the parts in the order of the source.
\<close>

section \<open>Creation\<close>

definition compositor_create_region :: "cid \<Rightarrow> rid option \<Rightarrow> host \<Rightarrow> host" where
  "compositor_create_region client res h =
     (case res of None \<Rightarrow> emit (Post_no_memory client) h | Some _ \<Rightarrow> h)"

definition compositor_create_surface ::
  "cid \<Rightarrow> rid \<Rightarrow> sid option \<Rightarrow> rid option \<Rightarrow> host \<Rightarrow> host" where
  "compositor_create_surface client resource mem res h = (case (mem, res) of
       (Some s, Some r) \<Rightarrow>
         upd_server (\<lambda>v. v\<lparr>sv_surfaces := s # sv_surfaces v\<rparr>)
           (new_resource client (h_version h resource) r
             (h\<lparr>h_surfaces := (h_surfaces h)(s \<mapsto> new_surface r)\<rparr>))
     | _ \<Rightarrow> emit (Post_no_memory client) h)"

section \<open>Pending state\<close>

text \<open>
  The first attach of a buffer ties it to the server and counts it once.
\<close>

definition mark_attached :: "bid \<Rightarrow> host \<Rightarrow> host" where
  "mark_attached b h = (case h_buffers h b of None \<Rightarrow> fault h | Some x \<Rightarrow>
     (let h1 = upd_buffer b (\<lambda>x. x\<lparr>b_server := True, b_diag_counted := True\<rparr>) h
      in if b_diag_counted x then h1
         else upd_diag (\<lambda>d. d\<lparr>
                dg_dmabuf_accept := dg_dmabuf_accept d + of_bool (b_dmabuf x),
                dg_tvg_buffers := dg_tvg_buffers d + of_bool (b_tvg_token x)\<rparr>) h1))"

definition surface_set_pending_buffer :: "sid \<Rightarrow> bid option \<Rightarrow> host \<Rightarrow> host" where
  "surface_set_pending_buffer s p h = (case h_surfaces h s of None \<Rightarrow> fault h | Some x \<Rightarrow>
     if s_pending x = p then h
     else let h1 = (case p of None \<Rightarrow> h | Some b \<Rightarrow> mark_attached b h);
              h2 = trierarch_buffer_ref p h1;
              h3 = upd_surface s (s_pending_update (\<lambda>_. p)) h2
          in trierarch_buffer_unref (s_pending x) h3)"

definition surface_frame :: "cid \<Rightarrow> sid option \<Rightarrow> bool \<Rightarrow> rid option \<Rightarrow> host \<Rightarrow> host" where
  "surface_frame client surface mem res h = (case surface of None \<Rightarrow> h | Some s \<Rightarrow>
     if \<not> mem then emit (Post_no_memory client) h
     else (case res of None \<Rightarrow> emit (Post_no_memory client) h | Some r \<Rightarrow>
       upd_perf (pf_frame_callbacks_requested_update (\<lambda>n. n + 1))
        (upd_surface s (\<lambda>x. x\<lparr>s_pending_frame_callbacks := s_pending_frame_callbacks x @ [r],
           s_perf := (s_perf x)\<lparr>sp_frame_callbacks_requested :=
             sp_frame_callbacks_requested (s_perf x) + 1\<rparr>\<rparr>) h)))"

text \<open>
  The buffer behind a \<^verbatim>\<open>wl_buffer\<close>: \<open>data\<close> is the host's buffer the resource carries,
  \<open>None\<close> for a resource of the EGL implementation; \<open>mem\<close> is where a new wrapper for
  such a resource would go.
\<close>

definition buffer_behind ::
  "rid \<Rightarrow> bid option \<Rightarrow> bool \<Rightarrow> bid option \<Rightarrow> host \<Rightarrow> bid option \<times> host" where
  "buffer_behind r data is_android mem h =
     (case trierarch_shm_buffer_from_resource h data of Some b \<Rightarrow> (Some b, h) | None \<Rightarrow>
      (case trierarch_dmabuf_buffer_from_resource h data of Some b \<Rightarrow> (Some b, h) | None \<Rightarrow>
       (case trierarch_android_buffer_from_resource h is_android data of Some b \<Rightarrow> (Some b, h)
        | None \<Rightarrow> trierarch_egl_buffer_from_resource r mem h)))"

definition surface_attach ::
  "rid \<Rightarrow> sid option \<Rightarrow> rid option \<Rightarrow> bid option \<Rightarrow> bool \<Rightarrow> bid option \<Rightarrow> int \<Rightarrow> int
    \<Rightarrow> host \<Rightarrow> host" where
  "surface_attach resource surface buffer_resource data is_android mem x y h = (case surface of
       None \<Rightarrow> emit (Post_error resource Err_surface_invalid_offset) h
     | Some s \<Rightarrow>
         if x \<noteq> 0 \<or> y \<noteq> 0 then emit (Post_error resource Err_surface_invalid_offset) h
         else (case buffer_resource of
             None \<Rightarrow> upd_surface s (s_pending_detach_update (\<lambda>_. True))
                       (surface_set_pending_buffer s None h)
           | Some r \<Rightarrow>
               (case buffer_behind r data is_android mem h of
                  (None, h1) \<Rightarrow> emit (Post_error resource Err_surface_invalid_size) h1
                | (Some b, h1) \<Rightarrow>
                    if fld (h_surfaces h1) s_pending s \<noteq> Some b
                    then upd_surface s (s_pending_detach_update (\<lambda>_. False))
                           (surface_set_pending_buffer s (Some b) h1)
                    else h1)))"

definition surface_damage :: "sid option \<Rightarrow> host \<Rightarrow> host" where
  "surface_damage surface h = (case surface of None \<Rightarrow> h | Some s \<Rightarrow>
     upd_perf (\<lambda>q. q\<lparr>pf_surface_damage := pf_surface_damage q + 1,
        pf_surface_damage_generation := pf_surface_damage_generation q + 1\<rparr>)
      (upd_surface s (\<lambda>x. x\<lparr>s_damaged := True,
         s_perf := (s_perf x)\<lparr>sp_damage := sp_damage (s_perf x) + 1\<rparr>\<rparr>) h))"

definition surface_damage_buffer :: "sid option \<Rightarrow> host \<Rightarrow> host" where
  "surface_damage_buffer surface h = surface_damage surface h"

definition surface_set_buffer_scale :: "sid option \<Rightarrow> int \<Rightarrow> host \<Rightarrow> host" where
  "surface_set_buffer_scale surface scale h = (case surface of None \<Rightarrow> h | Some s \<Rightarrow>
     if 0 < scale then upd_surface s (s_buffer_scale_update (\<lambda>_. scale)) h else h)"

section \<open>Commit\<close>

text \<open>The counters, and the frame callbacks that become committed; the flag says whether any did.\<close>

definition commit_callbacks :: "sid \<Rightarrow> host \<Rightarrow> bool \<times> host" where
  "commit_callbacks s h = (case h_surfaces h s of None \<Rightarrow> (False, fault h) | Some x \<Rightarrow>
     (let n = word_of_nat (length (s_pending_frame_callbacks x));
          h1 = upd_perf (pf_surface_commits_update (\<lambda>n. n + 1))
                (upd_surface s (\<lambda>x. x\<lparr>s_perf := (s_perf x)\<lparr>sp_commits := sp_commits (s_perf x) + 1\<rparr>\<rparr>) h)
      in if s_pending_frame_callbacks x = [] then (False, h1)
         else (True,
           upd_perf (pf_frame_callbacks_committed_update (\<lambda>m. m + n))
            (upd_surface s (\<lambda>x. x\<lparr>
               s_committed_frame_callbacks := s_committed_frame_callbacks x @ s_pending_frame_callbacks x,
               s_pending_frame_callbacks := [],
               s_perf := (s_perf x)\<lparr>sp_frame_callbacks_committed :=
                 sp_frame_callbacks_committed (s_perf x) + n\<rparr>\<rparr>) h1))))"

text \<open>The current buffer is handed to the deferred list.\<close>

definition commit_drop_current :: "sid \<Rightarrow> host \<Rightarrow> host" where
  "commit_drop_current s h = (case fld (h_surfaces h) s_current s of None \<Rightarrow> h | Some b \<Rightarrow>
     trierarch_defer_buffer_release b (upd_surface s (s_current_update (\<lambda>_. None)) h))"

text \<open>The fence and the release object move from the surface to the new buffer.\<close>

definition commit_sync :: "sid \<Rightarrow> bid \<Rightarrow> host \<Rightarrow> host" where
  "commit_sync s b h = (case h_surfaces h s of None \<Rightarrow> fault h | Some x \<Rightarrow>
     (let h1 = upd_surface s (s_acquire_fence_fd_update (\<lambda>_. -1))
                (upd_buffer b (b_acquire_fence_fd_update (\<lambda>_. s_acquire_fence_fd x)) h);
          h2 = trierarch_explicit_sync_wait b h1;
          h3 = (case fld (h_buffers h2) b_explicit_release b of None \<Rightarrow> h2
                | Some r \<Rightarrow> destroy_release r h2);
          h4 = upd_buffer b (b_explicit_release_update (\<lambda>_. s_pending_explicit_release x)) h3;
          h5 = trierarch_explicit_sync_adopt_release (s_pending_explicit_release x) (Some b) h4
      in upd_surface s (s_pending_explicit_release_update (\<lambda>_. None)) h5))"

text \<open>A commit without a buffer drops them.\<close>

definition commit_drop_sync :: "sid \<Rightarrow> host \<Rightarrow> host" where
  "commit_drop_sync s h = (case h_surfaces h s of None \<Rightarrow> fault h | Some x \<Rightarrow>
     (let h1 = (if 0 \<le> s_acquire_fence_fd x then close_fd (s_acquire_fence_fd x) h else h);
          h2 = upd_surface s (s_acquire_fence_fd_update (\<lambda>_. -1)) h1;
          h3 = (case s_pending_explicit_release x of None \<Rightarrow> h2 | Some r \<Rightarrow> destroy_release r h2)
      in upd_surface s (s_pending_explicit_release_update (\<lambda>_. None)) h3))"

definition commit_map :: "sid \<Rightarrow> bid option \<Rightarrow> host \<Rightarrow> host" where
  "commit_map s p h = (case p of
       Some b \<Rightarrow> (case h_buffers h b of None \<Rightarrow> fault h | Some y \<Rightarrow>
         upd_surface s (\<lambda>x. x\<lparr>s_current := Some b, s_width := b_width y, s_height := b_height y,
             s_mapped := True\<rparr>)
           (upd_buffer b (b_busy_users_update Suc) h))
     | None \<Rightarrow> upd_surface s (\<lambda>x. x\<lparr>s_current := None, s_width := 0, s_height := 0,
             s_mapped := False\<rparr>) h)"

text \<open>The block for a changed buffer.\<close>

definition commit_replace :: "sid \<Rightarrow> bid option \<Rightarrow> host \<Rightarrow> host" where
  "commit_replace s p h =
     (let h1 = upd_surface s (\<lambda>x. x\<lparr>s_perf := (s_perf x)\<lparr>sp_buffer_replacements :=
                 sp_buffer_replacements (s_perf x) + 1\<rparr>\<rparr>) h;
          h2 = commit_drop_current s h1;
          h3 = (case p of Some b \<Rightarrow> commit_sync s b h2 | None \<Rightarrow> commit_drop_sync s h2);
          h4 = commit_map s p h3;
          h5 = upd_perf (pf_surface_commit_generation_update (\<lambda>n. n + 1))
                (upd_surface s (s_damaged_update (\<lambda>_. True)) h4)
      in (case h_surfaces h5 s of None \<Rightarrow> fault h5 | Some x \<Rightarrow>
            trierarch_output_enter_surface (s_wl_surface x) h5))"

definition commit_buffer :: "sid \<Rightarrow> host \<Rightarrow> host" where
  "commit_buffer s h = (case h_surfaces h s of None \<Rightarrow> fault h | Some x \<Rightarrow>
     if s_pending x = None \<and> \<not> s_pending_detach x then h
     else let p = s_pending x;
              h1 = (if p \<noteq> s_current x then commit_replace s p h
                    else trierarch_buffer_unref p h)
          in upd_surface s (\<lambda>x. x\<lparr>s_pending := None, s_pending_detach := False\<rparr>) h1)"

definition commit_configure :: "sid \<Rightarrow> host \<Rightarrow> host" where
  "commit_configure s h = (case h_surfaces h s of None \<Rightarrow> fault h | Some x \<Rightarrow>
     trierarch_layer_surface_commit s
       (if s_xdg_surface x \<noteq> None \<and> \<not> s_configured x
        then trierarch_surface_send_configure s h else h))"

definition commit_present :: "sid \<Rightarrow> host \<Rightarrow> host" where
  "commit_present s h = (case fld (h_surfaces h) s_current s of None \<Rightarrow> h | Some b \<Rightarrow>
     (case h_buffers h b of None \<Rightarrow> fault h | Some y \<Rightarrow>
       if b_tvg_token y \<and> 0 \<le> b_tvg_fd y then emit (Tvg_present (b_tvg_fd y)) h else h))"

definition trierarch_surface_commit :: "sid \<Rightarrow> host \<Rightarrow> host" where
  "trierarch_surface_commit s h = (case h_surfaces h s of None \<Rightarrow> fault h | Some _ \<Rightarrow>
     (let (callbacks, h1) = commit_callbacks s h;
          h2 = commit_present s (commit_configure s (commit_buffer s h1))
      in (case h_surfaces h2 s of None \<Rightarrow> fault h2 | Some x \<Rightarrow>
            if s_damaged x \<or> callbacks then trierarch_wayland_request_render h2 else h2)))"

definition surface_commit :: "sid option \<Rightarrow> host \<Rightarrow> host" where
  "surface_commit surface h =
     (case surface of None \<Rightarrow> h | Some s \<Rightarrow> trierarch_surface_commit s h)"

section \<open>Destruction\<close>

text \<open>\<^verbatim>\<open>wl_resource_destroy\<close> of a role object of a surface, with its hook.\<close>

definition destroy_role ::
  "(compositor_surface \<Rightarrow> rid option) \<Rightarrow> (rid \<Rightarrow> host \<Rightarrow> host) \<Rightarrow> sid \<Rightarrow> host \<Rightarrow> host" where
  "destroy_role get hook s h = (case fld (h_surfaces h) get s of None \<Rightarrow> h | Some r \<Rightarrow>
     emit (Destroyed r) (hook r h))"

definition destroy_roles :: "sid \<Rightarrow> host \<Rightarrow> host" where
  "destroy_roles s h =
     (let h1 = destroy_role s_xdg_toplevel (\<lambda>_. xdg_toplevel_resource_destroy (Some s)) s h;
          h2 = destroy_role s_xdg_surface (\<lambda>_. xdg_surface_resource_destroy (Some s)) s h1;
          h3 = destroy_role s_subsurface (\<lambda>r. subsurface_resource_destroy r (Some s)) s h2;
          h4 = destroy_role s_viewport (\<lambda>_. viewport_resource_destroy (Some s)) s h3;
          h5 = destroy_role s_fractional_scale (\<lambda>_. id) s h4;
          h6 = destroy_role s_layer_surface (\<lambda>_. layer_surface_resource_destroy (Some s)) s h5;
          h7 = destroy_role s_explicit_sync (\<lambda>r. sync_resource_destroy r (Some s)) s h6
      in upd_surface s (\<lambda>x. x\<lparr>s_xdg_toplevel := None, s_xdg_surface := None, s_subsurface := None,
           s_viewport := None, s_fractional_scale := None, s_layer_surface := None,
           s_explicit_sync := None\<rparr>) h7)"

definition orphan :: "sid \<Rightarrow> host \<Rightarrow> host" where
  "orphan child = upd_surface child (s_parent_update (\<lambda>_. None))"

definition destroy_family :: "sid \<Rightarrow> host \<Rightarrow> host" where
  "destroy_family s h =
     (let h1 = unlink_from_parent s h
      in upd_surface s (s_children_update (\<lambda>_. [])) (fold orphan (children_of h1 s) h1))"

definition destroy_focus :: "sid \<Rightarrow> host \<Rightarrow> host" where
  "destroy_focus s =
     upd_server (\<lambda>v.
       (let v1 = (if sv_pointer_focus v = Some s then v\<lparr>sv_pointer_focus := None\<rparr> else v)
        in if sv_cursor_surface v1 = Some s
           then v1\<lparr>sv_cursor_surface := None, sv_cursor_hotspot_x := 0, sv_cursor_hotspot_y := 0\<rparr>
           else v1))"

definition destroy_current :: "sid \<Rightarrow> host \<Rightarrow> host" where
  "destroy_current s h = (case fld (h_surfaces h) s_current s of None \<Rightarrow> h | Some b \<Rightarrow>
     trierarch_buffer_unref (Some b)
      (trierarch_shm_buffer_release b
        (emit Wait_idle (upd_surface s (s_current_update (\<lambda>_. None)) h))))"

definition close_buffer_fence :: "bid \<Rightarrow> host \<Rightarrow> host" where
  "close_buffer_fence b h = (case h_buffers h b of None \<Rightarrow> fault h | Some y \<Rightarrow>
     if 0 \<le> b_acquire_fence_fd y
     then upd_buffer b (b_acquire_fence_fd_update (\<lambda>_. -1)) (close_fd (b_acquire_fence_fd y) h)
     else h)"

definition destroy_pending :: "sid \<Rightarrow> host \<Rightarrow> host" where
  "destroy_pending s h = (case fld (h_surfaces h) s_pending s of None \<Rightarrow> h | Some b \<Rightarrow>
     (let h1 = upd_surface s (s_pending_update (\<lambda>_. None)) h;
          h2 = close_buffer_fence b h1;
          h3 = (case fld (h_buffers h2) b_explicit_release b of None \<Rightarrow> h2
                | Some r \<Rightarrow> destroy_release r h2)
      in trierarch_buffer_unref (Some b) h3))"

text \<open>
  \<^verbatim>\<open>surface_clear_frame_callbacks\<close> on the three lists, in their order; each callback's
  hook unlinks it.
\<close>

definition clear_callbacks :: "sid \<Rightarrow> host \<Rightarrow> host" where
  "clear_callbacks s h = (case h_surfaces h s of None \<Rightarrow> fault h | Some x \<Rightarrow>
     upd_surface s (\<lambda>x. x\<lparr>s_pending_frame_callbacks := [], s_committed_frame_callbacks := [],
         s_presented_frame_callbacks := []\<rparr>)
       (emits (map Destroyed (s_pending_frame_callbacks x @ s_committed_frame_callbacks x @
          s_presented_frame_callbacks x)) h))"

definition destroy_sync :: "sid \<Rightarrow> host \<Rightarrow> host" where
  "destroy_sync s h = (case h_surfaces h s of None \<Rightarrow> fault h | Some x \<Rightarrow>
     (let h1 = (if 0 \<le> s_acquire_fence_fd x then close_fd (s_acquire_fence_fd x) h else h)
      in (case s_pending_explicit_release x of None \<Rightarrow> h1 | Some r \<Rightarrow> destroy_release r h1)))"

definition free_surface :: "sid \<Rightarrow> host \<Rightarrow> host" where
  "free_surface s h =
     (upd_server (\<lambda>v. v\<lparr>sv_surfaces := remove1 s (sv_surfaces v)\<rparr>) h)
       \<lparr>h_surfaces := (h_surfaces h)(s := None)\<rparr>"

definition surface_resource_destroy :: "sid \<Rightarrow> host \<Rightarrow> host" where
  "surface_resource_destroy s h =
     (let h1 = destroy_family s (destroy_roles s h);
          h2 = trierarch_wayland_request_render (destroy_focus s h1);
          h3 = destroy_pending s (destroy_current s h2);
          h4 = destroy_sync s (clear_callbacks s h3)
      in free_surface s h4)"

section \<open>Frames\<close>

definition frame_callback_destroy :: "sid \<Rightarrow> rid \<Rightarrow> host \<Rightarrow> host" where
  "frame_callback_destroy s r = upd_surface s (\<lambda>x. x\<lparr>
     s_pending_frame_callbacks := remove1 r (s_pending_frame_callbacks x),
     s_committed_frame_callbacks := remove1 r (s_committed_frame_callbacks x),
     s_presented_frame_callbacks := remove1 r (s_presented_frame_callbacks x)\<rparr>)"

text \<open>
  The walk to the root of a surface's tree. It ends only where the parent relation has no
  cycle, so it is a partial function; \<open>Some None\<close> is a freed parent.
\<close>

partial_function (option) ancestors_shown :: "host \<Rightarrow> sid option \<Rightarrow> bool option option" where
  "ancestors_shown h p = (case p of None \<Rightarrow> Some (Some True) | Some q \<Rightarrow>
     (case h_surfaces h q of None \<Rightarrow> Some None | Some x \<Rightarrow>
       if \<not> s_mapped x \<or> s_current x = None \<or> sv_cursor_surface (h_server h) = Some q
       then Some (Some False)
       else ancestors_shown h (s_parent x)))"

definition surface_participates_in_output :: "host \<Rightarrow> sid \<Rightarrow> bool option option" where
  "surface_participates_in_output h s = (case h_surfaces h s of None \<Rightarrow> Some None | Some x \<Rightarrow>
     if \<not> s_mapped x \<or> s_current x = None then Some (Some False)
     else if sv_cursor_surface (h_server h) = Some s
     then Some (Some (sv_cursor_visible (h_server h)))
     else ancestors_shown h (s_parent x))"

definition latch_one :: "sid \<Rightarrow> host \<Rightarrow> host" where
  "latch_one s h = (case h_surfaces h s of None \<Rightarrow> fault h | Some x \<Rightarrow>
     (let n = word_of_nat (length (s_committed_frame_callbacks x)) in
      upd_perf (pf_frame_callbacks_captured_update (\<lambda>m. m + n))
       (upd_surface s (\<lambda>x. x\<lparr>
          s_presented_frame_callbacks := s_presented_frame_callbacks x @ s_committed_frame_callbacks x,
          s_committed_frame_callbacks := [],
          s_perf := (s_perf x)\<lparr>sp_frame_callbacks_captured :=
            sp_frame_callbacks_captured (s_perf x) + n\<rparr>\<rparr>) h)))"

fun latch_all :: "sid list \<Rightarrow> host \<Rightarrow> host option" where
  "latch_all [] h = Some h"
| "latch_all (s # ss) h =
     Option.bind (surface_participates_in_output h s) (\<lambda>participates.
       (case (participates, h_surfaces h s) of
          (Some True, Some x) \<Rightarrow>
            if s_committed_frame_callbacks x = [] then latch_all ss h
            else latch_all ss (latch_one s h)
        | (Some False, Some x) \<Rightarrow> latch_all ss h
        | _ \<Rightarrow> Some (fault h)))"

definition trierarch_surface_latch_frame_callbacks :: "host \<Rightarrow> host option" where
  "trierarch_surface_latch_frame_callbacks h = latch_all (sids h) h"

definition requeue_one :: "sid \<Rightarrow> host \<Rightarrow> host" where
  "requeue_one s = upd_surface s (\<lambda>x. x\<lparr>
     s_committed_frame_callbacks := s_committed_frame_callbacks x @ s_presented_frame_callbacks x,
     s_presented_frame_callbacks := []\<rparr>)"

definition trierarch_surface_requeue_frame_callbacks :: "host \<Rightarrow> host" where
  "trierarch_surface_requeue_frame_callbacks h = fold requeue_one (sids h) h"

text \<open>Each presented callback is answered and destroyed, in order.\<close>

definition send_callbacks_of :: "u32 \<Rightarrow> sid \<Rightarrow> host \<Rightarrow> host" where
  "send_callbacks_of time_ms s h = (case h_surfaces h s of None \<Rightarrow> fault h | Some x \<Rightarrow>
     (let cs = s_presented_frame_callbacks x; n = word_of_nat (length cs) in
      upd_perf (pf_frame_callbacks_completed_update (\<lambda>m. m + n))
       (upd_surface s (\<lambda>x. x\<lparr>s_presented_frame_callbacks := [],
          s_perf := (s_perf x)\<lparr>sp_frame_callbacks_completed :=
            sp_frame_callbacks_completed (s_perf x) + n\<rparr>\<rparr>)
        (emits (concat (map (\<lambda>c. [Callback_done c time_ms, Destroyed c]) cs)) h))))"

definition trierarch_surface_send_frame_callbacks :: "u32 \<Rightarrow> host \<Rightarrow> host" where
  "trierarch_surface_send_frame_callbacks time_ms h = fold (send_callbacks_of time_ms) (sids h) h"

definition clear_damage :: "sid \<Rightarrow> host \<Rightarrow> host" where
  "clear_damage s = upd_surface s (s_damaged_update (\<lambda>_. False))"

definition trierarch_wayland_frame_presented :: "u32 \<Rightarrow> host \<Rightarrow> host" where
  "trierarch_wayland_frame_presented time_ms h =
     repaint_frame_done
       (trierarch_surface_send_frame_callbacks time_ms (fold clear_damage (sids h) h))"

definition trierarch_wayland_has_surface :: "host \<Rightarrow> bool" where
  "trierarch_wayland_has_surface h \<longleftrightarrow>
     list_ex (\<lambda>s. case h_surfaces h s of None \<Rightarrow> False
       | Some x \<Rightarrow> s_mapped x \<and> s_current x \<noteq> None) (sids h)"

end
