(* ===== verification/Ledger.thy ===== *)
theory Ledger
  imports Surface
begin

text \<open>
  Who owns a buffer. Every unit of \<^verbatim>\<open>references\<close> is held by the \<^verbatim>\<open>wl_buffer\<close> resource,
  by the current or pending state of a surface, by an entry of the deferred list, or for
  the length of one operation by a local variable; every unit of \<^verbatim>\<open>busy_users\<close> by a
  current state or a deferred entry.

  \<open>ledger\<close> states this balance over the parts of the state it depends on, with the
  deferred (or lost) entries as the multiset \<open>K\<close> and the references in hand as \<open>E\<close>;
  each lemma is the effect of one primitive move of a reference on it.
\<close>

section \<open>The balance\<close>

type_synonym account = "bid \<rightharpoonup> nat \<times> nat \<times> bool"

abbreviation account_of :: "host \<Rightarrow> account" where
  "account_of h \<equiv> fld (h_buffers h)
     (\<lambda>x. Some (b_references x, b_busy_users x, b_resource x \<noteq> None))"

text \<open>
  The balance of one buffer with \<open>c\<close> current, \<open>p\<close> pending, \<open>k\<close> deferred and
  \<open>e\<close> other holders.
\<close>

fun balanced :: "(nat \<times> nat \<times> bool) option \<Rightarrow> nat \<Rightarrow> nat \<Rightarrow> nat \<Rightarrow> nat \<Rightarrow> bool" where
  "balanced None c p k e \<longleftrightarrow> c = 0 \<and> p = 0 \<and> k = 0 \<and> e = 0"
| "balanced (Some (r, u, v)) c p k e \<longleftrightarrow> r = of_bool v + c + p + k + e \<and> u = c + k \<and> 0 < r"

definition ledger ::
  "sid list \<Rightarrow> (sid \<Rightarrow> bid option) \<Rightarrow> (sid \<Rightarrow> bid option) \<Rightarrow> account
    \<Rightarrow> bid multiset \<Rightarrow> bid multiset \<Rightarrow> bool" where
  "ledger ss cur pend A K E \<longleftrightarrow> distinct ss \<and>
     (\<forall>b. balanced (A b) (uses cur (Some b) ss) (uses pend (Some b) ss) (count K b) (count E b))"

lemma ledgerD:
  assumes "ledger ss cur pend A K E"
  shows "balanced (A b) (uses cur (Some b) ss) (uses pend (Some b) ss) (count K b) (count E b)"
    and "distinct ss"
  using assms by (simp_all add: ledger_def)

lemma ledgerI:
  assumes "distinct ss"
    "\<And>b. balanced (A b) (uses cur (Some b) ss) (uses pend (Some b) ss) (count K b) (count E b)"
  shows "ledger ss cur pend A K E"
  using assms by (simp add: ledger_def)

text \<open>An object somebody holds is live.\<close>

lemma balanced_live: "balanced a c p k e \<Longrightarrow> 0 < c + p + k + e \<Longrightarrow> \<exists>r u v. a = Some (Suc r, u, v)"
  by (cases "(a, c, p, k, e)" rule: balanced.cases) (auto simp: gr0_conv_Suc)

lemma ledger_live:
  assumes "ledger ss cur pend A K E"
    and "(\<exists>s \<in> set ss. cur s = Some b \<or> pend s = Some b) \<or> b \<in># K \<or> b \<in># E"
  shows "\<exists>r u v. A b = Some (Suc r, u, v)"
proof (rule balanced_live [OF ledgerD(1) [OF assms(1)]])
  show "0 < uses cur (Some b) ss + uses pend (Some b) ss + count K b + count E b"
    using assms(2)
  proof (elim disjE bexE)
    fix s assume "s \<in> set ss" "cur s = Some b"
    then have "0 < uses cur (Some b) ss" by (rule uses_pos)
    then show ?thesis by simp
  next
    fix s assume "s \<in> set ss" "pend s = Some b"
    then have "0 < uses pend (Some b) ss" by (rule uses_pos)
    then show ?thesis by simp
  qed (simp_all flip: count_greater_zero_iff)
qed

section \<open>Moves\<close>

text \<open>The multiset of an optional reference.\<close>

definition opt_mset :: "'a option \<Rightarrow> 'a multiset" where
  "opt_mset p = (case p of None \<Rightarrow> {#} | Some b \<Rightarrow> {#b#})"

lemma opt_mset_simps [simp]: "opt_mset None = {#}" "opt_mset (Some b) = {#b#}"
  by (simp_all add: opt_mset_def)

lemma count_opt_mset: "count (opt_mset p) b = of_bool (p = Some b)"
  by (cases p) auto

lemma ledger_ref:
  assumes "ledger ss cur pend A K E" "A b = Some (r, u, v)"
  shows "ledger ss cur pend (A(b \<mapsto> (Suc r, u, v))) K (add_mset b E)"
proof (rule ledgerI)
  fix c
  show "balanced ((A(b \<mapsto> (Suc r, u, v))) c) (uses cur (Some c) ss) (uses pend (Some c) ss)
      (count K c) (count (add_mset b E) c)"
    using ledgerD(1) [OF assms(1), of c] assms(2) by (cases "c = b") auto
qed (rule ledgerD(2) [OF assms(1)])

lemma ledger_unref:
  assumes "ledger ss cur pend A K (add_mset b E)" "A b = Some (Suc r, u, v)"
  shows "ledger ss cur pend (A(b := (if r = 0 then None else Some (r, u, v)))) K E"
proof (rule ledgerI)
  fix c
  show "balanced ((A(b := (if r = 0 then None else Some (r, u, v)))) c) (uses cur (Some c) ss)
      (uses pend (Some c) ss) (count K c) (count E c)"
    using ledgerD(1) [OF assms(1), of c] assms(2) by (cases "c = b") auto
qed (rule ledgerD(2) [OF assms(1)])

lemma ledger_resource_gone:
  assumes "ledger ss cur pend A K E" "A b = Some (r, u, True)"
  shows "ledger ss cur pend (A(b \<mapsto> (r, u, False))) K (add_mset b E)"
proof (rule ledgerI)
  fix c
  show "balanced ((A(b \<mapsto> (r, u, False))) c) (uses cur (Some c) ss) (uses pend (Some c) ss)
      (count K c) (count (add_mset b E) c)"
    using ledgerD(1) [OF assms(1), of c] assms(2) by (cases "c = b") auto
qed (rule ledgerD(2) [OF assms(1)])

lemma ledger_new:
  assumes "ledger ss cur pend A K E" "A b = None"
  shows "ledger ss cur pend (A(b \<mapsto> (Suc 0, 0, True))) K E"
proof (rule ledgerI)
  fix c
  show "balanced ((A(b \<mapsto> (Suc 0, 0, True))) c) (uses cur (Some c) ss) (uses pend (Some c) ss)
      (count K c) (count E c)"
    using ledgerD(1) [OF assms(1), of c] assms(2) by (cases "c = b") auto
qed (rule ledgerD(2) [OF assms(1)])

text \<open>The pending state of a surface takes one reference in hand and gives back its old one.\<close>

lemma ledger_pending:
  assumes L: "ledger ss cur pend A K (E + opt_mset p)" and s: "s \<in> set ss"
  shows "ledger ss cur (pend(s := p)) A K (E + opt_mset (pend s))"
proof (rule ledgerI)
  fix b
  have "uses (pend(s := p)) (Some b) ss + of_bool (pend s = Some b) =
      uses pend (Some b) ss + of_bool (p = Some b)"
    by (rule uses_fun_upd [OF ledgerD(2) [OF L] s])
  then show "balanced (A b) (uses cur (Some b) ss) (uses (pend(s := p)) (Some b) ss)
      (count K b) (count (E + opt_mset (pend s)) b)"
    using ledgerD(1) [OF L, of b]
    by (cases "A b") (auto simp: count_opt_mset)
qed (rule ledgerD(2) [OF L])

text \<open>The current state gives its reference, with its use, to the deferred entries.\<close>

lemma ledger_drop_current:
  assumes L: "ledger ss cur pend A K E" and s: "s \<in> set ss" "cur s = Some b"
  shows "ledger ss (cur(s := None)) pend A (add_mset b K) E"
proof (rule ledgerI)
  fix c
  have "uses (cur(s := None)) (Some c) ss + of_bool (cur s = Some c) =
      uses cur (Some c) ss + of_bool (None = Some c)"
    by (rule uses_fun_upd [OF ledgerD(2) [OF L] s(1)])
  then show "balanced (A c) (uses (cur(s := None)) (Some c) ss) (uses pend (Some c) ss)
      (count (add_mset b K) c) (count E c)"
    using ledgerD(1) [OF L, of c] s(2) by (cases "A c") (auto split: if_splits)
qed (rule ledgerD(2) [OF L])

text \<open>It takes one in hand and counts as a user.\<close>

lemma ledger_set_current:
  assumes L: "ledger ss cur pend A K (add_mset b E)" and s: "s \<in> set ss" "cur s = None"
    and A: "A b = Some (r, u, v)"
  shows "ledger ss (cur(s \<mapsto> b)) pend (A(b \<mapsto> (r, Suc u, v))) K E"
proof (rule ledgerI)
  fix c
  have "uses (cur(s \<mapsto> b)) (Some c) ss + of_bool (cur s = Some c) =
      uses cur (Some c) ss + of_bool (Some b = Some c)"
    by (rule uses_fun_upd [OF ledgerD(2) [OF L] s(1)])
  then show "balanced ((A(b \<mapsto> (r, Suc u, v))) c) (uses (cur(s \<mapsto> b)) (Some c) ss)
      (uses pend (Some c) ss) (count K c) (count E c)"
    using ledgerD(1) [OF L, of c] A s(2) by (cases "A c") (auto split: if_splits)
qed (rule ledgerD(2) [OF L])

text \<open>A release takes the use from a deferred entry and leaves its reference in hand.\<close>

lemma ledger_release:
  assumes L: "ledger ss cur pend A (add_mset b K) E" and A: "A b = Some (r, u, v)"
  shows "ledger ss cur pend (A(b \<mapsto> (r, u - 1, v))) K (add_mset b E) \<and> 0 < u"
proof
  show "ledger ss cur pend (A(b \<mapsto> (r, u - 1, v))) K (add_mset b E)"
  proof (rule ledgerI)
    fix c
    show "balanced ((A(b \<mapsto> (r, u - 1, v))) c) (uses cur (Some c) ss) (uses pend (Some c) ss)
        (count K c) (count (add_mset b E) c)"
      using ledgerD(1) [OF L, of c] A by (cases "c = b") auto
  qed (rule ledgerD(2) [OF L])
  show "0 < u" using ledgerD(1) [OF L, of b] A by simp
qed

text \<open>A surface that holds nothing can appear and disappear.\<close>

lemma ledger_add_surface:
  assumes "ledger ss cur pend A K E" "s \<notin> set ss" "cur s = None" "pend s = None"
  shows "ledger (s # ss) cur pend A K E"
  using assms unfolding ledger_def by simp

lemma ledger_remove_surface:
  assumes L: "ledger ss cur pend A K E" and "cur s = None" "pend s = None"
  shows "ledger (remove1 s ss) cur pend A K E"
proof (cases "s \<in> set ss")
  case True
  have "uses cur (Some b) (remove1 s ss) = uses cur (Some b) ss"
    "uses pend (Some b) (remove1 s ss) = uses pend (Some b) ss" for b
    using uses_remove1 [OF True, of cur "Some b"] uses_remove1 [OF True, of pend "Some b"] assms(2,3)
    by simp_all
  with L show ?thesis unfolding ledger_def by simp
next
  case False
  with L show ?thesis by (simp add: remove1_idem)
qed

lemma ledger_cong:
  assumes "ledger ss cur pend A K E"
    and "\<And>s. s \<in> set ss \<Longrightarrow> cur' s = cur s" "\<And>s. s \<in> set ss \<Longrightarrow> pend' s = pend s"
  shows "ledger ss cur' pend' A K E"
  using assms uses_cong [of ss cur' cur] uses_cong [of ss pend' pend]
  unfolding ledger_def by simp

end
