(* ===== verification/Deferred.thy ===== *)
theory Deferred
  imports Ledger
begin

text \<open>
  The list of deferred releases, threaded through \<^verbatim>\<open>deferred_next\<close> of the buffers
  themselves. \<open>dchain N p w\<close> says that a walk from \<open>p\<close> that clears each link it
  follows, as the flush does, visits exactly the entries \<open>w\<close>: this describes every
  list the operations can build, cyclic ones included.

  The lemmas show that a buffer deferred twice cuts off the entries behind its earlier
  occurrence, and that the scan and the walk never leave the entries.
\<close>

primrec dchain :: "(bid \<Rightarrow> bid option) \<Rightarrow> bid option \<Rightarrow> bid list \<Rightarrow> bool" where
  "dchain N p [] \<longleftrightarrow> p = None"
| "dchain N p (b # w) \<longleftrightarrow> p = Some b \<and> dchain (N(b := None)) (N b) w"

text \<open>The entries up to the first occurrence of \<open>b\<close>, included: what is left when \<open>b\<close> is relinked.\<close>

fun trunc :: "bid \<Rightarrow> bid list \<Rightarrow> bid list" where
  "trunc b [] = []"
| "trunc b (c # w) = (if c = b then [b] else c # trunc b w)"

lemma trunc_notin [simp]: "b \<notin> set w \<Longrightarrow> trunc b w = w"
  by (induction w) auto

lemma trunc_append: "b \<notin> set xs \<Longrightarrow> trunc b (xs @ b # ys) = xs @ [b]"
  by (induction xs) auto

lemma mset_trunc: "mset (trunc b w) \<subseteq># mset w"
  by (induction w) auto

lemma set_trunc: "set (trunc b w) \<subseteq> set w"
  by (induction w) auto

lemma dchain_None: "dchain N None w \<longleftrightarrow> w = []"
  by (cases w) auto

lemma dchain_unique: "dchain N p w \<Longrightarrow> dchain N p w' \<Longrightarrow> w = w'"
proof (induction w arbitrary: N p w')
  case Nil
  then show ?case by (simp add: dchain_None)
next
  case (Cons b w)
  then show ?case by (cases w') auto
qed

lemma dchain_cut: "dchain N p w \<Longrightarrow> dchain (N(b := None)) p (trunc b w)"
proof (induction w arbitrary: N p)
  case (Cons c w)
  from Cons.prems have p: "p = Some c" "dchain (N(c := None)) (N c) w" by simp_all
  show ?case
  proof (cases "c = b")
    case False
    have "dchain (N(c := None, b := None)) (N c) (trunc b w)" by (rule Cons.IH [OF p(2)])
    then have "dchain (N(b := None, c := None)) (N c) (trunc b w)"
      by (simp only: fun_upd_twist [OF False])
    then show ?thesis
      using False p(1) by (simp only: trunc.simps dchain.simps if_False fun_upd_other simp_thms)
  qed (simp add: p(1))
qed simp

text \<open>Relinking \<open>b\<close> in front of the list.\<close>

lemma dchain_push: "dchain N p w \<Longrightarrow> dchain (N(b := p)) (Some b) (b # trunc b w)"
  using dchain_cut [of N p w b] by simp

lemma dchain_cong: "dchain N p w \<Longrightarrow> (\<And>b. b \<in> set w \<Longrightarrow> N' b = N b) \<Longrightarrow> dchain N' p w"
proof (induction w arbitrary: N N' p)
  case (Cons c w)
  from Cons.prems(1) have p: "p = Some c" "dchain (N(c := None)) (N c) w" by simp_all
  have "dchain (N'(c := None)) (N c) w"
  proof (rule Cons.IH [OF p(2)])
    show "(N'(c := None)) b = (N(c := None)) b" if "b \<in> set w" for b
      using Cons.prems(2) [of b] that by simp
  qed
  moreover have "N' c = N c" by (rule Cons.prems(2)) simp
  ultimately show ?case using p(1) by (simp only: dchain.simps simp_thms)
qed simp

text \<open>The links of the entries lead to entries.\<close>

definition closed_under :: "(bid \<Rightarrow> bid option) \<Rightarrow> bid set \<Rightarrow> bool" where
  "closed_under N W \<longleftrightarrow> (\<forall>b \<in> W. N b \<in> insert None (Some ` W))"

lemma dchain_closed:
  "dchain N p w \<Longrightarrow> p \<in> insert None (Some ` set w) \<and> closed_under N (set w)"
proof (induction w arbitrary: N p)
  case (Cons b w)
  then have IH: "N b \<in> insert None (Some ` set w)" "closed_under (N(b := None)) (set w)"
    using Cons.IH [of "N(b := None)" "N b"] by auto
  have "N c \<in> insert None (Some ` set (b # w))" if "c \<in> set (b # w)" for c
    using that IH by (cases "c = b") (auto simp: closed_under_def split: if_splits)
  with Cons.prems show ?case by (auto simp: closed_under_def)
qed (simp add: closed_under_def)

lemma deferred_scan_total:
  assumes "closed_under (deferred_next_of h) W" "\<And>b. b \<in> W \<Longrightarrow> h_buffers h b \<noteq> None"
    and "p \<in> insert None (Some ` W)"
  shows "\<exists>d. deferred_scan n h p b = Some d"
  using assms(3)
proof (induction n arbitrary: p)
  case (Suc n)
  show ?case
  proof (cases p)
    case (Some e)
    then have e: "e \<in> W" using Suc.prems by auto
    obtain x where x: "h_buffers h e = Some x" using assms(2) [OF e] by auto
    have "b_deferred_next x \<in> insert None (Some ` W)"
      using assms(1) e x by (auto simp: closed_under_def dest!: bspec)
    from Suc.IH [OF this] show ?thesis using Some x by auto
  qed auto
qed auto

lemma deferred_contains_total:
  assumes "dchain (deferred_next_of h) (h_deferred h) w" "\<And>b. b \<in> set w \<Longrightarrow> h_buffers h b \<noteq> None"
  shows "\<exists>d. deferred_contains h b = Some d"
  unfolding deferred_contains_def
  using dchain_closed [OF assms(1)] assms(2) by (intro deferred_scan_total [of h "set w"]) auto

text \<open>On a list without repetition and within its bound the scan is exact.\<close>

lemma deferred_scan_exact:
  assumes "dchain N p w" "distinct w" "length w < n"
    and "\<And>b. b \<in> set w \<Longrightarrow> \<exists>x. h_buffers h b = Some x \<and> b_deferred_next x = N b"
  shows "deferred_scan n h p b = Some (b \<in> set w)"
  using assms
proof (induction w arbitrary: N p n)
  case Nil
  then show ?case by (cases n) auto
next
  case (Cons c w)
  then obtain m where n: "n = Suc m" by (cases n) auto
  obtain x where x: "h_buffers h c = Some x" "b_deferred_next x = N c" using Cons.prems(4) by force
  from Cons.prems(1) have d: "dchain (N(c := None)) (N c) w" by simp
  have IH: "deferred_scan m h (N c) b = Some (b \<in> set w)"
  proof (rule Cons.IH [OF d])
    show "\<exists>x. h_buffers h b = Some x \<and> b_deferred_next x = (N(c := None)) b" if "b \<in> set w" for b
      using Cons.prems(2) Cons.prems(4) [of b] that by auto
  qed (use Cons.prems n in auto)
  then show ?case using Cons.prems n x by auto
qed

end
