(* ===== verification/Buffer_Safety.thy ===== *)
theory Buffer_Safety
  imports Deferred
begin

text \<open>
  Memory safety of the buffer operations. \<open>side_ok\<close> collects what else points at a
  buffer: release objects, the pool it was cut from, the EGL cache. \<open>sane X h K E\<close> is
  the whole invariant with the deferred entries \<open>K\<close> and the references in hand
  \<open>E\<close> (\<open>X\<close>: the surfaces in the middle of a commit); the lemmas show that each operation keeps it, so it frees a buffer exactly when
  nobody holds it and never follows a dangling pointer.
\<close>

section \<open>What points at a buffer\<close>

abbreviation buf_release :: "host \<Rightarrow> bid \<Rightarrow> rid option" where
  "buf_release h \<equiv> fld (h_buffers h) b_explicit_release"

abbreviation surf_release :: "host \<Rightarrow> sid \<Rightarrow> rid option" where
  "surf_release h \<equiv> fld (h_surfaces h) s_pending_explicit_release"

text \<open>
  A release object and its owner point at each other, and it has one owner.
\<close>

definition bound ::
  "(rid \<rightharpoonup> release_binding) \<Rightarrow> (bid \<Rightarrow> rid option) \<Rightarrow> (sid \<Rightarrow> rid option) \<Rightarrow> bool" where
  "bound B br sr \<longleftrightarrow>
     (\<forall>b r. br b = Some r \<longleftrightarrow> fld B rb_buffer r = Some b) \<and>
     (\<forall>s r. sr s = Some r \<longleftrightarrow> fld B rb_surface r = Some s) \<and>
     (\<forall>r. fld B rb_buffer r = None \<or> fld B rb_surface r = None)"

text \<open>A pool lists the buffers cut from it and counts them, and its own resource.\<close>

definition pooled :: "(pool_id \<rightharpoonup> shm_pool) \<Rightarrow> (bid \<Rightarrow> pool_id option) \<Rightarrow> bool" where
  "pooled P bp \<longleftrightarrow>
     (\<forall>p q. P p = Some q \<longrightarrow> distinct (p_buffers q) \<and> 0 < p_references q \<and>
        length (p_buffers q) \<le> p_references q \<and> p_references q \<le> Suc (length (p_buffers q))) \<and>
     (\<forall>b p. bp b = Some p \<longleftrightarrow> (\<exists>q. P p = Some q \<and> b \<in> set (p_buffers q)))"

text \<open>The EGL cache lists exactly the buffers that say they are linked into it.\<close>

definition cached :: "bid list \<Rightarrow> (bid \<Rightarrow> unit option) \<Rightarrow> bool" where
  "cached es linked \<longleftrightarrow> distinct es \<and> (\<forall>b. b \<in> set es \<longleftrightarrow> linked b = Some ())"

abbreviation pool_of :: "host \<Rightarrow> bid \<Rightarrow> pool_id option" where
  "pool_of h \<equiv> fld (h_buffers h) b_pool"

definition link_mark :: "shm_buffer \<Rightarrow> unit option" where
  "link_mark x = (if b_egl_cache_linked x then Some () else None)"

abbreviation linked_of :: "host \<Rightarrow> bid \<Rightarrow> unit option" where
  "linked_of h \<equiv> fld (h_buffers h) link_mark"

definition side_ok :: "host \<Rightarrow> bool" where
  "side_ok h \<longleftrightarrow> bound (h_bindings h) (buf_release h) (surf_release h) \<and>
     pooled (h_pools h) (pool_of h) \<and> cached (sv_egl_buffers (h_server h)) (linked_of h) \<and>
     set (sids h) = dom (h_surfaces h) \<and> \<not> h_fault h"

text \<open>
  While a surface commits, the reference of its pending state is the commit's own: the
  pending states of the surfaces \<open>X\<close> do not count.
\<close>

definition hide :: "sid set \<Rightarrow> (sid \<Rightarrow> bid option) \<Rightarrow> sid \<Rightarrow> bid option" where
  "hide X f s = (if s \<in> X then None else f s)"

lemma hide_empty [simp]: "hide {} f = f"
  by (rule ext) (simp add: hide_def)

definition owned :: "sid set \<Rightarrow> host \<Rightarrow> bid multiset \<Rightarrow> bid multiset \<Rightarrow> bool" where
  "owned X h K E \<longleftrightarrow>
     ledger (sids h) (current_of h) (hide X (pending_of h)) (account_of h) K E"

definition sane :: "sid set \<Rightarrow> host \<Rightarrow> bid multiset \<Rightarrow> bid multiset \<Rightarrow> bool" where
  "sane X h K E \<longleftrightarrow> owned X h K E \<and> side_ok h"

section \<open>Updates that keep the invariant\<close>

lemma sane_cong:
  assumes "h_buffers h' = h_buffers h" "h_surfaces h' = h_surfaces h" "h_pools h' = h_pools h"
    "h_bindings h' = h_bindings h" "sids h' = sids h" "h_fault h' = h_fault h"
    "sv_egl_buffers (h_server h') = sv_egl_buffers (h_server h)"
  shows "sane X h' K E = sane X h K E" "side_ok h' = side_ok h"
  unfolding sane_def owned_def side_ok_def by (simp_all only: assms)

lemma sane_emit [simp]:
  "sane X (emit e h) K E = sane X h K E" "sane X (emits es h) K E = sane X h K E"
  "sane X (close_fd d h) K E = sane X h K E" "sane X (upd_diag f h) K E = sane X h K E"
  "sane X (upd_perf g h) K E = sane X h K E" "sane X (bump_serial h) K E = sane X h K E"
  "sane X (h\<lparr>h_deferred := q\<rparr>) K E = sane X h K E"
  by (rule sane_cong; simp add: access_defs)+

lemma side_ok_emit [simp]:
  "side_ok (emit e h) = side_ok h" "side_ok (emits es h) = side_ok h"
  "side_ok (close_fd d h) = side_ok h" "side_ok (upd_diag f h) = side_ok h"
  by (rule sane_cong; simp add: access_defs)+

text \<open>An update of a buffer that leaves its pointers alone.\<close>

lemma side_ok_buffer:
  assumes "side_ok h" "h_buffers h b = Some x"
    and "b_explicit_release y = b_explicit_release x" "b_pool y = b_pool x"
    "b_egl_cache_linked y = b_egl_cache_linked x"
  shows "side_ok (h\<lparr>h_buffers := (h_buffers h)(b \<mapsto> y)\<rparr>)"
  using assms unfolding side_ok_def by (simp add: link_mark_def)

lemma sane_buffer:
  assumes "sane X h K E" "h_buffers h b = Some x"
    and "b_explicit_release y = b_explicit_release x" "b_pool y = b_pool x"
    "b_egl_cache_linked y = b_egl_cache_linked x"
    and "ledger (sids h) (current_of h) (hide X (pending_of h))
       ((account_of h)(b \<mapsto> (b_references y, b_busy_users y, b_resource y \<noteq> None))) K' E'"
  shows "sane X (h\<lparr>h_buffers := (h_buffers h)(b \<mapsto> y)\<rparr>) K' E'"
  using assms side_ok_buffer [of h b x y] unfolding sane_def owned_def
  by simp

lemma sane_buffer_same:
  assumes "sane X h K E" "h_buffers h b = Some x"
    and "b_explicit_release y = b_explicit_release x" "b_pool y = b_pool x"
    "b_egl_cache_linked y = b_egl_cache_linked x" "b_references y = b_references x"
    "b_busy_users y = b_busy_users x" "b_resource y = b_resource x"
  shows "sane X (h\<lparr>h_buffers := (h_buffers h)(b \<mapsto> y)\<rparr>) K E"
proof (rule sane_buffer [OF assms(1-5)])
  show "ledger (sids h) (current_of h) (hide X (pending_of h))
     ((account_of h)(b \<mapsto> (b_references y, b_busy_users y, b_resource y \<noteq> None))) K E"
    using assms by (simp add: sane_def owned_def)
qed

lemma sane_live:
  assumes "sane X h K E"
    and "(\<exists>s \<in> set (sids h). current_of h s = Some b \<or> hide X (pending_of h) s = Some b) \<or> b \<in># K \<or> b \<in># E"
  obtains x where "h_buffers h b = Some x" "0 < b_references x"
proof -
  obtain r u v where "account_of h b = Some (Suc r, u, v)"
    using ledger_live [of "sids h" "current_of h" "hide X (pending_of h)" "account_of h" K E b] assms
    unfolding sane_def owned_def by blast
  then show ?thesis using that by (auto simp: fld_eq_Some)
qed

section \<open>Release objects\<close>

lemma bound_buffer:
  assumes "bound B br sr" "br b = Some r"
  obtains bd where "B r = Some bd" "rb_buffer bd = Some b" "rb_surface bd = None"
proof -
  have "fld B rb_buffer r = Some b" "fld B rb_surface r = None"
    using assms unfolding bound_def by (metis option.distinct(1))+
  then show ?thesis using that by (auto simp: fld_eq_Some)
qed

lemma bound_surface:
  assumes "bound B br sr" "sr s = Some r"
  obtains bd where "B r = Some bd" "rb_surface bd = Some s" "rb_buffer bd = None"
proof -
  have "fld B rb_surface r = Some s" "fld B rb_buffer r = None"
    using assms unfolding bound_def by (metis option.distinct(1))+
  then show ?thesis using that by (auto simp: fld_eq_Some)
qed

lemma bound_drop_buffer:
  assumes "bound B br sr" "br b = Some r"
  shows "bound (B(r := None)) (br(b := None)) sr"
  using assms unfolding bound_def by (auto; metis option.distinct(1) option.inject)

lemma bound_drop_surface:
  assumes "bound B br sr" "sr s = Some r"
  shows "bound (B(r := None)) br (sr(s := None))"
  using assms unfolding bound_def by (auto; metis option.distinct(1) option.inject)

lemma bound_live:
  assumes "bound B (fld bufs b_explicit_release) (fld surfs s_pending_explicit_release)" "B r = Some bd"
  shows "rb_buffer bd = Some b \<Longrightarrow> \<exists>x. bufs b = Some x \<and> b_explicit_release x = Some r"
    and "rb_surface bd = Some s \<Longrightarrow> \<exists>x. surfs s = Some x \<and> s_pending_explicit_release x = Some r"
  using assms unfolding bound_def by (auto simp: fld_eq_Some)

text \<open>
  Destroying the release object of a buffer, whether or not the buffer has let go of it
  first, clears the buffer's pointer and frees the binding.
\<close>

definition without_release :: "bid \<Rightarrow> shm_buffer \<Rightarrow> rid \<Rightarrow> host \<Rightarrow> host" where
  "without_release b x r h = h\<lparr>h_buffers := (h_buffers h)(b \<mapsto> x\<lparr>b_explicit_release := None\<rparr>),
     h_bindings := (h_bindings h)(r := None)\<rparr>"

lemma destroy_release_buffer:
  assumes "side_ok h" "h_buffers h b = Some x" "b_explicit_release x = Some r"
  shows "destroy_release r h = emit (Destroyed r) (without_release b x r h)"
    and "destroy_release r (upd_buffer b (b_explicit_release_update (\<lambda>_. None)) h) =
      emit (Destroyed r) (without_release b x r h)"
proof -
  obtain bd where bd: "h_bindings h r = Some bd" "rb_buffer bd = Some b" "rb_surface bd = None"
    using bound_buffer [of "h_bindings h" "buf_release h" "surf_release h" b r] assms
    unfolding side_ok_def by auto
  with assms(2,3)
  show "destroy_release r h = emit (Destroyed r) (without_release b x r h)"
    and "destroy_release r (upd_buffer b (b_explicit_release_update (\<lambda>_. None)) h) =
      emit (Destroyed r) (without_release b x r h)"
    by (simp_all add: destroy_release_def release_destroy_def without_release_def upd_buffer_def)
qed

lemma side_ok_without_release:
  assumes "side_ok h" "h_buffers h b = Some x" "b_explicit_release x = Some r"
  shows "side_ok (without_release b x r h)"
  using assms bound_drop_buffer [of "h_bindings h" "buf_release h" "surf_release h" b r]
  unfolding side_ok_def without_release_def by (simp add: link_mark_def)

lemma sane_without_release:
  assumes "sane X h K E" "h_buffers h b = Some x" "b_explicit_release x = Some r"
  shows "sane X (without_release b x r h) K E"
  using assms side_ok_without_release [of h b x r]
  unfolding sane_def owned_def by (simp add: without_release_def)

text \<open>The same for the release object of a surface's pending state.\<close>

definition without_pending_release :: "sid \<Rightarrow> compositor_surface \<Rightarrow> rid \<Rightarrow> host \<Rightarrow> host" where
  "without_pending_release s x r h =
     h\<lparr>h_surfaces := (h_surfaces h)(s \<mapsto> x\<lparr>s_pending_explicit_release := None\<rparr>),
       h_bindings := (h_bindings h)(r := None)\<rparr>"

lemma destroy_release_surface:
  assumes "side_ok h" "h_surfaces h s = Some x" "s_pending_explicit_release x = Some r"
  shows "destroy_release r h = emit (Destroyed r) (without_pending_release s x r h)"
proof -
  obtain bd where bd: "h_bindings h r = Some bd" "rb_surface bd = Some s" "rb_buffer bd = None"
    using bound_surface [of "h_bindings h" "buf_release h" "surf_release h" s r] assms
    unfolding side_ok_def by auto
  with assms(2,3) show ?thesis
    by (simp add: destroy_release_def release_destroy_def without_pending_release_def upd_surface_def)
qed

lemma sane_without_pending_release:
  assumes "sane X h K E" "h_surfaces h s = Some x" "s_pending_explicit_release x = Some r"
  shows "sane X (without_pending_release s x r h) K E"
  using assms bound_drop_surface [of "h_bindings h" "buf_release h" "surf_release h" s r]
  unfolding sane_def owned_def side_ok_def without_pending_release_def by auto

section \<open>The storage of a buffer\<close>

text \<open>Nothing but the given buffer and its side structures change.\<close>

definition quiet :: "bid \<Rightarrow> host \<Rightarrow> host \<Rightarrow> bool" where
  "quiet b h h' \<longleftrightarrow> h_surfaces h' = h_surfaces h \<and> sids h' = sids h \<and>
     h_deferred h' = h_deferred h \<and> (\<forall>c. c \<noteq> b \<longrightarrow> h_buffers h' c = h_buffers h c)"

lemma quiet_refl [simp]: "quiet b h h"
  by (simp add: quiet_def)

lemma quiet_trans [trans]: "quiet b h h' \<Longrightarrow> quiet b h' h'' \<Longrightarrow> quiet b h h''"
  by (simp add: quiet_def)

lemma quiet_emit [simp]:
  "quiet b h (emit e h') = quiet b h h'" "quiet b h (close_fd d h') = quiet b h h'"
  "quiet b h (upd_diag f h') = quiet b h h'"
  by (simp_all add: quiet_def access_defs)

lemma quiet_upd_buffer [simp]: "quiet b h (upd_buffer b f h') = quiet b h h'"
  by (simp add: quiet_def upd_buffer_def access_defs split: option.splits)

lemma quietD:
  assumes "quiet b h h'"
  shows "h_surfaces h' = h_surfaces h" "sids h' = sids h" "h_deferred h' = h_deferred h"
    "c \<noteq> b \<Longrightarrow> h_buffers h' c = h_buffers h c"
  using assms by (simp_all add: quiet_def)

lemma h_buffers_emit [simp]:
  "h_buffers (emit e h) = h_buffers h" "h_buffers (close_fd d h) = h_buffers h"
  "h_buffers (upd_diag f h) = h_buffers h" "h_buffers (upd_server g h) = h_buffers h"
  by (simp_all add: access_defs)

lemma without_release_simps [simp]:
  "quiet b h (without_release b x r h')  = quiet b h h'"
  "h_buffers (without_release b x r h') = (h_buffers h')(b \<mapsto> x\<lparr>b_explicit_release := None\<rparr>)"
  by (auto simp: quiet_def without_release_def)

lemma storage_release_ok:
  assumes "side_ok h" "h_buffers h b = Some x"
  shows "side_ok (storage_release b x h)" "quiet b h (storage_release b x h)"
    "h_buffers (storage_release b x h) b = Some (x\<lparr>b_explicit_release := None\<rparr>)"
proof -
  have "(case b_explicit_release x of None \<Rightarrow> x = x\<lparr>b_explicit_release := None\<rparr> | _ \<Rightarrow> True)"
    by (cases x) (simp split: option.splits)
  then show "side_ok (storage_release b x h)" "quiet b h (storage_release b x h)"
    "h_buffers (storage_release b x h) b = Some (x\<lparr>b_explicit_release := None\<rparr>)"
    using assms side_ok_without_release [OF assms] destroy_release_buffer(2) [OF assms]
    by (auto simp: storage_release_def split: option.splits)
qed

lemma storage_uncache_ok:
  assumes "side_ok h" "h_buffers h b = Some y" "b_egl_cache_linked y = b_egl_cache_linked x"
  shows "side_ok (storage_uncache b x h)" "quiet b h (storage_uncache b x h)"
    "h_buffers (storage_uncache b x h) b = Some (y\<lparr>b_egl_cache_linked := False\<rparr>)"
proof -
  have "b_egl_cache_linked x \<or> y = y\<lparr>b_egl_cache_linked := False\<rparr>"
    using assms(3) by (cases y) auto
  then show "side_ok (storage_uncache b x h)" "quiet b h (storage_uncache b x h)"
    "h_buffers (storage_uncache b x h) b = Some (y\<lparr>b_egl_cache_linked := False\<rparr>)"
    using assms
    by (auto simp: storage_uncache_def side_ok_def cached_def link_mark_def upd_buffer_def
        upd_server_def quiet_def)
qed

lemma storage_close_ok [simp]:
  "side_ok (storage_close x h) = side_ok h" "quiet b h (storage_close x h)"
  "h_buffers (storage_close x h) = h_buffers h"
  by (simp_all add: storage_close_def Let_def split: option.splits)

lemma pooled_leave:
  assumes P: "pooled P bp" "bp b = Some p" "P p = Some q"
  shows "pooled (P(p := (if p_references q = 1 then None
           else Some (q\<lparr>p_buffers := remove1 b (p_buffers q), p_references := p_references q - 1\<rparr>))))
         (bp(b := None))" and "0 < p_references q" and "b \<in> set (p_buffers q)"
proof -
  from P have q: "b \<in> set (p_buffers q)" "distinct (p_buffers q)" "0 < p_references q"
      "length (p_buffers q) \<le> p_references q" "p_references q \<le> Suc (length (p_buffers q))"
    unfolding pooled_def by force+
  then show "0 < p_references q" "b \<in> set (p_buffers q)" by simp_all
  have one: "set (p_buffers q) = {b}" if "p_references q = 1"
  proof -
    have "length (p_buffers q) = 1" using q that by (cases "p_buffers q") auto
    then show ?thesis using q(1) by (auto simp: length_Suc_conv)
  qed
  have P1: "bp c = Some p' \<longleftrightarrow> (\<exists>q. P p' = Some q \<and> c \<in> set (p_buffers q))" for c p'
    using P(1) by (simp add: pooled_def)
  show "pooled (P(p := (if p_references q = 1 then None
           else Some (q\<lparr>p_buffers := remove1 b (p_buffers q), p_references := p_references q - 1\<rparr>))))
         (bp(b := None))"
    unfolding pooled_def
  proof (intro conjI allI impI)
    fix p' q' assume "(P(p := (if p_references q = 1 then None
           else Some (q\<lparr>p_buffers := remove1 b (p_buffers q), p_references := p_references q - 1\<rparr>)))) p'
         = Some q'"
    then show "distinct (p_buffers q')" "0 < p_references q'"
      "length (p_buffers q') \<le> p_references q'" "p_references q' \<le> Suc (length (p_buffers q'))"
      using P(1) q by (auto simp: pooled_def length_remove1 split: if_splits)
  next
    fix c p'
    show "(bp(b := None)) c = Some p' \<longleftrightarrow> (\<exists>q'. (P(p := (if p_references q = 1 then None
           else Some (q\<lparr>p_buffers := remove1 b (p_buffers q), p_references := p_references q - 1\<rparr>)))) p'
         = Some q' \<and> c \<in> set (p_buffers q'))"
    proof (cases "p' = p")
      case True
      have "bp c = Some p \<longleftrightarrow> c \<in> set (p_buffers q)" using P1 [of c p] P(3) by simp
      with True q(2) one show ?thesis by auto
    next
      case False
      with P(2) P1 [of c p'] show ?thesis by auto
    qed
  qed
qed

lemma pool_unref_leave:
  assumes "h_pools h p = Some q" "0 < p_references q"
  shows "\<exists>l. pool_unref p (upd_pool p (p_buffers_update (remove1 b)) h) =
    h\<lparr>h_pools := (h_pools h)(p := (if p_references q = 1 then None
         else Some (q\<lparr>p_buffers := remove1 b (p_buffers q), p_references := p_references q - 1\<rparr>))),
      h_log := l\<rparr>"
proof -
  obtain d z n f bs where q: "q = \<lparr>p_data = d, p_size = z, p_references = n, p_fd = f, p_buffers = bs\<rparr>"
    by (cases q)
  show ?thesis
  proof (cases "n = 1")
    case True
    with assms q show ?thesis
      by (intro exI [of _ "h_log h @ [Munmap d z, Close_fd f]"])
        (simp add: pool_unref_def upd_pool_def udec_def access_defs)
  next
    case False
    with assms q show ?thesis
      by (intro exI [of _ "h_log h"]) (simp add: pool_unref_def upd_pool_def udec_def)
  qed
qed

lemma free_buffer_ok:
  assumes S: "side_ok h" "h_buffers h b = Some y" "b_pool y = b_pool x"
    and "b_explicit_release y = None" "\<not> b_egl_cache_linked y"
  shows "side_ok (free_buffer b (storage_unpool b x h))"
    "quiet b h (free_buffer b (storage_unpool b x h))"
    "h_buffers (free_buffer b (storage_unpool b x h)) b = None"
proof -
  have "side_ok (free_buffer b (storage_unpool b x h)) \<and>
    quiet b h (free_buffer b (storage_unpool b x h)) \<and>
    h_buffers (free_buffer b (storage_unpool b x h)) b = None"
  proof (cases "b_pool x")
    case None
    with assms show ?thesis
      by (simp add: storage_unpool_def free_buffer_def side_ok_def quiet_def link_mark_def)
  next
    case (Some p)
    have P: "pooled (h_pools h) (pool_of h)" and bp: "pool_of h b = Some p"
      using assms Some by (simp_all add: side_ok_def)
    then obtain q where q: "h_pools h p = Some q" by (auto simp: pooled_def)
    note leave = pooled_leave [OF P bp q]
    from pool_unref_leave [OF q leave(2), where b = b] obtain l P' where
      eq: "pool_unref p (upd_pool p (p_buffers_update (remove1 b)) h) = h\<lparr>h_pools := P', h_log := l\<rparr>"
      and "pooled P' ((pool_of h)(b := None))" using leave(1) by blast
    then show ?thesis
      using assms Some
      by (simp add: storage_unpool_def free_buffer_def side_ok_def quiet_def link_mark_def)
  qed
  then show "side_ok (free_buffer b (storage_unpool b x h))"
    "quiet b h (free_buffer b (storage_unpool b x h))"
    "h_buffers (free_buffer b (storage_unpool b x h)) b = None" by simp_all
qed

text \<open>Destroying the storage frees the buffer and leaves everything else consistent.\<close>

lemma destroy_storage_ok:
  assumes "side_ok h" "h_buffers h b = Some x"
  shows "side_ok (trierarch_buffer_destroy_storage b h)"
    "quiet b h (trierarch_buffer_destroy_storage b h)"
    "h_buffers (trierarch_buffer_destroy_storage b h) b = None"
proof -
  define h1 where "h1 = storage_release b x h"
  define h2 where "h2 = storage_close x (storage_uncache b x h1)"
  note r = storage_release_ok [OF assms, folded h1_def]
  have u: "side_ok h2" "quiet b h1 h2"
    "h_buffers h2 b = Some (x\<lparr>b_explicit_release := None, b_egl_cache_linked := False\<rparr>)"
    using storage_uncache_ok [OF r(1,3), where x = x] quiet_trans [OF _ storage_close_ok(2)]
    unfolding h2_def by simp_all
  have f: "side_ok (free_buffer b (storage_unpool b x h2))"
    "quiet b h2 (free_buffer b (storage_unpool b x h2))"
    "h_buffers (free_buffer b (storage_unpool b x h2)) b = None"
    by (rule free_buffer_ok [OF u(1,3)]; simp)+
  have eq: "trierarch_buffer_destroy_storage b h = free_buffer b (storage_unpool b x h2)"
    using assms(2) by (simp add: trierarch_buffer_destroy_storage_def h1_def h2_def)
  show "side_ok (trierarch_buffer_destroy_storage b h)"
    "quiet b h (trierarch_buffer_destroy_storage b h)"
    "h_buffers (trierarch_buffer_destroy_storage b h) b = None"
    unfolding eq using f quiet_trans [OF r(2) quiet_trans [OF u(2) f(2)]] by simp_all
qed

end
