(* ===== verification/Buffer_Ops.thy ===== *)
theory Buffer_Ops
  imports Buffer_Safety
begin

text \<open>
  The operations of \<^verbatim>\<open>buffer_shm.c\<close> on the invariant: taking and dropping a reference,
  releasing, deferring and flushing. Each lemma says what becomes of the references the
  caller holds and of the deferred entries.
\<close>

lemma subset_mset_add: "A \<subseteq># K \<Longrightarrow> A \<subseteq># add_mset b K"
proof (rule mset_subset_eqI)
  fix a assume "A \<subseteq># K"
  then have "count A a \<le> count K a" by (rule mset_subset_eq_count)
  then show "count A a \<le> count (add_mset b K) a" by simp
qed

lemma emit_upd_buffer: "emit e (upd_buffer b f h) = upd_buffer b f (emit e h)"
  by (cases h) (simp add: upd_buffer_def access_defs split: option.splits)

section \<open>References\<close>

lemma buffer_ref_sane:
  assumes "sane X h K E" "h_buffers h b = Some x"
  shows "sane X (trierarch_buffer_ref (Some b) h) K (add_mset b E)"
    "quiet b h (trierarch_buffer_ref (Some b) h)"
    "deferred_next_of (trierarch_buffer_ref (Some b) h) = deferred_next_of h"
proof -
  have "ledger (sids h) (current_of h) (hide X (pending_of h))
      ((account_of h)(b \<mapsto> (Suc (b_references x), b_busy_users x, b_resource x \<noteq> None))) K (add_mset b E)"
    using assms by (intro ledger_ref) (simp_all add: sane_def owned_def)
  then have "sane X (h\<lparr>h_buffers := (h_buffers h)(b \<mapsto> b_references_update Suc x)\<rparr>) K (add_mset b E)"
    by (intro sane_buffer [OF assms]) simp_all
  then show "sane X (trierarch_buffer_ref (Some b) h) K (add_mset b E)"
    by (simp add: trierarch_buffer_ref_def upd_buffer_Some [where x = x] assms(2))
  show "quiet b h (trierarch_buffer_ref (Some b) h)" by (simp add: trierarch_buffer_ref_def)
  show "deferred_next_of (trierarch_buffer_ref (Some b) h) = deferred_next_of h"
    using assms(2) by (simp add: trierarch_buffer_ref_def upd_buffer_def)
qed

text \<open>Dropping a reference in hand; the buffer is freed with the last one.\<close>

lemma buffer_unref_sane:
  assumes S: "sane X h K (add_mset b E)"
  shows "sane X (trierarch_buffer_unref (Some b) h) K E"
    "quiet b h (trierarch_buffer_unref (Some b) h)"
    "deferred_next_of (trierarch_buffer_unref (Some b) h) =
       (if fld (h_buffers h) (\<lambda>x. Some (b_references x)) b = Some 1
        then (deferred_next_of h)(b := None) else deferred_next_of h)"
    "h_buffers (trierarch_buffer_unref (Some b) h) c \<noteq> None \<Longrightarrow>
       deferred_next_of (trierarch_buffer_unref (Some b) h) c = deferred_next_of h c"
proof -
  obtain x where x: "h_buffers h b = Some x" "0 < b_references x"
    using sane_live [OF S, of b] by auto
  then obtain n where n: "b_references x = Suc n" by (cases "b_references x") auto
  define y where "y = x\<lparr>b_references := n\<rparr>"
  have yx: "b_references_update (\<lambda>n. n - Suc 0) x = y" unfolding y_def using n by (cases x) simp
  have L: "ledger (sids h) (current_of h) (hide X (pending_of h))
      ((account_of h)(b := (if n = 0 then None else Some (n, b_busy_users x, b_resource x \<noteq> None)))) K E"
    using S x(1) n by (intro ledger_unref) (simp_all add: sane_def owned_def)
  define h1 where "h1 = h\<lparr>h_buffers := (h_buffers h)(b \<mapsto> y)\<rparr>"
  have h1: "side_ok h1" "h_buffers h1 b = Some y" "quiet b h h1"
    "deferred_next_of h1 = deferred_next_of h"
    using S x(1) side_ok_buffer [of h b x y] by (simp_all add: h1_def y_def sane_def quiet_def)
  have eq: "trierarch_buffer_unref (Some b) h =
      (if n = 0 then trierarch_buffer_destroy_storage b h1 else h1)"
    using x n by (simp add: trierarch_buffer_unref_def upd_buffer_def yx h1_def)
  have "sane X (trierarch_buffer_unref (Some b) h) K E \<and>
    quiet b h (trierarch_buffer_unref (Some b) h) \<and>
    deferred_next_of (trierarch_buffer_unref (Some b) h) =
       (if n = 0 then (deferred_next_of h)(b := None) else deferred_next_of h) \<and>
    (n = 0 \<longrightarrow> h_buffers (trierarch_buffer_unref (Some b) h) b = None)"
  proof (cases "n = 0")
    case True
    note d = destroy_storage_ok [OF h1(1,2)]
    note q = quiet_trans [OF h1(3) d(2)]
    have bufs: "h_buffers (trierarch_buffer_destroy_storage b h1) = (h_buffers h)(b := None)"
      using d(3) quietD(4) [OF q] by (auto simp: fun_eq_iff)
    show ?thesis
      using True L d(1) q quietD(1,2) [OF q] unfolding eq sane_def owned_def by (simp add: bufs)
  next
    case False
    then show ?thesis
      using L h1 quietD(1,2) [OF h1(3)] unfolding eq sane_def owned_def by (simp add: h1_def y_def)
  qed
  then show "sane X (trierarch_buffer_unref (Some b) h) K E"
    "quiet b h (trierarch_buffer_unref (Some b) h)"
    "deferred_next_of (trierarch_buffer_unref (Some b) h) =
       (if fld (h_buffers h) (\<lambda>x. Some (b_references x)) b = Some 1
        then (deferred_next_of h)(b := None) else deferred_next_of h)"
    "h_buffers (trierarch_buffer_unref (Some b) h) c \<noteq> None \<Longrightarrow>
       deferred_next_of (trierarch_buffer_unref (Some b) h) c = deferred_next_of h c"
    using x(1) n by auto
qed

section \<open>Releases\<close>

text \<open>
  Releasing a deferred entry: its reference is in hand afterwards. The client is told
  only when no surface and no other entry uses the buffer.
\<close>

lemma buffer_release_sane:
  assumes S: "sane X h (add_mset b K) E"
  shows "sane X (trierarch_shm_buffer_release b h) K (add_mset b E)"
    "quiet b h (trierarch_shm_buffer_release b h)"
    "deferred_next_of (trierarch_shm_buffer_release b h) = deferred_next_of h"
proof -
  obtain x where x: "h_buffers h b = Some x"
    using sane_live [OF S, of b] by auto
  define y where "y = x\<lparr>b_busy_users := b_busy_users x - 1\<rparr>"
  have yx: "b_busy_users_update (\<lambda>n. n - Suc 0) x = y" unfolding y_def by (cases x) simp
  have L: "ledger (sids h) (current_of h) (hide X (pending_of h))
      ((account_of h)(b \<mapsto> (b_references x, b_busy_users x - 1, b_resource x \<noteq> None))) K (add_mset b E)
      \<and> 0 < b_busy_users x"
    using S x by (intro ledger_release) (simp_all add: sane_def owned_def)
  define h1 where "h1 = h\<lparr>h_buffers := (h_buffers h)(b \<mapsto> y)\<rparr>"
  have S1: "sane X h1 K (add_mset b E)"
    unfolding h1_def using L by (intro sane_buffer [OF S x]) (simp_all add: y_def)
  have h1: "h_buffers h1 b = Some y" "quiet b h h1" "deferred_next_of h1 = deferred_next_of h"
    using x by (simp_all add: h1_def quiet_def y_def)
  define h2 where "h2 = (case b_resource x of None \<Rightarrow> h1 | Some r \<Rightarrow> emit (Buffer_release r) h1)"
  have h2: "sane X h2 K (add_mset b E)" "h_buffers h2 = h_buffers h1" "quiet b h h2"
    using S1 h1 by (simp_all add: h2_def split: option.splits)
  have fin: "sane X (trierarch_explicit_sync_buffer_release b h2) K (add_mset b E) \<and>
    quiet b h (trierarch_explicit_sync_buffer_release b h2) \<and>
    deferred_next_of (trierarch_explicit_sync_buffer_release b h2) = deferred_next_of h"
  proof (cases "b_explicit_release y")
    case None
    then show ?thesis
      using h2 h1 by (simp add: trierarch_explicit_sync_buffer_release_def)
  next
    case (Some r)
    let ?h = "emit (Immediate_release r) h2"
    have S3: "side_ok ?h" "h_buffers ?h b = Some y" using h2 h1(1) by (simp_all add: sane_def)
    have eq: "trierarch_explicit_sync_buffer_release b h2 =
        emit (Destroyed r) (without_release b y r ?h)"
      using destroy_release_buffer(2) [OF S3 Some] h2(2) h1(1) Some
      by (simp add: trierarch_explicit_sync_buffer_release_def emit_upd_buffer)
    show ?thesis
      using sane_without_release [OF _ S3(2) Some, of X K "add_mset b E"] h2 h1 x unfolding eq
      by (simp add: y_def)
  qed
  have eq: "trierarch_shm_buffer_release b h =
      (if 1 < b_busy_users x then h1 else trierarch_explicit_sync_buffer_release b h2)"
    using x L unfolding h2_def h1_def
    by (cases "b_resource x")
      (simp_all add: trierarch_shm_buffer_release_def upd_buffer_def yx Let_def)
  show "sane X (trierarch_shm_buffer_release b h) K (add_mset b E)"
    "quiet b h (trierarch_shm_buffer_release b h)"
    "deferred_next_of (trierarch_shm_buffer_release b h) = deferred_next_of h"
    unfolding eq using S1 h1 fin by simp_all
qed

section \<open>The deferred list\<close>

text \<open>
  The state between operations: the deferred list holds \<open>w\<close>, and \<open>K\<close> counts these
  entries and any that were lost.
\<close>

definition deferred_ok :: "host \<Rightarrow> bid multiset \<Rightarrow> bid list \<Rightarrow> bool" where
  "deferred_ok h K w \<longleftrightarrow> dchain (deferred_next_of h) (h_deferred h) w \<and> mset w \<subseteq># K"

lemma deferred_ok_cong:
  "deferred_next_of h' = deferred_next_of h \<Longrightarrow> h_deferred h' = h_deferred h \<Longrightarrow>
    deferred_ok h' K w = deferred_ok h K w"
  by (simp add: deferred_ok_def)

lemma deferred_ok_live:
  assumes "sane X h K E" "deferred_ok h K w" "b \<in> set w"
  shows "h_buffers h b \<noteq> None"
proof -
  have "b \<in># K" using assms(2,3) mset_subset_eqD [of "mset w" K b] by (auto simp: deferred_ok_def)
  then show ?thesis using sane_live [OF assms(1), of b] by auto
qed

text \<open>
  Deferring the release of a buffer whose use the caller gives up. The list becomes the
  buffer followed by the old entries up to its earlier occurrence: a buffer that is
  already deferred cuts off every entry behind it.
\<close>

lemma defer_sane:
  assumes S: "sane X h (add_mset b K) E" and D: "deferred_ok h K w"
  shows "sane X (trierarch_defer_buffer_release b h) (add_mset b K) E"
    "deferred_ok (trierarch_defer_buffer_release b h) (add_mset b K) (b # trunc b w)"
    "h_surfaces (trierarch_defer_buffer_release b h) = h_surfaces h"
    "sids (trierarch_defer_buffer_release b h) = sids h"
proof -
  obtain x where x: "h_buffers h b = Some x" using sane_live [OF S, of b] by auto
  have "deferred_ok h (add_mset b K) w"
    using D unfolding deferred_ok_def
    by (simp add: subset_mset_add)
  then have live: "\<And>c. c \<in> set w \<Longrightarrow> h_buffers h c \<noteq> None" using deferred_ok_live [OF S] by blast
  obtain d where d: "deferred_contains h b = Some d"
    using deferred_contains_total [of h w b] D live by (auto simp: deferred_ok_def)
  define h1 where "h1 = (if b_server x
      then upd_diag (\<lambda>g. g\<lparr>dg_deferred_enqueued := dg_deferred_enqueued g + 1,
         dg_deferred_duplicates := dg_deferred_duplicates g + of_bool d\<rparr>) h else h)"
  have S1: "sane X h1 (add_mset b K) E" using S by (simp add: h1_def)
  have h1: "h_buffers h1 = h_buffers h" "h_surfaces h1 = h_surfaces h"
    "sids h1 = sids h" "h_deferred h1 = h_deferred h"
    by (simp_all add: h1_def access_defs)
  define h2 where "h2 = h1\<lparr>h_buffers := (h_buffers h)(b \<mapsto> x\<lparr>b_deferred_next := h_deferred h\<rparr>)\<rparr>"
  have eq: "trierarch_defer_buffer_release b h = h2\<lparr>h_deferred := Some b\<rparr>"
    using x d h1 by (simp add: trierarch_defer_buffer_release_def upd_buffer_def h1_def [symmetric] h2_def)
  have "sane X h2 (add_mset b K) E"
    unfolding h2_def h1(1) [symmetric] using x h1 by (intro sane_buffer_same [OF S1]) simp_all
  then show "sane X (trierarch_defer_buffer_release b h) (add_mset b K) E" unfolding eq by simp
  have "dchain ((deferred_next_of h)(b := h_deferred h)) (Some b) (b # trunc b w)"
    using D by (intro dchain_push) (simp add: deferred_ok_def)
  moreover have "mset (trunc b w) \<subseteq># K"
    using D mset_trunc [of b w] by (auto simp: deferred_ok_def intro: subset_mset.order_trans)
  ultimately show "deferred_ok (trierarch_defer_buffer_release b h) (add_mset b K) (b # trunc b w)"
    unfolding eq deferred_ok_def by (simp add: h2_def h1 del: dchain.simps)
  show "h_surfaces (trierarch_defer_buffer_release b h) = h_surfaces h"
    "sids (trierarch_defer_buffer_release b h) = sids h"
    unfolding eq by (simp_all add: h2_def h1)
qed

text \<open>One turn of the flush.\<close>

lemma flush_one_sane:
  assumes S: "sane X h (add_mset b K) E" and x: "h_buffers h b = Some x"
  shows "sane X (flush_one b x h) K E" "quiet b h (flush_one b x h)"
    "deferred_next_of (flush_one b x h) = (deferred_next_of h)(b := None)"
proof -
  define h1 where "h1 = h\<lparr>h_buffers := (h_buffers h)(b \<mapsto> x\<lparr>b_deferred_next := None\<rparr>)\<rparr>"
  define h2 where "h2 = (if b_server x
    then upd_diag (dg_deferred_flushed_update (\<lambda>n. n + 1)) h1 else h1)"
  have "sane X h1 (add_mset b K) E"
    unfolding h1_def using x by (intro sane_buffer_same [OF S]) simp_all
  then have S2: "sane X h2 (add_mset b K) E" by (simp add: h2_def)
  have h2: "quiet b h h2" "deferred_next_of h2 = (deferred_next_of h)(b := None)"
    by (simp_all add: h2_def h1_def quiet_def access_defs)
  note r = buffer_release_sane [OF S2]
  note u = buffer_unref_sane [OF r(1)]
  have eq: "flush_one b x h =
      trierarch_buffer_unref (Some b) (trierarch_shm_buffer_release b h2)"
    using x by (simp add: flush_one_def upd_buffer_def h2_def h1_def)
  show "sane X (flush_one b x h) K E" "quiet b h (flush_one b x h)"
    "deferred_next_of (flush_one b x h) = (deferred_next_of h)(b := None)"
    unfolding eq using u quiet_trans [OF h2(1) quiet_trans [OF r(2) u(2)]] r(3) h2(2) by simp_all
qed

text \<open>
  The flush returns, takes every entry of the list, and leaves what was lost behind.
\<close>

lemma flush_loop_sane:
  assumes "sane X h (mset w + L) E" "dchain (deferred_next_of h) p w"
  shows "\<exists>h'. flush_loop p h = Some h' \<and> sane X h' L E \<and> h_surfaces h' = h_surfaces h \<and>
    sids h' = sids h \<and> h_deferred h' = h_deferred h"
  using assms
proof (induction w arbitrary: h p)
  case Nil
  then show ?case by (simp add: flush_loop.simps)
next
  case (Cons b w)
  have p: "p = Some b" and c: "dchain ((deferred_next_of h)(b := None)) (deferred_next_of h b) w"
    using Cons.prems(2) by simp_all
  have S: "sane X h (add_mset b (mset w + L)) E" using Cons.prems(1) by simp
  obtain x where x: "h_buffers h b = Some x" using sane_live [OF S, of b] by auto
  note f = flush_one_sane [OF S x]
  have "dchain (deferred_next_of (flush_one b x h)) (b_deferred_next x) w"
    using c x unfolding f(3) by simp
  from Cons.IH [OF f(1) this] show ?case
    using p x quietD [OF f(2)] by (simp add: flush_loop.simps)
qed

lemma flush_sane:
  assumes S: "sane X h K E" and D: "deferred_ok h K w"
  shows "\<exists>h'. trierarch_flush_deferred_releases h = Some h' \<and> sane X h' (K - mset w) E \<and>
    deferred_ok h' (K - mset w) [] \<and> h_surfaces h' = h_surfaces h \<and> sids h' = sids h"
proof -
  have K: "mset w + (K - mset w) = K" using D by (simp add: deferred_ok_def)
  have "\<exists>h'. flush_loop (h_deferred h) (h\<lparr>h_deferred := None\<rparr>) = Some h' \<and> sane X h' (K - mset w) E \<and>
    h_surfaces h' = h_surfaces h \<and> sids h' = sids h \<and> h_deferred h' = None"
    using flush_loop_sane [of X "h\<lparr>h_deferred := None\<rparr>" w "K - mset w" E "h_deferred h"] S D K
    by (simp add: deferred_ok_def)
  then show ?thesis
    unfolding trierarch_flush_deferred_releases_def deferred_ok_def by auto
qed

text \<open>The destroy hook of a \<^verbatim>\<open>wl_buffer\<close>.\<close>

lemma resource_destroy_sane:
  assumes S: "sane X h K E" and x: "h_buffers h b = Some x" "b_resource x \<noteq> None"
  shows "sane X (buffer_resource_destroy b h) K E" "quiet b h (buffer_resource_destroy b h)"
    "\<forall>c. c \<noteq> b \<or> b \<in># K \<longrightarrow>
       deferred_next_of (buffer_resource_destroy b h) c = deferred_next_of h c"
proof -
  define h1 where "h1 = h\<lparr>h_buffers := (h_buffers h)(b \<mapsto> x\<lparr>b_resource := None\<rparr>)\<rparr>"
  have "ledger (sids h) (current_of h) (hide X (pending_of h))
      ((account_of h)(b \<mapsto> (b_references x, b_busy_users x, False))) K (add_mset b E)"
    using S x by (intro ledger_resource_gone) (simp_all add: sane_def owned_def)
  then have S1: "sane X h1 K (add_mset b E)"
    unfolding h1_def by (intro sane_buffer [OF S x(1)]) simp_all
  have h1: "quiet b h h1" "deferred_next_of h1 = deferred_next_of h"
    using x by (simp_all add: h1_def quiet_def)
  have eq: "buffer_resource_destroy b h = trierarch_buffer_unref (Some b) h1"
    using x by (simp add: buffer_resource_destroy_def upd_buffer_def h1_def)
  note u = buffer_unref_sane [OF S1]
  show "sane X (buffer_resource_destroy b h) K E" "quiet b h (buffer_resource_destroy b h)"
    unfolding eq using u quiet_trans [OF h1(1) u(2)] by simp_all
  have live: "b \<in># K \<Longrightarrow> h_buffers (trierarch_buffer_unref (Some b) h1) b \<noteq> None"
    using sane_live [OF u(1), of b] by auto
  have same: "deferred_next_of (trierarch_buffer_unref (Some b) h1) c = deferred_next_of h c"
    if "c \<noteq> b \<or> b \<in># K" for c
  proof (cases "c = b")
    case True
    with that have "b \<in># K" by simp
    from u(4) [OF live [OF this]] show ?thesis unfolding True h1(2) .
  next
    case False
    then show ?thesis unfolding u(3) h1(2) by simp
  qed
  then show "\<forall>c. c \<noteq> b \<or> b \<in># K \<longrightarrow>
       deferred_next_of (buffer_resource_destroy b h) c = deferred_next_of h c"
    unfolding eq by blast
qed

section \<open>The reference-counting contract\<close>

text \<open>
  What a user of counted objects may rely on: a reference can be taken of a live object, a
  reference in hand keeps the object live, and giving it back is safe. \<open>holds s E\<close>
  says that the state \<open>s\<close> accounts for the references \<open>E\<close> in hand.
\<close>

locale reference_counted =
  fixes ref :: "'k \<Rightarrow> 's \<Rightarrow> 's" and unref :: "'k \<Rightarrow> 's \<Rightarrow> 's"
    and holds :: "'s \<Rightarrow> 'k multiset \<Rightarrow> bool" and live :: "'s \<Rightarrow> 'k \<Rightarrow> bool"
  assumes ref_holds: "holds s E \<Longrightarrow> live s k \<Longrightarrow> holds (ref k s) (add_mset k E)"
    and unref_holds: "holds s (add_mset k E) \<Longrightarrow> holds (unref k s) E"
    and held_live: "holds s E \<Longrightarrow> k \<in># E \<Longrightarrow> live s k"
    and ref_live: "live s j \<Longrightarrow> live (ref k s) j"
begin

lemma refs_hold:
  "holds s E \<Longrightarrow> (\<And>k. k \<in> set ks \<Longrightarrow> live s k) \<Longrightarrow> holds (fold ref ks s) (mset ks + E)"
proof (induction ks arbitrary: s E)
  case (Cons k ks)
  then have "holds (ref k s) (add_mset k E)" by (simp add: ref_holds)
  then have "holds (fold ref ks (ref k s)) (mset ks + add_mset k E)"
    using Cons.prems by (intro Cons.IH) (simp_all add: ref_live)
  then show ?case by simp
qed simp

lemma unrefs_hold: "holds s (mset ks + E) \<Longrightarrow> holds (fold unref ks s) E"
  by (induction ks arbitrary: s) (simp_all add: unref_holds)

text \<open>References given back in any order, as often as they were taken.\<close>

lemma refs_unrefs_hold:
  assumes "holds s E" "\<And>k. k \<in> set ks \<Longrightarrow> live s k" "mset js = mset ks"
  shows "holds (fold unref js (fold ref ks s)) E"
  using refs_hold [OF assms(1,2)] unrefs_hold [of "fold ref ks s" js E] assms(3) by simp

text \<open>An object somebody holds survives every other reference.\<close>

lemma held_survives:
  assumes "holds s (mset ks + E)" "k \<in># E"
  shows "live (fold unref ks s) k"
  using held_live [OF unrefs_hold [OF assms(1)] assms(2)] .

end

interpretation buffers: reference_counted
  "\<lambda>b. trierarch_buffer_ref (Some b)" "\<lambda>b. trierarch_buffer_unref (Some b)"
  "\<lambda>h E. \<exists>K. sane {} h K E" "\<lambda>h b. h_buffers h b \<noteq> None"
proof
  fix h :: host and E b assume "\<exists>K. sane {} h K E" "h_buffers h b \<noteq> None"
  then show "\<exists>K. sane {} (trierarch_buffer_ref (Some b) h) K (add_mset b E)"
    using buffer_ref_sane(1) by blast
next
  fix h :: host and E b assume "\<exists>K. sane {} h K (add_mset b E)"
  then show "\<exists>K. sane {} (trierarch_buffer_unref (Some b) h) K E" using buffer_unref_sane(1) by blast
next
  fix h :: host and E b assume "\<exists>K. sane {} h K E" "b \<in># E"
  then show "h_buffers h b \<noteq> None" by (auto elim: sane_live)
next
  fix h :: host and b c assume "h_buffers h c \<noteq> None"
  then show "h_buffers (trierarch_buffer_ref (Some b) h) c \<noteq> None"
    by (auto simp: trierarch_buffer_ref_def upd_buffer_def fault_def split: option.splits)
qed

end
