(* ===== verification/Surface_Safety.thy ===== *)
theory Surface_Safety
  imports Buffer_Ops
begin

text \<open>
  The invariant across the operations on surfaces: attach, commit and destruction keep
  the balance of references, the deferred list and the release objects.
\<close>

section \<open>Updates that move no reference\<close>

definition calm :: "host \<Rightarrow> host \<Rightarrow> bool" where
  "calm h h' \<longleftrightarrow> h_buffers h' = h_buffers h \<and> h_pools h' = h_pools h \<and>
     h_bindings h' = h_bindings h \<and> sids h' = sids h \<and>
     sv_egl_buffers (h_server h') = sv_egl_buffers (h_server h) \<and> h_deferred h' = h_deferred h \<and>
     h_fault h' = h_fault h \<and> dom (h_surfaces h') = dom (h_surfaces h) \<and>
     current_of h' = current_of h \<and> pending_of h' = pending_of h \<and>
     surf_release h' = surf_release h"

lemma calm_refl [simp]: "calm h h"
  by (simp add: calm_def)

lemma calm_trans [trans]: "calm h h' \<Longrightarrow> calm h' h'' \<Longrightarrow> calm h h''"
  by (simp add: calm_def)

lemma calm_sane: "calm h h' \<Longrightarrow> sane X h' K E = sane X h K E"
  unfolding calm_def sane_def owned_def side_ok_def by simp

lemma calm_deferred: "calm h h' \<Longrightarrow> deferred_ok h' K w = deferred_ok h K w"
  unfolding calm_def deferred_ok_def by simp

lemma calm_live: "calm h h' \<Longrightarrow> h_surfaces h' s = None \<longleftrightarrow> h_surfaces h s = None"
  unfolding calm_def by (metis domIff)

lemma calm_emit [simp]:
  "calm h (emit e h') = calm h h'" "calm h (emits es h') = calm h h'"
  "calm h (close_fd d h') = calm h h'" "calm h (upd_diag f h') = calm h h'"
  "calm h (upd_perf g h') = calm h h'" "calm h (upd_repaint k h') = calm h h'"
  "calm h (bump_serial h') = calm h h'"
  by (simp_all add: calm_def access_defs)

lemma calm_request_render [simp]: "calm h (trierarch_wayland_request_render h') = calm h h'"
  by (simp add: calm_def)

lemma calm_upd_surface:
  assumes "h_surfaces h s \<noteq> None"
    and "\<And>x. s_current (f x) = s_current x" "\<And>x. s_pending (f x) = s_pending x"
    "\<And>x. s_pending_explicit_release (f x) = s_pending_explicit_release x"
  shows "calm h (upd_surface s f h)"
  using assms by (auto simp: calm_def upd_surface_def split: if_splits)

lemma calm_upd_surface_trans:
  assumes "calm h h'" "h_surfaces h s \<noteq> None"
    and "\<And>x. s_current (f x) = s_current x" "\<And>x. s_pending (f x) = s_pending x"
    "\<And>x. s_pending_explicit_release (f x) = s_pending_explicit_release x"
  shows "calm h (upd_surface s f h')"
  using assms calm_live [OF assms(1)] by (intro calm_trans [OF assms(1)] calm_upd_surface) auto

lemma upd_surface_at [simp]:
  "h_surfaces (upd_surface s f h) t =
     (if t = s then map_option f (h_surfaces h s) else h_surfaces h t)"
  by (auto simp: upd_surface_def access_defs split: option.splits)

lemma h_surfaces_emit [simp]:
  "h_surfaces (emit e h) = h_surfaces h" "h_surfaces (emits es h) = h_surfaces h"
  "h_surfaces (close_fd d h) = h_surfaces h" "h_surfaces (upd_diag f h) = h_surfaces h"
  "h_surfaces (upd_perf g h) = h_surfaces h" "h_surfaces (upd_server k h) = h_surfaces h"
  "h_surfaces (bump_serial h) = h_surfaces h" "h_surfaces (upd_buffer b m h) = h_surfaces h"
  by (simp_all add: access_defs upd_buffer_def split: option.splits)

lemma sids_emit [simp]:
  "sids (emit e h) = sids h" "sids (emits es h) = sids h" "sids (close_fd d h) = sids h"
  "h_deferred (emit e h) = h_deferred h" "h_deferred (emits es h) = h_deferred h"
  "h_deferred (close_fd d h) = h_deferred h" "h_buffers (emits es h) = h_buffers h"
  by (simp_all add: access_defs)

lemma without_pending_release_simps [simp]:
  "h_surfaces (without_pending_release s x r h) =
     (h_surfaces h)(s \<mapsto> x\<lparr>s_pending_explicit_release := None\<rparr>)"
  "h_buffers (without_pending_release s x r h) = h_buffers h"
  "h_deferred (without_pending_release s x r h) = h_deferred h"
  "sids (without_pending_release s x r h) = sids h"
  by (simp_all add: without_pending_release_def)

text \<open>The parts of a commit that only configure and report.\<close>

lemma calm_send_configure:
  assumes "h_surfaces h s \<noteq> None"
  shows "calm h (trierarch_surface_send_configure s h)"
  using assms by (auto simp: trierarch_surface_send_configure_def Let_def split: option.splits)

lemma calm_layer_commit:
  assumes "h_surfaces h s \<noteq> None"
  shows "calm h (trierarch_layer_surface_commit s h)"
proof -
  obtain x where x: "h_surfaces h s = Some x" using assms by auto
  have "calm h (upd_layer s f h')" if "calm h h'" for f h'
    unfolding upd_layer_def using that assms by (intro calm_upd_surface_trans) simp_all
  then show ?thesis
    using x by (auto simp: trierarch_layer_surface_commit_def Let_def split: option.splits prod.splits)
qed

lemma send_configure_surfaces [simp]:
  "h_surfaces (trierarch_surface_send_configure s h) = h_surfaces h"
  by (simp add: trierarch_surface_send_configure_def Let_def access_defs split: option.splits)

lemma calm_commit_configure:
  assumes "h_surfaces h s \<noteq> None"
  shows "calm h (commit_configure s h)"
proof -
  obtain x where x: "h_surfaces h s = Some x" using assms by auto
  show ?thesis
    using x calm_layer_commit [OF assms] calm_send_configure [OF assms]
      calm_trans [OF calm_send_configure [OF assms]] calm_layer_commit [of "trierarch_surface_send_configure s h" s]
    by (auto simp: commit_configure_def)
qed

lemma calm_commit_callbacks:
  assumes "h_surfaces h s \<noteq> None"
  shows "calm h (snd (commit_callbacks s h))"
  using assms
  by (auto simp: commit_callbacks_def Let_def intro!: calm_upd_surface_trans)

section \<open>Updates of a surface\<close>

lemma hide_upd:
  "hide X (f(s := a)) = (if s \<in> X then hide X f else (hide X f)(s := a))"
  by (rule ext) (simp add: hide_def)

lemma hide_one: "hide {s} f = f(s := None)"
  by (rule ext) (simp add: hide_def)

lemma sane_surface:
  assumes "sane X h K E" "h_surfaces h s = Some x"
    and "s_pending_explicit_release y = s_pending_explicit_release x"
    and "ledger (sids h) ((current_of h)(s := s_current y))
       (if s \<in> X then hide X (pending_of h) else (hide X (pending_of h))(s := s_pending y))
       (account_of h) K' E'"
  shows "sane X (h\<lparr>h_surfaces := (h_surfaces h)(s \<mapsto> y)\<rparr>) K' E'"
proof -
  have "side_ok (h\<lparr>h_surfaces := (h_surfaces h)(s \<mapsto> y)\<rparr>)"
    using assms(1-3) by (auto simp: sane_def side_ok_def)
  then show ?thesis using assms(4) by (simp add: sane_def owned_def hide_upd)
qed

lemma sane_surface_current:
  assumes "sane X h K E" "h_surfaces h s = Some x"
    and "s_pending_explicit_release y = s_pending_explicit_release x" "s_pending y = s_pending x"
    and L: "ledger (sids h) ((current_of h)(s := s_current y)) (hide X (pending_of h))
       (account_of h) K' E'"
  shows "sane X (h\<lparr>h_surfaces := (h_surfaces h)(s \<mapsto> y)\<rparr>) K' E'"
proof (rule sane_surface [OF assms(1-3)])
  have eq: "(if s \<in> X then hide X (pending_of h) else (hide X (pending_of h))(s := s_pending y))
      = hide X (pending_of h)"
    using assms(2,4) by (auto simp: hide_def fun_eq_iff)
  show "ledger (sids h) ((current_of h)(s := s_current y))
     (if s \<in> X then hide X (pending_of h) else (hide X (pending_of h))(s := s_pending y))
     (account_of h) K' E'"
    unfolding eq by (rule L)
qed

text \<open>The commit takes the pending reference in hand, and in the end clears the pending state.\<close>

lemma sane_begin_commit:
  assumes "sane {} h K {#}" "h_surfaces h s = Some x"
  shows "sane {s} h K (opt_mset (s_pending x))"
proof -
  have s: "s \<in> set (sids h)" using assms by (auto simp: sane_def side_ok_def)
  have "ledger (sids h) (current_of h) ((pending_of h)(s := None)) (account_of h) K
      ({#} + opt_mset (pending_of h s))"
    using assms(1) by (intro ledger_pending s) (simp add: sane_def owned_def)
  then show ?thesis using assms by (simp add: sane_def owned_def hide_one)
qed

lemma sane_end_commit:
  assumes "sane {s} h K E" "h_surfaces h s = Some x" "s_pending y = None"
    "s_current y = s_current x" "s_pending_explicit_release y = s_pending_explicit_release x"
  shows "sane {} (h\<lparr>h_surfaces := (h_surfaces h)(s \<mapsto> y)\<rparr>) K E"
proof -
  have "side_ok (h\<lparr>h_surfaces := (h_surfaces h)(s \<mapsto> y)\<rparr>)"
    using assms by (auto simp: sane_def side_ok_def)
  then show ?thesis using assms by (simp add: sane_def owned_def hide_one)
qed

lemma sane_live_surface: "sane X h K E \<Longrightarrow> h_surfaces h s = Some x \<Longrightarrow> s \<in> set (sids h)"
  by (auto simp: sane_def side_ok_def)

section \<open>The parts of a commit\<close>

lemma commit_drop_current_sane:
  assumes S: "sane X h K E" and D: "deferred_ok h K w" and x: "h_surfaces h s = Some x"
  shows "\<exists>K' w'. sane X (commit_drop_current s h) K' E \<and> deferred_ok (commit_drop_current s h) K' w' \<and>
     K' = opt_mset (s_current x) + K \<and>
     w' = (case s_current x of None \<Rightarrow> w | Some b \<Rightarrow> b # trunc b w) \<and>
     h_surfaces (commit_drop_current s h) = (h_surfaces h)(s \<mapsto> x\<lparr>s_current := None\<rparr>) \<and>
     sids (commit_drop_current s h) = sids h"
proof (cases "s_current x")
  case None
  then have "(h_surfaces h)(s \<mapsto> x\<lparr>s_current := None\<rparr>) = h_surfaces h"
    using x by (cases x) auto
  with None S D x show ?thesis by (simp add: commit_drop_current_def)
next
  case (Some b)
  define h1 where "h1 = h\<lparr>h_surfaces := (h_surfaces h)(s \<mapsto> x\<lparr>s_current := None\<rparr>)\<rparr>"
  have L: "ledger (sids h) ((current_of h)(s := None)) (hide X (pending_of h)) (account_of h)
      (add_mset b K) E"
    using S x Some by (intro ledger_drop_current sane_live_surface [OF S x])
      (simp_all add: sane_def owned_def)
  then have "sane X h1 (add_mset b K) E"
    unfolding h1_def by (intro sane_surface_current [OF S x]) simp_all
  moreover have "deferred_ok h1 K w" using D by (simp add: h1_def deferred_ok_def)
  moreover have "commit_drop_current s h = trierarch_defer_buffer_release b h1"
    using x Some by (simp add: commit_drop_current_def upd_surface_def h1_def)
  ultimately show ?thesis
    using defer_sane [of X h1 b K E w] Some by (simp add: h1_def)
qed

lemma commit_map_sane:
  assumes S: "sane {s} h K (opt_mset p)" and x: "h_surfaces h s = Some x" "s_current x = None"
  shows "sane {s} (commit_map s p h) K {#}"
    "h_deferred (commit_map s p h) = h_deferred h" "sids (commit_map s p h) = sids h"
    "deferred_next_of (commit_map s p h) = deferred_next_of h"
    "\<exists>y. h_surfaces (commit_map s p h) = (h_surfaces h)(s \<mapsto> y) \<and> s_current y = p \<and>
       s_children y = s_children x \<and> s_parent y = s_parent x \<and> s_subsurface y = s_subsurface x"
proof -
  have "sane {s} (commit_map s p h) K {#} \<and>
    h_deferred (commit_map s p h) = h_deferred h \<and> sids (commit_map s p h) = sids h \<and>
    deferred_next_of (commit_map s p h) = deferred_next_of h \<and>
    (\<exists>y. h_surfaces (commit_map s p h) = (h_surfaces h)(s \<mapsto> y) \<and> s_current y = p \<and>
       s_children y = s_children x \<and> s_parent y = s_parent x \<and> s_subsurface y = s_subsurface x)"
  proof (cases p)
    case None
    have "(current_of h)(s := None) = current_of h" using x by simp
    then have "sane {s} (h\<lparr>h_surfaces := (h_surfaces h)(s \<mapsto> x\<lparr>s_current := None, s_width := 0,
        s_height := 0, s_mapped := False\<rparr>)\<rparr>) K {#}"
      using S None x by (intro sane_surface [OF S x(1)]) (simp_all add: sane_def owned_def)
    with None x show ?thesis
      by (auto simp: commit_map_def upd_surface_def intro!: exI [of _ "x\<lparr>s_current := None,
        s_width := 0, s_height := 0, s_mapped := False\<rparr>"])
  next
    case (Some b)
    obtain v where v: "h_buffers h b = Some v" using sane_live [OF S, of b] Some by auto
    define y where "y = x\<lparr>s_current := Some b, s_width := b_width v, s_height := b_height v,
        s_mapped := True\<rparr>"
    define h1 where "h1 = h\<lparr>h_buffers := (h_buffers h)(b \<mapsto> b_busy_users_update Suc v)\<rparr>"
    have L: "ledger (sids h) ((current_of h)(s \<mapsto> b)) (hide {s} (pending_of h))
        ((account_of h)(b \<mapsto> (b_references v, Suc (b_busy_users v), b_resource v \<noteq> None))) K {#}"
      using S x v Some by (intro ledger_set_current sane_live_surface [OF S x(1)])
        (simp_all add: sane_def owned_def)
    have "side_ok h1" unfolding h1_def using S v by (intro side_ok_buffer) (simp_all add: sane_def)
    then have "side_ok (h1\<lparr>h_surfaces := (h_surfaces h)(s \<mapsto> y)\<rparr>)"
      using x by (auto simp: side_ok_def h1_def y_def)
    then have "sane {s} (h1\<lparr>h_surfaces := (h_surfaces h)(s \<mapsto> y)\<rparr>) K {#}"
      using L by (simp add: sane_def owned_def h1_def y_def hide_upd)
    moreover have "commit_map s p h = h1\<lparr>h_surfaces := (h_surfaces h)(s \<mapsto> y)\<rparr>"
      using Some v x by (simp add: commit_map_def upd_surface_def upd_buffer_def h1_def y_def)
    ultimately show ?thesis
      using Some v by (auto simp: h1_def y_def intro!: exI [of _ y])
  qed
  then show "sane {s} (commit_map s p h) K {#}"
    "h_deferred (commit_map s p h) = h_deferred h" "sids (commit_map s p h) = sids h"
    "deferred_next_of (commit_map s p h) = deferred_next_of h"
    "\<exists>y. h_surfaces (commit_map s p h) = (h_surfaces h)(s \<mapsto> y) \<and> s_current y = p \<and>
       s_children y = s_children x \<and> s_parent y = s_parent x \<and> s_subsurface y = s_subsurface x" by blast+
qed

section \<open>Fences and release objects in a commit\<close>

lemma wait_sane:
  assumes S: "sane X h K E" and v: "h_buffers h b = Some v"
  shows "sane X (trierarch_explicit_sync_wait b h) K E"
    "quiet b h (trierarch_explicit_sync_wait b h)"
    "deferred_next_of (trierarch_explicit_sync_wait b h) = deferred_next_of h"
    "h_buffers (trierarch_explicit_sync_wait b h) b =
       Some (v\<lparr>b_acquire_fence_fd := (if b_acquire_fence_fd v < 0 then b_acquire_fence_fd v else -1)\<rparr>)"
proof -
  define h1 where "h1 = close_fd (b_acquire_fence_fd v) (if b_server v
      then upd_diag (dg_acquire_fence_waits_update (\<lambda>n. n + 1)) h else h)"
  have S1: "sane X h1 K E" "h_buffers h1 = h_buffers h" "quiet b h h1"
    using S by (simp_all add: h1_def)
  define h2 where "h2 = h1\<lparr>h_buffers := (h_buffers h1)(b \<mapsto> v\<lparr>b_acquire_fence_fd := -1\<rparr>)\<rparr>"
  have v1: "h_buffers h1 b = Some v" using v S1(2) by simp
  have "sane X h2 K E" unfolding h2_def by (rule sane_buffer_same [OF S1(1) v1]) simp_all
  moreover have "quiet b h h2" using S1(3) by (simp add: quiet_def h2_def)
  ultimately have S2: "sane X h2 K E" "quiet b h h2" by simp_all
  have eq: "trierarch_explicit_sync_wait b h = (if b_acquire_fence_fd v < 0 then h
      else if h_poll_result h \<le> 0 \<and> b_server v
      then upd_diag (dg_acquire_fence_failures_update (\<lambda>n. n + 1)) h2 else h2)"
    using v S1(2) by (auto simp: trierarch_explicit_sync_wait_def Let_def upd_buffer_def h1_def h2_def)
  have neg: "v = v\<lparr>b_acquire_fence_fd := b_acquire_fence_fd v\<rparr>" by simp
  show "sane X (trierarch_explicit_sync_wait b h) K E"
    "quiet b h (trierarch_explicit_sync_wait b h)"
    "deferred_next_of (trierarch_explicit_sync_wait b h) = deferred_next_of h"
    "h_buffers (trierarch_explicit_sync_wait b h) b =
       Some (v\<lparr>b_acquire_fence_fd := (if b_acquire_fence_fd v < 0 then b_acquire_fence_fd v else -1)\<rparr>)"
    unfolding eq using S S2 v by (simp_all add: h2_def S1(2))
qed

lemma bound_adopt:
  assumes B: "bound B br sr" and "sr s = Some r" "br b = None" "B r = Some bd"
  shows "bound (B(r \<mapsto> bd\<lparr>rb_surface := None, rb_buffer := Some b\<rparr>)) (br(b \<mapsto> r)) (sr(s := None))"
proof -
  have 1: "br c = Some q \<longleftrightarrow> fld B rb_buffer q = Some c" for c q using B by (simp add: bound_def)
  have 2: "sr t = Some q \<longleftrightarrow> fld B rb_surface q = Some t" for t q using B by (simp add: bound_def)
  have 3: "fld B rb_buffer q = None \<or> fld B rb_surface q = None" for q using B by (simp add: bound_def)
  have r: "fld B rb_surface r = Some s" "fld B rb_buffer r = None"
    using assms(2) 2 [of s r] 3 [of r] by auto
  have nb: "fld B rb_buffer q \<noteq> Some b" for q using assms(3) 1 [of b q] by simp
  have "(br(b \<mapsto> r)) c = Some q \<longleftrightarrow> ((fld B rb_buffer)(r \<mapsto> b)) q = Some c" for c q
    using 1 [of c q] r(2) nb [of q] by (cases "q = r"; cases "c = b") auto
  moreover have "(sr(s := None)) t = Some q \<longleftrightarrow> ((fld B rb_surface)(r := None)) q = Some t" for t q
    using 2 [of t q] r(1) 2 [of s q] assms(2) by (cases "q = r"; cases "t = s") auto
  moreover have "((fld B rb_buffer)(r \<mapsto> b)) q = None \<or> ((fld B rb_surface)(r := None)) q = None" for q
    using 3 [of q] by simp
  ultimately show ?thesis unfolding bound_def by (simp del: fun_upd_apply)
qed

definition adopt :: "sid \<Rightarrow> compositor_surface \<Rightarrow> bid \<Rightarrow> host \<Rightarrow> host" where
  "adopt s x b h = upd_surface s (s_pending_explicit_release_update (\<lambda>_. None))
     (trierarch_explicit_sync_adopt_release (s_pending_explicit_release x) (Some b)
       (upd_buffer b (b_explicit_release_update (\<lambda>_. s_pending_explicit_release x)) h))"

lemma adopt_sane:
  assumes S: "sane X h K E" and x: "h_surfaces h s = Some x"
    and v: "h_buffers h b = Some v" "b_explicit_release v = None"
  shows "sane X (adopt s x b h) K E" "h_deferred (adopt s x b h) = h_deferred h"
    "sids (adopt s x b h) = sids h" "deferred_next_of (adopt s x b h) = deferred_next_of h"
    "h_surfaces (adopt s x b h) = (h_surfaces h)(s \<mapsto> x\<lparr>s_pending_explicit_release := None\<rparr>)"
proof -
  define y where "y = x\<lparr>s_pending_explicit_release := None\<rparr>"
  have "sane X (adopt s x b h) K E \<and> h_deferred (adopt s x b h) = h_deferred h \<and>
    sids (adopt s x b h) = sids h \<and> deferred_next_of (adopt s x b h) = deferred_next_of h \<and>
    h_surfaces (adopt s x b h) = (h_surfaces h)(s \<mapsto> y)"
  proof (cases "s_pending_explicit_release x")
    case None
    have "y = x" using None by (cases x) (simp add: y_def)
    moreover have "v\<lparr>b_explicit_release := None\<rparr> = v" using v(2) by (cases v) simp
    ultimately have "adopt s x b h = h"
      using None v x
      by (cases h) (simp add: adopt_def trierarch_explicit_sync_adopt_release_def upd_buffer_def
          upd_surface_def y_def fun_upd_idem)
    with S x \<open>y = x\<close> show ?thesis by (simp add: fun_upd_idem)
  next
    case (Some r)
    have B: "bound (h_bindings h) (buf_release h) (surf_release h)" using S by (simp add: sane_def side_ok_def)
    have sr: "surf_release h s = Some r" using x Some by simp
    obtain bd where bd: "h_bindings h r = Some bd" using bound_surface [OF B sr] by blast
    define h1 where "h1 = h\<lparr>h_buffers := (h_buffers h)(b \<mapsto> v\<lparr>b_explicit_release := Some r\<rparr>),
      h_bindings := (h_bindings h)(r \<mapsto> bd\<lparr>rb_surface := None, rb_buffer := Some b\<rparr>),
      h_surfaces := (h_surfaces h)(s \<mapsto> y)\<rparr>"
    have eq: "adopt s x b h = h1"
      using Some v x bd
      by (cases h) (simp add: adopt_def trierarch_explicit_sync_adopt_release_def upd_buffer_def
          upd_surface_def y_def h1_def)
    have "bound (h_bindings h1) (buf_release h1) (surf_release h1)"
      using bound_adopt [OF B sr _ bd, of b] v by (simp add: h1_def y_def)
    moreover have "set (sids h1) = dom (h_surfaces h1)" "\<not> h_fault h1"
      "pooled (h_pools h1) (pool_of h1)" "cached (sv_egl_buffers (h_server h1)) (linked_of h1)"
      using S x v by (auto simp: h1_def sane_def side_ok_def link_mark_def)
    moreover have "current_of h1 = current_of h" "pending_of h1 = pending_of h" "sids h1 = sids h"
      "account_of h1 = account_of h"
      using x v by (simp_all add: h1_def y_def)
    ultimately have "sane X h1 K E" using S unfolding sane_def owned_def side_ok_def by simp
    with v x show ?thesis unfolding eq by (simp add: h1_def)
  qed
  then show "sane X (adopt s x b h) K E" "h_deferred (adopt s x b h) = h_deferred h"
    "sids (adopt s x b h) = sids h" "deferred_next_of (adopt s x b h) = deferred_next_of h"
    "h_surfaces (adopt s x b h) = (h_surfaces h)(s \<mapsto> x\<lparr>s_pending_explicit_release := None\<rparr>)"
    by (simp_all add: y_def)
qed

lemma drop_buffer_release_sane:
  assumes S: "sane X h K E" and v: "h_buffers h b = Some v"
  defines "h' \<equiv> (case b_explicit_release v of None \<Rightarrow> h | Some r \<Rightarrow> destroy_release r h)"
  shows "sane X h' K E" "quiet b h h'" "deferred_next_of h' = deferred_next_of h"
    "h_buffers h' b = Some (v\<lparr>b_explicit_release := None\<rparr>)"
proof -
  have S': "side_ok h" using S by (simp add: sane_def)
  have "(case b_explicit_release v of None \<Rightarrow> v = v\<lparr>b_explicit_release := None\<rparr> | _ \<Rightarrow> True)"
    by (cases v) (simp split: option.splits)
  then show "sane X h' K E" "quiet b h h'" "deferred_next_of h' = deferred_next_of h"
    "h_buffers h' b = Some (v\<lparr>b_explicit_release := None\<rparr>)"
    unfolding h'_def
    using S v sane_without_release [OF S v] destroy_release_buffer(1) [OF S' v]
    by (auto split: option.splits)
qed

lemma commit_sync_sane:
  assumes S: "sane X h K E" and x: "h_surfaces h s = Some x" and v: "h_buffers h b = Some v"
  shows "sane X (commit_sync s b h) K E" "h_deferred (commit_sync s b h) = h_deferred h"
    "sids (commit_sync s b h) = sids h"
    "deferred_next_of (commit_sync s b h) = deferred_next_of h"
    "h_surfaces (commit_sync s b h) = (h_surfaces h)(s \<mapsto> x\<lparr>s_acquire_fence_fd := -1,
       s_pending_explicit_release := None\<rparr>)"
proof -
  define v1 where "v1 = v\<lparr>b_acquire_fence_fd := s_acquire_fence_fd x\<rparr>"
  define x1 where "x1 = x\<lparr>s_acquire_fence_fd := -1\<rparr>"
  define h1 where "h1 = h\<lparr>h_buffers := (h_buffers h)(b \<mapsto> v1), h_surfaces := (h_surfaces h)(s \<mapsto> x1)\<rparr>"
  have "sane X (h\<lparr>h_buffers := (h_buffers h)(b \<mapsto> v1)\<rparr>) K E"
    using v by (intro sane_buffer_same [OF S]) (simp_all add: v1_def)
  moreover have "calm (h\<lparr>h_buffers := (h_buffers h)(b \<mapsto> v1)\<rparr>) h1"
    using x by (auto simp: calm_def h1_def x1_def)
  ultimately have S1: "sane X h1 K E" by (simp add: calm_sane)
  have h1: "h_buffers h1 b = Some v1" "h_surfaces h1 s = Some x1" by (simp_all add: h1_def)
  have n1: "deferred_next_of h1 = deferred_next_of h" using v by (simp add: h1_def v1_def)
  define h2 where "h2 = trierarch_explicit_sync_wait b h1"
  note w = wait_sane [OF S1 h1(1), folded h2_def]
  obtain v2 where v2: "h_buffers h2 b = Some v2" using w(4) by blast
  define h3 where "h3 = (case b_explicit_release v2 of None \<Rightarrow> h2 | Some r \<Rightarrow> destroy_release r h2)"
  note d = drop_buffer_release_sane [OF w(1) v2, folded h3_def]
  have x3: "h_surfaces h3 s = Some x1" "h_surfaces h3 = h_surfaces h1"
    using quietD(1) [OF w(2)] quietD(1) [OF d(2)] h1 by simp_all
  note a = adopt_sane [OF d(1) x3(1) d(4)]
  have e1: "upd_surface s (s_acquire_fence_fd_update (\<lambda>_. -1))
      (upd_buffer b (b_acquire_fence_fd_update (\<lambda>_. s_acquire_fence_fd x)) h) = h1"
    using x v by (simp add: upd_buffer_def upd_surface_def h1_def x1_def v1_def)
  have eq: "commit_sync s b h = adopt s x1 b h3"
    using x v2 by (cases "b_explicit_release v2")
      (simp_all add: commit_sync_def Let_def e1 h2_def [symmetric] h3_def adopt_def x1_def)
  show "sane X (commit_sync s b h) K E" "h_deferred (commit_sync s b h) = h_deferred h"
    "sids (commit_sync s b h) = sids h"
    "deferred_next_of (commit_sync s b h) = deferred_next_of h"
    "h_surfaces (commit_sync s b h) = (h_surfaces h)(s \<mapsto> x\<lparr>s_acquire_fence_fd := -1,
       s_pending_explicit_release := None\<rparr>)"
    unfolding eq using a d w n1 x3(2) quietD [OF w(2)] quietD [OF d(2)]
    by (simp_all add: h1_def x1_def)
qed

lemma commit_drop_sync_sane:
  assumes S: "sane X h K E" and x: "h_surfaces h s = Some x"
  shows "sane X (commit_drop_sync s h) K E" "h_deferred (commit_drop_sync s h) = h_deferred h"
    "sids (commit_drop_sync s h) = sids h"
    "deferred_next_of (commit_drop_sync s h) = deferred_next_of h"
    "h_surfaces (commit_drop_sync s h) = (h_surfaces h)(s \<mapsto> x\<lparr>s_acquire_fence_fd := -1,
       s_pending_explicit_release := None\<rparr>)"
proof -
  define x1 where "x1 = x\<lparr>s_acquire_fence_fd := -1\<rparr>"
  define h0 where "h0 = (if 0 \<le> s_acquire_fence_fd x then close_fd (s_acquire_fence_fd x) h else h)"
  have h0: "h_surfaces h0 = h_surfaces h" "calm h h0" by (simp_all add: h0_def)
  define h2 where "h2 = upd_surface s (s_acquire_fence_fd_update (\<lambda>_. -1)) h0"
  have c: "calm h h2" unfolding h2_def using h0 x by (intro calm_upd_surface_trans) simp_all
  have S2: "sane X h2 K E" using c S by (simp add: calm_sane)
  have h2: "h_surfaces h2 = (h_surfaces h)(s \<mapsto> x1)" "h_surfaces h2 s = Some x1"
    using x h0(1) by (auto simp: h2_def x1_def fun_eq_iff)
  have eq: "commit_drop_sync s h = upd_surface s (s_pending_explicit_release_update (\<lambda>_. None))
      (case s_pending_explicit_release x1 of None \<Rightarrow> h2 | Some r \<Rightarrow> destroy_release r h2)"
    using x by (cases "s_pending_explicit_release x")
      (simp_all add: commit_drop_sync_def Let_def h2_def h0_def x1_def)
  have c': "h_deferred h2 = h_deferred h" "sids h2 = sids h" "deferred_next_of h2 = deferred_next_of h"
    using c by (simp_all add: calm_def)
  have "sane X (commit_drop_sync s h) K E \<and> h_deferred (commit_drop_sync s h) = h_deferred h \<and>
    sids (commit_drop_sync s h) = sids h \<and>
    deferred_next_of (commit_drop_sync s h) = deferred_next_of h \<and>
    h_surfaces (commit_drop_sync s h) = (h_surfaces h)(s \<mapsto> x1\<lparr>s_pending_explicit_release := None\<rparr>)"
  proof (cases "s_pending_explicit_release x1")
    case None
    have x1: "x1\<lparr>s_pending_explicit_release := None\<rparr> = x1" using None by (cases x1) simp
    have e: "commit_drop_sync s h = h2"
      unfolding eq using None h2(2) x1 by (cases h2) (simp add: upd_surface_def fun_upd_idem)
    show ?thesis unfolding e x1 using S2 c' h2(1) by simp
  next
    case (Some r)
    have e: "commit_drop_sync s h = emit (Destroyed r) (without_pending_release s x1 r h2)"
      unfolding eq using Some destroy_release_surface [OF _ h2(2) Some] S2
      by (simp add: sane_def without_pending_release_def upd_surface_def access_defs)
    show ?thesis
      unfolding e using sane_without_pending_release [OF S2 h2(2) Some] c' h2(1) by simp
  qed
  then show "sane X (commit_drop_sync s h) K E" "h_deferred (commit_drop_sync s h) = h_deferred h"
    "sids (commit_drop_sync s h) = sids h"
    "deferred_next_of (commit_drop_sync s h) = deferred_next_of h"
    "h_surfaces (commit_drop_sync s h) = (h_surfaces h)(s \<mapsto> x\<lparr>s_acquire_fence_fd := -1,
       s_pending_explicit_release := None\<rparr>)"
    by (simp_all add: x1_def)
qed

section \<open>The whole commit\<close>

text \<open>The list a commit leaves: the replaced buffer in front.\<close>

definition pushed :: "bid option \<Rightarrow> bid list \<Rightarrow> bid list" where
  "pushed p w = (case p of None \<Rightarrow> w | Some b \<Rightarrow> b # trunc b w)"

text \<open>An operation on surface \<open>s\<close> that leaves the tree alone.\<close>

definition on_surface :: "sid \<Rightarrow> host \<Rightarrow> host \<Rightarrow> bool" where
  "on_surface s h h' \<longleftrightarrow> sids h' = sids h \<and>
     (\<forall>t. t \<noteq> s \<longrightarrow> h_surfaces h' t = h_surfaces h t) \<and>
     map_option s_parent (h_surfaces h' s) = map_option s_parent (h_surfaces h s) \<and>
     map_option s_subsurface (h_surfaces h' s) = map_option s_subsurface (h_surfaces h s) \<and>
     map_option s_children (h_surfaces h' s) = map_option s_children (h_surfaces h s)"

lemma on_surface_refl [simp]: "on_surface s h h"
  by (simp add: on_surface_def)

lemma on_surface_trans [trans]: "on_surface s h h' \<Longrightarrow> on_surface s h' h'' \<Longrightarrow> on_surface s h h''"
  by (simp add: on_surface_def)

lemma on_surface_upd:
  "sids h' = sids h \<Longrightarrow> h_surfaces h s = Some x \<Longrightarrow> h_surfaces h' = (h_surfaces h)(s \<mapsto> y) \<Longrightarrow>
    s_parent y = s_parent x \<Longrightarrow> s_subsurface y = s_subsurface x \<Longrightarrow>
    s_children y = s_children x \<Longrightarrow> on_surface s h h'"
  by (simp add: on_surface_def)

lemma commit_replace_sane:
  assumes S: "sane {s} h K (opt_mset p)" and D: "deferred_ok h K w" and x: "h_surfaces h s = Some x"
  shows "\<exists>y. sane {s} (commit_replace s p h) (opt_mset (s_current x) + K) {#} \<and>
    deferred_ok (commit_replace s p h) (opt_mset (s_current x) + K) (pushed (s_current x) w) \<and>
    h_surfaces (commit_replace s p h) s = Some y \<and> s_current y = p \<and>
    on_surface s h (commit_replace s p h)"
proof -
  define h1 where "h1 = upd_surface s (\<lambda>x. x\<lparr>s_perf := (s_perf x)\<lparr>sp_buffer_replacements :=
     sp_buffer_replacements (s_perf x) + 1\<rparr>\<rparr>) h"
  obtain x1 where x1: "h_surfaces h1 s = Some x1" "s_current x1 = s_current x"
      "h_surfaces h1 = (h_surfaces h)(s \<mapsto> x1)" "s_parent x1 = s_parent x" "s_children x1 = s_children x"
      "s_subsurface x1 = s_subsurface x"
    using x by (auto simp: h1_def fun_eq_iff upd_surface_def)
  have c1: "calm h h1" unfolding h1_def using x by (intro calm_upd_surface) simp_all
  have o1: "on_surface s h h1" using c1 x1 by (intro on_surface_upd [OF _ x x1(3)]) (simp_all add: calm_def)
  have S1: "sane {s} h1 K (opt_mset p)" "deferred_ok h1 K w"
    using S D c1 by (simp_all add: calm_sane calm_deferred)
  let ?K = "opt_mset (s_current x) + K"
  define h2 where "h2 = commit_drop_current s h1"
  have d: "sane {s} h2 ?K (opt_mset p)" "deferred_ok h2 ?K (pushed (s_current x) w)"
    "h_surfaces h2 = (h_surfaces h1)(s \<mapsto> x1\<lparr>s_current := None\<rparr>)" "sids h2 = sids h1"
    using commit_drop_current_sane [OF S1 x1(1)] x1(2) by (simp_all add: h2_def pushed_def)
  have o2: "on_surface s h1 h2" using d(4) by (intro on_surface_upd [OF _ x1(1) d(3)]) simp_all
  have x2: "h_surfaces h2 s = Some (x1\<lparr>s_current := None\<rparr>)" using d(3) by simp
  define h3 where "h3 = (case p of Some b \<Rightarrow> commit_sync s b h2 | None \<Rightarrow> commit_drop_sync s h2)"
  have e: "sane {s} h3 ?K (opt_mset p) \<and> h_deferred h3 = h_deferred h2 \<and> sids h3 = sids h2 \<and>
    deferred_next_of h3 = deferred_next_of h2 \<and>
    h_surfaces h3 = (h_surfaces h2)(s \<mapsto> x1\<lparr>s_current := None, s_acquire_fence_fd := -1,
       s_pending_explicit_release := None\<rparr>)"
  proof (cases p)
    case None
    with commit_drop_sync_sane [OF d(1) x2] show ?thesis by (simp add: h3_def)
  next
    case (Some b)
    then obtain v where "h_buffers h2 b = Some v" using sane_live [OF d(1), of b] by auto
    with commit_sync_sane [OF d(1) x2] Some show ?thesis by (simp add: h3_def)
  qed
  define x3 where "x3 = x1\<lparr>s_current := None, s_acquire_fence_fd := -1, s_pending_explicit_release := None\<rparr>"
  have e5: "h_surfaces h3 = (h_surfaces h2)(s \<mapsto> x3)" using e by (simp add: x3_def)
  have o3: "on_surface s h2 h3" using e by (intro on_surface_upd [OF _ x2 e5]) (simp_all add: x3_def)
  have x3: "h_surfaces h3 s = Some x3" "s_current x3 = None" using e by (simp_all add: x3_def)
  note m = commit_map_sane [OF conjunct1 [OF e] x3]
  define h4 where "h4 = commit_map s p h3"
  obtain y where y: "h_surfaces h4 = (h_surfaces h3)(s \<mapsto> y)" "s_current y = p"
      "s_children y = s_children x3" "s_parent y = s_parent x3"
      "s_subsurface y = s_subsurface x3"
    using m(5) unfolding h4_def by blast
  have o4: "on_surface s h3 h4" using y m(3) by (intro on_surface_upd [OF _ x3(1) y(1)]) (simp_all add: h4_def)
  define h5 where "h5 = upd_perf (pf_surface_commit_generation_update (\<lambda>n. n + 1))
     (upd_surface s (s_damaged_update (\<lambda>_. True)) h4)"
  have y5: "h_surfaces h5 s = Some (y\<lparr>s_damaged := True\<rparr>)" by (simp add: h5_def y)
  have c5: "calm h4 h5" unfolding h5_def calm_emit using y(1) by (intro calm_upd_surface) simp_all
  have o5: "on_surface s h4 h5"
    using c5 y(1) by (auto simp: on_surface_def h5_def calm_def)
  have eq: "commit_replace s p h = trierarch_output_enter_surface (s_wl_surface y) h5"
    using y5 unfolding commit_replace_def h1_def [symmetric] h2_def [symmetric] h3_def [symmetric]
      h4_def [symmetric] h5_def [symmetric] Let_def by simp
  have c6: "calm h4 (commit_replace s p h)"
    unfolding eq trierarch_output_enter_surface_def calm_emit by (rule c5)
  have o6: "on_surface s h5 (commit_replace s p h)" "h_surfaces (commit_replace s p h) s = h_surfaces h5 s"
    unfolding eq by (simp_all add: on_surface_def trierarch_output_enter_surface_def access_defs)
  have D4: "deferred_ok h4 ?K (pushed (s_current x) w)"
    using d(2) e m(2,4) unfolding deferred_ok_def h4_def by simp
  have "on_surface s h (commit_replace s p h)"
    using o1 o2 o3 o4 o5 o6(1) by (meson on_surface_trans)
  then show ?thesis
    using m(1) D4 y5 y(2) o6 by (simp add: calm_sane [OF c6] calm_deferred [OF c6] h4_def [symmetric])
qed

end
