(* ===== verification/Surface_Ops.thy ===== *)
theory Surface_Ops
  imports Surface_Safety
begin

text \<open>
  Attach, commit and destruction of a surface as whole operations on the invariant.
\<close>

section \<open>Commit\<close>

text \<open>
  The effect of a commit on the deferred entries: a buffer that is replaced is added to
  the list, in front of the entries that its earlier occurrence does not cut off.
\<close>

definition replaced :: "compositor_surface \<Rightarrow> bid option" where
  "replaced x = (if (s_pending x \<noteq> None \<or> s_pending_detach x) \<and> s_pending x \<noteq> s_current x
     then s_current x else None)"

lemma pushed_None [simp]: "pushed None w = w"
  by (simp add: pushed_def)

lemma unref_next_same:
  assumes "sane X h K (add_mset b E)" "h_buffers (trierarch_buffer_unref (Some b) h) b \<noteq> None"
  shows "deferred_next_of (trierarch_buffer_unref (Some b) h) = deferred_next_of h"
proof (rule ext)
  fix c
  note u = buffer_unref_sane [OF assms(1)]
  show "deferred_next_of (trierarch_buffer_unref (Some b) h) c = deferred_next_of h c"
  proof (cases "c = b")
    case True
    with u(4) [of b] assms(2) show ?thesis by simp
  next
    case False
    then show ?thesis unfolding u(3) by simp
  qed
qed

lemma commit_unchanged_sane:
  assumes S: "sane {} h K {#}" and x: "h_surfaces h s = Some x" "s_pending x = s_current x"
  defines "h' \<equiv> upd_surface s (\<lambda>x. x\<lparr>s_pending := None, s_pending_detach := False\<rparr>)
     (trierarch_buffer_unref (s_pending x) h)"
  shows "sane {} h' K {#}" "h_deferred h' = h_deferred h" "sids h' = sids h"
    "deferred_next_of h' = deferred_next_of h"
    "h_surfaces h' = (h_surfaces h)(s \<mapsto> x\<lparr>s_pending := None, s_pending_detach := False\<rparr>)"
proof -
  define y where "y = x\<lparr>s_pending := None, s_pending_detach := False\<rparr>"
  have S1: "sane {s} h K (opt_mset (s_pending x))" by (rule sane_begin_commit [OF S x(1)])
  have "sane {} h' K {#} \<and> h_deferred h' = h_deferred h \<and> sids h' = sids h \<and>
    deferred_next_of h' = deferred_next_of h \<and> h_surfaces h' = (h_surfaces h)(s \<mapsto> y)"
  proof (cases "s_pending x")
    case None
    have "h' = h\<lparr>h_surfaces := (h_surfaces h)(s \<mapsto> y)\<rparr>"
      using None x by (simp add: h'_def trierarch_buffer_unref_def upd_surface_def y_def)
    moreover have "sane {} (h\<lparr>h_surfaces := (h_surfaces h)(s \<mapsto> y)\<rparr>) K {#}"
      using S1 None x by (intro sane_end_commit) (simp_all add: y_def)
    ultimately show ?thesis by simp
  next
    case (Some b)
    have S2: "sane {s} h K (add_mset b {#})" using S1 Some by simp
    note u = buffer_unref_sane [OF S2]
    have "current_of h s = Some b" using x Some by simp
    then have "h_buffers (trierarch_buffer_unref (Some b) h) b \<noteq> None"
      using sane_live [OF u(1), of b] sane_live_surface [OF S x(1)] quietD(1,2) [OF u(2)] by auto
    then have n: "deferred_next_of (trierarch_buffer_unref (Some b) h) = deferred_next_of h"
      by (rule unref_next_same [OF S2])
    have x': "h_surfaces (trierarch_buffer_unref (Some b) h) s = Some x"
      using quietD(1) [OF u(2)] x(1) by simp
    have "h' = (trierarch_buffer_unref (Some b) h)\<lparr>h_surfaces :=
        (h_surfaces (trierarch_buffer_unref (Some b) h))(s \<mapsto> y)\<rparr>"
      using Some x' by (simp add: h'_def upd_surface_def y_def)
    moreover have "sane {} ((trierarch_buffer_unref (Some b) h)\<lparr>h_surfaces :=
        (h_surfaces (trierarch_buffer_unref (Some b) h))(s \<mapsto> y)\<rparr>) K {#}"
      using u(1) x' by (intro sane_end_commit) (simp_all add: y_def)
    ultimately show ?thesis using n quietD [OF u(2)] by simp
  qed
  then show "sane {} h' K {#}" "h_deferred h' = h_deferred h" "sids h' = sids h"
    "deferred_next_of h' = deferred_next_of h"
    "h_surfaces h' = (h_surfaces h)(s \<mapsto> x\<lparr>s_pending := None, s_pending_detach := False\<rparr>)"
    by (simp_all add: y_def)
qed

lemma commit_buffer_sane:
  assumes S: "sane {} h K {#}" and D: "deferred_ok h K w" and x: "h_surfaces h s = Some x"
  shows "sane {} (commit_buffer s h) (opt_mset (replaced x) + K) {#} \<and>
    deferred_ok (commit_buffer s h) (opt_mset (replaced x) + K) (pushed (replaced x) w) \<and>
    on_surface s h (commit_buffer s h) \<and>
    (\<exists>y. h_surfaces (commit_buffer s h) s = Some y \<and> s_pending y = None \<and>
      s_current y = (if s_pending x \<noteq> None \<or> s_pending_detach x then s_pending x else s_current x))"
proof -
  let ?clear = "\<lambda>x. x\<lparr>s_pending := None, s_pending_detach := False\<rparr>"
  consider (idle) "s_pending x = None" "\<not> s_pending_detach x"
    | (same) "s_pending x \<noteq> None \<or> s_pending_detach x" "s_pending x = s_current x"
    | (new) "s_pending x \<noteq> None \<or> s_pending_detach x" "s_pending x \<noteq> s_current x" by blast
  then show ?thesis
  proof cases
    case idle
    with S D x show ?thesis by (simp add: commit_buffer_def replaced_def)
  next
    case same
    note c = commit_unchanged_sane [OF S x same(2)]
    have eq: "commit_buffer s h = upd_surface s ?clear (trierarch_buffer_unref (s_pending x) h)"
      using x same by (auto simp: commit_buffer_def Let_def)
    have "on_surface s h (commit_buffer s h)"
      unfolding eq by (rule on_surface_upd [OF c(3) x c(5)]) simp_all
    then show ?thesis
      using c D same unfolding eq by (simp add: replaced_def deferred_ok_def)
  next
    case new
    let ?h = "commit_replace s (s_pending x) h"
    obtain y where r: "sane {s} ?h (opt_mset (s_current x) + K) {#}"
      "deferred_ok ?h (opt_mset (s_current x) + K) (pushed (s_current x) w)"
      "h_surfaces ?h s = Some y" "s_current y = s_pending x" "on_surface s h ?h"
      using commit_replace_sane [OF sane_begin_commit [OF S x] D x] by blast
    have eq: "commit_buffer s h = ?h\<lparr>h_surfaces := (h_surfaces ?h)(s \<mapsto> ?clear y)\<rparr>"
      using x new r(3) by (auto simp: commit_buffer_def Let_def upd_surface_def)
    have "sane {} (commit_buffer s h) (opt_mset (s_current x) + K) {#}"
      unfolding eq by (rule sane_end_commit [OF r(1,3)]) simp_all
    moreover have "on_surface s ?h (commit_buffer s h)"
      unfolding eq by (rule on_surface_upd [OF _ r(3), of _ "?clear y"]) simp_all
    then have "on_surface s h (commit_buffer s h)" using r(5) on_surface_trans by blast
    moreover have "replaced x = s_current x" using new by (simp add: replaced_def)
    ultimately show ?thesis
      using r(2,4) new unfolding eq by (simp add: deferred_ok_def)
  qed
qed

lemma on_surface_commit_callbacks:
  "h_surfaces h s \<noteq> None \<Longrightarrow> on_surface s h (snd (commit_callbacks s h))"
  by (auto simp: commit_callbacks_def Let_def on_surface_def upd_surface_def access_defs)

lemma on_surface_layer_commit:
  "h_surfaces h s \<noteq> None \<Longrightarrow> on_surface s h (trierarch_layer_surface_commit s h)"
  by (auto simp: trierarch_layer_surface_commit_def Let_def on_surface_def upd_layer_def
      upd_surface_def access_defs split: option.splits prod.splits)

lemma on_surface_commit_configure:
  assumes "h_surfaces h s \<noteq> None"
  shows "on_surface s h (commit_configure s h)"
proof -
  have "on_surface s h (trierarch_surface_send_configure s h)"
    using calm_send_configure [OF assms] by (simp add: on_surface_def calm_def)
  then show ?thesis
    using assms on_surface_layer_commit [OF assms]
      on_surface_layer_commit [of "trierarch_surface_send_configure s h" s]
    by (auto simp: commit_configure_def intro: on_surface_trans)
qed

lemma commit_callbacks_fields:
  assumes "h_surfaces h s = Some x"
  shows "\<exists>y. h_surfaces (snd (commit_callbacks s h)) s = Some y \<and> s_current y = s_current x \<and>
    s_pending y = s_pending x \<and> s_pending_detach y = s_pending_detach x"
  using assms
  by (cases "s_pending_frame_callbacks x = []") (simp_all add: commit_callbacks_def Let_def)

lemma commit_sane:
  assumes S: "sane {} h K {#}" and D: "deferred_ok h K w" and x: "h_surfaces h s = Some x"
  shows "sane {} (trierarch_surface_commit s h) (opt_mset (replaced x) + K) {#} \<and>
    deferred_ok (trierarch_surface_commit s h) (opt_mset (replaced x) + K) (pushed (replaced x) w) \<and>
    on_surface s h (trierarch_surface_commit s h) \<and>
    pending_of (trierarch_surface_commit s h) s = None \<and>
    current_of (trierarch_surface_commit s h) s =
      (if s_pending x \<noteq> None \<or> s_pending_detach x then s_pending x else s_current x)"
proof -
  obtain cb h1 where h1: "commit_callbacks s h = (cb, h1)" by (cases "commit_callbacks s h")
  obtain x1 where x1: "h_surfaces h1 s = Some x1" "s_current x1 = s_current x"
      "s_pending x1 = s_pending x" "s_pending_detach x1 = s_pending_detach x"
    using commit_callbacks_fields [OF x] h1 by auto
  have c1: "calm h h1" "on_surface s h h1"
    using calm_commit_callbacks [of h s] on_surface_commit_callbacks [of h s] x h1 by simp_all
  have r: "replaced x1 = replaced x" using x1 by (simp add: replaced_def)
  define h2 where "h2 = commit_buffer s h1"
  obtain y where b: "sane {} h2 (opt_mset (replaced x) + K) {#}"
    "deferred_ok h2 (opt_mset (replaced x) + K) (pushed (replaced x) w)" "on_surface s h1 h2"
    "h_surfaces h2 s = Some y" "s_pending y = None"
    "s_current y = (if s_pending x \<noteq> None \<or> s_pending_detach x then s_pending x else s_current x)"
    using commit_buffer_sane [of h1 K w s x1] S D x1 c1(1) r
    by (auto simp: calm_sane calm_deferred h2_def)
  define h3 where "h3 = commit_configure s h2"
  have c3: "calm h2 h3" "on_surface s h2 h3"
    using calm_commit_configure [of h2 s] on_surface_commit_configure [of h2 s] b(4)
    by (simp_all add: h3_def)
  define h4 where "h4 = commit_present s h3"
  have S3: "sane {} h3 (opt_mset (replaced x) + K) {#}" using b(1) c3(1) by (simp add: calm_sane)
  have s3: "s \<in> set (sids h3)"
    using sane_live_surface [OF b(1,4)] c3(1) by (simp add: calm_def)
  have live: "h_buffers h3 c \<noteq> None" if "current_of h3 s = Some c" for c
    using sane_live [OF S3, of c] that s3 by auto
  have c4: "calm h3 h4" "on_surface s h3 h4" "h_surfaces h4 = h_surfaces h3"
    using live by (auto simp: h4_def commit_present_def on_surface_def split: option.splits)
  have c: "calm h2 h4" using calm_trans [OF c3(1) c4(1)] .
  obtain z where z: "h_surfaces h4 s = Some z" using calm_live [OF c, of s] b(4) by auto
  have eq: "trierarch_surface_commit s h =
      (if s_damaged z \<or> cb then trierarch_wayland_request_render h4 else h4)"
    using x h1 z by (simp add: trierarch_surface_commit_def h2_def h3_def h4_def)
  have cc: "calm h2 (trierarch_surface_commit s h)" unfolding eq using c by simp
  have "on_surface s h4 (trierarch_surface_commit s h)" unfolding eq by (simp add: on_surface_def)
  note o = on_surface_trans [OF c1(2) on_surface_trans [OF b(3)
      on_surface_trans [OF c3(2) on_surface_trans [OF c4(2) this]]]]
  have f: "pending_of (trierarch_surface_commit s h) s = pending_of h2 s"
    "current_of (trierarch_surface_commit s h) s = current_of h2 s"
    using cc by (simp_all add: calm_def)
  show ?thesis
    unfolding calm_sane [OF cc] calm_deferred [OF cc] f using b o by simp
qed

section \<open>Attach\<close>

lemma mark_attached_sane:
  assumes S: "sane X h K E" and v: "h_buffers h b = Some v"
  shows "sane X (mark_attached b h) K E" "quiet b h (mark_attached b h)"
    "deferred_next_of (mark_attached b h) = deferred_next_of h" "h_buffers (mark_attached b h) b \<noteq> None"
proof -
  define h1 where "h1 = h\<lparr>h_buffers := (h_buffers h)(b \<mapsto> v\<lparr>b_server := True, b_diag_counted := True\<rparr>)\<rparr>"
  have "sane X h1 K E" unfolding h1_def using v by (intro sane_buffer_same [OF S]) simp_all
  moreover have "quiet b h h1" "deferred_next_of h1 = deferred_next_of h"
    "h_buffers h1 b = Some (v\<lparr>b_server := True, b_diag_counted := True\<rparr>)"
    using v by (simp_all add: h1_def quiet_def)
  ultimately show "sane X (mark_attached b h) K E" "quiet b h (mark_attached b h)"
    "deferred_next_of (mark_attached b h) = deferred_next_of h" "h_buffers (mark_attached b h) b \<noteq> None"
    using v by (simp_all add: mark_attached_def Let_def upd_buffer_def h1_def)
qed

text \<open>
  The deferred list survives the freeing of a buffer that is not on it.
\<close>

lemma deferred_ok_keep:
  assumes "deferred_ok h K w" "h_deferred h' = h_deferred h"
    and "\<And>c. c \<in># K \<Longrightarrow> deferred_next_of h' c = deferred_next_of h c"
  shows "deferred_ok h' K w"
proof -
  have "c \<in># K" if "c \<in> set w" for c
    using assms(1) that mset_subset_eqD [of "mset w" K c] by (auto simp: deferred_ok_def)
  then show ?thesis
    using assms unfolding deferred_ok_def by (metis dchain_cong)
qed

lemma unref_deferred_ok:
  assumes S: "sane X h K (add_mset b E)" and D: "deferred_ok h K w"
  shows "deferred_ok (trierarch_buffer_unref (Some b) h) K w"
proof (rule deferred_ok_keep [OF D])
  note u = buffer_unref_sane [OF S]
  show "h_deferred (trierarch_buffer_unref (Some b) h) = h_deferred h" by (rule quietD(3) [OF u(2)])
  show "deferred_next_of (trierarch_buffer_unref (Some b) h) c = deferred_next_of h c"
    if "c \<in># K" for c
  proof (rule u(4))
    show "h_buffers (trierarch_buffer_unref (Some b) h) c \<noteq> None"
      using sane_live [OF u(1), of c] that by auto
  qed
qed

lemma set_pending_sane:
  assumes S: "sane {} h K {#}" and D: "deferred_ok h K w" and x: "h_surfaces h s = Some x"
    and p: "\<And>b. p = Some b \<Longrightarrow> h_buffers h b \<noteq> None"
  shows "sane {} (surface_set_pending_buffer s p h) K {#} \<and>
    deferred_ok (surface_set_pending_buffer s p h) K w \<and>
    h_surfaces (surface_set_pending_buffer s p h) = (h_surfaces h)(s \<mapsto> x\<lparr>s_pending := p\<rparr>) \<and>
    sids (surface_set_pending_buffer s p h) = sids h"
proof (cases "s_pending x = p")
  case True
  then have "(h_surfaces h)(s \<mapsto> x\<lparr>s_pending := p\<rparr>) = h_surfaces h"
    using x by (cases x) (simp add: fun_upd_idem)
  with True S D x show ?thesis by (simp add: surface_set_pending_buffer_def)
next
  case False
  define h2 where "h2 = trierarch_buffer_ref p (case p of None \<Rightarrow> h | Some b \<Rightarrow> mark_attached b h)"
  have r: "sane {} h2 K (opt_mset p) \<and> h_surfaces h2 = h_surfaces h \<and> sids h2 = sids h \<and>
      h_deferred h2 = h_deferred h \<and> deferred_next_of h2 = deferred_next_of h"
  proof (cases p)
    case None
    with S show ?thesis by (simp add: h2_def trierarch_buffer_ref_def)
  next
    case (Some b)
    obtain v where v: "h_buffers h b = Some v" using p [OF Some] by auto
    note m = mark_attached_sane [OF S v]
    obtain v' where "h_buffers (mark_attached b h) b = Some v'" using m(4) by auto
    note f = buffer_ref_sane [OF m(1) this]
    show ?thesis using Some m f quietD [OF m(2)] quietD [OF f(2)] by (simp add: h2_def)
  qed
  define h3 where "h3 = h2\<lparr>h_surfaces := (h_surfaces h)(s \<mapsto> x\<lparr>s_pending := p\<rparr>)\<rparr>"
  have "ledger (sids h2) (current_of h2) ((pending_of h2)(s := p)) (account_of h2) K
      ({#} + opt_mset (pending_of h2 s))"
  proof (rule ledger_pending)
    show "ledger (sids h2) (current_of h2) (pending_of h2) (account_of h2) K ({#} + opt_mset p)"
      using conjunct1 [OF r] by (simp add: sane_def owned_def)
    show "s \<in> set (sids h2)" using r sane_live_surface [OF S x] by simp
  qed
  then have "sane {} (h2\<lparr>h_surfaces := (h_surfaces h2)(s \<mapsto> x\<lparr>s_pending := p\<rparr>)\<rparr>) K
      (opt_mset (s_pending x))"
    using r x by (intro sane_surface [of "{}" h2 K "opt_mset p" s x]) simp_all
  then have S3: "sane {} h3 K (opt_mset (s_pending x))" using r by (simp add: h3_def)
  have D3: "deferred_ok h3 K w" using D r by (simp add: h3_def deferred_ok_def)
  have eq: "surface_set_pending_buffer s p h = trierarch_buffer_unref (s_pending x) h3"
    using x False r by (simp add: surface_set_pending_buffer_def Let_def h2_def [symmetric]
        upd_surface_def h3_def)
  show ?thesis
  proof (cases "s_pending x")
    case None
    then show ?thesis
      unfolding eq using S3 D3 r by (simp add: trierarch_buffer_unref_def h3_def)
  next
    case (Some c)
    then have S4: "sane {} h3 K (add_mset c {#})" using S3 by simp
    note u = buffer_unref_sane [OF S4]
    show ?thesis
      unfolding eq Some using u(1) quietD(1,2) [OF u(2)] unref_deferred_ok [OF S4 D3] r
      by (simp add: h3_def)
  qed
qed

end
