(* ===== verification/Surface_Destroy.thy ===== *)
theory Surface_Destroy
  imports Surface_Ops
begin

text \<open>
  The destruction of a surface on the invariant: its role objects, its place in the
  tree of subsurfaces, its buffers, callbacks, fences and release objects.
\<close>

section \<open>The tree\<close>

definition same_tree :: "host \<Rightarrow> host \<Rightarrow> bool" where
  "same_tree h h' \<longleftrightarrow> children_of h' = children_of h \<and> parent_of h' = parent_of h"

lemma same_tree_family: "same_tree h h' \<Longrightarrow> family_ok h' = family_ok h"
  by (simp add: same_tree_def family_ok_def)

lemma same_tree_surfaces: "h_surfaces h' = h_surfaces h \<Longrightarrow> same_tree h h'"
  by (simp add: same_tree_def children_of_def [abs_def])

lemma same_tree_trans: "same_tree h h' \<Longrightarrow> same_tree h' h'' \<Longrightarrow> same_tree h h''"
  by (simp add: same_tree_def)

lemma same_tree_upd_surface:
  assumes "\<And>x. s_parent (f x) = s_parent x" "\<And>x. s_children (f x) = s_children x"
  shows "same_tree h (upd_surface s f h)"
  using assms by (auto simp: same_tree_def children_of_def fun_eq_iff fld_def split: option.splits)

lemma on_surface_same_tree:
  assumes "on_surface s h h'"
  shows "same_tree h h'"
proof -
  have "children_of h' t = children_of h t \<and> parent_of h' t = parent_of h t" for t
    using assms by (cases "t = s"; cases "h_surfaces h' t"; cases "h_surfaces h t")
      (auto simp: on_surface_def children_of_def)
  then show ?thesis by (auto simp: same_tree_def fun_eq_iff)
qed

text \<open>Keeping the balance and the tree.\<close>

definition good :: "host \<Rightarrow> host \<Rightarrow> bool" where
  "good h h' \<longleftrightarrow> calm h h' \<and> (family_ok h \<longrightarrow> family_ok h')"

lemma good_refl [simp]: "good h h"
  by (simp add: good_def)

lemma good_trans [trans]: "good h h' \<Longrightarrow> good h' h'' \<Longrightarrow> good h h''"
  by (auto simp: good_def intro: calm_trans)

lemma good_tree: "calm h h' \<Longrightarrow> same_tree h h' \<Longrightarrow> good h h'"
  by (simp add: good_def same_tree_family)

lemma good_emit [simp]: "good h (emit e h') = good h h'"
  by (simp add: good_def family_ok_def children_of_def [abs_def])

lemma good_live: "good h h' \<Longrightarrow> h_surfaces h' s = None \<longleftrightarrow> h_surfaces h s = None"
  by (simp add: good_def calm_live)

lemma good_upd_surface:
  assumes "h_surfaces h s \<noteq> None"
    and "\<And>x. s_current (f x) = s_current x" "\<And>x. s_pending (f x) = s_pending x"
    "\<And>x. s_pending_explicit_release (f x) = s_pending_explicit_release x"
    "\<And>x. s_parent (f x) = s_parent x" "\<And>x. s_children (f x) = s_children x"
  shows "good h (upd_surface s f h)"
  using assms by (intro good_tree calm_upd_surface same_tree_upd_surface)

lemma good_request_render: "good h h' \<Longrightarrow> good h (trierarch_wayland_request_render h')"
  by (simp add: good_def family_ok_def children_of_def [abs_def])

section \<open>Leaving the parent\<close>

lemma unlink_tree:
  assumes F: "family_ok h" and x: "h_surfaces h s = Some x" and p: "s_parent x = Some p"
  shows "calm h (unlink_from_parent s h)"
    "parent_of (unlink_from_parent s h) = (parent_of h)(s := None)"
    "children_of (unlink_from_parent s h) = (children_of h)(p := remove1 s (children_of h p))"
proof -
  have "parent_of h s = Some p" using x p by simp
  then obtain y where y: "h_surfaces h p = Some y" using family_ok_parent_live [OF F] by blast
  have eq: "unlink_from_parent s h = upd_surface s (s_parent_update (\<lambda>_. None))
      (upd_surface p (s_children_update (remove1 s)) h)"
    using x p by (simp add: unlink_from_parent_def)
  show "calm h (unlink_from_parent s h)"
    unfolding eq using x y by (intro calm_upd_surface_trans calm_upd_surface) simp_all
  show "parent_of (unlink_from_parent s h) = (parent_of h)(s := None)"
    unfolding eq using x y by (auto simp: fld_def fun_eq_iff)
  show "children_of (unlink_from_parent s h) = (children_of h)(p := remove1 s (children_of h p))"
    unfolding eq using x y by (auto simp: children_of_def fun_eq_iff split: option.splits)
qed

lemma family_unlink:
  assumes F: "family C P" and "P s = Some p"
  shows "family (C(p := remove1 s (C p))) (P(s := None))"
  using assms unfolding family_def by (auto; metis option.inject)

lemma good_unlink:
  assumes "h_surfaces h s \<noteq> None" "family_ok h"
  shows "good h (unlink_from_parent s h)" "parent_of (unlink_from_parent s h) s = None"
proof -
  obtain x where x: "h_surfaces h s = Some x" using assms by auto
  have "good h (unlink_from_parent s h) \<and> parent_of (unlink_from_parent s h) s = None"
  proof (cases "s_parent x")
    case None
    with x show ?thesis by (simp add: unlink_from_parent_def)
  next
    case (Some p)
    note u = unlink_tree [OF assms(2) x Some]
    have "family_ok (unlink_from_parent s h)"
      unfolding family_ok_def u using assms(2) x Some by (intro family_unlink) (simp_all add: family_ok_def)
    with u show ?thesis by (simp add: good_def)
  qed
  then show "good h (unlink_from_parent s h)" "parent_of (unlink_from_parent s h) s = None" by simp_all
qed

section \<open>Role objects\<close>

lemma good_destroy_role:
  assumes "h_surfaces h s \<noteq> None" "\<And>r. good h (hook r h)"
  shows "good h (destroy_role get hook s h)"
  using assms(2) by (simp add: destroy_role_def split: option.splits)

lemma good_subsurface_destroy:
  assumes s: "h_surfaces h s \<noteq> None" and F: "family_ok h"
  shows "good h (subsurface_resource_destroy r (Some s) h)"
proof -
  have g: "good h (upd_surface s (s_subsurface_update (\<lambda>_. None)) h)"
    using s by (intro good_upd_surface) simp_all
  have "good (upd_surface s (s_subsurface_update (\<lambda>_. None)) h)
      (unlink_from_parent s (upd_surface s (s_subsurface_update (\<lambda>_. None)) h))"
    using s F g by (intro good_unlink) (auto simp: good_def)
  with s show ?thesis
    by (auto simp: subsurface_resource_destroy_def intro: good_trans [OF g])
qed

lemma good_sync_destroy:
  assumes s: "h_surfaces h s \<noteq> None"
  shows "good h (sync_resource_destroy r (Some s) h)"
proof -
  have g: "good h (upd_surface s (s_explicit_sync_update (\<lambda>_. None)) h)"
    using s by (intro good_upd_surface) simp_all
  have "good h' (close_acquire_fence s h')" if "h_surfaces h' s \<noteq> None" for h'
  proof -
    have "good h' (close_fd d h')" for d by (simp add: close_fd_def)
    moreover have "good (close_fd d h') (upd_surface s (s_acquire_fence_fd_update (\<lambda>_. -1)) (close_fd d h'))" for d
      using that by (intro good_upd_surface) simp_all
    ultimately have "good h' (upd_surface s (s_acquire_fence_fd_update (\<lambda>_. -1)) (close_fd d h'))" for d
      using good_trans by blast
    then show ?thesis using that by (auto simp: close_acquire_fence_def)
  qed
  then have "good (upd_surface s (s_explicit_sync_update (\<lambda>_. None)) h)
      (close_acquire_fence s (upd_surface s (s_explicit_sync_update (\<lambda>_. None)) h))"
    using s by simp
  with s show ?thesis by (auto simp: sync_resource_destroy_def intro: good_trans [OF g])
qed

lemma good_destroy_roles:
  assumes s: "h_surfaces h s \<noteq> None" and F: "family_ok h"
  shows "good h (destroy_roles s h)"
proof -
  define h1 where "h1 = destroy_role s_xdg_toplevel (\<lambda>_. xdg_toplevel_resource_destroy (Some s)) s h"
  define h2 where "h2 = destroy_role s_xdg_surface (\<lambda>_. xdg_surface_resource_destroy (Some s)) s h1"
  define h3 where "h3 = destroy_role s_subsurface (\<lambda>r. subsurface_resource_destroy r (Some s)) s h2"
  define h4 where "h4 = destroy_role s_viewport (\<lambda>_. viewport_resource_destroy (Some s)) s h3"
  define h5 where "h5 = destroy_role s_fractional_scale (\<lambda>_. id) s h4"
  define h6 where "h6 = destroy_role s_layer_surface (\<lambda>_. layer_surface_resource_destroy (Some s)) s h5"
  define h7 where "h7 = destroy_role s_explicit_sync (\<lambda>r. sync_resource_destroy r (Some s)) s h6"
  have 1: "good h h1"
    unfolding h1_def xdg_toplevel_resource_destroy_def
    using s by (intro good_destroy_role) (simp_all add: good_upd_surface)
  note s1 = s [folded good_live [OF 1]]
  have 2: "good h h2"
    unfolding h2_def xdg_surface_resource_destroy_def
    using s1 by (intro good_trans [OF 1] good_destroy_role) (simp_all add: good_upd_surface)
  note s2 = s [folded good_live [OF 2]]
  have 3: "good h h3"
    unfolding h3_def using s2 F 2
    by (intro good_trans [OF 2] good_destroy_role good_subsurface_destroy) (simp_all add: good_def)
  note s3 = s [folded good_live [OF 3]]
  have 4: "good h h4"
    unfolding h4_def viewport_resource_destroy_def
    using s3 by (intro good_trans [OF 3] good_destroy_role) (simp_all add: good_upd_surface)
  note s4 = s [folded good_live [OF 4]]
  have 5: "good h h5"
    unfolding h5_def using s4 by (intro good_trans [OF 4] good_destroy_role) simp_all
  note s5 = s [folded good_live [OF 5]]
  have 6: "good h h6"
    unfolding h6_def layer_surface_resource_destroy_def
    using s5 by (intro good_trans [OF 5] good_destroy_role)
      (simp_all add: good_upd_surface good_request_render)
  note s6 = s [folded good_live [OF 6]]
  have 7: "good h h7"
    unfolding h7_def using s6 by (intro good_trans [OF 6] good_destroy_role good_sync_destroy) simp_all
  note s7 = s [folded good_live [OF 7]]
  show ?thesis
    unfolding destroy_roles_def Let_def h1_def [symmetric] h2_def [symmetric] h3_def [symmetric]
      h4_def [symmetric] h5_def [symmetric] h6_def [symmetric] h7_def [symmetric]
    using s7 by (intro good_trans [OF 7] good_upd_surface) simp_all
qed

section \<open>The children\<close>

lemma fold_orphan:
  assumes "\<And>c. c \<in> set cs \<Longrightarrow> h_surfaces h c \<noteq> None"
  shows "calm h (fold orphan cs h)" "children_of (fold orphan cs h) = children_of h"
    "parent_of (fold orphan cs h) = (\<lambda>t. if t \<in> set cs then None else parent_of h t)"
proof -
  have "calm h (fold orphan cs h) \<and> children_of (fold orphan cs h) = children_of h \<and>
    parent_of (fold orphan cs h) = (\<lambda>t. if t \<in> set cs then None else parent_of h t)"
    using assms
  proof (induction cs arbitrary: h)
    case (Cons c cs)
    have c: "h_surfaces h c \<noteq> None" using Cons.prems by simp
    have 1: "calm h (orphan c h)" unfolding orphan_def using c by (intro calm_upd_surface) simp_all
    have 2: "children_of (orphan c h) = children_of h"
      by (auto simp: orphan_def children_of_def fun_eq_iff split: option.splits)
    have 3: "parent_of (orphan c h) = (parent_of h)(c := None)"
      using c by (auto simp: orphan_def fld_def fun_eq_iff)
    have "h_surfaces (orphan c h) d \<noteq> None" if "d \<in> set cs" for d
      using Cons.prems that calm_live [OF 1, of d] by simp
    note IH = Cons.IH [OF this]
    show ?case using IH 1 2 3 calm_trans [OF 1] by (auto simp: fun_eq_iff)
  qed simp
  then show "calm h (fold orphan cs h)" "children_of (fold orphan cs h) = children_of h"
    "parent_of (fold orphan cs h) = (\<lambda>t. if t \<in> set cs then None else parent_of h t)" by simp_all
qed

lemma family_orphans:
  assumes F: "family C P"
  shows "family (C(s := [])) (\<lambda>t. if t \<in> set (C s) then None else P t)"
proof -
  have 1: "P t = Some p \<longleftrightarrow> t \<in> set (C p)" for t p using F by (simp add: family_def)
  have 2: "distinct (C p)" for p using F by (simp add: family_def)
  have "(if t \<in> set (C s) then None else P t) = Some p \<longleftrightarrow> t \<in> set ((C(s := [])) p)" for t p
    using 1 [of t p] 1 [of t s] by (cases "p = s") auto
  with 2 show ?thesis unfolding family_def by simp
qed

lemma destroy_family_good:
  assumes s: "h_surfaces h s \<noteq> None" and F: "family_ok h"
  shows "good h (destroy_family s h)" "children_of (destroy_family s h) s = []"
    "parent_of (destroy_family s h) s = None"
proof -
  define h1 where "h1 = unlink_from_parent s h"
  note u = good_unlink [OF s F, folded h1_def]
  have F1: "family_ok h1" using u(1) F by (simp add: good_def)
  define h2 where "h2 = fold orphan (children_of h1 s) h1"
  have "h_surfaces h1 c \<noteq> None" if "c \<in> set (children_of h1 s)" for c
    using F1 that by (metis family_ok_iff fld_None option.distinct(1))
  note o = fold_orphan [of "children_of h1 s" h1, OF this, folded h2_def]
  have s2: "h_surfaces h2 s \<noteq> None" using s good_live [OF u(1)] calm_live [OF o(1)] by simp
  have eq: "destroy_family s h = upd_surface s (s_children_update (\<lambda>_. [])) h2"
    by (simp add: destroy_family_def h1_def h2_def Let_def)
  have C: "children_of (destroy_family s h) = (children_of h1)(s := [])"
  proof -
    have "children_of (upd_surface s (s_children_update (\<lambda>_. [])) h2) = (children_of h2)(s := [])"
      using s2 by (auto simp: children_of_def fun_eq_iff)
    then show ?thesis unfolding eq by (simp only: o(2))
  qed
  have P: "parent_of (destroy_family s h) = parent_of h2"
    unfolding eq using s2 by (auto simp: fld_def fun_eq_iff)
  have "family_ok (destroy_family s h)"
    unfolding family_ok_def C using family_orphans [OF F1 [unfolded family_ok_def], of s]
    by (subst trans [OF P o(3)])
  moreover have "calm h2 (destroy_family s h)"
    unfolding eq using s2 by (intro calm_upd_surface) simp_all
  then have "calm h (destroy_family s h)"
    using u(1) o(1) by (auto simp: good_def intro: calm_trans)
  ultimately show "good h (destroy_family s h)" by (simp add: good_def)
  show "children_of (destroy_family s h) s = []" by (simp add: C)
  show "parent_of (destroy_family s h) s = None" 
    using fun_cong [OF trans [OF P o(3)], of s] u(2) by (metis (full_types))
qed

section \<open>The buffers\<close>

lemma destroy_current_sane:
  assumes S: "sane {} h K {#}" and D: "deferred_ok h K w" and x: "h_surfaces h s = Some x"
  shows "sane {} (destroy_current s h) K {#}" "deferred_ok (destroy_current s h) K w"
    "h_surfaces (destroy_current s h) = (h_surfaces h)(s \<mapsto> x\<lparr>s_current := None\<rparr>)"
    "sids (destroy_current s h) = sids h"
proof -
  have "sane {} (destroy_current s h) K {#} \<and> deferred_ok (destroy_current s h) K w \<and>
    h_surfaces (destroy_current s h) = (h_surfaces h)(s \<mapsto> x\<lparr>s_current := None\<rparr>) \<and>
    sids (destroy_current s h) = sids h"
  proof (cases "s_current x")
    case None
    then have "x\<lparr>s_current := None\<rparr> = x" by (cases x) simp
    with None S D x show ?thesis by (simp add: destroy_current_def fun_upd_idem)
  next
    case (Some b)
    define h1 where "h1 = h\<lparr>h_surfaces := (h_surfaces h)(s \<mapsto> x\<lparr>s_current := None\<rparr>)\<rparr>"
    have "ledger (sids h) ((current_of h)(s := None)) (hide {} (pending_of h)) (account_of h)
        (add_mset b K) {#}"
      using S x Some by (intro ledger_drop_current sane_live_surface [OF S x])
        (simp_all add: sane_def owned_def)
    then have "sane {} h1 (add_mset b K) {#}"
      unfolding h1_def by (intro sane_surface_current [OF S x]) simp_all
    then have S1: "sane {} (emit Wait_idle h1) (add_mset b K) {#}" by simp
    have D1: "deferred_ok (emit Wait_idle h1) K w"
      using D by (simp add: h1_def deferred_ok_def)
    note r = buffer_release_sane [OF S1]
    define h2 where "h2 = trierarch_shm_buffer_release b (emit Wait_idle h1)"
    have D2: "deferred_ok h2 K w"
      using D1 r(3) quietD(3) [OF r(2)] by (simp add: deferred_ok_def h2_def)
    have S2: "sane {} h2 K (add_mset b {#})" using r(1) by (simp add: h2_def)
    note u = buffer_unref_sane [OF S2]
    have "destroy_current s h = trierarch_buffer_unref (Some b) h2"
      using x Some by (simp add: destroy_current_def upd_surface_def h1_def h2_def)
    then show ?thesis
      using u(1) unref_deferred_ok [OF S2 D2] quietD(1,2) [OF u(2)] quietD(1,2) [OF r(2)]
      by (simp add: h2_def h1_def)
  qed
  then show "sane {} (destroy_current s h) K {#}" "deferred_ok (destroy_current s h) K w"
    "h_surfaces (destroy_current s h) = (h_surfaces h)(s \<mapsto> x\<lparr>s_current := None\<rparr>)"
    "sids (destroy_current s h) = sids h" by simp_all
qed

lemma close_buffer_fence_sane:
  assumes S: "sane X h K E" and v: "h_buffers h b = Some v"
  shows "sane X (close_buffer_fence b h) K E" "quiet b h (close_buffer_fence b h)"
    "deferred_next_of (close_buffer_fence b h) = deferred_next_of h"
    "\<exists>v'. h_buffers (close_buffer_fence b h) b = Some v'"
proof -
  define h1 where "h1 = close_fd (b_acquire_fence_fd v) h"
  have h1: "sane X h1 K E" "h_buffers h1 b = Some v" "quiet b h h1" "h_buffers h1 = h_buffers h"
    using S v by (simp_all add: h1_def)
  define h2 where "h2 = h1\<lparr>h_buffers := (h_buffers h1)(b \<mapsto> v\<lparr>b_acquire_fence_fd := -1\<rparr>)\<rparr>"
  have h2: "sane X h2 K E" unfolding h2_def by (rule sane_buffer_same [OF h1(1,2)]) simp_all
  have q2: "quiet b h h2" "deferred_next_of h2 = deferred_next_of h"
    using h1(3) v by (simp_all add: h2_def quiet_def h1(4))
  have eq: "close_buffer_fence b h = (if 0 \<le> b_acquire_fence_fd v then h2 else h)"
    using v by (simp add: close_buffer_fence_def upd_buffer_def h2_def h1_def)
  show "sane X (close_buffer_fence b h) K E" "quiet b h (close_buffer_fence b h)"
    "deferred_next_of (close_buffer_fence b h) = deferred_next_of h"
    "\<exists>v'. h_buffers (close_buffer_fence b h) b = Some v'"
    unfolding eq using S h2 q2 v by (simp_all add: h2_def)
qed

lemma destroy_pending_sane:
  assumes S: "sane {} h K {#}" and D: "deferred_ok h K w" and x: "h_surfaces h s = Some x"
  shows "sane {} (destroy_pending s h) K {#}" "deferred_ok (destroy_pending s h) K w"
    "h_surfaces (destroy_pending s h) = (h_surfaces h)(s \<mapsto> x\<lparr>s_pending := None\<rparr>)"
    "sids (destroy_pending s h) = sids h"
proof -
  have "sane {} (destroy_pending s h) K {#} \<and> deferred_ok (destroy_pending s h) K w \<and>
    h_surfaces (destroy_pending s h) = (h_surfaces h)(s \<mapsto> x\<lparr>s_pending := None\<rparr>) \<and>
    sids (destroy_pending s h) = sids h"
  proof (cases "s_pending x")
    case None
    then have "x\<lparr>s_pending := None\<rparr> = x" by (cases x) simp
    with None S D x show ?thesis by (simp add: destroy_pending_def fun_upd_idem)
  next
    case (Some b)
    define h1 where "h1 = h\<lparr>h_surfaces := (h_surfaces h)(s \<mapsto> x\<lparr>s_pending := None\<rparr>)\<rparr>"
    have S1: "sane {} h1 K (add_mset b {#})"
      unfolding h1_def using sane_begin_commit [OF S x] x Some by (intro sane_end_commit) simp_all
    obtain v where v: "h_buffers h1 b = Some v" using sane_live [OF S1, of b] by auto
    define h2 where "h2 = close_buffer_fence b h1"
    note c = close_buffer_fence_sane [OF S1 v, folded h2_def]
    obtain v2 where v2: "h_buffers h2 b = Some v2" using c(4) by blast
    define h3 where "h3 = (case b_explicit_release v2 of None \<Rightarrow> h2 | Some r \<Rightarrow> destroy_release r h2)"
    note d = drop_buffer_release_sane [OF c(1) v2, folded h3_def]
    note u = buffer_unref_sane [OF d(1)]
    have "deferred_ok h3 K w"
      using D c(3) d(3) quietD(3) [OF c(2)] quietD(3) [OF d(2)] by (simp add: deferred_ok_def h1_def)
    note D4 = unref_deferred_ok [OF d(1) this]
    have eq: "destroy_pending s h = trierarch_buffer_unref (Some b) h3"
      using x Some v2 by (cases "b_explicit_release v2")
        (simp_all add: destroy_pending_def Let_def upd_surface_def h1_def [symmetric]
          h2_def [symmetric] h3_def)
    show ?thesis
      unfolding eq using u(1) D4 quietD(1,2) [OF u(2)] quietD(1,2) [OF d(2)] quietD(1,2) [OF c(2)]
      by (simp add: h1_def)
  qed
  then show "sane {} (destroy_pending s h) K {#}" "deferred_ok (destroy_pending s h) K w"
    "h_surfaces (destroy_pending s h) = (h_surfaces h)(s \<mapsto> x\<lparr>s_pending := None\<rparr>)"
    "sids (destroy_pending s h) = sids h" by simp_all
qed

section \<open>The end\<close>

lemma clear_callbacks_good:
  assumes "h_surfaces h s = Some x"
  shows "good h (clear_callbacks s h)"
proof -
  let ?f = "\<lambda>x. x\<lparr>s_pending_frame_callbacks := [], s_committed_frame_callbacks := [],
      s_presented_frame_callbacks := []\<rparr>"
  define h1 where "h1 = emits (map Destroyed (s_pending_frame_callbacks x @
     s_committed_frame_callbacks x @ s_presented_frame_callbacks x)) h"
  have 1: "good h h1"
    unfolding h1_def by (simp add: good_def family_ok_def children_of_def [abs_def])
  have 2: "good h1 (upd_surface s ?f h1)"
    using assms by (intro good_upd_surface) (simp_all add: h1_def)
  have "clear_callbacks s h = upd_surface s ?f h1"
    using assms by (simp add: clear_callbacks_def h1_def)
  with good_trans [OF 1 2] show ?thesis by simp
qed

lemma destroy_sync_sane:
  assumes S: "sane X h K E" and D: "deferred_ok h K w" and x: "h_surfaces h s = Some x"
  shows "sane X (destroy_sync s h) K E" "deferred_ok (destroy_sync s h) K w"
    "h_surfaces (destroy_sync s h) = (h_surfaces h)(s \<mapsto> x\<lparr>s_pending_explicit_release := None\<rparr>)"
    "sids (destroy_sync s h) = sids h"
proof -
  define h1 where "h1 = (if 0 \<le> s_acquire_fence_fd x then close_fd (s_acquire_fence_fd x) h else h)"
  have h1: "calm h h1" "h_surfaces h1 = h_surfaces h" by (simp_all add: h1_def)
  have S1: "sane X h1 K E" "deferred_ok h1 K w" "h_surfaces h1 s = Some x" "sids h1 = sids h"
    using S D x h1(2) unfolding calm_sane [OF h1(1)] calm_deferred [OF h1(1)] by (simp_all add: h1_def)
  have eq: "destroy_sync s h = (case s_pending_explicit_release x of None \<Rightarrow> h1
      | Some r \<Rightarrow> destroy_release r h1)"
    using x by (cases "s_pending_explicit_release x") (simp_all add: destroy_sync_def h1_def Let_def)
  have "sane X (destroy_sync s h) K E \<and> deferred_ok (destroy_sync s h) K w \<and>
    h_surfaces (destroy_sync s h) = (h_surfaces h)(s \<mapsto> x\<lparr>s_pending_explicit_release := None\<rparr>) \<and>
    sids (destroy_sync s h) = sids h"
  proof (cases "s_pending_explicit_release x")
    case None
    then have "x\<lparr>s_pending_explicit_release := None\<rparr> = x" by (cases x) simp
    with None S1 x h1 show ?thesis unfolding eq by (simp add: fun_upd_idem)
  next
    case (Some r)
    have e: "destroy_sync s h = emit (Destroyed r) (without_pending_release s x r h1)"
      unfolding eq using Some destroy_release_surface [OF _ S1(3) Some] S1(1) by (simp add: sane_def)
    show ?thesis
      unfolding e using sane_without_pending_release [OF S1(1,3) Some] S1 h1(2)
      by (simp add: deferred_ok_def)
  qed
  then show "sane X (destroy_sync s h) K E" "deferred_ok (destroy_sync s h) K w"
    "h_surfaces (destroy_sync s h) = (h_surfaces h)(s \<mapsto> x\<lparr>s_pending_explicit_release := None\<rparr>)"
    "sids (destroy_sync s h) = sids h" by simp_all
qed

lemma free_surface_sane:
  assumes S: "sane {} h K E" and D: "deferred_ok h K w" and x: "h_surfaces h s = Some x"
    and "s_current x = None" "s_pending x = None" "s_pending_explicit_release x = None"
  shows "sane {} (free_surface s h) K E" "deferred_ok (free_surface s h) K w"
proof -
  have "ledger (remove1 s (sids h)) (current_of h) (pending_of h) (account_of h) K E"
    using S x assms(4,5) by (intro ledger_remove_surface) (simp_all add: sane_def owned_def)
  moreover have "distinct (sids h)" using S by (simp add: sane_def owned_def ledger_def)
  ultimately show "sane {} (free_surface s h) K E"
    using S x assms(4-6) by (auto simp: free_surface_def sane_def owned_def side_ok_def upd_server_def)
  show "deferred_ok (free_surface s h) K w"
    using D by (simp add: free_surface_def deferred_ok_def upd_server_def)
qed

lemma family_free_surface:
  assumes "family_ok h" "children_of h s = []" "parent_of h s = None"
  shows "family_ok (free_surface s h)"
proof -
  have "children_of (free_surface s h) = children_of h" "parent_of (free_surface s h) = parent_of h"
    using assms(2,3) by (auto simp: free_surface_def children_of_def fun_eq_iff upd_server_def)
  with assms(1) show ?thesis by (simp add: family_ok_def)
qed

text \<open>
  Destroying a surface keeps the balance, the deferred list and the tree, and the surface
  is gone.
\<close>

lemma surface_destroy_sane:
  assumes S: "sane {} h K {#}" and D: "deferred_ok h K w" and F: "family_ok h"
    and s: "h_surfaces h s \<noteq> None"
  shows "sane {} (surface_resource_destroy s h) K {#}" "deferred_ok (surface_resource_destroy s h) K w"
    "family_ok (surface_resource_destroy s h)" "h_surfaces (surface_resource_destroy s h) s = None"
    "dom (h_surfaces (surface_resource_destroy s h)) = dom (h_surfaces h) - {s}"
proof -
  define h1 where "h1 = destroy_family s (destroy_roles s h)"
  note r = good_destroy_roles [OF s F]
  have s': "h_surfaces (destroy_roles s h) s \<noteq> None" using s good_live [OF r] by simp
  have F': "family_ok (destroy_roles s h)" using r F by (simp add: good_def)
  note f = destroy_family_good [OF s' F', folded h1_def]
  have g1: "good h h1" using good_trans [OF r f(1)] .
  define h2 where "h2 = trierarch_wayland_request_render (destroy_focus s h1)"
  have "calm h1 (destroy_focus s h1)" by (simp add: calm_def destroy_focus_def upd_server_def Let_def)
  then have c2: "calm h1 h2" by (simp add: h2_def)
  have t2: "h_surfaces h2 = h_surfaces h1"
    by (simp add: h2_def destroy_focus_def)
  have g2: "calm h h2" using g1 c2 calm_trans by (auto simp: good_def)
  have S2: "sane {} h2 K {#}" "deferred_ok h2 K w" using S D g2 by (simp_all add: calm_sane calm_deferred)
  obtain x where x: "h_surfaces h2 s = Some x" using s calm_live [OF g2, of s] by (cases "h_surfaces h2 s") auto
  define h3 where "h3 = destroy_current s h2"
  note c = destroy_current_sane [OF S2 x, folded h3_def]
  define h4 where "h4 = destroy_pending s h3"
  have x3: "h_surfaces h3 s = Some (x\<lparr>s_current := None\<rparr>)" using c(3) by simp
  note p = destroy_pending_sane [OF c(1,2) x3, folded h4_def]
  have x4: "h_surfaces h4 s = Some (x\<lparr>s_current := None, s_pending := None\<rparr>)" using p(3) by simp
  define h5 where "h5 = clear_callbacks s h4"
  have g5: "good h4 h5" unfolding h5_def by (rule clear_callbacks_good [OF x4])
  define x5 where "x5 = x\<lparr>s_current := None, s_pending := None, s_pending_frame_callbacks := [],
     s_committed_frame_callbacks := [], s_presented_frame_callbacks := []\<rparr>"
  have x5: "h_surfaces h5 = (h_surfaces h4)(s \<mapsto> x5)" "h_surfaces h5 s = Some x5"
    using x4 by (auto simp: h5_def clear_callbacks_def x5_def fun_eq_iff)
  have S5: "sane {} h5 K {#}" "deferred_ok h5 K w"
    using p g5 calm_sane [of h4 h5 "{}" K "{#}"] calm_deferred [of h4 h5 K w] by (simp_all add: good_def)
  define h6 where "h6 = destroy_sync s h5"
  note y = destroy_sync_sane [OF S5 x5(2), folded h6_def]
  have x6: "h_surfaces h6 s = Some (x5\<lparr>s_pending_explicit_release := None\<rparr>)" using y(3) by simp
  have eq: "surface_resource_destroy s h = free_surface s h6"
    by (simp add: surface_resource_destroy_def h1_def h2_def h3_def h4_def h5_def h6_def)
  show "sane {} (surface_resource_destroy s h) K {#}" "deferred_ok (surface_resource_destroy s h) K w"
    unfolding eq by (rule free_surface_sane [OF y(1,2) x6]; simp add: x5_def)+
  show "h_surfaces (surface_resource_destroy s h) s = None" unfolding eq by (simp add: free_surface_def)
  have m6: "h_surfaces h6 = (h_surfaces h1)(s \<mapsto> x5\<lparr>s_pending_explicit_release := None\<rparr>)"
    using y(3) x5(1) p(3) c(3) t2 by simp
  have "dom (h_surfaces h1) = dom (h_surfaces h)" using g1 by (simp add: good_def calm_def)
  then show "dom (h_surfaces (surface_resource_destroy s h)) = dom (h_surfaces h) - {s}"
    unfolding eq by (auto simp: free_surface_def m6)
  note m6
  moreover have "h_surfaces h1 s = Some x" using x t2 by simp
  ultimately have t: "same_tree h1 h6"
    by (auto simp: same_tree_def children_of_def fun_eq_iff fld_def x5_def)
  have "family_ok h6" using g1 F same_tree_family [OF t] by (simp add: good_def)
  moreover have "children_of h6 s = []" "parent_of h6 s = None"
    using f(2,3) t by (simp_all only: same_tree_def)
  ultimately show "family_ok (surface_resource_destroy s h)"
    unfolding eq by (rule family_free_surface)
qed

end
