(* ===== verification/Host_Safety.thy ===== *)
theory Host_Safety
  imports Surface_Destroy
begin

text \<open>
  The Wayland host as a transition system: the requests of clients, the destruction of
  their objects in any order, and the flush after a frame. \<open>host_inv\<close> holds in every
  reachable state: reference counts are exact, the deferred list and the tree of
  subsurfaces are well formed, and no operation has followed a dangling pointer.
\<close>

section \<open>The role of a subsurface\<close>

text \<open>A surface has a parent only while it has its subsurface object.\<close>

abbreviation subsurface_of :: "host \<Rightarrow> sid \<Rightarrow> rid option" where
  "subsurface_of h \<equiv> fld (h_surfaces h) s_subsurface"

definition subrole_ok :: "host \<Rightarrow> bool" where
  "subrole_ok h \<longleftrightarrow> (\<forall>s. parent_of h s \<noteq> None \<longrightarrow> subsurface_of h s \<noteq> None)"

definition others :: "sid \<Rightarrow> host \<Rightarrow> host \<Rightarrow> bool" where
  "others s h h' \<longleftrightarrow> (\<forall>t. t \<noteq> s \<longrightarrow> subsurface_of h' t = subsurface_of h t \<and>
     (parent_of h' t = None \<or> parent_of h' t = parent_of h t))"

lemma others_refl [simp]: "others s h h"
  by (simp add: others_def)

lemma others_trans [trans]: "others s h h' \<Longrightarrow> others s h' h'' \<Longrightarrow> others s h h''"
  unfolding others_def by metis

lemma others_surfaces: "h_surfaces h'' = h_surfaces h' \<Longrightarrow> others s h h'' = others s h h'"
  by (simp add: others_def)

lemma others_emit [simp]:
  "others s h (emit e h') = others s h h'" "others s h (close_fd d h') = others s h h'"
  "others s h (upd_server f h') = others s h h'"
  "others s h (trierarch_wayland_request_render h') = others s h h'"
  by (rule others_surfaces; simp)+

lemma fld_upd_surface_same:
  "(\<And>x. g (f x) = g x) \<Longrightarrow> fld (h_surfaces (upd_surface p f h)) g = fld (h_surfaces h) g"
  by (rule ext; cases "h_surfaces h p") (auto simp: fld_def)

lemma fld_upd_surface_other:
  "t \<noteq> p \<Longrightarrow> fld (h_surfaces (upd_surface p f h)) g t = fld (h_surfaces h) g t"
  by (simp add: fld_def)

lemma others_upd_self [simp]: "others s h (upd_surface s f h') = others s h h'"
  by (simp add: others_def fld_upd_surface_other)

lemma others_upd_self_map: "h_surfaces h' = (h_surfaces h)(s := a) \<Longrightarrow> others s h h'"
  by (simp add: others_def)

lemma others_upd_children: "others s h (upd_surface p (s_children_update f) h') = others s h h'"
  by (simp add: others_def fld_upd_surface_same)

lemma others_orphan: "others s h h' \<Longrightarrow> others s h (orphan c h')"
proof -
  have "parent_of (orphan c h') t = None \<or> parent_of (orphan c h') t = parent_of h' t" for t
    by (cases "t = c"; cases "h_surfaces h' c") (simp_all add: orphan_def fld_def)
  moreover have "subsurface_of (orphan c h') = subsurface_of h'"
    by (simp add: orphan_def fld_upd_surface_same)
  ultimately show "others s h h' \<Longrightarrow> others s h (orphan c h')" unfolding others_def by metis
qed

lemma others_fold_orphan: "others s h h' \<Longrightarrow> others s h (fold orphan cs h')"
  by (induction cs arbitrary: h') (simp_all add: others_orphan)

lemma others_fault [simp]: "others s h (fault h') = others s h h'"
  by (rule others_surfaces) (simp add: fault_def)

lemma others_unlink: "others s h (unlink_from_parent s h') = others s h h'"
  by (simp add: unlink_from_parent_def others_upd_children split: option.splits)

lemma others_destroy_role:
  "(\<And>r. others s h (hook r h') = others s h h') \<Longrightarrow>
    others s h (destroy_role get hook s h') = others s h h'"
  by (simp add: destroy_role_def split: option.splits)

lemma others_destroy_roles: "others s h (destroy_roles s h') = others s h h'"
  by (simp add: destroy_roles_def Let_def others_destroy_role xdg_toplevel_resource_destroy_def
      xdg_surface_resource_destroy_def subsurface_resource_destroy_def others_unlink
      viewport_resource_destroy_def layer_surface_resource_destroy_def sync_resource_destroy_def
      close_acquire_fence_def split: option.splits)

lemma others_destroy_family: "others s h h' \<Longrightarrow> others s h (destroy_family s h')"
  by (simp add: destroy_family_def Let_def others_fold_orphan others_unlink)

lemma surface_destroy_others:
  assumes S: "sane {} h K {#}" and D: "deferred_ok h K w" and F: "family_ok h"
    and s: "h_surfaces h s \<noteq> None"
  shows "others s h (surface_resource_destroy s h)"
proof -
  define h1 where "h1 = destroy_family s (destroy_roles s h)"
  have o1: "others s h h1" unfolding h1_def by (intro others_destroy_family) (simp add: others_destroy_roles)
  note r = good_destroy_roles [OF s F]
  have s': "h_surfaces (destroy_roles s h) s \<noteq> None" "family_ok (destroy_roles s h)"
    using s F r good_live [OF r] by (simp_all add: good_def)
  have g1: "good h h1"
    unfolding h1_def using good_trans [OF r destroy_family_good(1) [OF s']] .
  define h2 where "h2 = trierarch_wayland_request_render (destroy_focus s h1)"
  have o2: "others s h h2" unfolding h2_def destroy_focus_def using o1 by simp
  have g2: "calm h h2"
    using g1 by (simp add: h2_def good_def) (simp add: calm_def destroy_focus_def upd_server_def Let_def)
  have S2: "sane {} h2 K {#}" "deferred_ok h2 K w"
    using S D calm_sane [OF g2] calm_deferred [OF g2] by simp_all
  obtain x where x: "h_surfaces h2 s = Some x"
    using s calm_live [OF g2, of s] by (cases "h_surfaces h2 s") auto
  define h3 where "h3 = destroy_current s h2"
  note c = destroy_current_sane [OF S2 x, folded h3_def]
  have x3: "h_surfaces h3 s = Some (x\<lparr>s_current := None\<rparr>)" using c(3) by simp
  define h4 where "h4 = destroy_pending s h3"
  note p = destroy_pending_sane [OF c(1,2) x3, folded h4_def]
  have x4: "h_surfaces h4 s = Some (x\<lparr>s_current := None, s_pending := None\<rparr>)" using p(3) by simp
  define h5 where "h5 = clear_callbacks s h4"
  have g5: "calm h4 h5" using clear_callbacks_good [OF x4] by (simp add: good_def h5_def)
  have S5: "sane {} h5 K {#}" "deferred_ok h5 K w"
    using p calm_sane [OF g5] calm_deferred [OF g5] by simp_all
  obtain x5 where x5: "h_surfaces h5 s = Some x5"
    using x4 calm_live [OF g5, of s] by (cases "h_surfaces h5 s") auto
  note y = destroy_sync_sane [OF S5 x5]
  have "others s h4 h5"
    using x4 by (simp add: h5_def clear_callbacks_def others_surfaces)
  moreover have "others s h5 (destroy_sync s h5)" using y(3) by (rule others_upd_self_map)
  moreover have "others s (destroy_sync s h5) (free_surface s (destroy_sync s h5))"
    by (rule others_upd_self_map [where a = None]) (simp add: free_surface_def)
  moreover have "others s h2 h3" using c(3) by (rule others_upd_self_map)
  moreover have "others s h3 h4" using p(3) by (rule others_upd_self_map)
  moreover have "surface_resource_destroy s h = free_surface s (destroy_sync s h5)"
    by (simp add: surface_resource_destroy_def h1_def h2_def h3_def h4_def h5_def)
  ultimately show ?thesis using o2 others_trans by metis
qed

section \<open>The invariant\<close>

definition host_inv :: "host \<Rightarrow> bool" where
  "host_inv h \<longleftrightarrow> (\<exists>K w. sane {} h K {#} \<and> deferred_ok h K w) \<and> family_ok h \<and> subrole_ok h"

lemma host_invE:
  assumes "host_inv h"
  obtains K w where "sane {} h K {#}" "deferred_ok h K w" "family_ok h" "subrole_ok h"
  using assms by (auto simp: host_inv_def)

lemma host_invI: "sane {} h K {#} \<Longrightarrow> deferred_ok h K w \<Longrightarrow> family_ok h \<Longrightarrow> subrole_ok h \<Longrightarrow> host_inv h"
  by (auto simp: host_inv_def)

lemma host_inv_no_fault: "host_inv h \<Longrightarrow> \<not> h_fault h"
  by (auto simp: host_inv_def sane_def side_ok_def)

text \<open>Operations that leave the surfaces alone, or change one surface without touching the tree.\<close>

lemma subrole_on_surface: "on_surface s h h' \<Longrightarrow> subrole_ok h \<Longrightarrow> subrole_ok h'"
  unfolding subrole_ok_def
proof (intro allI impI)
  fix t assume o: "on_surface s h h'" and r: "\<forall>s. parent_of h s \<noteq> None \<longrightarrow> subsurface_of h s \<noteq> None"
    and p: "parent_of h' t \<noteq> None"
  have "parent_of h' t = parent_of h t \<and> subsurface_of h' t = subsurface_of h t"
    using o by (cases "t = s"; cases "h_surfaces h' t"; cases "h_surfaces h t")
      (auto simp: on_surface_def)
  with r p show "subsurface_of h' t \<noteq> None" by metis
qed

lemma host_inv_on_surface:
  assumes "family_ok h" "subrole_ok h" "on_surface s h h'" "sane {} h' K {#}" "deferred_ok h' K w"
  shows "host_inv h'"
  using assms same_tree_family [OF on_surface_same_tree [OF assms(3)]] subrole_on_surface [OF assms(3)]
  by (auto intro: host_invI)

lemma on_surface_surfaces: "h_surfaces h' = h_surfaces h \<Longrightarrow> sids h' = sids h \<Longrightarrow> on_surface s h h'"
  by (simp add: on_surface_def)

lemma host_inv_calm:
  assumes "host_inv h" "calm h h'" "on_surface s h h'"
  shows "host_inv h'"
proof -
  obtain K w where h: "sane {} h K {#}" "deferred_ok h K w" "family_ok h" "subrole_ok h"
    using assms(1) by (rule host_invE)
  show ?thesis
    using h calm_sane [OF assms(2)] calm_deferred [OF assms(2)]
    by (intro host_inv_on_surface [OF h(3,4) assms(3)]) simp_all
qed

end
