(* ===== verification/Host_Steps.thy ===== *)
theory Host_Steps
  imports Host_Safety
begin

text \<open>
  Each operation of a client, and each destroy hook, keeps \<open>host_inv\<close>; the steps of
  the transition system are these operations, with what libwayland guarantees of their
  arguments as guards (a request arrives for a live object, memory and resources are
  fresh).
\<close>

section \<open>Surfaces\<close>

lemma create_surface_inv:
  assumes I: "host_inv h" and fresh: "\<And>s. mem = Some s \<Longrightarrow> h_surfaces h s = None"
  shows "host_inv (compositor_create_surface client resource mem res h)"
proof (cases "(mem, res)")
  case (Pair m q)
  obtain K w where h: "sane {} h K {#}" "deferred_ok h K w" "family_ok h" "subrole_ok h"
    using I by (rule host_invE)
  show ?thesis
  proof (cases "mem \<noteq> None \<and> res \<noteq> None")
    case True
    then obtain s r where sr: "mem = Some s" "res = Some r" by auto
    let ?h = "compositor_create_surface client resource mem res h"
    have n: "h_surfaces h s = None" using fresh sr by simp
    have f: "h_surfaces ?h = (h_surfaces h)(s \<mapsto> new_surface r)" "h_buffers ?h = h_buffers h"
      "sids ?h = s # sids h" "h_pools ?h = h_pools h" "h_bindings ?h = h_bindings h"
      "h_fault ?h = h_fault h" "h_deferred ?h = h_deferred h"
      "sv_egl_buffers (h_server ?h) = sv_egl_buffers (h_server h)"
      using sr by (simp_all add: compositor_create_surface_def new_resource_def upd_server_def)
    have e: "current_of ?h = current_of h" "pending_of ?h = pending_of h"
      "surf_release ?h = surf_release h" "parent_of ?h = parent_of h" "subsurface_of ?h = subsurface_of h"
      unfolding f(1) using n by (simp_all add: new_surface_def)
    have c: "children_of ?h = children_of h"
      using n by (auto simp: children_of_def f(1) fun_eq_iff new_surface_def)
    have "s \<notin> set (sids h)" using h(1) n by (auto simp: sane_def side_ok_def)
    then have "ledger (s # sids h) (current_of h) (pending_of h) (account_of h) K {#}"
      using h(1) n by (intro ledger_add_surface) (simp_all add: sane_def owned_def)
    then have "sane {} ?h K {#}"
      using h(1) unfolding sane_def owned_def side_ok_def e by (simp add: f)
    moreover have "deferred_ok ?h K w" using h(2) by (simp add: deferred_ok_def f)
    moreover have "family_ok ?h" using h(3) unfolding family_ok_def c e .
    moreover have "subrole_ok ?h" using h(4) unfolding subrole_ok_def e .
    ultimately show ?thesis by (rule host_invI)
  next
    case False
    then have "compositor_create_surface client resource mem res h = emit (Post_no_memory client) h"
      by (auto simp: compositor_create_surface_def split: option.splits)
    then show ?thesis
      using I by (auto intro!: host_inv_calm [OF I, of _ 0] on_surface_surfaces)
  qed
qed

text \<open>Anything that only reports.\<close>

lemma host_inv_emit [simp]: "host_inv h \<Longrightarrow> host_inv (emit e h)"
  using host_inv_calm [of h "emit e h" 0] by (simp add: on_surface_def)

text \<open>A request that writes fields of one live surface outside the tree and the buffers.\<close>

lemma host_inv_upd_surface:
  assumes "host_inv h" "h_surfaces h s \<noteq> None"
    and "\<And>x. s_current (f x) = s_current x" "\<And>x. s_pending (f x) = s_pending x"
    "\<And>x. s_pending_explicit_release (f x) = s_pending_explicit_release x"
    "\<And>x. s_parent (f x) = s_parent x" "\<And>x. s_children (f x) = s_children x"
    "\<And>x. s_subsurface (f x) = s_subsurface x"
  shows "host_inv (upd_surface s f h)"
proof (rule host_inv_calm [OF assms(1), of _ s])
  show "calm h (upd_surface s f h)" using assms(2-5) by (rule calm_upd_surface)
  show "on_surface s h (upd_surface s f h)"
    using assms(2,6-8) by (auto simp: on_surface_def) (auto simp: upd_surface_def)
qed

lemma host_inv_same:
  assumes "host_inv h" "calm h h'" "h_surfaces h' = h_surfaces h"
  shows "host_inv h'"
  using assms by (intro host_inv_calm [OF assms(1,2), of 0] on_surface_surfaces) (simp_all add: calm_def)

lemma commit_inv:
  assumes I: "host_inv h" and s: "h_surfaces h s \<noteq> None"
  shows "host_inv (trierarch_surface_commit s h)"
proof -
  obtain K w where h: "sane {} h K {#}" "deferred_ok h K w" "family_ok h" "subrole_ok h"
    using I by (rule host_invE)
  obtain x where x: "h_surfaces h s = Some x" using s by auto
  from commit_sane [OF h(1,2) x] show ?thesis by (auto intro: host_inv_on_surface [OF h(3,4)])
qed

lemma surface_destroy_inv:
  assumes I: "host_inv h" and s: "h_surfaces h s \<noteq> None"
  shows "host_inv (surface_resource_destroy s h)"
proof -
  obtain K w where h: "sane {} h K {#}" "deferred_ok h K w" "family_ok h" "subrole_ok h"
    using I by (rule host_invE)
  note d = surface_destroy_sane [OF h(1-3) s]
  have o: "others s h (surface_resource_destroy s h)" by (rule surface_destroy_others [OF h(1-3) s])
  have "subrole_ok (surface_resource_destroy s h)"
    unfolding subrole_ok_def
  proof (intro allI impI)
    fix t assume p: "parent_of (surface_resource_destroy s h) t \<noteq> None"
    then have "t \<noteq> s" using d(4) by auto
    with o p h(4) show "subsurface_of (surface_resource_destroy s h) t \<noteq> None"
      unfolding others_def subrole_ok_def by metis
  qed
  with d show ?thesis by (intro host_invI) simp_all
qed

lemma flush_inv:
  assumes I: "host_inv h"
  shows "\<exists>h'. trierarch_flush_deferred_releases h = Some h' \<and> host_inv h'"
proof -
  obtain K w where h: "sane {} h K {#}" "deferred_ok h K w" "family_ok h" "subrole_ok h"
    using I by (rule host_invE)
  from flush_sane [OF h(1,2)] obtain h' where
    "trierarch_flush_deferred_releases h = Some h'" "sane {} h' (K - mset w) {#}"
    "deferred_ok h' (K - mset w) []" "h_surfaces h' = h_surfaces h" "sids h' = sids h" by blast
  then show ?thesis
    using h by (auto intro!: host_inv_on_surface [OF h(3,4), of 0] on_surface_surfaces)
qed

section \<open>Buffers\<close>

lemma resource_destroy_inv:
  assumes I: "host_inv h" and x: "h_buffers h b = Some x" "b_resource x \<noteq> None"
  shows "host_inv (buffer_resource_destroy b h)"
proof -
  obtain K w where h: "sane {} h K {#}" "deferred_ok h K w" "family_ok h" "subrole_ok h"
    using I by (rule host_invE)
  note r = resource_destroy_sane [OF h(1) x]
  have "deferred_ok (buffer_resource_destroy b h) K w"
    using r(3) quietD(3) [OF r(2)] by (intro deferred_ok_keep [OF h(2)]) auto
  then show ?thesis
    using r(1) quietD(1,2) [OF r(2)]
    by (intro host_inv_on_surface [OF h(3,4), of 0 _ K w] on_surface_surfaces) simp_all
qed

text \<open>A new buffer outside every pool and cache.\<close>

lemma new_buffer_inv:
  assumes I: "host_inv h" and b: "h_buffers h b = None"
    and x: "b_references x = Suc 0" "b_busy_users x = 0" "b_resource x \<noteq> None"
      "b_explicit_release x = None" "b_pool x = None" "\<not> b_egl_cache_linked x" "b_deferred_next x = None"
  shows "host_inv (h\<lparr>h_buffers := (h_buffers h)(b \<mapsto> x)\<rparr>)"
proof -
  obtain K w where h: "sane {} h K {#}" "deferred_ok h K w" "family_ok h" "subrole_ok h"
    using I by (rule host_invE)
  have "ledger (sids h) (current_of h) (pending_of h) ((account_of h)(b \<mapsto> (Suc 0, 0, True))) K {#}"
    using h(1) b by (intro ledger_new) (simp_all add: sane_def owned_def)
  then have "sane {} (h\<lparr>h_buffers := (h_buffers h)(b \<mapsto> x)\<rparr>) K {#}"
    using h(1) b x by (simp add: sane_def owned_def side_ok_def link_mark_def)
  moreover have "deferred_ok (h\<lparr>h_buffers := (h_buffers h)(b \<mapsto> x)\<rparr>) K w"
    using h(2) b x by (simp add: deferred_ok_def)
  ultimately show ?thesis
    by (intro host_inv_on_surface [OF h(3,4), of 0 _ K w] on_surface_surfaces) simp_all
qed

lemma single_pixel_inv:
  assumes I: "host_inv h" and fresh: "\<And>b. mem = Some b \<Longrightarrow> h_buffers h b = None"
  shows "host_inv (manager_create_u32_rgba_buffer client mem data res h)"
  using I fresh
  by (auto simp: manager_create_u32_rgba_buffer_def single_pixel_buffer_create_def calloc_buffer_def
      intro!: new_buffer_inv split: option.splits)

lemma android_buffer_inv:
  assumes I: "host_inv h" and fresh: "\<And>b. mem = Some b \<Longrightarrow> h_buffers h b = None"
  shows "host_inv (wlegl_create_buffer client native ahb mem res width height stride format wh h)"
  using I fresh
  by (auto simp: wlegl_create_buffer_def calloc_buffer_def intro!: new_buffer_inv split: option.splits)

lemma host_inv_close_fd [simp]: "host_inv h \<Longrightarrow> host_inv (close_fd d h)"
  by (simp add: close_fd_def)

lemma host_inv_upd_diag [simp]: "host_inv h \<Longrightarrow> host_inv (upd_diag f h)"
  by (rule host_inv_same) simp_all

lemma dmabuf_buffer_inv:
  assumes I: "host_inv h" and fresh: "\<And>b. mem = Some b \<Longrightarrow> h_buffers h b = None"
  shows "host_inv (snd (snd (make_dmabuf_buffer token mapped mem res width height format p h)))"
proof -
  have new: "host_inv (h'\<lparr>h_buffers := (h_buffers h)(b \<mapsto> x)\<rparr>)"
    if "h' = h \<or> (\<exists>e. h' = emit e h)" "mem = Some b" "b_references x = Suc 0" "b_busy_users x = 0"
      "b_resource x \<noteq> None" "b_explicit_release x = None" "b_pool x = None" "\<not> b_egl_cache_linked x"
      "b_deferred_next x = None" for h' b x
  proof -
    have e: "h_buffers h' = h_buffers h" "host_inv h'" using that(1) I by auto
    show ?thesis unfolding e(1) [symmetric] using that fresh [of b] e by (intro new_buffer_inv) simp_all
  qed
  show ?thesis
    using I unfolding make_dmabuf_buffer_def Let_def
    by (auto simp: calloc_buffer_def intro!: new split: option.splits)
qed

lemma params_create_inv:
  assumes I: "host_inv h" and fresh: "\<And>b. mem = Some b \<Longrightarrow> h_buffers h b = None"
  shows "host_inv (snd (params_create resource token mapped mem res width height format p h))"
    "host_inv (snd (params_create_immed resource token mapped mem res width height format p h))"
  using I dmabuf_buffer_inv [OF I fresh, of mem token mapped res width height format p]
  by (auto simp: params_create_def params_create_immed_def Let_def split: prod.splits option.splits)

section \<open>Pools\<close>

lemma pooled_join:
  assumes P: "pooled P bp" "P p = Some q" "bp b = None"
  shows "pooled (P(p \<mapsto> q\<lparr>p_references := Suc (p_references q), p_buffers := b # p_buffers q\<rparr>))
    (bp(b \<mapsto> p))"
proof -
  have 1: "bp c = Some p' \<longleftrightarrow> (\<exists>q. P p' = Some q \<and> c \<in> set (p_buffers q))" for c p'
    using P(1) by (simp add: pooled_def)
  have nb: "b \<notin> set (p_buffers q')" if "P p' = Some q'" for p' q'
    using 1 [of b p'] P(3) that by auto
  show ?thesis
    unfolding pooled_def
  proof (intro conjI allI impI)
    fix p' q' assume "(P(p \<mapsto> q\<lparr>p_references := Suc (p_references q), p_buffers := b # p_buffers q\<rparr>)) p'
        = Some q'"
    then show "distinct (p_buffers q')" "0 < p_references q'"
      "length (p_buffers q') \<le> p_references q'" "p_references q' \<le> Suc (length (p_buffers q'))"
      using P(1,2) nb [OF P(2)] by (auto simp: pooled_def split: if_splits)
  next
    fix c p'
    show "(bp(b \<mapsto> p)) c = Some p' \<longleftrightarrow> (\<exists>q'. (P(p \<mapsto> q\<lparr>p_references := Suc (p_references q),
        p_buffers := b # p_buffers q\<rparr>)) p' = Some q' \<and> c \<in> set (p_buffers q'))"
      using 1 [of c p'] nb [of p'] P(2) by (cases "p' = p"; cases "c = b") auto
  qed
qed

lemma pool_made_inv:
  assumes I: "host_inv h" and b: "h_buffers h b = None" and q: "h_pools h p = Some q"
    and x: "b_references x = Suc 0" "b_busy_users x = 0" "b_resource x \<noteq> None"
      "b_explicit_release x = None" "b_pool x = Some p" "\<not> b_egl_cache_linked x" "b_deferred_next x = None"
  shows "host_inv (h\<lparr>h_pools := (h_pools h)(p \<mapsto> q\<lparr>p_references := Suc (p_references q),
      p_buffers := b # p_buffers q\<rparr>), h_buffers := (h_buffers h)(b \<mapsto> x)\<rparr>)" (is "host_inv ?h")
proof -
  obtain K w where h: "sane {} h K {#}" "deferred_ok h K w" "family_ok h" "subrole_ok h"
    using I by (rule host_invE)
  have "ledger (sids h) (current_of h) (pending_of h) ((account_of h)(b \<mapsto> (Suc 0, 0, True))) K {#}"
    using h(1) b by (intro ledger_new) (simp_all add: sane_def owned_def)
  moreover have "pooled ((h_pools h)(p \<mapsto> q\<lparr>p_references := Suc (p_references q),
      p_buffers := b # p_buffers q\<rparr>)) ((pool_of h)(b \<mapsto> p))"
    using h(1) b q by (intro pooled_join) (simp_all add: sane_def side_ok_def)
  ultimately have "sane {} ?h K {#}"
    using h(1) b x by (simp add: sane_def owned_def side_ok_def link_mark_def)
  moreover have "deferred_ok ?h K w" using h(2) b x by (simp add: deferred_ok_def)
  ultimately show ?thesis
    by (intro host_inv_on_surface [OF h(3,4), of 0 _ K w] on_surface_surfaces) simp_all
qed

lemma pool_undo:
  assumes "h_pools h p = Some q" "p_references q \<noteq> 0"
  shows "pool_unref p (upd_pool p (p_buffers_update (remove1 b))
    (upd_pool p (\<lambda>q. q\<lparr>p_references := Suc (p_references q), p_buffers := b # p_buffers q\<rparr>) h)) = h"
proof -
  obtain d z n f bs where q: "q = \<lparr>p_data = d, p_size = z, p_references = n, p_fd = f, p_buffers = bs\<rparr>"
    by (cases q)
  show ?thesis using assms unfolding q by (simp add: upd_pool_def pool_unref_def udec_def fun_upd_idem)
qed

lemma pool_create_buffer_inv:
  assumes I: "host_inv h" and fresh: "\<And>b. mem = Some b \<Longrightarrow> h_buffers h b = None"
    and pool: "\<And>p. pool = Some p \<Longrightarrow> h_pools h p \<noteq> None"
  shows "host_inv (pool_create_buffer client resource pool mem res offset width height stride format h)"
proof (cases pool)
  case None
  with I show ?thesis by (simp add: pool_create_buffer_def)
next
  case (Some p)
  then obtain q where q: "h_pools h p = Some q" using pool by auto
  show ?thesis
  proof (cases "pool_buffer_invalid q offset width height stride \<or>
      (format \<noteq> WL_SHM_FORMAT_XRGB8888 \<and> format \<noteq> WL_SHM_FORMAT_ARGB8888) \<or> mem = None")
    case True
    with I Some q show ?thesis by (auto simp: pool_create_buffer_def)
  next
    case False
    then obtain b where b: "mem = Some b" by auto
    have n: "h_buffers h b = None" using fresh b by simp
    show ?thesis
    proof (cases res)
      case (Some r)
      with False \<open>pool = Some p\<close> q b I n show ?thesis
        by (auto simp: pool_create_buffer_def Let_def upd_pool_def upd_buffer_def calloc_buffer_def
            intro!: pool_made_inv)
    next
      case None
      have n0: "p_references q \<noteq> 0"
        using I q by (auto simp: host_inv_def sane_def side_ok_def pooled_def)
      let ?h = "h\<lparr>h_buffers := (h_buffers h)(b \<mapsto> calloc_buffer\<lparr>
          b_data := Some (p_data q + nat offset), b_pool := Some p,
          b_size := word_of_int stride * word_of_int height, b_offset := offset,
          b_width := width, b_height := height, b_stride := stride, b_format := format,
          b_single_pixel := False, b_references := Suc 0, b_dmabuf_fd := -1, b_acquire_fence_fd := -1\<rparr>)\<rparr>"
      have "h_pools ?h p = Some q" using q by simp
      note u = pool_undo [OF this n0]
      have "pool_create_buffer client resource pool mem res offset width height stride format h =
          emit (Post_no_memory client) (free_buffer b ?h)"
        using None False \<open>pool = Some p\<close> q b by (auto simp: pool_create_buffer_def Let_def u)
      moreover have "free_buffer b ?h = h" using n by (simp add: free_buffer_def fun_upd_idem)
      ultimately show ?thesis using I by simp
    qed
  qed
qed

text \<open>Moving a mapping changes the data pointers of its buffers and nothing else.\<close>

definition dataless :: "(bid \<rightharpoonup> shm_buffer) \<Rightarrow> bid \<rightharpoonup> shm_buffer" where
  "dataless m b = map_option (\<lambda>x. x\<lparr>b_data := None\<rparr>) (m b)"

lemma dataless_upd: "dataless (m(b \<mapsto> x)) = (dataless m)(b \<mapsto> x\<lparr>b_data := None\<rparr>)"
  by (rule ext) (simp add: dataless_def)

lemma dataless_fld:
  assumes "dataless m = dataless m'" "\<And>x d. f (x\<lparr>b_data := d\<rparr>) = f x"
  shows "fld m f = fld m' f"
proof (rule ext)
  fix b
  have "map_option f (dataless m b) = map_option f (dataless m' b)" using assms(1) by simp
  then show "fld m f b = fld m' f b"
    using assms(2) by (cases "m b"; cases "m' b") (auto simp: dataless_def)
qed

lemma fold_rebase:
  assumes "\<And>b. b \<in> set bs \<Longrightarrow> h_buffers h b \<noteq> None"
  shows "\<exists>B. fold (rebase_buffer base) bs h = h\<lparr>h_buffers := B\<rparr> \<and> dataless B = dataless (h_buffers h)"
  using assms
proof (induction bs arbitrary: h)
  case Nil
  show ?case by (rule exI [of _ "h_buffers h"]) simp
next
  case (Cons b bs)
  obtain x where x: "h_buffers h b = Some x" using Cons.prems by force
  let ?h = "h\<lparr>h_buffers := (h_buffers h)(b \<mapsto> x\<lparr>b_data := Some (base + nat (b_offset x))\<rparr>)\<rparr>"
  have 1: "rebase_buffer base b h = ?h"
    using x by (cases x) (simp add: rebase_buffer_def upd_buffer_def)
  have 2: "dataless (h_buffers ?h) = dataless (h_buffers h)"
    using x by (auto simp: dataless_upd dataless_def fun_eq_iff)
  have "\<exists>B. fold (rebase_buffer base) bs ?h = ?h\<lparr>h_buffers := B\<rparr> \<and> dataless B = dataless (h_buffers ?h)"
    using Cons.prems by (intro Cons.IH) auto
  then show ?case unfolding 2 using 1 by simp
qed

lemma pool_resize_inv:
  assumes I: "host_inv h" and pool: "\<And>p. pool = Some p \<Longrightarrow> h_pools h p \<noteq> None"
  shows "host_inv (pool_resize resource pool mapped new_size h)"
proof (cases "pool = None \<or> mapped = None \<or> new_size \<le> 0 \<or>
    (\<exists>p q. pool = Some p \<and> h_pools h p = Some q \<and> (word_of_int new_size :: u64) \<le> p_size q)")
  case True
  with I pool show ?thesis by (auto simp: pool_resize_def split: option.splits)
next
  case False
  then obtain p base where p: "pool = Some p" "mapped = Some base" by auto
  then obtain q where q: "h_pools h p = Some q" using pool by auto
  obtain K w where h: "sane {} h K {#}" "deferred_ok h K w" "family_ok h" "subrole_ok h"
    using I by (rule host_invE)
  let ?q = "q\<lparr>p_data := base, p_size := word_of_int new_size\<rparr>"
  let ?h = "h\<lparr>h_pools := (h_pools h)(p \<mapsto> ?q)\<rparr>"
  have P: "pooled (h_pools h) (pool_of h)" using h(1) by (simp add: sane_def side_ok_def)
  have P': "pooled (h_pools ?h) (pool_of h)"
    using P q unfolding pooled_def by (auto split: if_splits)
  have "h_buffers ?h b \<noteq> None" if "b \<in> set (p_buffers q)" for b
  proof -
    have "pool_of h b = Some p" using P q that unfolding pooled_def by blast
    then show ?thesis by (auto simp: fld_eq_Some)
  qed
  then obtain B where B: "fold (rebase_buffer base) (p_buffers q) ?h = ?h\<lparr>h_buffers := B\<rparr>"
    "dataless B = dataless (h_buffers h)"
    using fold_rebase [of "p_buffers q" ?h base] by auto
  have eq: "pool_resize resource pool mapped new_size h = ?h\<lparr>h_buffers := B\<rparr>"
    using False p q B(1) by (simp add: pool_resize_def upd_pool_def)
  have g: "fld B b_explicit_release = buf_release h" "fld B b_pool = pool_of h" "fld B link_mark = linked_of h"
    "fld B (\<lambda>x. Some (b_references x, b_busy_users x, b_resource x \<noteq> None)) = account_of h"
    "fld B b_deferred_next = deferred_next_of h"
    by (rule dataless_fld [OF B(2)]; simp add: link_mark_def)+
  have e: "h_buffers (?h\<lparr>h_buffers := B\<rparr>) = B" "h_surfaces (?h\<lparr>h_buffers := B\<rparr>) = h_surfaces h"
    "h_server (?h\<lparr>h_buffers := B\<rparr>) = h_server h" "h_bindings (?h\<lparr>h_buffers := B\<rparr>) = h_bindings h"
    "h_fault (?h\<lparr>h_buffers := B\<rparr>) = h_fault h" "h_pools (?h\<lparr>h_buffers := B\<rparr>) = h_pools ?h" by simp_all
  have "sane {} (?h\<lparr>h_buffers := B\<rparr>) K {#}"
    using h(1) P' unfolding sane_def owned_def side_ok_def e g by blast
  moreover have "deferred_ok (?h\<lparr>h_buffers := B\<rparr>) K w" using h(2) by (simp add: deferred_ok_def g)
  ultimately show ?thesis
    unfolding eq by (intro host_inv_on_surface [OF h(3,4), of 0 _ K w] on_surface_surfaces) simp_all
qed

end
