(* ===== verification/Host_System.thy ===== *)
theory Host_System
  imports Host_Steps
begin

text \<open>
  The remaining operations on the invariant (pools, the EGL cache, attach, explicit
  synchronisation, subsurfaces), the step relation of the host and its reachable states.
\<close>

section \<open>Pools as objects\<close>

lemma host_inv_pools:
  assumes I: "host_inv h" and P: "pooled P (pool_of h)"
  shows "host_inv (h\<lparr>h_pools := P\<rparr>)"
proof -
  obtain K w where h: "sane {} h K {#}" "deferred_ok h K w" "family_ok h" "subrole_ok h"
    using I by (rule host_invE)
  have "sane {} (h\<lparr>h_pools := P\<rparr>) K {#}" using h(1) P by (simp add: sane_def owned_def side_ok_def)
  moreover have "deferred_ok (h\<lparr>h_pools := P\<rparr>) K w" using h(2) by (simp add: deferred_ok_def)
  ultimately show ?thesis
    by (intro host_inv_on_surface [OF h(3,4), of 0 _ K w] on_surface_surfaces) simp_all
qed

lemma host_inv_pooled: "host_inv h \<Longrightarrow> pooled (h_pools h) (pool_of h)"
  by (auto simp: host_inv_def sane_def side_ok_def)

lemma shm_create_pool_inv:
  assumes I: "host_inv h" and fresh: "\<And>p. mem = Some p \<Longrightarrow> h_pools h p = None"
  shows "host_inv (shm_create_pool client resource f mem mapped res pool_size h)"
proof -
  have new: "host_inv (h\<lparr>h_pools := (h_pools h)(p \<mapsto> \<lparr>p_data = base, p_size = z, p_references = Suc 0,
      p_fd = f, p_buffers = []\<rparr>)\<rparr>)" if "mem = Some p" for p base z
  proof (rule host_inv_pools [OF I])
    have "h_pools h p = None" using fresh that by simp
    then show "pooled ((h_pools h)(p \<mapsto> \<lparr>p_data = base, p_size = z, p_references = Suc 0, p_fd = f,
        p_buffers = []\<rparr>)) (pool_of h)"
      using host_inv_pooled [OF I] unfolding pooled_def by (auto split: if_splits)
  qed
  have gone: "host_inv (pool_unref p (h\<lparr>h_pools := (h_pools h)(p \<mapsto> \<lparr>p_data = base, p_size = z,
      p_references = Suc 0, p_fd = f, p_buffers = []\<rparr>)\<rparr>))" if "mem = Some p" for p base z
  proof -
    have "h_pools h p = None" using fresh that by simp
    then have "h\<lparr>h_pools := (h_pools h)(p := None)\<rparr> = h" by (simp add: fun_upd_idem)
    then show ?thesis using I by (simp add: pool_unref_def udec_def)
  qed
  show ?thesis
    using I new gone by (auto simp: shm_create_pool_def Let_def split: option.splits)
qed

text \<open>The pool's resource goes: it still held its reference.\<close>

lemma pool_resource_destroy_inv:
  assumes I: "host_inv h" and q: "h_pools h p = Some q" "p_references q = Suc (length (p_buffers q))"
  shows "host_inv (pool_resource_destroy p h)"
proof (cases "p_buffers q")
  case Nil
  have "pooled ((h_pools h)(p := None)) (pool_of h)"
    using host_inv_pooled [OF I] q Nil unfolding pooled_def by (auto split: if_splits)
  from host_inv_pools [OF I this] q Nil show ?thesis
    by (simp add: pool_resource_destroy_def pool_unref_def udec_def)
next
  case (Cons b bs)
  have P: "pooled (h_pools h) (pool_of h)" using I by (rule host_inv_pooled)
  then have d: "distinct (p_buffers q)" using q(1) by (simp add: pooled_def)
  have "pooled ((h_pools h)(p \<mapsto> q\<lparr>p_references := length (p_buffers q)\<rparr>)) (pool_of h)"
    unfolding pooled_def
  proof (intro conjI allI impI)
    fix p' q' assume "((h_pools h)(p \<mapsto> q\<lparr>p_references := length (p_buffers q)\<rparr>)) p' = Some q'"
    then show "distinct (p_buffers q')" "0 < p_references q'"
      "length (p_buffers q') \<le> p_references q'" "p_references q' \<le> Suc (length (p_buffers q'))"
      using P Cons d by (auto simp: pooled_def split: if_splits)
  next
    fix b p'
    have "pool_of h b = Some p' \<longleftrightarrow> (\<exists>q. h_pools h p' = Some q \<and> b \<in> set (p_buffers q))"
      using P by (simp add: pooled_def)
    then show "pool_of h b = Some p' \<longleftrightarrow> (\<exists>q'. ((h_pools h)(p \<mapsto> q\<lparr>p_references :=
        length (p_buffers q)\<rparr>)) p' = Some q' \<and> b \<in> set (p_buffers q'))"
      using q(1) by auto
  qed
  from host_inv_pools [OF I this] q Cons show ?thesis
    by (cases q) (simp add: pool_resource_destroy_def pool_unref_def udec_def upd_pool_def)
qed

section \<open>The EGL cache\<close>

lemma find_cached_total:
  assumes "\<And>b. b \<in> set bs \<Longrightarrow> h_buffers h b \<noteq> None"
  shows "\<exists>r'. find_cached_in h r bs = Some r' \<and> (\<forall>b. r' = Some b \<longrightarrow> b \<in> set bs)"
  using assms by (induction bs) (force split: option.splits)+

lemma host_inv_cached: "host_inv h \<Longrightarrow> b \<in> set (sv_egl_buffers (h_server h)) \<Longrightarrow> h_buffers h b \<noteq> None"
  by (auto simp: host_inv_def sane_def side_ok_def cached_def fld_eq_Some)

lemma host_inv_buffer_same:
  assumes I: "host_inv h" and x: "h_buffers h b = Some x"
    and "b_explicit_release y = b_explicit_release x" "b_pool y = b_pool x"
    "b_egl_cache_linked y = b_egl_cache_linked x" "b_references y = b_references x"
    "b_busy_users y = b_busy_users x" "b_resource y = b_resource x"
    "b_deferred_next y = b_deferred_next x"
  shows "host_inv (h\<lparr>h_buffers := (h_buffers h)(b \<mapsto> y)\<rparr>)"
proof -
  obtain K w where h: "sane {} h K {#}" "deferred_ok h K w" "family_ok h" "subrole_ok h"
    using I by (rule host_invE)
  have "sane {} (h\<lparr>h_buffers := (h_buffers h)(b \<mapsto> y)\<rparr>) K {#}"
    using assms(3-8) by (intro sane_buffer_same [OF h(1) x])
  moreover have "deferred_ok (h\<lparr>h_buffers := (h_buffers h)(b \<mapsto> y)\<rparr>) K w"
    using h(2) x assms(9) by (simp add: deferred_ok_def)
  ultimately show ?thesis
    by (intro host_inv_on_surface [OF h(3,4), of 0 _ K w] on_surface_surfaces) simp_all
qed

lemma egl_new_inv:
  assumes I: "host_inv h" and b: "h_buffers h b = None"
    and x: "b_references x = Suc 0" "b_busy_users x = 0" "b_resource x \<noteq> None"
      "b_explicit_release x = None" "b_pool x = None" "b_egl_cache_linked x" "b_deferred_next x = None"
  shows "host_inv (upd_server (\<lambda>v. v\<lparr>sv_egl_buffers := b # sv_egl_buffers v\<rparr>)
     (h\<lparr>h_buffers := (h_buffers h)(b \<mapsto> x)\<rparr>))" (is "host_inv ?h")
proof -
  obtain K w where h: "sane {} h K {#}" "deferred_ok h K w" "family_ok h" "subrole_ok h"
    using I by (rule host_invE)
  have "ledger (sids h) (current_of h) (pending_of h) ((account_of h)(b \<mapsto> (Suc 0, 0, True))) K {#}"
    using h(1) b by (intro ledger_new) (simp_all add: sane_def owned_def)
  moreover have "cached (b # sv_egl_buffers (h_server h)) ((linked_of h)(b \<mapsto> ()))"
    using h(1) b by (auto simp: sane_def side_ok_def cached_def)
  ultimately have "sane {} ?h K {#}"
    using h(1) b x by (simp add: sane_def owned_def side_ok_def link_mark_def upd_server_def)
  moreover have "deferred_ok ?h K w" using h(2) b x by (simp add: deferred_ok_def upd_server_def)
  ultimately show ?thesis
    by (intro host_inv_on_surface [OF h(3,4), of 0 _ K w] on_surface_surfaces)
      (simp_all add: upd_server_def)
qed

lemma egl_from_resource_inv:
  assumes I: "host_inv h" and fresh: "\<And>b. mem = Some b \<Longrightarrow> h_buffers h b = None"
    and r: "trierarch_egl_buffer_from_resource r mem h = (p, h')"
  shows "host_inv h' \<and> h_surfaces h' = h_surfaces h \<and> (\<forall>b. p = Some b \<longrightarrow> h_buffers h' b \<noteq> None)"
proof -
  obtain c where c: "find_cached h r = Some c" "\<And>b. c = Some b \<Longrightarrow> h_buffers h b \<noteq> None"
    using find_cached_total [of "sv_egl_buffers (h_server h)" h r] host_inv_cached [OF I]
    unfolding find_cached_def by blast
  show ?thesis
  proof (cases "sv_egl_buffer_supported (h_server h)")
    case True
    show ?thesis
    proof (cases c)
      case (Some b)
      then obtain x where x: "h_buffers h b = Some x" using c(2) by auto
      have "host_inv (h\<lparr>h_buffers := (h_buffers h)(b \<mapsto> apply_output_size (h_server h) x)\<rparr>)"
        by (rule host_inv_buffer_same [OF I x]) (simp_all add: apply_output_size_def Let_def)
      with r True c(1) Some x show ?thesis
        by (auto simp: trierarch_egl_buffer_from_resource_def upd_buffer_def)
    next
      case None
      show ?thesis
      proof (cases mem)
        case (Some b)
        let ?x = "(apply_output_size (h_server h) (calloc_buffer\<lparr>b_references := 1,
            b_resource := Some r, b_egl_buffer := True, b_server := True,
            b_acquire_fence_fd := -1, b_egl_resource := Some r,
            b_egl_listener_attached := True\<rparr>))\<lparr>b_format := WL_SHM_FORMAT_XRGB8888, b_egl_cache_linked := True\<rparr>"
        have "host_inv (upd_server (\<lambda>v. v\<lparr>sv_egl_buffers := b # sv_egl_buffers v\<rparr>)
            (h\<lparr>h_buffers := (h_buffers h)(b \<mapsto> ?x)\<rparr>))"
          using fresh Some by (intro egl_new_inv [OF I])
            (simp_all add: apply_output_size_def calloc_buffer_def Let_def)
        with r True c(1) None Some show ?thesis
          by (auto simp: trierarch_egl_buffer_from_resource_def upd_server_def)
      next
        case mem: None
        with r True c(1) None I show ?thesis by (auto simp: trierarch_egl_buffer_from_resource_def)
      qed
    qed
  next
    case False
    with r I show ?thesis by (auto simp: trierarch_egl_buffer_from_resource_def)
  qed
qed

text \<open>The destruction of the client's EGL buffer.\<close>

lemma egl_resource_destroyed_inv:
  assumes I: "host_inv h" and x: "h_buffers h b = Some x" "b_resource x \<noteq> None"
  shows "host_inv (egl_resource_destroyed b h)"
proof -
  define x1 where "x1 = x\<lparr>b_egl_listener_attached := False\<rparr>"
  define h1 where "h1 = emit Wait_idle (h\<lparr>h_buffers := (h_buffers h)(b \<mapsto> x1)\<rparr>)"
  have I1: "host_inv h1"
    unfolding h1_def using x(1)
    by (intro host_inv_emit host_inv_buffer_same [OF I]) (simp_all add: x1_def)
  have x1: "h_buffers h1 b = Some x1" by (simp add: h1_def)
  define h2 where "h2 = storage_uncache b x h1"
  obtain K w where h: "sane {} h1 K {#}" "deferred_ok h1 K w" "family_ok h1" "subrole_ok h1"
    using I1 by (rule host_invE)
  have l: "b_egl_cache_linked x1 = b_egl_cache_linked x" by (simp add: x1_def)
  note u = storage_uncache_ok [OF _ x1 l, folded h2_def]
  have s1: "side_ok h1" using h(1) by (simp add: sane_def)
  note u = u(1) [OF s1] u(2) [OF s1] u(3) [OF s1]
  define x2 where "x2 = x1\<lparr>b_egl_cache_linked := False\<rparr>"
  have bufs: "h_buffers h2 = (h_buffers h1)(b \<mapsto> x2)"
    using u(3) quietD(4) [OF u(2)] by (auto simp: fun_eq_iff x2_def)
  have S2: "sane {} h2 K {#}"
    using h(1) u(1) quietD(1,2) [OF u(2)] x1 unfolding sane_def owned_def by (simp add: bufs x2_def)
  have D2: "deferred_ok h2 K w"
    using h(2) quietD(3) [OF u(2)] x1 by (simp add: deferred_ok_def bufs x2_def)
  define x3 where "x3 = x2\<lparr>b_egl_resource := None\<rparr>"
  define h3 where "h3 = h2\<lparr>h_buffers := (h_buffers h2)(b \<mapsto> x3)\<rparr>"
  have x2': "h_buffers h2 b = Some x2" by (simp add: bufs)
  have S3: "sane {} h3 K {#}"
    unfolding h3_def by (rule sane_buffer_same [OF S2 x2']) (simp_all add: x3_def)
  have D3: "deferred_ok h3 K w" using D2 x2' by (simp add: deferred_ok_def h3_def x3_def)
  have f3: "h_surfaces h3 = h_surfaces h" "sids h3 = sids h"
    using quietD(1,2) [OF u(2)] by (simp_all add: h3_def h1_def)
  have "family_ok h3" "subrole_ok h3"
    using I f3(1) by (auto simp: host_inv_def family_ok_def subrole_ok_def children_of_def [abs_def])
  then have I3: "host_inv h3" using S3 D3 by (intro host_invI)
  have "h_buffers h3 b = Some x3" "b_resource x3 \<noteq> None"
    using x(2) by (simp_all add: h3_def x3_def x2_def x1_def)
  note d = resource_destroy_inv [OF I3 this]
  have "upd_buffer b (\<lambda>x. x\<lparr>b_egl_resource := None, b_resource := None\<rparr>) h2 =
      upd_buffer b (b_resource_update (\<lambda>_. None)) h3"
    using x2' by (simp add: upd_buffer_def h3_def x3_def)
  then have "egl_resource_destroyed b h = buffer_resource_destroy b h3"
    using x(1) by (simp add: egl_resource_destroyed_def buffer_resource_destroy_def upd_buffer_def
        Let_def h1_def [symmetric] x1_def [symmetric] h2_def storage_uncache_def)
  with d show ?thesis by simp
qed

end
