(* ===== verification/Host_Requests.thy ===== *)
theory Host_Requests
  imports Host_System
begin

text \<open>
  The requests that only touch a surface's own fields, attach, explicit synchronisation,
  the tree of subsurfaces and the end of a frame: each keeps \<open>host_inv\<close>.
\<close>

section \<open>Attach\<close>

lemma host_inv_put_surface:
  assumes "family_ok h" "subrole_ok h" "h_surfaces h s = Some x" "sane {} h' K {#}" "deferred_ok h' K w"
    "h_surfaces h' = (h_surfaces h)(s \<mapsto> y)" "sids h' = sids h"
    "s_parent y = s_parent x" "s_subsurface y = s_subsurface x" "s_children y = s_children x"
  shows "host_inv h'"
  by (rule host_inv_on_surface [OF assms(1,2) on_surface_upd assms(4,5)]) (rule assms)+

lemma set_pending_inv:
  assumes I: "host_inv h" and s: "h_surfaces h s \<noteq> None"
    and p: "\<And>b. p = Some b \<Longrightarrow> h_buffers h b \<noteq> None"
  shows "host_inv (surface_set_pending_buffer s p h)"
    "h_surfaces (surface_set_pending_buffer s p h) s \<noteq> None"
proof -
  obtain K w where h: "sane {} h K {#}" "deferred_ok h K w" "family_ok h" "subrole_ok h"
    using I by (rule host_invE)
  obtain x where x: "h_surfaces h s = Some x" using s by auto
  note q = set_pending_sane [OF h(1,2) x, of p]
  show "host_inv (surface_set_pending_buffer s p h)"
    using q p by (intro host_inv_put_surface [OF h(3,4) x, of _ K w "x\<lparr>s_pending := p\<rparr>"]) auto
  show "h_surfaces (surface_set_pending_buffer s p h) s \<noteq> None" using q p by simp
qed

lemma buffer_behind_inv:
  assumes I: "host_inv h" and fresh: "\<And>b. mem = Some b \<Longrightarrow> h_buffers h b = None"
    and r: "buffer_behind r data a mem h = (p, h')"
  shows "host_inv h' \<and> h_surfaces h' = h_surfaces h \<and> (\<forall>b. p = Some b \<longrightarrow> h_buffers h' b \<noteq> None)"
proof (cases "trierarch_egl_buffer_from_resource r mem h = (p, h')")
  case True
  with egl_from_resource_inv [OF I fresh] show ?thesis by blast
next
  case False
  with I r show ?thesis
    by (auto simp: buffer_behind_def trierarch_shm_buffer_from_resource_def
        trierarch_dmabuf_buffer_from_resource_def trierarch_android_buffer_from_resource_def
        split: option.splits if_splits)
qed

lemma attach_inv:
  assumes I: "host_inv h" and s: "\<And>s. surface = Some s \<Longrightarrow> h_surfaces h s \<noteq> None"
    and fresh: "\<And>b. mem = Some b \<Longrightarrow> h_buffers h b = None"
  shows "host_inv (surface_attach resource surface wl_buffer data a mem x y h)"
proof (cases "surface = None \<or> x \<noteq> 0 \<or> y \<noteq> 0")
  case True
  with I show ?thesis by (auto simp: surface_attach_def split: option.splits)
next
  case False
  then obtain t where t: "surface = Some t" by auto
  note live = s [OF t]
  show ?thesis
  proof (cases wl_buffer)
    case None
    with False t set_pending_inv [OF I live, of None] show ?thesis
      by (auto simp: surface_attach_def intro!: host_inv_upd_surface)
  next
    case (Some r)
    obtain p h1 where b: "buffer_behind r data a mem h = (p, h1)" by (cases "buffer_behind r data a mem h")
    note e = buffer_behind_inv [OF I fresh b]
    have "host_inv (surface_set_pending_buffer t p h1)"
      "h_surfaces (surface_set_pending_buffer t p h1) t \<noteq> None"
      using e live set_pending_inv [of h1 t p] by auto
    with e False t Some b show ?thesis
      by (auto simp: surface_attach_def intro!: host_inv_upd_surface split: option.splits)
  qed
qed

section \<open>Fields of one surface\<close>

lemma host_inv_server_upd:
  assumes "host_inv h" "\<And>v. sv_surfaces (f v) = sv_surfaces v"
    "\<And>v. sv_egl_buffers (f v) = sv_egl_buffers v"
  shows "host_inv (upd_server f h)"
  using assms by (intro host_inv_same [OF assms(1)]) (simp_all add: calm_def upd_server_def)

lemma host_inv_upd_perf [simp]: "host_inv h \<Longrightarrow> host_inv (upd_perf f h)"
  unfolding upd_perf_def by (rule host_inv_server_upd) simp_all

lemma host_inv_upd_repaint [simp]: "host_inv h \<Longrightarrow> host_inv (upd_repaint f h)"
  unfolding upd_repaint_def by (rule host_inv_server_upd) simp_all

lemma host_inv_request_render [simp]: "host_inv h \<Longrightarrow> host_inv (trierarch_wayland_request_render h)"
  by (rule host_inv_same) simp_all

lemma host_inv_emits [simp]: "host_inv h \<Longrightarrow> host_inv (emits es h)"
  by (rule host_inv_same) (simp_all add: access_defs calm_def)

lemma host_inv_bump [simp]: "host_inv h \<Longrightarrow> host_inv (bump_serial h)"
  by (rule host_inv_same) (simp_all add: access_defs calm_def)

lemma host_inv_new_resource [simp]: "host_inv h \<Longrightarrow> host_inv (new_resource c v r h)"
  by (rule host_inv_same) (simp_all add: new_resource_def calm_def)

text \<open>
  The requests of the shells, viewports and the surface itself write plain fields of a
  live surface, so one rule covers them.
\<close>

lemmas plain_request_defs =
  surface_frame_def surface_damage_def surface_damage_buffer_def surface_set_buffer_scale_def
  subsurface_set_position_def xdg_surface_ack_configure_def xdg_toplevel_resource_destroy_def
  xdg_surface_resource_destroy_def wm_base_get_xdg_surface_def viewport_set_source_def
  viewport_set_destination_def viewport_resource_destroy_def viewporter_get_viewport_def
  viewport_changed_def fractional_get_def fractional_destroy_def frame_callback_destroy_def
  layer_surface_set_size_def layer_surface_set_anchor_def layer_surface_set_exclusive_zone_def
  layer_surface_set_margin_def layer_surface_set_keyboard_interactivity_def
  layer_surface_set_layer_def layer_surface_resource_destroy_def layer_shell_get_layer_surface_def
  upd_layer_def manager_get_sync_def

lemma send_configure_inv [simp]:
  assumes "host_inv h" "h_surfaces h s \<noteq> None"
  shows "host_inv (trierarch_surface_send_configure s h)"
  using assms by (auto simp: trierarch_surface_send_configure_def Let_def split: option.splits)

lemma get_toplevel_inv:
  assumes I: "host_inv h" and s: "\<And>s. surface = Some s \<Longrightarrow> h_surfaces h s \<noteq> None"
  shows "host_inv (xdg_surface_get_toplevel client resource res surface h)"
proof -
  have "host_inv (trierarch_surface_send_configure t (upd_surface t (s_xdg_toplevel_update (\<lambda>_. Some r)) h))"
    if "surface = Some t" for t r
  proof -
    have "host_inv (upd_surface t (s_xdg_toplevel_update (\<lambda>_. Some r)) h)"
      by (rule host_inv_upd_surface [OF I s [OF that]]) simp_all
    then show ?thesis using s [OF that] by (intro send_configure_inv) (auto simp: upd_surface_def)
  qed
  with I s show ?thesis by (auto simp: xdg_surface_get_toplevel_def split: option.splits)
qed

section \<open>Explicit synchronisation\<close>

lemma set_acquire_fence_inv:
  assumes I: "host_inv h" and s: "\<And>s. surface = Some s \<Longrightarrow> h_surfaces h s \<noteq> None"
  shows "host_inv (sync_set_acquire_fence resource surface f h)"
  using I s by (auto simp: sync_set_acquire_fence_def intro!: host_inv_upd_surface split: option.splits)

lemma close_fence_inv:
  assumes "host_inv h" "h_surfaces h s \<noteq> None"
  shows "host_inv (close_acquire_fence s h)"
  using assms by (auto simp: close_acquire_fence_def close_fd_def emit_def [abs_def]
      intro!: host_inv_upd_surface host_inv_emit [unfolded emit_def] split: option.splits)

lemma sync_destroy_inv:
  assumes I: "host_inv h" and s: "\<And>s. surface = Some s \<Longrightarrow> h_surfaces h s \<noteq> None"
  shows "host_inv (sync_resource_destroy resource surface h)"
proof -
  have "host_inv (close_acquire_fence t (upd_surface t (s_explicit_sync_update (\<lambda>_. None)) h))"
    if "surface = Some t" for t
  proof (rule close_fence_inv)
    show "host_inv (upd_surface t (s_explicit_sync_update (\<lambda>_. None)) h)"
      by (rule host_inv_upd_surface [OF I s [OF that]]) simp_all
    show "h_surfaces (upd_surface t (s_explicit_sync_update (\<lambda>_. None)) h) t \<noteq> None"
      using s [OF that] by (auto simp: upd_surface_def)
  qed
  with I s show ?thesis by (auto simp: sync_resource_destroy_def split: option.splits)
qed

lemma bound_bind_surface:
  assumes "bound B br sr" "sr s = None" "B r = None"
  shows "bound (B(r \<mapsto> \<lparr>rb_surface = Some s, rb_buffer = None\<rparr>)) br (sr(s \<mapsto> r))"
  using assms unfolding bound_def by (auto simp: fld_eq_Some; force simp: fld_eq_Some)

lemma get_release_inv:
  assumes I: "host_inv h" and s: "\<And>s. surface = Some s \<Longrightarrow> h_surfaces h s \<noteq> None"
    and fresh: "\<And>r. res = Some r \<Longrightarrow> h_bindings h r = None"
  shows "host_inv (sync_get_release client resource surface mem res h)"
proof -
  have "host_inv (upd_surface t (s_pending_explicit_release_update (\<lambda>_. Some r))
      (h\<lparr>h_bindings := (h_bindings h)(r \<mapsto> \<lparr>rb_surface = Some t, rb_buffer = None\<rparr>)\<rparr>))" (is "host_inv ?h")
    if t: "surface = Some t" and r: "res = Some r" and x: "h_surfaces h t = Some x"
      and n: "s_pending_explicit_release x = None" for t r x
  proof -
    obtain K w where h: "sane {} h K {#}" "deferred_ok h K w" "family_ok h" "subrole_ok h"
      using I by (rule host_invE)
    have "bound ((h_bindings h)(r \<mapsto> \<lparr>rb_surface = Some t, rb_buffer = None\<rparr>)) (buf_release h)
        ((surf_release h)(t \<mapsto> r))"
      using h(1) n x fresh [OF r] by (intro bound_bind_surface) (simp_all add: sane_def side_ok_def)
    then have "sane {} ?h K {#}"
      using h(1) x by (auto simp: sane_def owned_def side_ok_def upd_surface_def)
    moreover have "deferred_ok ?h K w" using h(2) x by (simp add: deferred_ok_def upd_surface_def)
    ultimately show ?thesis
      by (rule host_inv_put_surface [OF h(3,4) x, where y = "x\<lparr>s_pending_explicit_release := Some r\<rparr>"])
        (simp_all add: x upd_surface_def)
  qed
  with I s show ?thesis by (auto simp: sync_get_release_def split: option.splits)
qed

text \<open>The client's release object goes, whoever holds it.\<close>

lemma release_destroy_inv:
  assumes I: "host_inv h"
  shows "host_inv (release_destroy r h)"
proof -
  obtain K w where h: "sane {} h K {#}" "deferred_ok h K w" "family_ok h" "subrole_ok h"
    using I by (rule host_invE)
  have side: "side_ok h" using h(1) by (simp add: sane_def)
  have emitted: "destroy_release r h = emit e h' \<Longrightarrow> e = Destroyed r \<Longrightarrow> release_destroy r h = h'" for e h'
    by (cases "release_destroy r h"; cases h') (simp add: destroy_release_def emit_def)
  show ?thesis
  proof (cases "h_bindings h r")
    case None
    with I show ?thesis by (simp add: release_destroy_def)
  next
    case (Some bd)
    note live = bound_live [of "h_bindings h" "h_buffers h" "h_surfaces h" r bd]
    show ?thesis
    proof (cases "rb_buffer bd")
      case (Some b)
      then obtain x where x: "h_buffers h b = Some x" "b_explicit_release x = Some r"
        using live side \<open>h_bindings h r = Some bd\<close> by (auto simp: side_ok_def)
      have "release_destroy r h = without_release b x r h"
        using destroy_release_buffer(1) [OF side x] by (rule emitted) simp
      moreover have "sane {} (without_release b x r h) K {#}" by (rule sane_without_release [OF h(1) x])
      moreover have "deferred_ok (without_release b x r h) K w"
        using h(2) x by (simp add: deferred_ok_def without_release_def)
      ultimately show ?thesis
        by (auto intro!: host_inv_on_surface [OF h(3,4), of 0] on_surface_surfaces simp: without_release_def)
    next
      case nb: None
      show ?thesis
      proof (cases "rb_surface bd")
        case (Some s)
        then obtain x where x: "h_surfaces h s = Some x" "s_pending_explicit_release x = Some r"
          using live side \<open>h_bindings h r = Some bd\<close> by (auto simp: side_ok_def)
        have eq: "release_destroy r h = without_pending_release s x r h"
          using destroy_release_surface [OF side x] by (rule emitted) simp
        have "bound ((h_bindings h)(r := None)) (buf_release h) ((surf_release h)(s := None))"
          using side x by (intro bound_drop_surface) (simp_all add: side_ok_def)
        then have "sane {} (without_pending_release s x r h) K {#}"
          using h(1) x by (auto simp: sane_def owned_def side_ok_def without_pending_release_def)
        moreover have "deferred_ok (without_pending_release s x r h) K w"
          using h(2) by (simp add: deferred_ok_def without_pending_release_def)
        ultimately show ?thesis
          unfolding eq
          by (rule host_inv_put_surface [OF h(3,4) x(1), where y = "x\<lparr>s_pending_explicit_release := None\<rparr>"])
            (simp_all add: without_pending_release_def)
      next
        case None
        have "bound ((h_bindings h)(r := None)) (buf_release h) (surf_release h)"
          using side \<open>h_bindings h r = Some bd\<close> nb None
          by (auto simp: side_ok_def bound_def fld_eq_Some)
        then have "sane {} (h\<lparr>h_bindings := (h_bindings h)(r := None)\<rparr>) K {#}"
          using h(1) by (simp add: sane_def owned_def side_ok_def)
        moreover have "deferred_ok (h\<lparr>h_bindings := (h_bindings h)(r := None)\<rparr>) K w"
          using h(2) by (simp add: deferred_ok_def)
        ultimately show ?thesis
          using Some nb None \<open>h_bindings h r = Some bd\<close>
          by (intro host_inv_on_surface [OF h(3,4), of 0 _ K w] on_surface_surfaces)
            (simp_all add: release_destroy_def)
      qed
    qed
  qed
qed

section \<open>Subsurfaces\<close>

lemma host_inv_tree:
  assumes "host_inv h" "calm h h'" "family_ok h'" "subrole_ok h'"
  shows "host_inv h'"
  using assms by (auto simp: host_inv_def calm_sane calm_deferred)

lemma subrole_keep:
  "subrole_ok h \<Longrightarrow> parent_of h' = parent_of h \<Longrightarrow> subsurface_of h' = subsurface_of h \<Longrightarrow> subrole_ok h'"
  by (simp add: subrole_ok_def)

lemma stacking_inv:
  assumes I: "host_inv h" and ns: "surface = None \<or> sibling \<noteq> surface"
  shows "host_inv (subsurface_place_above r surface sibling h)"
    "host_inv (subsurface_place_below r surface sibling h)"
proof -
  have F: "family_ok h" "subrole_ok h" using I by (simp_all add: host_inv_def)
  have put: "host_inv h'" if "h_surfaces h p = Some x"
    "h' = h\<lparr>h_surfaces := (h_surfaces h)(p \<mapsto> x\<lparr>s_children := c\<rparr>)\<rparr>" "family_ok h'" for h' p x c
  proof (rule host_inv_tree [OF I _ that(3)])
    show "calm h h'" using that(1,2) by (auto simp: calm_def)
    show "subrole_ok h'" using that(1,2) by (intro subrole_keep [OF F(2)]) simp_all
  qed
  show "host_inv (subsurface_place_above r surface sibling h)"
    using I place_above_children [OF F(1), of surface sibling _ _ _ r]
      put [OF _ _ family_ok_place_above [OF F(1) ns, of r]] ns
    by (cases "stacking_target h surface sibling")
      (simp add: subsurface_place_above_def, force simp: stacking_target_def split: option.splits if_splits)
  show "host_inv (subsurface_place_below r surface sibling h)"
    using I place_below_children [OF F(1), of surface sibling _ _ _ r]
      put [OF _ _ family_ok_place_below [OF F(1) ns, of r]] ns
    by (cases "stacking_target h surface sibling")
      (simp add: subsurface_place_below_def, force simp: stacking_target_def split: option.splits if_splits)
qed

lemma family_adopt:
  assumes "family children parent" "parent s = None"
  shows "family (children(p := s # children p)) (parent(s \<mapsto> p))"
  using assms unfolding family_def by (auto split: if_splits; metis option.distinct(1))

lemma family_drop:
  assumes "family children parent" "parent s = Some p"
  shows "family (children(p := remove1 s (children p))) (parent(s := None))"
proof -
  have 1: "parent t = Some q \<longleftrightarrow> t \<in> set (children q)" "distinct (children q)" for t q
    using assms(1) by (simp_all add: family_def)
  have 2: "s \<notin> set (children q)" if "q \<noteq> p" for q using 1(1) [of s q] assms(2) that by simp
  show ?thesis
    unfolding family_def using 1 2 by (auto simp: set_remove1_eq)
qed

text \<open>A surface without its subsurface object has no parent, so it can be adopted.\<close>

lemma get_subsurface_inv:
  assumes I: "host_inv h" and s: "\<And>s. surface = Some s \<Longrightarrow> h_surfaces h s \<noteq> None"
    and p: "\<And>p. parent = Some p \<Longrightarrow> h_surfaces h p \<noteq> None"
  shows "host_inv (subcompositor_get_subsurface client resource res surface parent h)"
proof -
  have F: "family_ok h" "subrole_ok h" using I by (simp_all add: host_inv_def)
  have "host_inv (upd_surface q (s_children_update (\<lambda>c. t # c))
      (upd_surface t (\<lambda>v. v\<lparr>s_subsurface := Some r, s_parent := Some q\<rparr>) h))" (is "host_inv ?h")
    if t: "surface = Some t" "parent = Some q" "t \<noteq> q" "subsurface_of h t = None" for t q r
  proof -
    obtain x y where xy: "h_surfaces h t = Some x" "h_surfaces h q = Some y" using s p t by blast
    have e: "h_surfaces ?h = (h_surfaces h)(t \<mapsto> x\<lparr>s_subsurface := Some r, s_parent := Some q\<rparr>,
        q \<mapsto> y\<lparr>s_children := t # s_children y\<rparr>)"
      using xy t(3) by (cases y) (simp add: upd_surface_def)
    have n: "parent_of h t = None" using F(2) t(4) unfolding subrole_ok_def by metis
    have par: "parent_of ?h = (parent_of h)(t \<mapsto> q)" using xy t(3) by (auto simp: e fun_eq_iff)
    have ch: "children_of ?h = (children_of h)(q := t # children_of h q)"
      using xy t(3) by (auto simp: e children_of_def fun_eq_iff)
    show ?thesis
    proof (rule host_inv_tree [OF I])
      show "calm h ?h" using xy t(3) by (auto simp: calm_def upd_surface_def fun_eq_iff)
      show "family_ok ?h" using family_adopt n F(1) unfolding family_ok_def par ch by blast
      have "subsurface_of ?h = (subsurface_of h)(t \<mapsto> r)" using xy t(3) by (auto simp: e fun_eq_iff)
      then show "subrole_ok ?h" using F(2) unfolding subrole_ok_def par by simp
    qed
  qed
  with I show ?thesis by (auto simp: subcompositor_get_subsurface_def split: option.splits)
qed

lemma subsurface_destroy_inv:
  assumes I: "host_inv h" and s: "\<And>s. surface = Some s \<Longrightarrow> h_surfaces h s \<noteq> None"
  shows "host_inv (subsurface_resource_destroy resource surface h)"
proof (cases "\<exists>t x. surface = Some t \<and> h_surfaces h t = Some x \<and> s_subsurface x = Some resource")
  case False
  with I s show ?thesis by (auto simp: subsurface_resource_destroy_def split: option.splits)
next
  case True
  then obtain t x where x: "surface = Some t" "h_surfaces h t = Some x" "s_subsurface x = Some resource" by blast
  have F: "family_ok h" "subrole_ok h" using I by (simp_all add: host_inv_def)
  let ?h = "unlink_from_parent t (upd_surface t (s_subsurface_update (\<lambda>_. None)) h)"
  have eq: "subsurface_resource_destroy resource surface h = ?h"
    using x by (simp add: subsurface_resource_destroy_def)
  have d: "calm h ?h \<and> family_ok ?h"
    using good_subsurface_destroy [of h t resource] x(2) F(1) eq x(1) by (simp add: good_def)
  have g: "good h (upd_surface t (s_subsurface_update (\<lambda>_. None)) h)"
    using x(2) by (intro good_upd_surface) simp_all
  have "parent_of ?h t = None" using g F(1) x(2) by (intro good_unlink(2)) (auto simp: good_def upd_surface_def)
  moreover have "others t h ?h" by (simp add: others_unlink)
  ultimately have "subrole_ok ?h" using F(2) unfolding subrole_ok_def others_def by metis
  with d show ?thesis unfolding eq by (intro host_inv_tree [OF I]) simp_all
qed

section \<open>Frames\<close>

lemma host_inv_sids: "host_inv h \<Longrightarrow> s \<in> set (sids h) \<Longrightarrow> h_surfaces h s \<noteq> None"
  by (auto simp: host_inv_def sane_def side_ok_def)

lemma host_inv_fold:
  assumes step: "\<And>s h. host_inv h \<Longrightarrow> h_surfaces h s \<noteq> None \<Longrightarrow>
      host_inv (f s h) \<and> dom (h_surfaces (f s h)) = dom (h_surfaces h)"
    and I: "host_inv h" "set ss \<subseteq> dom (h_surfaces h)"
  shows "host_inv (fold f ss h) \<and> dom (h_surfaces (fold f ss h)) = dom (h_surfaces h)"
  using I
proof (induction ss arbitrary: h)
  case (Cons s ss)
  then have "host_inv (f s h) \<and> dom (h_surfaces (f s h)) = dom (h_surfaces h)"
    by (intro step) auto
  with Cons.IH [of "f s h"] Cons.prems(2) show ?case by simp
qed simp

lemma dom_upd_surface: "h_surfaces h s \<noteq> None \<Longrightarrow> dom (h_surfaces (upd_surface s f h)) = dom (h_surfaces h)"
  by (auto simp: upd_surface_def split: if_splits)

lemma dom_keep:
  "dom (h_surfaces (upd_perf f h)) = dom (h_surfaces h)" "dom (h_surfaces (emits es h)) = dom (h_surfaces h)"
  "h_surfaces (emits es h) = h_surfaces h"
  by (simp_all add: access_defs)

lemma frame_steps_inv:
  assumes I: "host_inv h" and s: "h_surfaces h s \<noteq> None"
  shows "host_inv (clear_damage s h) \<and> dom (h_surfaces (clear_damage s h)) = dom (h_surfaces h)"
    "host_inv (requeue_one s h) \<and> dom (h_surfaces (requeue_one s h)) = dom (h_surfaces h)"
    "host_inv (send_callbacks_of t s h) \<and> dom (h_surfaces (send_callbacks_of t s h)) = dom (h_surfaces h)"
    "host_inv (latch_one s h) \<and> dom (h_surfaces (latch_one s h)) = dom (h_surfaces h)"
proof -
  note one = host_inv_upd_surface dom_upd_surface
  show "host_inv (clear_damage s h) \<and> dom (h_surfaces (clear_damage s h)) = dom (h_surfaces h)"
    "host_inv (requeue_one s h) \<and> dom (h_surfaces (requeue_one s h)) = dom (h_surfaces h)"
    using I s unfolding clear_damage_def requeue_one_def by (simp_all add: one)
  obtain x where x: "h_surfaces h s = Some x" using s by auto
  show "host_inv (send_callbacks_of t s h) \<and> dom (h_surfaces (send_callbacks_of t s h)) = dom (h_surfaces h)"
    "host_inv (latch_one s h) \<and> dom (h_surfaces (latch_one s h)) = dom (h_surfaces h)"
    using I x by (simp_all add: send_callbacks_of_def latch_one_def Let_def one dom_keep)
qed

lemma sids_live: "host_inv h \<Longrightarrow> set (sids h) \<subseteq> dom (h_surfaces h)"
  using host_inv_sids by blast

lemma frame_presented_inv:
  assumes I: "host_inv h"
  shows "host_inv (trierarch_wayland_frame_presented t h)"
proof -
  let ?h1 = "fold clear_damage (sids h) h"
  have 1: "host_inv ?h1"
    using host_inv_fold [OF frame_steps_inv(1) I sids_live [OF I]] by simp
  have "host_inv (trierarch_surface_send_frame_callbacks t ?h1)"
    unfolding trierarch_surface_send_frame_callbacks_def
    using host_inv_fold [OF frame_steps_inv(3) 1 sids_live [OF 1]] by simp
  then show ?thesis
    by (simp add: trierarch_wayland_frame_presented_def repaint_frame_done_def schedule_repaint_def Let_def)
qed

lemma requeue_inv: "host_inv h \<Longrightarrow> host_inv (trierarch_surface_requeue_frame_callbacks h)"
  unfolding trierarch_surface_requeue_frame_callbacks_def
  using host_inv_fold [OF frame_steps_inv(2) _ sids_live] by simp

text \<open>
  The walk over the ancestors never meets a freed surface; on a cycle of parents it does
  not return.
\<close>

lemma ancestors_shown_live:
  assumes "family_ok h" "ancestors_shown h p = Some r" "\<And>q. p = Some q \<Longrightarrow> h_surfaces h q \<noteq> None"
  shows "r \<noteq> None"
  using assms(2) assms(1,3)
proof (induction rule: ancestors_shown.raw_induct [rotated, consumes 1, case_names walk])
  case (walk f h p r)
  note IH = walk(1) and eq = walk(2) and F = walk.prems(1) and L = walk.prems(2)
  show ?case
  proof (cases p)
    case (Some q)
    then obtain x where x: "h_surfaces h q = Some x" using L by auto
    have live: "h_surfaces h q' \<noteq> None" if "s_parent x = Some q'" for q'
      using family_ok_parent_live [OF F, of q q'] x that by simp
    show ?thesis
      using IH [of h "s_parent x" r] eq F live Some x by (auto split: if_splits)
  qed (use eq in auto)
qed

lemma participates_family:
  assumes F: "family_ok h" and s: "h_surfaces h s \<noteq> None"
    and r: "surface_participates_in_output h s = Some r"
  shows "r \<noteq> None"
proof -
  obtain x where x: "h_surfaces h s = Some x" using s by auto
  have live: "h_surfaces h q \<noteq> None" if "s_parent x = Some q" for q
    using family_ok_parent_live [OF F, of s q] x that by simp
  from r x live ancestors_shown_live [OF F, of "s_parent x" r] show ?thesis
    by (auto simp: surface_participates_in_output_def split: if_splits)
qed

lemma participates_live:
  assumes "host_inv h" "h_surfaces h s \<noteq> None" "surface_participates_in_output h s = Some r"
  shows "r \<noteq> None"
  using participates_family assms unfolding host_inv_def by blast

lemma latch_inv:
  assumes "latch_all ss h = Some h'" "host_inv h" "set ss \<subseteq> dom (h_surfaces h)"
  shows "host_inv h'"
  using assms
proof (induction ss arbitrary: h)
  case (Cons s ss)
  have s: "h_surfaces h s \<noteq> None" using Cons.prems(3) by auto
  then obtain x where x: "h_surfaces h s = Some x" by auto
  obtain r where r: "surface_participates_in_output h s = Some r"
    using Cons.prems(1) by (cases "surface_participates_in_output h s") auto
  obtain b where b: "r = Some b" using participates_live [OF Cons.prems(2) s r] by auto
  note l = frame_steps_inv(4) [OF Cons.prems(2) s]
  have rest: "set ss \<subseteq> dom (h_surfaces h)" using Cons.prems(3) by simp
  show ?case
    using Cons.prems(1,2) Cons.IH [of h] Cons.IH [of "latch_one s h"] l rest r b x
    by (cases b) (auto split: if_splits)
qed simp

end
