(* ===== verification/Host_Machine.thy ===== *)
theory Host_Machine
  imports Host_Requests
begin

text \<open>
  The host as a transition system: a request of a client, the destruction of one of its
  objects, in any order, and what the host does between them (deferred releases, frames).
  \<open>host_step\<close> guards each operation with what libwayland guarantees of its arguments:
  a request arrives for an object that exists, and memory and resources are fresh.
\<close>

section \<open>The start\<close>

text \<open>
  The state \<^verbatim>\<open>trierarch_wayland_create\<close> leaves. \<open>ready\<close>: the display, the timers and
  the socket could be set up; \<open>timer\<close> is the repaint timer; \<open>device\<close> is what
  \<^verbatim>\<open>trierarch_dmabuf_feedback_device_create\<close> returns. The display's serial starts at 0,
  and a client or version is only read of a resource created before.
\<close>

definition zero_keyboard :: keyboard_state where
  "zero_keyboard = \<lparr>keyboard_mods_depressed = 0, keyboard_mods_locked = 0,
     keyboard_caps_lock = False, keyboard_num_lock = False, keyboard_scroll_lock = False,
     keyboard_caps_lock_down = False, keyboard_num_lock_down = False,
     keyboard_scroll_lock_down = False\<rparr>"

definition trierarch_wayland_create ::
  "bool \<Rightarrow> bool \<Rightarrow> fd \<Rightarrow> feedback_device option \<Rightarrow> host option" where
  "trierarch_wayland_create ready dmabuf_enabled timer device =
     (if \<not> ready then None
      else Some \<lparr>
        h_server = \<lparr>sv_surfaces = [], sv_egl_buffers = [], sv_output_resources = [],
          sv_xdg_output_resources = [], sv_pointer_resources = [], sv_keyboard_resources = [],
          sv_pointer_focus = None, sv_keyboard_focus = None, sv_cursor_surface = None,
          sv_pointer_x = wl_fixed_from_int (c_div 1080 2),
          sv_pointer_y = wl_fixed_from_int (c_div 1920 2),
          sv_cursor_hotspot_x = 0, sv_cursor_hotspot_y = 0, sv_pointer_buttons = 0,
          sv_keyboard = zero_keyboard, sv_cursor_visible = True,
          sv_output_width = 1080, sv_output_height = 1920, sv_egl_buffer_supported = False,
          sv_dmabuf_enabled = dmabuf_enabled,
          sv_dmabuf_feedback_device = (if dmabuf_enabled then device else None),
          sv_dmabuf_global = False, sv_repaint = init_repaint timer,
          sv_perf = zero_server_perf, sv_diag = zero_server_diag\<rparr>,
        h_surfaces = Map.empty, h_buffers = Map.empty, h_pools = Map.empty,
        h_bindings = Map.empty, h_deferred = None, h_client = (\<lambda>_. 0), h_version = (\<lambda>_. 0),
        h_serial = 0, h_timer_ok = True, h_poll_result = 1, h_log = [], h_fault = False\<rparr>)"

lemma create_inv:
  assumes "trierarch_wayland_create ready dm timer device = Some h"
  shows "host_inv h"
proof -
  have h: "h_surfaces h = Map.empty" "h_buffers h = Map.empty" "h_pools h = Map.empty"
    "h_bindings h = Map.empty" "h_deferred h = None" "\<not> h_fault h" "sids h = []"
    "sv_egl_buffers (h_server h) = []"
    using assms by (auto simp: trierarch_wayland_create_def split: if_splits)
  have e: "fld Map.empty f = (\<lambda>_. None)" for f :: "'a \<Rightarrow> 'b option"
    by (rule ext) simp
  have "sane {} h {#} {#}"
    by (simp add: sane_def owned_def side_ok_def h e ledger_def bound_def pooled_def cached_def)
  moreover have "deferred_ok h {#} []" by (simp add: deferred_ok_def h)
  moreover have "family_ok h" "subrole_ok h"
    by (simp_all add: family_ok_def family_def children_of_def subrole_ok_def h e)
  ultimately show ?thesis by (rule host_invI)
qed

section \<open>Steps\<close>

text \<open>A surface argument is a live surface, or the null pointer.\<close>

definition alive :: "host \<Rightarrow> sid option \<Rightarrow> bool" where
  "alive h p \<longleftrightarrow> (case p of None \<Rightarrow> True | Some s \<Rightarrow> h_surfaces h s \<noteq> None)"

definition unused :: "('k \<rightharpoonup> 'v) \<Rightarrow> 'k option \<Rightarrow> bool" where
  "unused m p \<longleftrightarrow> (case p of None \<Rightarrow> True | Some k \<Rightarrow> m k = None)"

definition pool_alive :: "host \<Rightarrow> pool_id option \<Rightarrow> bool" where
  "pool_alive h p \<longleftrightarrow> (case p of None \<Rightarrow> True | Some q \<Rightarrow> h_pools h q \<noteq> None)"

text \<open>Requests on surfaces and their role objects.\<close>

inductive surface_step :: "host \<Rightarrow> host \<Rightarrow> bool" where
  create: "unused (h_surfaces h) mem \<Longrightarrow> surface_step h (compositor_create_surface client r mem res h)"
| destroy: "h_surfaces h s \<noteq> None \<Longrightarrow> surface_step h (surface_resource_destroy s h)"
| attach: "alive h p \<Longrightarrow> unused (h_buffers h) mem \<Longrightarrow>
    surface_step h (surface_attach r p wl_buffer data android mem x y h)"
| damage: "alive h p \<Longrightarrow> surface_step h (surface_damage p h)"
| damage_buffer: "alive h p \<Longrightarrow> surface_step h (surface_damage_buffer p h)"
| scale: "alive h p \<Longrightarrow> surface_step h (surface_set_buffer_scale p n h)"
| frame: "alive h p \<Longrightarrow> surface_step h (surface_frame client p ok res h)"
| callback_destroy: "h_surfaces h s \<noteq> None \<Longrightarrow> surface_step h (frame_callback_destroy s r h)"
| commit: "alive h p \<Longrightarrow> surface_step h (surface_commit p h)"
| get_subsurface: "alive h p \<Longrightarrow> alive h q \<Longrightarrow>
    surface_step h (subcompositor_get_subsurface client r res p q h)"
| subsurface_destroy: "alive h p \<Longrightarrow> surface_step h (subsurface_resource_destroy r p h)"
| set_position: "alive h p \<Longrightarrow> surface_step h (subsurface_set_position p x y h)"
| place_above: "p = None \<or> q \<noteq> p \<Longrightarrow> surface_step h (subsurface_place_above r p q h)"
| place_below: "p = None \<or> q \<noteq> p \<Longrightarrow> surface_step h (subsurface_place_below r p q h)"
| get_sync: "alive h p \<Longrightarrow> surface_step h (manager_get_sync client r res p h)"
| set_fence: "alive h p \<Longrightarrow> surface_step h (sync_set_acquire_fence r p f h)"
| get_release: "alive h p \<Longrightarrow> unused (h_bindings h) res \<Longrightarrow>
    surface_step h (sync_get_release client r p ok res h)"
| sync_destroy: "alive h p \<Longrightarrow> surface_step h (sync_resource_destroy r p h)"
| release_gone: "surface_step h (release_destroy r h)"

text \<open>Requests of the shells and the extensions of a surface.\<close>

inductive shell_step :: "host \<Rightarrow> host \<Rightarrow> bool" where
  get_xdg_surface: "alive h p \<Longrightarrow> shell_step h (wm_base_get_xdg_surface client r res p h)"
| get_toplevel: "alive h p \<Longrightarrow> shell_step h (xdg_surface_get_toplevel client r res p h)"
| get_popup: "shell_step h (xdg_surface_get_popup client r res h)"
| reposition: "shell_step h (popup_reposition r token h)"
| ack: "alive h p \<Longrightarrow> shell_step h (xdg_surface_ack_configure p h)"
| configure: "alive h p \<Longrightarrow> shell_step h (send_configure_to p h)"
| toplevel_destroy: "alive h p \<Longrightarrow> shell_step h (xdg_toplevel_resource_destroy p h)"
| xdg_destroy: "alive h p \<Longrightarrow> shell_step h (xdg_surface_resource_destroy p h)"
| get_viewport: "alive h p \<Longrightarrow> shell_step h (viewporter_get_viewport client r res p h)"
| set_source: "alive h p \<Longrightarrow> shell_step h (viewport_set_source p x y w ht h)"
| set_destination: "alive h p \<Longrightarrow> shell_step h (viewport_set_destination p w ht h)"
| viewport_destroy: "alive h p \<Longrightarrow> shell_step h (viewport_resource_destroy p h)"
| get_fractional: "alive h p \<Longrightarrow> shell_step h (fractional_get client r res p h)"
| fractional_destroyed: "alive h p \<Longrightarrow> shell_step h (fractional_destroy r p h)"
| get_layer: "alive h p \<Longrightarrow> shell_step h (layer_shell_get_layer_surface client r res p layer h)"
| set_size: "alive h p \<Longrightarrow> shell_step h (layer_surface_set_size r p lw lh h)"
| set_anchor: "alive h p \<Longrightarrow> shell_step h (layer_surface_set_anchor r p a h)"
| set_zone: "alive h p \<Longrightarrow> shell_step h (layer_surface_set_exclusive_zone p z h)"
| set_margin: "alive h p \<Longrightarrow> shell_step h (layer_surface_set_margin p a b c d h)"
| set_interactivity: "shell_step h (layer_surface_set_keyboard_interactivity r k h)"
| set_layer: "alive h p \<Longrightarrow> shell_step h (layer_surface_set_layer r p layer h)"
| layer_destroy: "alive h p \<Longrightarrow> shell_step h (layer_surface_resource_destroy p h)"

text \<open>Buffers and pools.\<close>

inductive buffer_step :: "host \<Rightarrow> host \<Rightarrow> bool" where
  create_pool: "unused (h_pools h) mem \<Longrightarrow>
    buffer_step h (shm_create_pool client r f mem mapped res size_arg h)"
| pool_buffer: "unused (h_buffers h) mem \<Longrightarrow> pool_alive h p \<Longrightarrow>
    buffer_step h (pool_create_buffer client r p mem res offset width height stride format h)"
| resize: "pool_alive h p \<Longrightarrow> buffer_step h (pool_resize r p mapped size_arg h)"
| pool_destroy: "h_pools h p = Some q \<Longrightarrow> p_references q = Suc (length (p_buffers q)) \<Longrightarrow>
    buffer_step h (pool_resource_destroy p h)"
| single_pixel: "unused (h_buffers h) mem \<Longrightarrow>
    buffer_step h (manager_create_u32_rgba_buffer client mem data res h)"
| android: "unused (h_buffers h) mem \<Longrightarrow>
    buffer_step h (wlegl_create_buffer client native ahb mem res width height stride format wh h)"
| dmabuf: "unused (h_buffers h) mem \<Longrightarrow>
    buffer_step h (snd (params_create r token mapped mem res width height format prm h))"
| dmabuf_immed: "unused (h_buffers h) mem \<Longrightarrow>
    buffer_step h (snd (params_create_immed r token mapped mem res width height format prm h))"
| buffer_destroy: "h_buffers h b = Some x \<Longrightarrow> b_resource x \<noteq> None \<Longrightarrow> \<not> b_egl_buffer x \<Longrightarrow>
    buffer_step h (buffer_resource_destroy b h)"
| egl_destroy: "h_buffers h b = Some x \<Longrightarrow> b_resource x \<noteq> None \<Longrightarrow> b_egl_buffer x \<Longrightarrow>
    buffer_step h (egl_resource_destroyed b h)"

text \<open>The host's own turn: deferred releases, frames, the repaint machine, the output.\<close>

inductive frame_step :: "host \<Rightarrow> host \<Rightarrow> bool" where
  flush: "trierarch_flush_deferred_releases h = Some h' \<Longrightarrow> frame_step h h'"
| latch: "trierarch_surface_latch_frame_callbacks h = Some h' \<Longrightarrow> frame_step h h'"
| requeue: "frame_step h (trierarch_surface_requeue_frame_callbacks h)"
| present: "frame_step h (trierarch_wayland_frame_presented time h)"
| repaint: "repaint_step h h' \<Longrightarrow> frame_step h h'"
| resize_output: "frame_step h (trierarch_wayland_set_output_size width height h)"
| output_bind: "frame_step h (trierarch_output_bind client version res ok h)"
| output_destroy: "frame_step h (output_resource_destroy r h)"
| xdg_output_bind: "frame_step h (manager_get_output client r res ok h)"
| xdg_output_destroy: "frame_step h (xdg_output_resource_destroy r h)"

definition host_step :: "host \<Rightarrow> host \<Rightarrow> bool" where
  "host_step h h' \<longleftrightarrow> surface_step h h' \<or> shell_step h h' \<or> buffer_step h h' \<or> frame_step h h'"

section \<open>Every step keeps the invariant\<close>

lemma aliveD: "p = Some s \<Longrightarrow> alive h p \<Longrightarrow> h_surfaces h s \<noteq> None"
  by (simp add: alive_def)

lemma unusedD: "p = Some k \<Longrightarrow> unused m p \<Longrightarrow> m k = None"
  by (simp add: unused_def)

lemma pool_aliveD: "p = Some q \<Longrightarrow> pool_alive h p \<Longrightarrow> h_pools h q \<noteq> None"
  by (simp add: pool_alive_def)

lemma plain_requests_inv:
  assumes I: "host_inv h" and p: "alive h p"
  shows "host_inv (surface_damage p h)" "host_inv (surface_damage_buffer p h)"
    "host_inv (surface_set_buffer_scale p n h)" "host_inv (surface_frame client p ok res h)"
    "host_inv (subsurface_set_position p x y h)" "host_inv (manager_get_sync client r res p h)"
    "host_inv (wm_base_get_xdg_surface client r res p h)" "host_inv (xdg_surface_ack_configure p h)"
    "host_inv (xdg_toplevel_resource_destroy p h)" "host_inv (xdg_surface_resource_destroy p h)"
    "host_inv (viewporter_get_viewport client r res p h)" "host_inv (viewport_set_source p x y w ht h)"
    "host_inv (viewport_set_destination p w ht h)" "host_inv (viewport_resource_destroy p h)"
    "host_inv (fractional_get client r res p h)" "host_inv (fractional_destroy r p h)"
    "host_inv (layer_shell_get_layer_surface client r res p layer h)"
    "host_inv (layer_surface_set_size r p lw lh h)" "host_inv (layer_surface_set_anchor r p a h)"
    "host_inv (layer_surface_set_exclusive_zone p z h)"
    "host_inv (layer_surface_set_margin p ma mb mc md h)"
    "host_inv (layer_surface_set_layer r p layer h)" "host_inv (layer_surface_resource_destroy p h)"
    "host_inv (send_configure_to p h)"
  using I aliveD [OF _ p]
  by (auto simp: plain_request_defs send_configure_to_def 
      intro!: host_inv_upd_surface host_inv_upd_perf host_inv_upd_diag host_inv_emit send_configure_inv
      host_inv_request_render
      split: option.splits)

lemma surface_step_inv: "surface_step h h' \<Longrightarrow> host_inv h \<Longrightarrow> host_inv h'"
proof (induction rule: surface_step.induct)
  case (commit h p)
  then show ?case using commit_inv by (auto simp: surface_commit_def alive_def split: option.splits)
next
  case (callback_destroy h s r)
  then show ?case by (auto simp: frame_callback_destroy_def intro!: host_inv_upd_surface)
next
  case (destroy h s)
  then show ?case by (simp add: surface_destroy_inv)
qed (intro create_surface_inv attach_inv plain_requests_inv
    get_subsurface_inv subsurface_destroy_inv stacking_inv set_acquire_fence_inv get_release_inv
    sync_destroy_inv release_destroy_inv aliveD unusedD; assumption)+

lemma shell_step_inv: "shell_step h h' \<Longrightarrow> host_inv h \<Longrightarrow> host_inv h'"
proof (induction rule: shell_step.induct)
  case (get_toplevel h p client r res)
  then show ?case by (intro get_toplevel_inv aliveD)
qed (auto intro: plain_requests_inv simp: xdg_surface_get_popup_def popup_reposition_def
      layer_surface_set_keyboard_interactivity_def Let_def split: option.splits)

lemma buffer_step_inv: "buffer_step h h' \<Longrightarrow> host_inv h \<Longrightarrow> host_inv h'"
  by (induction rule: buffer_step.induct)
    (intro shm_create_pool_inv pool_create_buffer_inv pool_resize_inv pool_resource_destroy_inv
      single_pixel_inv android_buffer_inv params_create_inv resource_destroy_inv
      egl_resource_destroyed_inv unusedD pool_aliveD; assumption)+

lemma repaint_keeps_inv:
  assumes "repaint_step h h'" "host_inv h"
  shows "host_inv h'"
  using assms
proof (cases rule: repaint_step.cases)
  case (timers ok)
  with assms(2) show ?thesis by (auto intro!: host_inv_same [OF assms(2)] simp: calm_def)
qed (simp_all add: repaint_defs Let_def)

lemma output_fold_inv:
  "host_inv h \<Longrightarrow> host_inv (fold send_output_state rs h) \<and> h_surfaces (fold send_output_state rs h) = h_surfaces h
    \<and> h_server (fold send_output_state rs h) = h_server h"
  "host_inv h \<Longrightarrow> host_inv (fold send_xdg_output_state rs h) \<and> h_surfaces (fold send_xdg_output_state rs h) = h_surfaces h
    \<and> h_server (fold send_xdg_output_state rs h) = h_server h"
  by (induction rs arbitrary: h) (simp_all add: send_output_state_def send_xdg_output_state_def dom_keep, simp_all add: emits_def)

lemma output_inv:
  assumes I: "host_inv h"
  shows "host_inv (trierarch_output_bind client version res ok h)"
    "host_inv (manager_get_output client r res ok h)"
    "host_inv (output_resource_destroy r h)" "host_inv (xdg_output_resource_destroy r h)"
  using I by (auto simp: trierarch_output_bind_def manager_get_output_def Let_def output_resource_destroy_def
      xdg_output_resource_destroy_def send_output_state_def send_xdg_output_state_def
      intro!: host_inv_server_upd host_inv_emits host_inv_new_resource split: option.splits)

lemma set_output_size_inv:
  assumes I: "host_inv h"
  shows "host_inv (trierarch_wayland_set_output_size width height h)"
proof -
  define h1 where "h1 = upd_server (\<lambda>v. v\<lparr>sv_output_width := width, sv_output_height := height\<rparr>) h"
  have 1: "host_inv h1" unfolding h1_def by (rule host_inv_server_upd [OF I]) simp_all
  define h2 where "h2 = fold send_output_state (sv_output_resources (h_server h1)) h1"
  have 2: "host_inv h2" unfolding h2_def using output_fold_inv(1) [OF 1] by simp
  define h3 where "h3 = trierarch_xdg_output_notify h2"
  have 3: "host_inv h3" unfolding h3_def trierarch_xdg_output_notify_def using output_fold_inv(2) [OF 2] by simp
  have "host_inv (fold trierarch_surface_send_configure (sids h3) h3)"
  proof (rule conjunct1 [OF host_inv_fold [OF _ 3 sids_live [OF 3]]])
    fix s h assume "host_inv h" "h_surfaces h s \<noteq> None"
    then show "host_inv (trierarch_surface_send_configure s h) \<and>
        dom (h_surfaces (trierarch_surface_send_configure s h)) = dom (h_surfaces h)"
      using calm_send_configure [of h s] by (simp add: calm_def)
  qed
  then show ?thesis
    using I by (simp add: trierarch_wayland_set_output_size_def h1_def [symmetric] h2_def [symmetric]
        h3_def [symmetric] Let_def)
qed

lemma frame_step_inv: "frame_step h h' \<Longrightarrow> host_inv h \<Longrightarrow> host_inv h'"
proof (induction rule: frame_step.induct)
  case (flush h h')
  then show ?case using flush_inv [of h] by auto
next
  case (latch h h')
  then show ?case
    using latch_inv [of "sids h" h h'] sids_live by (simp add: trierarch_surface_latch_frame_callbacks_def)
qed (auto intro: requeue_inv frame_presented_inv repaint_keeps_inv output_inv set_output_size_inv)

interpretation host: transition_system host_step host_inv
  by unfold_locales
    (auto simp: host_step_def intro: surface_step_inv shell_step_inv buffer_step_inv frame_step_inv)

lemma reachable_inv:
  assumes "trierarch_wayland_create ready dm timer device = Some h0" "host_step\<^sup>*\<^sup>* h0 h"
  shows "host_inv h"
  using host.run_inv [OF assms(2) create_inv [OF assms(1)]] .

end
