(* ===== verification/Seat_Safety.thy ===== *)
theory Seat_Safety
  imports Seat Host_Machine
begin

text \<open>
  The seat on the running host: which surfaces the seat points at after a surface has been
  destroyed, the safety of the pointer requests, and the dangling keyboard focus.
\<close>

section \<open>What the seat points at\<close>

type_synonym foci = "sid option \<times> sid option \<times> sid option \<times> bool"

definition foci :: "host \<Rightarrow> foci" where
  "foci h = (sv_pointer_focus (h_server h), sv_keyboard_focus (h_server h), sv_cursor_surface (h_server h),
     sv_cursor_visible (h_server h))"

lemma foci_upd_server:
  assumes "\<And>v. sv_pointer_focus (f v) = sv_pointer_focus v" "\<And>v. sv_keyboard_focus (f v) = sv_keyboard_focus v"
    "\<And>v. sv_cursor_surface (f v) = sv_cursor_surface v" "\<And>v. sv_cursor_visible (f v) = sv_cursor_visible v"
  shows "foci (upd_server f h) = foci h"
  using assms by (simp add: foci_def)

lemma foci_cong: "h_server h' = h_server h \<Longrightarrow> foci h' = foci h"
  by (simp add: foci_def)

lemma foci_keep [simp]:
  "foci (emit e h) = foci h" "foci (emits es h) = foci h" "foci (fault h) = foci h"
  "foci (close_fd d h) = foci h" "foci (bump_serial h) = foci h"
  "foci (upd_surface s f h) = foci h" "foci (upd_buffer b g h) = foci h" "foci (upd_pool p k h) = foci h"
  "foci (h\<lparr>h_buffers := bs\<rparr>) = foci h" "foci (h\<lparr>h_pools := ps\<rparr>) = foci h"
  "foci (h\<lparr>h_bindings := rs\<rparr>) = foci h" "foci (h\<lparr>h_deferred := q\<rparr>) = foci h"
  "foci (h\<lparr>h_surfaces := ss\<rparr>) = foci h"
  by (simp_all add: foci_def access_defs upd_surface_def upd_buffer_def upd_pool_def split: option.splits)

lemma foci_counters [simp]:
  "foci (upd_diag f h) = foci h" "foci (upd_perf g h) = foci h" "foci (upd_repaint k h) = foci h"
  "foci (trierarch_wayland_request_render h) = foci h"
  by (simp_all add: foci_def) (simp_all add: access_defs)

lemma foci_release [simp]: "foci (release_destroy r h) = foci h" "foci (destroy_release r h) = foci h"
proof -
  show r: "foci (release_destroy r h) = foci h" for h
  proof (cases "h_bindings h r")
    case (Some bd)
    define h1 where "h1 = (case rb_surface bd of None \<Rightarrow> h | Some s \<Rightarrow>
      (case h_surfaces h s of None \<Rightarrow> fault h | Some x \<Rightarrow>
         if s_pending_explicit_release x = Some r
         then upd_surface s (s_pending_explicit_release_update (\<lambda>_. None)) h else h))"
    have "foci h1 = foci h" by (simp add: h1_def split: option.splits)
    with Some show ?thesis
      by (simp add: release_destroy_def Let_def h1_def [symmetric] split: option.splits)
  qed (simp add: release_destroy_def)
  show "foci (destroy_release r h) = foci h" by (simp add: destroy_release_def r)
qed

lemma foci_storage [simp]: "foci (trierarch_buffer_destroy_storage b h) = foci h"
proof -
  have 1: "foci (storage_release b x h) = foci h" for x h
    by (simp add: storage_release_def split: option.splits)
  have 2: "foci (storage_uncache b x h) = foci h" for x h
    by (simp add: storage_uncache_def foci_upd_server)
  have 3: "foci (storage_close x h) = foci h" for x h
    by (simp add: storage_close_def Let_def split: option.splits)
  have 4: "foci (pool_unref p h) = foci h" for p h
    by (simp add: pool_unref_def split: option.splits)
  have 5: "foci (storage_unpool b x h) = foci h" for x h
    by (simp add: storage_unpool_def 4 split: option.splits)
  show ?thesis
    by (simp add: trierarch_buffer_destroy_storage_def free_buffer_def 1 2 3 5 split: option.splits)
qed

lemma foci_buffers [simp]:
  "foci (trierarch_buffer_unref p h) = foci h" "foci (trierarch_shm_buffer_release b h) = foci h"
  by (simp_all add: trierarch_buffer_unref_def trierarch_shm_buffer_release_def Let_def
      trierarch_explicit_sync_buffer_release_def split: option.splits)

lemma foci_flush:
  assumes "trierarch_flush_deferred_releases h = Some h'"
  shows "foci h' = foci h"
proof -
  have one: "foci (flush_one b x h) = foci h" for b x h
    by (simp add: flush_one_def Let_def)
  have "foci h' = foci h" if "flush_loop p h = Some h'" for p h
    using that
  proof (induction rule: flush_loop.raw_induct [rotated, consumes 1, case_names walk])
    case (walk f p h r)
    show ?case using walk(2) walk(1) [of _ _ r] one by (fastforce split: option.splits)
  qed
  from this [of "h_deferred h" "h\<lparr>h_deferred := None\<rparr>"] assms show ?thesis
    by (simp add: trierarch_flush_deferred_releases_def)
qed

lemma foci_role:
  assumes "\<And>r h. foci (hook r h) = foci h"
  shows "foci (destroy_role get hook s h) = foci h"
  using assms by (simp add: destroy_role_def split: option.splits)

lemma foci_destroy_roles [simp]: "foci (destroy_roles s h) = foci h"
  by (simp add: destroy_roles_def Let_def foci_role xdg_toplevel_resource_destroy_def
      xdg_surface_resource_destroy_def subsurface_resource_destroy_def unlink_from_parent_def
      viewport_resource_destroy_def layer_surface_resource_destroy_def sync_resource_destroy_def
      close_acquire_fence_def split: option.splits)

lemma foci_destroy_family [simp]: "foci (destroy_family s h) = foci h"
proof -
  have "foci (unlink_from_parent s h) = foci h" for h
    by (simp add: unlink_from_parent_def split: option.splits)
  then show ?thesis by (simp add: destroy_family_def Let_def fold_keep orphan_def)
qed

definition without_focus :: "sid \<Rightarrow> foci \<Rightarrow> foci" where
  "without_focus s = (\<lambda>(p, k, c, v). (if p = Some s then None else p, k, if c = Some s then None else c, v))"

lemma foci_surface_destroy: "foci (surface_resource_destroy s h) = without_focus s (foci h)"
proof -
  have 1: "foci (destroy_focus s h) = without_focus s (foci h)" for h
    by (simp add: destroy_focus_def foci_def without_focus_def Let_def)
  have 2: "foci (destroy_current s h) = foci h" for h
    by (simp add: destroy_current_def split: option.splits)
  have 3: "foci (close_buffer_fence b h) = foci h" for b h
    by (simp add: close_buffer_fence_def split: option.splits)
  have 4: "foci (destroy_pending s h) = foci h" for h
    by (simp add: destroy_pending_def Let_def 3 split: option.splits)
  have 5: "foci (destroy_sync s h) = foci h" "foci (clear_callbacks s h) = foci h" for h
    by (simp_all add: destroy_sync_def clear_callbacks_def Let_def split: option.splits)
  have 6: "foci (free_surface s h) = foci h" for h
    by (simp add: free_surface_def foci_upd_server)
  show ?thesis by (simp add: surface_resource_destroy_def Let_def 1 2 4 5 6)
qed

section \<open>Input keeps the host's invariant\<close>

definition pointer_live :: "host \<Rightarrow> bool" where
  "pointer_live h \<longleftrightarrow> (\<forall>s. sv_pointer_focus (h_server h) = Some s \<or> sv_cursor_surface (h_server h) = Some s
     \<longrightarrow> h_surfaces h s \<noteq> None)"

text \<open>Destroying a surface leaves no pointer of the pointer device behind.\<close>

lemma destroy_pointer_live:
  assumes I: "host_inv h" and P: "pointer_live h" and s: "h_surfaces h s \<noteq> None"
  shows "pointer_live (surface_resource_destroy s h)"
proof -
  obtain K w where h: "sane {} h K {#}" "deferred_ok h K w" "family_ok h" "subrole_ok h"
    using I by (rule host_invE)
  have d: "dom (h_surfaces (surface_resource_destroy s h)) = dom (h_surfaces h) - {s}"
    using surface_destroy_sane(5) [OF h(1-3) s] .
  have f: "foci (surface_resource_destroy s h) = without_focus s (foci h)" by (rule foci_surface_destroy)
  show ?thesis
    using P d f unfolding pointer_live_def foci_def without_focus_def by (auto simp: dom_def set_eq_iff split: if_splits)
qed

text \<open>The requests of the pointer device, and Android's pointer events.\<close>

inductive pointer_step :: "host \<Rightarrow> host \<Rightarrow> bool" where
  move: "pointer_step h (trierarch_pointer_move_absolute to_fixed x y t h)"
| move_relative: "pointer_step h (trierarch_pointer_move_relative to_fixed fl x y t h)"
| button: "pointer_step h (trierarch_pointer_set_button button pressed t h)"
| scroll: "pointer_step h (trierarch_pointer_scroll to_fixed x y source t h)"
| reset: "pointer_step h (trierarch_pointer_reset t h)"
| cursor_visible: "pointer_step h (trierarch_pointer_set_cursor_visible visible h)"
| set_cursor: "(\<And>r s. surface = Some (r, Some s) \<Longrightarrow> h_surfaces h s \<noteq> None) \<Longrightarrow>
    pointer_step h (pointer_set_cursor client surface x y h)"
| get_pointer: "pointer_step h (seat_get_pointer client seat v res mem h)"
| pointer_gone: "pointer_step h (pointer_resource_destroy r h)"
| surface_gone: "h_surfaces h s \<noteq> None \<Longrightarrow> pointer_step h (surface_resource_destroy s h)"

definition pointer_inv :: "host \<Rightarrow> bool" where
  "pointer_inv h \<longleftrightarrow> host_inv h \<and> pointer_live h"

lemma pointer_inv_server:
  assumes "pointer_inv h" "\<And>v. sv_surfaces (f v) = sv_surfaces v" "\<And>v. sv_egl_buffers (f v) = sv_egl_buffers v"
    "\<And>v. sv_pointer_focus (f v) = sv_pointer_focus v" "\<And>v. sv_cursor_surface (f v) = sv_cursor_surface v"
  shows "pointer_inv (upd_server f h)"
  using assms by (simp add: pointer_inv_def pointer_live_def host_inv_server_upd)

lemma pointer_inv_render [simp]: "pointer_inv h \<Longrightarrow> pointer_inv (trierarch_wayland_request_render h)"
  by (simp add: pointer_inv_def pointer_live_def)

lemma pointer_inv_emits [simp]:
  "pointer_inv h \<Longrightarrow> pointer_inv (emits es h)" "pointer_inv h \<Longrightarrow> pointer_inv (emit e h)"
  "pointer_inv h \<Longrightarrow> pointer_inv (bump_serial h)"
  "pointer_inv h \<Longrightarrow> pointer_inv (new_resource c v r h)"
  by (simp_all add: pointer_inv_def pointer_live_def) (simp_all add: new_resource_def)

lemma pointer_inv_focus [simp]:
  assumes P: "pointer_inv h"
  shows "pointer_inv (update_pointer_focus h)"
proof -
  have I: "host_inv h" and L: "pointer_live h" using P by (simp_all add: pointer_inv_def)
  note live = sids_live [OF I]
  obtain t where t: "find_pointer_target h = Some t" "\<And>s. t = Some s \<Longrightarrow> h_surfaces h s \<noteq> None"
    using find_target_live [OF live] by blast
  define h1 where "h1 = send_pointer_leave (sv_pointer_focus (h_server h)) h"
  have 1: "pointer_inv h1"
    using P by (auto simp: h1_def send_pointer_leave_def Let_def pointer_inv_def pointer_live_def split: option.splits)
  have s1: "h_surfaces h1 = h_surfaces h" "h_server h1 = h_server h" by (simp_all add: h1_def send_keep)
  define h2 where "h2 = upd_server (sv_pointer_focus_update (\<lambda>_. t)) h1"
  have 2: "pointer_inv h2"
    unfolding h2_def using 1 t(2) s1
    by (auto simp: pointer_inv_def pointer_live_def intro!: host_inv_server_upd)
  have "pointer_inv (send_pointer_enter t h2)"
    using 2 t(2) s1 by (cases t) (auto simp: send_pointer_enter_def Let_def h2_def)
  then show ?thesis
    using P t(1) by (simp add: update_pointer_focus_def h1_def [symmetric] h2_def [symmetric] Let_def)
qed

lemma pointer_inv_to_pointers [simp]:
  assumes P: "pointer_inv h"
  shows "pointer_inv (to_pointers ev h)"
proof (cases "sv_pointer_focus (h_server h)")
  case (Some s)
  then obtain x where "h_surfaces h s = Some x" using P by (auto simp: pointer_inv_def pointer_live_def)
  with Some P show ?thesis by (simp add: to_pointers_def)
qed (simp add: to_pointers_def P)

lemma pointer_inv_button [simp]:
  assumes P: "pointer_inv h"
  shows "pointer_inv (trierarch_pointer_set_button button pressed t h)"
  using P by (auto simp: trierarch_pointer_set_button_def Let_def intro!: pointer_inv_server split: option.splits)

lemma pointer_inv_move:
  assumes P: "pointer_inv h"
  shows "pointer_inv (trierarch_pointer_move_absolute to_fixed x y t h)"
  unfolding trierarch_pointer_move_absolute_def Let_def send_pointer_motion_def
  by (intro pointer_inv_render pointer_inv_to_pointers pointer_inv_focus pointer_inv_server [OF P]) simp_all

lemma pointer_inv_cursor:
  assumes P: "pointer_inv h" and s: "\<And>r s. surface = Some (r, Some s) \<Longrightarrow> h_surfaces h s \<noteq> None"
  shows "pointer_inv (pointer_set_cursor client surface hx hy h)"
proof -
  have flag: "pointer_inv (upd_surface t (s_is_cursor_update (\<lambda>_. b)) h')"
    if "pointer_inv h'" "h_surfaces h' t \<noteq> None" for h' t b
    using that by (auto simp: pointer_inv_def pointer_live_def upd_surface_def
        intro!: host_inv_upd_surface [unfolded upd_surface_def])
  have dom: "h_surfaces (upd_surface t (s_is_cursor_update (\<lambda>_. b)) h') u = None \<longleftrightarrow> h_surfaces h' u = None"
    if "h_surfaces h' t \<noteq> None" for h' t u b
    using that by (auto simp: upd_surface_def split: if_splits)
  define h1 where "h1 = (case sv_cursor_surface (h_server h) of None \<Rightarrow> h | Some s \<Rightarrow>
      upd_surface s (s_is_cursor_update (\<lambda>_. False)) h)"
  have 1: "pointer_inv h1" "h_surfaces h1 u = None \<longleftrightarrow> h_surfaces h u = None" for u
    using P flag dom by (auto simp: h1_def pointer_inv_def pointer_live_def split: option.splits)
  define h2 where "h2 = trierarch_wayland_request_render
      (upd_server (\<lambda>v. v\<lparr>sv_cursor_surface := None, sv_cursor_hotspot_x := 0, sv_cursor_hotspot_y := 0\<rparr>) h1)"
  have 2: "pointer_inv h2" "h_surfaces h2 = h_surfaces h1"
    using 1(1) unfolding h2_def
    by (auto simp: pointer_inv_def pointer_live_def intro!: host_inv_request_render host_inv_server_upd)
  have eq: "pointer_set_cursor client surface hx hy h = (case surface of
      Some (r, Some s) \<Rightarrow> if h_client h2 r \<noteq> client then h2
        else upd_server (\<lambda>v. v\<lparr>sv_cursor_surface := Some s, sv_cursor_hotspot_x := hx, sv_cursor_hotspot_y := hy\<rparr>)
             (upd_surface s (s_is_cursor_update (\<lambda>_. True)) h2)
      | _ \<Rightarrow> h2)"
    unfolding pointer_set_cursor_def h2_def h1_def Let_def ..
  have "pointer_inv (upd_server (\<lambda>v. v\<lparr>sv_cursor_surface := Some t, sv_cursor_hotspot_x := hx,
      sv_cursor_hotspot_y := hy\<rparr>) (upd_surface t (s_is_cursor_update (\<lambda>_. True)) h2))"
    if "surface = Some (r, Some t)" for r t
  proof -
    have t: "h_surfaces h2 t \<noteq> None" using s [OF that] 1(2) 2(2) by simp
    have "pointer_inv (upd_surface t (s_is_cursor_update (\<lambda>_. True)) h2)" using flag [OF 2(1) t] .
    then show ?thesis
      using t by (auto simp: pointer_inv_def pointer_live_def dom intro!: host_inv_server_upd)
  qed
  with 2(1) show ?thesis unfolding eq by (auto split: option.splits)
qed

lemma pointer_step_inv: "pointer_step h h' \<Longrightarrow> pointer_inv h \<Longrightarrow> pointer_inv h'"
proof (induction rule: pointer_step.induct)
  case (reset h t)
  then show ?case by (simp add: trierarch_pointer_reset_def reset_button_def)
next
  case (surface_gone h s)
  then show ?case by (simp add: pointer_inv_def surface_destroy_inv destroy_pointer_live)
next
  case (scroll h to_fixed x y source t)
  then show ?case unfolding trierarch_pointer_scroll_def by (intro pointer_inv_to_pointers pointer_inv_focus)
next
  case (cursor_visible h visible)
  then show ?case
    by (auto simp: trierarch_pointer_set_cursor_visible_def intro!: pointer_inv_render pointer_inv_server)
next
  case (get_pointer h client seat v res mem)
  then show ?case
    by (auto simp: seat_get_pointer_def track_pointer_resource_def intro!: pointer_inv_server split: option.splits)
next
  case (pointer_gone h r)
  then show ?case by (auto simp: pointer_resource_destroy_def intro!: pointer_inv_server)
qed (simp_all add: pointer_inv_move trierarch_pointer_move_relative_def pointer_inv_cursor)

interpretation pointer_device: transition_system pointer_step pointer_inv
  by unfold_locales (rule pointer_step_inv)

section \<open>The keyboard focus dangles\<close>

lemma key_without_focus:
  assumes I: "host_inv h" and k: "sv_keyboard_focus (h_server h) = Some s" and n: "h_surfaces h s = None" and key: "key \<noteq> 0"
  shows "h_fault (trierarch_keyboard_set_key key pressed t h)"
proof -
  have "h_fault (update_keyboard_focus h)"
    by (rule keyboard.dangling_focus_faults [OF sids_live [OF I] k n])
  then show ?thesis
    using key by (auto simp: trierarch_keyboard_set_key_def Let_def keyboard_keyed_def fold_keep split: option.splits)
qed

lemma key_after_destroy:
  assumes I: "host_inv h" and s: "h_surfaces h s \<noteq> None" and k: "sv_keyboard_focus (h_server h) = Some s"
    and key: "key \<noteq> 0"
  shows "h_fault (trierarch_keyboard_set_key key pressed t (surface_resource_destroy s h))"
proof -
  let ?h = "surface_resource_destroy s h"
  have I': "host_inv ?h" by (rule surface_destroy_inv [OF I s])
  obtain K w where h: "sane {} h K {#}" "deferred_ok h K w" "family_ok h" "subrole_ok h"
    using I by (rule host_invE)
  have n: "h_surfaces ?h s = None" using surface_destroy_sane(4) [OF h(1-3) s] .
  have f: "sv_keyboard_focus (h_server ?h) = Some s"
    using foci_surface_destroy [of s h] k by (simp add: foci_def without_focus_def)
  show ?thesis by (rule key_without_focus [OF I' f n key])
qed

end
