(* ===== verification/Host_Properties.thy ===== *)
theory Host_Properties
  imports Seat_Safety
begin

text \<open>
  What the host promises, for every run of \<open>host_step\<close> from the state
  \<^verbatim>\<open>trierarch_wayland_create\<close> leaves: memory safety, exact reference counts, the end of
  the flush, and the effect of the operations that span components.
\<close>

section \<open>A concrete host\<close>

text \<open>The state the witnesses start from: a host that has just been created.\<close>

definition boot :: host where
  "boot = (case trierarch_wayland_create True False 5 None of Some h \<Rightarrow> h | None \<Rightarrow> undefined)"

lemma boot_created: "trierarch_wayland_create True False 5 None = Some boot"
  by (simp add: boot_def trierarch_wayland_create_def)

lemma boot_inv: "host_inv boot"
  by (rule create_inv [OF boot_created])

lemma boot_fields [simp]:
  "h_surfaces boot = Map.empty" "h_buffers boot = Map.empty" "h_deferred boot = None"
  "sids boot = []" "sv_cursor_surface (h_server boot) = None" "h_log boot = []" "h_fault boot = False"
  "sv_pointer_focus (h_server boot) = None" "sv_keyboard_focus (h_server boot) = None"
  "sv_egl_buffers (h_server boot) = []" "h_version boot = (\<lambda>_. 0)" "h_bindings boot = Map.empty"
  "h_pools boot = Map.empty" "sv_output_resources (h_server boot) = []"
  "sv_pointer_resources (h_server boot) = []" "sv_keyboard_resources (h_server boot) = []"
  by (simp_all add: boot_def trierarch_wayland_create_def)

text \<open>One surface, created by client 1.\<close>

definition one_surface :: host where
  "one_surface = compositor_create_surface 1 0 (Some 7) (Some 3) boot"

lemma one_surface_reached: "host_step\<^sup>*\<^sup>* boot one_surface"
  by (rule r_into_rtranclp)
    (auto simp: host_step_def one_surface_def unused_def intro!: surface_step.create)

lemma one_surface_fields [simp]:
  "h_surfaces one_surface = [7 \<mapsto> new_surface 3]" "sids one_surface = [7]"
  "h_buffers one_surface = Map.empty" "h_deferred one_surface = None" "h_fault one_surface = False"
  by (simp_all add: one_surface_def compositor_create_surface_def new_resource_def access_defs)

text \<open>A buffer of one pixel attached to it and committed.\<close>

definition one_buffer :: host where
  "one_buffer = manager_create_u32_rgba_buffer 1 (Some 9) (Some 100) (Some 4) one_surface"

lemma one_buffer_inv: "host_inv one_buffer"
proof -
  have "host_inv one_surface" using reachable_inv [OF boot_created one_surface_reached] .
  then show ?thesis unfolding one_buffer_def by (rule single_pixel_inv) simp
qed

lemma one_buffer_fields [simp]:
  "h_surfaces one_buffer = [7 \<mapsto> new_surface 3]" "h_buffers one_buffer 9 \<noteq> None"
  by (simp_all add: one_buffer_def manager_create_u32_rgba_buffer_def single_pixel_buffer_create_def
      new_resource_def access_defs Let_def)

text \<open>The buffer attached and committed, then detached.\<close>

definition attached :: host where
  "attached = surface_attach 3 (Some 7) (Some 4) (Some 9) False None 0 0 one_buffer"

definition detaching :: host where
  "detaching = surface_attach 3 (Some 7) None None False None 0 0 (trierarch_surface_commit 7 attached)"

lemma attached_inv: "host_inv attached"
  unfolding attached_def by (rule attach_inv [OF one_buffer_inv]) simp_all

lemma attached_set:
  "attached = upd_surface 7 (s_pending_detach_update (\<lambda>_. False)) (surface_set_pending_buffer 7 (Some 9) one_buffer)"
  "h_surfaces attached = [7 \<mapsto> (new_surface 3)\<lparr>s_pending := Some 9, s_pending_detach := False\<rparr>]"
proof -
  obtain y where y: "h_buffers one_buffer 9 = Some y" "b_single_pixel y" "\<not> b_diag_counted y"
    by (simp add: one_buffer_def manager_create_u32_rgba_buffer_def single_pixel_buffer_create_def
        calloc_buffer_def new_resource_def access_defs Let_def)
  have "buffer_behind 4 (Some 9) False None one_buffer = (Some 9, one_buffer)"
    using y by (simp add: buffer_behind_def trierarch_shm_buffer_from_resource_def)
  then show a: "attached = upd_surface 7 (s_pending_detach_update (\<lambda>_. False))
      (surface_set_pending_buffer 7 (Some 9) one_buffer)"
    by (simp add: attached_def surface_attach_def new_surface_def)
  show "h_surfaces attached = [7 \<mapsto> (new_surface 3)\<lparr>s_pending := Some 9, s_pending_detach := False\<rparr>]"
    unfolding a using y by (simp add: surface_set_pending_buffer_def mark_attached_def new_surface_def
        trierarch_buffer_ref_def trierarch_buffer_unref_def upd_surface_def upd_buffer_def upd_diag_def
        upd_server_def Let_def)
qed

lemma attached_surface:
  obtains x where "h_surfaces attached 7 = Some x" "s_pending x = Some 9"
  using that by (simp add: attached_set(2))

lemma committed_surface:
  obtains x where "h_surfaces (trierarch_surface_commit 7 attached) 7 = Some x"
    "s_current x = Some 9" "s_pending x = None"
proof -
  obtain K w where h: "sane {} attached K {#}" "deferred_ok attached K w"
    using attached_inv by (rule host_invE)
  obtain x where "h_surfaces attached 7 = Some x" "s_pending x = Some 9" by (rule attached_surface)
  with commit_sane [OF h this(1)] that show ?thesis by (auto simp: fld_eq_Some)
qed

lemma committed_inv: "host_inv (trierarch_surface_commit 7 attached)"
  by (rule commit_inv [OF attached_inv]) (rule attached_surface, simp)

lemma detaching_inv: "host_inv detaching"
  unfolding detaching_def
  by (rule attach_inv [OF committed_inv]) (rule committed_surface, simp_all)

lemma detaching_surface:
  obtains x where "h_surfaces detaching 7 = Some x" "s_current x = Some 9" "s_pending x = None"
    "s_pending_detach x"
proof -
  obtain x where "h_surfaces (trierarch_surface_commit 7 attached) 7 = Some x"
    "s_current x = Some 9" "s_pending x = None"
    by (rule committed_surface)
  then show ?thesis
    using that by (simp add: detaching_def surface_attach_def surface_set_pending_buffer_def access_defs)
qed

section \<open>Memory safety\<close>

lemma reachable_current_live:
  assumes "host_inv h" "h_surfaces h s = Some x" "s_current x = Some b \<or> s_pending x = Some b"
  shows "h_buffers h b \<noteq> None"
proof -
  obtain K w where h: "sane {} h K {#}" using assms(1) by (rule host_invE)
  have "s \<in> set (sids h)" using sane_live_surface [OF h assms(2)] .
  then have "(\<exists>s \<in> set (sids h). current_of h s = Some b \<or> hide {} (pending_of h) s = Some b)
      \<or> b \<in># K \<or> b \<in># {#}"
    using assms(2,3) by (auto intro!: bexI [of _ s])
  from sane_live [OF h this] show ?thesis by blast
qed





text \<open>C28: the flush of the deferred releases returns in every reachable state, whatever the list looks
  like, and leaves it empty without following a dangling pointer.\<close>

theorem flush_terminates:
  assumes "trierarch_wayland_create ready dmabuf timer device = Some h0" "host_step\<^sup>*\<^sup>* h0 h"
  shows "\<exists>h'. trierarch_flush_deferred_releases h = Some h' \<and> h_deferred h' = None \<and> \<not> h_fault h'"
proof -
  obtain K w where h: "sane {} h K {#}" "deferred_ok h K w"
    using reachable_inv [OF assms] by (rule host_invE)
  from flush_sane [OF h] show ?thesis
    by (auto simp: deferred_ok_def dchain_None sane_def side_ok_def)
qed

theorem flush_terminates_witness: "\<exists>h'. trierarch_flush_deferred_releases one_surface = Some h'"
  using flush_terminates [OF boot_created one_surface_reached] by blast

section \<open>Commit and destruction\<close>



text \<open>A commit that replaces a buffer (by another one or by a detach) hands the old one to the deferred list, in front; nothing is
  released before the next flush.\<close>

theorem commit_defers_replaced:
  assumes "host_inv h" "h_surfaces h s = Some x" "s_current x = Some b"
    "s_pending x \<noteq> None \<or> s_pending_detach x" "s_pending x \<noteq> s_current x"
  shows "h_deferred (trierarch_surface_commit s h) = Some b"
proof -
  obtain K w where h: "sane {} h K {#}" "deferred_ok h K w" using assms(1) by (rule host_invE)
  have "replaced x = Some b" using assms(3-5) by (simp add: replaced_def)
  with commit_sane [OF h assms(2)] show ?thesis by (simp add: deferred_ok_def pushed_def)
qed

theorem commit_defers_replaced_witness: "h_deferred (trierarch_surface_commit 7 detaching) = Some 9"
proof -
  obtain x where "h_surfaces detaching 7 = Some x" "s_current x = Some 9" "s_pending x = None"
    "s_pending_detach x"
    by (rule detaching_surface)
  with commit_defers_replaced [OF detaching_inv, of 7 x 9] show ?thesis by simp
qed

text \<open>Destroying a live surface removes exactly that surface; no other surface keeps it as its
  parent and the pointer no longer points at it.\<close>

theorem surface_destroy_clean:
  assumes "host_inv h" "h_surfaces h s \<noteq> None"
  shows "dom (h_surfaces (surface_resource_destroy s h)) = dom (h_surfaces h) - {s} \<and>
    (\<forall>t. parent_of (surface_resource_destroy s h) t \<noteq> Some s) \<and>
    sv_pointer_focus (h_server (surface_resource_destroy s h)) \<noteq> Some s \<and>
    sv_cursor_surface (h_server (surface_resource_destroy s h)) \<noteq> Some s \<and>
    \<not> h_fault (surface_resource_destroy s h)"
proof -
  obtain K w where h: "sane {} h K {#}" "deferred_ok h K w" "family_ok h" "subrole_ok h"
    using assms(1) by (rule host_invE)
  note d = surface_destroy_sane [OF h(1-3) assms(2)]
  have "parent_of (surface_resource_destroy s h) t \<noteq> Some s" for t
    using family_ok_parent_live [OF d(3), of t s] d(4) by auto
  moreover have "\<not> h_fault (surface_resource_destroy s h)"
    using host_inv_no_fault [OF surface_destroy_inv [OF assms]] .
  ultimately show ?thesis
    using d(5) foci_surface_destroy [of s h] by (auto simp: foci_def without_focus_def)
qed

theorem surface_destroy_clean_witness: "h_surfaces (surface_resource_destroy 7 one_surface) 7 = None"
proof -
  have "host_inv one_surface" by (rule reachable_inv [OF boot_created one_surface_reached])
  then have "dom (h_surfaces (surface_resource_destroy 7 one_surface)) = {7} - {7}"
    using surface_destroy_clean [of one_surface 7] by simp
  then show ?thesis by auto
qed

text \<open>A reference in hand keeps its buffer: whatever references are given back by others, the
  buffer is still live.\<close>

theorem held_buffer_survives:
  assumes "sane {} h K (mset bs + E)" "b \<in># E"
  shows "h_buffers (fold (\<lambda>c. trierarch_buffer_unref (Some c)) bs h) b \<noteq> None"
  using buffers.held_survives [of h bs E b] assms by blast

theorem held_buffer_survives_witness:
  "h_buffers (trierarch_buffer_unref (Some 9) (trierarch_buffer_ref (Some 9)
     (trierarch_buffer_ref (Some 9) one_buffer))) 9 \<noteq> None"
proof -
  obtain K w where "sane {} one_buffer K {#}" using one_buffer_inv by (rule host_invE)
  then have "\<exists>K. sane {} (fold (\<lambda>b. trierarch_buffer_ref (Some b)) [9, 9] one_buffer) K (mset [9, 9] + {#})"
    by (intro buffers.refs_hold) auto
  then obtain K' where "sane {} (trierarch_buffer_ref (Some 9) (trierarch_buffer_ref (Some 9) one_buffer))
      K' (mset [9] + {#9#})"
    by auto
  from held_buffer_survives [OF this, of 9] show ?thesis by simp
qed

section \<open>Input\<close>

text \<open>No sequence of pointer events, cursor requests and surface destructions makes the pointer
  device follow a freed surface.\<close>

theorem pointer_runs_safe:
  assumes "host_inv h" "pointer_live h" "pointer_step\<^sup>*\<^sup>* h h'"
  shows "\<not> h_fault h' \<and> pointer_live h'"
  using pointer_device.run_inv [OF assms(3)] assms(1,2) host_inv_no_fault
  by (auto simp: pointer_inv_def)

theorem pointer_runs_safe_witness:
  "\<not> h_fault (surface_resource_destroy 7 one_surface)"
proof -
  have "host_inv one_surface" by (rule reachable_inv [OF boot_created one_surface_reached])
  moreover have "pointer_live one_surface"
    by (simp add: pointer_live_def one_surface_def compositor_create_surface_def new_resource_def access_defs)
  moreover have "pointer_step\<^sup>*\<^sup>* one_surface (surface_resource_destroy 7 one_surface)"
    by (rule r_into_rtranclp, rule pointer_step.surface_gone) simp
  ultimately show ?thesis using pointer_runs_safe by blast
qed

text \<open>C30: the keyboard focus survives its surface. After the surface that has the keyboard focus is
  destroyed, the next key event follows the dangling pointer.\<close>

theorem keyboard_focus_dangles:
  assumes "host_inv h" "h_surfaces h s \<noteq> None" "sv_keyboard_focus (h_server h) = Some s" "key \<noteq> 0"
  shows "h_fault (trierarch_keyboard_set_key key pressed t (surface_resource_destroy s h))"
  by (rule key_after_destroy [OF assms])

theorem keyboard_focus_dangles_witness:
  "h_fault (trierarch_keyboard_set_key 30 True 0 (surface_resource_destroy 7
     (upd_server (sv_keyboard_focus_update (\<lambda>_. Some 7)) one_surface)))"
proof (rule keyboard_focus_dangles)
  show "host_inv (upd_server (sv_keyboard_focus_update (\<lambda>_. Some 7)) one_surface)"
    using reachable_inv [OF boot_created one_surface_reached] by (rule host_inv_server_upd) simp_all
qed simp_all

section \<open>Frames\<close>

text \<open>The state in which the next frame can begin: the frame that is being rendered, if any, has ended (it was
  presented, or it failed) and the timer, if it was armed, has fired.\<close>

definition next_chance :: "bool \<Rightarrow> host \<Rightarrow> host" where
  "next_chance failed h =
     (let h1 = (if repaint_rendering (sv_repaint (h_server h)) then
                  (if failed then trierarch_wayland_repaint_failed h else repaint_frame_done h) else h)
      in if repaint_scheduled (sv_repaint (h_server h1)) then repaint_timer_fired h1 else h1)"

lemma begin_repaint_iff:
  "fst (trierarch_wayland_begin_repaint h) \<longleftrightarrow> (let r = sv_repaint (h_server h) in
     repaint_needed r \<and> repaint_ready r \<and> \<not> repaint_rendering r)"
  by (simp add: trierarch_wayland_begin_repaint_def Let_def)

lemma timer_fired_flags:
  "sv_repaint (h_server (repaint_timer_fired h)) = (let r = (sv_repaint (h_server h))\<lparr>repaint_scheduled := False\<rparr>
     in if repaint_needed r \<and> \<not> repaint_rendering r then r\<lparr>repaint_ready := True\<rparr> else r)"
  by (simp add: repaint_timer_fired_def Let_def)

lemma next_chance_begins:
  assumes "repaint_inv (sv_repaint (h_server h))"
  shows "fst (trierarch_wayland_begin_repaint (next_chance failed h)) \<longleftrightarrow> repaint_needed (sv_repaint (h_server h))"
  using assms
  by (cases "sv_repaint (h_server h)") (auto simp: begin_repaint_iff next_chance_def repaint_flags timer_fired_flags arm_def
      repaint_inv_defs Let_def)

text \<open>C15: a request for a frame is served, whenever it comes: in every state the repaint machine reaches, once the
  frame in progress has ended and the armed timer has fired, the next frame begins exactly when a request is
  outstanding. A frame that failed is therefore tried again only if another request came while it was drawn.\<close>

theorem repaint_request_served:
  assumes "trierarch_wayland_create ready dmabuf timer device = Some h0" "repaint_step\<^sup>*\<^sup>* h0 h"
  shows "fst (trierarch_wayland_begin_repaint (next_chance failed (trierarch_wayland_request_render h))) \<and>
    (fst (trierarch_wayland_begin_repaint (next_chance failed h)) \<longleftrightarrow> repaint_needed (sv_repaint (h_server h)))"
proof -
  have "repaint_inv (sv_repaint (h_server h0))"
    using assms(1) by (auto simp: trierarch_wayland_create_def split: if_splits)
  then have i: "repaint_inv (sv_repaint (h_server h))" using repaint.run_inv [OF assms(2)] by blast
  then have "repaint_inv (sv_repaint (h_server (trierarch_wayland_request_render h)))"
    by (rule repaint_step_inv [OF repaint_step.request])
  moreover have "repaint_needed (sv_repaint (h_server (trierarch_wayland_request_render h)))"
    by (simp add: repaint_flags arm_def)
  ultimately show ?thesis using next_chance_begins i by blast
qed

theorem repaint_request_served_witness:
  "\<not> fst (trierarch_wayland_begin_repaint (next_chance True boot)) \<and>
   fst (trierarch_wayland_begin_repaint (next_chance True (trierarch_wayland_request_render boot)))"
proof -
  have "\<not> repaint_needed (sv_repaint (h_server boot))"
    by (simp add: boot_def trierarch_wayland_create_def init_repaint_def)
  then show ?thesis using repaint_request_served [OF boot_created rtranclp.rtrancl_refl] by blast
qed

end
