(* ===== verification/Tvg_Scanout.thy ===== *)
theory Tvg_Scanout
  imports Prelude
begin

text \<open>
  The token service for the virgl buffers (\<^verbatim>\<open>wayland-host/src/tvg_scanout.c\<close>): a guest asks for a buffer and
  gets a file descriptor as its token; the host finds the buffer behind a committed descriptor, has it
  drawn by the vtest server and tells that server when the frame that showed it is over.

  The singly linked lists of the file only grow at the front and are walked or taken as a whole; they
  are lists with the front first. Messages on sockets, released buffers and closed descriptors are a log.
  The mutexes make each operation atomic.
\<close>

definition TVG_MAGIC :: u32 where "TVG_MAGIC = 0x54564731"
definition TVG_REQUEST_ALLOC :: u32 where "TVG_REQUEST_ALLOC = 0"
definition TVG_REQUEST_REGISTER :: u32 where "TVG_REQUEST_REGISTER = 1"

record tvg_request =
  rq_magic :: u32
  rq_type :: u32
  rq_width :: u32
  rq_height :: u32
  rq_format :: u32
  rq_stride :: u32
  rq_usage :: u32
  rq_inode :: u64
  rq_res_id :: u32

record tvg_alloc_reply =
  rp_magic :: u32
  rp_status :: int
  rp_stride :: u32
  rp_format :: u32
  rp_inode :: u64

record tvg_token =
  tk_fd :: fd
  tk_device :: u64
  tk_inode :: u64
  tk_width :: u32
  tk_height :: u32
  tk_format :: u32
  tk_stride :: u32
  tk_ahb :: "addr option"
  tk_res_id :: u32

datatype tvg_event =
    Reply fd "fd option" tvg_alloc_reply
  | Present u32 u32 u32 u32 u32 u32
  | Release u32
  | Ahb_release addr
  | Tvg_close fd
  | Unlink string

record tvg =
  tv_tokens :: "tvg_token list"
  tv_pending :: "u32 list"
  tv_inflight :: "u32 list"
  tv_listen_fd :: fd
  tv_running :: bool
  tv_socket_path :: string
  tv_log :: "tvg_event list"

definition initial_tvg :: tvg where
  "initial_tvg = \<lparr>tv_tokens = [], tv_pending = [], tv_inflight = [], tv_listen_fd = -1,
     tv_running = False, tv_socket_path = [], tv_log = []\<rparr>"

definition tell :: "tvg_event list \<Rightarrow> tvg \<Rightarrow> tvg" where
  "tell es s = s\<lparr>tv_log := tv_log s @ es\<rparr>"

section \<open>Allocation\<close>

definition AHB_R8G8B8A8 :: u32 where "AHB_R8G8B8A8 = 1"
definition AHB_R8G8B8X8 :: u32 where "AHB_R8G8B8X8 = 2"

definition ahb_format_for_gbm :: "u32 \<Rightarrow> u32" where
  "ahb_format_for_gbm f =
     (if f = 0x34324241 \<or> f = 0x34325241 then AHB_R8G8B8A8
      else if f = 0x34324258 \<or> f = 0x34325258 then AHB_R8G8B8X8
      else AHB_R8G8B8A8)"

text \<open>
  What the system answers during an allocation: whether the token can be allocated, what
  \<^verbatim>\<open>AHardwareBuffer_allocate\<close> gives for a format (for the first and for the second choice of the usage),
  the memory file, and what \<^verbatim>\<open>ftruncate\<close> (of the size) and \<^verbatim>\<open>fstat\<close> give. \<open>ta_errno\<close> is the value of
  \<^verbatim>\<open>errno\<close> when the failure is reported.
\<close>

record tvg_answers =
  ta_mem :: bool
  ta_ahb :: "u32 \<Rightarrow> u32 \<Rightarrow> u32 \<Rightarrow> addr option"
  ta_ahb_cpu :: "u32 \<Rightarrow> u32 \<Rightarrow> u32 \<Rightarrow> addr option"
  ta_memfd :: "fd option"
  ta_truncate :: "u64 \<Rightarrow> bool"
  ta_stat :: "(u64 \<times> u64) option"
  ta_errno :: int

definition request_stride :: "tvg_request \<Rightarrow> u32" where
  "request_stride q = (if rq_stride q \<noteq> 0 then rq_stride q else rq_width q * 4)"

text \<open>The result is the status or the token, with the events of the clean-up.\<close>

definition alloc_token :: "tvg_answers \<Rightarrow> tvg_request \<Rightarrow> (int + tvg_token) \<times> tvg_event list" where
  "alloc_token a q =
     (if \<not> ta_mem a then (Inl (-12), [])
      else
        let stride = request_stride q;
            format = ahb_format_for_gbm (rq_format q);
            ahb = (case ta_ahb a (rq_width q) (rq_height q) format of
                     Some b \<Rightarrow> Some b
                   | None \<Rightarrow> ta_ahb_cpu a (rq_width q) (rq_height q) format)
        in case ahb of
             None \<Rightarrow> (Inl (-5), [])
           | Some b \<Rightarrow>
               (case ta_memfd a of
                  None \<Rightarrow> (Inl (- ta_errno a), [Ahb_release b])
                | Some fd \<Rightarrow>
                    if \<not> ta_truncate a (ucast stride * ucast (rq_height q)) then
                      (Inl (- ta_errno a), [Tvg_close fd, Ahb_release b])
                    else (case ta_stat a of
                            None \<Rightarrow> (Inl (- ta_errno a), [Tvg_close fd, Ahb_release b])
                          | Some (device, inode) \<Rightarrow>
                              (Inr \<lparr>tk_fd = fd, tk_device = device, tk_inode = inode, tk_width = rq_width q,
                                 tk_height = rq_height q, tk_format = rq_format q, tk_stride = stride,
                                 tk_ahb = Some b, tk_res_id = 0\<rparr>, []))))"

section \<open>Presenting\<close>

text \<open>\<open>up\<close>: whether the socket of the vtest server can be connected and the header sent.\<close>

definition send_present :: "bool \<Rightarrow> tvg_token \<Rightarrow> tvg \<Rightarrow> tvg" where
  "send_present up t s =
     (if tk_ahb t = None \<or> tk_res_id t = 0 \<or> \<not> up then s
      else tell [Present (ucast (tk_inode t)) (tk_res_id t) (tk_width t) (tk_height t) (tk_format t) (tk_stride t)] s)"

definition send_release :: "bool \<Rightarrow> u32 \<Rightarrow> tvg \<Rightarrow> tvg" where
  "send_release up res_id s = (if \<not> up then s else tell [Release res_id] s)"

definition remember_presented :: "bool \<Rightarrow> u32 \<Rightarrow> tvg \<Rightarrow> tvg" where
  "remember_presented mem res_id s =
     (if res_id = 0 then s
      else if res_id \<in> set (tv_pending s) then s
      else if \<not> mem then s
      else s\<lparr>tv_pending := res_id # tv_pending s\<rparr>)"

text \<open>Releasing the tokens of a list, one message each.\<close>

definition tvg_scanout_begin_frame :: "(u32 \<Rightarrow> bool) \<Rightarrow> tvg \<Rightarrow> tvg" where
  "tvg_scanout_begin_frame up s =
     fold (\<lambda>r. send_release (up r) r) (tv_inflight s) (s\<lparr>tv_inflight := []\<rparr>)"

fun move_to_inflight :: "u32 list \<Rightarrow> u32 list \<Rightarrow> u32 list" where
  "move_to_inflight [] inflight = inflight"
| "move_to_inflight (r # rs) inflight = move_to_inflight rs (r # inflight)"

definition tvg_scanout_end_frame :: "tvg \<Rightarrow> tvg" where
  "tvg_scanout_end_frame s =
     s\<lparr>tv_pending := [], tv_inflight := move_to_inflight (tv_pending s) (tv_inflight s)\<rparr>"

definition tvg_scanout_release_presented :: "(u32 \<Rightarrow> bool) \<Rightarrow> tvg \<Rightarrow> tvg" where
  "tvg_scanout_release_presented up s = tvg_scanout_begin_frame up s"

section \<open>Tokens\<close>

fun register_in :: "u64 \<Rightarrow> u32 \<Rightarrow> tvg_token list \<Rightarrow> (tvg_token option \<times> tvg_token list)" where
  "register_in inode res_id [] = (None, [])"
| "register_in inode res_id (t # ts) =
     (if tk_inode t = inode then (Some (t\<lparr>tk_res_id := res_id\<rparr>), t\<lparr>tk_res_id := res_id\<rparr> # ts)
      else case register_in inode res_id ts of (r, ts') \<Rightarrow> (r, t # ts'))"

definition register_token :: "bool \<Rightarrow> u64 \<Rightarrow> u32 \<Rightarrow> tvg \<Rightarrow> int \<times> tvg" where
  "register_token up inode res_id s =
     (case register_in inode res_id (tv_tokens s) of
        (None, _) \<Rightarrow> (-1, s)
      | (Some t, ts) \<Rightarrow> (0, send_present up t (s\<lparr>tv_tokens := ts\<rparr>)))"

text \<open>
  \<^verbatim>\<open>tvg_scanout_lookup_fd\<close>: \<open>stat\<close> is what \<^verbatim>\<open>fstat\<close> answers for the descriptor.
\<close>

definition tvg_scanout_lookup_fd :: "fd \<Rightarrow> (u64 \<times> u64) option \<Rightarrow> tvg \<Rightarrow> tvg_token option" where
  "tvg_scanout_lookup_fd fd stat s =
     (if fd < 0 then None
      else case stat of None \<Rightarrow> None
           | Some (device, inode) \<Rightarrow>
               List.find (\<lambda>t. tk_device t = device \<and> tk_inode t = inode) (tv_tokens s))"

definition tvg_scanout_present_fd :: "bool \<Rightarrow> bool \<Rightarrow> fd \<Rightarrow> (u64 \<times> u64) option \<Rightarrow> tvg \<Rightarrow> tvg" where
  "tvg_scanout_present_fd up mem fd stat s = (case tvg_scanout_lookup_fd fd stat s of
       None \<Rightarrow> s
     | Some t \<Rightarrow> remember_presented mem (tk_res_id t) (send_present up t s))"

text \<open>
  \<^verbatim>\<open>handle_client\<close> on the request it received (\<open>None\<close> for a short or failed read); \<open>up\<close> is the
  vtest server's socket.
\<close>

definition handle_client :: "tvg_answers \<Rightarrow> bool \<Rightarrow> fd \<Rightarrow> tvg_request option \<Rightarrow> tvg \<Rightarrow> tvg" where
  "handle_client a up client request s = (case request of
       None \<Rightarrow> s
     | Some q \<Rightarrow>
         if rq_magic q \<noteq> TVG_MAGIC then s
         else if rq_type q = TVG_REQUEST_REGISTER then
           (let (status, s1) = register_token up (rq_inode q) (rq_res_id q) s
            in tell [Reply client None \<lparr>rp_magic = TVG_MAGIC, rp_status = status, rp_stride = 0, rp_format = 0,
                 rp_inode = 0\<rparr>] s1)
         else if rq_type q \<noteq> TVG_REQUEST_ALLOC then s
         else (case alloc_token a q of
                 (Inl status, es) \<Rightarrow>
                   tell (es @ [Reply client None \<lparr>rp_magic = TVG_MAGIC, rp_status = status, rp_stride = 0,
                     rp_format = 0, rp_inode = 0\<rparr>]) s
               | (Inr t, es) \<Rightarrow>
                   tell (es @ [Reply client (Some (tk_fd t)) \<lparr>rp_magic = TVG_MAGIC, rp_status = 0,
                     rp_stride = tk_stride t, rp_format = tk_format t, rp_inode = tk_inode t\<rparr>])
                     (s\<lparr>tv_tokens := t # tv_tokens s\<rparr>)))"

section \<open>The service\<close>

text \<open>
  \<^verbatim>\<open>tvg_scanout_start\<close>: \<open>sock\<close> is the socket (\<open>None\<close> when there is none), \<open>bind_ok\<close> and \<open>thread_ok\<close> the success
  of binding it and of starting the thread; the result is the status.
\<close>

definition SUN_PATH :: nat where "SUN_PATH = 108"

definition tvg_scanout_start :: "string option \<Rightarrow> fd option \<Rightarrow> bool \<Rightarrow> bool \<Rightarrow> int \<Rightarrow> tvg \<Rightarrow> int \<times> tvg" where
  "tvg_scanout_start path sock bind_ok thread_ok errno s = (case path of
       None \<Rightarrow> (-22, s)
     | Some p \<Rightarrow>
         if SUN_PATH \<le> length p then (-22, s)
         else case sock of
                None \<Rightarrow> (- errno, s)
              | Some fd \<Rightarrow>
                  if \<not> bind_ok then (- errno, tell [Unlink p, Tvg_close fd] s)
                  else if \<not> thread_ok then
                    (-5, (tell [Unlink p, Tvg_close fd, Unlink p] s)\<lparr>tv_socket_path := p, tv_listen_fd := -1,
                       tv_running := False\<rparr>)
                  else (0, (tell [Unlink p] s)\<lparr>tv_listen_fd := fd, tv_socket_path := p, tv_running := True\<rparr>))"

definition drop_token :: "tvg_token \<Rightarrow> tvg_event list" where
  "drop_token t = (case tk_ahb t of None \<Rightarrow> [] | Some b \<Rightarrow> [Ahb_release b]) @ [Tvg_close (tk_fd t)]"

definition tvg_scanout_stop :: "tvg \<Rightarrow> tvg" where
  "tvg_scanout_stop s =
     (if \<not> tv_running s then s
      else
        let s1 = (if 0 \<le> tv_listen_fd s then (tell [Tvg_close (tv_listen_fd s)] s)\<lparr>tv_listen_fd := -1\<rparr> else s);
            s2 = (if tv_socket_path s1 \<noteq> [] then tell [Unlink (tv_socket_path s1)] s1 else s1);
            s3 = tell (concat (map drop_token (tv_tokens s2))) s2
        in s3\<lparr>tv_running := False, tv_pending := [], tv_inflight := [], tv_tokens := []\<rparr>)"

end
