(* ===== verification/C_Strings.thy ===== *)
theory C_Strings
  imports Prelude "HOL-Library.Char_ord"
begin

text \<open>
  The functions of the C library on strings that the helper programs use. A C string is the list of its
  characters without the terminator; a buffer that holds several of them is a list with the
  terminators in it.
\<close>

section \<open>Strings in a buffer\<close>

abbreviation NUL :: char where "NUL \<equiv> CHR 0x00"

text \<open>
  \<^verbatim>\<open>for (p = buffer; p < buffer + length; p += strlen(p) + 1)\<close> over a buffer of \<open>length\<close> bytes
  that is followed by a terminator: the strings the loop sees.
\<close>

function c_strings :: "string \<Rightarrow> string list" where
  "c_strings [] = []"
| "c_strings (c # cs) =
     takeWhile (\<lambda>x. x \<noteq> NUL) (c # cs) # c_strings (drop (length (takeWhile (\<lambda>x. x \<noteq> NUL) (c # cs)) + 1) (c # cs))"
  by pat_completeness auto
termination by (relation "measure length") auto

lemma c_strings_nonempty: "cs \<noteq> [] \<Longrightarrow> c_strings cs =
    takeWhile (\<lambda>x. x \<noteq> NUL) cs # c_strings (drop (length (takeWhile (\<lambda>x. x \<noteq> NUL) cs) + 1) cs)"
  by (cases cs) simp_all

text \<open>Strings joined with their terminators are read back.\<close>

definition joined :: "string list \<Rightarrow> string" where
  "joined ss = concat (map (\<lambda>s. s @ [NUL]) ss)"

lemma c_strings_joined: "(\<And>s. s \<in> set ss \<Longrightarrow> NUL \<notin> set s) \<Longrightarrow> c_strings (joined ss) = ss"
proof (induction ss)
  case (Cons s ss)
  have "takeWhile (\<lambda>x. x \<noteq> NUL) (s @ NUL # joined ss) = s"
    using Cons.prems [of s] by (simp add: takeWhile_tail) blast
  moreover have "joined (s # ss) = s @ NUL # joined ss" by (simp add: joined_def)
  ultimately show ?case using Cons by (simp add: c_strings_nonempty)
qed (simp add: joined_def)

lemma c_strings_no_nul: "s \<in> set (c_strings cs) \<Longrightarrow> NUL \<notin> set s"
  by (induction cs rule: c_strings.induct) (auto dest: set_takeWhileD split: if_splits)

section \<open>Numbers\<close>

definition is_digit :: "char \<Rightarrow> bool" where
  "is_digit c \<longleftrightarrow> CHR ''0'' \<le> c \<and> c \<le> CHR ''9''"

definition is_space :: "char \<Rightarrow> bool" where
  "is_space c \<longleftrightarrow> c \<in> {CHR '' '', CHR 0x09, CHR 0x0A, CHR 0x0B, CHR 0x0C, CHR 0x0D}"

definition digit_of :: "char \<Rightarrow> nat" where
  "digit_of c = (of_char c :: nat) - 48"

definition digits_value :: "string \<Rightarrow> nat" where
  "digits_value cs = foldl (\<lambda>n c. 10 * n + digit_of c) 0 cs"

text \<open>
  What \<^verbatim>\<open>strtol\<close> and \<^verbatim>\<open>strtoull\<close> read with base 10: the sign, the digits, and the rest of the string;
  without digits nothing is consumed.
\<close>

definition scan_number :: "string \<Rightarrow> (bool \<times> string) option \<times> string" where
  "scan_number s =
     (let s1 = dropWhile is_space s;
          neg = (s1 \<noteq> [] \<and> hd s1 = CHR ''-'');
          s2 = (if s1 \<noteq> [] \<and> (hd s1 = CHR ''-'' \<or> hd s1 = CHR ''+'') then List.tl s1 else s1);
          ds = takeWhile is_digit s2
      in if ds = [] then (None, s) else (Some (neg, ds), dropWhile is_digit s2))"

definition LONG_MAX :: int where "LONG_MAX = 2 ^ 63 - 1"
definition LONG_MIN :: int where "LONG_MIN = - (2 ^ 63)"

text \<open>\<^verbatim>\<open>strtol\<close>: the value, whether \<^verbatim>\<open>errno\<close> reports a value out of range, and the rest.\<close>

definition strtol :: "string \<Rightarrow> int \<times> bool \<times> string" where
  "strtol s = (case scan_number s of
       (None, r) \<Rightarrow> (0, False, r)
     | (Some (neg, ds), r) \<Rightarrow>
         (let v = (if neg then - int (digits_value ds) else int (digits_value ds))
          in if LONG_MAX < v then (LONG_MAX, True, r) else if v < LONG_MIN then (LONG_MIN, True, r)
             else (v, False, r)))"

definition strtoull :: "string \<Rightarrow> u64 \<times> string" where
  "strtoull s = (case scan_number s of
       (None, r) \<Rightarrow> (0, r)
     | (Some (neg, ds), r) \<Rightarrow>
         (if 2 ^ 64 \<le> digits_value ds then (- 1, r)
          else (if neg then - of_nat (digits_value ds) else of_nat (digits_value ds), r)))"

text \<open>A conversion to \<^verbatim>\<open>pid_t\<close>.\<close>

definition to_pid :: "int \<Rightarrow> int" where
  "to_pid v = i32_wrap v"

section \<open>Prefixes\<close>

fun starts_with :: "string \<Rightarrow> string \<Rightarrow> bool" where
  "starts_with [] s \<longleftrightarrow> True"
| "starts_with (p # ps) [] \<longleftrightarrow> False"
| "starts_with (p # ps) (c # cs) \<longleftrightarrow> p = c \<and> starts_with ps cs"

text \<open>\<^verbatim>\<open>strstr(text, sub)\<close> is not null.\<close>

fun contains :: "string \<Rightarrow> string \<Rightarrow> bool" where
  "contains [] sub \<longleftrightarrow> sub = []"
| "contains (c # cs) sub \<longleftrightarrow> starts_with sub (c # cs) \<or> contains cs sub"

lemma starts_with_append [simp]: "starts_with p (p @ s)"
  by (induction p) simp_all

lemma starts_with_iff: "starts_with p s \<longleftrightarrow> (\<exists>r. s = p @ r)"
  by (induction p s rule: starts_with.induct) auto

section \<open>Decimal numerals\<close>

fun show_nat :: "nat \<Rightarrow> string" where
  "show_nat n = (if n < 10 then [char_of (48 + n)] else show_nat (n div 10) @ [char_of (48 + n mod 10)])"

declare show_nat.simps [simp del]

lemma digit_char: "d < 10 \<Longrightarrow> is_digit (char_of (48 + d))" "d < 10 \<Longrightarrow> digit_of (char_of (48 + d)) = d"
proof -
  assume d: "d < (10 :: nat)"
  then show "is_digit (char_of (48 + d))" by (simp add: is_digit_def less_eq_char_def)
  show "digit_of (char_of (48 + d)) = d" using d by (simp add: digit_of_def)
qed

lemma show_nat_digits: "list_all is_digit (show_nat n) \<and> show_nat n \<noteq> []"
  by (induction n rule: show_nat.induct) (subst (1 2) show_nat.simps, auto simp: digit_char)

lemma show_nat_value: "digits_value (show_nat n) = n"
proof (induction n rule: show_nat.induct)
  case (1 n)
  show ?case
  proof (cases "n < 10")
    case True
    then show ?thesis by (subst show_nat.simps) (simp add: digits_value_def digit_char)
  next
    case False
    with 1 have "digits_value (show_nat (n div 10)) = n div 10" by simp
    with False show ?thesis by (subst show_nat.simps) (simp add: digits_value_def digit_char)
  qed
qed

end
