(* ===== verification/Ownership.thy ===== *)
theory Ownership
  imports Prelude
begin

text \<open>
  Objects that a set-up makes one after the other and a tear-down frees. The events are logged; the balance of an object is how often it was
  made less how often it was freed.
\<close>

datatype 'o lifetime = Made 'o | Freed 'o

definition free_if :: "bool \<Rightarrow> 'o \<Rightarrow> 'o lifetime list" where
  "free_if c x = (if c then [Freed x] else [])"

definition make_if :: "bool \<Rightarrow> 'o \<Rightarrow> 'o lifetime list" where
  "make_if c x = (if c then [Made x] else [])"

fun balance :: "'o \<Rightarrow> 'o lifetime list \<Rightarrow> int" where
  "balance x [] = 0"
| "balance x (Made y # es) = of_bool (x = y) + balance x es"
| "balance x (Freed y # es) = balance x es - of_bool (x = y)"

lemma balance_append [simp]: "balance x (d @ e) = balance x d + balance x e"
  by (induction x d rule: balance.induct) simp_all

lemma balance_free_if [simp]: "balance x (free_if c y) = - of_bool (c \<and> x = y)"
  by (simp add: free_if_def)

lemma balance_make_if [simp]: "balance x (make_if c y) = of_bool (c \<and> x = y)"
  by (simp add: make_if_def)

text \<open>The events account for the handles.\<close>

definition accounts :: "('r \<Rightarrow> 'o set) \<Rightarrow> 'o lifetime list \<Rightarrow> 'r \<Rightarrow> bool" where
  "accounts owned e r \<longleftrightarrow> (\<forall>x. balance x e = of_bool (x \<in> owned r))"

lemma accounts_made: "accounts owned e r \<Longrightarrow> y \<notin> owned r \<Longrightarrow> owned r' = insert y (owned r) \<Longrightarrow> accounts owned (e @ [Made y]) r'"
  by (auto simp: accounts_def)

lemma accounts_same: "accounts owned e r \<Longrightarrow> owned r' = owned r \<Longrightarrow> accounts owned e r'"
  by (simp add: accounts_def)

text \<open>
  An owner: the objects its handles stand for, and a tear-down that frees each of them once wherever the handles are consistent. A set-up whose events account for the
  handles then leaves nothing behind when it gives up, and what follows it is freed completely.
\<close>

locale owner =
  fixes consistent :: "'r \<Rightarrow> bool" and owned :: "'r \<Rightarrow> 'o set" and destroy :: "'r \<Rightarrow> 'o lifetime list"
  assumes destroyed: "consistent r \<Longrightarrow> balance x (destroy r) = - of_bool (x \<in> owned r)"
begin

lemma given_up: "accounts owned e r \<Longrightarrow> consistent r \<Longrightarrow> balance x (e @ destroy r) = 0"
  by (simp add: accounts_def destroyed)

lemma torn_down:
  assumes "accounts owned e r" "consistent r'"
  shows "balance x (e @ destroy r') = of_bool (x \<in> owned r) - of_bool (x \<in> owned r')"
  using assms by (simp add: accounts_def destroyed)

end

end
