(* ===== verification/Renderer.thy ===== *)
theory Renderer
  imports Complex_Main Host_Machine Tvg_Scanout C_Strings Ownership
begin

text \<open>
  The renderer (\<^verbatim>\<open>wayland-host/src/renderer.c\<close>): which surfaces a frame draws, in which order and where; how the
  pixels of a buffer reach the texture; and the order of fence, release and presentation of a frame.

  EGL and OpenGL are arguments (the record \<open>gl\<close>): what a call returns. A draw call is recorded with its
  buffer, its rectangle in output pixels and its part of the buffer; the conversion to floating-point device
  coordinates and the shaders are left out. \<open>rs_gpu\<close> is no variable of the program: it is the set of the
  buffers that commands handed to the GPU may still read. The counters the renderer keeps in
  \<^verbatim>\<open>struct wayland_server\<close> are the record \<open>render_counters\<close>.
\<close>

section \<open>State\<close>

datatype import_path = Path_none | Path_ahb | Path_egl_wayland | Path_dmabuf | Path_cpu

record renderer_context =
  rn_server :: bool
  rn_display :: bool
  rn_surface :: bool
  rn_context :: bool
  rn_background_program :: bool
  rn_texture_program :: bool
  rn_texture :: bool
  rn_valid :: bool
  rn_width :: int
  rn_height :: int
  rn_create_image :: bool
  rn_destroy_image :: bool
  rn_image_target :: bool
  rn_native_client_buffer :: bool
  rn_create_sync :: bool
  rn_destroy_sync :: bool
  rn_client_wait_sync :: bool
  rn_frame_fence :: "nat option"
  rn_frame_fence_created :: bool
  rn_dmabuf_import_supported :: bool
  rn_observed_surface_commits :: u64
  rn_observed_surface_damage :: u64
  rn_frame_sequence :: u64
  rn_last_buffer :: "bid option"
  rn_last_width :: int
  rn_last_height :: int
  rn_last_format :: u32
  rn_last_modifier :: u64
  rn_last_import_path :: import_path

record render_counters =
  rc_last_report_ns :: u64
  rc_dispatch_count :: u64
  rc_dispatch_wait_ns :: u64
  rc_dispatch_wait_max_ns :: u64
  rc_render_count :: u64
  rc_render_without_surface_update :: u64
  rc_render_ns :: u64
  rc_render_max_ns :: u64
  rc_swap_ns :: u64
  rc_swap_max_ns :: u64
  rc_swap_ok :: u64
  rc_swap_fail :: u64
  rc_fence_created :: u64
  rc_fence_missing :: u64
  rc_egl_import_ok :: u64
  rc_egl_import_fail :: u64
  rc_cpu_upload :: u64
  rc_no_image :: u64
  rc_cpu_sync_ok :: u64
  rc_cpu_sync_fail :: u64

text \<open>A draw call: surface, buffer, rectangle, part of the texture, how the pixels got there, and the
  uniforms of the shader.\<close>

record draw_call =
  dr_surface :: sid
  dr_buffer :: bid
  dr_rect :: "int \<times> int \<times> int \<times> int"
  dr_source :: "rat \<times> rat \<times> rat \<times> rat"
  dr_path :: import_path
  dr_swizzle :: bool
  dr_opaque :: bool

text \<open>\<open>rs_visits\<close> are the calls of \<^verbatim>\<open>draw_surface\<close> of the frame.\<close>

record render_state =
  rs_host :: host
  rs_tvg :: tvg
  rs_renderer :: renderer_context
  rs_counters :: render_counters
  rs_visits :: "(sid \<times> int \<times> int) list"
  rs_draws :: "draw_call list"
  rs_gpu :: "bid set"

text \<open>
  The answers of EGL, OpenGL and the kernel: whether an image can be created from a buffer by a path (with or without an
  explicit modifier) and bound to the texture, duplicated descriptors, the synchronisation of a dma-buf, memory for a
  packed copy, the window's size, and the steps of the frame.
\<close>

record gl =
  gl_native :: "addr \<Rightarrow> bool"
  gl_create_image :: "import_path \<Rightarrow> u64 option \<Rightarrow> bid \<Rightarrow> bool"
  gl_bound :: "import_path \<Rightarrow> bid \<Rightarrow> bool"
  gl_dup :: "fd \<Rightarrow> fd"
  gl_sync_start :: "fd \<Rightarrow> bool"
  gl_sync_end :: "fd \<Rightarrow> bool"
  gl_malloc :: bool
  gl_make_current :: bool
  gl_window :: "int \<times> int"
  gl_swap :: bool
  gl_fence :: "nat option"
  gl_wait :: "nat \<Rightarrow> bool"
  gl_up :: "u32 \<Rightarrow> bool"
  gl_started_ns :: u64
  gl_swap_started_ns :: u64
  gl_finished_ns :: u64

section \<open>Buffers to textures\<close>

definition DRM_FORMAT_MOD_INVALID :: u64 where "DRM_FORMAT_MOD_INVALID = 0x00ffffffffffffff"

definition dmabuf_modifier_is_linear :: "u64 \<Rightarrow> bool" where
  "dmabuf_modifier_is_linear modifier \<longleftrightarrow> modifier = 0"

definition format_needs_rb_swizzle :: "u32 \<Rightarrow> bool" where
  "format_needs_rb_swizzle format \<longleftrightarrow> format = DRM_FORMAT_XRGB8888 \<or> format = DRM_FORMAT_ARGB8888"

definition format_is_opaque :: "u32 \<Rightarrow> bool" where
  "format_is_opaque format \<longleftrightarrow> format = DRM_FORMAT_XRGB8888 \<or> format = DRM_FORMAT_XBGR8888"

definition dmabuf_begin_cpu_read :: "gl \<Rightarrow> shm_buffer \<Rightarrow> render_counters \<Rightarrow> bool \<times> render_counters" where
  "dmabuf_begin_cpu_read g x c =
     (if \<not> b_dmabuf x \<or> b_dmabuf_fd x < 0 then (False, c)
      else if gl_sync_start g (b_dmabuf_fd x)
        then (True, if b_server x then c\<lparr>rc_cpu_sync_ok := rc_cpu_sync_ok c + 1\<rparr> else c)
      else (False, if b_server x then c\<lparr>rc_cpu_sync_fail := rc_cpu_sync_fail c + 1\<rparr> else c))"

definition dmabuf_end_cpu_read :: "gl \<Rightarrow> shm_buffer \<Rightarrow> render_counters \<Rightarrow> render_counters" where
  "dmabuf_end_cpu_read g x c =
     (if \<not> b_dmabuf x \<or> b_dmabuf_fd x < 0 then c
      else if \<not> gl_sync_end g (b_dmabuf_fd x)
        then (if b_server x then c\<lparr>rc_cpu_sync_fail := rc_cpu_sync_fail c + 1\<rparr> else c)
      else if b_server x then c\<lparr>rc_cpu_sync_ok := rc_cpu_sync_ok c + 1\<rparr> else c)"

definition import_ok :: "render_counters \<Rightarrow> render_counters" where
  "import_ok c = c\<lparr>rc_egl_import_ok := rc_egl_import_ok c + 1\<rparr>"

definition import_fail :: "render_counters \<Rightarrow> render_counters" where
  "import_fail c = c\<lparr>rc_egl_import_fail := rc_egl_import_fail c + 1\<rparr>"

text \<open>The three imports, in the order in which they are tried; the result is the path of the image, if any.\<close>

definition import_ahb :: "gl \<Rightarrow> renderer_context \<Rightarrow> bid \<Rightarrow> shm_buffer \<Rightarrow> render_counters \<Rightarrow>
    import_path option \<times> render_counters" where
  "import_ahb g r b x c = (case b_android_hardware_buffer x of
       None \<Rightarrow> (None, c)
     | Some ahb \<Rightarrow>
         if b_android_buffer x \<and> rn_create_image r \<and> rn_image_target r \<and> rn_native_client_buffer r \<and>
            gl_native g ahb \<and> gl_create_image g Path_ahb None b
         then (if gl_bound g Path_ahb b then (Some Path_ahb, import_ok c) else (None, import_fail c))
         else (None, c))"

definition import_egl_wayland :: "gl \<Rightarrow> renderer_context \<Rightarrow> bid \<Rightarrow> shm_buffer \<Rightarrow> render_counters \<Rightarrow>
    import_path option \<times> render_counters" where
  "import_egl_wayland g r b x c =
     (if b_egl_buffer x \<and> b_egl_resource x \<noteq> None \<and> rn_create_image r \<and> rn_image_target r \<and>
         gl_create_image g Path_egl_wayland None b
      then (Some Path_egl_wayland, import_ok c) else (None, c))"

definition import_dmabuf :: "gl \<Rightarrow> renderer_context \<Rightarrow> bid \<Rightarrow> shm_buffer \<Rightarrow> render_counters \<Rightarrow>
    import_path option \<times> render_counters" where
  "import_dmabuf g r b x c =
     (if b_dmabuf x \<and> 0 \<le> b_dmabuf_fd x \<and> rn_dmabuf_import_supported r then
        let image =
              (if dmabuf_modifier_is_linear (b_dmabuf_modifier x)
               then 0 \<le> gl_dup g (b_dmabuf_fd x) \<and> gl_create_image g Path_dmabuf None b
               else if b_dmabuf_modifier x \<noteq> DRM_FORMAT_MOD_INVALID
               then 0 \<le> gl_dup g (b_dmabuf_fd x) \<and> gl_create_image g Path_dmabuf (Some (b_dmabuf_modifier x)) b
               else False)
        in if image \<and> gl_bound g Path_dmabuf b then (Some Path_dmabuf, import_ok c) else (None, import_fail c)
      else (None, c))"

definition import_buffer :: "gl \<Rightarrow> renderer_context \<Rightarrow> bid \<Rightarrow> shm_buffer \<Rightarrow> render_counters \<Rightarrow>
    import_path option \<times> render_counters" where
  "import_buffer g r b x c =
     (case import_ahb g r b x c of
        (Some p, c1) \<Rightarrow> (Some p, c1)
      | (None, c1) \<Rightarrow>
          (case import_egl_wayland g r b x c1 of
             (Some p, c2) \<Rightarrow> (Some p, c2)
           | (None, c2) \<Rightarrow> import_dmabuf g r b x c2))"

text \<open>
  The upload by the CPU: the ranges it reads of the buffer's data (offset and length), or \<open>None\<close> when there is no
  memory for the packed copy.
\<close>

definition packed_stride :: "shm_buffer \<Rightarrow> int" where
  "packed_stride x = i32_wrap (b_width x * 4)"

definition cpu_reads :: "gl \<Rightarrow> shm_buffer \<Rightarrow> (int \<times> int) list option" where
  "cpu_reads g x =
     (if b_stride x \<noteq> packed_stride x
      then (if \<not> gl_malloc g then None
            else Some (map (\<lambda>row. (int row * b_stride x, packed_stride x)) [0..<nat (b_height x)]))
      else Some [(0, b_width x * 4 * b_height x)])"

definition cpu_upload :: "gl \<Rightarrow> shm_buffer \<Rightarrow> render_counters \<Rightarrow> bool \<times> render_counters" where
  "cpu_upload g x c =
     (let (active, c1) = dmabuf_begin_cpu_read g x c
      in case cpu_reads g x of
           None \<Rightarrow> (False, if active then dmabuf_end_cpu_read g x c1 else c1)
         | Some reads \<Rightarrow>
             let c2 = c1\<lparr>rc_cpu_upload := rc_cpu_upload c1 + 1\<rparr>
             in (True, if active then dmabuf_end_cpu_read g x c2 else c2))"

definition cpu_mapping_safe :: "shm_buffer \<Rightarrow> bool" where
  "cpu_mapping_safe x \<longleftrightarrow> \<not> b_dmabuf x \<or> dmabuf_modifier_is_linear (b_dmabuf_modifier x)"

text \<open>The path by which the texture was filled, with the shader's \<^verbatim>\<open>swizzle\<close> and \<^verbatim>\<open>opaque\<close>, or \<open>None\<close> where the function
  returns without drawing.\<close>

definition fill_texture :: "gl \<Rightarrow> renderer_context \<Rightarrow> bid \<Rightarrow> shm_buffer \<Rightarrow> render_counters \<Rightarrow>
    (import_path \<times> bool \<times> bool) option \<times> render_counters" where
  "fill_texture g r b x c =
     (case import_buffer g r b x c of
        (Some p, c1) \<Rightarrow> (Some (p, False, p = Path_dmabuf \<and> format_is_opaque (b_format x)), c1)
      | (None, c1) \<Rightarrow>
          if b_data x = None then (None, c1\<lparr>rc_no_image := rc_no_image c1 + 1\<rparr>)
          else if \<not> cpu_mapping_safe x then (Some (Path_none, True, True), c1)
          else (case cpu_upload g x c1 of
                  (False, c2) \<Rightarrow> (None, c2)
                | (True, c2) \<Rightarrow>
                    (Some (Path_cpu, format_needs_rb_swizzle (b_format x), format_is_opaque (b_format x)), c2)))"

section \<open>Drawing\<close>

definition surface_extent :: "compositor_surface \<Rightarrow> shm_buffer \<Rightarrow> int \<times> int" where
  "surface_extent y x =
     (let scale = (if 0 < s_buffer_scale y then s_buffer_scale y else 1); v = s_viewport_state y
      in if viewport_destination_set v then (viewport_destination_width v, viewport_destination_height v)
         else (c_div (b_width x) scale, c_div (b_height x) scale))"

definition texture_window :: "compositor_surface \<Rightarrow> shm_buffer \<Rightarrow> rat \<times> rat \<times> rat \<times> rat" where
  "texture_window y x =
     (let v = s_viewport_state y
      in if viewport_source_set v \<and> 0 < b_width x \<and> 0 < b_height x
         then let u0 = of_int (viewport_source_x v) / 256 / of_int (b_width x);
                  v0 = of_int (viewport_source_y v) / 256 / of_int (b_height x)
              in (u0, v0, u0 + of_int (viewport_source_width v) / 256 / of_int (b_width x),
                  v0 + of_int (viewport_source_height v) / 256 / of_int (b_height x))
         else (0, 0, 1, 1))"

definition upd_host :: "(host \<Rightarrow> host) \<Rightarrow> render_state \<Rightarrow> render_state" where
  "upd_host f st = st\<lparr>rs_host := f (rs_host st)\<rparr>"

definition draw_surface :: "gl \<Rightarrow> sid \<Rightarrow> int \<Rightarrow> int \<Rightarrow> render_state \<Rightarrow> render_state" where
  "draw_surface g s px py st0 =
     (let st = st0\<lparr>rs_visits := rs_visits st0 @ [(s, px, py)]\<rparr>; h = rs_host st; r = rs_renderer st
      in case h_surfaces h s of None \<Rightarrow> upd_host fault st | Some y \<Rightarrow>
        (case s_current y of None \<Rightarrow> st | Some b \<Rightarrow>
          (case h_buffers h b of None \<Rightarrow> upd_host fault st | Some x \<Rightarrow>
            let (width, height) = surface_extent y x
            in if width \<le> 0 \<or> height \<le> 0 then st
               else (case fill_texture g r b x (rs_counters st) of
                       (None, c) \<Rightarrow> st\<lparr>rs_counters := c\<rparr>
                     | (Some (path, swizzle, opaque), c) \<Rightarrow>
                         st\<lparr>rs_counters := c,
                            rs_draws := rs_draws st @ [\<lparr>dr_surface = s, dr_buffer = b, dr_rect = (px, py, width, height),
                              dr_source = texture_window y x, dr_path = path, dr_swizzle = swizzle, dr_opaque = opaque\<rparr>],
                            rs_gpu := (if path \<in> {Path_ahb, Path_egl_wayland, Path_dmabuf} then insert b (rs_gpu st)
                              else rs_gpu st),
                            rs_renderer := (if s_parent y = None \<and> sv_cursor_surface (h_server h) \<noteq> Some s
                              then r\<lparr>rn_last_buffer := Some b, rn_last_width := b_width x, rn_last_height := b_height x,
                                rn_last_format := b_format x, rn_last_modifier := b_dmabuf_modifier x,
                                rn_last_import_path := path\<rparr> else r)\<rparr>))))"

text \<open>A loop whose body may not return.\<close>

fun run_all :: "('a \<Rightarrow> 's \<Rightarrow> 's option) \<Rightarrow> 'a list \<Rightarrow> 's \<Rightarrow> 's option" where
  "run_all f [] s = Some s"
| "run_all f (a # as) s = Option.bind (f a s) (run_all f as)"

text \<open>
  \<^verbatim>\<open>draw_surface_tree\<close> with a bound on its depth; \<open>None\<close> is a recursion deeper than the bound. The renderer's
  bound is the number of surfaces and one, which is shown to be enough.
\<close>

primrec draw_surface_tree :: "nat \<Rightarrow> gl \<Rightarrow> sid \<Rightarrow> int \<Rightarrow> int \<Rightarrow> render_state \<Rightarrow> render_state option" where
  "draw_surface_tree 0 g s px py st = None"
| "draw_surface_tree (Suc n) g s px py st =
     (case h_surfaces (rs_host st) s of None \<Rightarrow> Some (upd_host fault st) | Some y \<Rightarrow>
       if sv_cursor_surface (h_server (rs_host st)) = Some s \<or> \<not> s_mapped y \<or> s_current y = None then Some st
       else
         let own_x = i32_wrap (px + (if s_parent y \<noteq> None then s_subsurface_x y
                else if s_layer_surface y \<noteq> None then layer_x (s_layer y) else 0));
             own_y = i32_wrap (py + (if s_parent y \<noteq> None then s_subsurface_y y
                else if s_layer_surface y \<noteq> None then layer_y (s_layer y) else 0))
         in run_all (\<lambda>child. draw_surface_tree n g child own_x own_y) (s_children y) (draw_surface g s own_x own_y st))"

text \<open>The buffer of a live surface is live, so the missing case does not arise.\<close>

definition is_tiny_viewport_underlay :: "host \<Rightarrow> compositor_surface \<Rightarrow> bool" where
  "is_tiny_viewport_underlay h y = (case s_current y of None \<Rightarrow> False | Some b \<Rightarrow>
     viewport_destination_set (s_viewport_state y) \<and>
     (case h_buffers h b of None \<Rightarrow> False | Some x \<Rightarrow> b_width x * b_height x \<le> 256))"

text \<open>The four passes over the surfaces.\<close>

definition pass_background :: "host \<Rightarrow> sid \<Rightarrow> compositor_surface \<Rightarrow> bool" where
  "pass_background h s y \<longleftrightarrow> s_parent y = None \<and> s_layer_surface y \<noteq> None \<and> layer_kind (s_layer y) = 0"

definition pass_tiny :: "host \<Rightarrow> sid \<Rightarrow> compositor_surface \<Rightarrow> bool" where
  "pass_tiny h s y \<longleftrightarrow> s_parent y = None \<and> sv_cursor_surface (h_server h) \<noteq> Some s \<and> is_tiny_viewport_underlay h y"

definition pass_normal :: "host \<Rightarrow> sid \<Rightarrow> compositor_surface \<Rightarrow> bool" where
  "pass_normal h s y \<longleftrightarrow> s_parent y = None \<and> sv_cursor_surface (h_server h) \<noteq> Some s \<and>
     (s_layer_surface y = None \<or> layer_kind (s_layer y) = 1) \<and> \<not> is_tiny_viewport_underlay h y"

definition pass_top :: "host \<Rightarrow> sid \<Rightarrow> compositor_surface \<Rightarrow> bool" where
  "pass_top h s y \<longleftrightarrow> s_parent y = None \<and> s_layer_surface y \<noteq> None \<and>
     (layer_kind (s_layer y) = 2 \<or> layer_kind (s_layer y) = 3)"

definition draw_pass :: "(host \<Rightarrow> sid \<Rightarrow> compositor_surface \<Rightarrow> bool) \<Rightarrow> gl \<Rightarrow> render_state \<Rightarrow> render_state option" where
  "draw_pass chosen g st =
     run_all (\<lambda>s st. case h_surfaces (rs_host st) s of None \<Rightarrow> Some (upd_host fault st) | Some y \<Rightarrow>
         if chosen (rs_host st) s y then draw_surface_tree (Suc (length (sids (rs_host st)))) g s 0 0 st else Some st)
       (sids (rs_host st)) st"

definition wl_fixed_to_int :: "int \<Rightarrow> int" where
  "wl_fixed_to_int f = c_div f 256"

definition draw_cursor :: "gl \<Rightarrow> render_state \<Rightarrow> render_state" where
  "draw_cursor g st = (let h = rs_host st; v = h_server h in
     case sv_cursor_surface v of None \<Rightarrow> st | Some s \<Rightarrow>
       if \<not> sv_cursor_visible v then st
       else (case h_surfaces h s of None \<Rightarrow> upd_host fault st | Some y \<Rightarrow>
         if s_mapped y \<and> s_current y \<noteq> None
         then draw_surface g s (i32_wrap (wl_fixed_to_int (sv_pointer_x v) - sv_cursor_hotspot_x v))
           (i32_wrap (wl_fixed_to_int (sv_pointer_y v) - sv_cursor_hotspot_y v)) st
         else st))"

definition draw_output :: "gl \<Rightarrow> render_state \<Rightarrow> render_state option" where
  "draw_output g st =
     Option.bind (draw_pass pass_background g st) (\<lambda>st1.
     Option.bind (draw_pass pass_tiny g st1) (\<lambda>st2.
     Option.bind (draw_pass pass_normal g st2) (\<lambda>st3.
     map_option (draw_cursor g) (draw_pass pass_top g st3))))"

section \<open>Frames\<close>

definition trierarch_renderer_valid :: "renderer_context option \<Rightarrow> bool" where
  "trierarch_renderer_valid r = (case r of None \<Rightarrow> False | Some c \<Rightarrow> rn_valid c)"

text \<open>The wait ends with the GPU idle where EGL reports the fence signalled.\<close>

definition trierarch_renderer_wait_idle :: "gl \<Rightarrow> render_state \<Rightarrow> render_state" where
  "trierarch_renderer_wait_idle g st = (let r = rs_renderer st in
     case rn_frame_fence r of None \<Rightarrow> st | Some f \<Rightarrow>
       if \<not> rn_client_wait_sync r \<or> \<not> rn_destroy_sync r then st
       else st\<lparr>rs_gpu := (if gl_wait g f then {} else rs_gpu st),
              rs_renderer := r\<lparr>rn_frame_fence := None, rn_frame_fence_created := False\<rparr>\<rparr>)"

text \<open>Up to the release of the buffers and tokens of the frames before.\<close>

definition render_begin :: "gl \<Rightarrow> render_state \<Rightarrow> render_state option" where
  "render_begin g st =
     (let r = rs_renderer st;
          r1 = r\<lparr>rn_frame_sequence := rn_frame_sequence r + 1\<rparr>;
          c = rs_counters st;
          c1 = (if 1 < rn_frame_sequence r1 \<and> \<not> rn_frame_fence_created r1
                then c\<lparr>rc_fence_missing := rc_fence_missing c + 1\<rparr> else c);
          st1 = trierarch_renderer_wait_idle g (st\<lparr>rs_renderer := r1, rs_counters := c1, rs_visits := [], rs_draws := []\<rparr>);
          st2 = st1\<lparr>rs_tvg := tvg_scanout_begin_frame (gl_up g) (rs_tvg st1)\<rparr>
      in map_option (\<lambda>h. st2\<lparr>rs_host := h\<rparr>) (trierarch_flush_deferred_releases (rs_host st2)))"

definition render_fence :: "gl \<Rightarrow> render_state \<Rightarrow> render_state" where
  "render_fence g st =
     (let r = rs_renderer st; c = rs_counters st;
          tried = rn_create_sync r \<and> rn_destroy_sync r \<and> rn_client_wait_sync r;
          fence = (if tried then gl_fence g else rn_frame_fence r);
          made = (tried \<and> gl_fence g \<noteq> None)
      in st\<lparr>rs_renderer := r\<lparr>rn_frame_fence := fence, rn_frame_fence_created := True\<rparr>,
            rs_counters := (if made then c\<lparr>rc_fence_created := rc_fence_created c + 1\<rparr> else c),
            rs_gpu := (if made then rs_gpu st else {})\<rparr>)"

definition record_max :: "u64 \<Rightarrow> u64 \<Rightarrow> u64" where
  "record_max value m = (if m < value then value else m)"

definition count_frame :: "gl \<Rightarrow> bool \<Rightarrow> render_counters \<Rightarrow> render_counters" where
  "count_frame g updated c =
     c\<lparr>rc_render_count := rc_render_count c + 1,
       rc_render_without_surface_update := rc_render_without_surface_update c + of_bool (\<not> updated),
       rc_render_ns := rc_render_ns c + (gl_finished_ns g - gl_started_ns g),
       rc_swap_ns := rc_swap_ns c + (gl_finished_ns g - gl_swap_started_ns g),
       rc_render_max_ns := record_max (gl_finished_ns g - gl_started_ns g) (rc_render_max_ns c),
       rc_swap_max_ns := record_max (gl_finished_ns g - gl_swap_started_ns g) (rc_swap_max_ns c)\<rparr>"

text \<open>After the drawing: the callbacks of what was drawn, the swap, the fence, the presentation.\<close>

definition render_finish :: "gl \<Rightarrow> bool \<Rightarrow> render_state \<Rightarrow> (bool \<times> render_state) option" where
  "render_finish g updated st =
     Option.bind (trierarch_surface_latch_frame_callbacks (rs_host st)) (\<lambda>h.
       let st1 = st\<lparr>rs_host := h\<rparr>; c = rs_counters st1; r = rs_renderer st1
       in if \<not> gl_swap g
          then Some (False, upd_host trierarch_surface_requeue_frame_callbacks
            (st1\<lparr>rs_counters := c\<lparr>rc_swap_fail := rc_swap_fail c + 1\<rparr>, rs_renderer := r\<lparr>rn_frame_fence_created := False\<rparr>\<rparr>))
          else
            let st2 = render_fence g (st1\<lparr>rs_counters := c\<lparr>rc_swap_ok := rc_swap_ok c + 1\<rparr>\<rparr>);
                st3 = st2\<lparr>rs_tvg := tvg_scanout_end_frame (rs_tvg st2)\<rparr>;
                st4 = upd_host (trierarch_wayland_frame_presented (ucast (gl_finished_ns g div 1000000))) st3
            in Some (True, st4\<lparr>rs_counters := count_frame g updated (rs_counters st4)\<rparr>))"

definition trierarch_renderer_render :: "gl \<Rightarrow> render_state \<Rightarrow> (bool \<times> render_state) option" where
  "trierarch_renderer_render g st =
     (if \<not> trierarch_renderer_valid (Some (rs_renderer st)) then Some (False, st)
      else Option.bind (render_begin g st) (\<lambda>st1.
        let r = rs_renderer st1; p = sv_perf (h_server (rs_host st1));
            updated = (rn_observed_surface_commits r \<noteq> pf_surface_commit_generation p \<or>
              rn_observed_surface_damage r \<noteq> pf_surface_damage_generation p);
            r1 = r\<lparr>rn_observed_surface_commits := pf_surface_commit_generation p,
              rn_observed_surface_damage := pf_surface_damage_generation p\<rparr>
        in if \<not> gl_make_current g then Some (False, st1\<lparr>rs_renderer := r1\<rparr>)
           else Option.bind (draw_output g (st1\<lparr>rs_renderer := r1\<lparr>rn_width := fst (gl_window g), rn_height := snd (gl_window g)\<rparr>\<rparr>))
             (render_finish g updated)))"

section \<open>Set-up and tear-down\<close>

text \<open>
  The objects a renderer owns. A handle of the structure is a flag that says whether it is there; \<open>rn_server\<close> is the
  renderer's entry in the server, set at the end of its creation. The events are what the calls of EGL and OpenGL make and free.
\<close>

datatype egl_object = Renderer_memory | Egl_display | Egl_context | Egl_surface | Vertex_shader | Fragment_shader |
  Background_program | Texture_program | Gl_texture | Frame_fence

type_synonym egl_event = "egl_object lifetime"

text \<open>What the compiler and the linker answer, and what EGL answers when a renderer is made.\<close>

record shader_answers =
  sa_vertex :: bool
  sa_fragment :: bool
  sa_link :: bool

record egl_answers =
  ea_calloc :: bool
  ea_get_display :: bool
  ea_initialize :: bool
  ea_choose_config :: bool
  ea_create_context :: bool
  ea_create_surface :: bool
  ea_make_current :: bool
  ea_create_image :: bool
  ea_destroy_image :: bool
  ea_image_target :: bool
  ea_native_client_buffer :: bool
  ea_create_sync :: bool
  ea_destroy_sync :: bool
  ea_client_wait_sync :: bool
  ea_extensions :: "string option"
  ea_bind :: bool
  ea_query :: bool
  ea_bound :: bool
  ea_window :: "int \<times> int"
  ea_background :: shader_answers
  ea_texture :: shader_answers
  ea_gen_texture :: bool

definition compile_shader :: "egl_object \<Rightarrow> bool \<Rightarrow> bool \<times> egl_event list" where
  "compile_shader kind ok = (ok, Made kind # (if ok then [] else [Freed kind]))"

definition make_program :: "egl_object \<Rightarrow> shader_answers \<Rightarrow> bool \<times> egl_event list" where
  "make_program program a =
     (let (vertex, e1) = compile_shader Vertex_shader (sa_vertex a);
          (frag, e2) = compile_shader Fragment_shader (sa_fragment a)
      in if \<not> vertex \<or> \<not> frag
         then (False, e1 @ e2 @ (if vertex then [Freed Vertex_shader] else []) @ (if frag then [Freed Fragment_shader] else []))
         else let e = e1 @ e2 @ [Made program, Freed Vertex_shader, Freed Fragment_shader]
              in if \<not> sa_link a then (False, e @ [Freed program]) else (True, e))"

definition trierarch_renderer_destroy :: "renderer_context option \<Rightarrow> egl_event list" where
  "trierarch_renderer_destroy renderer = (case renderer of None \<Rightarrow> [] | Some r \<Rightarrow>
     free_if (rn_frame_fence r \<noteq> None \<and> rn_destroy_sync r) Frame_fence @
     (if rn_display r \<and> rn_surface r \<and> rn_context r
      then free_if (rn_texture r) Gl_texture @ free_if (rn_background_program r) Background_program @
        free_if (rn_texture_program r) Texture_program else []) @
     (if rn_display r then free_if (rn_surface r) Egl_surface @ free_if (rn_context r) Egl_context @ [Freed Egl_display] else []) @
     [Freed Renderer_memory])"

text \<open>What \<^verbatim>\<open>calloc\<close> returns.\<close>

definition zero_renderer :: renderer_context where
  "zero_renderer = \<lparr>rn_server = False, rn_display = False, rn_surface = False, rn_context = False, rn_background_program = False,
     rn_texture_program = False, rn_texture = False, rn_valid = False, rn_width = 0, rn_height = 0,
     rn_create_image = False, rn_destroy_image = False, rn_image_target = False,
     rn_native_client_buffer = False, rn_create_sync = False, rn_destroy_sync = False, rn_client_wait_sync = False, rn_frame_fence = None,
     rn_frame_fence_created = False, rn_dmabuf_import_supported = False, rn_observed_surface_commits = 0,
     rn_observed_surface_damage = 0, rn_frame_sequence = 0, rn_last_buffer = None, rn_last_width = 0,
     rn_last_height = 0, rn_last_format = 0, rn_last_modifier = 0, rn_last_import_path = Path_none\<rparr>"

definition load_functions :: "egl_answers \<Rightarrow> renderer_context \<Rightarrow> renderer_context" where
  "load_functions a r = r\<lparr>rn_create_image := ea_create_image a, rn_destroy_image := ea_destroy_image a,
     rn_image_target := ea_image_target a, rn_native_client_buffer := ea_native_client_buffer a, rn_create_sync := ea_create_sync a,
     rn_destroy_sync := ea_destroy_sync a, rn_client_wait_sync := ea_client_wait_sync a,
     rn_dmabuf_import_supported := (case ea_extensions a of None \<Rightarrow> False | Some e \<Rightarrow> contains e ''EGL_EXT_image_dma_buf_import'') \<and>
       ea_create_image a \<and> ea_destroy_image a \<and> ea_image_target a\<rparr>"

definition bind_display :: "egl_answers \<Rightarrow> host \<Rightarrow> host" where
  "bind_display a h =
     (if ea_bind a \<and> ea_query a \<and> ea_create_image a \<and> ea_destroy_image a \<and> ea_image_target a \<and> ea_bound a
      then upd_server (sv_egl_buffer_supported_update (\<lambda>_. True)) h else h)"

definition make_objects :: "egl_answers \<Rightarrow> renderer_context \<Rightarrow> renderer_context \<times> egl_event list" where
  "make_objects a r =
     (let (background, e1) = make_program Background_program (ea_background a);
          (texture, e2) = make_program Texture_program (ea_texture a)
      in (r\<lparr>rn_width := fst (ea_window a), rn_height := snd (ea_window a), rn_background_program := background,
            rn_texture_program := texture, rn_texture := ea_gen_texture a, rn_valid := background \<and> texture \<and> ea_gen_texture a\<rparr>,
          e1 @ e2 @ (if ea_gen_texture a then [Made Gl_texture] else [])))"

text \<open>The label \<^verbatim>\<open>fail\<close>.\<close>

definition create_fail :: "renderer_context \<Rightarrow> egl_event list \<Rightarrow> host \<Rightarrow> renderer_context option \<times> egl_event list \<times> host" where
  "create_fail r e h = (None, e @ trierarch_renderer_destroy (Some r), h)"

definition trierarch_renderer_create ::
  "bool \<Rightarrow> egl_answers \<Rightarrow> host \<Rightarrow> renderer_context option \<times> egl_event list \<times> host" where
  "trierarch_renderer_create window a h =
     (if \<not> window \<or> \<not> ea_calloc a then (None, [], h)
      else if \<not> ea_get_display a then create_fail zero_renderer [Made Renderer_memory] h
      else let r1 = zero_renderer\<lparr>rn_display := True\<rparr>; e1 = [Made Renderer_memory, Made Egl_display]
      in if \<not> ea_initialize a \<or> \<not> ea_choose_config a \<or> \<not> ea_create_context a then create_fail r1 e1 h
      else let r2 = r1\<lparr>rn_context := True\<rparr>; e2 = e1 @ [Made Egl_context]
      in if \<not> ea_create_surface a then create_fail r2 e2 h
      else let r3 = r2\<lparr>rn_surface := True\<rparr>; e3 = e2 @ [Made Egl_surface]
      in if \<not> ea_make_current a then create_fail r3 e3 h
      else let h1 = bind_display a h; (r4, e) = make_objects a (load_functions a r3)
      in if \<not> rn_valid r4 then create_fail r4 (e3 @ e) h1
      else (Some (r4\<lparr>rn_server := True\<rparr>), e3 @ e, h1))"

section \<open>Statistics\<close>

definition reset_surface_perf :: "sid \<Rightarrow> host \<Rightarrow> host" where
  "reset_surface_perf s = upd_surface s (\<lambda>y. if s_perf y = zero_surface_perf then y else y\<lparr>s_perf := zero_surface_perf\<rparr>)"

definition report_surface_activity :: "host \<Rightarrow> host" where
  "report_surface_activity h = fold reset_surface_perf (sids h) h"

definition zero_render_counters :: "u64 \<Rightarrow> render_counters" where
  "zero_render_counters now = \<lparr>rc_last_report_ns = now, rc_dispatch_count = 0, rc_dispatch_wait_ns = 0,
     rc_dispatch_wait_max_ns = 0, rc_render_count = 0, rc_render_without_surface_update = 0, rc_render_ns = 0,
     rc_render_max_ns = 0, rc_swap_ns = 0, rc_swap_max_ns = 0, rc_swap_ok = 0, rc_swap_fail = 0, rc_fence_created = 0,
     rc_fence_missing = 0, rc_egl_import_ok = 0, rc_egl_import_fail = 0, rc_cpu_upload = 0, rc_no_image = 0,
     rc_cpu_sync_ok = 0, rc_cpu_sync_fail = 0\<rparr>"

text \<open>The report is printed and every counter starts again; the generations go on.\<close>

definition trierarch_renderer_report_performance :: "u64 \<Rightarrow> render_state \<Rightarrow> render_state" where
  "trierarch_renderer_report_performance now st = (let c = rs_counters st in
     if rc_last_report_ns c = 0 then st\<lparr>rs_counters := c\<lparr>rc_last_report_ns := now\<rparr>\<rparr>
     else if now - rc_last_report_ns c < 1000000000 then st
     else
       let h1 = report_surface_activity (rs_host st);
           h2 = upd_diag (\<lambda>_. zero_server_diag) h1;
           h3 = upd_perf (\<lambda>p. zero_server_perf\<lparr>pf_surface_commit_generation := pf_surface_commit_generation p,
                  pf_surface_damage_generation := pf_surface_damage_generation p\<rparr>) h2
       in st\<lparr>rs_host := h3, rs_counters := zero_render_counters now\<rparr>)"

end
