(* ===== verification/Dmabuf_Feedback.thy ===== *)
theory Dmabuf_Feedback
  imports Host_Properties C_Strings
begin

text \<open>
  The device the dma-buf feedback names: the guest's reporter (\<^verbatim>\<open>dmabuf-device-report/src/main.c\<close>) finds a render
  node and sends its device number, the host (\<^verbatim>\<open>dmabuf_feedback_device.c\<close>, \<^verbatim>\<open>dmabuf_feedback_path.c\<close>) records
  it, publishes the linux-dmabuf global and answers feedback requests with it (the feedback part of
  \<^verbatim>\<open>linux_dmabuf.c\<close>).
\<close>

section \<open>Device numbers\<close>

text \<open>\<^verbatim>\<open>major\<close>, \<^verbatim>\<open>minor\<close> and \<^verbatim>\<open>makedev\<close> of the C library.\<close>

definition dev_major :: "u64 \<Rightarrow> u32" where
  "dev_major d = ucast ((drop_bit 32 d AND 0xfffff000) OR (drop_bit 8 d AND 0xfff))"

definition dev_minor :: "u64 \<Rightarrow> u32" where
  "dev_minor d = ucast ((drop_bit 12 d AND 0xffffff00) OR (d AND 0xff))"

definition makedev :: "u32 \<Rightarrow> u32 \<Rightarrow> u64" where
  "makedev ma mi = push_bit 32 (ucast ma AND 0xfffff000) OR push_bit 8 (ucast ma AND 0xfff) OR
     push_bit 12 (ucast mi AND 0xffffff00) OR (ucast mi AND 0xff)"

section \<open>The report\<close>

definition REPORT_MAGIC :: u32 where "REPORT_MAGIC = 0x54444642"
definition REPORT_VERSION :: u32 where "REPORT_VERSION = 2"
definition REPORT_ACCEPTED :: u32 where "REPORT_ACCEPTED = 0"
definition REPORT_INVALID :: u32 where "REPORT_INVALID = 1"

record device_report =
  dr_magic :: u32
  dr_version :: u32
  dr_major :: u32
  dr_minor :: u32

record device_report_ack =
  da_magic :: u32
  da_version :: u32
  da_status :: u32

definition report_of :: "u64 \<Rightarrow> device_report" where
  "report_of rdev = \<lparr>dr_magic = REPORT_MAGIC, dr_version = REPORT_VERSION, dr_major = dev_major rdev,
     dr_minor = dev_minor rdev\<rparr>"

text \<open>
  \<^verbatim>\<open>report_device\<close>: \<open>linked\<close> is the socket and the connection, \<open>send_ok\<close> the sending; \<open>answer\<close> is the
  acknowledgement when one came in time and whole. The result is the exit status and what was sent.
\<close>

definition report_device ::
  "string \<Rightarrow> bool \<Rightarrow> bool \<Rightarrow> device_report_ack option \<Rightarrow> u64 \<Rightarrow> int \<times> device_report list" where
  "report_device socket_path linked send_ok answer rdev =
     (if 108 \<le> length socket_path \<or> \<not> linked then (1, [])
      else if \<not> send_ok then (1, [])
      else case answer of
             None \<Rightarrow> (1, [report_of rdev])
           | Some a \<Rightarrow>
               if da_magic a \<noteq> REPORT_MAGIC \<or> da_version a \<noteq> REPORT_VERSION \<or> da_status a \<noteq> REPORT_ACCEPTED
               then (1, [report_of rdev])
               else (0, [report_of rdev]))"

definition is_render_node :: "string \<Rightarrow> bool" where
  "is_render_node name \<longleftrightarrow>
     (if \<not> starts_with ''renderD'' name \<or> drop 7 name = [] then False
      else snd (snd (strtol (drop 7 name))) = [] \<and> length (''/dev/dri/'' @ name) < 265)"

text \<open>
  The loop over \<^verbatim>\<open>/dev/dri\<close>: \<open>node\<close> is the device number behind an entry that opens as a character
  device, \<open>report\<close> the outcome of \<^verbatim>\<open>report_device\<close> for it.
\<close>

fun report_nodes :: "(string \<Rightarrow> u64 option) \<Rightarrow> (u64 \<Rightarrow> int) \<Rightarrow> string list \<Rightarrow> int \<Rightarrow> int" where
  "report_nodes node report [] status = status"
| "report_nodes node report (e # es) status =
     (if \<not> is_render_node e then report_nodes node report es status
      else case node e of
             None \<Rightarrow> report_nodes node report es status
           | Some rdev \<Rightarrow> if report rdev = 0 then 0 else report_nodes node report es (report rdev))"

definition report_first_render_node :: "string list option \<Rightarrow> (string \<Rightarrow> u64 option) \<Rightarrow> (u64 \<Rightarrow> int) \<Rightarrow> int" where
  "report_first_render_node entries node report =
     (case entries of None \<Rightarrow> 1 | Some es \<Rightarrow> report_nodes node report es 1)"

definition report_main :: "string list \<Rightarrow> (string \<Rightarrow> int) \<Rightarrow> int" where
  "report_main args run = (case args of [a, path] \<Rightarrow> if a = ''--socket'' then run path else 2 | _ \<Rightarrow> 2)"

section \<open>The host's side\<close>

definition trierarch_dmabuf_feedback_device_get :: "feedback_device option \<Rightarrow> u64 option" where
  "trierarch_dmabuf_feedback_device_get device =
     (case device of None \<Rightarrow> None | Some d \<Rightarrow> if fb_known d then Some (fb_device d) else None)"

definition upd_device :: "(feedback_device \<Rightarrow> feedback_device) \<Rightarrow> host \<Rightarrow> host" where
  "upd_device f = upd_server (\<lambda>v. v\<lparr>sv_dmabuf_feedback_device := map_option f (sv_dmabuf_feedback_device v)\<rparr>)"

definition close_report_client :: "host \<Rightarrow> host" where
  "close_report_client h = (case sv_dmabuf_feedback_device (h_server h) of None \<Rightarrow> h
     | Some d \<Rightarrow>
         (let h1 = (if 0 \<le> fb_client_fd d then emit (Close_fd (fb_client_fd d)) h else h)
          in upd_device (\<lambda>d. d\<lparr>fb_client_source := False,
               fb_client_fd := (if 0 \<le> fb_client_fd d then -1 else fb_client_fd d)\<rparr>) h1))"

text \<open>\<open>created\<close>: whether \<^verbatim>\<open>wl_global_create\<close> succeeds.\<close>

definition trierarch_dmabuf_global_create :: "bool \<Rightarrow> host \<Rightarrow> bool \<times> host" where
  "trierarch_dmabuf_global_create created h =
     (if sv_dmabuf_global (h_server h) then (True, h)
      else if \<not> sv_dmabuf_enabled (h_server h) then (False, h)
      else if trierarch_dmabuf_feedback_device_get (sv_dmabuf_feedback_device (h_server h)) = None then (False, h)
      else if \<not> created then (False, h)
      else (True, upd_server (sv_dmabuf_global_update (\<lambda>_. True)) h))"

text \<open>The acknowledgement that \<open>Report_ack\<close> stands for.\<close>

definition ack_of :: "bool \<Rightarrow> device_report_ack" where
  "ack_of ok = \<lparr>da_magic = REPORT_MAGIC, da_version = REPORT_VERSION,
     da_status = (if ok then REPORT_ACCEPTED else REPORT_INVALID)\<rparr>"

text \<open>
  \<^verbatim>\<open>client_readable\<close>: what \<^verbatim>\<open>recv\<close> gives is nothing yet, a whole report, or anything else.
\<close>

datatype received = Recv_again | Recv_report device_report | Recv_other

definition accept_report :: "bool \<Rightarrow> received \<Rightarrow> host \<Rightarrow> bool \<times> host" where
  "accept_report created r h = (case r of
       Recv_report p \<Rightarrow>
         if dr_magic p \<noteq> REPORT_MAGIC \<or> dr_version p \<noteq> REPORT_VERSION then (False, h)
         else
           let h1 = upd_device (\<lambda>d. d\<lparr>fb_device := makedev (dr_major p) (dr_minor p), fb_known := True\<rparr>) h
           in (case trierarch_dmabuf_global_create created h1 of
                 (True, h2) \<Rightarrow> (True, h2)
               | (False, h2) \<Rightarrow> (False, upd_device (\<lambda>d. d\<lparr>fb_known := False, fb_device := 0\<rparr>) h2))
     | _ \<Rightarrow> (False, h))"

definition client_readable :: "bool \<Rightarrow> bool \<Rightarrow> received \<Rightarrow> host \<Rightarrow> host" where
  "client_readable readable created r h = (case sv_dmabuf_feedback_device (h_server h) of
       None \<Rightarrow> h
     | Some d \<Rightarrow>
         if \<not> readable then close_report_client h
         else if r = Recv_again then h
         else let (ok, h1) = accept_report created r h;
                  h2 = (if 0 \<le> fb_client_fd d then emit (Report_ack (fb_client_fd d) ok) h1 else h1)
              in close_report_client h2)"

text \<open>\<open>client\<close> is what \<^verbatim>\<open>accept4\<close> returns, \<open>watched\<close> whether it can be added to the event loop.\<close>

definition listener_readable :: "bool \<Rightarrow> fd option \<Rightarrow> bool \<Rightarrow> host \<Rightarrow> host" where
  "listener_readable readable client watched h = (case sv_dmabuf_feedback_device (h_server h) of
       None \<Rightarrow> h
     | Some d \<Rightarrow>
         if \<not> readable \<or> 0 \<le> fb_client_fd d then h
         else case client of
                None \<Rightarrow> h
              | Some c \<Rightarrow>
                  (let h1 = upd_device (\<lambda>d. d\<lparr>fb_client_fd := c, fb_client_source := watched\<rparr>) h
                   in if watched then h1 else close_report_client h1))"

text \<open>
  \<^verbatim>\<open>trierarch_dmabuf_feedback_device_create\<close>: \<open>mem\<close>, the socket, its binding and the event source may
  fail; a path that does not fit is refused.
\<close>

definition trierarch_dmabuf_feedback_device_create ::
  "string option \<Rightarrow> bool \<Rightarrow> fd option \<Rightarrow> bool \<Rightarrow> bool \<Rightarrow> feedback_device option" where
  "trierarch_dmabuf_feedback_device_create runtime_dir mem sock bind_ok watched = (case runtime_dir of
       None \<Rightarrow> None
     | Some d \<Rightarrow>
         if \<not> mem \<or> 108 \<le> length (d @ ''/dmabuf-feedback.sock'') \<or> sock = None \<or> \<not> bind_ok \<or> \<not> watched then None
         else Some \<lparr>fb_client_fd = -1, fb_client_source = False, fb_device = 0, fb_known = False\<rparr>)"

definition feedback_path :: "nat \<Rightarrow> string option \<Rightarrow> string option" where
  "feedback_path capacity runtime_dir = (case runtime_dir of
       None \<Rightarrow> None
     | Some d \<Rightarrow>
         if capacity = 0 \<or> d = [] then None
         else if length (d @ ''/dmabuf-feedback.sock'') < capacity then Some (d @ ''/dmabuf-feedback.sock'') else None)"

text \<open>The status and the path that is unlinked.\<close>

definition trierarch_clear_dmabuf_feedback_socket :: "string option \<Rightarrow> int \<times> string option" where
  "trierarch_clear_dmabuf_feedback_socket runtime_dir =
     (case feedback_path 4096 runtime_dir of None \<Rightarrow> (-1, None) | Some p \<Rightarrow> (0, Some p))"

definition trierarch_dmabuf_feedback_prepare :: "string option \<Rightarrow> bool \<Rightarrow> int \<times> string option" where
  "trierarch_dmabuf_feedback_prepare runtime_dir enabled =
     (if runtime_dir = None \<or> runtime_dir = Some [] then (-1, None)
      else if enabled then (0, None)
      else trierarch_clear_dmabuf_feedback_socket runtime_dir)"

section \<open>Feedback requests\<close>

text \<open>
  \<open>table\<close>: whether the format table could be written to a memory file (\<open>Some fd\<close>, with its success);
  \<open>indices\<close>: whether the array of indices could be allocated.
\<close>

definition send_feedback :: "rid \<Rightarrow> u64 \<Rightarrow> (fd \<times> bool) option \<Rightarrow> bool \<Rightarrow> host \<Rightarrow> host" where
  "send_feedback r main_device table indices h =
     emits ((case table of None \<Rightarrow> []
             | Some (fd, written) \<Rightarrow>
                 (if written then [Send_dmabuf r Feedback_format_table] else []) @ [Close_fd fd])
       @ [Send_dmabuf r (Feedback_main_device main_device),
          Send_dmabuf r (Feedback_tranche_target_device main_device),
          Send_dmabuf r (Feedback_tranche_flags 0)]
       @ (if indices then [Send_dmabuf r (Feedback_tranche_formats [0, 1, 2, 3])] else [])
       @ [Send_dmabuf r Feedback_tranche_done, Send_dmabuf r Feedback_done]) h"

definition dmabuf_get_default_feedback ::
  "cid \<Rightarrow> rid option \<Rightarrow> (fd \<times> bool) option \<Rightarrow> bool \<Rightarrow> host \<Rightarrow> host" where
  "dmabuf_get_default_feedback client res table indices h =
     (case trierarch_dmabuf_feedback_device_get (sv_dmabuf_feedback_device (h_server h)) of
        None \<Rightarrow> emit (Post_implementation_error client) h
      | Some main_device \<Rightarrow>
          (case res of
             None \<Rightarrow> emit (Post_no_memory client) h
           | Some r \<Rightarrow> send_feedback r main_device table indices h))"

definition dmabuf_get_surface_feedback ::
  "cid \<Rightarrow> rid option \<Rightarrow> (fd \<times> bool) option \<Rightarrow> bool \<Rightarrow> sid option \<Rightarrow> host \<Rightarrow> host" where
  "dmabuf_get_surface_feedback client res table indices surface h =
     dmabuf_get_default_feedback client res table indices h"

definition trierarch_dmabuf_bind :: "cid \<Rightarrow> nat \<Rightarrow> rid option \<Rightarrow> host \<Rightarrow> host" where
  "trierarch_dmabuf_bind client version0 res h =
     (let version = (if 4 < version0 then 4 else version0);
          formats = [DRM_FORMAT_XRGB8888, DRM_FORMAT_ARGB8888, DRM_FORMAT_XBGR8888, DRM_FORMAT_ABGR8888]
      in case res of
           None \<Rightarrow> emit (Post_no_memory client) h
         | Some r \<Rightarrow>
             emits ((if version < 4 then map (\<lambda>f. Send_dmabuf r (Dmabuf_format f)) formats else [])
               @ (if 3 \<le> version \<and> version < 4 then map (\<lambda>f. Send_dmabuf r (Dmabuf_modifier f 0)) formats else []))
               (new_resource client version r h))"

section \<open>The global is backed by a device\<close>

definition feedback_ok :: "host \<Rightarrow> bool" where
  "feedback_ok h \<longleftrightarrow> (sv_dmabuf_global (h_server h) \<longrightarrow>
     sv_dmabuf_enabled (h_server h) \<and>
     trierarch_dmabuf_feedback_device_get (sv_dmabuf_feedback_device (h_server h)) \<noteq> None)"

inductive feedback_step :: "host \<Rightarrow> host \<Rightarrow> bool" where
  listener: "feedback_step h (listener_readable readable client watched h)"
| client: "feedback_step h (client_readable readable created r h)"
| bind: "feedback_step h (trierarch_dmabuf_bind c v res h)"
| feedback: "feedback_step h (dmabuf_get_default_feedback c res table indices h)"
| surface_feedback: "feedback_step h (dmabuf_get_surface_feedback c res table indices surface h)"

lemma feedback_ok_log [simp]:
  "feedback_ok (emit e h) = feedback_ok h" "feedback_ok (emits es h) = feedback_ok h"
  "feedback_ok (new_resource c v r h) = feedback_ok h"
  by (simp_all add: feedback_ok_def access_defs new_resource_def emits_def)

lemma feedback_ok_client:
  assumes "\<And>d. fb_known (f d) = fb_known d"
  shows "feedback_ok (upd_device f h) = feedback_ok h"
  using assms
  by (cases "sv_dmabuf_feedback_device (h_server h)")
    (auto simp: feedback_ok_def upd_device_def upd_server_def trierarch_dmabuf_feedback_device_get_def)

lemma close_report_client_ok [simp]: "feedback_ok (close_report_client h) = feedback_ok h"
  by (simp add: close_report_client_def feedback_ok_client split: option.splits)

lemma accept_report_ok:
  assumes "feedback_ok h" "sv_dmabuf_feedback_device (h_server h) = Some d"
  shows "feedback_ok (snd (accept_report created r h))"
proof (cases r)
  case (Recv_report p)
  show ?thesis
  proof (cases "dr_magic p \<noteq> REPORT_MAGIC \<or> dr_version p \<noteq> REPORT_VERSION")
    case True
    with Recv_report assms show ?thesis by (simp add: accept_report_def)
  next
    case False
    with Recv_report assms show ?thesis
      by (auto simp: accept_report_def trierarch_dmabuf_global_create_def feedback_ok_def upd_device_def
          upd_server_def trierarch_dmabuf_feedback_device_get_def Let_def)
  qed
qed (use assms in \<open>simp_all add: accept_report_def\<close>)

lemma feedback_step_ok: "feedback_step h h' \<Longrightarrow> feedback_ok h \<Longrightarrow> feedback_ok h'"
proof (induction rule: feedback_step.induct)
  case (client h readable created r)
  show ?case
  proof (cases "sv_dmabuf_feedback_device (h_server h)")
    case (Some d)
    with accept_report_ok [OF client Some, of created r] client show ?thesis
      by (auto simp: client_readable_def Let_def split: prod.splits)
  qed (use client in \<open>simp add: client_readable_def\<close>)
qed (auto simp: listener_readable_def trierarch_dmabuf_bind_def dmabuf_get_default_feedback_def
    dmabuf_get_surface_feedback_def send_feedback_def feedback_ok_client Let_def split: option.splits)

interpretation feedback: transition_system feedback_step feedback_ok
  by unfold_locales (rule feedback_step_ok)

section \<open>Properties\<close>

text \<open>A client that could bind the linux-dmabuf global always gets feedback: once the global is published, in every
  later state the request for feedback sends the reported device, and never an implementation error.\<close>

theorem feedback_always_answered:
  assumes "trierarch_wayland_create ready dm timer device = Some h0" "feedback_step\<^sup>*\<^sup>* h0 h"
    "sv_dmabuf_global (h_server h)"
  shows "\<exists>main. trierarch_dmabuf_feedback_device_get (sv_dmabuf_feedback_device (h_server h)) = Some main \<and>
    dmabuf_get_default_feedback client (Some r) table indices h = send_feedback r main table indices h"
proof -
  have "feedback_ok h0" using assms(1) by (auto simp: trierarch_wayland_create_def feedback_ok_def split: if_splits)
  then have "feedback_ok h" using feedback.run_inv [OF assms(2)] by blast
  with assms(3) show ?thesis by (auto simp: feedback_ok_def dmabuf_get_default_feedback_def)
qed

definition listening_device :: feedback_device where
  "listening_device = \<lparr>fb_client_fd = 6, fb_client_source = True, fb_device = 0, fb_known = False\<rparr>"

definition dmabuf_boot :: host where
  "dmabuf_boot = (case trierarch_wayland_create True True 5 (Some listening_device) of Some h \<Rightarrow> h | None \<Rightarrow> undefined)"

lemma dmabuf_boot_created: "trierarch_wayland_create True True 5 (Some listening_device) = Some dmabuf_boot"
  by (simp add: dmabuf_boot_def trierarch_wayland_create_def)

lemma dmabuf_boot_fields [simp]:
  "sv_dmabuf_global (h_server dmabuf_boot) = False" "sv_dmabuf_enabled (h_server dmabuf_boot) = True"
  "sv_dmabuf_feedback_device (h_server dmabuf_boot) = Some listening_device"
  by (simp_all add: dmabuf_boot_def trierarch_wayland_create_def)

theorem feedback_always_answered_witness:
  "\<exists>main. dmabuf_get_default_feedback 1 (Some 4) None True (client_readable True True (Recv_report (report_of 0xe280)) dmabuf_boot) =
     send_feedback 4 main None True (client_readable True True (Recv_report (report_of 0xe280)) dmabuf_boot)"
proof -
  let ?h = "client_readable True True (Recv_report (report_of 0xe280)) dmabuf_boot"
  have "feedback_step\<^sup>*\<^sup>* dmabuf_boot ?h" by (rule r_into_rtranclp, rule feedback_step.client)
  moreover have "sv_dmabuf_global (h_server ?h)"
    by (simp add: client_readable_def accept_report_def report_of_def trierarch_dmabuf_global_create_def upd_device_def
        upd_server_def trierarch_dmabuf_feedback_device_get_def close_report_client_def emit_def listening_device_def Let_def)
  ultimately show ?thesis using feedback_always_answered [OF dmabuf_boot_created] by blast
qed

text \<open>The two halves of a device number are put together again.\<close>

lemma mask_bits:
  "bit (0xfffff000 :: u64) n \<longleftrightarrow> 12 \<le> n \<and> n < 32" "bit (0xfff :: u64) n \<longleftrightarrow> n < 12"
  "bit (0xffffff00 :: u64) n \<longleftrightarrow> 8 \<le> n \<and> n < 32" "bit (0xff :: u64) n \<longleftrightarrow> n < 8"
proof -
  have m: "(0xfffff000 :: u64) = push_bit 12 (mask 20)" "(0xfff :: u64) = mask 12"
    "(0xffffff00 :: u64) = push_bit 8 (mask 24)" "(0xff :: u64) = mask 8"
    by (simp_all add: mask_eq_exp_minus_1 push_bit_eq_mult)
  show "bit (0xfffff000 :: u64) n \<longleftrightarrow> 12 \<le> n \<and> n < 32" unfolding m(1) by (auto simp: bit_simps)
  show "bit (0xfff :: u64) n \<longleftrightarrow> n < 12" unfolding m(2) by (auto simp: bit_simps)
  show "bit (0xffffff00 :: u64) n \<longleftrightarrow> 8 \<le> n \<and> n < 32" unfolding m(3) by (auto simp: bit_simps)
  show "bit (0xff :: u64) n \<longleftrightarrow> n < 8" unfolding m(4) by (auto simp: bit_simps)
qed

lemma bit_major: "bit (dev_major d) n \<longleftrightarrow> n < 32 \<and> (if n < 12 then bit d (n + 8) else bit d (n + 32))"
  unfolding dev_major_def bit_unsigned_iff bit_or_iff bit_and_iff bit_drop_bit_eq mask_bits o_def
  by (auto simp: add.commute)

lemma bit_minor: "bit (dev_minor d) n \<longleftrightarrow> n < 32 \<and> (if n < 8 then bit d n else bit d (n + 12))"
  unfolding dev_minor_def bit_unsigned_iff bit_or_iff bit_and_iff bit_drop_bit_eq mask_bits o_def
  by (auto simp: add.commute)

lemma bit_makedev:
  assumes "n < 64"
  shows "bit (makedev ma mi) n \<longleftrightarrow>
    (if n < 8 then bit mi n else if n < 20 then bit ma (n - 8) else if n < 44 then bit mi (n - 12) else bit ma (n - 32))"
  using assms
  unfolding makedev_def bit_or_iff bit_push_bit_iff bit_and_iff bit_unsigned_iff mask_bits
  by (auto dest: bit_imp_le_length)

lemma makedev_major_minor: "makedev (dev_major d) (dev_minor d) = d"
proof (rule bit_word_eqI)
  fix n assume n: "n < LENGTH(64)"
  then have "n < 64" by simp
  from bit_makedev [OF this, of "dev_major d" "dev_minor d"] n
  show "bit (makedev (dev_major d) (dev_minor d)) n = bit d n" by (auto simp: bit_major bit_minor)
qed

text \<open>C40: the device number the guest reads from its render node is the one the host hands to its clients: a report
  that is accepted makes the host answer with exactly that number, and the acknowledgement makes the reporter
  succeed; a report the host does not accept makes it fail and leaves no device behind.\<close>

theorem device_report_roundtrip:
  assumes "sv_dmabuf_feedback_device (h_server h) = Some d" "sv_dmabuf_enabled (h_server h)"
    "accept_report created (Recv_report (report_of rdev)) h = (ok, h')" "length path < 108"
  shows "ok = (sv_dmabuf_global (h_server h) \<or> created) \<and>
    trierarch_dmabuf_feedback_device_get (sv_dmabuf_feedback_device (h_server h')) = (if ok then Some rdev else None) \<and>
    fst (report_device path True True (Some (ack_of ok)) rdev) = (if ok then 0 else 1)"
proof -
  have "fst (report_device path True True (Some (ack_of ok)) rdev) = (if ok then 0 else 1)"
    using assms(4) by (simp add: report_device_def ack_of_def REPORT_ACCEPTED_def REPORT_INVALID_def)
  moreover have "ok = (sv_dmabuf_global (h_server h) \<or> created) \<and>
      trierarch_dmabuf_feedback_device_get (sv_dmabuf_feedback_device (h_server h')) = (if ok then Some rdev else None)"
    using assms(1-3)
    by (auto simp: accept_report_def report_of_def trierarch_dmabuf_global_create_def upd_device_def upd_server_def
        trierarch_dmabuf_feedback_device_get_def makedev_major_minor Let_def split: if_splits)
  ultimately show ?thesis by blast
qed

theorem device_report_roundtrip_witness:
  "trierarch_dmabuf_feedback_device_get (sv_dmabuf_feedback_device (h_server
     (snd (accept_report True (Recv_report (report_of 0xe280)) dmabuf_boot)))) = Some 0xe280"
  using device_report_roundtrip [where h = dmabuf_boot and d = listening_device and created = True and rdev = "0xe280"
      and path = "''/s''"]
  by (cases "accept_report True (Recv_report (report_of 0xe280)) dmabuf_boot") auto

end
