(* ===== verification/Server_Life.thy ===== *)
theory Server_Life
  imports Renderer Dmabuf_Feedback
begin

text \<open>
  The set-up and the tear-down of the host (\<^verbatim>\<open>trierarch_wayland_create\<close> and \<^verbatim>\<open>trierarch_wayland_destroy\<close> of
  \<^verbatim>\<open>compositor.c\<close>, the device of \<^verbatim>\<open>dmabuf_feedback_device.c\<close>), as the objects they make and free and what they do to the file system. The state
  of the compositor the set-up leaves is \<open>trierarch_wayland_create\<close> of \<open>Host_Machine\<close>; the wake-up and the accounting of the dispatcher are here too.
\<close>

section \<open>Objects and actions\<close>

datatype server_object = Server_memory | Wl_display | Runtime_dir | Wake_fd | Telemetry_fd | Repaint_fd | Wake_source | Telemetry_source |
  Repaint_source | Feedback_memory | Feedback_listener | Feedback_source | Feedback_client_fd | Feedback_client_source

datatype server_action = Object "server_object lifetime" | Make_directory string | Change_mode string | Set_runtime_dir string |
  Unlink_path string | Add_global string nat

definition objects_of :: "server_action list \<Rightarrow> server_object lifetime list" where
  "objects_of as = concat (map (\<lambda>a. case a of Object e \<Rightarrow> [e] | _ \<Rightarrow> []) as)"

definition own :: "server_object lifetime list \<Rightarrow> server_action list" where
  "own es = map Object es"

lemma objects_of_simps [simp]:
  "objects_of [] = []" "objects_of (as @ bs) = objects_of as @ objects_of bs" "objects_of (own es) = es"
  "objects_of (Object e # as) = e # objects_of as" "objects_of (Make_directory d # as) = objects_of as"
  "objects_of (Change_mode d # as) = objects_of as" "objects_of (Set_runtime_dir d # as) = objects_of as"
  "objects_of (Unlink_path d # as) = objects_of as" "objects_of (Add_global i v # as) = objects_of as"
  by (simp_all add: objects_of_def own_def comp_def)

text \<open>The handles of \<^verbatim>\<open>struct trierarch_dmabuf_feedback_device\<close> and of \<^verbatim>\<open>struct wayland_server\<close>.\<close>

record feedback_objects =
  fo_listener_fd :: fd
  fo_listener_source :: bool
  fo_client_fd :: fd
  fo_client_source :: bool
  fo_socket_path :: string

record server_objects =
  so_dmabuf_enabled :: bool
  so_display :: bool
  so_event_loop :: bool
  so_runtime_dir :: "string option"
  so_wake_fd :: fd
  so_telemetry_fd :: fd
  so_repaint_fd :: fd
  so_wake_source :: bool
  so_telemetry_source :: bool
  so_repaint_source :: bool
  so_feedback :: "feedback_objects option"
  so_valid :: bool

text \<open>What the allocator, libwayland and the kernel answer.\<close>

record server_answers =
  na_calloc :: bool
  na_display :: bool
  na_event_loop :: bool
  na_malloc :: bool
  na_wake_fd :: fd
  na_telemetry_fd :: fd
  na_repaint_fd :: fd
  na_wake_source :: bool
  na_settime :: bool
  na_telemetry_source :: bool
  na_repaint_source :: bool
  na_add_socket :: bool
  na_tvg_socket :: "fd option"
  na_tvg_bind :: bool
  na_tvg_thread :: bool
  na_errno :: int
  na_fb_calloc :: bool
  na_fb_socket :: fd
  na_fb_bind :: bool
  na_fb_source :: bool

section \<open>The feedback device\<close>

text \<open>The path of a socket address holds 108 bytes; \<^verbatim>\<open>snprintf\<close> writes what fits before the terminator.\<close>

definition feedback_zero :: feedback_objects where
  "feedback_zero = \<lparr>fo_listener_fd = -1, fo_listener_source = False, fo_client_fd = -1, fo_client_source = False, fo_socket_path = []\<rparr>"

definition feedback_close_client :: "feedback_objects \<Rightarrow> feedback_objects \<times> server_action list" where
  "feedback_close_client d = (d\<lparr>fo_client_source := False, fo_client_fd := if 0 \<le> fo_client_fd d then -1 else fo_client_fd d\<rparr>,
     own (free_if (fo_client_source d) Feedback_client_source @ free_if (0 \<le> fo_client_fd d) Feedback_client_fd))"

text \<open>\<open>client\<close> is what \<^verbatim>\<open>accept4\<close> returns, \<open>watched\<close> whether the loop takes the source.\<close>

definition feedback_accept :: "fd \<Rightarrow> bool \<Rightarrow> feedback_objects \<Rightarrow> feedback_objects \<times> server_action list" where
  "feedback_accept client watched d =
     (if 0 \<le> fo_client_fd d then (d, [])
      else if client < 0 then (d, [])
      else
        let d1 = d\<lparr>fo_client_fd := client, fo_client_source := watched\<rparr>;
            e = own ([Made Feedback_client_fd] @ make_if watched Feedback_client_source)
        in if watched then (d1, e) else (case feedback_close_client d1 of (d2, e2) \<Rightarrow> (d2, e @ e2)))"

definition feedback_release :: "feedback_objects \<Rightarrow> server_action list" where
  "feedback_release d = own (free_if (0 \<le> fo_listener_fd d) Feedback_listener) @
     (if fo_socket_path d \<noteq> [] then [Unlink_path (fo_socket_path d)] else []) @ own [Freed Feedback_memory]"

definition trierarch_dmabuf_feedback_device_destroy :: "feedback_objects option \<Rightarrow> server_action list" where
  "trierarch_dmabuf_feedback_device_destroy device = (case device of None \<Rightarrow> [] | Some d \<Rightarrow>
     (case feedback_close_client d of (d1, e) \<Rightarrow>
        e @ own (free_if (fo_listener_source d1) Feedback_source) @ feedback_release d1))"

definition feedback_fail :: "feedback_objects \<Rightarrow> server_action list \<Rightarrow> feedback_objects option \<times> server_action list" where
  "feedback_fail d as = (None, as @ feedback_release d)"

definition feedback_device_create :: "server_answers \<Rightarrow> string option \<Rightarrow> feedback_objects option \<times> server_action list" where
  "feedback_device_create a runtime_dir = (case runtime_dir of None \<Rightarrow> (None, []) | Some dir \<Rightarrow>
     if \<not> na_fb_calloc a then (None, [])
     else
       let path = dir @ ''/dmabuf-feedback.sock'';
           d = feedback_zero\<lparr>fo_socket_path := take 107 path\<rparr>; e = own [Made Feedback_memory]
       in if 108 \<le> length path then feedback_fail d e
          else if na_fb_socket a < 0 then feedback_fail d e
          else
            let d1 = d\<lparr>fo_listener_fd := na_fb_socket a\<rparr>; e1 = e @ own [Made Feedback_listener] @ [Unlink_path path]
            in if \<not> na_fb_bind a then feedback_fail d1 e1
               else if \<not> na_fb_source a then feedback_fail d1 (e1 @ [Change_mode path])
               else (Some (d1\<lparr>fo_listener_source := True\<rparr>), e1 @ [Change_mode path] @ own [Made Feedback_source]))"

section \<open>The server\<close>

definition trierarch_wayland_destroy :: "server_objects \<Rightarrow> tvg \<Rightarrow> server_action list \<times> tvg" where
  "trierarch_wayland_destroy s t =
     (trierarch_dmabuf_feedback_device_destroy (so_feedback s) @
      own (free_if (so_wake_source s) Wake_source @ free_if (so_telemetry_source s) Telemetry_source @
        free_if (so_repaint_source s) Repaint_source @ free_if (so_display s) Wl_display @
        free_if (0 \<le> so_wake_fd s) Wake_fd @ free_if (0 \<le> so_telemetry_fd s) Telemetry_fd @
        free_if (0 \<le> so_repaint_fd s) Repaint_fd @ free_if (so_runtime_dir s \<noteq> None) Runtime_dir @ [Freed Server_memory]),
      tvg_scanout_stop t)"

definition server_zero :: "bool \<Rightarrow> server_objects" where
  "server_zero dmabuf_enabled = \<lparr>so_dmabuf_enabled = dmabuf_enabled, so_display = False, so_event_loop = False, so_runtime_dir = None,
     so_wake_fd = -1, so_telemetry_fd = -1, so_repaint_fd = -1, so_wake_source = False, so_telemetry_source = False,
     so_repaint_source = False, so_feedback = None, so_valid = False\<rparr>"

definition copy_runtime_dir :: "server_answers \<Rightarrow> string option \<Rightarrow> server_objects \<Rightarrow> server_objects \<times> server_action list" where
  "copy_runtime_dir a runtime_dir s = (case runtime_dir of
       None \<Rightarrow> (s, [])
     | Some d \<Rightarrow> if \<not> na_malloc a then (s, [])
         else (s\<lparr>so_runtime_dir := Some d\<rparr>, own [Made Runtime_dir] @ [Make_directory d, Change_mode d, Set_runtime_dir d]))"

definition open_descriptors :: "server_answers \<Rightarrow> server_objects \<Rightarrow> server_objects \<times> server_action list" where
  "open_descriptors a s =
     (s\<lparr>so_wake_fd := na_wake_fd a, so_telemetry_fd := na_telemetry_fd a, so_repaint_fd := na_repaint_fd a\<rparr>,
      own (make_if (0 \<le> na_wake_fd a) Wake_fd @ make_if (0 \<le> na_telemetry_fd a) Telemetry_fd @ make_if (0 \<le> na_repaint_fd a) Repaint_fd))"

definition watch_descriptors :: "server_answers \<Rightarrow> server_objects \<Rightarrow> server_objects \<times> server_action list" where
  "watch_descriptors a s =
     (let wake = (0 \<le> so_wake_fd s \<and> na_wake_source a);
          telemetry = (0 \<le> so_telemetry_fd s \<and> na_settime a \<and> na_telemetry_source a);
          repaint = (0 \<le> so_repaint_fd s \<and> na_repaint_source a)
      in (s\<lparr>so_wake_source := wake, so_telemetry_source := telemetry, so_repaint_source := repaint\<rparr>,
          own (make_if wake Wake_source @ make_if telemetry Telemetry_source @ make_if repaint Repaint_source)))"

definition PATH_MAX :: nat where "PATH_MAX = 4096"

definition path_in :: "string \<Rightarrow> string \<Rightarrow> string option" where
  "path_in dir name = (if length (dir @ name) < PATH_MAX then Some (dir @ name) else None)"

text \<open>The globals that are published at once, with the version.\<close>

definition published :: "(string \<times> nat) list" where
  "published = [(''wl_compositor'', 6), (''wl_subcompositor'', 1), (''wl_shm'', 1), (''wp_single_pixel_buffer_manager_v1'', 1),
     (''wp_viewporter'', 1), (''wl_output'', 4), (''wl_seat'', 9), (''zwp_pointer_constraints_v1'', 1), (''wp_presentation'', 1),
     (''xdg_wm_base'', 6), (''zxdg_output_manager_v1'', 3), (''zxdg_decoration_manager_v1'', 1), (''wp_fractional_scale_manager_v1'', 1),
     (''zwp_relative_pointer_manager_v1'', 1), (''android_wlegl'', 1), (''wl_data_device_manager'', 3), (''zwlr_layer_shell_v1'', 4),
     (''zwp_linux_explicit_synchronization_v1'', 2)]"

definition start_services :: "server_answers \<Rightarrow> string \<Rightarrow> server_objects \<Rightarrow> tvg \<Rightarrow> server_objects \<times> server_action list \<times> tvg" where
  "start_services a dir s t =
     (let e1 = (case path_in dir ''/wayland-trierarch'' of None \<Rightarrow> [] | Some p \<Rightarrow> [Change_mode p]);
          t1 = (case path_in dir ''/tvgd.sock'' of None \<Rightarrow> t
                | Some p \<Rightarrow> snd (tvg_scanout_start (Some p) (na_tvg_socket a) (na_tvg_bind a) (na_tvg_thread a) (na_errno a) t));
          (f, e2) = (if so_dmabuf_enabled s then feedback_device_create a (Some dir)
            else (so_feedback s, case snd (trierarch_dmabuf_feedback_prepare (Some dir) False) of None \<Rightarrow> [] | Some p \<Rightarrow> [Unlink_path p]))
      in (s\<lparr>so_feedback := f, so_valid := True\<rparr>, e1 @ e2 @ map (\<lambda>(i, v). Add_global i v) published, t1))"

definition server_fail :: "server_objects \<Rightarrow> server_action list \<Rightarrow> tvg \<Rightarrow> server_objects option \<times> server_action list \<times> tvg" where
  "server_fail s as t = (None, as @ fst (trierarch_wayland_destroy s t), snd (trierarch_wayland_destroy s t))"

definition create_server ::
  "server_answers \<Rightarrow> string option \<Rightarrow> bool \<Rightarrow> tvg \<Rightarrow> server_objects option \<times> server_action list \<times> tvg" where
  "create_server a runtime_dir dmabuf_enabled t =
     (if \<not> na_calloc a then (None, [], t)
      else
        let s1 = (server_zero dmabuf_enabled)\<lparr>so_display := na_display a, so_event_loop := na_display a \<and> na_event_loop a\<rparr>;
            e1 = own ([Made Server_memory] @ make_if (na_display a) Wl_display)
        in if \<not> so_display s1 \<or> \<not> so_event_loop s1 then server_fail s1 e1 t
           else
             let (s2, e2) = copy_runtime_dir a runtime_dir s1;
                 (s3, e3) = open_descriptors a s2;
                 (s4, e4) = watch_descriptors a s3;
                 e = e1 @ e2 @ e3 @ e4
             in (case so_runtime_dir s4 of
                  None \<Rightarrow> server_fail s4 e t
                | Some dir \<Rightarrow>
                    if \<not> so_wake_source s4 \<or> \<not> so_telemetry_source s4 \<or> \<not> so_repaint_source s4 \<or> \<not> na_add_socket a
                    then server_fail s4 e t
                    else let (s5, e5, t1) = start_services a dir s4 t in (Some s5, e @ e5, t1)))"

section \<open>The dispatcher's side\<close>

text \<open>
  \<^verbatim>\<open>trierarch_wayland_wake\<close> adds one to the counter of the eventfd, which refuses to go past its maximum; \<^verbatim>\<open>drain_counter_fd\<close> reads until
  nothing is left. The counter is the kernel's.
\<close>

definition eventfd_max :: nat where "eventfd_max = 2 ^ 64 - 2"

definition trierarch_wayland_wake :: "server_objects option \<Rightarrow> nat \<Rightarrow> nat" where
  "trierarch_wayland_wake server counter = (case server of None \<Rightarrow> counter | Some s \<Rightarrow>
     if so_wake_fd s < 0 then counter else if counter + 1 \<le> eventfd_max then counter + 1 else counter)"

text \<open>A read returns the counter and clears it, or fails where it is zero, which ends the loop.\<close>

fun drain_counter_fd :: "nat \<Rightarrow> nat" where
  "drain_counter_fd 0 = 0"
| "drain_counter_fd (Suc n) = drain_counter_fd 0"

text \<open>\<^verbatim>\<open>wl_event_loop_dispatch\<close> runs the handlers of the requests that have arrived (\<open>handlers\<close>) after waiting \<open>elapsed\<close> nanoseconds.\<close>

definition trierarch_wayland_dispatch ::
  "server_objects option \<Rightarrow> (host \<Rightarrow> host) \<Rightarrow> u64 \<Rightarrow> host \<times> render_counters \<Rightarrow> host \<times> render_counters" where
  "trierarch_wayland_dispatch server handlers elapsed hc = (case server of None \<Rightarrow> hc | Some s \<Rightarrow>
     if \<not> so_valid s then hc
     else (case hc of (h, c) \<Rightarrow> (handlers h, c\<lparr>rc_dispatch_count := rc_dispatch_count c + 1,
       rc_dispatch_wait_ns := rc_dispatch_wait_ns c + elapsed,
       rc_dispatch_wait_max_ns := record_max elapsed (rc_dispatch_wait_max_ns c)\<rparr>)))"

section \<open>Ownership\<close>

definition server_owns :: "server_objects \<Rightarrow> server_object \<Rightarrow> bool" where
  "server_owns s x = (case x of
       Server_memory \<Rightarrow> True | Wl_display \<Rightarrow> so_display s | Runtime_dir \<Rightarrow> so_runtime_dir s \<noteq> None
     | Wake_fd \<Rightarrow> 0 \<le> so_wake_fd s | Telemetry_fd \<Rightarrow> 0 \<le> so_telemetry_fd s | Repaint_fd \<Rightarrow> 0 \<le> so_repaint_fd s
     | Wake_source \<Rightarrow> so_wake_source s | Telemetry_source \<Rightarrow> so_telemetry_source s | Repaint_source \<Rightarrow> so_repaint_source s
     | _ \<Rightarrow> (case so_feedback s of None \<Rightarrow> False | Some d \<Rightarrow> (case x of
           Feedback_memory \<Rightarrow> True | Feedback_listener \<Rightarrow> 0 \<le> fo_listener_fd d | Feedback_source \<Rightarrow> fo_listener_source d
         | Feedback_client_fd \<Rightarrow> 0 \<le> fo_client_fd d | Feedback_client_source \<Rightarrow> fo_client_source d | _ \<Rightarrow> False)))"

definition server_owned :: "server_objects \<Rightarrow> server_object set" where
  "server_owned s = {x. server_owns s x}"

interpretation servers: owner "\<lambda>_. True" server_owned "\<lambda>s. objects_of (fst (trierarch_wayland_destroy s t))" for t
proof
  show "balance x (objects_of (fst (trierarch_wayland_destroy s t))) = - of_bool (x \<in> server_owned s)" for s x
    by (cases x; cases "so_feedback s") (simp_all add: trierarch_wayland_destroy_def trierarch_dmabuf_feedback_device_destroy_def
        feedback_release_def feedback_close_client_def server_owned_def server_owns_def)
qed

lemma feedback_create_balance:
  assumes "feedback_device_create a dir = (f, as)"
  shows "balance x (objects_of as) = of_bool (case f of None \<Rightarrow> False | Some d \<Rightarrow>
    x = Feedback_memory \<or> x = Feedback_listener \<or> x = Feedback_source)"
    "case f of None \<Rightarrow> True | Some d \<Rightarrow> 0 \<le> fo_listener_fd d \<and> fo_listener_source d \<and> fo_client_fd d = -1 \<and> \<not> fo_client_source d"
  using assms by (auto simp: feedback_device_create_def feedback_fail_def feedback_release_def feedback_zero_def Let_def
      split: option.splits if_splits)

lemma globals_no_objects [simp]: "objects_of (map (\<lambda>(i, v). Add_global i v) gs) = []"
  by (induction gs) auto

text \<open>A connection that is not watched is closed at once, so there is a source exactly when there is a descriptor.\<close>

definition client_watched :: "server_objects \<Rightarrow> bool" where
  "client_watched s \<longleftrightarrow> (case so_feedback s of None \<Rightarrow> True | Some d \<Rightarrow> fo_client_source d \<longleftrightarrow> 0 \<le> fo_client_fd d)"

lemma start_services_balance:
  assumes "start_services a dir s t = (s', as, t')" "so_feedback s = None" "accounts server_owned e s"
  shows "accounts server_owned (e @ objects_of as) s'" "so_valid s' \<and> client_watched s'"
proof -
  obtain f e2 where f: "(if so_dmabuf_enabled s then feedback_device_create a (Some dir)
      else (so_feedback s, case snd (trierarch_dmabuf_feedback_prepare (Some dir) False) of None \<Rightarrow> [] | Some p \<Rightarrow> [Unlink_path p])) = (f, e2)"
    by (meson surj_pair)
  have s': "s' = s\<lparr>so_feedback := f, so_valid := True\<rparr>"
    and as: "as = (case path_in dir ''/wayland-trierarch'' of None \<Rightarrow> [] | Some p \<Rightarrow> [Change_mode p]) @ e2 @ map (\<lambda>(i, v). Add_global i v) published"
    using assms(1) by (auto simp: start_services_def Let_def f)
  have b: "balance x (objects_of e2) = of_bool (case f of None \<Rightarrow> False | Some d \<Rightarrow> x = Feedback_memory \<or> x = Feedback_listener \<or> x = Feedback_source)"
    "case f of None \<Rightarrow> True | Some d \<Rightarrow> 0 \<le> fo_listener_fd d \<and> fo_listener_source d \<and> fo_client_fd d = -1 \<and> \<not> fo_client_source d" for x
    using f feedback_create_balance [of a "Some dir" f e2] assms(2) by (auto split: if_splits option.splits)
  have "balance x (e @ objects_of as) = of_bool (x \<in> server_owned s')" for x
    using assms(2,3) b(1) [of x] b(2) unfolding accounts_def as s'
    by (cases x; cases f; cases "path_in dir ''/wayland-trierarch''") (simp_all add: server_owned_def server_owns_def)
  then show "accounts server_owned (e @ objects_of as) s'" by (simp add: accounts_def)
  show "so_valid s' \<and> client_watched s'" using b(2) by (auto simp: s' client_watched_def split: option.splits)
qed

lemma set_up_balance:
  assumes "copy_runtime_dir a dir s1 = (s2, e2)" "open_descriptors a s2 = (s3, e3)" "watch_descriptors a s3 = (s4, e4)"
    "s1 = (server_zero d)\<lparr>so_display := p, so_event_loop := q\<rparr>"
  shows "accounts server_owned (objects_of (own ([Made Server_memory] @ make_if p Wl_display) @ e2 @ e3 @ e4)) s4" "so_feedback s4 = None"
    "so_dmabuf_enabled s4 = d" "so_runtime_dir s4 = (if na_malloc a then dir else None)" "so_repaint_fd s4 = na_repaint_fd a"
proof -
  have s2: "s2 = s1\<lparr>so_runtime_dir := (if na_malloc a then dir else None)\<rparr>" "objects_of e2 = make_if (na_malloc a \<and> dir \<noteq> None) Runtime_dir"
    using assms(1,4) by (auto simp: copy_runtime_dir_def make_if_def server_zero_def split: option.splits if_splits)
  have s4: "s4 = s3\<lparr>so_wake_source := 0 \<le> na_wake_fd a \<and> na_wake_source a,
      so_telemetry_source := 0 \<le> na_telemetry_fd a \<and> na_settime a \<and> na_telemetry_source a,
      so_repaint_source := 0 \<le> na_repaint_fd a \<and> na_repaint_source a\<rparr>"
    and s3: "s3 = s2\<lparr>so_wake_fd := na_wake_fd a, so_telemetry_fd := na_telemetry_fd a, so_repaint_fd := na_repaint_fd a\<rparr>"
    using assms(2,3) by (auto simp: open_descriptors_def watch_descriptors_def Let_def)
  have e: "objects_of e3 = make_if (0 \<le> na_wake_fd a) Wake_fd @ make_if (0 \<le> na_telemetry_fd a) Telemetry_fd @ make_if (0 \<le> na_repaint_fd a) Repaint_fd"
    "objects_of e4 = make_if (so_wake_source s4) Wake_source @ make_if (so_telemetry_source s4) Telemetry_source @ make_if (so_repaint_source s4) Repaint_source"
    using assms(2,3) by (auto simp: open_descriptors_def watch_descriptors_def Let_def)
  have "balance x (objects_of (own ([Made Server_memory] @ make_if p Wl_display) @ e2 @ e3 @ e4)) = of_bool (x \<in> server_owned s4)" for x
    unfolding objects_of_simps s2 e
    by (cases x) (simp_all add: server_owned_def server_owns_def s4 s3 s2 assms(4) server_zero_def)
  then show "accounts server_owned (objects_of (own ([Made Server_memory] @ make_if p Wl_display) @ e2 @ e3 @ e4)) s4"
    by (simp add: accounts_def)
  show "so_feedback s4 = None" "so_dmabuf_enabled s4 = d" "so_runtime_dir s4 = (if na_malloc a then dir else None)"
    "so_repaint_fd s4 = na_repaint_fd a"
    by (simp_all add: s4 s3 s2 assms(4) server_zero_def)
qed

lemma server_fail_nothing:
  assumes "accounts server_owned (objects_of as) s"
  shows "fst (server_fail s as t) = None \<and> (\<forall>x. balance x (objects_of (fst (snd (server_fail s as t)))) = 0)"
  using servers.given_up [OF assms, where t = t] by (simp add: server_fail_def)

text \<open>A set-up that succeeds has made what its handles say; one that fails has freed everything.\<close>

lemma create_server_objects:
  assumes "create_server a dir d t = (r, as, t')"
  shows "case r of None \<Rightarrow> \<forall>x. balance x (objects_of as) = 0 | Some s \<Rightarrow> accounts server_owned (objects_of as) s \<and> so_valid s \<and> client_watched s"
proof -
  define s1 where "s1 = (server_zero d)\<lparr>so_display := na_display a, so_event_loop := na_display a \<and> na_event_loop a\<rparr>"
  define e1 where "e1 = own ([Made Server_memory] @ make_if (na_display a) Wl_display)"
  obtain s2 e2 where 2: "copy_runtime_dir a dir s1 = (s2, e2)" by (meson surj_pair)
  obtain s3 e3 where 3: "open_descriptors a s2 = (s3, e3)" by (meson surj_pair)
  obtain s4 e4 where 4: "watch_descriptors a s3 = (s4, e4)" by (meson surj_pair)
  note u = set_up_balance [OF 2 3 4 s1_def]
  have a1: "accounts server_owned (objects_of e1) s1"
    unfolding accounts_def
  proof
    show "balance x (objects_of e1) = of_bool (x \<in> server_owned s1)" for x
      by (cases x) (simp_all add: e1_def s1_def server_owned_def server_owns_def server_zero_def)
  qed
  have eq: "create_server a dir d t = (if \<not> na_calloc a then (None, [], t)
      else if \<not> so_display s1 \<or> \<not> so_event_loop s1 then server_fail s1 e1 t
      else (case so_runtime_dir s4 of None \<Rightarrow> server_fail s4 (e1 @ e2 @ e3 @ e4) t
        | Some dir \<Rightarrow> if \<not> so_wake_source s4 \<or> \<not> so_telemetry_source s4 \<or> \<not> so_repaint_source s4 \<or> \<not> na_add_socket a
            then server_fail s4 (e1 @ e2 @ e3 @ e4) t
            else let (s5, e5, t1) = start_services a dir s4 t in (Some s5, (e1 @ e2 @ e3 @ e4) @ e5, t1)))"
    unfolding create_server_def Let_def s1_def [symmetric] e1_def [symmetric] 2 3 4 prod.case ..
  have u1: "accounts server_owned (objects_of (e1 @ e2 @ e3 @ e4)) s4" using u(1) by (simp add: e1_def)
  note f1 = server_fail_nothing [OF a1, where t = t] and f4 = server_fail_nothing [OF u1, where t = t]
  show ?thesis
    using assms f1 f4 start_services_balance [OF _ u(2) u1]
    unfolding eq by (fastforce split: if_splits option.splits prod.splits simp del: objects_of_simps simp: objects_of_simps(1,2))
qed

section \<open>Clients of the feedback device\<close>

text \<open>What the loop calls while the host runs: the listener accepts, or the connection ends after a report or a hang-up.\<close>

datatype connection = Connects fd bool | Ends

definition serve :: "connection \<Rightarrow> server_objects \<Rightarrow> server_objects \<times> server_action list" where
  "serve c s = (case so_feedback s of None \<Rightarrow> (s, []) | Some d \<Rightarrow>
     (case (case c of Connects client watched \<Rightarrow> feedback_accept client watched d | Ends \<Rightarrow> feedback_close_client d) of
        (d1, e) \<Rightarrow> (s\<lparr>so_feedback := Some d1\<rparr>, e)))"

fun serve_all :: "connection list \<Rightarrow> server_objects \<Rightarrow> server_objects \<times> server_action list" where
  "serve_all [] s = (s, [])"
| "serve_all (c # cs) s = (case serve c s of (s1, e1) \<Rightarrow> (case serve_all cs s1 of (s2, e2) \<Rightarrow> (s2, e1 @ e2)))"

lemma serve_balance:
  assumes "serve c s = (s', as)" "client_watched s" "accounts server_owned e s"
  shows "accounts server_owned (e @ objects_of as) s'" "client_watched s'"
proof -
  have "balance x (e @ objects_of as) = of_bool (x \<in> server_owned s')" for x
    using assms unfolding accounts_def
    by (cases x) (auto simp: serve_def feedback_accept_def feedback_close_client_def Let_def client_watched_def server_owned_def server_owns_def
        split: option.splits connection.splits if_splits)
  then show "accounts server_owned (e @ objects_of as) s'" by (simp add: accounts_def)
  show "client_watched s'"
    using assms(1,2) by (auto simp: serve_def feedback_accept_def feedback_close_client_def Let_def client_watched_def
        split: option.splits connection.splits if_splits)
qed

lemma serve_all_balance:
  assumes "serve_all cs s = (s', as)" "client_watched s" "accounts server_owned e s"
  shows "accounts server_owned (e @ objects_of as) s'"
  using assms
proof (induction cs s arbitrary: e s' as rule: serve_all.induct)
  case (2 c cs s)
  obtain s1 e1 where 1: "serve c s = (s1, e1)" by (meson surj_pair)
  obtain s2 e2 where 2: "serve_all cs s1 = (s2, e2)" by (meson surj_pair)
  note b = serve_balance [OF 1 "2.prems"(2,3)]
  show ?case using "2.IH" [OF 1 [symmetric] 2 b(2,1)] "2.prems"(1) by (auto simp: 1 2)
qed simp

end
