(* ===== verification/Registry.thy ===== *)
theory Registry
  imports Server_Life Seat_Safety
begin

text \<open>
  The globals of the host: the \<^verbatim>\<open>trierarch_*_bind\<close> functions that \<^verbatim>\<open>trierarch_wayland_create\<close> registers, and the requests of the extensions that keep no state of
  their own (\<^verbatim>\<open>pointer_constraints.c\<close>, \<^verbatim>\<open>presentation.c\<close>, \<^verbatim>\<open>xdg_decoration.c\<close>, the relative pointer and the data device of
  \<^verbatim>\<open>protocol_stubs.c\<close>). \<open>res\<close> is what \<^verbatim>\<open>wl_resource_create\<close> returns. Requests that only ignore their arguments are in the tables of \<open>Interfaces\<close>.
\<close>

section \<open>Binding\<close>

definition resource_or_error :: "cid \<Rightarrow> nat \<Rightarrow> rid option \<Rightarrow> event list \<Rightarrow> host \<Rightarrow> host" where
  "resource_or_error client version res es h = (case res of
       None \<Rightarrow> emit (Post_no_memory client) h
     | Some r \<Rightarrow> emits es (new_resource client version r h))"

definition sends :: "(rid \<Rightarrow> event) list \<Rightarrow> rid option \<Rightarrow> event list" where
  "sends es res = (case res of None \<Rightarrow> [] | Some r \<Rightarrow> map (\<lambda>e. e r) es)"

definition trierarch_surface_bind :: "cid \<Rightarrow> nat \<Rightarrow> rid option \<Rightarrow> host \<Rightarrow> host" where
  "trierarch_surface_bind client version res = resource_or_error client (if version < 6 then version else 6) res []"

definition trierarch_subcompositor_bind :: "cid \<Rightarrow> nat \<Rightarrow> rid option \<Rightarrow> host \<Rightarrow> host" where
  "trierarch_subcompositor_bind client version res = resource_or_error client (if version < 1 then version else 1) res []"

definition trierarch_shm_bind :: "cid \<Rightarrow> nat \<Rightarrow> rid option \<Rightarrow> host \<Rightarrow> host" where
  "trierarch_shm_bind client version res = resource_or_error client (if version < 1 then version else 1) res
     (sends [\<lambda>r. Shm_format r WL_SHM_FORMAT_XRGB8888, \<lambda>r. Shm_format r WL_SHM_FORMAT_ARGB8888] res)"

definition trierarch_single_pixel_bind :: "cid \<Rightarrow> nat \<Rightarrow> rid option \<Rightarrow> host \<Rightarrow> host" where
  "trierarch_single_pixel_bind client version res = resource_or_error client (if version < 1 then version else 1) res []"

definition trierarch_viewporter_bind :: "cid \<Rightarrow> nat \<Rightarrow> rid option \<Rightarrow> host \<Rightarrow> host" where
  "trierarch_viewporter_bind client version res = resource_or_error client (if version < 1 then version else 1) res []"

definition trierarch_pointer_constraints_bind :: "cid \<Rightarrow> nat \<Rightarrow> rid option \<Rightarrow> host \<Rightarrow> host" where
  "trierarch_pointer_constraints_bind client version res = resource_or_error client (if version < 1 then version else 1) res []"

definition CLOCK_MONOTONIC :: u32 where "CLOCK_MONOTONIC = 1"

definition trierarch_presentation_bind :: "cid \<Rightarrow> nat \<Rightarrow> rid option \<Rightarrow> host \<Rightarrow> host" where
  "trierarch_presentation_bind client version res = resource_or_error client (if version < 1 then version else 1) res
     (sends [\<lambda>r. Send_extra r (Clock_id CLOCK_MONOTONIC)] res)"

definition trierarch_xdg_shell_bind :: "cid \<Rightarrow> nat \<Rightarrow> rid option \<Rightarrow> host \<Rightarrow> host" where
  "trierarch_xdg_shell_bind client version res = resource_or_error client (if 6 < version then 6 else version) res []"

definition trierarch_xdg_output_bind :: "cid \<Rightarrow> nat \<Rightarrow> rid option \<Rightarrow> host \<Rightarrow> host" where
  "trierarch_xdg_output_bind client version res = resource_or_error client (if version < 3 then version else 3) res []"

definition trierarch_xdg_decoration_bind :: "cid \<Rightarrow> nat \<Rightarrow> rid option \<Rightarrow> host \<Rightarrow> host" where
  "trierarch_xdg_decoration_bind client version res = resource_or_error client (if version < 1 then version else 1) res []"

definition trierarch_fractional_scale_bind :: "cid \<Rightarrow> nat \<Rightarrow> rid option \<Rightarrow> host \<Rightarrow> host" where
  "trierarch_fractional_scale_bind client version res = resource_or_error client (if version < 1 then version else 1) res []"

definition trierarch_relative_pointer_bind :: "cid \<Rightarrow> nat \<Rightarrow> rid option \<Rightarrow> host \<Rightarrow> host" where
  "trierarch_relative_pointer_bind client version res = resource_or_error client (if version < 1 then version else 1) res []"

definition trierarch_android_wlegl_bind :: "cid \<Rightarrow> nat \<Rightarrow> rid option \<Rightarrow> host \<Rightarrow> host" where
  "trierarch_android_wlegl_bind client version res = resource_or_error client (if version < 1 then version else 1) res []"

definition trierarch_data_device_bind :: "cid \<Rightarrow> nat \<Rightarrow> rid option \<Rightarrow> host \<Rightarrow> host" where
  "trierarch_data_device_bind client version res = resource_or_error client (if version < 3 then version else 3) res []"

definition trierarch_layer_shell_bind :: "cid \<Rightarrow> nat \<Rightarrow> rid option \<Rightarrow> host \<Rightarrow> host" where
  "trierarch_layer_shell_bind client version res = resource_or_error client (if version < 4 then version else 4) res []"

definition trierarch_explicit_sync_bind :: "cid \<Rightarrow> nat \<Rightarrow> rid option \<Rightarrow> host \<Rightarrow> host" where
  "trierarch_explicit_sync_bind client version res = resource_or_error client (if version < 2 then version else 2) res []"

text \<open>The function registered for an interface; \<open>mem\<close> is the allocation an output needs.\<close>

definition binders :: "bool \<Rightarrow> (string \<times> (cid \<Rightarrow> nat \<Rightarrow> rid option \<Rightarrow> host \<Rightarrow> host)) list" where
  "binders mem = [(''wl_compositor'', trierarch_surface_bind), (''wl_subcompositor'', trierarch_subcompositor_bind),
     (''wl_shm'', trierarch_shm_bind), (''wp_single_pixel_buffer_manager_v1'', trierarch_single_pixel_bind),
     (''wp_viewporter'', trierarch_viewporter_bind), (''wl_output'', \<lambda>client version res. trierarch_output_bind client version res mem),
     (''wl_seat'', trierarch_seat_bind), (''zwp_pointer_constraints_v1'', trierarch_pointer_constraints_bind),
     (''wp_presentation'', trierarch_presentation_bind), (''xdg_wm_base'', trierarch_xdg_shell_bind),
     (''zxdg_output_manager_v1'', trierarch_xdg_output_bind), (''zxdg_decoration_manager_v1'', trierarch_xdg_decoration_bind),
     (''wp_fractional_scale_manager_v1'', trierarch_fractional_scale_bind),
     (''zwp_relative_pointer_manager_v1'', trierarch_relative_pointer_bind), (''android_wlegl'', trierarch_android_wlegl_bind),
     (''wl_data_device_manager'', trierarch_data_device_bind), (''zwlr_layer_shell_v1'', trierarch_layer_shell_bind),
     (''zwp_linux_explicit_synchronization_v1'', trierarch_explicit_sync_bind)]"

definition bind_global :: "string \<Rightarrow> cid \<Rightarrow> nat \<Rightarrow> rid option \<Rightarrow> bool \<Rightarrow> host \<Rightarrow> host option" where
  "bind_global interface client version res mem h = map_option (\<lambda>f. f client version res h) (map_of (binders mem) interface)"

section \<open>Extensions without state\<close>

definition create_locked_pointer :: "cid \<Rightarrow> rid option \<Rightarrow> host \<Rightarrow> host" where
  "create_locked_pointer client res = resource_or_error client 1 res (sends [\<lambda>r. Send_extra r Pointer_locked] res)"

definition create_confined_pointer :: "cid \<Rightarrow> rid option \<Rightarrow> host \<Rightarrow> host" where
  "create_confined_pointer client res = resource_or_error client 1 res (sends [\<lambda>r. Send_extra r Pointer_confined] res)"

definition constraints_lock_pointer :: "cid \<Rightarrow> rid option \<Rightarrow> host \<Rightarrow> host" where
  "constraints_lock_pointer client res = create_locked_pointer client res"

definition constraints_confine_pointer :: "cid \<Rightarrow> rid option \<Rightarrow> host \<Rightarrow> host" where
  "constraints_confine_pointer client res = create_confined_pointer client res"

text \<open>\<open>now\<close> is what \<^verbatim>\<open>clock_gettime\<close> gives, seconds and nanoseconds, or \<open>None\<close> where it fails.\<close>

definition presented_at :: "u64 \<Rightarrow> u64 \<Rightarrow> extra_event" where
  "presented_at seconds nanoseconds = Frame_presented (ucast (drop_bit 32 seconds)) (ucast seconds) (ucast nanoseconds) 16666666 1"

definition presentation_feedback :: "cid \<Rightarrow> rid option \<Rightarrow> (u64 \<times> u64) option \<Rightarrow> host \<Rightarrow> host" where
  "presentation_feedback client res now = resource_or_error client 1 res
     (sends [\<lambda>r. Send_extra r (case now of None \<Rightarrow> Frame_discarded | Some (s, n) \<Rightarrow> presented_at s n), Destroyed] res)"

definition MODE_SERVER_SIDE :: u32 where "MODE_SERVER_SIDE = 2"

definition decoration_set_mode :: "rid \<Rightarrow> u32 \<Rightarrow> host \<Rightarrow> host" where
  "decoration_set_mode r mode = emit (Send_extra r (Decoration_configure MODE_SERVER_SIDE))"

definition decoration_unset_mode :: "rid \<Rightarrow> host \<Rightarrow> host" where
  "decoration_unset_mode r = emit (Send_extra r (Decoration_configure MODE_SERVER_SIDE))"

definition manager_get_decoration :: "cid \<Rightarrow> rid option \<Rightarrow> host \<Rightarrow> host" where
  "manager_get_decoration client res = resource_or_error client 1 res
     (sends [\<lambda>r. Send_extra r (Decoration_configure MODE_SERVER_SIDE)] res)"

definition relative_get :: "cid \<Rightarrow> rid option \<Rightarrow> host \<Rightarrow> host" where
  "relative_get client res = resource_or_error client 1 res []"

definition data_create_source :: "cid \<Rightarrow> rid \<Rightarrow> rid option \<Rightarrow> host \<Rightarrow> host" where
  "data_create_source client manager res h = resource_or_error client (h_version h manager) res [] h"

definition data_get_device :: "cid \<Rightarrow> rid \<Rightarrow> rid option \<Rightarrow> host \<Rightarrow> host" where
  "data_get_device client manager res h = resource_or_error client (h_version h manager) res [] h"

end
