(* ===== verification/Interfaces.thy ===== *)
theory Interfaces
  imports Host_Machine Registry
begin

text \<open>
  The request tables of the host (the \<^verbatim>\<open>*_impl\<close> structs passed to \<^verbatim>\<open>wl_resource_set_implementation\<close>) and the objects behind the resources. libwayland keeps a table of
  the resources of its clients: which implementation a resource has, the user data it was given and the function to run when it is destroyed. \<open>w_objects\<close> is this table for the
  surfaces, the role objects that carry a surface as their user data, and the objects without user data of their own. A request is delivered to a resource by looking it up there.

  A resource a client names as a new object is an \<open>rid option\<close>, \<open>None\<close> where \<^verbatim>\<open>wl_resource_create\<close> fails. A handler that ignores its arguments is a request
  without arguments.
\<close>

section \<open>Objects\<close>

text \<open>The role objects of a surface, and its field that names each of them.\<close>

datatype role = Toplevel_role | Xdg_surface_role | Subsurface_role | Viewport_role | Fractional_role | Layer_role | Sync_role

fun role_field :: "role \<Rightarrow> compositor_surface \<Rightarrow> rid option" where
  "role_field Toplevel_role x = s_xdg_toplevel x"
| "role_field Xdg_surface_role x = s_xdg_surface x"
| "role_field Subsurface_role x = s_subsurface x"
| "role_field Viewport_role x = s_viewport x"
| "role_field Fractional_role x = s_fractional_scale x"
| "role_field Layer_role x = s_layer_surface x"
| "role_field Sync_role x = s_explicit_sync x"

text \<open>In the order in which \<^verbatim>\<open>surface_resource_destroy\<close> destroys them.\<close>

definition all_roles :: "role list" where
  "all_roles = [Toplevel_role, Xdg_surface_role, Subsurface_role, Viewport_role, Fractional_role, Layer_role, Sync_role]"

text \<open>The destroy functions the role objects are given; a fractional scale has none.\<close>

fun role_hook :: "role \<Rightarrow> rid \<Rightarrow> sid \<Rightarrow> host \<Rightarrow> host" where
  "role_hook Toplevel_role r s = xdg_toplevel_resource_destroy (Some s)"
| "role_hook Xdg_surface_role r s = xdg_surface_resource_destroy (Some s)"
| "role_hook Subsurface_role r s = subsurface_resource_destroy r (Some s)"
| "role_hook Viewport_role r s = viewport_resource_destroy (Some s)"
| "role_hook Fractional_role r s = id"
| "role_hook Layer_role r s = layer_surface_resource_destroy (Some s)"
| "role_hook Sync_role r s = sync_resource_destroy r (Some s)"

datatype interface = Compositor | Subcompositor | Wm_base | Viewporter | Fractional_manager | Layer_shell | Sync_manager |
  Region | Positioner | Popup | Locked_pointer | Confined_pointer | Constraints | Relative_manager | Relative_pointer |
  Data_manager | Data_source | Data_device | Decoration_manager | Decoration

datatype wire_object = Surface_object sid | Role_object role sid | Plain_object interface

record wire =
  w_host :: host
  w_objects :: "rid \<rightharpoonup> wire_object"

definition on_host :: "(host \<Rightarrow> host) \<Rightarrow> wire \<Rightarrow> wire" where
  "on_host f w = w\<lparr>w_host := f (w_host w)\<rparr>"

text \<open>The surface a \<^verbatim>\<open>wl_surface\<close> argument stands for.\<close>

definition surface_behind :: "wire \<Rightarrow> rid \<Rightarrow> sid option" where
  "surface_behind w r = (case w_objects w r of Some (Surface_object s) \<Rightarrow> Some s | _ \<Rightarrow> None)"

section \<open>Creation and destruction\<close>

text \<open>The resource a surface names for a role is destroyed; one that is already gone is a freed resource.\<close>

definition forget_role :: "sid \<Rightarrow> role \<Rightarrow> wire \<Rightarrow> wire" where
  "forget_role s k w = (case fld (h_surfaces (w_host w)) (role_field k) s of
       None \<Rightarrow> w
     | Some r \<Rightarrow> if w_objects w r = None then on_host fault w else w\<lparr>w_objects := (w_objects w)(r := None)\<rparr>)"

definition wl_resource_destroy :: "rid \<Rightarrow> wire \<Rightarrow> wire" where
  "wl_resource_destroy r w = (case w_objects w r of
       None \<Rightarrow> on_host fault w
     | Some x \<Rightarrow>
         let w1 = (case x of
             Surface_object s \<Rightarrow> on_host (surface_resource_destroy s) (fold (forget_role s) all_roles w)
           | Role_object k s \<Rightarrow> on_host (role_hook k r s) w
           | Plain_object i \<Rightarrow> w)
         in on_host (emit (Destroyed r)) (w1\<lparr>w_objects := (w_objects w1)(r := None)\<rparr>))"

text \<open>A handler that makes a role object sets its user data exactly where it makes the surface name it.\<close>

definition with_role :: "role \<Rightarrow> rid option \<Rightarrow> sid option \<Rightarrow> (host \<Rightarrow> host) \<Rightarrow> wire \<Rightarrow> wire" where
  "with_role k res surface handler w =
     (let w1 = on_host handler w in case (res, surface) of
        (Some r, Some s) \<Rightarrow>
          if fld (h_surfaces (w_host w1)) (role_field k) s = Some r
          then w1\<lparr>w_objects := (w_objects w1)(r \<mapsto> Role_object k s)\<rparr> else w1
      | _ \<Rightarrow> w1)"

definition with_plain :: "interface \<Rightarrow> rid option \<Rightarrow> (host \<Rightarrow> host) \<Rightarrow> wire \<Rightarrow> wire" where
  "with_plain i res handler w =
     (let w1 = on_host handler w in case res of None \<Rightarrow> w1 | Some r \<Rightarrow> w1\<lparr>w_objects := (w_objects w1)(r \<mapsto> Plain_object i)\<rparr>)"

section \<open>Surfaces\<close>

datatype surface_request = Surface_destroy | Surface_attach "rid option" "bid option" bool "bid option" int int | Surface_damage |
  Surface_frame bool "rid option" | Surface_set_opaque_region | Surface_set_input_region | Surface_commit | Surface_set_buffer_transform |
  Surface_set_buffer_scale int | Surface_damage_buffer | Surface_offset

fun surface_impl :: "surface_request \<Rightarrow> cid \<Rightarrow> rid \<Rightarrow> sid \<Rightarrow> wire \<Rightarrow> wire" where
  "surface_impl Surface_destroy client r s = wl_resource_destroy r"
| "surface_impl (Surface_attach buffer data android mem x y) client r s = on_host (surface_attach r (Some s) buffer data android mem x y)"
| "surface_impl Surface_damage client r s = on_host (surface_damage (Some s))"
| "surface_impl (Surface_frame mem res) client r s = on_host (surface_frame client (Some s) mem res)"
| "surface_impl Surface_set_opaque_region client r s = id"
| "surface_impl Surface_set_input_region client r s = id"
| "surface_impl Surface_commit client r s = on_host (surface_commit (Some s))"
| "surface_impl Surface_set_buffer_transform client r s = id"
| "surface_impl (Surface_set_buffer_scale n) client r s = on_host (surface_set_buffer_scale (Some s) n)"
| "surface_impl Surface_damage_buffer client r s = on_host (surface_damage_buffer (Some s))"
| "surface_impl Surface_offset client r s = id"

datatype compositor_request = Create_surface "sid option" "rid option" | Create_region "rid option" | Compositor_release

fun compositor_impl :: "compositor_request \<Rightarrow> cid \<Rightarrow> rid \<Rightarrow> wire \<Rightarrow> wire" where
  "compositor_impl (Create_surface mem res) client r w =
     (let w1 = on_host (compositor_create_surface client r mem res) w in case (mem, res) of
        (Some s, Some q) \<Rightarrow> w1\<lparr>w_objects := (w_objects w1)(q \<mapsto> Surface_object s)\<rparr>
      | _ \<Rightarrow> w1)"
| "compositor_impl (Create_region res) client r w = with_plain Region res (compositor_create_region client res) w"
| "compositor_impl Compositor_release client r w = wl_resource_destroy r w"

datatype region_request = Region_destroy | Region_add | Region_subtract

fun region_impl :: "region_request \<Rightarrow> rid \<Rightarrow> wire \<Rightarrow> wire" where
  "region_impl Region_destroy r = wl_resource_destroy r"
| "region_impl Region_add r = id"
| "region_impl Region_subtract r = id"

section \<open>Subsurfaces\<close>

datatype subcompositor_request = Subcompositor_destroy | Get_subsurface "rid option" rid rid

fun subcompositor_impl :: "subcompositor_request \<Rightarrow> cid \<Rightarrow> rid \<Rightarrow> wire \<Rightarrow> wire" where
  "subcompositor_impl Subcompositor_destroy client r w = wl_resource_destroy r w"
| "subcompositor_impl (Get_subsurface res surface parent) client r w =
     with_role Subsurface_role res (surface_behind w surface)
       (subcompositor_get_subsurface client r res (surface_behind w surface) (surface_behind w parent)) w"

datatype subsurface_request = Subsurface_destroy | Set_position int int | Place_above rid | Place_below rid | Set_sync | Set_desync

fun subsurface_impl :: "subsurface_request \<Rightarrow> rid \<Rightarrow> sid \<Rightarrow> wire \<Rightarrow> wire" where
  "subsurface_impl Subsurface_destroy r s w = wl_resource_destroy r w"
| "subsurface_impl (Set_position x y) r s w = on_host (subsurface_set_position (Some s) x y) w"
| "subsurface_impl (Place_above sibling) r s w = on_host (subsurface_place_above r (Some s) (surface_behind w sibling)) w"
| "subsurface_impl (Place_below sibling) r s w = on_host (subsurface_place_below r (Some s) (surface_behind w sibling)) w"
| "subsurface_impl Set_sync r s w = w"
| "subsurface_impl Set_desync r s w = w"

section \<open>The desktop shell\<close>

datatype wm_base_request = Wm_base_destroy | Create_positioner "rid option" | Get_xdg_surface "rid option" rid | Pong

fun wm_base_impl :: "wm_base_request \<Rightarrow> cid \<Rightarrow> rid \<Rightarrow> wire \<Rightarrow> wire" where
  "wm_base_impl Wm_base_destroy client r w = wl_resource_destroy r w"
| "wm_base_impl (Create_positioner res) client r w = with_plain Positioner res (wm_base_create_positioner client res) w"
| "wm_base_impl (Get_xdg_surface res surface) client r w =
     with_role Xdg_surface_role res (surface_behind w surface) (wm_base_get_xdg_surface client r res (surface_behind w surface)) w"
| "wm_base_impl Pong client r w = w"

datatype positioner_request = Positioner_destroy | Positioner_set_size | Positioner_set_anchor_rect | Positioner_set_anchor | Positioner_set_gravity |
  Positioner_set_constraint | Positioner_set_offset | Positioner_set_reactive | Positioner_set_parent_size | Positioner_set_parent_configure

definition positioner_impl :: "positioner_request \<Rightarrow> rid \<Rightarrow> wire \<Rightarrow> wire" where
  "positioner_impl q r = (if q = Positioner_destroy then wl_resource_destroy r else id)"

datatype popup_request = Popup_destroy | Popup_grab | Popup_reposition u32

fun popup_impl :: "popup_request \<Rightarrow> rid \<Rightarrow> wire \<Rightarrow> wire" where
  "popup_impl Popup_destroy r = wl_resource_destroy r"
| "popup_impl Popup_grab r = id"
| "popup_impl (Popup_reposition token) r = on_host (popup_reposition r token)"

datatype xdg_surface_request = Xdg_surface_destroy | Get_toplevel "rid option" | Get_popup "rid option" | Set_window_geometry | Ack_configure

fun xdg_surface_impl :: "xdg_surface_request \<Rightarrow> cid \<Rightarrow> rid \<Rightarrow> sid \<Rightarrow> wire \<Rightarrow> wire" where
  "xdg_surface_impl Xdg_surface_destroy client r s = wl_resource_destroy r"
| "xdg_surface_impl (Get_toplevel res) client r s = with_role Toplevel_role res (Some s) (xdg_surface_get_toplevel client r res (Some s))"
| "xdg_surface_impl (Get_popup res) client r s = with_plain Popup res (xdg_surface_get_popup client r res)"
| "xdg_surface_impl Set_window_geometry client r s = id"
| "xdg_surface_impl Ack_configure client r s = on_host (xdg_surface_ack_configure (Some s))"

datatype toplevel_request = Toplevel_destroy | Toplevel_set_parent | Toplevel_set_title | Toplevel_set_app_id | Toplevel_show_window_menu | Toplevel_move |
  Toplevel_resize | Toplevel_set_max_size | Toplevel_set_min_size | Toplevel_set_maximized | Toplevel_unset_maximized | Toplevel_set_fullscreen |
  Toplevel_unset_fullscreen | Toplevel_set_minimized

fun xdg_toplevel_impl :: "toplevel_request \<Rightarrow> rid \<Rightarrow> sid \<Rightarrow> wire \<Rightarrow> wire" where
  "xdg_toplevel_impl Toplevel_destroy r s = wl_resource_destroy r"
| "xdg_toplevel_impl Toplevel_set_maximized r s = on_host (xdg_toplevel_set_maximized (Some s))"
| "xdg_toplevel_impl Toplevel_unset_maximized r s = on_host (xdg_toplevel_unset_maximized (Some s))"
| "xdg_toplevel_impl Toplevel_set_fullscreen r s = on_host (xdg_toplevel_set_fullscreen (Some s))"
| "xdg_toplevel_impl Toplevel_unset_fullscreen r s = on_host (xdg_toplevel_unset_fullscreen (Some s))"
| "xdg_toplevel_impl _ r s = id"

section \<open>Viewports and fractional scales\<close>

datatype viewporter_request = Viewporter_destroy | Get_viewport "rid option" rid

fun viewporter_impl :: "viewporter_request \<Rightarrow> cid \<Rightarrow> rid \<Rightarrow> wire \<Rightarrow> wire" where
  "viewporter_impl Viewporter_destroy client r w = wl_resource_destroy r w"
| "viewporter_impl (Get_viewport res surface) client r w =
     with_role Viewport_role res (surface_behind w surface) (viewporter_get_viewport client r res (surface_behind w surface)) w"

datatype viewport_request = Viewport_destroy | Set_source int int int int | Set_destination int int

fun viewport_impl :: "viewport_request \<Rightarrow> rid \<Rightarrow> sid \<Rightarrow> wire \<Rightarrow> wire" where
  "viewport_impl Viewport_destroy r s = wl_resource_destroy r"
| "viewport_impl (Set_source x y width height) r s = on_host (viewport_set_source (Some s) x y width height)"
| "viewport_impl (Set_destination width height) r s = on_host (viewport_set_destination (Some s) width height)"

datatype fractional_request = Fractional_manager_destroy | Get_fractional_scale "rid option" rid

fun fractional_impl :: "fractional_request \<Rightarrow> cid \<Rightarrow> rid \<Rightarrow> wire \<Rightarrow> wire" where
  "fractional_impl Fractional_manager_destroy client r w = wl_resource_destroy r w"
| "fractional_impl (Get_fractional_scale res surface) client r w =
     with_role Fractional_role res (surface_behind w surface) (fractional_get client r res (surface_behind w surface)) w"

text \<open>The only request of a fractional scale destroys it: its handler clears the field and destroys the resource.\<close>

definition fractional_surface_impl :: "rid \<Rightarrow> sid \<Rightarrow> wire \<Rightarrow> wire" where
  "fractional_surface_impl r s w = (on_host (fractional_destroy r (Some s)) w)\<lparr>w_objects := (w_objects w)(r := None)\<rparr>"

section \<open>The layer shell\<close>

datatype layer_shell_request = Get_layer_surface "rid option" rid u32 | Layer_shell_destroy

fun layer_shell_impl :: "layer_shell_request \<Rightarrow> cid \<Rightarrow> rid \<Rightarrow> wire \<Rightarrow> wire" where
  "layer_shell_impl (Get_layer_surface res surface layer) client r w =
     with_role Layer_role res (surface_behind w surface) (layer_shell_get_layer_surface client r res (surface_behind w surface) layer) w"
| "layer_shell_impl Layer_shell_destroy client r w = wl_resource_destroy r w"

datatype layer_request = Layer_set_size u32 u32 | Layer_set_anchor u32 | Layer_set_exclusive_zone int | Layer_set_margin int int int int |
  Layer_set_keyboard_interactivity u32 | Layer_get_popup | Layer_ack_configure | Layer_destroy | Layer_set_layer u32

fun layer_surface_impl :: "layer_request \<Rightarrow> rid \<Rightarrow> sid \<Rightarrow> wire \<Rightarrow> wire" where
  "layer_surface_impl (Layer_set_size width height) r s = on_host (layer_surface_set_size r (Some s) width height)"
| "layer_surface_impl (Layer_set_anchor anchor) r s = on_host (layer_surface_set_anchor r (Some s) anchor)"
| "layer_surface_impl (Layer_set_exclusive_zone zone) r s = on_host (layer_surface_set_exclusive_zone (Some s) zone)"
| "layer_surface_impl (Layer_set_margin t rt b l) r s = on_host (layer_surface_set_margin (Some s) t rt b l)"
| "layer_surface_impl (Layer_set_keyboard_interactivity k) r s = on_host (layer_surface_set_keyboard_interactivity r k)"
| "layer_surface_impl Layer_get_popup r s = id"
| "layer_surface_impl Layer_ack_configure r s = id"
| "layer_surface_impl Layer_destroy r s = wl_resource_destroy r"
| "layer_surface_impl (Layer_set_layer layer) r s = on_host (layer_surface_set_layer r (Some s) layer)"

section \<open>Explicit synchronisation\<close>

datatype sync_manager_request = Sync_manager_destroy | Get_synchronization "rid option" rid

fun sync_manager_impl :: "sync_manager_request \<Rightarrow> cid \<Rightarrow> rid \<Rightarrow> wire \<Rightarrow> wire" where
  "sync_manager_impl Sync_manager_destroy client r w = wl_resource_destroy r w"
| "sync_manager_impl (Get_synchronization res surface) client r w =
     with_role Sync_role res (surface_behind w surface) (manager_get_sync client r res (surface_behind w surface)) w"

datatype sync_request = Sync_destroy | Set_acquire_fence fd | Get_release bool "rid option"

fun sync_impl :: "sync_request \<Rightarrow> cid \<Rightarrow> rid \<Rightarrow> sid \<Rightarrow> wire \<Rightarrow> wire" where
  "sync_impl Sync_destroy client r s = wl_resource_destroy r"
| "sync_impl (Set_acquire_fence f) client r s = on_host (sync_set_acquire_fence r (Some s) f)"
| "sync_impl (Get_release mem res) client r s = on_host (sync_get_release client r (Some s) mem res)"

section \<open>Extensions without state\<close>

datatype locked_request = Locked_destroy | Locked_set_cursor_position_hint | Locked_set_region

definition locked_impl :: "locked_request \<Rightarrow> rid \<Rightarrow> wire \<Rightarrow> wire" where
  "locked_impl q r = (if q = Locked_destroy then wl_resource_destroy r else id)"

datatype confined_request = Confined_destroy | Confined_set_region

definition confined_impl :: "confined_request \<Rightarrow> rid \<Rightarrow> wire \<Rightarrow> wire" where
  "confined_impl q r = (if q = Confined_destroy then wl_resource_destroy r else id)"

datatype constraints_request = Constraints_destroy | Lock_pointer "rid option" | Confine_pointer "rid option"

fun constraints_impl :: "constraints_request \<Rightarrow> cid \<Rightarrow> rid \<Rightarrow> wire \<Rightarrow> wire" where
  "constraints_impl Constraints_destroy client r = wl_resource_destroy r"
| "constraints_impl (Lock_pointer res) client r = with_plain Locked_pointer res (constraints_lock_pointer client res)"
| "constraints_impl (Confine_pointer res) client r = with_plain Confined_pointer res (constraints_confine_pointer client res)"

datatype relative_request = Relative_manager_destroy | Get_relative_pointer "rid option"

fun relative_impl :: "relative_request \<Rightarrow> cid \<Rightarrow> rid \<Rightarrow> wire \<Rightarrow> wire" where
  "relative_impl Relative_manager_destroy client r = wl_resource_destroy r"
| "relative_impl (Get_relative_pointer res) client r = with_plain Relative_pointer res (relative_get client res)"

datatype data_source_request = Data_source_offer | Data_source_destroy | Data_source_set_actions

definition data_source_impl :: "data_source_request \<Rightarrow> rid \<Rightarrow> wire \<Rightarrow> wire" where
  "data_source_impl q r = (if q = Data_source_destroy then wl_resource_destroy r else id)"

datatype data_device_request = Data_device_release | Data_device_start_drag | Data_device_set_selection

definition data_device_impl :: "data_device_request \<Rightarrow> rid \<Rightarrow> wire \<Rightarrow> wire" where
  "data_device_impl q r = (if q = Data_device_release then wl_resource_destroy r else id)"

datatype data_manager_request = Create_data_source "rid option" | Get_data_device "rid option"

fun data_manager_impl :: "data_manager_request \<Rightarrow> cid \<Rightarrow> rid \<Rightarrow> wire \<Rightarrow> wire" where
  "data_manager_impl (Create_data_source res) client r = with_plain Data_source res (data_create_source client r res)"
| "data_manager_impl (Get_data_device res) client r = with_plain Data_device res (data_get_device client r res)"

datatype decoration_manager_request = Decoration_manager_destroy | Get_decoration "rid option"

fun decoration_manager_impl :: "decoration_manager_request \<Rightarrow> cid \<Rightarrow> rid \<Rightarrow> wire \<Rightarrow> wire" where
  "decoration_manager_impl Decoration_manager_destroy client r = wl_resource_destroy r"
| "decoration_manager_impl (Get_decoration res) client r = with_plain Decoration res (manager_get_decoration client res)"

datatype decoration_request = Decoration_destroy | Decoration_set_mode u32 | Decoration_unset_mode

fun decoration_impl :: "decoration_request \<Rightarrow> rid \<Rightarrow> wire \<Rightarrow> wire" where
  "decoration_impl Decoration_destroy r = wl_resource_destroy r"
| "decoration_impl (Decoration_set_mode mode) r = on_host (decoration_set_mode r mode)"
| "decoration_impl Decoration_unset_mode r = on_host (decoration_unset_mode r)"

section \<open>Dispatch\<close>

datatype request = Surface_request surface_request | Compositor_request compositor_request | Region_request region_request |
  Subcompositor_request subcompositor_request | Subsurface_request subsurface_request | Wm_base_request wm_base_request |
  Positioner_request positioner_request | Popup_request popup_request | Xdg_surface_request xdg_surface_request | Toplevel_request toplevel_request |
  Viewporter_request viewporter_request | Viewport_request viewport_request | Fractional_request fractional_request | Fractional_surface_destroy |
  Layer_shell_request layer_shell_request | Layer_request layer_request | Sync_manager_request sync_manager_request | Sync_request sync_request |
  Locked_request locked_request | Confined_request confined_request | Constraints_request constraints_request | Relative_request relative_request |
  Relative_pointer_destroy | Data_source_request data_source_request | Data_device_request data_device_request | Data_manager_request data_manager_request |
  Decoration_manager_request decoration_manager_request | Decoration_request decoration_request

text \<open>
  The request is decoded by the interface of the object, so the other pairs do not occur; a request for an object that does not exist is refused by libwayland.
\<close>

definition dispatch_plain :: "interface \<Rightarrow> request \<Rightarrow> cid \<Rightarrow> rid \<Rightarrow> wire \<Rightarrow> wire" where
  "dispatch_plain i q client r = (case q of
       Compositor_request q \<Rightarrow> if i = Compositor then compositor_impl q client r else id
     | Subcompositor_request q \<Rightarrow> if i = Subcompositor then subcompositor_impl q client r else id
     | Wm_base_request q \<Rightarrow> if i = Wm_base then wm_base_impl q client r else id
     | Viewporter_request q \<Rightarrow> if i = Viewporter then viewporter_impl q client r else id
     | Fractional_request q \<Rightarrow> if i = Fractional_manager then fractional_impl q client r else id
     | Layer_shell_request q \<Rightarrow> if i = Layer_shell then layer_shell_impl q client r else id
     | Sync_manager_request q \<Rightarrow> if i = Sync_manager then sync_manager_impl q client r else id
     | Region_request q \<Rightarrow> if i = Region then region_impl q r else id
     | Positioner_request q \<Rightarrow> if i = Positioner then positioner_impl q r else id
     | Popup_request q \<Rightarrow> if i = Popup then popup_impl q r else id
     | Locked_request q \<Rightarrow> if i = Locked_pointer then locked_impl q r else id
     | Confined_request q \<Rightarrow> if i = Confined_pointer then confined_impl q r else id
     | Constraints_request q \<Rightarrow> if i = Constraints then constraints_impl q client r else id
     | Relative_request q \<Rightarrow> if i = Relative_manager then relative_impl q client r else id
     | Relative_pointer_destroy \<Rightarrow> if i = Relative_pointer then wl_resource_destroy r else id
     | Data_manager_request q \<Rightarrow> if i = Data_manager then data_manager_impl q client r else id
     | Data_source_request q \<Rightarrow> if i = Data_source then data_source_impl q r else id
     | Data_device_request q \<Rightarrow> if i = Data_device then data_device_impl q r else id
     | Decoration_manager_request q \<Rightarrow> if i = Decoration_manager then decoration_manager_impl q client r else id
     | Decoration_request q \<Rightarrow> if i = Decoration then decoration_impl q r else id
     | _ \<Rightarrow> id)"

definition dispatch_role :: "role \<Rightarrow> sid \<Rightarrow> request \<Rightarrow> cid \<Rightarrow> rid \<Rightarrow> wire \<Rightarrow> wire" where
  "dispatch_role k s q client r = (case q of
       Toplevel_request q \<Rightarrow> if k = Toplevel_role then xdg_toplevel_impl q r s else id
     | Xdg_surface_request q \<Rightarrow> if k = Xdg_surface_role then xdg_surface_impl q client r s else id
     | Subsurface_request q \<Rightarrow> if k = Subsurface_role then subsurface_impl q r s else id
     | Viewport_request q \<Rightarrow> if k = Viewport_role then viewport_impl q r s else id
     | Fractional_surface_destroy \<Rightarrow> if k = Fractional_role then fractional_surface_impl r s else id
     | Layer_request q \<Rightarrow> if k = Layer_role then layer_surface_impl q r s else id
     | Sync_request q \<Rightarrow> if k = Sync_role then sync_impl q client r s else id
     | _ \<Rightarrow> id)"

definition dispatch_request :: "cid \<Rightarrow> rid \<Rightarrow> request \<Rightarrow> wire \<Rightarrow> wire" where
  "dispatch_request client r q w = (case w_objects w r of
       None \<Rightarrow> w
     | Some (Surface_object s) \<Rightarrow> (case q of Surface_request q \<Rightarrow> surface_impl q client r s w | _ \<Rightarrow> w)
     | Some (Role_object k s) \<Rightarrow> dispatch_role k s q client r w
     | Some (Plain_object i) \<Rightarrow> dispatch_plain i q client r w)"

end
