(* ===== verification/Role_View.thy ===== *)
theory Role_View
  imports Interfaces
begin

text \<open>
  What an operation of the host leaves of the resources its surfaces name: the \<^verbatim>\<open>wl_surface\<close> of every live surface and its role objects (\<open>view\<close>), and beside them the parents of the
  surfaces and what the pointer device points at (\<open>outline\<close>). Only the requests that make or destroy a surface or a role object, and the pointer's own, change them.
\<close>

section \<open>The view\<close>

definition surface_view :: "compositor_surface \<Rightarrow> rid \<times> (role \<Rightarrow> rid option)" where
  "surface_view x = (s_wl_surface x, \<lambda>k. role_field k x)"

definition view :: "host \<Rightarrow> sid \<Rightarrow> (rid \<times> (role \<Rightarrow> rid option)) option" where
  "view h s = map_option surface_view (h_surfaces h s)"

lemma surface_view_eq:
  "surface_view x = surface_view y \<longleftrightarrow> s_wl_surface x = s_wl_surface y \<and> (\<forall>k. role_field k x = role_field k y)"
  by (auto simp: surface_view_def fun_eq_iff)

lemma all_role_iff:
  "(\<forall>k. P k) \<longleftrightarrow> P Toplevel_role \<and> P Xdg_surface_role \<and> P Subsurface_role \<and> P Viewport_role \<and> P Fractional_role \<and> P Layer_role \<and> P Sync_role"
  by (metis role.exhaust)

lemma view_cong: "h_surfaces h' = h_surfaces h \<Longrightarrow> view h' = view h"
  by (simp add: view_def fun_eq_iff)

lemma view_upd_same: "(\<And>x. surface_view (f x) = surface_view x) \<Longrightarrow> view (upd_surface s f h) = view h"
  by (rule ext; cases "h_surfaces h s") (auto simp: view_def upd_surface_def fault_def)

lemma view_upd:
  assumes "h_surfaces h s = Some x"
  shows "view (upd_surface s f h) = (view h)(s \<mapsto> surface_view (f x))"
  using assms by (auto simp: view_def upd_surface_def)

text \<open>An update of fields that are not part of the view; the condition is left to the simplifier.\<close>

lemmas view_upd_simps = view_upd_same surface_view_eq all_role_iff

declare view_upd_simps [view_simps]

lemma view_access [view_simps]:
  "view (emit e h) = view h" "view (emits es h) = view h" "view (fault h) = view h" "view (upd_server g h) = view h" "view (upd_perf p h) = view h"
  "view (upd_diag d h) = view h" "view (upd_repaint q h) = view h" "view (upd_buffer b u h) = view h" "view (upd_pool i v h) = view h"
  "view (close_fd f h) = view h" "view (bump_serial h) = view h" "view (new_resource client n r h) = view h"
  by (rule view_cong;
      simp add: access_defs upd_buffer_def upd_pool_def new_resource_def split: option.splits)+

lemma view_record [view_simps]:
  "view (h\<lparr>h_bindings := B\<rparr>) = view h" "view (h\<lparr>h_buffers := C\<rparr>) = view h" "view (h\<lparr>h_pools := P\<rparr>) = view h" "view (h\<lparr>h_deferred := d\<rparr>) = view h"
  "view (h\<lparr>h_timer_ok := t\<rparr>) = view h"
  by (rule view_cong; simp)+

lemma view_fold [view_simps]: "(\<And>a h. view (f a h) = view h) \<Longrightarrow> view (fold f as h) = view h"
  by (induction as arbitrary: h) simp_all

section \<open>The outline\<close>

definition outline :: "host \<Rightarrow> (sid \<Rightarrow> ((rid \<times> (role \<Rightarrow> rid option)) \<times> sid option) option) \<times> sid option \<times> sid option" where
  "outline h = (\<lambda>s. map_option (\<lambda>x. (surface_view x, s_parent x)) (h_surfaces h s), sv_pointer_focus (h_server h), sv_cursor_surface (h_server h))"

named_theorems outline_simps \<open>operations that keep the outline\<close>

lemma outline_view:
  assumes "outline h' = outline h"
  shows "view h' = view h"
proof
  fix s
  have "map_option (\<lambda>x. (surface_view x, s_parent x)) (h_surfaces h' s) = map_option (\<lambda>x. (surface_view x, s_parent x)) (h_surfaces h s)"
    using assms by (simp add: outline_def fun_eq_iff)
  then show "view h' s = view h s" by (cases "h_surfaces h' s"; cases "h_surfaces h s") (simp_all add: view_def)
qed

lemma outline_keeps:
  assumes "outline h' = outline h"
  shows "parent_of h' = parent_of h" "dom (h_surfaces h') = dom (h_surfaces h)"
    "sv_pointer_focus (h_server h') = sv_pointer_focus (h_server h)" "sv_cursor_surface (h_server h') = sv_cursor_surface (h_server h)"
proof -
  have m: "map_option (\<lambda>x. (surface_view x, s_parent x)) (h_surfaces h' s) = map_option (\<lambda>x. (surface_view x, s_parent x)) (h_surfaces h s)" for s
    using assms by (simp add: outline_def fun_eq_iff)
  have p: "fld (h_surfaces h) s_parent s = Option.bind (map_option (\<lambda>x. (surface_view x, s_parent x)) (h_surfaces h s)) snd" for h s
    by (cases "h_surfaces h s") simp_all
  show "parent_of h' = parent_of h" by (rule ext) (simp add: p m)
  have "h_surfaces h' s = None \<longleftrightarrow> h_surfaces h s = None" for s using m [of s] by (cases "h_surfaces h' s"; cases "h_surfaces h s") simp_all
  then show "dom (h_surfaces h') = dom (h_surfaces h)" by (simp add: dom_def)
qed (use assms in \<open>simp_all add: outline_def\<close>)

lemma outline_cong:
  "h_surfaces h' = h_surfaces h \<Longrightarrow> sv_pointer_focus (h_server h') = sv_pointer_focus (h_server h) \<Longrightarrow> sv_cursor_surface (h_server h') = sv_cursor_surface (h_server h) \<Longrightarrow>
    outline h' = outline h"
  by (simp add: outline_def)

lemma outline_upd [outline_simps]:
  "(\<And>x. surface_view (f x) = surface_view x \<and> s_parent (f x) = s_parent x) \<Longrightarrow> outline (upd_surface s f h) = outline h"
  "(\<And>v. sv_pointer_focus (g v) = sv_pointer_focus v \<and> sv_cursor_surface (g v) = sv_cursor_surface v) \<Longrightarrow> outline (upd_server g h) = outline h"
proof -
  assume "\<And>x. surface_view (f x) = surface_view x \<and> s_parent (f x) = s_parent x"
  then show "outline (upd_surface s f h) = outline h"
    by (cases "h_surfaces h s") (auto simp: outline_def upd_surface_def fault_def)
qed (rule outline_cong; simp add: upd_server_def)

declare surface_view_eq [outline_simps] all_role_iff [outline_simps]

lemma outline_access [outline_simps]:
  "outline (emit e h) = outline h" "outline (emits es h) = outline h" "outline (fault h) = outline h" "outline (upd_perf p h) = outline h"
  "outline (upd_diag d h) = outline h" "outline (upd_repaint q h) = outline h" "outline (upd_buffer b u h) = outline h" "outline (upd_pool i v h) = outline h"
  "outline (close_fd f h) = outline h" "outline (bump_serial h) = outline h" "outline (new_resource client n r h) = outline h"
  by (rule outline_cong; simp add: access_defs upd_buffer_def upd_pool_def new_resource_def split: option.splits)+

lemma outline_record [outline_simps]:
  "outline (h\<lparr>h_bindings := B\<rparr>) = outline h" "outline (h\<lparr>h_buffers := C\<rparr>) = outline h" "outline (h\<lparr>h_pools := P\<rparr>) = outline h" "outline (h\<lparr>h_deferred := d\<rparr>) = outline h"
  "outline (h\<lparr>h_timer_ok := t\<rparr>) = outline h"
  by (rule outline_cong; simp)+

lemma outline_fold [outline_simps]: "(\<And>a h. outline (f a h) = outline h) \<Longrightarrow> outline (fold f as h) = outline h"
  by (induction as arbitrary: h) simp_all

section \<open>Buffers\<close>

lemma outline_release [outline_simps]: "outline (release_destroy r h) = outline h" "outline (destroy_release r h) = outline h"
  by (simp_all add: release_destroy_def destroy_release_def Let_def outline_simps split: option.splits)

lemma outline_pool_unref [outline_simps]: "outline (pool_unref p h) = outline h"
  by (simp add: pool_unref_def outline_simps split: option.splits)

lemma outline_free_buffer [outline_simps]: "outline (free_buffer b h) = outline h"
  by (simp add: free_buffer_def outline_simps)

lemma outline_storage [outline_simps]: "outline (trierarch_buffer_destroy_storage b h) = outline h"
  by (simp add: trierarch_buffer_destroy_storage_def storage_release_def storage_uncache_def storage_close_def storage_unpool_def free_buffer_def Let_def outline_simps
      split: option.splits)

lemma outline_references [outline_simps]:
  "outline (trierarch_buffer_ref p h) = outline h" "outline (trierarch_buffer_unref p h) = outline h" "outline (buffer_resource_destroy b h) = outline h"
  by (simp_all add: trierarch_buffer_ref_def trierarch_buffer_unref_def buffer_resource_destroy_def Let_def outline_simps split: option.splits)

lemma outline_buffer_release [outline_simps]:
  "outline (trierarch_explicit_sync_buffer_release b h) = outline h" "outline (trierarch_shm_buffer_release b h) = outline h"
  by (simp_all add: trierarch_shm_buffer_release_def trierarch_explicit_sync_buffer_release_def Let_def outline_simps split: option.splits)

lemma outline_defer [outline_simps]: "outline (trierarch_defer_buffer_release b h) = outline h"
  by (simp add: trierarch_defer_buffer_release_def Let_def outline_simps split: option.splits)

lemma outline_flush_one [outline_simps]: "outline (flush_one b x h) = outline h"
  by (simp add: flush_one_def Let_def outline_simps)

lemma outline_flush_loop: "flush_loop p h = Some h' \<Longrightarrow> outline h' = outline h"
proof (induction rule: flush_loop.raw_induct [of "\<lambda>p h h'. outline h' = outline h", rotated, consumes 1])
  case (1 flush_loop p h h')
  from 1(2) show ?case by (auto simp: outline_simps split: option.splits dest!: 1(1))
qed

lemma outline_flush: "trierarch_flush_deferred_releases h = Some h' \<Longrightarrow> outline h' = outline h"
  by (simp add: trierarch_flush_deferred_releases_def) (drule outline_flush_loop, simp add: outline_simps)

section \<open>Requests that keep the outline\<close>

lemma outline_request_render [outline_simps]: "outline (trierarch_wayland_request_render h) = outline h"
proof (rule outline_cong)
  have "foci (trierarch_wayland_request_render h) = foci h" by simp
  then show "sv_pointer_focus (h_server (trierarch_wayland_request_render h)) = sv_pointer_focus (h_server h)"
    "sv_cursor_surface (h_server (trierarch_wayland_request_render h)) = sv_cursor_surface (h_server h)" by (simp_all add: foci_def)
qed (simp add: trierarch_wayland_request_render_def schedule_repaint_def Let_def access_defs)

lemma outline_upd_layer [outline_simps]: "outline (upd_layer s f h) = outline h"
  by (simp add: upd_layer_def outline_simps)

lemma outline_configure [outline_simps]:
  "outline (trierarch_surface_send_configure s h) = outline h" "outline (send_configure_to p h) = outline h" "outline (trierarch_layer_surface_commit s h) = outline h"
  by (simp_all add: trierarch_surface_send_configure_def send_configure_to_def trierarch_layer_surface_commit_def Let_def outline_simps split: option.splits prod.splits)

lemma outline_attach [outline_simps]: "outline (surface_attach r p buffer data android mem x y h) = outline h"
proof -
  have "outline (snd (buffer_behind q data android mem h)) = outline h" for q
    by (auto simp: buffer_behind_def trierarch_egl_buffer_from_resource_def outline_simps split: option.splits)
  then have b: "outline h1 = outline h" if "buffer_behind q data android mem h = (c, h1)" for q c h1 by (metis that snd_conv)
  have p: "outline (surface_set_pending_buffer s c h) = outline h" for s c h
    by (simp add: surface_set_pending_buffer_def mark_attached_def Let_def outline_simps split: option.splits)
  show ?thesis by (auto simp: surface_attach_def p outline_simps split: option.splits prod.splits dest: b)
qed

lemma outline_commit_parts [outline_simps]:
  "outline (commit_drop_current s h) = outline h" "outline (commit_drop_sync s h) = outline h" "outline (commit_map s p h) = outline h"
  "outline (trierarch_explicit_sync_wait b h) = outline h" "outline (trierarch_explicit_sync_adopt_release q p h) = outline h" "outline (trierarch_output_enter_surface r h) = outline h"
  by (simp add: commit_drop_current_def commit_drop_sync_def commit_map_def trierarch_explicit_sync_wait_def trierarch_explicit_sync_adopt_release_def
      trierarch_output_enter_surface_def Let_def outline_simps split: option.splits)+

lemma outline_commit_sync [outline_simps]: "outline (commit_sync s b h) = outline h"
  unfolding commit_sync_def by (cases "h_surfaces h s"; simp only: option.case Let_def outline_simps; simp add: outline_simps split: option.split)

lemma outline_commit_replace [outline_simps]: "outline (commit_replace s p h) = outline h"
  unfolding commit_replace_def by (simp only: Let_def) (simp add: outline_simps split: option.split)

lemma outline_commit_buffer [outline_simps]: "outline (commit_buffer s h) = outline h"
  unfolding commit_buffer_def by (cases "h_surfaces h s"; simp add: Let_def outline_simps)

lemma outline_commit [outline_simps]: "outline (surface_commit p h) = outline h"
proof -
  have c: "outline h1 = outline h" if "commit_callbacks s h = (b, h1)" for s b h1
    using that by (auto simp: commit_callbacks_def Let_def outline_simps split: option.splits if_splits)
  have f: "outline (commit_present s (commit_configure s h)) = outline h" for s h
    by (simp add: commit_configure_def commit_present_def outline_simps split: option.splits)
  show ?thesis
    by (auto simp: surface_commit_def trierarch_surface_commit_def Let_def outline_simps f split: option.splits prod.splits dest: c)
qed

lemma outline_surface_requests [outline_simps]:
  "outline (surface_damage p h) = outline h" "outline (surface_damage_buffer p h) = outline h" "outline (surface_set_buffer_scale p n h) = outline h"
  "outline (surface_frame client p mem res h) = outline h" "outline (frame_callback_destroy s r h) = outline h" "outline (subsurface_set_position p i j h) = outline h"
  by (simp_all add: surface_damage_def surface_damage_buffer_def surface_set_buffer_scale_def surface_frame_def frame_callback_destroy_def subsurface_set_position_def
      outline_simps split: option.splits)

lemma outline_stacking [outline_simps]: "outline (subsurface_place_above r p q h) = outline h" "outline (subsurface_place_below r p q h) = outline h"
  by (simp_all add: subsurface_place_above_def subsurface_place_below_def Let_def outline_simps split: option.splits prod.splits)

lemma outline_shell_requests [outline_simps]:
  "outline (xdg_surface_ack_configure p h) = outline h" "outline (xdg_surface_get_popup client r res h) = outline h" "outline (popup_reposition r token h) = outline h"
  "outline (viewport_set_source p x y i j h) = outline h" "outline (viewport_set_destination p i j h) = outline h"
  "outline (layer_surface_set_size r p lw lh h) = outline h" "outline (layer_surface_set_anchor r p a h) = outline h" "outline (layer_surface_set_exclusive_zone p z h) = outline h"
  "outline (layer_surface_set_margin p a1 a2 a3 a4 h) = outline h" "outline (layer_surface_set_keyboard_interactivity r kb h) = outline h" "outline (layer_surface_set_layer r p ly h) = outline h"
  by (simp_all add: xdg_surface_ack_configure_def xdg_surface_get_popup_def popup_reposition_def viewport_set_source_def viewport_set_destination_def viewport_changed_def
      layer_surface_set_size_def layer_surface_set_anchor_def layer_surface_set_exclusive_zone_def layer_surface_set_margin_def
      layer_surface_set_keyboard_interactivity_def layer_surface_set_layer_def Let_def outline_simps split: option.splits)

lemma outline_sync_requests [outline_simps]: "outline (sync_set_acquire_fence r p f h) = outline h" "outline (sync_get_release client r p mem res h) = outline h"
  by (simp_all add: sync_set_acquire_fence_def sync_get_release_def outline_simps split: option.splits)

section \<open>The other steps of the host\<close>

lemma outline_buffer_sources [outline_simps]:
  "outline (shm_create_pool client r f mem mapped res size_arg h) = outline h"
  "outline (pool_create_buffer client r p mem2 res offset width height stride format h) = outline h"
  "outline (pool_resize r p mapped size_arg h) = outline h" "outline (pool_resource_destroy q h) = outline h"
  "outline (manager_create_u32_rgba_buffer client mem2 data res h) = outline h"
  "outline (wlegl_create_buffer client native ahb mem2 res width height stride format wh h) = outline h"
  "outline (egl_resource_destroyed b h) = outline h"
  by (simp_all add: shm_create_pool_def pool_create_buffer_def pool_resize_def rebase_buffer_def pool_resource_destroy_def manager_create_u32_rgba_buffer_def
      single_pixel_buffer_create_def wlegl_create_buffer_def egl_resource_destroyed_def Let_def outline_simps split: option.splits prod.splits)

lemma outline_params [outline_simps]:
  "outline (snd (params_create r token mapped mem res width height format prm h)) = outline h"
  "outline (snd (params_create_immed r token mapped mem res width height format prm h)) = outline h"
proof -
  have m: "outline (snd (snd (make_dmabuf_buffer token mapped mem res width height format prm h))) = outline h" for mapped mem res prm h
    by (cases token) (simp_all add: make_dmabuf_buffer_def Let_def outline_simps split: option.split)
  have m': "outline h' = outline h" if "make_dmabuf_buffer token mapped mem res width height format prm h = (b, prm', h')" for mapped mem res prm h b prm' h'
    using m [of mapped mem res prm h] that by simp
  show "outline (snd (params_create r token mapped mem res width height format prm h)) = outline h"
    "outline (snd (params_create_immed r token mapped mem res width height format prm h)) = outline h"
    by (auto simp: params_create_def params_create_immed_def Let_def outline_simps split: option.splits prod.splits dest: m')
qed

lemma buffer_step_outline: "buffer_step h h' \<Longrightarrow> outline h' = outline h"
  by (induction rule: buffer_step.induct) (simp_all add: outline_simps)

lemma outline_latch_all: "latch_all ss h = Some h' \<Longrightarrow> outline h' = outline h"
proof (induction ss arbitrary: h)
  case (Cons s ss)
  have "outline (latch_one s h) = outline h" for s h by (simp add: latch_one_def Let_def outline_simps split: option.splits)
  then show ?case using Cons.prems Cons.IH
    by (auto simp: outline_simps bind_eq_Some_conv split: option.splits if_splits bool.splits)
qed simp

lemma outline_frames [outline_simps]:
  "outline (trierarch_surface_requeue_frame_callbacks h) = outline h" "outline (trierarch_wayland_frame_presented time h) = outline h"
  "outline (trierarch_wayland_set_output_size width height h) = outline h"
  by (simp_all add: trierarch_surface_requeue_frame_callbacks_def requeue_one_def trierarch_wayland_frame_presented_def repaint_frame_done_def schedule_repaint_def
      trierarch_surface_send_frame_callbacks_def send_callbacks_of_def clear_damage_def trierarch_wayland_set_output_size_def send_output_state_def
      trierarch_xdg_output_notify_def send_xdg_output_state_def Let_def outline_simps split: option.splits)

lemma outline_outputs [outline_simps]:
  "outline (trierarch_output_bind client version res mem h) = outline h" "outline (output_resource_destroy r h) = outline h"
  "outline (manager_get_output client r res mem h) = outline h" "outline (xdg_output_resource_destroy r h) = outline h"
  by (simp_all add: trierarch_output_bind_def output_resource_destroy_def manager_get_output_def xdg_output_resource_destroy_def send_output_state_def
      send_xdg_output_state_def Let_def outline_simps split: option.splits)

lemma repaint_step_outline: "repaint_step h h' \<Longrightarrow> outline h' = outline h"
  by (erule repaint_stepE)
    (simp_all add: repaint_timer_fired_def trierarch_wayland_begin_repaint_def repaint_frame_done_def trierarch_wayland_repaint_failed_def schedule_repaint_def
      Let_def outline_simps)

lemma frame_step_outline: "frame_step h h' \<Longrightarrow> outline h' = outline h"
  by (induction rule: frame_step.induct)
    (simp_all add: outline_simps outline_flush outline_latch_all trierarch_surface_latch_frame_callbacks_def repaint_step_outline)

text \<open>They keep the view in particular.\<close>

lemmas view_release [view_simps] = outline_release [THEN outline_view]
lemmas view_pool_unref [view_simps] = outline_pool_unref [THEN outline_view]
lemmas view_free_buffer [view_simps] = outline_free_buffer [THEN outline_view]
lemmas view_storage [view_simps] = outline_storage [THEN outline_view]
lemmas view_references [view_simps] = outline_references [THEN outline_view]
lemmas view_buffer_release [view_simps] = outline_buffer_release [THEN outline_view]
lemmas view_defer [view_simps] = outline_defer [THEN outline_view]
lemmas view_flush_one [view_simps] = outline_flush_one [THEN outline_view]
lemmas view_request_render [view_simps] = outline_request_render [THEN outline_view]
lemmas view_upd_layer [view_simps] = outline_upd_layer [THEN outline_view]
lemmas view_configure [view_simps] = outline_configure [THEN outline_view]
lemmas view_attach [view_simps] = outline_attach [THEN outline_view]
lemmas view_commit_parts [view_simps] = outline_commit_parts [THEN outline_view]
lemmas view_commit_sync [view_simps] = outline_commit_sync [THEN outline_view]
lemmas view_commit_replace [view_simps] = outline_commit_replace [THEN outline_view]
lemmas view_commit_buffer [view_simps] = outline_commit_buffer [THEN outline_view]
lemmas view_commit [view_simps] = outline_commit [THEN outline_view]
lemmas view_surface_requests [view_simps] = outline_surface_requests [THEN outline_view]
lemmas view_stacking [view_simps] = outline_stacking [THEN outline_view]
lemmas view_shell_requests [view_simps] = outline_shell_requests [THEN outline_view]
lemmas view_sync_requests [view_simps] = outline_sync_requests [THEN outline_view]
lemmas view_buffer_sources [view_simps] = outline_buffer_sources [THEN outline_view]
lemmas view_params [view_simps] = outline_params [THEN outline_view]
lemmas view_frames [view_simps] = outline_frames [THEN outline_view]
lemmas view_outputs [view_simps] = outline_outputs [THEN outline_view]
lemmas buffer_step_view = buffer_step_outline [THEN outline_view]
lemmas frame_step_view = frame_step_outline [THEN outline_view]

section \<open>Requests that change it\<close>

definition set_role :: "role \<Rightarrow> rid option \<Rightarrow> rid \<times> (role \<Rightarrow> rid option) \<Rightarrow> rid \<times> (role \<Rightarrow> rid option)" where
  "set_role k p v = (fst v, (snd v)(k := p))"

lemma view_set:
  assumes "h_surfaces h s = Some x" "\<And>y. surface_view (f y) = set_role k p (surface_view y)"
  shows "view (upd_surface s f h) = (view h)(s \<mapsto> set_role k p (surface_view x))"
  using view_upd [OF assms(1)] assms(2) by simp

lemma surface_view_set:
  "surface_view y = set_role k p (surface_view x) \<longleftrightarrow> s_wl_surface y = s_wl_surface x \<and> (\<forall>j. role_field j y = (if j = k then p else role_field j x))"
  by (auto simp: surface_view_def set_role_def fun_eq_iff)

lemma view_unlink [view_simps]: "view (unlink_from_parent s h) = view h"
  by (simp add: unlink_from_parent_def view_simps split: option.splits)

text \<open>The hook of a role object clears the field of the surface.\<close>

lemma hook_view:
  assumes "h_surfaces h s = Some x" "role_field k x = Some r" "k \<noteq> Fractional_role"
  shows "view (role_hook k r s h) = (view h)(s \<mapsto> set_role k None (surface_view x))"
  using assms
  by (cases k)
    (simp_all add: xdg_toplevel_resource_destroy_def xdg_surface_resource_destroy_def subsurface_resource_destroy_def viewport_resource_destroy_def
      layer_surface_resource_destroy_def sync_resource_destroy_def close_acquire_fence_def view_unlink view_request_render view_access(10)
      view_upd_same [where f = "s_acquire_fence_fd_update u" for u] surface_view_eq view_set [OF assms(1)] surface_view_set all_role_iff Let_def split: option.splits)

lemma fractional_destroy_view:
  assumes "h_surfaces h s = Some x" "s_fractional_scale x = Some r"
  shows "view (fractional_destroy r (Some s) h) = (view h)(s \<mapsto> set_role Fractional_role None (surface_view x))"
  using assms by (simp add: fractional_destroy_def view_access(1) view_set [OF assms(1)] surface_view_set all_role_iff)

text \<open>A handler that makes a role object makes the surface name it, where it had none, or changes nothing of the view.\<close>

definition makes_role :: "role \<Rightarrow> rid option \<Rightarrow> sid option \<Rightarrow> host \<Rightarrow> host \<Rightarrow> bool" where
  "makes_role k res surface h h' \<longleftrightarrow> view h' = view h \<or>
     (\<exists>r s x. res = Some r \<and> surface = Some s \<and> h_surfaces h s = Some x \<and> role_field k x = None \<and>
        view h' = (view h)(s \<mapsto> set_role k (Some r) (surface_view x)))"

lemma makes_role_set:
  assumes "h_surfaces h s = Some x" "role_field k x = None" "\<And>y. surface_view (f y) = set_role k (Some r) (surface_view y)"
  shows "makes_role k (Some r) (Some s) h (upd_surface s f h)"
  using assms view_set [OF assms(1,3)] by (auto simp: makes_role_def)

lemma makes_role_cong: "view h'' = view h' \<Longrightarrow> makes_role k res p h h'' = makes_role k res p h h'"
  by (simp add: makes_role_def)

lemma makes_role_simps:
  "makes_role k res p h h" "makes_role k res p h (fault h)" "makes_role k res p h (emit e h') = makes_role k res p h h'"
  "makes_role k res p h (trierarch_surface_send_configure s h') = makes_role k res p h h'"
  "makes_role k res p h (upd_surface t (s_children_update c) h') = makes_role k res p h h'"
  by (simp_all add: makes_role_def view_simps)

lemma get_role_makes:
  "makes_role Xdg_surface_role res p h (wm_base_get_xdg_surface client r res p h)"
  "makes_role Viewport_role res p h (viewporter_get_viewport client r res p h)"
  "makes_role Fractional_role res p h (fractional_get client r res p h)"
  "makes_role Layer_role res p h (layer_shell_get_layer_surface client r res p layer h)"
  "makes_role Sync_role res p h (manager_get_sync client r res p h)"
  "makes_role Toplevel_role res p h (xdg_surface_get_toplevel client r res p h)"
  by (simp add: wm_base_get_xdg_surface_def viewporter_get_viewport_def fractional_get_def layer_shell_get_layer_surface_def manager_get_sync_def
      xdg_surface_get_toplevel_def makes_role_simps makes_role_set surface_view_set all_role_iff split: option.split)+

lemma get_subsurface_makes:
  assumes "\<And>s. p = Some s \<Longrightarrow> h_surfaces h s \<noteq> None"
  shows "makes_role Subsurface_role res p h (subcompositor_get_subsurface client r res p q h)"
  using assms
  by (cases p; cases q)
    (auto simp: subcompositor_get_subsurface_def makes_role_simps makes_role_set surface_view_set all_role_iff split: option.split)

section \<open>Creation and destruction of surfaces\<close>

lemma create_surface_view:
  "view (compositor_create_surface client r mem res h) = (case (mem, res) of (Some s, Some q) \<Rightarrow> (view h)(s \<mapsto> (q, \<lambda>_. None)) | _ \<Rightarrow> view h)"
proof -
  have "view (h\<lparr>h_surfaces := (h_surfaces h)(s \<mapsto> new_surface q)\<rparr>) = (view h)(s \<mapsto> (q, \<lambda>_. None))" for s q
  proof -
    have "surface_view (new_surface q) = (q, \<lambda>_. None)" using all_role_iff [of "\<lambda>k. role_field k (new_surface q) = None"]
      by (auto simp: surface_view_def new_surface_def fun_eq_iff)
    then show ?thesis by (auto simp: view_def)
  qed
  then show ?thesis by (simp add: compositor_create_surface_def view_access split: option.splits)
qed

lemma view_except: "(view (upd_surface s f h))(s := None) = (view h)(s := None)"
  by (auto simp: view_def upd_surface_def fault_def fun_eq_iff split: option.splits)

lemma view_except_cong: "view h' = view h \<Longrightarrow> (view h')(s := None) = (view h)(s := None)"
  by simp

lemma destroy_roles_view: "(view (destroy_roles s h))(s := None) = (view h)(s := None)"
proof -
  have r: "(view (destroy_role get hook s h))(s := None) = (view h)(s := None)" if "\<And>q h. (view (hook q h))(s := None) = (view h)(s := None)" for get hook h
    using that by (simp add: destroy_role_def view_access split: option.splits)
  have k: "(view (xdg_toplevel_resource_destroy (Some s) h))(s := None) = (view h)(s := None)"
    "(view (xdg_surface_resource_destroy (Some s) h))(s := None) = (view h)(s := None)"
    "(view (subsurface_resource_destroy q (Some s) h))(s := None) = (view h)(s := None)"
    "(view (viewport_resource_destroy (Some s) h))(s := None) = (view h)(s := None)"
    "(view (layer_surface_resource_destroy (Some s) h))(s := None) = (view h)(s := None)"
    "(view (sync_resource_destroy q (Some s) h))(s := None) = (view h)(s := None)" for q h
    by (simp_all add: xdg_toplevel_resource_destroy_def xdg_surface_resource_destroy_def subsurface_resource_destroy_def viewport_resource_destroy_def
        layer_surface_resource_destroy_def sync_resource_destroy_def close_acquire_fence_def view_except view_unlink view_request_render view_access Let_def
        split: option.splits)
  show ?thesis unfolding destroy_roles_def Let_def view_except by (simp add: r k)
qed

lemma surface_destroy_view: "view (surface_resource_destroy s h) = (view h)(s := None)"
proof -
  have f: "view (free_surface s h) = (view h)(s := None)" for h
    by (auto simp: free_surface_def view_def fun_eq_iff)
  have d: "view (destroy_family s h) = view h" "view (destroy_focus s h) = view h" "view (destroy_current s h) = view h" "view (destroy_pending s h) = view h"
    "view (destroy_sync s h) = view h" "view (clear_callbacks s h) = view h" for h
    by (simp_all add: destroy_family_def orphan_def destroy_focus_def destroy_current_def destroy_pending_def close_buffer_fence_def destroy_sync_def
        clear_callbacks_def Let_def view_simps split: option.splits)
  show ?thesis by (simp add: surface_resource_destroy_def Let_def f d view_request_render destroy_roles_view)
qed

end
