(* ===== verification/Wire_Safety.thy ===== *)
theory Wire_Safety
  imports Role_View
begin

text \<open>
  The resource table and the surfaces agree: the user data of every resource is a live surface that names the resource, and every resource a surface names is in the
  table. Requests and the destruction of resources keep this agreement, and what they do to the host is a sequence of its steps.
\<close>

section \<open>Agreement\<close>

type_synonym surfaces_view = "sid \<Rightarrow> (rid \<times> (role \<Rightarrow> rid option)) option"

fun names :: "surfaces_view \<Rightarrow> wire_object \<Rightarrow> rid \<Rightarrow> bool" where
  "names V (Surface_object s) r \<longleftrightarrow> map_option fst (V s) = Some r"
| "names V (Role_object k s) r \<longleftrightarrow> Option.bind (V s) (\<lambda>v. snd v k) = Some r"
| "names V (Plain_object i) r \<longleftrightarrow> False"

fun plain :: "wire_object \<Rightarrow> bool" where
  "plain (Plain_object i) = True"
| "plain (Surface_object s) = False"
| "plain (Role_object k s) = False"

definition consistent :: "surfaces_view \<Rightarrow> (rid \<rightharpoonup> wire_object) \<Rightarrow> bool" where
  "consistent V T \<longleftrightarrow> (\<forall>r x. T r = Some x \<and> \<not> plain x \<longleftrightarrow> names V x r)"

lemma names_not_plain: "names V x r \<Longrightarrow> \<not> plain x"
  by (cases x) simp_all

lemma consistentI: "(\<And>r x. \<not> plain x \<Longrightarrow> T r = Some x \<longleftrightarrow> names V x r) \<Longrightarrow> consistent V T"
  using names_not_plain by (auto simp: consistent_def)

lemma consistentD: "consistent V T \<Longrightarrow> \<not> plain x \<Longrightarrow> T r = Some x \<longleftrightarrow> names V x r"
  by (auto simp: consistent_def)

lemma consistent_fresh: "consistent V T \<Longrightarrow> T r = None \<Longrightarrow> \<not> names V x r"
  by (metis consistentD names_not_plain option.distinct(1))

lemma consistent_unique: "consistent V T \<Longrightarrow> T r = Some x \<Longrightarrow> names V y r \<Longrightarrow> y = x"
  by (metis consistentD names_not_plain option.inject)

lemma consistent_empty: "consistent Map.empty Map.empty"
proof (rule consistentI)
  show "Map.empty r = Some x \<longleftrightarrow> names Map.empty x r" for r x by (cases x) simp_all
qed

lemma consistent_plain_new: "consistent V T \<Longrightarrow> T r = None \<Longrightarrow> consistent V (T(r \<mapsto> Plain_object i))"
  by (rule consistentI) (auto simp: consistentD dest: consistent_fresh)

lemma consistent_plain_gone: "consistent V T \<Longrightarrow> T r = Some (Plain_object i) \<Longrightarrow> consistent V (T(r := None))"
  by (rule consistentI) (auto simp: consistentD dest: consistent_unique)

text \<open>The names a change of one surface leaves.\<close>

lemma names_surface_new:
  "V s = None \<Longrightarrow> names (V(s \<mapsto> (r, \<lambda>_. None))) x q \<longleftrightarrow> names V x q \<or> x = Surface_object s \<and> q = r"
  by (cases x) auto

lemma names_role_new:
  "V s = Some v \<Longrightarrow> snd v k = None \<Longrightarrow> names (V(s \<mapsto> set_role k (Some r) v)) x q \<longleftrightarrow> names V x q \<or> x = Role_object k s \<and> q = r"
  by (cases x; cases v) (auto simp: set_role_def)

lemma names_role_gone:
  "V s = Some v \<Longrightarrow> names (V(s \<mapsto> set_role k None v)) x q \<longleftrightarrow> names V x q \<and> x \<noteq> Role_object k s"
  by (cases x; cases v) (auto simp: set_role_def)

fun belongs_to :: "sid \<Rightarrow> wire_object \<Rightarrow> bool" where
  "belongs_to s (Surface_object t) \<longleftrightarrow> t = s"
| "belongs_to s (Role_object k t) \<longleftrightarrow> t = s"
| "belongs_to s (Plain_object i) \<longleftrightarrow> False"

lemma names_surface_gone: "names (V(s := None)) x q \<longleftrightarrow> names V x q \<and> \<not> belongs_to s x"
  by (cases x) auto

lemma consistent_surface_new:
  assumes "consistent V T" "V s = None" "T r = None"
  shows "consistent (V(s \<mapsto> (r, \<lambda>_. None))) (T(r \<mapsto> Surface_object s))"
  by (rule consistentI) (use assms in \<open>auto simp: names_surface_new consistentD dest: consistent_fresh\<close>)

lemma consistent_role_new:
  assumes "consistent V T" "V s = Some v" "snd v k = None" "T r = None"
  shows "consistent (V(s \<mapsto> set_role k (Some r) v)) (T(r \<mapsto> Role_object k s))"
  by (rule consistentI) (use assms in \<open>auto simp: names_role_new consistentD dest: consistent_fresh\<close>)

lemma consistent_role_gone:
  assumes C: "consistent V T" and v: "V s = Some v" "snd v k = Some r"
  shows "consistent (V(s \<mapsto> set_role k None v)) (T(r := None))"
proof (rule consistentI)
  have n: "names V (Role_object k s) r" using v by simp
  then have r: "T r = Some (Role_object k s)" using consistentD [OF C] by (meson plain.simps(3))
  fix q x assume "\<not> plain x"
  moreover have "q = r" if "names V (Role_object k s) q" using that v by simp
  ultimately show "(T(r := None)) q = Some x \<longleftrightarrow> names (V(s \<mapsto> set_role k None v)) x q"
    using consistentD [OF C, of x q] consistent_unique [OF C r, of x] by (auto simp: names_role_gone [where V = V and s = s, OF v(1)])
qed

text \<open>A surface goes with everything it names.\<close>

definition forgotten :: "(role \<Rightarrow> rid option) \<Rightarrow> role set \<Rightarrow> (rid \<rightharpoonup> wire_object) \<Rightarrow> rid \<rightharpoonup> wire_object" where
  "forgotten f K T q = (if \<exists>k\<in>K. f k = Some q then None else T q)"

lemma consistent_surface_gone:
  assumes C: "consistent V T" and v: "V s = Some (r, f)"
  shows "consistent (V(s := None)) ((forgotten f UNIV T)(r := None))"
proof (rule consistentI)
  fix q x assume x: "\<not> plain x"
  have "names V x q \<and> belongs_to s x \<longleftrightarrow> x = Surface_object s \<and> q = r \<or> (\<exists>k. x = Role_object k s \<and> f k = Some q)"
    using v by (cases x) auto
  moreover have "T r = Some (Surface_object s)" "f k = Some q \<Longrightarrow> T q = Some (Role_object k s)" for k q
    using consistentD [OF C, of "Surface_object s" r] consistentD [OF C, of "Role_object k s" q] v by simp_all
  ultimately show "((forgotten f UNIV T)(r := None)) q = Some x \<longleftrightarrow> names (V(s := None)) x q"
    using consistentD [OF C x, of q] by (auto simp: forgotten_def names_surface_gone)
qed

section \<open>Destruction of a surface's resources\<close>

lemma forget_role_forgotten:
  assumes "\<And>r. f k = Some r \<Longrightarrow> w_objects w r \<noteq> None" "view (w_host w) s = Some (q, f)"
  shows "forget_role s k w = w\<lparr>w_objects := forgotten f {k} (w_objects w)\<rparr>"
proof -
  have k: "fld (h_surfaces (w_host w)) (role_field k) s = f k" using assms(2) by (auto simp: view_def surface_view_def)
  show ?thesis
  proof (cases "f k")
    case None
    then have "forgotten f {k} (w_objects w) = w_objects w" by (simp add: forgotten_def fun_eq_iff)
    then show ?thesis using None by (simp add: forget_role_def k)
  next
    case (Some r)
    then have "forgotten f {k} (w_objects w) = (w_objects w)(r := None)" by (auto simp: forgotten_def fun_eq_iff)
    then show ?thesis using Some assms(1) by (auto simp: forget_role_def k)
  qed
qed

lemma forgotten_forgotten: "forgotten f K (forgotten f {k} T) = forgotten f (insert k K) T"
  by (auto simp: forgotten_def fun_eq_iff)

lemma fold_forget_role:
  assumes "distinct ks" "view (w_host w) s = Some (q, f)" "\<And>k r. k \<in> set ks \<Longrightarrow> f k = Some r \<Longrightarrow> w_objects w r = Some (Role_object k s)"
  shows "fold (forget_role s) ks w = w\<lparr>w_objects := forgotten f (set ks) (w_objects w)\<rparr>"
  using assms
proof (induction ks arbitrary: w)
  case Nil
  have "forgotten f {} (w_objects w) = w_objects w" by (simp add: forgotten_def fun_eq_iff)
  then show ?case by simp
next
  case (Cons k ks)
  let ?w = "w\<lparr>w_objects := forgotten f {k} (w_objects w)\<rparr>"
  have 1: "forget_role s k w = ?w" by (rule forget_role_forgotten [OF _ Cons.prems(2)]) (use Cons.prems(3) [of k] in simp)
  have "w_objects ?w r = Some (Role_object j s)" if "j \<in> set ks" "f j = Some r" for j r
    using Cons.prems(1) Cons.prems(3) [of j r] Cons.prems(3) [of k r] that by (auto simp: forgotten_def)
  then have "fold (forget_role s) ks ?w = ?w\<lparr>w_objects := forgotten f (set ks) (w_objects ?w)\<rparr>"
    using Cons.prems by (intro Cons.IH) simp_all
  with 1 show ?case by (simp add: forgotten_forgotten)
qed

lemma set_all_roles: "set all_roles = UNIV" "distinct all_roles"
proof -
  show "set all_roles = UNIV" unfolding all_roles_def using role.exhaust by auto
  show "distinct all_roles" by (simp add: all_roles_def)
qed

lemma forget_all_roles:
  assumes "consistent (view (w_host w)) (w_objects w)" "view (w_host w) s = Some (q, f)"
  shows "fold (forget_role s) all_roles w = w\<lparr>w_objects := forgotten f UNIV (w_objects w)\<rparr>"
  unfolding set_all_roles(1) [symmetric]
proof (rule fold_forget_role [OF set_all_roles(2) assms(2)])
  show "w_objects w r = Some (Role_object k s)" if "f k = Some r" for k r
    using consistentD [OF assms(1), of "Role_object k s" r] assms(2) that by simp
qed

end
