(* ===== verification/Render_Order.thy ===== *)
theory Render_Order
  imports Renderer Host_Properties
begin

text \<open>
  Which surfaces a frame visits: the recursion over subsurfaces ends, whatever parents the clients have set,
  because it starts at surfaces without a parent; and a surface is visited exactly when the host latches its
  frame callbacks.
\<close>

section \<open>Lines of parents\<close>

fun lineage :: "host \<Rightarrow> sid \<Rightarrow> sid list \<Rightarrow> bool" where
  "lineage h s [] \<longleftrightarrow> False"
| "lineage h s [a] \<longleftrightarrow> a = s \<and> parent_of h s = None"
| "lineage h s (a # b # l) \<longleftrightarrow> a = s \<and> parent_of h s = Some b \<and> lineage h b (b # l)"

lemma lineage_hd: "lineage h s l \<Longrightarrow> l \<noteq> [] \<and> hd l = s"
  by (cases "(h, s, l)" rule: lineage.cases) auto

lemma lineage_root: "parent_of h s = None \<Longrightarrow> lineage h s [s]"
  by simp

lemma lineage_step: "parent_of h s = Some p \<Longrightarrow> lineage h p l \<Longrightarrow> lineage h s (s # l)"
  using lineage_hd [of h p l] by (cases l) auto

lemma lineage_cases:
  assumes "lineage h s l"
  obtains (root) "l = [s]" "parent_of h s = None" | (child) p k where "l = s # k" "parent_of h s = Some p" "lineage h p k"
  using assms by (cases "(h, s, l)" rule: lineage.cases) auto

lemma lineage_unique: "lineage h s l \<Longrightarrow> lineage h s l' \<Longrightarrow> l = l'"
proof (induction h s l arbitrary: l' rule: lineage.induct)
  case (2 h s a)
  then show ?case by (auto elim: lineage_cases)
next
  case (3 h s a b l)
  from 3(3) show ?case by (cases rule: lineage_cases) (use 3 in auto)
qed simp

lemma lineage_member: "lineage h s l \<Longrightarrow> a \<in> set l \<Longrightarrow> \<exists>k. lineage h a k \<and> length k \<le> length l \<and> set k \<subseteq> set l"
proof (induction h s l rule: lineage.induct)
  case (2 h s c)
  then show ?case by (intro exI [of _ "[s]"]) auto
next
  case (3 h s c b l)
  show ?case
  proof (cases "a = s")
    case True
    with 3 show ?thesis by (intro exI [of _ "c # b # l"]) auto
  next
    case False
    with 3 obtain k where "lineage h a k" "length k \<le> length (b # l)" "set k \<subseteq> set (b # l)" by auto
    then show ?thesis by (intro exI [of _ k]) auto
  qed
qed auto

lemma lineage_member_suffix: "lineage h t (qs @ c # l) \<Longrightarrow> lineage h c (c # l)"
proof (induction qs arbitrary: t)
  case Nil
  then show ?case using lineage_hd [of h t "c # l"] by simp
next
  case (Cons q qs)
  from Cons.prems show ?case
  proof (cases rule: lineage_cases)
    case (child p k)
    with Cons show ?thesis by auto
  qed simp
qed

lemma lineage_distinct: "lineage h s l \<Longrightarrow> distinct l"
proof (induction h s l rule: lineage.induct)
  case (3 h s a b l)
  have "a \<notin> set (b # l)"
  proof
    assume "a \<in> set (b # l)"
    then obtain k where k: "lineage h a k" "length k \<le> length (b # l)" using lineage_member [of h b "b # l" a] 3 by auto
    moreover have "k = a # b # l" using lineage_unique [OF k(1)] 3 by auto
    ultimately show False by simp
  qed
  with 3 show ?case by simp
qed simp_all

lemma lineage_live:
  "lineage h s l \<Longrightarrow> family_ok h \<Longrightarrow> h_surfaces h s \<noteq> None \<Longrightarrow> set l \<subseteq> dom (h_surfaces h)"
proof (induction h s l rule: lineage.induct)
  case (3 h s a b l)
  have "h_surfaces h b \<noteq> None" using 3 family_ok_parent_live [of h s b] by auto
  with 3 show ?case by auto
qed auto

lemma lineage_bound:
  assumes "host_inv h" "lineage h s l" "h_surfaces h s \<noteq> None"
  shows "length l \<le> length (sids h)"
proof -
  have "set (sids h) = dom (h_surfaces h)" using assms(1) by (auto simp: host_inv_def sane_def side_ok_def)
  moreover have "set l \<subseteq> dom (h_surfaces h)" using lineage_live [OF assms(2) _ assms(3)] assms(1) by (simp add: host_inv_def)
  ultimately have "card (set l) \<le> card (set (sids h))" using card_mono [OF finite_set] by metis
  then show ?thesis using distinct_card [OF lineage_distinct [OF assms(2)]] card_length [of "sids h"] by simp
qed

section \<open>The surfaces of a tree\<close>

definition visible :: "host \<Rightarrow> sid \<Rightarrow> bool" where
  "visible h s \<longleftrightarrow> sv_cursor_surface (h_server h) \<noteq> Some s \<and>
     (case h_surfaces h s of None \<Rightarrow> False | Some y \<Rightarrow> s_mapped y \<and> s_current y \<noteq> None)"

primrec tree_order :: "nat \<Rightarrow> host \<Rightarrow> sid \<Rightarrow> sid list" where
  "tree_order 0 h s = []"
| "tree_order (Suc n) h s = (if visible h s then s # concat (map (tree_order n h) (children_of h s)) else [])"

text \<open>A surface of the tree has the tree's root in its line, and everything in between is visible.\<close>

lemma tree_order_lineage:
  assumes "family_ok h"
  shows "t \<in> set (tree_order n h s) \<Longrightarrow> lineage h s l \<Longrightarrow>
    \<exists>pre. lineage h t (pre @ l) \<and> (\<forall>a \<in> set pre \<union> {s}. visible h a)"
proof (induction n arbitrary: s l)
  case (Suc n)
  then have v: "visible h s" by (auto split: if_splits)
  show ?case
  proof (cases "t = s")
    case True
    with Suc.prems(2) v show ?thesis by (intro exI [of _ "[]"]) auto
  next
    case False
    then obtain c where c: "c \<in> set (children_of h s)" "t \<in> set (tree_order n h c)" using Suc.prems(1) v by auto
    then have "parent_of h c = Some s" using assms by (simp add: family_ok_iff)
    from Suc.IH [OF c(2) lineage_step [OF this Suc.prems(2)]] obtain pre
      where "lineage h t (pre @ c # l)" "\<forall>a \<in> set pre \<union> {c}. visible h a" by auto
    with v show ?thesis by (intro exI [of _ "pre @ [c]"]) auto
  qed
qed simp

lemma lineage_tree_order:
  assumes "family_ok h"
  shows "lineage h t (pre @ l) \<Longrightarrow> lineage h s l \<Longrightarrow> \<forall>a \<in> set pre \<union> {s}. visible h a \<Longrightarrow> length pre < n \<Longrightarrow>
    t \<in> set (tree_order n h s)"
proof (induction n arbitrary: s l pre)
  case (Suc n)
  show ?case
  proof (cases pre rule: rev_cases)
    case Nil
    then show ?thesis using Suc.prems(1-3) lineage_hd [of h t l] lineage_hd [of h s l] by auto
  next
    case (snoc qs c)
    have "lineage h c (c # l)" using lineage_member_suffix [of h t qs c l] Suc.prems(1) snoc by simp
    moreover from this have "parent_of h c = Some s" using lineage_hd [OF Suc.prems(2)] by (auto elim: lineage_cases dest: lineage_hd)
    then have "c \<in> set (children_of h s)" using assms by (simp add: family_ok_iff)
    ultimately have "t \<in> set (tree_order n h c)"
      using Suc.IH [of qs "c # l" c] Suc.prems snoc by auto
    with \<open>c \<in> set (children_of h s)\<close> Suc.prems(3) show ?thesis by auto
  qed
qed simp

lemma distinct_concat_trees:
  "distinct cs \<Longrightarrow> (\<And>c. c \<in> set cs \<Longrightarrow> distinct (f c)) \<Longrightarrow>
   (\<And>c d. c \<in> set cs \<Longrightarrow> d \<in> set cs \<Longrightarrow> c \<noteq> d \<Longrightarrow> set (f c) \<inter> set (f d) = {}) \<Longrightarrow> distinct (concat (map f cs))"
proof (induction cs)
  case (Cons c cs)
  have "set (f c) \<inter> set (f d) = {}" if "d \<in> set cs" for d using Cons.prems(1,3) that by auto
  moreover have "distinct (concat (map f cs))" using Cons by auto
  ultimately show ?case using Cons.prems(2) by auto
qed simp

text \<open>The surfaces of one tree are different, and trees below different children have none in common.\<close>

lemma tree_order_distinct:
  assumes "family_ok h"
  shows "lineage h s l \<Longrightarrow> distinct (tree_order n h s)"
proof (induction n arbitrary: s l)
  case (Suc n)
  have step: "lineage h c (c # l)" if "c \<in> set (children_of h s)" for c
    using that assms lineage_step [OF _ Suc.prems] by (simp add: family_ok_iff)
  have below: "\<exists>pre. lineage h t (pre @ c # l)" if "c \<in> set (children_of h s)" "t \<in> set (tree_order n h c)" for c t
    using tree_order_lineage [OF assms that(2) step [OF that(1)]] by blast
  have "set (tree_order n h c) \<inter> set (tree_order n h d) = {}"
    if cd: "c \<in> set (children_of h s)" "d \<in> set (children_of h s)" "c \<noteq> d" for c d
  proof (rule ccontr)
    assume "set (tree_order n h c) \<inter> set (tree_order n h d) \<noteq> {}"
    then obtain t where "t \<in> set (tree_order n h c)" "t \<in> set (tree_order n h d)" by blast
    then obtain pre pre' where "lineage h t (pre @ c # l)" "lineage h t (pre' @ d # l)" using below cd(1,2) by meson
    then have "pre @ c # l = pre' @ d # l" by (rule lineage_unique)
    then show False using cd(3) by simp
  qed
  moreover have "distinct (children_of h s)" using assms by (simp add: family_ok_iff)
  ultimately have "distinct (concat (map (tree_order n h) (children_of h s)))"
    using Suc.IH [OF step] by (intro distinct_concat_trees) auto
  moreover have "s \<notin> set (tree_order n h c)" if c: "c \<in> set (children_of h s)" for c
  proof
    assume "s \<in> set (tree_order n h c)"
    then obtain pre where "lineage h s (pre @ c # l)" using below [OF c] by blast
    with Suc.prems have "l = pre @ c # l" by (rule lineage_unique)
    then have "length l = length (pre @ c # l)" by (rule arg_cong)
    then show False by simp
  qed
  ultimately show ?case by auto
qed simp

section \<open>Participation\<close>

lemma ancestors_shown_lineage:
  assumes "ancestors_shown h p = Some (Some True)"
  shows "case p of None \<Rightarrow> True | Some q \<Rightarrow> \<exists>l. lineage h q l \<and> (\<forall>a \<in> set l. visible h a)"
proof -
  have "r = Some True \<longrightarrow> (case p of None \<Rightarrow> True | Some q \<Rightarrow> \<exists>l. lineage h q l \<and> (\<forall>a \<in> set l. visible h a))"
    if "ancestors_shown h p = Some r" for r
    using that
  proof (induction rule: ancestors_shown.raw_induct [rotated, consumes 1, case_names walk])
    case (walk f h p r)
    note IH = walk(1) and eq = walk(2)
    show ?case
    proof (cases p)
      case (Some q)
      show ?thesis
      proof (cases "h_surfaces h q")
        case None
        with eq Some show ?thesis by auto
      next
        case x: (Some x)
        show ?thesis
        proof (cases "\<not> s_mapped x \<or> s_current x = None \<or> sv_cursor_surface (h_server h) = Some q")
          case True
          with eq Some x show ?thesis by auto
        next
          case False
          then have f: "f h (s_parent x) = Some r" and v: "visible h q" using eq Some x by (auto simp: visible_def)
          show ?thesis
          proof (cases "s_parent x")
            case None
            then have "lineage h q [q]" using x by simp
            with v Some show ?thesis by (auto intro!: exI [of _ "[q]"])
          next
            case (Some a)
            then have p: "parent_of h q = Some a" using x by simp
            show ?thesis
            proof
              assume "r = Some True"
              then obtain l where "lineage h a l" "\<forall>a \<in> set l. visible h a" using IH [OF f] Some by auto
              then show "case p of None \<Rightarrow> True | Some q \<Rightarrow> \<exists>l. lineage h q l \<and> (\<forall>a \<in> set l. visible h a)"
                using lineage_step [OF p] v \<open>p = Some q\<close> by (auto intro!: exI [of _ "q # l"])
            qed
          qed
        qed
      qed
    qed simp
  qed
  with assms show ?thesis by blast
qed

lemma lineage_ancestors_shown:
  "lineage h q l \<Longrightarrow> \<forall>a \<in> set l. visible h a \<Longrightarrow> ancestors_shown h (Some q) = Some (Some True)"
proof (induction h q l rule: lineage.induct)
  case (2 h s a)
  then obtain y where "h_surfaces h s = Some y" "s_mapped y" "s_current y \<noteq> None" "sv_cursor_surface (h_server h) \<noteq> Some s" "s_parent y = None"
    by (auto simp: visible_def split: option.splits)
  then show ?case by (simp add: ancestors_shown.simps)
next
  case (3 h s a b l)
  then obtain y where y: "h_surfaces h s = Some y" "s_mapped y" "s_current y \<noteq> None" "sv_cursor_surface (h_server h) \<noteq> Some s"
    "s_parent y = Some b"
    by (auto simp: visible_def split: option.splits)
  then have "ancestors_shown h (Some s) = ancestors_shown h (Some b)" by (subst ancestors_shown.simps) auto
  with 3 show ?case by simp
qed simp

lemma participates_iff:
  assumes "sv_cursor_surface (h_server h) \<noteq> Some s"
  shows "surface_participates_in_output h s = Some (Some True) \<longleftrightarrow> (\<exists>l. lineage h s l \<and> (\<forall>a \<in> set l. visible h a))"
    (is "?l \<longleftrightarrow> ?r")
proof
  assume ?l
  then obtain y where y: "h_surfaces h s = Some y" "s_mapped y" "s_current y \<noteq> None" "ancestors_shown h (s_parent y) = Some (Some True)"
    using assms by (auto simp: surface_participates_in_output_def split: option.splits if_splits)
  then have "ancestors_shown h (Some s) = Some (Some True)" using assms by (subst ancestors_shown.simps) simp
  from ancestors_shown_lineage [OF this] show ?r by simp
next
  assume ?r
  then have a: "ancestors_shown h (Some s) = Some (Some True)" "visible h s"
    using lineage_ancestors_shown lineage_hd by (blast, metis hd_in_set)
  then show ?l
    using a(1) [unfolded ancestors_shown.simps [of h "Some s"]]
    by (auto simp: surface_participates_in_output_def visible_def split: option.splits if_splits)
qed

section \<open>What the drawing visits\<close>

definition visited :: "render_state \<Rightarrow> sid list" where
  "visited st = map fst (rs_visits st)"

text \<open>A step that visits the surfaces \<open>vs\<close> and leaves the host alone.\<close>

definition visits :: "sid list \<Rightarrow> render_state \<Rightarrow> render_state option \<Rightarrow> bool" where
  "visits vs st r \<longleftrightarrow> (\<exists>st'. r = Some st' \<and> rs_host st' = rs_host st \<and> visited st' = visited st @ vs)"

lemma run_all_visits:
  assumes "\<And>a st'. a \<in> set as \<Longrightarrow> rs_host st' = rs_host st \<Longrightarrow> visits (v a) st' (f a st')"
  shows "visits (concat (map v as)) st (run_all f as st)"
  using assms
proof (induction as arbitrary: st)
  case (Cons a as)
  obtain st1 where st1: "f a st = Some st1" "rs_host st1 = rs_host st" "visited st1 = visited st @ v a"
    using Cons.prems [of a st] by (auto simp: visits_def)
  have "visits (concat (map v as)) st1 (run_all f as st1)"
    using Cons.prems st1(2) by (intro Cons.IH) simp
  with st1 show ?case by (auto simp: visits_def)
qed (simp add: visits_def)

lemma draw_surface_visits:
  assumes "host_inv (rs_host st)" "h_surfaces (rs_host st) s \<noteq> None"
  shows "rs_host (draw_surface g s px py st) = rs_host st" "visited (draw_surface g s px py st) = visited st @ [s]"
proof -
  obtain y where y: "h_surfaces (rs_host st) s = Some y" using assms(2) by auto
  have "rs_host (draw_surface g s px py st) = rs_host st \<and> visited (draw_surface g s px py st) = visited st @ [s]"
  proof (cases "s_current y")
    case None
    with y show ?thesis by (simp add: draw_surface_def visited_def Let_def)
  next
    case (Some b)
    then obtain x where "h_buffers (rs_host st) b = Some x" using reachable_current_live [OF assms(1) y] by auto
    with y Some show ?thesis
      by (simp add: draw_surface_def visited_def Let_def split: prod.splits option.splits)
  qed
  then show "rs_host (draw_surface g s px py st) = rs_host st" "visited (draw_surface g s px py st) = visited st @ [s]"
    by simp_all
qed

text \<open>The recursion ends before it is as deep as there are surfaces, and visits the tree.\<close>

lemma draw_tree_visits:
  assumes "host_inv h"
  shows "rs_host st = h \<Longrightarrow> lineage h s l \<Longrightarrow> h_surfaces h s \<noteq> None \<Longrightarrow> length (sids h) < n + length l \<Longrightarrow>
    visits (tree_order n h s) st (draw_surface_tree n g s px py st)"
proof (induction n arbitrary: s l px py st)
  case 0
  then show ?case using lineage_bound [OF assms, of s l] by simp
next
  case (Suc n)
  have F: "family_ok h" using assms by (simp add: host_inv_def)
  obtain y where y: "h_surfaces h s = Some y" using Suc.prems(3) by auto
  show ?case
  proof (cases "visible h s")
    case False
    with y Suc.prems(1) show ?thesis by (auto simp: visible_def visits_def)
  next
    case True
    have ch: "children_of h s = s_children y" using y by (simp add: children_of_def)
    note d = draw_surface_visits [of st s g] assms Suc.prems(1,3)
    have "visits (tree_order n h c) st' (draw_surface_tree n g c ox oy st')"
      if c: "c \<in> set (s_children y)" and st': "rs_host st' = h" for c ox oy st'
    proof (rule Suc.IH [OF st'])
      have "parent_of h c = Some s" using F c ch by (auto simp: family_ok_iff)
      then show "lineage h c (c # l)" "h_surfaces h c \<noteq> None"
        using lineage_step [OF _ Suc.prems(2)] by (auto simp: fld_def bind_eq_Some_conv)
      show "length (sids h) < n + length (c # l)" using Suc.prems(4) by simp
    qed
    then have "visits (concat (map (tree_order n h) (s_children y))) (draw_surface g s ox oy st)
        (run_all (\<lambda>c. draw_surface_tree n g c ox oy) (s_children y) (draw_surface g s ox oy st))" for ox oy
      using d by (intro run_all_visits) simp
    then show ?thesis
      using True y Suc.prems(1) d ch by (auto simp: visible_def visits_def Let_def)
  qed
qed

definition root_pass :: "(host \<Rightarrow> sid \<Rightarrow> compositor_surface \<Rightarrow> bool) \<Rightarrow> bool" where
  "root_pass chosen \<longleftrightarrow> (\<forall>h s y. chosen h s y \<longrightarrow> s_parent y = None)"

definition roots_of :: "(host \<Rightarrow> sid \<Rightarrow> compositor_surface \<Rightarrow> bool) \<Rightarrow> host \<Rightarrow> sid list" where
  "roots_of chosen h = filter (\<lambda>s. case h_surfaces h s of None \<Rightarrow> False | Some y \<Rightarrow> chosen h s y) (sids h)"

definition pass_order :: "(host \<Rightarrow> sid \<Rightarrow> compositor_surface \<Rightarrow> bool) \<Rightarrow> host \<Rightarrow> sid list" where
  "pass_order chosen h = concat (map (tree_order (Suc (length (sids h))) h) (roots_of chosen h))"

lemma draw_pass_visits:
  assumes "host_inv (rs_host st)" "root_pass chosen"
  shows "visits (pass_order chosen (rs_host st)) st (draw_pass chosen g st)"
proof -
  define h where "h = rs_host st"
  have I: "host_inv h" using assms(1) by (simp add: h_def)
  let ?v = "\<lambda>s. if (case h_surfaces h s of None \<Rightarrow> False | Some y \<Rightarrow> chosen h s y) then tree_order (Suc (length (sids h))) h s else []"
  have "visits (concat (map ?v (sids h))) st (draw_pass chosen g st)"
    unfolding draw_pass_def h_def [symmetric]
  proof (rule run_all_visits)
    fix s and st' :: render_state assume s: "s \<in> set (sids h)" and st': "rs_host st' = rs_host st"
    obtain y where y: "h_surfaces h s = Some y" using host_inv_sids [OF I s] by auto
    show "visits (?v s) st' (case h_surfaces (rs_host st') s of None \<Rightarrow> Some (upd_host fault st') | Some y \<Rightarrow>
        if chosen (rs_host st') s y then draw_surface_tree (Suc (length (sids (rs_host st')))) g s 0 0 st' else Some st')"
    proof (cases "chosen h s y")
      case True
      then have "lineage h s [s]" using assms(2) y by (auto simp: root_pass_def)
      then have "visits (tree_order (Suc (length (sids h))) h s) st' (draw_surface_tree (Suc (length (sids h))) g s 0 0 st')"
        using y st' by (intro draw_tree_visits [OF I, where l = "[s]"]) (simp_all add: h_def)
      with True y st' show ?thesis by (simp add: h_def)
    next
      case False
      with y st' show ?thesis by (simp add: h_def visits_def)
    qed
  qed
  moreover have "concat (map ?v ss) = concat (map (tree_order (Suc (length (sids h))) h)
      (filter (\<lambda>s. case h_surfaces h s of None \<Rightarrow> False | Some y \<Rightarrow> chosen h s y) ss))" for ss
    by (induction ss) simp_all
  ultimately show ?thesis unfolding pass_order_def roots_of_def h_def [symmetric] by simp
qed

section \<open>The whole output\<close>

lemma root_passes:
  "root_pass pass_background" "root_pass pass_tiny" "root_pass pass_normal" "root_pass pass_top"
  by (simp_all add: root_pass_def pass_background_def pass_tiny_def pass_normal_def pass_top_def)

definition cursor_order :: "host \<Rightarrow> sid list" where
  "cursor_order h = (case sv_cursor_surface (h_server h) of None \<Rightarrow> [] | Some s \<Rightarrow>
     if sv_cursor_visible (h_server h) \<and> (case h_surfaces h s of None \<Rightarrow> False | Some y \<Rightarrow> s_mapped y \<and> s_current y \<noteq> None)
     then [s] else [])"

definition output_order :: "host \<Rightarrow> sid list" where
  "output_order h = pass_order pass_background h @ pass_order pass_tiny h @ pass_order pass_normal h @
     pass_order pass_top h @ cursor_order h"

lemma draw_cursor_visits:
  assumes "host_inv (rs_host st)" "alive (rs_host st) (sv_cursor_surface (h_server (rs_host st)))"
  shows "rs_host (draw_cursor g st) = rs_host st" "visited (draw_cursor g st) = visited st @ cursor_order (rs_host st)"
proof -
  show "rs_host (draw_cursor g st) = rs_host st"
    using assms draw_surface_visits(1) [OF assms(1)] by (auto simp: draw_cursor_def alive_def Let_def split: option.splits)
  show "visited (draw_cursor g st) = visited st @ cursor_order (rs_host st)"
    using assms draw_surface_visits(2) [OF assms(1)]
    by (auto simp: draw_cursor_def cursor_order_def alive_def Let_def split: option.splits)
qed

lemma draw_output_visits:
  assumes "host_inv (rs_host st)" "alive (rs_host st) (sv_cursor_surface (h_server (rs_host st)))"
  shows "visits (output_order (rs_host st)) st (draw_output g st)"
proof -
  note p = root_passes [THEN [2] draw_pass_visits]
  obtain st1 where st1: "draw_pass pass_background g st = Some st1" "rs_host st1 = rs_host st"
    "visited st1 = visited st @ pass_order pass_background (rs_host st)"
    using p(1) [OF assms(1)] by (auto simp: visits_def)
  obtain st2 where st2: "draw_pass pass_tiny g st1 = Some st2" "rs_host st2 = rs_host st"
    "visited st2 = visited st1 @ pass_order pass_tiny (rs_host st)"
    using p(2) [of st1 g] assms(1) st1(2) by (auto simp: visits_def)
  obtain st3 where st3: "draw_pass pass_normal g st2 = Some st3" "rs_host st3 = rs_host st"
    "visited st3 = visited st2 @ pass_order pass_normal (rs_host st)"
    using p(3) [of st2 g] assms(1) st2(2) by (auto simp: visits_def)
  obtain st4 where st4: "draw_pass pass_top g st3 = Some st4" "rs_host st4 = rs_host st"
    "visited st4 = visited st3 @ pass_order pass_top (rs_host st)"
    using p(4) [of st3 g] assms(1) st3(2) by (auto simp: visits_def)
  note c = draw_cursor_visits [of st4 g]
  show ?thesis
    using st1 st2 st3 st4 c assms by (simp add: draw_output_def visits_def output_order_def)
qed

lemma visible_live: "visible h s \<Longrightarrow> h_surfaces h s \<noteq> None"
  by (auto simp: visible_def split: option.splits)

lemma pass_order_member:
  assumes "host_inv h" "root_pass chosen"
  shows "t \<in> set (pass_order chosen h) \<longleftrightarrow>
    (\<exists>l y. lineage h t l \<and> (\<forall>a \<in> set l. visible h a) \<and> h_surfaces h (last l) = Some y \<and> chosen h (last l) y)"
    (is "?l \<longleftrightarrow> ?r")
proof
  have F: "family_ok h" using assms(1) by (simp add: host_inv_def)
  assume ?l
  then obtain r y where r: "t \<in> set (tree_order (Suc (length (sids h))) h r)" "h_surfaces h r = Some y" "chosen h r y"
    by (auto simp: pass_order_def roots_of_def split: option.splits)
  then have "lineage h r [r]" using assms(2) by (auto simp: root_pass_def)
  from tree_order_lineage [OF F r(1) this] obtain pre where "lineage h t (pre @ [r])" "\<forall>a \<in> set pre \<union> {r}. visible h a" by blast
  with r show ?r by (intro exI [of _ "pre @ [r]"] exI [of _ y]) auto
next
  have F: "family_ok h" using assms(1) by (simp add: host_inv_def)
  assume ?r
  then obtain l y where l: "lineage h t l" "\<forall>a \<in> set l. visible h a" "h_surfaces h (last l) = Some y" "chosen h (last l) y" by blast
  then have l': "butlast l @ [last l] = l" using lineage_hd [OF l(1)] by simp
  have "t \<in> set l" using lineage_hd [OF l(1)] by (cases l) auto
  then have "length l \<le> length (sids h)" using lineage_bound [OF assms(1) l(1)] l(2) visible_live by blast
  moreover have "lineage h (last l) [last l]" using l(3,4) assms(2) by (auto simp: root_pass_def)
  ultimately have "t \<in> set (tree_order (Suc (length (sids h))) h (last l))"
    using l(1,2) l' lineage_hd [OF l(1)]
    by (intro lineage_tree_order [OF F, where pre = "butlast l" and l = "[last l]"]) (auto dest: in_set_butlastD)
  moreover have "last l \<in> set (sids h)" using l(3) assms(1) by (auto simp: host_inv_def sane_def side_ok_def)
  ultimately show ?l using l(3,4) by (auto simp: pass_order_def roots_of_def)
qed

text \<open>A layer surface has one of the four layers of the protocol.\<close>

definition layers_ok :: "host \<Rightarrow> bool" where
  "layers_ok h \<longleftrightarrow> (\<forall>s y. h_surfaces h s = Some y \<longrightarrow> s_layer_surface y \<noteq> None \<longrightarrow> layer_kind (s_layer y) \<le> 3)"

lemma layer_kinds: "k \<le> (3 :: u32) \<Longrightarrow> k = 0 \<or> k = 1 \<or> k = 2 \<or> k = 3"
proof -
  assume "k \<le> 3"
  then have "unat k \<le> 3" by (simp add: word_le_nat_alt)
  then have "unat k = 0 \<or> unat k = 1 \<or> unat k = 2 \<or> unat k = 3" by auto
  then show ?thesis by (auto simp: word_unat_eq_iff)
qed

text \<open>The two requests that set the layer refuse every other number.\<close>

lemma layers_ok_requests:
  assumes "layers_ok h"
  shows "layers_ok (layer_shell_get_layer_surface client r res p layer h)" "layers_ok (layer_surface_set_layer r p layer h)"
proof -
  have o: "layer \<le> 3" if "\<not> LAYER_OVERLAY < layer" using that by (simp add: LAYER_OVERLAY_def)
  show "layers_ok (layer_shell_get_layer_surface client r res p layer h)"
    using assms o unfolding layers_ok_def
    by (auto simp: layer_shell_get_layer_surface_def upd_surface_def access_defs split: option.splits if_splits)
  show "layers_ok (layer_surface_set_layer r p layer h)"
    using assms o unfolding layers_ok_def
    by (auto simp: layer_surface_set_layer_def upd_layer_def upd_surface_def access_defs split: option.splits if_splits)
qed

text \<open>Every visible surface without a parent is in one of the passes.\<close>

lemma some_pass:
  assumes "layers_ok h" "h_surfaces h s = Some y" "s_parent y = None" "visible h s"
  shows "pass_background h s y \<or> pass_tiny h s y \<or> pass_normal h s y \<or> pass_top h s y"
proof (cases "s_layer_surface y = None")
  case True
  with assms(3,4) show ?thesis by (auto simp: pass_tiny_def pass_normal_def visible_def)
next
  case False
  then have "layer_kind (s_layer y) \<le> 3" using assms(1,2) by (simp add: layers_ok_def)
  from layer_kinds [OF this] False assms(3,4) show ?thesis
    by (auto simp: pass_background_def pass_tiny_def pass_normal_def pass_top_def visible_def)
qed

lemma lineage_last: "lineage h s l \<Longrightarrow> parent_of h (last l) = None"
  by (induction h s l rule: lineage.induct) auto

lemma output_order_member:
  assumes "host_inv h" "layers_ok h"
  shows "s \<in> set (output_order h) \<longleftrightarrow> surface_participates_in_output h s = Some (Some True)"
proof (cases "sv_cursor_surface (h_server h) = Some s")
  case True
  have "s \<notin> set (pass_order chosen h)" if "root_pass chosen" for chosen
    using pass_order_member [OF assms(1) that, of s] True by (auto simp: visible_def dest!: lineage_hd)
  then show ?thesis
    using True root_passes
    by (auto simp: output_order_def cursor_order_def surface_participates_in_output_def split: option.splits)
next
  case False
  note m = root_passes [THEN [2] pass_order_member, OF assms(1)]
  have "s \<notin> set (cursor_order h)" using False by (auto simp: cursor_order_def split: option.splits)
  then have o: "s \<in> set (output_order h) \<longleftrightarrow> s \<in> set (pass_order pass_background h) \<or> s \<in> set (pass_order pass_tiny h) \<or>
      s \<in> set (pass_order pass_normal h) \<or> s \<in> set (pass_order pass_top h)"
    by (simp add: output_order_def)
  have "s \<in> set (output_order h)" if l: "lineage h s l" "\<forall>a \<in> set l. visible h a" for l
  proof -
    have "last l \<in> set l" using lineage_hd [OF l(1)] by auto
    with l(2) have v: "visible h (last l)" by blast
    then obtain y where y: "h_surfaces h (last l) = Some y" using visible_live by blast
    then have "s_parent y = None" using lineage_last [OF l(1)] by simp
    from some_pass [OF assms(2) y this v] show ?thesis unfolding o using m l y by blast
  qed
  moreover have "\<exists>l. lineage h s l \<and> (\<forall>a \<in> set l. visible h a)" if "s \<in> set (output_order h)"
    using that unfolding o m by blast
  ultimately have "s \<in> set (output_order h) \<longleftrightarrow> (\<exists>l. lineage h s l \<and> (\<forall>a \<in> set l. visible h a))" by blast
  with participates_iff [OF False] show ?thesis by simp
qed

text \<open>
  A surface is in two passes only if it is a layer surface, not on the bottom layer, with a tiny viewport buffer.
\<close>

definition tiny_layer :: "host \<Rightarrow> compositor_surface \<Rightarrow> bool" where
  "tiny_layer h y \<longleftrightarrow> s_layer_surface y \<noteq> None \<and> layer_kind (s_layer y) \<noteq> 1 \<and> is_tiny_viewport_underlay h y"

definition tiny_layers :: "host \<Rightarrow> bool" where
  "tiny_layers h \<longleftrightarrow> (\<exists>s y. h_surfaces h s = Some y \<and> tiny_layer h y)"

lemma passes_exclusive:
  assumes "\<not> tiny_layers h" "h_surfaces h s = Some y"
  shows "\<not> (pass_background h s y \<and> (pass_tiny h s y \<or> pass_normal h s y \<or> pass_top h s y))"
    "\<not> (pass_tiny h s y \<and> (pass_normal h s y \<or> pass_top h s y))" "\<not> (pass_normal h s y \<and> pass_top h s y)"
proof -
  have "\<not> tiny_layer h y" using assms unfolding tiny_layers_def by blast
  then show "\<not> (pass_background h s y \<and> (pass_tiny h s y \<or> pass_normal h s y \<or> pass_top h s y))"
    "\<not> (pass_tiny h s y \<and> (pass_normal h s y \<or> pass_top h s y))" "\<not> (pass_normal h s y \<and> pass_top h s y)"
    by (auto simp: tiny_layer_def pass_background_def pass_tiny_def pass_normal_def pass_top_def)
qed

lemma pass_orders_disjoint:
  assumes "host_inv h" "root_pass P" "root_pass Q" "\<And>s y. h_surfaces h s = Some y \<Longrightarrow> \<not> (P h s y \<and> Q h s y)"
  shows "set (pass_order P h) \<inter> set (pass_order Q h) = {}"
proof (rule ccontr)
  assume "set (pass_order P h) \<inter> set (pass_order Q h) \<noteq> {}"
  then obtain t where "t \<in> set (pass_order P h)" "t \<in> set (pass_order Q h)" by blast
  then obtain l k y z where "lineage h t l" "h_surfaces h (last l) = Some y" "P h (last l) y"
    "lineage h t k" "h_surfaces h (last k) = Some z" "Q h (last k) z"
    unfolding pass_order_member [OF assms(1,2)] pass_order_member [OF assms(1,3)] by blast
  then show False using lineage_unique [of h t l k] assms(4) by auto
qed

lemma pass_order_distinct:
  assumes "host_inv h" "root_pass P"
  shows "distinct (pass_order P h)"
proof -
  have F: "family_ok h" using assms(1) by (simp add: host_inv_def)
  have root: "lineage h r [r]" if "r \<in> set (roots_of P h)" for r
    using that assms(2) by (auto simp: roots_of_def root_pass_def split: option.splits)
  have "set (tree_order n h c) \<inter> set (tree_order n h d) = {}"
    if cd: "c \<in> set (roots_of P h)" "d \<in> set (roots_of P h)" "c \<noteq> d" for c d n
  proof (rule ccontr)
    assume "set (tree_order n h c) \<inter> set (tree_order n h d) \<noteq> {}"
    then obtain t where t: "t \<in> set (tree_order n h c)" "t \<in> set (tree_order n h d)" by blast
    from tree_order_lineage [OF F t(1) root [OF cd(1)]] tree_order_lineage [OF F t(2) root [OF cd(2)]]
    obtain pre pre' where "lineage h t (pre @ [c])" "lineage h t (pre' @ [d])" by blast
    then have "pre @ [c] = pre' @ [d]" by (rule lineage_unique)
    then show False using cd(3) by simp
  qed
  moreover have "distinct (roots_of P h)"
    using assms(1) by (auto simp: roots_of_def host_inv_def sane_def owned_def ledger_def)
  ultimately show ?thesis
    unfolding pass_order_def using tree_order_distinct [OF F root] by (intro distinct_concat_trees; blast)
qed

lemma output_order_distinct:
  assumes "host_inv h" "\<not> tiny_layers h"
  shows "distinct (output_order h)"
proof -
  note d = pass_orders_disjoint [OF assms(1)] and e = passes_exclusive [OF assms(2)]
  have cursor: "set (pass_order P h) \<inter> set (cursor_order h) = {}" if "root_pass P" for P
  proof -
    have "sv_cursor_surface (h_server h) \<noteq> Some s" if s: "s \<in> set (pass_order P h)" for s
      using s unfolding pass_order_member [OF assms(1) \<open>root_pass P\<close>] by (auto simp: visible_def dest!: lineage_hd)
    then show ?thesis by (fastforce simp: cursor_order_def split: option.splits if_splits)
  qed
  have "set (pass_order pass_background h) \<inter> set (pass_order pass_tiny h) = {}"
    "set (pass_order pass_background h) \<inter> set (pass_order pass_normal h) = {}"
    "set (pass_order pass_background h) \<inter> set (pass_order pass_top h) = {}"
    "set (pass_order pass_tiny h) \<inter> set (pass_order pass_normal h) = {}"
    "set (pass_order pass_tiny h) \<inter> set (pass_order pass_top h) = {}"
    "set (pass_order pass_normal h) \<inter> set (pass_order pass_top h) = {}"
    using e by (intro d root_passes; blast)+
  moreover have "distinct (cursor_order h)" by (simp add: cursor_order_def split: option.splits)
  ultimately show ?thesis
    unfolding output_order_def using cursor root_passes pass_order_distinct [OF assms(1)] by simp blast
qed

end
