(* ===== verification/Render_Frame.thy ===== *)
theory Render_Frame
  imports Render_Order
begin

text \<open>
  A frame as a whole: it returns where the parents of the surfaces form no cycle, it keeps the invariant of the host,
  and what it draws is decided by the state it starts in. The second part follows the buffers the GPU may still read over a sequence of
  frames.
\<close>

section \<open>The walk over the ancestors\<close>

definition rooted :: "host \<Rightarrow> bool" where
  "rooted h \<longleftrightarrow> (\<forall>s. h_surfaces h s \<noteq> None \<longrightarrow> (\<exists>l. lineage h s l))"

lemma lineage_cong: "parent_of h' = parent_of h \<Longrightarrow> lineage h' s l = lineage h s l"
  by (induction h s l rule: lineage.induct) auto

lemma ancestors_total: "lineage h q l \<Longrightarrow> \<exists>r. ancestors_shown h (Some q) = Some r"
proof (induction h q l rule: lineage.induct)
  case (2 h s a)
  then show ?case by (subst ancestors_shown.simps) (auto simp: ancestors_shown.simps [of h None] split: option.splits)
next
  case (3 h s a b l)
  then show ?case by (subst ancestors_shown.simps) (auto split: option.splits)
qed simp

lemma participates_total:
  assumes "rooted h" "h_surfaces h s \<noteq> None"
  shows "\<exists>r. surface_participates_in_output h s = Some r"
proof -
  obtain x l where x: "h_surfaces h s = Some x" and l: "lineage h s l" using assms by (auto simp: rooted_def)
  from l have "\<exists>r. ancestors_shown h (s_parent x) = Some r"
  proof (cases rule: lineage_cases)
    case root
    with x show ?thesis by (simp add: ancestors_shown.simps)
  next
    case (child p k)
    with x ancestors_total [OF child(3)] show ?thesis by simp
  qed
  with x show ?thesis by (auto simp: surface_participates_in_output_def)
qed

lemma latch_one_family:
  assumes "h_surfaces h s = Some x"
  shows "parent_of (latch_one s h) = parent_of h" "dom (h_surfaces (latch_one s h)) = dom (h_surfaces h)"
  using assms by (auto simp: latch_one_def Let_def upd_surface_def access_defs fun_eq_iff fld_def split: option.splits)

lemma rooted_cong: "parent_of h' = parent_of h \<Longrightarrow> dom (h_surfaces h') = dom (h_surfaces h) \<Longrightarrow> rooted h' = rooted h"
  using lineage_cong [of h' h] unfolding rooted_def domIff [symmetric] by presburger

lemma latch_total:
  assumes "host_inv h" "rooted h" "set ss \<subseteq> dom (h_surfaces h)"
  shows "\<exists>h'. latch_all ss h = Some h'"
  using assms
proof (induction ss arbitrary: h)
  case (Cons s ss)
  then obtain x where x: "h_surfaces h s = Some x" by auto
  then obtain r where r: "surface_participates_in_output h s = Some r" using participates_total [of h s] Cons.prems(2) by auto
  obtain b where b: "r = Some b" using participates_live [OF Cons.prems(1) _ r] x by auto
  have "host_inv (latch_one s h)" using frame_steps_inv(4) [OF Cons.prems(1), of s] x by simp
  moreover have "rooted (latch_one s h)" using rooted_cong [OF latch_one_family [OF x]] Cons.prems(2) by simp
  ultimately have "\<exists>h'. latch_all ss (latch_one s h) = Some h'"
    using Cons.IH [of "latch_one s h"] Cons.prems(3) latch_one_family(2) [OF x] by simp
  moreover have "\<exists>h'. latch_all ss h = Some h'" using Cons by simp
  ultimately show ?case using r b x by (cases b) auto
qed simp

lemma latch_returns:
  assumes "host_inv h" "rooted h"
  shows "\<exists>h'. trierarch_surface_latch_frame_callbacks h = Some h' \<and> host_inv h'"
  using latch_total [OF assms sids_live [OF assms(1)]] latch_inv [OF _ assms(1) sids_live [OF assms(1)]]
  by (auto simp: trierarch_surface_latch_frame_callbacks_def)

text \<open>A cycle of visible surfaces, or any set of them closed under parents: the walk does not return.\<close>

definition closed_under_parents :: "host \<Rightarrow> sid set \<Rightarrow> bool" where
  "closed_under_parents h C \<longleftrightarrow> (\<forall>s \<in> C. visible h s \<and> (\<exists>p \<in> C. parent_of h s = Some p))"

lemma closed_walk_endless:
  assumes "closed_under_parents h C" "q \<in> C"
  shows "ancestors_shown h (Some q) = None"
proof (rule ccontr)
  assume "ancestors_shown h (Some q) \<noteq> None"
  then obtain r where "ancestors_shown h (Some q) = Some r" by auto
  moreover have "False" if "ancestors_shown h' p = Some r" "h' = h" "p = Some q" "q \<in> C" for h' p q r
    using that
  proof (induction arbitrary: q rule: ancestors_shown.raw_induct [rotated, consumes 1, case_names walk])
    case (walk f h' p r)
    obtain x t where "h_surfaces h q = Some x" "s_mapped x" "s_current x \<noteq> None" "sv_cursor_surface (h_server h) \<noteq> Some q"
      "s_parent x = Some t" "t \<in> C"
      using assms(1) walk.prems(3) unfolding closed_under_parents_def visible_def by (fastforce split: option.splits)
    then show ?case using walk(1) [of h "Some t" r t] walk(2) walk.prems by auto
  qed
  ultimately show False using assms(2) by blast
qed

lemma closed_participates_endless:
  assumes "closed_under_parents h C" "s \<in> C"
  shows "surface_participates_in_output h s = None"
proof -
  obtain x t where "h_surfaces h s = Some x" "s_mapped x" "s_current x \<noteq> None" "sv_cursor_surface (h_server h) \<noteq> Some s"
    "s_parent x = Some t" "t \<in> C"
    using assms unfolding closed_under_parents_def visible_def by (fastforce split: option.splits)
  then show ?thesis using closed_walk_endless [OF assms(1)] by (simp add: surface_participates_in_output_def)
qed

lemma latch_one_visible:
  assumes "h_surfaces h s = Some x"
  shows "visible (latch_one s h) = visible h"
  using assms by (auto simp: visible_def latch_one_def Let_def upd_surface_def access_defs fun_eq_iff split: option.splits)

lemma latch_one_children: "h_surfaces h s = Some x \<Longrightarrow> family_ok (latch_one s h) = family_ok h"
  unfolding family_ok_def using latch_one_family(1) [of h s x]
  by (auto simp: children_of_def latch_one_def Let_def upd_surface_def access_defs intro!: arg_cong2 [of _ _ _ _ family] split: option.splits)

lemma latch_endless:
  assumes "family_ok h" "closed_under_parents h C" "s \<in> C" "s \<in> set ss" "set ss \<subseteq> dom (h_surfaces h)"
  shows "latch_all ss h = None"
  using assms
proof (induction ss arbitrary: h)
  case (Cons t ss)
  then obtain x where x: "h_surfaces h t = Some x" by auto
  show ?case
  proof (cases "surface_participates_in_output h t")
    case (Some r)
    then have "t \<noteq> s" using closed_participates_endless [OF Cons.prems(2,3)] by auto
    then have s: "s \<in> set ss" using Cons.prems(4) by simp
    obtain b where b: "r = Some b" using participates_family [OF Cons.prems(1) _ Some] x by auto
    have "family_ok (latch_one t h)" using latch_one_children [OF x] Cons.prems(1) by simp
    moreover have "closed_under_parents (latch_one t h) C"
      using Cons.prems(2) latch_one_family(1) [OF x] latch_one_visible [OF x] by (simp add: closed_under_parents_def)
    ultimately have "latch_all ss (latch_one t h) = None"
      using Cons.IH [of "latch_one t h"] Cons.prems s latch_one_family(2) [OF x] by simp
    moreover have "latch_all ss h = None" using Cons s by simp
    ultimately show ?thesis using Some b x by (cases b) auto
  qed simp
qed simp

section \<open>A frame\<close>

lemma begin_keeps:
  assumes "render_begin g st = Some st1"
  shows "rs_visits st1 = []" "rs_draws st1 = []" "rn_valid (rs_renderer st1) = rn_valid (rs_renderer st)"
    "trierarch_flush_deferred_releases (rs_host st) = Some (rs_host st1)"
  using assms
  by (auto simp: render_begin_def Let_def trierarch_renderer_wait_idle_def split: option.splits if_splits)

text \<open>What decides whether a surface takes part in the output.\<close>

definition shown :: "host \<Rightarrow> sid \<Rightarrow> (bool \<times> bid option \<times> sid option) option" where
  "shown h s = map_option (\<lambda>x. (s_mapped x, s_current x, s_parent x)) (h_surfaces h s)"

lemma shown_step:
  assumes "shown h' = shown h"
  shows "(case h_surfaces h' q of None \<Rightarrow> a | Some x \<Rightarrow> f (s_mapped x) (s_current x) (s_parent x)) =
    (case h_surfaces h q of None \<Rightarrow> a | Some x \<Rightarrow> f (s_mapped x) (s_current x) (s_parent x))"
proof -
  have "shown h' q = shown h q" using assms by simp
  then show ?thesis by (auto simp: shown_def split: option.splits)
qed

lemma ancestors_view:
  assumes "shown h' = shown h" "sv_cursor_surface (h_server h') = sv_cursor_surface (h_server h)"
  shows "ancestors_shown h' p = ancestors_shown h p"
proof -
  have "ancestors_shown k' p = Some r" if "ancestors_shown k p = Some r" "shown k' = shown k"
    "sv_cursor_surface (h_server k') = sv_cursor_surface (h_server k)" for k k' p r
    using that
  proof (induction rule: ancestors_shown.raw_induct [rotated, consumes 1, case_names walk])
    case (walk f k p r)
    show ?case
    proof (cases p)
      case (Some q)
      note v = shown_step [OF walk.prems(1), where q = q and a = "Some None" and f = "\<lambda>m c p. if \<not> m \<or> c = None \<or> sv_cursor_surface (h_server k) = Some q
          then Some (Some False) else ancestors_shown k' p"]
      show ?thesis using walk(2) walk(1) [of k _ r] walk.prems Some v
        by (subst ancestors_shown.simps) (auto split: option.splits if_splits)
    qed (use walk(2) in \<open>simp add: ancestors_shown.simps\<close>)
  qed
  from this [of h p _ h'] this [of h' p _ h] show ?thesis
    using assms by (cases "ancestors_shown h p"; cases "ancestors_shown h' p") auto
qed

lemma participates_view:
  assumes "shown h' = shown h" "foci h' = foci h"
  shows "surface_participates_in_output h' s = surface_participates_in_output h s"
proof -
  have c: "sv_cursor_surface (h_server h') = sv_cursor_surface (h_server h)"
    "sv_cursor_visible (h_server h') = sv_cursor_visible (h_server h)" using assms(2) by (simp_all add: foci_def)
  show ?thesis
    unfolding surface_participates_in_output_def c ancestors_view [OF assms(1) c(1)]
    by (rule shown_step [OF assms(1), where q = s and a = "Some None" and f = "\<lambda>m c p. if \<not> m \<or> c = None then Some (Some False)
      else if sv_cursor_surface (h_server h) = Some s then Some (Some (sv_cursor_visible (h_server h))) else ancestors_shown h p"])
qed

lemma participates_cong:
  assumes "h_surfaces h' = h_surfaces h" "foci h' = foci h"
  shows "surface_participates_in_output h' s = surface_participates_in_output h s" "visible h' s = visible h s"
    "layers_ok h' = layers_ok h" "rooted h' = rooted h"
proof -
  show "surface_participates_in_output h' s = surface_participates_in_output h s"
    using assms by (intro participates_view) (simp_all add: shown_def fun_eq_iff)
  show "visible h' s = visible h s" using assms by (simp add: visible_def foci_def)
  show "layers_ok h' = layers_ok h" using assms(1) by (simp add: layers_ok_def)
  show "rooted h' = rooted h" using assms(1) by (intro rooted_cong) simp_all
qed

lemma begin_flushes:
  assumes "trierarch_flush_deferred_releases (rs_host st) = Some h"
  shows "\<exists>st1. render_begin g st = Some st1 \<and> rs_host st1 = h"
proof -
  have "rs_host (trierarch_renderer_wait_idle g st') = rs_host st'" for st'
    by (auto simp: trierarch_renderer_wait_idle_def Let_def split: option.splits)
  with assms show ?thesis by (simp add: render_begin_def Let_def)
qed

lemma begin_returns:
  assumes "host_inv (rs_host st)"
  shows "\<exists>st1. render_begin g st = Some st1 \<and> host_inv (rs_host st1) \<and> h_surfaces (rs_host st1) = h_surfaces (rs_host st) \<and>
    foci (rs_host st1) = foci (rs_host st) \<and> sids (rs_host st1) = sids (rs_host st)"
proof -
  obtain K w where h: "sane {} (rs_host st) K {#}" "deferred_ok (rs_host st) K w" "family_ok (rs_host st)" "subrole_ok (rs_host st)"
    using assms by (rule host_invE)
  from flush_sane [OF h(1,2)] obtain h' where h': "trierarch_flush_deferred_releases (rs_host st) = Some h'"
    "sane {} h' (K - mset w) {#}" "deferred_ok h' (K - mset w) []" "h_surfaces h' = h_surfaces (rs_host st)" "sids h' = sids (rs_host st)"
    by blast
  have "on_surface 0 (rs_host st) h'" using h'(4,5) by (rule on_surface_surfaces)
  then have "host_inv h'" using host_inv_on_surface h(3,4) h'(2,3) by blast
  moreover have "\<exists>st1. render_begin g st = Some st1 \<and> rs_host st1 = h'"
    using h'(1) by (rule begin_flushes)
  ultimately show ?thesis using h'(1,4,5) foci_flush by auto
qed

lemma pointer_live_cursor: "pointer_live h \<Longrightarrow> alive h (sv_cursor_surface (h_server h))"
  by (auto simp: pointer_live_def alive_def split: option.splits)

lemma pointer_live_cong: "h_surfaces h' = h_surfaces h \<Longrightarrow> foci h' = foci h \<Longrightarrow> pointer_live h' = pointer_live h"
  by (simp add: pointer_live_def foci_def)

text \<open>The time in milliseconds that the callbacks are answered with.\<close>

definition frame_time :: "gl \<Rightarrow> u32" where
  "frame_time g = ucast (gl_finished_ns g div 1000000)"

definition finished_host :: "gl \<Rightarrow> host \<Rightarrow> host" where
  "finished_host g h = (if gl_swap g then trierarch_wayland_frame_presented (frame_time g) h
     else trierarch_surface_requeue_frame_callbacks h)"

lemma finish_returns:
  assumes "host_inv (rs_host st)" "rooted (rs_host st)"
  shows "\<exists>st' h. render_finish g updated st = Some (gl_swap g, st') \<and> host_inv (rs_host st') \<and> visited st' = visited st \<and>
    trierarch_surface_latch_frame_callbacks (rs_host st) = Some h \<and> rs_host st' = finished_host g h"
proof -
  obtain h where h: "trierarch_surface_latch_frame_callbacks (rs_host st) = Some h" "host_inv h"
    using latch_returns [OF assms] by blast
  have "host_inv (trierarch_surface_requeue_frame_callbacks h)" "host_inv (trierarch_wayland_frame_presented t h)" for t
    using h(2) by (rule requeue_inv, rule frame_presented_inv)
  with h(1) show ?thesis
    by (auto simp: render_finish_def Let_def upd_host_def render_fence_def visited_def finished_host_def frame_time_def)
qed

definition fencing :: "render_state \<Rightarrow> nat option \<times> bool \<times> bool \<times> bool" where
  "fencing st = (rn_frame_fence (rs_renderer st), rn_create_sync (rs_renderer st), rn_destroy_sync (rs_renderer st),
     rn_client_wait_sync (rs_renderer st))"

lemma render_unfolds:
  assumes "rn_valid (rs_renderer st)" "render_begin g st = Some st1"
  shows "\<exists>r updated. trierarch_renderer_render g st = (if \<not> gl_make_current g then Some (False, st1\<lparr>rs_renderer := r\<rparr>)
      else Option.bind (draw_output g (st1\<lparr>rs_renderer := r\<rparr>)) (render_finish g updated)) \<and>
    fencing (st1\<lparr>rs_renderer := r\<rparr>) = fencing st1 \<and> rn_create_image r = rn_create_image (rs_renderer st1) \<and>
    rn_image_target r = rn_image_target (rs_renderer st1)"
proof -
  define p where "p = sv_perf (h_server (rs_host st1))"
  define r1 where "r1 = (rs_renderer st1)\<lparr>rn_observed_surface_commits := pf_surface_commit_generation p,
    rn_observed_surface_damage := pf_surface_damage_generation p\<rparr>"
  define r where "r = (if gl_make_current g then r1\<lparr>rn_width := fst (gl_window g), rn_height := snd (gl_window g)\<rparr> else r1)"
  show ?thesis
    using assms
    by (intro exI [of _ r] exI [of _ "rn_observed_surface_commits (rs_renderer st1) \<noteq> pf_surface_commit_generation p \<or>
          rn_observed_surface_damage (rs_renderer st1) \<noteq> pf_surface_damage_generation p"])
      (simp add: trierarch_renderer_render_def trierarch_renderer_valid_def Let_def r_def r1_def p_def fencing_def)
qed

lemma frame_returns:
  assumes "rn_valid (rs_renderer st)" "host_inv (rs_host st)" "pointer_live (rs_host st)" "rooted (rs_host st)"
  shows "\<exists>st'. trierarch_renderer_render g st = Some (gl_make_current g \<and> gl_swap g, st') \<and> host_inv (rs_host st') \<and>
    visited st' = (if gl_make_current g then output_order (the (trierarch_flush_deferred_releases (rs_host st))) else []) \<and>
    (\<exists>h1 h2. trierarch_flush_deferred_releases (rs_host st) = Some h1 \<and> trierarch_surface_latch_frame_callbacks h1 = Some h2 \<and>
      rs_host st' = (if gl_make_current g then finished_host g h2 else h1))"
proof -
  obtain st1 where st1: "render_begin g st = Some st1" "host_inv (rs_host st1)" "h_surfaces (rs_host st1) = h_surfaces (rs_host st)"
    "foci (rs_host st1) = foci (rs_host st)" using begin_returns [OF assms(2)] by blast
  obtain r updated where eq: "trierarch_renderer_render g st = (if \<not> gl_make_current g then Some (False, st1\<lparr>rs_renderer := r\<rparr>)
      else Option.bind (draw_output g (st1\<lparr>rs_renderer := r\<rparr>)) (render_finish g updated))"
    using render_unfolds [OF assms(1) st1(1)] by blast
  define st2 where "st2 = st1\<lparr>rs_renderer := r\<rparr>"
  have h2: "rs_host st2 = rs_host st1" "visited st2 = []" "the (trierarch_flush_deferred_releases (rs_host st)) = rs_host st1"
    using begin_keeps [OF st1(1)] by (simp_all add: st2_def visited_def)
  have "alive (rs_host st2) (sv_cursor_surface (h_server (rs_host st2)))"
    using pointer_live_cursor assms(3) pointer_live_cong [OF st1(3,4)] h2(1) by simp
  then obtain st3 where st3: "draw_output g st2 = Some st3" "rs_host st3 = rs_host st1" "visited st3 = output_order (rs_host st1)"
    using draw_output_visits [of st2 g] st1(2) h2 by (auto simp: visits_def)
  have "rooted (rs_host st3)" using participates_cong(4) [OF st1(3,4)] assms(4) st3(2) by simp
  then obtain st' h where st': "render_finish g updated st3 = Some (gl_swap g, st')" "host_inv (rs_host st')" "visited st' = visited st3"
    "trierarch_surface_latch_frame_callbacks (rs_host st1) = Some h" "rs_host st' = finished_host g h"
    using finish_returns [of st3 g updated] st1(2) st3(2) by auto
  then show ?thesis using eq st1(2) st3 h2 begin_keeps(1,4) [OF st1(1)] by (auto simp: visited_def st2_def)
qed

section \<open>What drawing keeps\<close>

text \<open>A property of the renderer's state that one call of \<^verbatim>\<open>draw_surface\<close> keeps is kept by the drawing of an output.\<close>

locale drawing =
  fixes keep :: "render_state \<Rightarrow> bool" and g :: gl
  assumes surface: "keep st \<Longrightarrow> keep (draw_surface g s px py st)"
    and faulted: "keep st \<Longrightarrow> keep (upd_host fault st)"
begin

lemma loop:
  assumes "run_all f as st = Some st'" "keep st" "\<And>a st st'. keep st \<Longrightarrow> f a st = Some st' \<Longrightarrow> keep st'"
  shows "keep st'"
  using assms(1,2) by (induction as arbitrary: st) (auto simp: bind_eq_Some_conv intro: assms(3))

lemma tree:
  assumes "draw_surface_tree n g s px py st = Some st'" "keep st"
  shows "keep st'"
  using assms
proof (induction n arbitrary: s px py st st')
  case (Suc n)
  show ?case
  proof (cases "h_surfaces (rs_host st) s")
    case (Some y)
    show ?thesis
    proof (cases "sv_cursor_surface (h_server (rs_host st)) = Some s \<or> \<not> s_mapped y \<or> s_current y = None")
      case False
      with Suc.prems(1) Some obtain qx qy where
        "run_all (\<lambda>child. draw_surface_tree n g child qx qy) (s_children y) (draw_surface g s qx qy st) = Some st'"
        by (auto simp: Let_def)
      then show ?thesis by (rule loop) (use Suc.prems(2) surface Suc.IH in blast)+
    qed (use Suc.prems Some in auto)
  qed (use Suc.prems faulted in auto)
qed simp

lemma draws_pass:
  assumes "draw_pass chosen g st = Some st'" "keep st"
  shows "keep st'"
  using assms(1) unfolding draw_pass_def
  by (rule loop) (use assms(2) tree faulted in \<open>auto simp del: draw_surface_tree.simps split: option.splits if_splits\<close>)

lemma cursor: "keep st \<Longrightarrow> keep (draw_cursor g st)"
  using surface faulted by (auto simp: draw_cursor_def Let_def split: option.splits)

lemma whole_output:
  assumes "draw_output g st = Some st'" "keep st"
  shows "keep st'"
proof -
  obtain st1 st2 st3 st4 where p: "draw_pass pass_background g st = Some st1" "draw_pass pass_tiny g st1 = Some st2"
    "draw_pass pass_normal g st2 = Some st3" "draw_pass pass_top g st3 = Some st4" "st' = draw_cursor g st4"
    using assms(1) by (auto simp: draw_output_def bind_eq_Some_conv)
  show ?thesis
    unfolding p(5) by (intro cursor draws_pass [OF p(4)] draws_pass [OF p(3)] draws_pass [OF p(2)] draws_pass [OF p(1)] assms(2))
qed

end

text \<open>What is drawn from an image of a buffer is what the GPU may read; the fence and the functions on it stay as they are.\<close>

definition imported :: "draw_call \<Rightarrow> bool" where
  "imported d \<longleftrightarrow> dr_path d \<in> {Path_ahb, Path_egl_wayland, Path_dmabuf}"

definition gpu_reads_draws :: "render_state \<Rightarrow> bool" where
  "gpu_reads_draws st \<longleftrightarrow> (\<forall>d. d \<in> set (rs_draws st) \<longrightarrow> imported d \<longrightarrow> dr_buffer d \<in> rs_gpu st)"

lemma draw_surface_gpu:
  "fencing (draw_surface g s px py st) = fencing st"
  "gpu_reads_draws st \<Longrightarrow> gpu_reads_draws (draw_surface g s px py st)"
  by (auto simp: draw_surface_def fencing_def gpu_reads_draws_def imported_def upd_host_def Let_def split: option.splits prod.splits)

interpretation drawn: drawing "\<lambda>st. fencing st = fc \<and> gpu_reads_draws st" g for fc g
  by unfold_locales (simp_all add: draw_surface_gpu, simp add: fencing_def gpu_reads_draws_def upd_host_def)

section \<open>The fence between two frames\<close>

definition fenced :: "render_state \<Rightarrow> bool" where
  "fenced st \<longleftrightarrow> rs_gpu st = {} \<or> (rn_frame_fence (rs_renderer st) \<noteq> None \<and> rn_client_wait_sync (rs_renderer st) \<and>
     rn_destroy_sync (rs_renderer st))"

definition waits :: "gl \<Rightarrow> bool" where
  "waits g \<longleftrightarrow> (\<forall>f. gl_wait g f)"

lemma begin_idle:
  assumes "render_begin g st = Some st1" "fenced st" "waits g"
  shows "rs_gpu st1 = {}"
  using assms by (auto simp: render_begin_def fenced_def waits_def Let_def trierarch_renderer_wait_idle_def split: option.splits if_splits)

lemma finish_fenced: "render_finish g updated st = Some (True, st') \<Longrightarrow> fenced st'"
  by (auto simp: render_finish_def fenced_def render_fence_def upd_host_def Let_def bind_eq_Some_conv split: if_splits)

lemma render_done:
  assumes "trierarch_renderer_render g st = Some (True, st')"
  shows "fenced st'"
  using assms
  by (auto simp: trierarch_renderer_render_def Let_def bind_eq_Some_conv split: if_splits intro: finish_fenced)

lemma render_not_current:
  assumes "trierarch_renderer_render g st = Some (ok, st')" "\<not> gl_make_current g" "fenced st" "waits g"
  shows "fenced st'"
proof (cases "rn_valid (rs_renderer st)")
  case True
  then obtain st1 where "render_begin g st = Some st1" "rs_gpu st' = rs_gpu st1"
    using assms(1,2) by (auto simp: trierarch_renderer_render_def trierarch_renderer_valid_def Let_def bind_eq_Some_conv)
  with begin_idle [OF _ assms(3,4)] show ?thesis by (simp add: fenced_def)
qed (use assms in \<open>simp add: trierarch_renderer_render_def trierarch_renderer_valid_def\<close>)

text \<open>
  What happens to a renderer: frames that are presented, frames for which the context could not be made current,
  the report, and everything else the host and the token service do between frames.
\<close>

inductive frames :: "render_state \<Rightarrow> render_state \<Rightarrow> bool" where
  presented: "trierarch_renderer_render g st = Some (True, st') \<Longrightarrow> frames st st'"
| no_context: "trierarch_renderer_render g st = Some (ok, st') \<Longrightarrow> \<not> gl_make_current g \<Longrightarrow> waits g \<Longrightarrow> frames st st'"
| report: "frames st (trierarch_renderer_report_performance now st)"
| between: "frames st (st\<lparr>rs_host := h, rs_tvg := t\<rparr>)"

lemma frames_fenced: "frames st st' \<Longrightarrow> fenced st \<Longrightarrow> fenced st'"
proof (induction rule: frames.induct)
  case (report st now)
  then show ?case by (simp add: trierarch_renderer_report_performance_def fenced_def Let_def)
qed (auto intro: render_done render_not_current, simp add: fenced_def)

lemma runs_fenced: "frames\<^sup>*\<^sup>* st st' \<Longrightarrow> fenced st \<Longrightarrow> fenced st'"
  by (induction rule: rtranclp_induct) (auto intro: frames_fenced)

text \<open>A frame whose swap failed leaves no fence behind.\<close>

lemma begin_fencing:
  assumes "render_begin g st = Some st1"
  shows "rn_client_wait_sync (rs_renderer st) \<Longrightarrow> rn_destroy_sync (rs_renderer st) \<Longrightarrow> rn_frame_fence (rs_renderer st1) = None"
    "gpu_reads_draws st1" "rn_frame_fence (rs_renderer st) = None \<Longrightarrow> rs_gpu st1 = rs_gpu st"
  using assms
  by (auto simp: render_begin_def gpu_reads_draws_def Let_def trierarch_renderer_wait_idle_def split: option.splits if_splits)

lemma render_current:
  assumes "trierarch_renderer_render g st = Some (ok, st')" "gl_make_current g" "rn_valid (rs_renderer st)"
  shows "\<exists>st1 r updated st3. render_begin g st = Some st1 \<and> fencing (st1\<lparr>rs_renderer := r\<rparr>) = fencing st1 \<and>
    draw_output g (st1\<lparr>rs_renderer := r\<rparr>) = Some st3 \<and> render_finish g updated st3 = Some (ok, st')"
proof -
  obtain st1 where st1: "render_begin g st = Some st1" using assms(1,3)
    by (auto simp: trierarch_renderer_render_def trierarch_renderer_valid_def bind_eq_Some_conv)
  obtain r updated where r: "trierarch_renderer_render g st = Option.bind (draw_output g (st1\<lparr>rs_renderer := r\<rparr>)) (render_finish g updated)"
    "fencing (st1\<lparr>rs_renderer := r\<rparr>) = fencing st1" using render_unfolds [OF assms(3) st1] assms(2) by auto
  then show ?thesis using st1 assms(1) unfolding r(1) bind_eq_Some_conv by blast
qed

lemma failed_swap:
  assumes "trierarch_renderer_render g st = Some (False, st')" "gl_make_current g" "rn_valid (rs_renderer st)"
    "rn_client_wait_sync (rs_renderer st)" "rn_destroy_sync (rs_renderer st)"
  shows "rn_frame_fence (rs_renderer st') = None" "gpu_reads_draws st'"
proof -
  obtain st1 r updated st3 where f: "render_begin g st = Some st1" "fencing (st1\<lparr>rs_renderer := r\<rparr>) = fencing st1"
    "draw_output g (st1\<lparr>rs_renderer := r\<rparr>) = Some st3" "render_finish g updated st3 = Some (False, st')"
    using render_current [OF assms(1-3)] by blast
  have "gpu_reads_draws (st1\<lparr>rs_renderer := r\<rparr>)" using begin_fencing(2) [OF f(1)] by (simp add: gpu_reads_draws_def)
  then have 3: "fencing st3 = fencing st1" "gpu_reads_draws st3"
    using drawn.whole_output [OF f(3), of "fencing st1"] f(2) by simp_all
  show "rn_frame_fence (rs_renderer st') = None" "gpu_reads_draws st'"
    using f(4) 3 begin_fencing(1) [OF f(1) assms(4,5)]
    by (auto simp: render_finish_def Let_def bind_eq_Some_conv upd_host_def fencing_def gpu_reads_draws_def split: if_splits)
qed

end
