(* ===== verification/Settled.thy ===== *)
theory Settled
  imports Role_View Render_Frame
begin

text \<open>
  What a frame needs of the host beside its invariant: the pointer device points at live surfaces, and the parents of the surfaces form no cycle. Every operation keeps
  this, but for the request that gives a surface a parent, which keeps it where the parent does not descend from the surface.
\<close>

section \<open>Settled states\<close>

definition settled :: "host \<Rightarrow> bool" where
  "settled h \<longleftrightarrow> pointer_live h \<and> rooted h"

text \<open>The parents of the live surfaces and what the pointer points at.\<close>

definition placement :: "host \<Rightarrow> (sid \<Rightarrow> sid option option) \<times> sid option \<times> sid option" where
  "placement h = (\<lambda>s. map_option s_parent (h_surfaces h s), sv_pointer_focus (h_server h), sv_cursor_surface (h_server h))"

lemma placement_keeps:
  assumes "placement h' = placement h"
  shows "parent_of h' = parent_of h" "\<And>s. h_surfaces h' s = None \<longleftrightarrow> h_surfaces h s = None"
    "sv_pointer_focus (h_server h') = sv_pointer_focus (h_server h)" "sv_cursor_surface (h_server h') = sv_cursor_surface (h_server h)"
proof -
  have m: "map_option s_parent (h_surfaces h' s) = map_option s_parent (h_surfaces h s)" for s
    using assms by (simp add: placement_def fun_eq_iff)
  have "fld (h_surfaces h') s_parent s = fld (h_surfaces h) s_parent s" for s
    using m [of s] by (cases "h_surfaces h' s"; cases "h_surfaces h s") simp_all
  then show "parent_of h' = parent_of h" by blast
  show "h_surfaces h' s = None \<longleftrightarrow> h_surfaces h s = None" for s
    using m [of s] by (cases "h_surfaces h' s"; cases "h_surfaces h s") simp_all
qed (use assms in \<open>simp_all add: placement_def\<close>)

lemma settled_placement:
  assumes "placement h' = placement h"
  shows "settled h' = settled h"
proof -
  note p = placement_keeps [OF assms]
  have "dom (h_surfaces h') = dom (h_surfaces h)" using p(2) by (simp add: dom_def)
  with p show ?thesis using rooted_cong [OF p(1)] by (simp add: settled_def pointer_live_def)
qed

lemma outline_placement:
  assumes "outline h' = outline h"
  shows "placement h' = placement h"
proof -
  have m: "map_option (\<lambda>x. (surface_view x, s_parent x)) (h_surfaces h' s) = map_option (\<lambda>x. (surface_view x, s_parent x)) (h_surfaces h s)" for s
    using assms by (simp add: outline_def fun_eq_iff)
  have "map_option s_parent (h_surfaces h' s) = map_option s_parent (h_surfaces h s)" for s
    using m [of s] by (cases "h_surfaces h' s"; cases "h_surfaces h s") simp_all
  then show ?thesis using assms by (simp add: placement_def outline_def)
qed

lemma settled_outline: "outline h' = outline h \<Longrightarrow> settled h' = settled h"
  by (rule settled_placement) (rule outline_placement)

section \<open>Role objects\<close>

lemma placement_upd: "(\<And>x. s_parent (f x) = s_parent x) \<Longrightarrow> placement (upd_surface s f h) = placement h"
  by (cases "h_surfaces h s") (auto simp: placement_def upd_surface_def fault_def)

lemmas placement_simps = placement_upd outline_access [THEN outline_placement] outline_request_render [THEN outline_placement] outline_configure [THEN outline_placement]

lemma role_placement:
  "placement (wm_base_get_xdg_surface client r res p h) = placement h"
  "placement (viewporter_get_viewport client r res p h) = placement h"
  "placement (fractional_get client r res p h) = placement h"
  "placement (layer_shell_get_layer_surface client r res p layer h) = placement h"
  "placement (manager_get_sync client r res p h) = placement h"
  "placement (xdg_surface_get_toplevel client r res p h) = placement h"
  "placement (fractional_destroy r p h) = placement h"
  by (simp add: wm_base_get_xdg_surface_def viewporter_get_viewport_def fractional_get_def layer_shell_get_layer_surface_def manager_get_sync_def
      xdg_surface_get_toplevel_def fractional_destroy_def placement_simps split: option.split)+

text \<open>A surface may lose its parent.\<close>

definition pruned :: "host \<Rightarrow> host \<Rightarrow> bool" where
  "pruned h h' \<longleftrightarrow> (\<forall>t. parent_of h' t = parent_of h t \<or> parent_of h' t = None)"

lemma pruned_refl: "pruned h h"
  by (simp add: pruned_def)

lemma pruned_placement: "placement h' = placement h \<Longrightarrow> pruned h0 h' = pruned h0 h"
  using placement_keeps(1) [of h' h] by (simp only: pruned_def)

lemma pruned_upd:
  assumes "\<And>x. s_parent (f x) = s_parent x \<or> s_parent (f x) = None" "pruned h0 h"
  shows "pruned h0 (upd_surface s f h)"
  unfolding pruned_def
proof
  fix t
  have "parent_of (upd_surface s f h) t = parent_of h t \<or> parent_of (upd_surface s f h) t = None"
    using assms(1) by (cases "h_surfaces h s") (auto simp: upd_surface_def fault_def)
  then show "parent_of (upd_surface s f h) t = parent_of h0 t \<or> parent_of (upd_surface s f h) t = None"
    using assms(2) [unfolded pruned_def, rule_format, of t] by argo
qed

lemma lineage_pruned: "pruned h h' \<Longrightarrow> lineage h s l \<Longrightarrow> \<exists>k. lineage h' s k"
proof (induction h s l rule: lineage.induct)
  case (2 h s a)
  then have "parent_of h' s = None" unfolding pruned_def by (metis lineage.simps(2))
  then show ?case using lineage_root by blast
next
  case (3 h s a b l)
  show ?case
  proof (cases "parent_of h' s = None")
    case True
    then show ?thesis using lineage_root by blast
  next
    case False
    then have "parent_of h' s = Some b" using 3 unfolding pruned_def by (metis lineage.simps(3))
    then show ?thesis using 3 lineage_step [of h' s b] by auto
  qed
qed simp

lemma rooted_pruned:
  assumes "pruned h h'" "rooted h" "\<And>s. h_surfaces h' s \<noteq> None \<Longrightarrow> h_surfaces h s \<noteq> None"
  shows "rooted h'"
  using assms lineage_pruned [OF assms(1)] unfolding rooted_def by meson

lemma settled_pruned:
  assumes "pruned h h'" "settled h" "\<And>s. h_surfaces h' s = None \<longleftrightarrow> h_surfaces h s = None" "foci h' = foci h"
  shows "settled h'"
proof -
  have "rooted h'" using rooted_pruned [OF assms(1)] assms(2,3) by (auto simp: settled_def)
  moreover have "pointer_live h'" using assms(2,3,4) by (simp add: settled_def pointer_live_def foci_def)
  ultimately show ?thesis by (simp add: settled_def)
qed

lemma live_upd: "h_surfaces (upd_surface s f h) t = None \<longleftrightarrow> h_surfaces h t = None"
  by (simp add: upd_surface_def fault_def split: option.split)

lemmas pruned_keep = placement_simps [THEN pruned_placement] outline_references [THEN outline_placement, THEN pruned_placement]
  outline_buffer_release [THEN outline_placement, THEN pruned_placement] outline_release [THEN outline_placement, THEN pruned_placement]

lemma pruned_unlink: "pruned h0 h \<Longrightarrow> pruned h0 (unlink_from_parent s h)"
  by (simp add: unlink_from_parent_def pruned_keep pruned_upd split: option.split)

lemma pruned_hook: "pruned h0 h \<Longrightarrow> pruned h0 (role_hook k r s h)"
  by (cases k)
    (simp_all add: xdg_toplevel_resource_destroy_def xdg_surface_resource_destroy_def subsurface_resource_destroy_def viewport_resource_destroy_def
      layer_surface_resource_destroy_def sync_resource_destroy_def close_acquire_fence_def pruned_unlink pruned_keep Let_def split: option.splits)

lemma live_hook: "h_surfaces (role_hook k r s h) t = None \<longleftrightarrow> h_surfaces h t = None"
proof -
  have u: "h_surfaces (unlink_from_parent s h) t = None \<longleftrightarrow> h_surfaces h t = None" for h
    by (simp add: unlink_from_parent_def live_upd access_defs split: option.split)
  have r: "h_surfaces (trierarch_wayland_request_render h) = h_surfaces h" for h
    by (simp add: trierarch_wayland_request_render_def schedule_repaint_def Let_def access_defs)
  have c: "h_surfaces (close_fd d h) = h_surfaces h" "h_surfaces (fault h) = h_surfaces h" for d h by (simp_all add: access_defs)
  show ?thesis
    by (cases k)
      (simp_all add: xdg_toplevel_resource_destroy_def xdg_surface_resource_destroy_def subsurface_resource_destroy_def viewport_resource_destroy_def
        layer_surface_resource_destroy_def sync_resource_destroy_def close_acquire_fence_def u live_upd r c Let_def split: option.splits)
qed

lemma foci_hook: "foci (role_hook k r s h) = foci h"
  by (cases k)
    (simp_all add: xdg_toplevel_resource_destroy_def xdg_surface_resource_destroy_def subsurface_resource_destroy_def viewport_resource_destroy_def
      layer_surface_resource_destroy_def sync_resource_destroy_def close_acquire_fence_def unlink_from_parent_def Let_def split: option.splits)

lemma settled_hook: "settled h \<Longrightarrow> settled (role_hook k r s h)"
  by (rule settled_pruned [of h]) (simp_all add: pruned_hook pruned_refl live_hook foci_hook)

section \<open>Surfaces\<close>

lemma pruned_destroy: "pruned h (surface_resource_destroy s h)"
proof -
  have r: "pruned h0 (destroy_role get hook s h)" if "pruned h0 h" "\<And>q h. pruned h0 h \<Longrightarrow> pruned h0 (hook q h)" for get hook h0 h
    using that by (simp add: destroy_role_def pruned_keep split: option.splits)
  note k = pruned_hook [of _ _ Toplevel_role] pruned_hook [of _ _ Xdg_surface_role] pruned_hook [of _ _ Subsurface_role] pruned_hook [of _ _ Viewport_role]
    pruned_hook [of _ _ Layer_role] pruned_hook [of _ _ Sync_role]
  have roles: "pruned h0 (destroy_roles s h)" if "pruned h0 h" for h0 h unfolding destroy_roles_def Let_def
    by (intro pruned_upd r k [unfolded role_hook.simps]) (simp_all add: that)
  have f: "pruned h0 (fold orphan cs h)" if "pruned h0 h" for h0 cs h
    using that by (induction cs arbitrary: h) (simp_all add: orphan_def pruned_upd)
  have p: "pruned h0 (destroy_focus s h) = pruned h0 h" for h0 h
  proof -
    have "h_surfaces (destroy_focus s h) = h_surfaces h" by (simp add: destroy_focus_def upd_server_def Let_def)
    then show ?thesis by (simp only: pruned_def)
  qed
  have v: "pruned h0 (free_surface s h)" if "pruned h0 h" for h0 h
    using that by (auto simp: pruned_def free_surface_def upd_server_def)
  have d: "pruned h0 (destroy_family s h)" "pruned h0 (destroy_current s h)" "pruned h0 (destroy_pending s h)"
    "pruned h0 (destroy_sync s h)" "pruned h0 (clear_callbacks s h)" if "pruned h0 h" for h0 h
    using that by (simp_all add: destroy_family_def destroy_current_def destroy_pending_def close_buffer_fence_def destroy_sync_def
        clear_callbacks_def Let_def f pruned_unlink pruned_keep split: option.splits)
  show ?thesis by (simp add: surface_resource_destroy_def Let_def d v p roles pruned_keep pruned_refl)
qed

lemma settled_destroy:
  assumes "host_inv h" "settled h" "h_surfaces h s \<noteq> None"
  shows "settled (surface_resource_destroy s h)"
proof -
  have "h_surfaces (surface_resource_destroy s h) t \<noteq> None \<Longrightarrow> h_surfaces h t \<noteq> None" for t
    using surface_destroy_view [of s h] by (metis fun_upd_apply map_option_is_None view_def)
  then have "rooted (surface_resource_destroy s h)" using rooted_pruned [OF pruned_destroy] assms(2) by (simp add: settled_def)
  then show ?thesis using destroy_pointer_live assms by (simp add: settled_def)
qed

lemma settled_create:
  assumes "settled h" "unused (h_surfaces h) mem"
  shows "settled (compositor_create_surface client r mem res h)"
proof (cases "(mem, res)")
  case (Pair a b)
  show ?thesis
  proof (cases a; cases b)
    fix s q assume "a = Some s" "b = Some q"
    then have e: "mem = Some s" "res = Some q" using Pair by auto
    let ?h = "compositor_create_surface client r mem res h"
    have s: "h_surfaces h s = None" using assms(2) e by (simp add: unused_def)
    have m: "h_surfaces ?h = (h_surfaces h)(s \<mapsto> new_surface q)"
      by (simp add: compositor_create_surface_def e upd_server_def emit_def new_resource_def)
    have p: "parent_of ?h = parent_of h" by (rule ext) (simp add: m s new_surface_def)
    have "lineage h s [s]" using s by (intro lineage_root) simp
    then have "rooted ?h" using assms(1) unfolding settled_def rooted_def lineage_cong [OF p] m by (metis fun_upd_apply)
    moreover have "foci ?h = foci h" by (simp add: compositor_create_surface_def e upd_server_def emit_def new_resource_def foci_def)
    then have "pointer_live ?h" using assms(1) by (auto simp: settled_def pointer_live_def foci_def m)
    ultimately show ?thesis by (simp add: settled_def)
  qed (use Pair assms(1) in \<open>auto simp: compositor_create_surface_def settled_outline [OF outline_access(1)]\<close>)
qed

text \<open>The request that gives a surface a parent.\<close>

definition unknotted :: "host \<Rightarrow> sid option \<Rightarrow> sid option \<Rightarrow> bool" where
  "unknotted h surface parent \<longleftrightarrow> (\<forall>s p l. surface = Some s \<and> parent = Some p \<and> lineage h p l \<longrightarrow> s \<notin> set l)"

lemma lineage_other:
  assumes "lineage h t l" "s \<notin> set l" "\<And>u. u \<noteq> s \<Longrightarrow> parent_of h' u = parent_of h u"
  shows "lineage h' t l"
  using assms by (induction h t l rule: lineage.induct) auto

lemma lineage_grafted:
  assumes "lineage h t l" "lineage h' s k" "\<And>u. u \<noteq> s \<Longrightarrow> parent_of h' u = parent_of h u"
  shows "\<exists>k. lineage h' t k"
  using assms
proof (induction h t l rule: lineage.induct)
  case (2 h t a)
  show ?case
  proof (cases "t = s")
    case False
    then have "parent_of h' t = None" using 2 by auto
    then show ?thesis using lineage_root by blast
  qed (use 2 in auto)
next
  case (3 h t a b l)
  show ?case
  proof (cases "t = s")
    case False
    then have "parent_of h' t = Some b" using 3 by auto
    then show ?thesis using 3 lineage_step [of h' t b] by auto
  qed (use 3 in auto)
qed simp

lemma settled_nest:
  assumes "settled h" "alive h surface" "alive h parent" "unknotted h surface parent"
  shows "settled (subcompositor_get_subsurface client r res surface parent h)"
proof (cases "\<exists>s p q. surface = Some s \<and> parent = Some p \<and> res = Some q \<and> s \<noteq> p \<and> fld (h_surfaces h) s_subsurface s = None")
  case True
  then obtain s p q where e: "surface = Some s" "parent = Some p" "res = Some q" "s \<noteq> p" "fld (h_surfaces h) s_subsurface s = None" by blast
  obtain x y where x: "h_surfaces h s = Some x" "h_surfaces h p = Some y" using assms(2,3) e by (auto simp: alive_def)
  let ?h = "subcompositor_get_subsurface client r res surface parent h"
  have par: "parent_of ?h u = (if u = s then Some p else parent_of h u)" and live: "h_surfaces ?h u = None \<longleftrightarrow> h_surfaces h u = None" for u
    using e x by (auto simp: subcompositor_get_subsurface_def upd_surface_def)
  obtain l where l: "lineage h p l" using assms(1) x(2) by (auto simp: settled_def rooted_def)
  then have "s \<notin> set l" using assms(4) e by (auto simp: unknotted_def)
  moreover have other: "parent_of ?h u = parent_of h u" if "u \<noteq> s" for u using par that by (simp only: if_False)
  ultimately have "lineage ?h p l" using lineage_other [OF l] by blast
  moreover have "parent_of ?h s = Some p" unfolding par by simp
  ultimately have k: "lineage ?h s (s # l)" using lineage_step by blast
  have "rooted ?h" unfolding rooted_def
  proof (intro allI impI)
    fix t assume "h_surfaces ?h t \<noteq> None"
    then have "h_surfaces h t \<noteq> None" using live [of t] by argo
    then obtain m where "lineage h t m" using assms(1) unfolding settled_def rooted_def by blast
    then show "\<exists>m. lineage ?h t m" using lineage_grafted [OF _ k other] by blast
  qed
  moreover have "foci ?h = foci h" using e by (simp add: subcompositor_get_subsurface_def)
  then have "pointer_live ?h" using assms(1) live by (simp add: settled_def pointer_live_def foci_def)
  ultimately show ?thesis by (simp add: settled_def)
next
  case False
  then have "\<exists>e. subcompositor_get_subsurface client r res surface parent h = emit e h"
    by (auto simp: subcompositor_get_subsurface_def split: option.split)
  then show ?thesis using assms(1) settled_outline [OF outline_access(1)] by auto
qed

end
