(* ===== verification/Wire_Machine.thy ===== *)
theory Wire_Machine
  imports Wire_Safety Settled
begin

text \<open>
  The host with its resource table as a transition system: requests for any object in the table, resources destroyed when their client goes, globals bound, and
  the host's own turn. Each step is a sequence of moves of the host alone.
\<close>

section \<open>Moves of the host\<close>

inductive host_move :: "host \<Rightarrow> host \<Rightarrow> bool" where
  step: "host_step h h' \<Longrightarrow> host_move h h'"
| event: "host_move h (emit e h)"
| resource: "host_move h (new_resource client n r h)"

abbreviation host_moves :: "host \<Rightarrow> host \<Rightarrow> bool" where
  "host_moves \<equiv> host_move\<^sup>*\<^sup>*"

lemma host_move_inv: "host_move h h' \<Longrightarrow> host_inv h \<Longrightarrow> host_inv h'"
  by (induction rule: host_move.induct) (auto intro: host.step_inv host_inv_emit host_inv_new_resource)

interpretation moves: transition_system host_move host_inv
  by unfold_locales (rule host_move_inv)

text \<open>
  The same moves, but the step that gives a surface a parent is set apart as \<open>N\<close>; the others keep a host settled.
\<close>

inductive steady_move :: "(host \<Rightarrow> host \<Rightarrow> bool) \<Rightarrow> host \<Rightarrow> host \<Rightarrow> bool" for N where
  step: "host_step h h' \<Longrightarrow> (host_inv h \<Longrightarrow> settled h \<Longrightarrow> settled h') \<Longrightarrow> steady_move N h h'"
| nest: "N h h' \<Longrightarrow> steady_move N h h'"
| event: "steady_move N h (emit e h)"
| resource: "steady_move N h (new_resource client n r h)"

abbreviation steady_moves :: "(host \<Rightarrow> host \<Rightarrow> bool) \<Rightarrow> host \<Rightarrow> host \<Rightarrow> bool" where
  "steady_moves N \<equiv> (steady_move N)\<^sup>*\<^sup>*"

lemma moves_step: "host_step h h' \<Longrightarrow> (host_inv h \<Longrightarrow> settled h \<Longrightarrow> settled h') \<Longrightarrow> steady_moves N h h'"
  by (auto intro: steady_move.step)

lemma moves_shell: "shell_step h h' \<Longrightarrow> (host_inv h \<Longrightarrow> settled h \<Longrightarrow> settled h') \<Longrightarrow> steady_moves N h h'"
  by (rule moves_step) (simp_all add: host_step_def)

lemma moves_surface: "surface_step h h' \<Longrightarrow> (host_inv h \<Longrightarrow> settled h \<Longrightarrow> settled h') \<Longrightarrow> steady_moves N h h'"
  by (rule moves_step) (simp_all add: host_step_def)

lemma moves_emit: "steady_moves N h h' \<Longrightarrow> steady_moves N h (emit e h')"
  by (auto intro: steady_move.event rtranclp.rtrancl_into_rtrancl)

lemma moves_emits: "steady_moves N h h' \<Longrightarrow> steady_moves N h (emits es h')"
proof (induction es arbitrary: h')
  case Nil
  then show ?case by (simp add: emits_def)
next
  case (Cons e es)
  have "emits (e # es) h' = emits es (emit e h')" by (simp add: emits_def emit_def)
  then show ?case using Cons.IH [OF moves_emit [OF Cons.prems]] by simp
qed

lemma moves_resource: "steady_moves N h (new_resource client n r h)"
  by (auto intro: steady_move.resource)

lemma resource_or_error_moves: "steady_moves N h (resource_or_error client n res es h)"
  unfolding resource_or_error_def by (cases res) (simp_all add: moves_emit moves_emits moves_resource)

lemma resource_or_error_view: "view (resource_or_error client n res es h) = view h"
  unfolding resource_or_error_def by (cases res) (simp_all add: view_simps)

section \<open>The invariant\<close>

definition wire_ok :: "wire \<Rightarrow> bool" where
  "wire_ok w \<longleftrightarrow> host_inv (w_host w) \<and> consistent (view (w_host w)) (w_objects w)"

text \<open>A step keeps the invariant and is made of moves of the host.\<close>

definition refines :: "(host \<Rightarrow> host \<Rightarrow> bool) \<Rightarrow> wire \<Rightarrow> wire \<Rightarrow> bool" where
  "refines N w w' \<longleftrightarrow> wire_ok w' \<and> steady_moves N (w_host w) (w_host w')"

lemma refines_same: "wire_ok w \<Longrightarrow> refines N w w"
  by (simp add: refines_def)

lemma wire_ok_alive:
  assumes "wire_ok w"
  shows "w_objects w r = Some (Surface_object s) \<Longrightarrow> alive (w_host w) (Some s)"
    "w_objects w r = Some (Role_object k s) \<Longrightarrow> alive (w_host w) (Some s)"
    "alive (w_host w) (surface_behind w r)"
proof -
  have C: "consistent (view (w_host w)) (w_objects w)" using assms by (simp add: wire_ok_def)
  show 1: "w_objects w r = Some (Surface_object s) \<Longrightarrow> alive (w_host w) (Some s)" for s
    using consistentD [OF C, of "Surface_object s" r] by (auto simp: alive_def view_def)
  show "w_objects w r = Some (Role_object k s) \<Longrightarrow> alive (w_host w) (Some s)"
    using consistentD [OF C, of "Role_object k s" r] by (auto simp: alive_def view_def split: bind_splits)
  show "alive (w_host w) (surface_behind w r)"
    using 1 unfolding surface_behind_def by (auto simp: alive_def split: option.split wire_object.split)
qed

lemma role_named:
  assumes "wire_ok w" "w_objects w r = Some (Role_object k s)"
  obtains x where "h_surfaces (w_host w) s = Some x" "role_field k x = Some r"
proof -
  have "names (view (w_host w)) (Role_object k s) r" using assms consistentD [of "view (w_host w)" "w_objects w" "Role_object k s" r] by (simp add: wire_ok_def)
  then show ?thesis using that by (auto simp: view_def surface_view_def split: bind_splits)
qed

section \<open>Requests\<close>

text \<open>The object a request makes, and the memory the host allocates for it, are not in use; a subsurface is not placed next to itself.\<close>

definition new_object :: "request \<Rightarrow> rid option" where
  "new_object q = (case q of
       Compositor_request (Create_surface mem res) \<Rightarrow> res
     | Compositor_request (Create_region res) \<Rightarrow> res
     | Subcompositor_request (Get_subsurface res surface parent) \<Rightarrow> res
     | Wm_base_request (Create_positioner res) \<Rightarrow> res
     | Wm_base_request (Get_xdg_surface res surface) \<Rightarrow> res
     | Xdg_surface_request (Get_toplevel res) \<Rightarrow> res
     | Xdg_surface_request (Get_popup res) \<Rightarrow> res
     | Viewporter_request (Get_viewport res surface) \<Rightarrow> res
     | Fractional_request (Get_fractional_scale res surface) \<Rightarrow> res
     | Layer_shell_request (Get_layer_surface res surface layer) \<Rightarrow> res
     | Sync_manager_request (Get_synchronization res surface) \<Rightarrow> res
     | Constraints_request (Lock_pointer res) \<Rightarrow> res
     | Constraints_request (Confine_pointer res) \<Rightarrow> res
     | Relative_request (Get_relative_pointer res) \<Rightarrow> res
     | Data_manager_request (Create_data_source res) \<Rightarrow> res
     | Data_manager_request (Get_data_device res) \<Rightarrow> res
     | Decoration_manager_request (Get_decoration res) \<Rightarrow> res
     | _ \<Rightarrow> None)"

definition memory_fresh :: "host \<Rightarrow> request \<Rightarrow> bool" where
  "memory_fresh h q = (case q of
       Compositor_request (Create_surface mem res) \<Rightarrow> unused (h_surfaces h) mem
     | Surface_request (Surface_attach buffer data android mem x y) \<Rightarrow> unused (h_buffers h) mem
     | Sync_request (Get_release mem res) \<Rightarrow> unused (h_bindings h) res
     | _ \<Rightarrow> True)"

definition not_itself :: "wire \<Rightarrow> rid \<Rightarrow> request \<Rightarrow> bool" where
  "not_itself w r q = (case (q, w_objects w r) of
       (Subsurface_request (Place_above sibling), Some (Role_object k s)) \<Rightarrow> surface_behind w sibling \<noteq> Some s
     | (Subsurface_request (Place_below sibling), Some (Role_object k s)) \<Rightarrow> surface_behind w sibling \<noteq> Some s
     | _ \<Rightarrow> True)"

definition admissible :: "wire \<Rightarrow> rid \<Rightarrow> request \<Rightarrow> bool" where
  "admissible w r q \<longleftrightarrow> unused (w_objects w) (new_object q) \<and> memory_fresh (w_host w) q \<and> not_itself w r q"

section \<open>The transition system\<close>

text \<open>The functions that bind the globals whose requests are above.\<close>

definition binds :: "(interface \<times> (cid \<Rightarrow> nat \<Rightarrow> rid option \<Rightarrow> host \<Rightarrow> host)) list" where
  "binds = [(Compositor, trierarch_surface_bind), (Subcompositor, trierarch_subcompositor_bind), (Wm_base, trierarch_xdg_shell_bind),
     (Viewporter, trierarch_viewporter_bind), (Fractional_manager, trierarch_fractional_scale_bind), (Layer_shell, trierarch_layer_shell_bind),
     (Sync_manager, trierarch_explicit_sync_bind), (Constraints, trierarch_pointer_constraints_bind), (Relative_manager, trierarch_relative_pointer_bind),
     (Data_manager, trierarch_data_device_bind), (Decoration_manager, trierarch_xdg_decoration_bind)]"

lemma binds_resource: "(i, f) \<in> set binds \<Longrightarrow> \<exists>n. f client version res = resource_or_error client n res []"
  unfolding binds_def trierarch_surface_bind_def trierarch_subcompositor_bind_def trierarch_xdg_shell_bind_def trierarch_viewporter_bind_def
    trierarch_fractional_scale_bind_def trierarch_layer_shell_bind_def trierarch_explicit_sync_bind_def trierarch_pointer_constraints_bind_def
    trierarch_relative_pointer_bind_def trierarch_data_device_bind_def trierarch_xdg_decoration_bind_def
  by (simp split del: if_split) blast

text \<open>
  \<open>request\<close>: a client's request. \<open>gone\<close>: a resource of a client that has left; of a fractional scale only with its surface. \<open>bind\<close>: a global is bound.
  The host's own steps: buffers, frames, and the objects that are not in the table.
\<close>

inductive wire_step :: "(wire \<Rightarrow> request \<Rightarrow> bool) \<Rightarrow> wire \<Rightarrow> wire \<Rightarrow> bool" for P where
  request: "admissible w r q \<Longrightarrow> P w q \<Longrightarrow> wire_step P w (dispatch_request client r q w)"
| gone: "w_objects w r = Some x \<Longrightarrow> (\<And>s. x \<noteq> Role_object Fractional_role s) \<Longrightarrow> wire_step P w (wl_resource_destroy r w)"
| bind: "(i, f) \<in> set binds \<Longrightarrow> unused (w_objects w) res \<Longrightarrow> wire_step P w (with_plain i res (f client version res) w)"
| buffer: "buffer_step (w_host w) h \<Longrightarrow> wire_step P w (w\<lparr>w_host := h\<rparr>)"
| frame: "frame_step (w_host w) h \<Longrightarrow> wire_step P w (w\<lparr>w_host := h\<rparr>)"
| callback_gone: "h_surfaces (w_host w) s \<noteq> None \<Longrightarrow> wire_step P w (on_host (frame_callback_destroy s r) w)"
| release_gone: "wire_step P w (on_host (release_destroy r) w)"

inductive_cases wire_stepE: "wire_step P w w'"

section \<open>The contract of nesting\<close>

text \<open>
  \<open>N\<close> are the steps of the host that give a surface a parent, \<open>P\<close> the requests that may be sent. What the tables do is proved for every choice of the two that fits.
\<close>

locale nesting =
  fixes N :: "host \<Rightarrow> host \<Rightarrow> bool" and P :: "wire \<Rightarrow> request \<Rightarrow> bool"
  assumes nest_step: "N h h' \<Longrightarrow> host_step h h'"
    and nest_request: "wire_ok w \<Longrightarrow> P w (Subcompositor_request (Get_subsurface res surface parent)) \<Longrightarrow>
      N (w_host w) (subcompositor_get_subsurface client r res (surface_behind w surface) (surface_behind w parent) (w_host w))"
begin

lemma steady_host_move: "steady_move N h h' \<Longrightarrow> host_move h h'"
  by (induction rule: steady_move.induct) (auto intro: host_move.intros nest_step)

lemma steady_host_moves: "steady_moves N h h' \<Longrightarrow> host_moves h h'"
  by (induction rule: rtranclp_induct) (auto intro: steady_host_move rtranclp.rtrancl_into_rtrancl)

lemma refinesI:
  assumes "wire_ok w" "steady_moves N (w_host w) (w_host w')" "consistent (view (w_host w')) (w_objects w')"
  shows "refines N w w'"
  using assms moves.run_inv [OF steady_host_moves [OF assms(2)]] by (simp add: refines_def wire_ok_def)

lemma on_host_refines:
  assumes "wire_ok w" "steady_moves N (w_host w) (f (w_host w))" "view (f (w_host w)) = view (w_host w)"
  shows "refines N w (on_host f w)"
  by (rule refinesI [OF assms(1)]) (use assms in \<open>simp_all add: on_host_def wire_ok_def\<close>)

lemma with_plain_refines:
  assumes "wire_ok w" "unused (w_objects w) res" "steady_moves N (w_host w) (f (w_host w))" "view (f (w_host w)) = view (w_host w)"
  shows "refines N w (with_plain i res f w)"
proof (rule refinesI [OF assms(1)])
  have "consistent (view (w_host w)) (w_objects w)" using assms(1) by (simp add: wire_ok_def)
  then show "consistent (view (w_host (with_plain i res f w))) (w_objects (with_plain i res f w))"
    using assms(2,4) by (cases res) (simp_all add: with_plain_def on_host_def unused_def consistent_plain_new)
qed (use assms(3) in \<open>simp add: with_plain_def on_host_def Let_def split: option.split\<close>)

lemma plain_resource_refines:
  "wire_ok w \<Longrightarrow> unused (w_objects w) res \<Longrightarrow> refines N w (with_plain i res (resource_or_error client n res es) w)"
  by (rule with_plain_refines) (simp_all add: resource_or_error_moves resource_or_error_view)

lemma with_role_refines:
  assumes w: "wire_ok w" and res: "unused (w_objects w) res" and step: "steady_moves N (w_host w) (f (w_host w))" and makes: "makes_role k res p (w_host w) (f (w_host w))"
  shows "refines N w (with_role k res p f w)"
proof (rule refinesI [OF w])
  let ?h = "w_host w" let ?h' = "f (w_host w)"
  have C: "consistent (view ?h) (w_objects w)" using w by (simp add: wire_ok_def)
  have fld: "fld (h_surfaces h) (role_field k) s = Option.bind (view h s) (\<lambda>v. snd v k)" for h s
    by (cases "h_surfaces h s") (simp_all add: view_def surface_view_def)
  from makes [unfolded makes_role_def] show "consistent (view (w_host (with_role k res p f w))) (w_objects (with_role k res p f w))"
  proof (elim disjE exE conjE)
    assume v: "view ?h' = view ?h"
    have "\<not> names (view ?h) (Role_object k s) r" if "res = Some r" for r s
      using consistent_fresh [OF C, of r "Role_object k s"] res that by (simp add: unused_def)
    then show ?thesis using C v by (simp add: with_role_def on_host_def Let_def fld split: option.split)
  next
    fix r s x assume a: "res = Some r" "p = Some s" "h_surfaces ?h s = Some x" "role_field k x = None" "view ?h' = (view ?h)(s \<mapsto> set_role k (Some r) (surface_view x))"
    have "consistent ((view ?h)(s \<mapsto> set_role k (Some r) (surface_view x))) ((w_objects w)(r \<mapsto> Role_object k s))"
      by (rule consistent_role_new [OF C]) (use a res in \<open>simp_all add: view_def surface_view_def unused_def\<close>)
    with a show ?thesis by (simp add: with_role_def on_host_def fld set_role_def)
  qed
qed (use step in \<open>simp add: with_role_def on_host_def Let_def split: option.split\<close>)

text \<open>Every resource but a fractional scale may be destroyed at any time.\<close>

lemmas settled_hooks = settled_hook [where k = Toplevel_role, unfolded role_hook.simps] settled_hook [where k = Xdg_surface_role, unfolded role_hook.simps]
  settled_hook [where k = Subsurface_role, unfolded role_hook.simps] settled_hook [where k = Viewport_role, unfolded role_hook.simps]
  settled_hook [where k = Layer_role, unfolded role_hook.simps] settled_hook [where k = Sync_role, unfolded role_hook.simps]

lemma hook_moves: "alive h (Some s) \<Longrightarrow> steady_moves N h (role_hook k r s h)"
  by (cases k)
    (simp_all add: moves_shell [OF shell_step.toplevel_destroy] moves_shell [OF shell_step.xdg_destroy] moves_shell [OF shell_step.viewport_destroy]
      moves_shell [OF shell_step.layer_destroy] moves_surface [OF surface_step.subsurface_destroy] moves_surface [OF surface_step.sync_destroy] settled_hooks)

lemma destroy_refines:
  assumes w: "wire_ok w" and x: "w_objects w r = Some x" and f: "\<And>s. x \<noteq> Role_object Fractional_role s"
  shows "refines N w (wl_resource_destroy r w)"
proof -
  have C: "consistent (view (w_host w)) (w_objects w)" using w by (simp add: wire_ok_def)
  show ?thesis
  proof (cases x)
    case (Surface_object s)
    have "names (view (w_host w)) (Surface_object s) r" using consistentD [OF C, of "Surface_object s" r] x Surface_object by simp
    then obtain g where g: "view (w_host w) s = Some (r, g)" by auto
    note d = wl_resource_destroy_def x Surface_object forget_all_roles [OF C g] on_host_def
    show ?thesis
    proof (rule refinesI [OF w])
      show "steady_moves N (w_host w) (w_host (wl_resource_destroy r w))"
        using g by (auto simp: d view_def intro!: moves_emit moves_surface [OF surface_step.destroy] settled_destroy)
      show "consistent (view (w_host (wl_resource_destroy r w))) (w_objects (wl_resource_destroy r w))"
        using consistent_surface_gone [OF C g] by (simp add: d surface_destroy_view view_access)
    qed
  next
    case (Role_object k s)
    from w x Role_object obtain y where y: "h_surfaces (w_host w) s = Some y" "role_field k y = Some r" by (metis role_named)
    have k: "k \<noteq> Fractional_role" using f Role_object by auto
    note d = wl_resource_destroy_def x Role_object on_host_def
    show ?thesis
    proof (rule refinesI [OF w])
      show "steady_moves N (w_host w) (w_host (wl_resource_destroy r w))"
        using y by (simp add: d moves_emit hook_moves alive_def)
      have "consistent ((view (w_host w))(s \<mapsto> set_role k None (surface_view y))) ((w_objects w)(r := None))"
        by (rule consistent_role_gone [OF C]) (use y in \<open>simp_all add: view_def surface_view_def\<close>)
      then show "consistent (view (w_host (wl_resource_destroy r w))) (w_objects (wl_resource_destroy r w))"
        by (simp add: d view_access hook_view [OF y k])
    qed
  next
    case (Plain_object i)
    show ?thesis
      by (rule refinesI [OF w])
        (use x Plain_object consistent_plain_gone [OF C] in \<open>simp_all add: wl_resource_destroy_def on_host_def moves_emit view_access\<close>)
  qed
qed

text \<open>The tables, one at a time.\<close>

lemma moves_on_surface:
  assumes "wire_ok w" "outline (f (w_host w)) = outline (w_host w)"
  shows "surface_step (w_host w) (f (w_host w)) \<Longrightarrow> refines N w (on_host f w)" "shell_step (w_host w) (f (w_host w)) \<Longrightarrow> refines N w (on_host f w)"
  using settled_outline [OF assms(2)]
  by (auto intro!: on_host_refines [OF assms(1)] outline_view [OF assms(2)] intro: moves_surface moves_shell)

lemma surface_impl_refines:
  assumes w: "wire_ok w" "w_objects w r = Some (Surface_object s)" and m: "memory_fresh (w_host w) (Surface_request q)"
  shows "refines N w (surface_impl q client r s w)"
proof -
  note a = wire_ok_alive(1) [OF w]
  show ?thesis
  proof (cases q)
    case Surface_destroy
    then show ?thesis using destroy_refines [OF w] by simp
  next
    case (Surface_attach buffer data android mem x y)
    then have "unused (h_buffers (w_host w)) mem" using m by (simp add: memory_fresh_def)
    with Surface_attach show ?thesis by (simp add: moves_on_surface(1) [OF w(1)] surface_step.attach a outline_attach)
  qed (simp_all add: refines_same w(1) moves_on_surface(1) [OF w(1)] surface_step.damage a surface_step.damage_buffer surface_step.scale surface_step.frame
      surface_step.commit outline_surface_requests outline_commit)
qed

lemma compositor_impl_refines:
  assumes w: "wire_ok w" "w_objects w r = Some (Plain_object i)"
    and new: "unused (w_objects w) (new_object (Compositor_request q))" and m: "memory_fresh (w_host w) (Compositor_request q)"
  shows "refines N w (compositor_impl q client r w)"
proof (cases q)
  case (Create_surface mem res)
  have C: "consistent (view (w_host w)) (w_objects w)" using w(1) by (simp add: wire_ok_def)
  have u: "unused (h_surfaces (w_host w)) mem" "unused (w_objects w) res" using Create_surface new m by (simp_all add: memory_fresh_def new_object_def)
  have v: "view (w_host w) s = None" if "mem = Some s" for s using u that by (simp add: unused_def view_def)
  show ?thesis
  proof (rule refinesI [OF w(1)])
    show "steady_moves N (w_host w) (w_host (compositor_impl q client r w))"
      using Create_surface moves_surface [OF surface_step.create [OF u(1)]] settled_create [OF _ u(1)] by (auto simp: on_host_def Let_def split: option.split)
    show "consistent (view (w_host (compositor_impl q client r w))) (w_objects (compositor_impl q client r w))"
      using Create_surface C u(2) v consistent_surface_new [OF C]
      by (cases mem; cases res) (simp_all add: on_host_def Let_def create_surface_view unused_def)
  qed
next
  case (Create_region res)
  then show ?thesis using w(1) new
    by (auto simp: new_object_def compositor_create_region_def moves_emit view_simps intro!: with_plain_refines split: option.split)
next
  case Compositor_release
  then show ?thesis using destroy_refines [OF w] by simp
qed

lemma subcompositor_impl_refines:
  assumes w: "wire_ok w" "w_objects w r = Some (Plain_object i)" and new: "unused (w_objects w) (new_object (Subcompositor_request q))" and p: "P w (Subcompositor_request q)"
  shows "refines N w (subcompositor_impl q client r w)"
proof (cases q)
  case Subcompositor_destroy
  then show ?thesis using destroy_refines [OF w] by simp
next
  case (Get_subsurface res surface parent)
  note a = wire_ok_alive(3) [OF w(1)]
  have "makes_role Subsurface_role res (surface_behind w surface) (w_host w)
      (subcompositor_get_subsurface client r res (surface_behind w surface) (surface_behind w parent) (w_host w))"
    by (rule get_subsurface_makes) (use a [of surface] in \<open>simp add: alive_def\<close>)
  moreover have nest: "steady_moves N (w_host w) (subcompositor_get_subsurface client r res (surface_behind w surface) (surface_behind w parent) (w_host w))"
    using nest_request [OF w(1) p [unfolded Get_subsurface]] by (auto intro: steady_move.nest)
  ultimately show ?thesis using Get_subsurface new
    by (simp add: new_object_def with_role_refines [OF w(1)])
qed

lemma subsurface_impl_refines:
  assumes w: "wire_ok w" "w_objects w r = Some (Role_object Subsurface_role s)" and n: "not_itself w r (Subsurface_request q)"
  shows "refines N w (subsurface_impl q r s w)"
proof (cases q)
  case Subsurface_destroy
  then show ?thesis using destroy_refines [OF w] by simp
next
  case (Place_above sibling)
  then have "surface_behind w sibling \<noteq> Some s" using n w(2) by (simp add: not_itself_def)
  then show ?thesis using Place_above by (simp add: moves_on_surface(1) [OF w(1)] surface_step.place_above outline_stacking)
next
  case (Place_below sibling)
  then have "surface_behind w sibling \<noteq> Some s" using n w(2) by (simp add: not_itself_def)
  then show ?thesis using Place_below by (simp add: moves_on_surface(1) [OF w(1)] surface_step.place_below outline_stacking)
qed (simp_all add: refines_same w(1) moves_on_surface(1) [OF w(1)] surface_step.set_position wire_ok_alive(2) [OF w] outline_surface_requests)

lemma wm_base_impl_refines:
  assumes w: "wire_ok w" "w_objects w r = Some (Plain_object i)" and new: "unused (w_objects w) (new_object (Wm_base_request q))"
  shows "refines N w (wm_base_impl q client r w)"
proof (cases q)
  case Wm_base_destroy
  then show ?thesis using destroy_refines [OF w] by simp
next
  case (Create_positioner res)
  then show ?thesis using w(1) new
    by (auto simp: new_object_def wm_base_create_positioner_def moves_emit view_simps intro!: with_plain_refines split: option.split)
next
  case (Get_xdg_surface res surface)
  then show ?thesis using new
    by (simp add: new_object_def with_role_refines [OF w(1)] moves_shell shell_step.get_xdg_surface role_placement [THEN settled_placement] wire_ok_alive(3) [OF w(1)] get_role_makes)
qed (simp add: refines_same w(1))

lemma xdg_surface_impl_refines:
  assumes w: "wire_ok w" "w_objects w r = Some (Role_object Xdg_surface_role s)" and new: "unused (w_objects w) (new_object (Xdg_surface_request q))"
  shows "refines N w (xdg_surface_impl q client r s w)"
proof (cases q)
  case Xdg_surface_destroy
  then show ?thesis using destroy_refines [OF w] by simp
next
  case (Get_toplevel res)
  then show ?thesis using new
    by (simp add: new_object_def with_role_refines [OF w(1)] moves_shell shell_step.get_toplevel role_placement [THEN settled_placement] wire_ok_alive(2) [OF w] get_role_makes)
next
  case (Get_popup res)
  then show ?thesis using new
    by (simp add: new_object_def with_plain_refines [OF w(1)] moves_shell shell_step.get_popup view_shell_requests settled_outline [OF outline_shell_requests(2)])
qed (simp_all add: refines_same w(1) moves_on_surface(2) [OF w(1)] shell_step.ack wire_ok_alive(2) [OF w] outline_shell_requests)

lemma xdg_toplevel_impl_refines:
  assumes w: "wire_ok w" "w_objects w r = Some (Role_object Toplevel_role s)"
  shows "refines N w (xdg_toplevel_impl q r s w)"
proof -
  have "refines N w (on_host (send_configure_to (Some s)) w)"
    by (simp add: moves_on_surface(2) [OF w(1)] shell_step.configure wire_ok_alive(2) [OF w] outline_configure)
  then show ?thesis using destroy_refines [OF w]
    by (cases q) (simp_all add: refines_same w(1) on_host_def xdg_toplevel_set_maximized_def xdg_toplevel_unset_maximized_def xdg_toplevel_set_fullscreen_def
        xdg_toplevel_unset_fullscreen_def)
qed

lemma viewporter_impl_refines:
  assumes w: "wire_ok w" "w_objects w r = Some (Plain_object i)" and new: "unused (w_objects w) (new_object (Viewporter_request q))"
  shows "refines N w (viewporter_impl q client r w)"
proof (cases q)
  case Viewporter_destroy
  then show ?thesis using destroy_refines [OF w] by simp
next
  case (Get_viewport res surface)
  then show ?thesis using new
    by (simp add: new_object_def with_role_refines [OF w(1)] moves_shell shell_step.get_viewport role_placement [THEN settled_placement] wire_ok_alive(3) [OF w(1)] get_role_makes)
qed

lemma viewport_impl_refines:
  assumes w: "wire_ok w" "w_objects w r = Some (Role_object Viewport_role s)"
  shows "refines N w (viewport_impl q r s w)"
  using destroy_refines [OF w]
  by (cases q) (simp_all add: moves_on_surface(2) [OF w(1)] shell_step.set_source shell_step.set_destination wire_ok_alive(2) [OF w] outline_shell_requests)

lemma fractional_impl_refines:
  assumes w: "wire_ok w" "w_objects w r = Some (Plain_object i)" and new: "unused (w_objects w) (new_object (Fractional_request q))"
  shows "refines N w (fractional_impl q client r w)"
proof (cases q)
  case Fractional_manager_destroy
  then show ?thesis using destroy_refines [OF w] by simp
next
  case (Get_fractional_scale res surface)
  then show ?thesis using new
    by (simp add: new_object_def with_role_refines [OF w(1)] moves_shell shell_step.get_fractional role_placement [THEN settled_placement] wire_ok_alive(3) [OF w(1)] get_role_makes)
qed

lemma fractional_surface_impl_refines:
  assumes w: "wire_ok w" "w_objects w r = Some (Role_object Fractional_role s)"
  shows "refines N w (fractional_surface_impl r s w)"
proof (rule refinesI [OF w(1)])
  have C: "consistent (view (w_host w)) (w_objects w)" using w(1) by (simp add: wire_ok_def)
  from w obtain y where y: "h_surfaces (w_host w) s = Some y" "role_field Fractional_role y = Some r" by (rule role_named)
  show "steady_moves N (w_host w) (w_host (fractional_surface_impl r s w))"
    by (simp add: fractional_surface_impl_def on_host_def moves_shell shell_step.fractional_destroyed role_placement [THEN settled_placement] wire_ok_alive(2) [OF w])
  have "consistent ((view (w_host w))(s \<mapsto> set_role Fractional_role None (surface_view y))) ((w_objects w)(r := None))"
    by (rule consistent_role_gone [OF C]) (use y in \<open>simp_all add: view_def surface_view_def\<close>)
  then show "consistent (view (w_host (fractional_surface_impl r s w))) (w_objects (fractional_surface_impl r s w))"
    using y by (simp add: fractional_surface_impl_def on_host_def fractional_destroy_view)
qed

lemma layer_shell_impl_refines:
  assumes w: "wire_ok w" "w_objects w r = Some (Plain_object i)" and new: "unused (w_objects w) (new_object (Layer_shell_request q))"
  shows "refines N w (layer_shell_impl q client r w)"
proof (cases q)
  case (Get_layer_surface res surface layer)
  then show ?thesis using new
    by (simp add: new_object_def with_role_refines [OF w(1)] moves_shell shell_step.get_layer role_placement [THEN settled_placement] wire_ok_alive(3) [OF w(1)] get_role_makes)
next
  case Layer_shell_destroy
  then show ?thesis using destroy_refines [OF w] by simp
qed

lemma layer_surface_impl_refines:
  assumes w: "wire_ok w" "w_objects w r = Some (Role_object Layer_role s)"
  shows "refines N w (layer_surface_impl q r s w)"
  using destroy_refines [OF w]
  by (cases q) (simp_all add: refines_same w(1) moves_on_surface(2) [OF w(1)] shell_step.set_size shell_step.set_anchor shell_step.set_zone shell_step.set_margin
      shell_step.set_interactivity shell_step.set_layer wire_ok_alive(2) [OF w] outline_shell_requests)

lemma sync_manager_impl_refines:
  assumes w: "wire_ok w" "w_objects w r = Some (Plain_object i)" and new: "unused (w_objects w) (new_object (Sync_manager_request q))"
  shows "refines N w (sync_manager_impl q client r w)"
proof (cases q)
  case Sync_manager_destroy
  then show ?thesis using destroy_refines [OF w] by simp
next
  case (Get_synchronization res surface)
  then show ?thesis using new
    by (simp add: new_object_def with_role_refines [OF w(1)] moves_surface surface_step.get_sync role_placement [THEN settled_placement] wire_ok_alive(3) [OF w(1)] get_role_makes)
qed

lemma sync_impl_refines:
  assumes w: "wire_ok w" "w_objects w r = Some (Role_object Sync_role s)" and m: "memory_fresh (w_host w) (Sync_request q)"
  shows "refines N w (sync_impl q client r s w)"
  using destroy_refines [OF w] m
  by (cases q) (simp_all add: moves_on_surface(1) [OF w(1)] surface_step.set_fence surface_step.get_release wire_ok_alive(2) [OF w] outline_sync_requests memory_fresh_def)

text \<open>The objects without a surface.\<close>

lemma plain_impls_refine:
  assumes w: "wire_ok w" "w_objects w r = Some (Plain_object i)"
  shows "refines N w (region_impl q1 r w)" "refines N w (positioner_impl q2 r w)" "refines N w (popup_impl q3 r w)" "refines N w (locked_impl q4 r w)"
    "refines N w (confined_impl q5 r w)" "refines N w (data_source_impl q6 r w)" "refines N w (data_device_impl q7 r w)" "refines N w (decoration_impl q8 r w)"
proof -
  have d: "refines N w (wl_resource_destroy r w)" using destroy_refines [OF w] by simp
  show "refines N w (region_impl q1 r w)" by (cases q1) (simp_all add: d refines_same w(1))
  show "refines N w (positioner_impl q2 r w)" "refines N w (locked_impl q4 r w)" "refines N w (confined_impl q5 r w)" "refines N w (data_source_impl q6 r w)"
    "refines N w (data_device_impl q7 r w)"
    by (simp_all add: positioner_impl_def locked_impl_def confined_impl_def data_source_impl_def data_device_impl_def d refines_same w(1))
  show "refines N w (popup_impl q3 r w)"
    by (cases q3) (simp_all add: d refines_same w(1) moves_on_surface(2) [OF w(1)] shell_step.reposition outline_shell_requests)
  show "refines N w (decoration_impl q8 r w)"
    by (cases q8) (simp_all add: d on_host_refines [OF w(1)] decoration_set_mode_def decoration_unset_mode_def moves_emit view_access)
qed

lemma factories_refine:
  assumes w: "wire_ok w" "w_objects w r = Some (Plain_object i)"
  shows "unused (w_objects w) (new_object (Constraints_request q1)) \<Longrightarrow> refines N w (constraints_impl q1 client r w)"
    "unused (w_objects w) (new_object (Relative_request q2)) \<Longrightarrow> refines N w (relative_impl q2 client r w)"
    "unused (w_objects w) (new_object (Data_manager_request q3)) \<Longrightarrow> refines N w (data_manager_impl q3 client r w)"
    "unused (w_objects w) (new_object (Decoration_manager_request q4)) \<Longrightarrow> refines N w (decoration_manager_impl q4 client r w)"
proof -
  have d: "refines N w (wl_resource_destroy r w)" using destroy_refines [OF w] by simp
  note p = new_object_def d resource_or_error_moves resource_or_error_view with_plain_refines [OF w(1)]
  show "unused (w_objects w) (new_object (Constraints_request q1)) \<Longrightarrow> refines N w (constraints_impl q1 client r w)"
    by (cases q1) (simp_all add: p constraints_lock_pointer_def constraints_confine_pointer_def create_locked_pointer_def create_confined_pointer_def)
  show "unused (w_objects w) (new_object (Relative_request q2)) \<Longrightarrow> refines N w (relative_impl q2 client r w)"
    by (cases q2) (simp_all add: p relative_get_def)
  show "unused (w_objects w) (new_object (Data_manager_request q3)) \<Longrightarrow> refines N w (data_manager_impl q3 client r w)"
    by (cases q3) (simp_all add: p data_create_source_def data_get_device_def)
  show "unused (w_objects w) (new_object (Decoration_manager_request q4)) \<Longrightarrow> refines N w (decoration_manager_impl q4 client r w)"
    by (cases q4) (simp_all add: p manager_get_decoration_def)
qed

lemmas plain_refines = compositor_impl_refines subcompositor_impl_refines wm_base_impl_refines viewporter_impl_refines fractional_impl_refines
  layer_shell_impl_refines sync_manager_impl_refines plain_impls_refine factories_refine

lemmas role_refines = subsurface_impl_refines xdg_surface_impl_refines xdg_toplevel_impl_refines viewport_impl_refines fractional_surface_impl_refines
  layer_surface_impl_refines sync_impl_refines

lemma dispatch_refines:
  assumes w: "wire_ok w" and a: "admissible w r q" and p: "P w q"
  shows "refines N w (dispatch_request client r q w)"
proof -
  have same: "refines N w w" by (rule refines_same [OF w])
  have a: "unused (w_objects w) (new_object q)" "memory_fresh (w_host w) q" "not_itself w r q" using a by (simp_all add: admissible_def)
  show ?thesis
  proof (cases "w_objects w r")
    case None
    then show ?thesis by (simp add: dispatch_request_def same)
  next
    case (Some x)
    show ?thesis
    proof (cases x)
      case (Surface_object s)
      then show ?thesis using Some a by (cases q) (simp_all add: dispatch_request_def same surface_impl_refines [OF w])
    next
      case (Role_object k s)
      then show ?thesis using Some a by (cases q) (simp_all add: dispatch_request_def dispatch_role_def same role_refines [OF w])
    next
      case (Plain_object i)
      moreover have "refines N w (wl_resource_destroy r w)" using destroy_refines [OF w Some] Plain_object by simp
      ultimately show ?thesis using Some a p by (cases q) (simp_all add: dispatch_request_def dispatch_plain_def same plain_refines [OF w])
    qed
  qed
qed

lemma host_turn_refines:
  assumes "wire_ok w" "host_step (w_host w) h" "outline h = outline (w_host w)"
  shows "refines N w (w\<lparr>w_host := h\<rparr>)"
  by (rule refinesI [OF assms(1)]) (use assms settled_outline [OF assms(3)] outline_view [OF assms(3)] in \<open>simp_all add: moves_step wire_ok_def\<close>)

lemma wire_step_refines: "wire_step P w w' \<Longrightarrow> wire_ok w \<Longrightarrow> refines N w w'"
proof (induction rule: wire_step.induct)
  case (request w r q client)
  then show ?case by (simp add: dispatch_refines)
next
  case (gone w r x)
  then show ?case by (intro destroy_refines) auto
next
  case (bind i f w res client version)
  obtain n where "f client version res = resource_or_error client n res []" using binds_resource [OF bind.hyps(1)] by blast
  then show ?case using bind by (simp add: plain_resource_refines)
next
  case (buffer w h)
  then show ?case by (intro host_turn_refines) (auto simp: host_step_def buffer_step_outline)
next
  case (frame w h)
  then show ?case by (intro host_turn_refines) (auto simp: host_step_def frame_step_outline)
next
  case (callback_gone w s r)
  then show ?case by (simp add: moves_on_surface(1) surface_step.callback_destroy outline_surface_requests)
next
  case (release_gone w r)
  then show ?case by (simp add: moves_on_surface(1) surface_step.release_gone outline_release)
qed

lemma wire_step_ok: "wire_step P w w' \<Longrightarrow> wire_ok w \<Longrightarrow> wire_ok w'"
  using wire_step_refines by (simp add: refines_def)

lemma wire_run_refines:
  assumes "(wire_step P)\<^sup>*\<^sup>* w w'" "wire_ok w"
  shows "refines N w w'"
  using assms
proof (induction rule: rtranclp_induct)
  case base
  then show ?case by (rule refines_same)
next
  case (step y z)
  then have "refines N w y" "wire_ok y" by (auto simp: refines_def)
  with wire_step_refines [OF step.hyps(2)] show ?case by (auto simp: refines_def intro: rtranclp_trans)
qed

end

sublocale nesting \<subseteq> wires: transition_system "wire_step P" wire_ok
  by unfold_locales (rule wire_step_ok)

definition fresh_wire :: "host \<Rightarrow> wire" where
  "fresh_wire h = \<lparr>w_host = h, w_objects = Map.empty\<rparr>"

lemma fresh_wire_ok:
  assumes "trierarch_wayland_create ready dm timer device = Some h"
  shows "wire_ok (fresh_wire h)"
proof -
  have "view h = Map.empty" using assms by (auto simp: trierarch_wayland_create_def view_def fun_eq_iff split: if_splits)
  then show ?thesis using create_inv [OF assms] by (simp add: wire_ok_def fresh_wire_def consistent_empty)
qed

section \<open>Any requests, and requests that make no cycle\<close>

definition any_request :: "wire \<Rightarrow> request \<Rightarrow> bool" where
  "any_request w q \<longleftrightarrow> True"

lemma nest_host_step:
  assumes "wire_ok w"
  shows "host_step (w_host w) (subcompositor_get_subsurface client r res (surface_behind w surface) (surface_behind w parent) (w_host w))"
  using wire_ok_alive(3) [OF assms] by (simp add: host_step_def surface_step.get_subsurface)

interpretation any_nesting: nesting host_step any_request
  by unfold_locales (simp_all add: nest_host_step)

definition tree_request :: "wire \<Rightarrow> request \<Rightarrow> bool" where
  "tree_request w q \<longleftrightarrow> (case q of
       Subcompositor_request (Get_subsurface res surface parent) \<Rightarrow> unknotted (w_host w) (surface_behind w surface) (surface_behind w parent)
     | _ \<Rightarrow> True)"

definition tree_step :: "host \<Rightarrow> host \<Rightarrow> bool" where
  "tree_step h h' \<longleftrightarrow> host_step h h' \<and> (settled h \<longrightarrow> settled h')"

interpretation tree_nesting: nesting tree_step tree_request
  by unfold_locales (simp_all add: tree_step_def tree_request_def nest_host_step settled_nest wire_ok_alive(3))

lemma steady_settled:
  assumes "steady_moves tree_step h h'" "host_inv h" "settled h"
  shows "host_inv h' \<and> settled h'"
  using assms
proof (induction rule: rtranclp_induct)
  case (step y z)
  have "host_inv z" using step tree_nesting.steady_host_move host_move_inv by blast
  moreover have "settled z" using step.hyps(2) step
    by (cases rule: steady_move.cases) (auto simp: tree_step_def settled_outline [OF outline_access(1)] settled_outline [OF outline_access(11)])
  ultimately show ?case by blast
qed simp

lemma tree_run_settled:
  assumes "(wire_step tree_request)\<^sup>*\<^sup>* w w'" "wire_ok w" "settled (w_host w)"
  shows "wire_ok w' \<and> settled (w_host w')"
proof -
  have "refines tree_step w w'" using tree_nesting.wire_run_refines [OF assms(1,2)] .
  then show ?thesis using steady_settled [of "w_host w" "w_host w'"] assms(2,3) by (simp add: refines_def wire_ok_def)
qed

end
