(* ===== verification/Keyboard_Safety.thy ===== *)
theory Keyboard_Safety
  imports Role_View
begin

text \<open>
  The keyboard of the seat: its requests and Android's keys keep the invariant of the host where the surface that has the keyboard focus still exists, and a key
  follows a freed surface exactly where it does not. They leave the outline of the host as it is.
\<close>

section \<open>The focus\<close>

definition keyboard_live :: "host \<Rightarrow> bool" where
  "keyboard_live h \<longleftrightarrow> (\<forall>s. sv_keyboard_focus (h_server h) = Some s \<longrightarrow> h_surfaces h s \<noteq> None)"

lemma host_inv_keyed:
  assumes "host_inv h"
  shows "host_inv (fold (keyboard_entered w) rs h)" "host_inv (fold (keyboard_left w) rs h)" "host_inv (fold (keyboard_keyed key pressed t) rs h)"
  using assms by (induction rs arbitrary: h) (simp_all add: keyboard_entered_def keyboard_left_def keyboard_keyed_def Let_def)

lemma outline_keyed [outline_simps]:
  "outline (fold (keyboard_entered w) rs h) = outline h" "outline (fold (keyboard_left w) rs h) = outline h"
  "outline (fold (keyboard_keyed key pressed t) rs h) = outline h"
  by (induction rs arbitrary: h) (simp_all add: keyboard_entered_def keyboard_left_def keyboard_keyed_def Let_def outline_simps)

lemma outline_keyboard_server [outline_simps]:
  "outline (upd_server (sv_keyboard_focus_update f) h) = outline h" "outline (upd_server (sv_keyboard_update g) h) = outline h"
  "outline (upd_server (sv_keyboard_resources_update k) h) = outline h"
  by (simp_all add: outline_def upd_server_def)

lemma outline_keyboard_focus [outline_simps]: "outline (update_keyboard_focus h) = outline h"
  by (simp add: update_keyboard_focus_def send_keyboard_leave_def send_keyboard_enter_def Let_def outline_simps split: option.split)

lemma host_inv_keyboard_focus:
  assumes I: "host_inv h" and L: "keyboard_live h"
  shows "host_inv (update_keyboard_focus h)"
proof -
  obtain t where t: "find_pointer_target h = Some t" "\<And>s. t = Some s \<Longrightarrow> h_surfaces h s \<noteq> None"
    using find_target_live [OF sids_live [OF I]] by blast
  define h1 where "h1 = send_keyboard_leave (sv_keyboard_focus (h_server h)) h"
  have 1: "host_inv h1" "h_surfaces h1 = h_surfaces h"
    using I L by (auto simp: send_keep h1_def) (auto simp: send_keyboard_leave_def keyboard_live_def host_inv_keyed split: option.split)
  have "host_inv (upd_server (sv_keyboard_focus_update (\<lambda>_. t)) h1)" using 1(1) by (rule host_inv_server_upd) simp_all
  then have "host_inv (send_keyboard_enter t (upd_server (sv_keyboard_focus_update (\<lambda>_. t)) h1))"
    using t(2) 1(2) by (cases t) (auto simp: send_keyboard_enter_def host_inv_keyed)
  then show ?thesis using I t(1) by (simp add: update_keyboard_focus_def h1_def Let_def)
qed

text \<open>After the update the focus is a live surface.\<close>

lemma keyboard_live_focus:
  assumes "host_inv h"
  shows "keyboard_live (update_keyboard_focus h)"
proof -
  obtain t where "find_pointer_target h = Some t" "\<And>s. t = Some s \<Longrightarrow> h_surfaces h s \<noteq> None"
    using find_target_live [OF sids_live [OF assms]] by blast
  then show ?thesis by (simp add: keyboard_live_def keyboard.update_moves keyboard.update_surfaces)
qed

section \<open>Keys\<close>

lemma host_inv_key:
  assumes I: "host_inv h" and L: "keyboard_live h"
  shows "host_inv (trierarch_keyboard_set_key key pressed t h)"
proof -
  let ?h = "update_keyboard_focus h"
  have i: "host_inv ?h" "keyboard_live ?h" using host_inv_keyboard_focus [OF I L] keyboard_live_focus [OF I] by simp_all
  have "host_inv (upd_server (sv_keyboard_update (update_keyboard_modifiers key pressed)) ?h)" using i(1) by (rule host_inv_server_upd) simp_all
  then show ?thesis using I i by (auto simp: trierarch_keyboard_set_key_def Let_def keyboard_live_def host_inv_keyed split: option.split)
qed

text \<open>A key follows a freed surface exactly where the focus no longer exists.\<close>

theorem key_faults_exactly:
  assumes "host_inv h"
  shows "h_fault (trierarch_keyboard_set_key key pressed t h) \<longleftrightarrow> key \<noteq> 0 \<and> \<not> keyboard_live h"
proof (cases "key = 0")
  case True
  then show ?thesis using host_inv_no_fault [OF assms] by (simp add: trierarch_keyboard_set_key_def)
next
  case key: False
  show ?thesis
  proof (cases "keyboard_live h")
    case True
    then show ?thesis using host_inv_no_fault [OF host_inv_key [OF assms True]] by simp
  next
    case False
    then obtain s where "sv_keyboard_focus (h_server h) = Some s" "h_surfaces h s = None" by (auto simp: keyboard_live_def)
    then have "h_fault (trierarch_keyboard_set_key key pressed t h)" using key by (rule key_without_focus [OF assms])
    then show ?thesis using False key by simp
  qed
qed

lemma outline_key [outline_simps]: "outline (trierarch_keyboard_set_key key pressed t h) = outline h"
  by (simp add: trierarch_keyboard_set_key_def Let_def outline_simps split: option.split)

section \<open>The keyboard's objects\<close>

lemma keyboard_live_simps [simp]:
  "keyboard_live (emit e h) = keyboard_live h" "keyboard_live (new_resource c n r h) = keyboard_live h"
  "keyboard_live (upd_server (sv_keyboard_resources_update k) h) = keyboard_live h"
  by (simp_all add: keyboard_live_def new_resource_def)

lemma host_inv_keyboard_objects [simp]:
  "host_inv h \<Longrightarrow> host_inv (new_resource c n r h)" "host_inv h \<Longrightarrow> host_inv (upd_server (sv_keyboard_resources_update k) h)"
  by (simp_all add: host_inv_server_upd)

lemma host_inv_get_keyboard:
  assumes "host_inv h" "keyboard_live h"
  shows "host_inv (seat_get_keyboard client seat v res mem file h)"
  using assms by (cases res) (auto simp: seat_get_keyboard_def track_keyboard_resource_def send_keymap_def Let_def intro!: host_inv_keyboard_focus split: option.split)

lemma outline_get_keyboard [outline_simps]: "outline (seat_get_keyboard client seat v res mem file h) = outline h"
  by (simp add: seat_get_keyboard_def track_keyboard_resource_def send_keymap_def Let_def outline_simps split: option.split prod.split)

text \<open>What Android and the clients do to the keyboard and to touch devices, while the focus of the keyboard exists.\<close>

inductive keyboard_step :: "host \<Rightarrow> host \<Rightarrow> bool" where
  key: "keyboard_live h \<Longrightarrow> keyboard_step h (trierarch_keyboard_set_key key pressed t h)"
| get_keyboard: "keyboard_live h \<Longrightarrow> keyboard_step h (seat_get_keyboard client seat v res mem file h)"
| keyboard_gone: "keyboard_step h (keyboard_resource_destroy r h)"
| get_touch: "keyboard_step h (seat_get_touch client res h)"

lemma keyboard_step_keeps:
  assumes "keyboard_step h h'" "host_inv h"
  shows "host_inv h'" "outline h' = outline h"
  using assms by (induction rule: keyboard_step.induct)
    (auto simp: keyboard_resource_destroy_def seat_get_touch_def host_inv_key host_inv_get_keyboard outline_simps intro!: host_inv_server_upd split: option.split)

end
