(* ===== verification/Tvg_Properties.thy ===== *)
theory Tvg_Properties
  imports Tvg_Scanout
begin

text \<open>
  What the token service guarantees: every token shown in a frame is released once, by the frame after it;
  a token is found again under the descriptor the guest got, with the resource the vtest server
  registered for it; and stopping the service gives every buffer and descriptor back.
\<close>

section \<open>Releases\<close>

fun release_of :: "tvg_event \<Rightarrow> u32 option" where
  "release_of (Release r) = Some r"
| "release_of _ = None"

definition released :: "tvg \<Rightarrow> u32 list" where
  "released s = List.map_filter release_of (tv_log s)"

lemma map_filter_append: "List.map_filter f (xs @ ys) = List.map_filter f xs @ List.map_filter f ys"
  by (simp add: List.map_filter_def)

lemma released_tell: "released (tell es s) = released s @ List.map_filter release_of es"
  by (simp add: released_def tell_def map_filter_append)

lemma tell_frame [simp]:
  "tv_pending (tell es s) = tv_pending s" "tv_inflight (tell es s) = tv_inflight s" "tv_tokens (tell es s) = tv_tokens s"
  by (simp_all add: tell_def)

text \<open>The tokens that the descriptors of a list of commits show.\<close>

definition shown :: "tvg \<Rightarrow> (fd \<times> (u64 \<times> u64) option) list \<Rightarrow> u32 set" where
  "shown s xs = {tk_res_id t |t fd st. (fd, st) \<in> set xs \<and> tvg_scanout_lookup_fd fd st s = Some t} - {0}"

definition present_all :: "bool \<Rightarrow> (fd \<times> (u64 \<times> u64) option) list \<Rightarrow> tvg \<Rightarrow> tvg" where
  "present_all up xs s = fold (\<lambda>(fd, st). tvg_scanout_present_fd up True fd st) xs s"

lemma present_fd_frame:
  "tv_tokens (tvg_scanout_present_fd up mem fd st s) = tv_tokens s"
  "tv_inflight (tvg_scanout_present_fd up mem fd st s) = tv_inflight s"
  "released (tvg_scanout_present_fd up mem fd st s) = released s"
  by (simp_all add: tvg_scanout_present_fd_def remember_presented_def send_present_def released_tell
      List.map_filter_simps split: option.splits)
    (simp add: released_def tell_def map_filter_append List.map_filter_simps)

lemma present_fd_pending:
  assumes "distinct (tv_pending s)"
  shows "distinct (tv_pending (tvg_scanout_present_fd up True fd st s)) \<and>
    set (tv_pending (tvg_scanout_present_fd up True fd st s)) = set (tv_pending s) \<union> shown s [(fd, st)]"
  using assms
  by (auto simp: tvg_scanout_present_fd_def remember_presented_def send_present_def shown_def split: option.splits)

lemma shown_cong: "tv_tokens s' = tv_tokens s \<Longrightarrow> shown s' xs = shown s xs"
proof -
  assume "tv_tokens s' = tv_tokens s"
  then have "tvg_scanout_lookup_fd fd st s' = tvg_scanout_lookup_fd fd st s" for fd st
    by (simp only: tvg_scanout_lookup_fd_def)
  then show ?thesis by (simp only: shown_def)
qed

lemma present_all_spec:
  assumes "distinct (tv_pending s)"
  shows "distinct (tv_pending (present_all up xs s)) \<and>
    set (tv_pending (present_all up xs s)) = set (tv_pending s) \<union> shown s xs \<and>
    tv_inflight (present_all up xs s) = tv_inflight s \<and> released (present_all up xs s) = released s \<and>
    tv_tokens (present_all up xs s) = tv_tokens s"
  using assms
proof (induction xs arbitrary: s)
  case Nil
  then show ?case by (simp add: present_all_def shown_def)
next
  case (Cons x xs)
  obtain fd st where x: "x = (fd, st)" by fastforce
  let ?s = "tvg_scanout_present_fd up True fd st s"
  have p: "distinct (tv_pending ?s)" "set (tv_pending ?s) = set (tv_pending s) \<union> shown s [(fd, st)]"
    using present_fd_pending [OF Cons.prems] by blast+
  have "shown ?s xs = shown s xs" by (rule shown_cong) (simp add: present_fd_frame)
  moreover have "shown s (x # xs) = shown s [(fd, st)] \<union> shown s xs" by (auto simp: shown_def x)
  ultimately show ?case
    using Cons.IH [OF p(1)] p(2) by (auto simp: present_all_def x present_fd_frame)
qed

lemma move_to_inflight_rev: "move_to_inflight rs is = rev rs @ is"
  by (induction rs arbitrary: "is") simp_all

lemma release_fold:
  "released (fold (\<lambda>r. send_release True r) rs s) = released s @ rs \<and>
   tv_inflight (fold (\<lambda>r. send_release True r) rs s) = tv_inflight s \<and>
   tv_pending (fold (\<lambda>r. send_release True r) rs s) = tv_pending s"
  by (induction rs arbitrary: s) (simp_all add: send_release_def released_tell List.map_filter_simps)

text \<open>C10: the tokens committed before the end of a frame are released at the beginning of the next one, each exactly
  once; a token committed after the end of the frame is not released yet but waits for its own frame.\<close>

theorem tvg_released_once:
  assumes "tv_inflight s = []" "distinct (tv_pending s)"
  shows "\<exists>rs. released (tvg_scanout_begin_frame (\<lambda>_. True)
      (present_all up ys (tvg_scanout_end_frame (present_all up xs s)))) = released s @ rs \<and>
    distinct rs \<and> set rs = set (tv_pending s) \<union> shown s xs \<and>
    set (tv_pending (tvg_scanout_begin_frame (\<lambda>_. True)
      (present_all up ys (tvg_scanout_end_frame (present_all up xs s))))) = shown s ys"
proof -
  define s1 where "s1 = present_all up xs s"
  define s2 where "s2 = tvg_scanout_end_frame s1"
  define s3 where "s3 = present_all up ys s2"
  note 1 = present_all_spec [OF assms(2), of up xs, folded s1_def]
  have 2: "tv_pending s2 = []" "tv_inflight s2 = rev (tv_pending s1)" "released s2 = released s1" "tv_tokens s2 = tv_tokens s1"
    using 1 assms(1) by (simp_all add: s2_def tvg_scanout_end_frame_def move_to_inflight_rev released_def)
  have 3: "set (tv_pending s3) = shown s2 ys" "tv_inflight s3 = tv_inflight s2" "released s3 = released s2"
    using present_all_spec [of s2 up ys] 2(1) by (simp_all add: s3_def)
  have "shown s2 ys = shown s ys" using 1 2(4) by (intro shown_cong) simp
  moreover have "released (tvg_scanout_begin_frame (\<lambda>_. True) s3) = released s3 @ tv_inflight s3"
    "tv_pending (tvg_scanout_begin_frame (\<lambda>_. True) s3) = tv_pending s3"
    using release_fold [of "tv_inflight s3" "s3\<lparr>tv_inflight := []\<rparr>"]
    by (simp_all add: tvg_scanout_begin_frame_def) (simp add: released_def)
  ultimately have "released (tvg_scanout_begin_frame (\<lambda>_. True) s3) = released s @ rev (tv_pending s1) \<and>
      set (tv_pending (tvg_scanout_begin_frame (\<lambda>_. True) s3)) = shown s ys"
    using 1 2 3 by simp
  then show ?thesis
    using 1 unfolding s1_def [symmetric] s2_def [symmetric] s3_def [symmetric]
    by (intro exI [of _ "rev (tv_pending s1)"]) simp
qed

definition sample_token :: tvg_token where
  "sample_token = \<lparr>tk_fd = 9, tk_device = 1, tk_inode = 77, tk_width = 4, tk_height = 4, tk_format = 0x34325241,
     tk_stride = 16, tk_ahb = Some 100, tk_res_id = 5\<rparr>"

definition sample_tvg :: tvg where
  "sample_tvg = initial_tvg\<lparr>tv_tokens := [sample_token], tv_running := True, tv_listen_fd := 3, tv_socket_path := ''/s''\<rparr>"

theorem tvg_released_once_witness:
  "\<exists>rs. released (tvg_scanout_begin_frame (\<lambda>_. True) (present_all True []
      (tvg_scanout_end_frame (present_all True [(9, Some (1, 77)), (9, Some (1, 77))] sample_tvg)))) = rs \<and>
    distinct rs \<and> set rs = {5}"
proof -
  have "shown sample_tvg [(9, Some (1, 77)), (9, Some (1, 77))] = {5}"
    by (auto simp: shown_def sample_tvg_def tvg_scanout_lookup_fd_def sample_token_def)
  then show ?thesis
    using tvg_released_once [of sample_tvg True "[]" "[(9, Some (1, 77)), (9, Some (1, 77))]"]
    by (simp add: sample_tvg_def initial_tvg_def released_def List.map_filter_simps)
qed

section \<open>Tokens\<close>

text \<open>A token that was allocated is found under the device and inode of the descriptor the guest received, with the
  geometry of the request; and once the vtest server has registered a resource for that inode, with that resource.\<close>

theorem tvg_alloc_register_lookup:
  assumes "rq_magic q = TVG_MAGIC" "rq_type q = TVG_REQUEST_ALLOC" "alloc_token a q = (Inr t, es)" "0 \<le> fd"
    "rq_magic r = TVG_MAGIC" "rq_type r = TVG_REQUEST_REGISTER" "rq_inode r = tk_inode t"
  shows "tvg_scanout_lookup_fd fd (Some (tk_device t, tk_inode t))
      (handle_client a2 up2 c2 (Some r) (handle_client a up c (Some q) s)) = Some (t\<lparr>tk_res_id := rq_res_id r\<rparr>) \<and>
    tk_width t = rq_width q \<and> tk_height t = rq_height q \<and> tk_stride t = request_stride q"
proof -
  have "tk_width t = rq_width q \<and> tk_height t = rq_height q \<and> tk_stride t = request_stride q"
    using assms(3) by (auto simp: alloc_token_def Let_def split: if_splits option.splits prod.splits)
  moreover have "tv_tokens (handle_client a up c (Some q) s) = t # tv_tokens s"
    using assms(1-3) by (simp add: handle_client_def TVG_REQUEST_ALLOC_def TVG_REQUEST_REGISTER_def)
  moreover have "tv_tokens (send_present u x s') = tv_tokens s'" for u x s' by (simp add: send_present_def)
  then have "tv_tokens (handle_client a2 up2 c2 (Some r) s') = t\<lparr>tk_res_id := rq_res_id r\<rparr> # ts"
    if "tv_tokens s' = t # ts" for s' ts
    using assms(5-7) that by (simp add: handle_client_def register_token_def)
  ultimately show ?thesis using assms(4) by (simp add: tvg_scanout_lookup_fd_def)
qed

definition yes_answers :: tvg_answers where
  "yes_answers = \<lparr>ta_mem = True, ta_ahb = (\<lambda>_ _ _. Some 100), ta_ahb_cpu = (\<lambda>_ _ _. None), ta_memfd = Some 9,
     ta_truncate = (\<lambda>_. True), ta_stat = Some (1, 77), ta_errno = 0\<rparr>"

definition alloc_request :: "u32 \<Rightarrow> tvg_request" where
  "alloc_request width = \<lparr>rq_magic = TVG_MAGIC, rq_type = TVG_REQUEST_ALLOC, rq_width = width, rq_height = 4,
     rq_format = 0x34325241, rq_stride = 0, rq_usage = 0, rq_inode = 0, rq_res_id = 0\<rparr>"

theorem tvg_alloc_register_lookup_witness:
  "tvg_scanout_lookup_fd 9 (Some (1, 77))
     (handle_client yes_answers True 4 (Some ((alloc_request 4)\<lparr>rq_type := TVG_REQUEST_REGISTER, rq_inode := 77, rq_res_id := 5\<rparr>))
        (handle_client yes_answers True 4 (Some (alloc_request 4)) initial_tvg)) = Some sample_token"
  using tvg_alloc_register_lookup [of "alloc_request 4" yes_answers "sample_token\<lparr>tk_res_id := 0\<rparr>" "[]" 9
      "(alloc_request 4)\<lparr>rq_type := TVG_REQUEST_REGISTER, rq_inode := 77, rq_res_id := 5\<rparr>" yes_answers True 4 True 4 initial_tvg]
  by (simp add: alloc_request_def sample_token_def alloc_token_def yes_answers_def request_stride_def Let_def)

text \<open>Stopping a running service closes its socket and releases every buffer and closes every descriptor
  of its tokens, exactly once each and in order; afterwards no descriptor is a token any more.\<close>

theorem tvg_stop_releases_all:
  assumes "tv_running s" "0 \<le> tv_listen_fd s"
  shows "(\<exists>es. tv_log (tvg_scanout_stop s) = tv_log s @ Tvg_close (tv_listen_fd s) # es @ concat (map drop_token (tv_tokens s)) \<and>
      set es \<subseteq> {Unlink (tv_socket_path s)}) \<and>
    tv_tokens (tvg_scanout_stop s) = [] \<and> tvg_scanout_lookup_fd fd st (tvg_scanout_stop s) = None \<and>
    tv_listen_fd (tvg_scanout_stop s) = -1 \<and> \<not> tv_running (tvg_scanout_stop s)"
  using assms
  by (auto simp: tvg_scanout_stop_def tell_def Let_def tvg_scanout_lookup_fd_def split: option.splits)

theorem tvg_stop_releases_all_witness:
  "tvg_scanout_lookup_fd 9 (Some (1, 77)) (tvg_scanout_stop sample_tvg) = None"
  using tvg_stop_releases_all [of sample_tvg 9 "Some (1, 77)"] by (simp add: sample_tvg_def)

text \<open>Without a stride in the request, the stride of the token is four times the width in 32-bit arithmetic: a
  width of \<open>2\<^sup>30\<close> or more gives a token whose rows overlap.\<close>

lemma tvg_stride_wraps:
  assumes "rq_stride q = 0"
  shows "uint (request_stride q) = (uint (rq_width q) * 4) mod 2 ^ 32 \<and>
    (2 ^ 30 \<le> uint (rq_width q) \<longrightarrow> uint (request_stride q) < uint (rq_width q) * 4)"
proof -
  have "uint (request_stride q) = (uint (rq_width q) * 4) mod 2 ^ 32"
    using assms by (simp add: request_stride_def uint_word_ariths)
  moreover have "(uint (rq_width q) * 4) mod 2 ^ 32 < 2 ^ 32" by simp
  ultimately show ?thesis by auto
qed

lemma tvg_stride_wraps_example: "request_stride (alloc_request 0x40000000) = 0"
  using tvg_stride_wraps [of "alloc_request 0x40000000"] by (simp add: alloc_request_def request_stride_def)

end
