(* ===== verification/Tvg_Service.thy ===== *)
theory Tvg_Service
  imports Tvg_Properties
begin

text \<open>
  The thread of the token service (\<^verbatim>\<open>server_main\<close> of \<^verbatim>\<open>tvg_scanout.c\<close>) beside the renderer, from the start of the service to its end: every descriptor and buffer the
  service has got is given back exactly once. The two threads share the lists under their locks, so that a run is a sequence of operations of either.
\<close>

section \<open>The thread\<close>

text \<open>What a turn of the loop finds: no client within the timeout, a client that is gone again, or a client with its request and what the system answers while it is served.\<close>

datatype service_turn = Poll_idle | Accept_failed | Accepted fd tvg_answers bool "tvg_request option"

definition server_turn :: "service_turn \<Rightarrow> tvg \<Rightarrow> tvg" where
  "server_turn t s = (case t of
       Poll_idle \<Rightarrow> s
     | Accept_failed \<Rightarrow> s
     | Accepted client a up request \<Rightarrow> if client < 0 then s else tell [Tvg_close client] (handle_client a up client request s))"

text \<open>The other end: the frames of the renderer and the commits of clients.\<close>

datatype service_op = Turn service_turn | Begin_frame "u32 \<Rightarrow> bool" | End_frame | Release_presented "u32 \<Rightarrow> bool" | Present_fd bool bool fd "(u64 \<times> u64) option"

fun service_act :: "service_op \<Rightarrow> tvg \<Rightarrow> tvg" where
  "service_act (Turn t) s = (if tv_running s then server_turn t s else s)"
| "service_act (Begin_frame up) s = tvg_scanout_begin_frame up s"
| "service_act End_frame s = tvg_scanout_end_frame s"
| "service_act (Release_presented up) s = tvg_scanout_release_presented up s"
| "service_act (Present_fd up mem fd stat) s = tvg_scanout_present_fd up mem fd stat s"

definition server_main :: "service_turn list \<Rightarrow> tvg \<Rightarrow> tvg" where
  "server_main turns s = fold (\<lambda>t. service_act (Turn t)) turns s"

text \<open>
  \<^verbatim>\<open>send_reply\<close>: \<^verbatim>\<open>sendmsg\<close> is called again while it is interrupted; the reply has 24 bytes. The list is what the calls return, and the result says whether the whole
  reply went out.
\<close>

datatype send_result = Sent nat | Send_interrupted | Send_failed

fun send_reply :: "send_result list \<Rightarrow> bool option" where
  "send_reply [] = None"
| "send_reply (Send_interrupted # rs) = send_reply rs"
| "send_reply (Sent n # rs) = Some (n = 24)"
| "send_reply (Send_failed # rs) = Some False"

section \<open>What the service holds\<close>

datatype resource = Descriptor fd | Buffer addr

text \<open>What a turn gets from the system.\<close>

definition alloc_gets :: "tvg_answers \<Rightarrow> tvg_request \<Rightarrow> resource list" where
  "alloc_gets a q =
     (let format = ahb_format_for_gbm (rq_format q);
          ahb = (case ta_ahb a (rq_width q) (rq_height q) format of Some b \<Rightarrow> Some b | None \<Rightarrow> ta_ahb_cpu a (rq_width q) (rq_height q) format)
      in if \<not> ta_mem a then []
         else case ahb of None \<Rightarrow> [] | Some b \<Rightarrow> Buffer b # (case ta_memfd a of None \<Rightarrow> [] | Some fd \<Rightarrow> [Descriptor fd]))"

fun turn_gets :: "service_turn \<Rightarrow> resource list" where
  "turn_gets (Accepted client a up request) =
     (if client < 0 then []
      else Descriptor client # (case request of None \<Rightarrow> [] | Some q \<Rightarrow>
        if rq_magic q = TVG_MAGIC \<and> rq_type q = TVG_REQUEST_ALLOC then alloc_gets a q else []))"
| "turn_gets _ = []"

fun op_gets :: "service_op \<Rightarrow> resource list" where
  "op_gets (Turn t) = turn_gets t"
| "op_gets _ = []"

text \<open>What the log has given back.\<close>

fun given_back :: "tvg_event \<Rightarrow> resource option" where
  "given_back (Ahb_release b) = Some (Buffer b)"
| "given_back (Tvg_close fd) = Some (Descriptor fd)"
| "given_back _ = None"

definition freed :: "tvg \<Rightarrow> resource list" where
  "freed s = List.map_filter given_back (tv_log s)"

fun token_resources :: "tvg_token \<Rightarrow> resource list" where
  "token_resources t = (case tk_ahb t of None \<Rightarrow> [] | Some b \<Rightarrow> [Buffer b]) @ [Descriptor (tk_fd t)]"

definition held :: "tvg \<Rightarrow> resource multiset" where
  "held s = mset (concat (map token_resources (tv_tokens s)))"

definition balance_of :: "tvg \<Rightarrow> resource multiset" where
  "balance_of s = mset (freed s) + held s"

lemma freed_tell: "freed (tell es s) = freed s @ List.map_filter given_back es"
  by (simp add: freed_def tell_def map_filter_append)

lemma held_tell: "held (tell es s) = held s"
  by (simp add: held_def tell_def)

lemma balance_tell: "balance_of (tell es s) = balance_of s + mset (List.map_filter given_back es)"
  by (simp add: balance_of_def freed_tell held_tell)

lemma balance_present [simp]: "balance_of (send_present up t s) = balance_of s"
  by (simp add: send_present_def balance_tell List.map_filter_simps)

lemma register_in_resources:
  "register_in inode r ts = (p, ts') \<Longrightarrow> map token_resources ts' = map token_resources ts"
  by (induction inode r ts arbitrary: p ts' rule: register_in.induct) (auto split: if_splits prod.splits)

lemma balance_register: "balance_of (snd (register_token up inode r s)) = balance_of s"
proof -
  obtain p ts where e: "register_in inode r (tv_tokens s) = (p, ts)" by fastforce
  have "balance_of (s\<lparr>tv_tokens := ts\<rparr>) = balance_of s"
    by (simp add: balance_of_def freed_def held_def register_in_resources [OF e])
  then show ?thesis by (cases p) (simp_all add: register_token_def e)
qed

text \<open>An allocation gives back what it got, or keeps it as the token.\<close>

lemma alloc_balance:
  "mset (alloc_gets a q) = mset (List.map_filter given_back (snd (alloc_token a q))) +
     (case fst (alloc_token a q) of Inl _ \<Rightarrow> {#} | Inr t \<Rightarrow> mset (token_resources t))"
  by (simp add: alloc_gets_def alloc_token_def Let_def List.map_filter_simps split: option.splits)

lemma balance_new_token: "balance_of (s\<lparr>tv_tokens := t # tv_tokens s\<rparr>) = balance_of s + mset (token_resources t)"
  by (simp add: balance_of_def freed_def held_def)

lemma balance_handle:
  "balance_of (handle_client a up client request s) = balance_of s +
     mset (case request of None \<Rightarrow> [] | Some q \<Rightarrow> if rq_magic q = TVG_MAGIC \<and> rq_type q = TVG_REQUEST_ALLOC then alloc_gets a q else [])"
proof (cases request)
  case None
  then show ?thesis by (simp add: handle_client_def)
next
  case (Some q)
  obtain status s1 where r: "register_token up (rq_inode q) (rq_res_id q) s = (status, s1)" by fastforce
  then have s1: "balance_of s1 = balance_of s" using balance_register [of up "rq_inode q" "rq_res_id q" s] by simp
  obtain x es where t: "alloc_token a q = (x, es)" by fastforce
  have "TVG_REQUEST_REGISTER \<noteq> TVG_REQUEST_ALLOC" by (simp add: TVG_REQUEST_REGISTER_def TVG_REQUEST_ALLOC_def)
  then show ?thesis using Some alloc_balance [of a q] s1
    by (cases x) (auto simp: handle_client_def r t balance_tell balance_new_token List.map_filter_simps map_filter_append)
qed

lemma balance_turn: "balance_of (server_turn t s) = balance_of s + mset (turn_gets t)"
  by (cases t) (simp_all add: server_turn_def balance_tell balance_handle List.map_filter_simps)

lemma balance_release: "balance_of (fold (\<lambda>r. send_release (up r) r) rs s) = balance_of s"
  by (induction rs arbitrary: s) (simp_all add: send_release_def balance_tell List.map_filter_simps)

lemma balance_frames:
  "balance_of (tvg_scanout_begin_frame up s) = balance_of s" "balance_of (tvg_scanout_end_frame s) = balance_of s"
  "balance_of (tvg_scanout_present_fd up2 mem fd stat s) = balance_of s"
proof -
  have k: "balance_of (s\<lparr>tv_inflight := xs\<rparr>) = balance_of s" "balance_of (s\<lparr>tv_pending := xs\<rparr>) = balance_of s" for s xs
    by (simp_all add: balance_of_def freed_def held_def)
  show "balance_of (tvg_scanout_begin_frame up s) = balance_of s" by (simp add: tvg_scanout_begin_frame_def balance_release k)
  show "balance_of (tvg_scanout_end_frame s) = balance_of s" by (simp add: tvg_scanout_end_frame_def balance_of_def freed_def held_def)
  show "balance_of (tvg_scanout_present_fd up2 mem fd stat s) = balance_of s"
    by (simp add: tvg_scanout_present_fd_def remember_presented_def k split: option.split)
qed

section \<open>A whole life\<close>

lemma running_kept [simp]:
  "tv_running (tell es s) = tv_running s" "tv_running (send_present up t s) = tv_running s" "tv_running (snd (register_token up inode r s)) = tv_running s"
  "tv_running (fold (\<lambda>r. send_release (ups r) r) rs s) = tv_running s"
proof -
  show t: "tv_running (tell es s) = tv_running s" for es s by (simp add: tell_def)
  show p: "tv_running (send_present up t s) = tv_running s" for t s by (simp add: send_present_def t)
  show "tv_running (snd (register_token up inode r s)) = tv_running s"
    by (auto simp: register_token_def p split: option.split prod.split)
  show "tv_running (fold (\<lambda>r. send_release (ups r) r) rs s) = tv_running s"
    by (induction rs arbitrary: s) (simp_all add: send_release_def t)
qed

lemma running_act: "tv_running (service_act x s) = tv_running s"
proof -
  have h: "tv_running (handle_client a up client request s) = tv_running s" for a up client request
  proof -
    have "tv_running s1 = tv_running s" if "register_token up i r s = (st, s1)" for i r st s1
      using running_kept(3) [of up i r s] that by simp
    then show ?thesis by (auto simp: handle_client_def split: option.split prod.split sum.split)
  qed
  have t: "tv_running (server_turn t s) = tv_running s" for t by (cases t) (simp_all add: server_turn_def h)
  show ?thesis
    by (cases x) (simp_all add: t tvg_scanout_begin_frame_def tvg_scanout_release_presented_def tvg_scanout_end_frame_def tvg_scanout_present_fd_def remember_presented_def
        split: option.split)
qed

lemma balance_acts:
  assumes "tv_running s"
  shows "balance_of (fold service_act ops s) = balance_of s + mset (concat (map op_gets ops)) \<and> tv_running (fold service_act ops s)"
  using assms
proof (induction ops arbitrary: s)
  case (Cons x ops)
  have "balance_of (service_act x s) = balance_of s + mset (op_gets x)"
    using Cons.prems by (cases x) (simp_all add: balance_turn balance_frames tvg_scanout_release_presented_def)
  then show ?case using Cons by (simp add: running_act)
qed simp

lemma listen_kept: "tv_listen_fd (service_act x s) = tv_listen_fd s"
proof -
  have t: "tv_listen_fd (tell es s) = tv_listen_fd s" for es s by (simp add: tell_def)
  have p: "tv_listen_fd (send_present up t s) = tv_listen_fd s" for up t s by (simp add: send_present_def t)
  have g: "tv_listen_fd s1 = tv_listen_fd s" if "register_token up i r s = (st, s1)" for up i r s st s1
    using that by (auto simp: register_token_def p split: option.splits prod.splits dest!: sym [of _ s1])
  have f: "tv_listen_fd (fold (\<lambda>r. send_release (ups r) r) rs s) = tv_listen_fd s" for ups rs s
    by (induction rs arbitrary: s) (simp_all add: send_release_def t)
  have h: "tv_listen_fd (handle_client a up client request s) = tv_listen_fd s" for a up client request
    by (auto simp: handle_client_def t split: option.split prod.split sum.split dest: g)
  have u: "tv_listen_fd (server_turn t s) = tv_listen_fd s" for t by (cases t) (simp_all add: server_turn_def h t)
  show ?thesis
    by (cases x) (simp_all add: u p f tvg_scanout_begin_frame_def tvg_scanout_release_presented_def tvg_scanout_end_frame_def tvg_scanout_present_fd_def
        remember_presented_def split: option.split)
qed

lemma drop_token_resources: "List.map_filter given_back (drop_token t) = token_resources t"
  by (simp add: drop_token_def List.map_filter_simps split: option.split)

lemma drop_tokens_resources: "List.map_filter given_back (concat (map drop_token ts)) = concat (map token_resources ts)"
  by (induction ts) (simp_all add: map_filter_append drop_token_resources List.map_filter_simps del: token_resources.simps)

lemma stop_frees:
  assumes "tv_running s" "0 \<le> tv_listen_fd s"
  shows "mset (freed (tvg_scanout_stop s)) = balance_of s + {#Descriptor (tv_listen_fd s)#} \<and> tv_tokens (tvg_scanout_stop s) = []"
  using assms
  by (simp add: tvg_scanout_stop_def Let_def freed_def tell_def map_filter_append drop_tokens_resources balance_of_def held_def List.map_filter_simps)

text \<open>C11: over the whole life of the token service, whatever clients come, whatever they ask for, and however the frames of the renderer fall between, every connection, memory file and
  hardware buffer the service has got is given back exactly once, and nothing else is; until the service is stopped the tokens keep exactly their memory files and
  buffers. A service that could not be started has closed its socket.\<close>

theorem tvg_service_gives_back:
  assumes "tvg_scanout_start (Some path) (Some sock) bind_ok thread_ok errno initial_tvg = (status, s)" "length path < SUN_PATH" "0 \<le> sock"
  shows "if bind_ok \<and> thread_ok
    then status = 0 \<and> mset (freed (fold service_act ops s)) + held (fold service_act ops s) = mset (concat (map op_gets ops)) \<and>
      mset (freed (tvg_scanout_stop (fold service_act ops s))) = mset (concat (map op_gets ops)) + {#Descriptor sock#}
    else freed s = [Descriptor sock] \<and> tvg_scanout_stop s = s"
proof (cases "bind_ok \<and> thread_ok")
  case True
  then have s: "tv_running s" "tv_listen_fd s = sock" "balance_of s = {#}" "status = 0"
    using assms by (auto simp: tvg_scanout_start_def balance_of_def freed_def held_def initial_tvg_def tell_def List.map_filter_simps)
  let ?t = "fold service_act ops s"
  have b: "balance_of ?t = mset (concat (map op_gets ops))" "tv_running ?t" using balance_acts [OF s(1), of ops] s(3) by auto
  have "tv_listen_fd (fold service_act ops s) = tv_listen_fd s" for s by (induction ops arbitrary: s) (simp_all add: listen_kept)
  then have "0 \<le> tv_listen_fd ?t" "tv_listen_fd ?t = sock" using s(2) assms(3) by auto
  then show ?thesis using stop_frees [OF b(2)] b(1) True s(4) by (simp add: balance_of_def)
next
  case False
  then have "freed s = [Descriptor sock] \<and> \<not> tv_running s" using assms(1,2)
    by (cases bind_ok) (auto simp: tvg_scanout_start_def freed_def initial_tvg_def tell_def List.map_filter_simps)
  then show ?thesis using False by (simp only: if_False tvg_scanout_stop_def) simp
qed

theorem tvg_service_gives_back_witness:
  "\<exists>s. tvg_scanout_start (Some ''/s'') (Some 3) True True 0 initial_tvg = (0, s) \<and>
     mset (freed (tvg_scanout_stop (service_act (Turn (Accepted 4 yes_answers True (Some (alloc_request 8)))) s))) =
       {#Descriptor 3, Descriptor 4, Buffer 100, Descriptor 9#}"
proof -
  obtain s where s: "tvg_scanout_start (Some ''/s'') (Some 3) True True 0 initial_tvg = (0, s)"
    by (simp add: tvg_scanout_start_def SUN_PATH_def)
  have "turn_gets (Accepted 4 yes_answers True (Some (alloc_request 8))) = [Descriptor 4, Buffer 100, Descriptor 9]"
    by (simp add: alloc_gets_def yes_answers_def alloc_request_def)
  then show ?thesis
    using tvg_service_gives_back [OF s, of "[Turn (Accepted 4 yes_answers True (Some (alloc_request 8)))]"] s
    by (simp add: SUN_PATH_def del: turn_gets.simps service_act.simps)
qed

end
