(* ===== verification/Linked_Queue.thy ===== *)
theory Linked_Queue
  imports Prelude "HOL-Library.Monad_Syntax"
begin

text \<open>
  The singly linked queues of the helper programs: a head and a tail pointer and heap cells with a
  next pointer (\<^verbatim>\<open>struct message\<close> of the input-method bridge, \<^verbatim>\<open>struct host_command\<close> of the JNI
  bridge). An operation that follows a pointer to a cell that is not allocated has the value
  \<open>None\<close>. \<open>lq_rep\<close> relates a queue to the list of its values; the locale \<open>fifo\<close> is the
  interface the two programs rely on.
\<close>

section \<open>Cells and queues\<close>

record 'v cell =
  c_value :: 'v
  c_next :: "addr option"

record 'v lqueue =
  lq_head :: "addr option"
  lq_tail :: "addr option"
  lq_cells :: "addr \<rightharpoonup> 'v cell"

definition lq_empty :: "'v lqueue" where
  "lq_empty = \<lparr>lq_head = None, lq_tail = None, lq_cells = Map.empty\<rparr>"

text \<open>
  \<^verbatim>\<open>if (tail) tail->next = message; else head = message; tail = message;\<close> for a message that
  has just been allocated at \<open>a\<close>.
\<close>

definition lq_append :: "addr \<Rightarrow> 'v \<Rightarrow> 'v lqueue \<Rightarrow> 'v lqueue option" where
  "lq_append a v q =
     (let q1 = q\<lparr>lq_cells := (lq_cells q)(a \<mapsto> \<lparr>c_value = v, c_next = None\<rparr>)\<rparr>
      in case lq_tail q1 of
           None \<Rightarrow> Some (q1\<lparr>lq_head := Some a, lq_tail := Some a\<rparr>)
         | Some t \<Rightarrow>
             do { c \<leftarrow> lq_cells q1 t;
                  Some (q1\<lparr>lq_cells := (lq_cells q1)(t \<mapsto> c\<lparr>c_next := Some a\<rparr>), lq_tail := Some a\<rparr>) })"

text \<open>
  \<^verbatim>\<open>message = head; head = message->next; if (!head) tail = NULL;\<close> followed by
  \<^verbatim>\<open>free(message)\<close>.
\<close>

definition lq_take :: "'v lqueue \<Rightarrow> ('v \<times> 'v lqueue) option" where
  "lq_take q =
     do { a \<leftarrow> lq_head q;
          c \<leftarrow> lq_cells q a;
          Some (c_value c, q\<lparr>lq_head := c_next c,
            lq_tail := (if c_next c = None then None else lq_tail q),
            lq_cells := (lq_cells q)(a := None)\<rparr>) }"

text \<open>\<^verbatim>\<open>while (head) { message = head; head = message->next; free(message); }\<close>\<close>

partial_function (option) lq_free :: "'v lqueue \<Rightarrow> 'v lqueue option" where
  "lq_free q = (case lq_head q of None \<Rightarrow> Some q | Some a \<Rightarrow>
     do { c \<leftarrow> lq_cells q a;
          lq_free (q\<lparr>lq_head := c_next c, lq_cells := (lq_cells q)(a := None)\<rparr>) })"

section \<open>The list a queue represents\<close>

fun lq_path :: "(addr \<rightharpoonup> 'v cell) \<Rightarrow> addr option \<Rightarrow> addr list \<Rightarrow> 'v list \<Rightarrow> bool" where
  "lq_path m p [] [] \<longleftrightarrow> p = None"
| "lq_path m p (a # as) (v # vs) \<longleftrightarrow> p = Some a \<and>
     (case m a of None \<Rightarrow> False | Some c \<Rightarrow> c_value c = v \<and> lq_path m (c_next c) as vs)"
| "lq_path m p _ _ \<longleftrightarrow> False"

definition lq_cells_ok :: "'v lqueue \<Rightarrow> addr list \<Rightarrow> 'v list \<Rightarrow> bool" where
  "lq_cells_ok q as vs \<longleftrightarrow> distinct as \<and> lq_path (lq_cells q) (lq_head q) as vs \<and>
     dom (lq_cells q) = set as"

definition lq_rep :: "'v lqueue \<Rightarrow> 'v list \<Rightarrow> bool" where
  "lq_rep q vs \<longleftrightarrow> (\<exists>as. lq_cells_ok q as vs \<and> lq_tail q = (if as = [] then None else Some (last as)))"

text \<open>Only the cells on the path matter.\<close>

lemma lq_path_cong: "(\<And>a. a \<in> set as \<Longrightarrow> m a = m' a) \<Longrightarrow> lq_path m p as vs = lq_path m' p as vs"
  by (induction m p as vs rule: lq_path.induct) (auto split: option.splits)

lemma lq_path_Nil [simp]: "lq_path m p [] vs \<longleftrightarrow> vs = [] \<and> p = None" "lq_path m p as [] \<longleftrightarrow> as = [] \<and> p = None"
  by (cases vs; simp) (cases as; simp)

lemma lq_path_Cons:
  "lq_path m p (a # as) vs \<longleftrightarrow> p = Some a \<and> (\<exists>c ws. m a = Some c \<and> vs = c_value c # ws \<and>
     lq_path m (c_next c) as ws)"
  by (cases vs) (auto split: option.splits)

lemma lq_path_upd [simp]: "a \<notin> set as \<Longrightarrow> lq_path (m(a := c)) p as vs = lq_path m p as vs"
  by (rule lq_path_cong) auto

text \<open>A new last cell: the next pointer of the old one is its only change.\<close>

lemma lq_path_snoc:
  assumes "lq_path m p as vs" "distinct as" "as \<noteq> []" "a \<notin> set as" "m (last as) = Some c"
  shows "lq_path (m(a \<mapsto> \<lparr>c_value = v, c_next = None\<rparr>, last as \<mapsto> c\<lparr>c_next := Some a\<rparr>)) p (as @ [a]) (vs @ [v])"
  using assms
proof (induction as arbitrary: p vs)
  case (Cons b as)
  from Cons.prems(1) obtain d ws where d: "p = Some b" "m b = Some d" "vs = c_value d # ws"
    "lq_path m (c_next d) as ws"
    by (auto simp: lq_path_Cons)
  show ?case
  proof (cases "as = []")
    case True
    with d Cons.prems show ?thesis by (auto simp: lq_path_Cons)
  next
    case False
    have "b \<noteq> last as" using Cons.prems(2) False by auto
    moreover have "b \<noteq> a" using Cons.prems(4) by auto
    ultimately show ?thesis
      using Cons.IH [OF d(4)] Cons.prems d False by (simp add: lq_path_Cons)
  qed
qed simp

section \<open>The operations on the list\<close>

lemma lq_empty_rep: "lq_rep lq_empty []"
  by (auto simp: lq_rep_def lq_cells_ok_def lq_empty_def)

lemma lq_append_rep:
  assumes "lq_rep q vs" "lq_cells q a = None"
  shows "\<exists>q'. lq_append a v q = Some q' \<and> lq_rep q' (vs @ [v])"
proof -
  obtain as where ok: "lq_cells_ok q as vs" "lq_tail q = (if as = [] then None else Some (last as))"
    using assms(1) by (auto simp: lq_rep_def)
  then have p: "distinct as" "lq_path (lq_cells q) (lq_head q) as vs" "dom (lq_cells q) = set as"
    by (simp_all add: lq_cells_ok_def)
  have a: "a \<notin> set as" using p(3) assms(2) by blast
  show ?thesis
  proof (cases "as = []")
    case True
    with ok p show ?thesis
      by (auto simp: lq_append_def lq_rep_def lq_cells_ok_def intro!: exI [of _ "[a]"])
  next
    case False
    then obtain c where c: "lq_cells q (last as) = Some c" using p(3) by fastforce
    have "lq_path ((lq_cells q)(a \<mapsto> \<lparr>c_value = v, c_next = None\<rparr>, last as \<mapsto> c\<lparr>c_next := Some a\<rparr>))
        (lq_head q) (as @ [a]) (vs @ [v])"
      by (rule lq_path_snoc [OF p(2,1) False a c])
    moreover have "last as \<noteq> a" using a False by auto
    ultimately show ?thesis
      using ok False p a c by (auto simp: lq_append_def lq_rep_def lq_cells_ok_def intro!: exI [of _ "as @ [a]"])
  qed
qed

lemma lq_take_rep:
  assumes "lq_rep q (v # vs)"
  shows "\<exists>q'. lq_take q = Some (v, q') \<and> lq_rep q' vs"
proof -
  obtain as where ok: "lq_cells_ok q as (v # vs)" "lq_tail q = (if as = [] then None else Some (last as))"
    using assms by (auto simp: lq_rep_def)
  then obtain a as' where as: "as = a # as'" by (cases as) (auto simp: lq_cells_ok_def)
  with ok obtain c where c: "lq_head q = Some a" "lq_cells q a = Some c" "c_value c = v"
    "lq_path (lq_cells q) (c_next c) as' vs" "distinct (a # as')" "dom (lq_cells q) = set (a # as')"
    by (auto simp: lq_cells_ok_def lq_path_Cons)
  have "c_next c = None \<longleftrightarrow> as' = []" using c(4) by (cases as') (auto simp: lq_path_Cons)
  with c ok as show ?thesis
    by (auto simp: lq_take_def lq_rep_def lq_cells_ok_def intro!: exI [of _ as'])
qed

lemma lq_head_rep: "lq_rep q vs \<Longrightarrow> lq_head q = None \<longleftrightarrow> vs = []"
  unfolding lq_rep_def lq_cells_ok_def by (elim exE, rename_tac as, case_tac as) (auto simp: lq_path_Cons)

lemma lq_free_path:
  assumes "lq_cells_ok q as vs"
  shows "\<exists>q'. lq_free q = Some q' \<and> lq_head q' = None \<and> lq_cells q' = Map.empty"
  using assms
proof (induction as arbitrary: q vs)
  case Nil
  then show ?case by (auto simp: lq_cells_ok_def lq_free.simps)
next
  case (Cons a as)
  then obtain c ws where c: "lq_head q = Some a" "lq_cells q a = Some c" "vs = c_value c # ws"
    "lq_path (lq_cells q) (c_next c) as ws" "distinct (a # as)" "dom (lq_cells q) = set (a # as)"
    by (auto simp: lq_cells_ok_def lq_path_Cons)
  have "lq_cells_ok (q\<lparr>lq_head := c_next c, lq_cells := (lq_cells q)(a := None)\<rparr>) as ws"
    using c by (auto simp: lq_cells_ok_def)
  from Cons.IH [OF this] c(1,2) show ?case by (subst lq_free.simps) simp
qed

lemma lq_free_rep:
  assumes "lq_rep q vs"
  shows "\<exists>q'. lq_free q = Some q' \<and> lq_rep (q'\<lparr>lq_tail := None\<rparr>) []"
proof -
  obtain as where "lq_cells_ok q as vs" using assms by (auto simp: lq_rep_def)
  from lq_free_path [OF this] show ?thesis by (auto simp: lq_rep_def lq_cells_ok_def)
qed

section \<open>The interface\<close>

text \<open>Appending and taking many values, for any queue operations.\<close>

fun append_all :: "('a \<Rightarrow> 'v \<Rightarrow> 'q \<Rightarrow> 'q option) \<Rightarrow> ('a \<times> 'v) list \<Rightarrow> 'q \<Rightarrow> 'q option" where
  "append_all app [] q = Some q"
| "append_all app ((a, v) # xs) q = do { q1 \<leftarrow> app a v q; append_all app xs q1 }"

fun take_n :: "('q \<Rightarrow> ('v \<times> 'q) option) \<Rightarrow> nat \<Rightarrow> 'q \<Rightarrow> ('v list \<times> 'q) option" where
  "take_n tk 0 q = Some ([], q)"
| "take_n tk (Suc n) q = do { (v, q1) \<leftarrow> tk q; (vs, q2) \<leftarrow> take_n tk n q1; Some (v # vs, q2) }"

locale fifo =
  fixes emp :: 'q and app :: "'a \<Rightarrow> 'v \<Rightarrow> 'q \<Rightarrow> 'q option" and tk :: "'q \<Rightarrow> ('v \<times> 'q) option"
    and rep :: "'q \<Rightarrow> 'v list \<Rightarrow> bool" and unused_at :: "'q \<Rightarrow> 'a \<Rightarrow> bool"
  assumes emp_rep: "rep emp []"
    and app_rep: "rep q vs \<Longrightarrow> unused_at q a \<Longrightarrow> \<exists>q'. app a v q = Some q' \<and> rep q' (vs @ [v])"
    and tk_rep: "rep q (v # vs) \<Longrightarrow> \<exists>q'. tk q = Some (v, q') \<and> rep q' vs"
    and app_unused: "rep q vs \<Longrightarrow> unused_at q a \<Longrightarrow> unused_at q b \<Longrightarrow> a \<noteq> b \<Longrightarrow> app a v q = Some q'
      \<Longrightarrow> unused_at q' b"
begin

lemma append_all_rep:
  assumes "rep q vs" "distinct (map fst xs)" "\<And>a. a \<in> set (map fst xs) \<Longrightarrow> unused_at q a"
  shows "\<exists>q'. append_all app xs q = Some q' \<and> rep q' (vs @ map snd xs)"
  using assms
proof (induction xs arbitrary: q vs)
  case (Cons x xs)
  obtain a v where x: "x = (a, v)" by (cases x)
  obtain q1 where q1: "app a v q = Some q1" "rep q1 (vs @ [v])"
    using app_rep [OF Cons.prems(1), of a v] Cons.prems(3) x by auto
  have "unused_at q1 b" if "b \<in> set (map fst xs)" for b
    using app_unused [OF Cons.prems(1) _ _ _ q1(1), of b] Cons.prems(2,3) that x by auto
  from Cons.IH [OF q1(2) _ this] Cons.prems(2) show ?case using q1(1) by (auto simp: x)
qed simp

lemma take_n_rep:
  "rep q (vs @ ws) \<Longrightarrow> \<exists>q'. take_n tk (length vs) q = Some (vs, q') \<and> rep q' ws"
proof (induction vs arbitrary: q)
  case (Cons v vs)
  obtain q1 where "tk q = Some (v, q1)" "rep q1 (vs @ ws)" using tk_rep Cons.prems by fastforce
  with Cons.IH [of q1] show ?case by auto
qed simp

text \<open>First in, first out: the values come out in the order they went in.\<close>

lemma fifo_order:
  assumes "distinct (map fst xs)" "\<And>a. a \<in> set (map fst xs) \<Longrightarrow> unused_at emp a"
  shows "\<exists>q q'. append_all app xs emp = Some q \<and> take_n tk (length xs) q = Some (map snd xs, q') \<and> rep q' []"
  using append_all_rep [OF emp_rep assms] take_n_rep [of _ "map snd xs" "[]"] by fastforce

end

interpretation lq: fifo lq_empty lq_append lq_take lq_rep "\<lambda>q a. lq_cells q a = None"
proof
  fix q q' :: "'v lqueue" and vs a b v
  assume "lq_rep q vs" "lq_cells q a = None" "lq_cells q b = None" "a \<noteq> b" "lq_append a v q = Some q'"
  then show "lq_cells q' b = None"
    by (auto simp: lq_append_def Let_def bind_eq_Some_conv split: option.splits if_splits)
qed (simp_all add: lq_empty_rep lq_append_rep lq_take_rep)

end
