(* ===== verification/Jni_Bridge.thy ===== *)
theory Jni_Bridge
  imports Seat_Safety Linked_Queue
begin

text \<open>
  The bridge between the Java application and the host (\<^verbatim>\<open>wayland-host/src/jni_bridge.c\<close>): the
  application's threads put commands into a linked queue, the dispatcher thread takes the whole queue
  and executes it against the server, and \<^verbatim>\<open>nativeStart\<close> and \<^verbatim>\<open>nativeStop\<close> create and tear down both.

  The state holds the static variables of the file and the dispatcher's local pointer into the list
  it has taken. The two mutexes make each operation below atomic; the dispatcher's execution of one
  command is an operation of its own, so that other threads may run in between. References to
  \<^verbatim>\<open>ANativeWindow\<close> objects are counted in a multiset: what the code has acquired and not released.
  Cells are those of \<open>Linked_Queue\<close>; following a pointer to a freed cell has the value \<open>None\<close>.
\<close>

section \<open>Commands\<close>

type_synonym wid = nat

datatype host_command =
    Attach_window "wid option"
  | Output_size int int
  | Pointer_absolute rat rat u32
  | Pointer_relative rat rat u32
  | Pointer_button int bool u32
  | Pointer_scroll rat rat u32 u32
  | Pointer_reset u32
  | Cursor_visible bool
  | Keyboard_key u32 bool u32
  | Keyboard_evdev u32 bool u32

section \<open>State\<close>

text \<open>
  \<open>j_local\<close> is the dispatcher's variable \<^verbatim>\<open>command\<close>, \<open>j_thread\<close> whether the dispatcher thread runs;
  \<open>j_accepted\<close> and \<open>j_executed\<close> record the commands that were queued and executed since the
  server was started.
\<close>

record jni =
  j_server :: "host option"
  j_dmabuf_enabled :: bool
  j_dispatch_running :: bool
  j_dispatch_thread_started :: bool
  j_thread :: bool
  j_native_window :: "wid option"
  j_renderer :: "wid option"
  j_commands :: "host_command lqueue"
  j_local :: "addr option"
  j_windows :: "wid multiset"
  j_overreleased :: bool
  j_accepted :: "host_command list"
  j_executed :: "host_command list"

definition initial_jni :: jni where
  "initial_jni = \<lparr>j_server = None, j_dmabuf_enabled = False, j_dispatch_running = False,
     j_dispatch_thread_started = False, j_thread = False, j_native_window = None, j_renderer = None,
     j_commands = lq_empty, j_local = None, j_windows = {#}, j_overreleased = False,
     j_accepted = [], j_executed = []\<rparr>"

text \<open>\<^verbatim>\<open>ANativeWindow_acquire\<close> and \<^verbatim>\<open>ANativeWindow_release\<close>.\<close>

definition window_acquire :: "wid option \<Rightarrow> jni \<Rightarrow> jni" where
  "window_acquire w s = (case w of None \<Rightarrow> s | Some x \<Rightarrow> s\<lparr>j_windows := add_mset x (j_windows s)\<rparr>)"

definition window_release :: "wid option \<Rightarrow> jni \<Rightarrow> jni" where
  "window_release w s = (case w of None \<Rightarrow> s | Some x \<Rightarrow>
     if x \<in># j_windows s then s\<lparr>j_windows := j_windows s - {#x#}\<rparr> else s\<lparr>j_overreleased := True\<rparr>)"

section \<open>The queue\<close>

text \<open>
  \<^verbatim>\<open>enqueue_command_locked\<close> for a command allocated at \<open>a\<close>; the wake-up is a write to an
  event descriptor.
\<close>

definition enqueue_command_locked :: "addr \<Rightarrow> host_command \<Rightarrow> jni \<Rightarrow> (bool \<times> jni) option" where
  "enqueue_command_locked a c s =
     (if j_server s = None \<or> \<not> j_dispatch_running s then Some (False, s)
      else do { q \<leftarrow> lq_append a c (j_commands s);
                Some (True, s\<lparr>j_commands := q, j_accepted := j_accepted s @ [c]\<rparr>) })"

text \<open>
  Every producer: allocate, fill in, queue, and free the command when it was refused. \<open>mem\<close> is
  what \<^verbatim>\<open>calloc\<close> returns.
\<close>

definition produce :: "addr option \<Rightarrow> host_command \<Rightarrow> jni \<Rightarrow> (bool \<times> jni) option" where
  "produce mem c s = (case mem of None \<Rightarrow> Some (False, s) | Some a \<Rightarrow> enqueue_command_locked a c s)"

text \<open>Both consumers take the whole list.\<close>

definition take_commands :: "jni \<Rightarrow> jni" where
  "take_commands s = s\<lparr>j_local := lq_head (j_commands s),
     j_commands := (j_commands s)\<lparr>lq_head := None, lq_tail := None\<rparr>\<rparr>"

definition free_command :: "addr \<Rightarrow> jni \<Rightarrow> jni" where
  "free_command a s = s\<lparr>j_commands := (j_commands s)\<lparr>lq_cells := (lq_cells (j_commands s))(a := None)\<rparr>\<rparr>"

fun command_window :: "host_command \<Rightarrow> wid option" where
  "command_window (Attach_window w) = w"
| "command_window _ = None"

partial_function (option) discard_loop :: "jni \<Rightarrow> jni option" where
  "discard_loop s = (case j_local s of None \<Rightarrow> Some s | Some a \<Rightarrow>
     do { c \<leftarrow> lq_cells (j_commands s) a;
          discard_loop ((free_command a (window_release (command_window (c_value c)) s))\<lparr>j_local := c_next c\<rparr>) })"

definition discard_commands :: "jni \<Rightarrow> jni option" where
  "discard_commands s = discard_loop (take_commands s)"

section \<open>The dispatcher\<close>

text \<open>
  What the dispatcher takes from its environment: the conversions of the pointer coordinates, and
  whether a renderer can be created for a window.
\<close>

record jni_env =
  je_to_fixed :: "rat \<Rightarrow> int"
  je_float :: "rat \<Rightarrow> rat"
  je_renderer :: "wid \<Rightarrow> bool"

definition on_server :: "(host \<Rightarrow> host) \<Rightarrow> jni \<Rightarrow> jni" where
  "on_server f s = s\<lparr>j_server := map_option f (j_server s)\<rparr>"

definition replace_renderer :: "jni_env \<Rightarrow> wid option \<Rightarrow> jni \<Rightarrow> jni" where
  "replace_renderer env window s =
     (let s1 = window_release (j_native_window s) (s\<lparr>j_renderer := None\<rparr>);
          s2 = s1\<lparr>j_native_window := window,
                  j_renderer := (case window of None \<Rightarrow> None
                    | Some w \<Rightarrow> if je_renderer env w then Some w else None)\<rparr>
      in if j_renderer s2 = None then s2 else on_server trierarch_wayland_request_render s2)"

fun execute :: "jni_env \<Rightarrow> host_command \<Rightarrow> jni \<Rightarrow> jni" where
  "execute env (Attach_window w) s = replace_renderer env w s"
| "execute env (Output_size width height) s = on_server (trierarch_wayland_set_output_size width height) s"
| "execute env (Pointer_absolute x y t) s =
     on_server (trierarch_pointer_move_absolute (je_to_fixed env) x y t) s"
| "execute env (Pointer_relative x y t) s =
     on_server (trierarch_pointer_move_relative (je_to_fixed env) (je_float env) x y t) s"
| "execute env (Pointer_button button pressed t) s = on_server (trierarch_pointer_set_button button pressed t) s"
| "execute env (Pointer_scroll x y source t) s =
     on_server (trierarch_pointer_scroll (je_to_fixed env) x y source t) s"
| "execute env (Pointer_reset t) s = on_server (trierarch_pointer_reset t) s"
| "execute env (Cursor_visible visible) s = on_server (trierarch_pointer_set_cursor_visible visible) s"
| "execute env (Keyboard_key key pressed t) s = on_server (trierarch_keyboard_set_key key pressed t) s"
| "execute env (Keyboard_evdev key pressed t) s = on_server (trierarch_keyboard_set_key key pressed t) s"

text \<open>One turn of the loop of \<^verbatim>\<open>process_commands\<close>, and the loop.\<close>

definition process_one :: "jni_env \<Rightarrow> addr \<Rightarrow> jni \<Rightarrow> jni option" where
  "process_one env a s =
     do { c \<leftarrow> lq_cells (j_commands s) a;
          let s1 = execute env (c_value c) s in
          Some ((free_command a s1)\<lparr>j_local := c_next c, j_executed := j_executed s @ [c_value c]\<rparr>) }"

partial_function (option) process_loop :: "jni_env \<Rightarrow> jni \<Rightarrow> jni option" where
  "process_loop env s = (case j_local s of None \<Rightarrow> Some s | Some a \<Rightarrow>
     do { s1 \<leftarrow> process_one env a s; process_loop env s1 })"

definition process_commands :: "jni_env \<Rightarrow> jni \<Rightarrow> jni option" where
  "process_commands env s = process_loop env (take_commands s)"

text \<open>
  One iteration of \<^verbatim>\<open>dispatch_loop\<close>. \<open>dispatch\<close> is what \<^verbatim>\<open>wl_event_loop_dispatch\<close> does to the
  server, \<open>render\<close> what the renderer does, with its success. The result is whether the loop goes on.
\<close>

definition render_frame :: "(host \<Rightarrow> bool \<times> host) \<Rightarrow> host \<Rightarrow> host" where
  "render_frame render h =
     (let (begun, h1) = trierarch_wayland_begin_repaint h
      in if \<not> begun then h1
         else let (ok, h2) = render h1 in if ok then h2 else trierarch_wayland_repaint_failed h2)"

definition dispatch_iteration ::
  "jni_env \<Rightarrow> (host \<Rightarrow> host) \<Rightarrow> (host \<Rightarrow> bool \<times> host) \<Rightarrow> jni \<Rightarrow> (bool \<times> jni) option" where
  "dispatch_iteration env dispatch render s =
     do { s1 \<leftarrow> process_commands env (on_server dispatch s);
          let s2 = (if j_renderer s1 = None then s1 else on_server (render_frame render) s1);
              running = (j_dispatch_running s2 \<and> j_server s2 \<noteq> None)
          in Some (running, if running then s2 else s2\<lparr>j_thread := False\<rparr>) }"

section \<open>Start and stop\<close>

text \<open>
  \<^verbatim>\<open>nativeStart\<close>: \<open>runtime\<close> and \<open>mode\<close> are the strings (\<open>None\<close> for a string that could not
  be read, or for no mode), \<open>create\<close> is \<^verbatim>\<open>trierarch_wayland_create\<close>, \<open>mem\<close> the allocation of the command that
  attaches a retained window and \<open>thread_ok\<close> the success of \<^verbatim>\<open>pthread_create\<close>.
\<close>

definition attach_retained :: "addr option \<Rightarrow> jni \<Rightarrow> jni option" where
  "attach_retained mem s = (case (j_native_window s, mem) of
       (Some w, Some a) \<Rightarrow>
         do { (queued, s1) \<leftarrow> enqueue_command_locked a (Attach_window (Some w)) (window_acquire (Some w) s);
              Some s1 }
     | _ \<Rightarrow> Some s)"

definition start_dispatcher :: "addr option \<Rightarrow> bool \<Rightarrow> jni \<Rightarrow> jni option" where
  "start_dispatcher mem thread_ok s =
     do { s1 \<leftarrow> attach_retained mem s;
          if thread_ok then Some (s1\<lparr>j_dispatch_thread_started := True, j_thread := True\<rparr>)
          else do { s2 \<leftarrow> discard_commands (s1\<lparr>j_dispatch_running := False\<rparr>);
                    Some (s2\<lparr>j_server := None, j_dmabuf_enabled := False\<rparr>) } }"

definition nativeStart ::
  "string option \<Rightarrow> string option \<Rightarrow> (bool \<Rightarrow> host option) \<Rightarrow> addr option \<Rightarrow> bool \<Rightarrow> jni \<Rightarrow> (bool \<times> jni) option" where
  "nativeStart runtime mode create mem thread_ok s =
     (if runtime = None then Some (False, s)
      else let dmabuf = (mode \<noteq> Some ''shm'');
               conflict = (j_server s \<noteq> None \<and> j_dmabuf_enabled s \<noteq> dmabuf)
           in do { s1 \<leftarrow> (if j_server s \<noteq> None then Some s
                          else case create dmabuf of
                                 None \<Rightarrow> Some s
                               | Some h \<Rightarrow> start_dispatcher mem thread_ok
                                   (s\<lparr>j_server := Some h, j_dmabuf_enabled := dmabuf, j_dispatch_running := True,
                                      j_accepted := [], j_executed := []\<rparr>));
                   Some (j_server s1 \<noteq> None \<and> \<not> conflict, s1) })"

text \<open>\<^verbatim>\<open>nativeStop\<close> up to \<^verbatim>\<open>pthread_join\<close>, and after it.\<close>

definition nativeStop_begin :: "jni \<Rightarrow> jni" where
  "nativeStop_begin s = s\<lparr>j_dispatch_running := False\<rparr>"

definition nativeStop_end :: "jni \<Rightarrow> jni option" where
  "nativeStop_end s =
     do { s1 \<leftarrow> discard_commands (s\<lparr>j_dispatch_thread_started := False\<rparr>);
          Some (window_release (j_native_window s1)
            (s1\<lparr>j_renderer := None, j_server := None, j_dmabuf_enabled := False, j_native_window := None\<rparr>)) }"

section \<open>The application's calls\<close>

definition nativeSetOutputSize :: "int \<Rightarrow> int \<Rightarrow> addr option \<Rightarrow> jni \<Rightarrow> (bool \<times> jni) option" where
  "nativeSetOutputSize width height mem s =
     (if width \<le> 0 \<or> height \<le> 0 then Some (False, s) else produce mem (Output_size width height) s)"

definition nativeMovePointerAbsolute :: "rat \<Rightarrow> rat \<Rightarrow> u32 \<Rightarrow> addr option \<Rightarrow> jni \<Rightarrow> (bool \<times> jni) option" where
  "nativeMovePointerAbsolute x y time_ms mem s = produce mem (Pointer_absolute x y time_ms) s"

definition nativeMovePointerRelative :: "rat \<Rightarrow> rat \<Rightarrow> u32 \<Rightarrow> addr option \<Rightarrow> jni \<Rightarrow> (bool \<times> jni) option" where
  "nativeMovePointerRelative x y time_ms mem s = produce mem (Pointer_relative x y time_ms) s"

definition nativeSetPointerButton :: "int \<Rightarrow> bool \<Rightarrow> u32 \<Rightarrow> addr option \<Rightarrow> jni \<Rightarrow> (bool \<times> jni) option" where
  "nativeSetPointerButton button pressed time_ms mem s = produce mem (Pointer_button button pressed time_ms) s"

definition nativeScrollPointer ::
  "rat \<Rightarrow> rat \<Rightarrow> u32 \<Rightarrow> u32 \<Rightarrow> addr option \<Rightarrow> jni \<Rightarrow> (bool \<times> jni) option" where
  "nativeScrollPointer x y source time_ms mem s = produce mem (Pointer_scroll x y source time_ms) s"

definition nativeResetPointer :: "u32 \<Rightarrow> addr option \<Rightarrow> jni \<Rightarrow> (bool \<times> jni) option" where
  "nativeResetPointer time_ms mem s = produce mem (Pointer_reset time_ms) s"

definition nativeSetCursorVisible :: "bool \<Rightarrow> addr option \<Rightarrow> jni \<Rightarrow> (bool \<times> jni) option" where
  "nativeSetCursorVisible visible mem s = produce mem (Cursor_visible visible) s"

definition nativeSetKeyboardKey ::
  "int \<Rightarrow> bool \<Rightarrow> u32 \<Rightarrow> addr option \<Rightarrow> jni \<Rightarrow> (bool \<times> jni) option" where
  "nativeSetKeyboardKey key_code pressed time_ms mem s =
     (let key = trierarch_android_keycode_to_evdev key_code
      in if key = 0 then Some (False, s) else produce mem (Keyboard_key key pressed time_ms) s)"

definition nativeSetKeyboardEvdevKey ::
  "int \<Rightarrow> bool \<Rightarrow> u32 \<Rightarrow> addr option \<Rightarrow> jni \<Rightarrow> (bool \<times> jni) option" where
  "nativeSetKeyboardEvdevKey evdev_key pressed time_ms mem s =
     (let key = word_of_int evdev_key
      in if key = 0 then Some (False, s) else produce mem (Keyboard_evdev key pressed time_ms) s)"

text \<open>\<open>window\<close> is what \<^verbatim>\<open>ANativeWindow_fromSurface\<close> returned, with a reference of its own.\<close>

definition nativeAttachSurface :: "wid option \<Rightarrow> addr option \<Rightarrow> jni \<Rightarrow> jni option" where
  "nativeAttachSurface window mem s0 =
     (let s = window_acquire window s0 in
      if j_server s = None \<or> \<not> j_dispatch_running s then
        Some ((window_release (j_native_window s) s)\<lparr>j_native_window := window\<rparr>)
      else do { (queued, s1) \<leftarrow> produce mem (Attach_window window) s;
                Some (if queued then s1 else window_release window s1) })"

end
