(* ===== verification/Desktop.thy ===== *)
theory Desktop
  imports Wire_Machine Keyboard_Safety Tvg_Service Jni_Bridge
begin

text \<open>
  The compositor's thread as a whole: the requests of the clients through the resource table, the pointer and the keys of Android, the frames of the renderer, and beside it the thread of
  the token service. Whatever they do in whatever order, nothing follows a freed object, and the next frame returns.
\<close>

section \<open>The state\<close>

record desktop =
  d_render :: render_state
  d_objects :: "rid \<rightharpoonup> wire_object"

definition wire_of :: "desktop \<Rightarrow> wire" where
  "wire_of d = \<lparr>w_host = rs_host (d_render d), w_objects = d_objects d\<rparr>"

definition put_wire :: "wire \<Rightarrow> desktop \<Rightarrow> desktop" where
  "put_wire w d = \<lparr>d_render = (d_render d)\<lparr>rs_host := w_host w\<rparr>, d_objects = w_objects w\<rparr>"

lemma wire_of_put [simp]: "wire_of (put_wire w d) = w"
  by (simp add: wire_of_def put_wire_def)

section \<open>The pointer\<close>

text \<open>What Android and the clients do to the pointer device; a cursor is a surface in the table.\<close>

inductive pointer_event :: "wire \<Rightarrow> host \<Rightarrow> bool" where
  move: "pointer_event w (trierarch_pointer_move_absolute to_fixed x y t (w_host w))"
| move_relative: "pointer_event w (trierarch_pointer_move_relative to_fixed fl x y t (w_host w))"
| button: "pointer_event w (trierarch_pointer_set_button button pressed t (w_host w))"
| scroll: "pointer_event w (trierarch_pointer_scroll to_fixed x y source t (w_host w))"
| reset: "pointer_event w (trierarch_pointer_reset t (w_host w))"
| cursor_visible: "pointer_event w (trierarch_pointer_set_cursor_visible seen (w_host w))"
| set_cursor: "pointer_event w (pointer_set_cursor client (map_option (\<lambda>r. (r, surface_behind w r)) cursor) x y (w_host w))"
| get_pointer: "pointer_event w (seat_get_pointer client seat v res mem (w_host w))"
| pointer_gone: "pointer_event w (pointer_resource_destroy r (w_host w))"

lemma pointer_event_step:
  assumes "pointer_event w h" "wire_ok w"
  shows "pointer_step (w_host w) h"
  using assms
proof (induction rule: pointer_event.induct)
  case (set_cursor w client cursor x y)
  show ?case
  proof (rule pointer_step.set_cursor)
    fix r s assume "map_option (\<lambda>r. (r, surface_behind w r)) cursor = Some (r, Some s)"
    then have "surface_behind w r = Some s" by auto
    then show "h_surfaces (w_host w) s \<noteq> None" using wire_ok_alive(3) [OF set_cursor.prems, of r] by (simp add: alive_def)
  qed
qed (auto intro: pointer_step.intros)

text \<open>None of them changes which resources the surfaces name, or their parents.\<close>

definition stage :: "host \<Rightarrow> sid \<Rightarrow> ((rid \<times> (role \<Rightarrow> rid option)) \<times> sid option) option" where
  "stage h s = map_option (\<lambda>x. (surface_view x, s_parent x)) (h_surfaces h s)"

lemma stage_outline: "outline h' = outline h \<Longrightarrow> stage h' = stage h"
  by (simp add: outline_def stage_def fun_eq_iff)

lemma stage_keeps:
  assumes "stage h' = stage h"
  shows "view h' = view h" "parent_of h' = parent_of h" "dom (h_surfaces h') = dom (h_surfaces h)"
proof -
  have m: "map_option (\<lambda>x. (surface_view x, s_parent x)) (h_surfaces h' s) = map_option (\<lambda>x. (surface_view x, s_parent x)) (h_surfaces h s)" for s
    using assms by (simp add: stage_def fun_eq_iff)
  have "view h' s = view h s \<and> fld (h_surfaces h') s_parent s = fld (h_surfaces h) s_parent s \<and> (h_surfaces h' s = None \<longleftrightarrow> h_surfaces h s = None)" for s
    using m [of s] by (cases "h_surfaces h' s"; cases "h_surfaces h s") (simp_all add: view_def)
  then show "view h' = view h" "parent_of h' = parent_of h" "dom (h_surfaces h') = dom (h_surfaces h)" by (auto simp: dom_def)
qed

lemma stage_server: "stage (upd_server g h) = stage h"
  by (simp add: stage_def upd_server_def fun_eq_iff)

lemmas stage_simps = stage_server outline_access [THEN stage_outline] outline_request_render [THEN stage_outline]

lemma stage_cursor: "stage (upd_surface s (s_is_cursor_update c) h) = stage h"
  by (rule stage_outline) (simp add: outline_simps)

lemma stage_focus [simp]: "stage (update_pointer_focus h) = stage h" "stage (to_pointers ev h) = stage h"
  by (simp_all add: update_pointer_focus_def send_pointer_leave_def send_pointer_enter_def to_pointers_def Let_def stage_simps split: option.split)

lemma stage_button [simp]: "stage (trierarch_pointer_set_button button pressed t h) = stage h"
  by (simp add: trierarch_pointer_set_button_def Let_def stage_simps split: option.split)

lemma stage_move [simp]: "stage (trierarch_pointer_move_absolute to_fixed x y t h) = stage h"
  by (simp add: trierarch_pointer_move_absolute_def send_pointer_motion_def Let_def stage_simps)

lemma pointer_event_stage: "pointer_event w h \<Longrightarrow> stage h = stage (w_host w)"
  by (induction rule: pointer_event.induct)
    (simp_all add: trierarch_pointer_move_relative_def trierarch_pointer_scroll_def trierarch_pointer_reset_def reset_button_def trierarch_pointer_set_cursor_visible_def
      pointer_set_cursor_def seat_get_pointer_def track_pointer_resource_def pointer_resource_destroy_def Let_def stage_simps stage_cursor split: option.split)

section \<open>Frames\<close>

text \<open>The renderer leaves the outline as it is.\<close>

lemma frame_outline:
  assumes "rn_valid (rs_renderer st)" "host_inv (rs_host st)" "settled (rs_host st)"
  obtains st' where "trierarch_renderer_render g st = Some (gl_make_current g \<and> gl_swap g, st')" "host_inv (rs_host st')" "outline (rs_host st') = outline (rs_host st)"
proof -
  obtain st' h1 h2 where st': "trierarch_renderer_render g st = Some (gl_make_current g \<and> gl_swap g, st')" "host_inv (rs_host st')"
    and h: "trierarch_flush_deferred_releases (rs_host st) = Some h1" "trierarch_surface_latch_frame_callbacks h1 = Some h2"
      "rs_host st' = (if gl_make_current g then finished_host g h2 else h1)"
    using frame_returns [OF assms(1,2), of g] assms(3) unfolding settled_def by blast
  have "outline h1 = outline (rs_host st)" "outline h2 = outline h1" using h(1,2) frame_step_outline frame_step.flush frame_step.latch by blast+
  moreover have "outline (finished_host g h2) = outline h2" by (simp add: finished_host_def outline_frames)
  ultimately have "outline (rs_host st') = outline (rs_host st)" using h(3) by simp
  then show ?thesis using st' that by blast
qed

text \<open>One frame of \<^verbatim>\<open>dispatch_loop\<close> with the renderer in place; \<open>None\<close> where the renderer does not return.\<close>

definition desktop_frame :: "gl \<Rightarrow> desktop \<Rightarrow> desktop option" where
  "desktop_frame g d =
     (let st = d_render d; (begun, h) = trierarch_wayland_begin_repaint (rs_host st)
      in if \<not> begun then Some (d\<lparr>d_render := st\<lparr>rs_host := h\<rparr>\<rparr>)
         else map_option (\<lambda>(ok, st'). d\<lparr>d_render := (if ok then st' else upd_host trierarch_wayland_repaint_failed st')\<rparr>)
           (trierarch_renderer_render g (st\<lparr>rs_host := h\<rparr>)))"

section \<open>The thread\<close>

inductive desk_step :: "desktop \<Rightarrow> desktop \<Rightarrow> bool" where
  client: "wire_step tree_request (wire_of d) w \<Longrightarrow> desk_step d (put_wire w d)"
| pointer: "pointer_event (wire_of d) h \<Longrightarrow> desk_step d (d\<lparr>d_render := (d_render d)\<lparr>rs_host := h\<rparr>\<rparr>)"
| keyboard: "keyboard_step (rs_host (d_render d)) h \<Longrightarrow> desk_step d (d\<lparr>d_render := (d_render d)\<lparr>rs_host := h\<rparr>\<rparr>)"
| frame: "desktop_frame g d = Some d' \<Longrightarrow> desk_step d d'"
| window: "desk_step d (d\<lparr>d_render := (d_render d)\<lparr>rs_renderer := r, rs_counters := c\<rparr>\<rparr>)"
| token: "desk_step d (d\<lparr>d_render := (d_render d)\<lparr>rs_tvg := service_act x (rs_tvg (d_render d))\<rparr>\<rparr>)"

definition desk_ok :: "desktop \<Rightarrow> bool" where
  "desk_ok d \<longleftrightarrow> wire_ok (wire_of d) \<and> settled (rs_host (d_render d))"

lemma desk_ok_outline:
  assumes "desk_ok d" "host_inv (rs_host st)" "outline (rs_host st) = outline (rs_host (d_render d))"
  shows "desk_ok (d\<lparr>d_render := st\<rparr>)"
  using assms outline_view [OF assms(3)] settled_outline [OF assms(3)] by (simp add: desk_ok_def wire_ok_def wire_of_def)

lemma render_returns:
  assumes "host_inv (rs_host st)" "settled (rs_host st)"
  obtains ok st' where "trierarch_renderer_render g st = Some (ok, st')" "host_inv (rs_host st')" "outline (rs_host st') = outline (rs_host st)"
proof (cases "rn_valid (rs_renderer st)")
  case True
  then show ?thesis using frame_outline [OF True assms, of g] that by blast
next
  case False
  then show ?thesis using that [of False st] assms by (simp add: trierarch_renderer_render_def trierarch_renderer_valid_def)
qed

text \<open>Every frame of a good state returns, and leaves a good state.\<close>

lemma desktop_frame_returns:
  assumes "desk_ok d"
  shows "\<exists>d'. desktop_frame g d = Some d' \<and> desk_ok d'"
proof -
  obtain begun h where b: "trierarch_wayland_begin_repaint (rs_host (d_render d)) = (begun, h)" by fastforce
  have r: "repaint_step (rs_host (d_render d)) h" using repaint_step.begin_frame [of "rs_host (d_render d)"] b by simp
  have i: "host_inv h" "outline h = outline (rs_host (d_render d))"
    using assms repaint_keeps_inv [OF r] repaint_step_outline [OF r] by (auto simp: desk_ok_def wire_ok_def wire_of_def)
  have s: "settled h" using assms settled_outline [OF i(2)] by (simp add: desk_ok_def)
  obtain ok st' where st': "trierarch_renderer_render g ((d_render d)\<lparr>rs_host := h\<rparr>) = Some (ok, st')" "host_inv (rs_host st')" "outline (rs_host st') = outline h"
    using render_returns [of "(d_render d)\<lparr>rs_host := h\<rparr>" g] i(1) s by auto
  have f: "host_inv (trierarch_wayland_repaint_failed h)" "outline (trierarch_wayland_repaint_failed h) = outline h" if "host_inv h" for h
    using that by (simp_all add: repaint_defs Let_def outline_simps)
  have "desk_ok (d\<lparr>d_render := (d_render d)\<lparr>rs_host := h\<rparr>\<rparr>)" "desk_ok (d\<lparr>d_render := st'\<rparr>)"
    "desk_ok (d\<lparr>d_render := upd_host trierarch_wayland_repaint_failed st'\<rparr>)"
    using i st'(2,3) f [OF st'(2)] by (auto intro!: desk_ok_outline [OF assms] simp: upd_host_def)
  then show ?thesis using st'(1) b by (cases begun; cases ok) (auto simp: desktop_frame_def Let_def)
qed

lemma pointer_event_ok:
  assumes "desk_ok d" "pointer_event (wire_of d) h"
  shows "desk_ok (d\<lparr>d_render := (d_render d)\<lparr>rs_host := h\<rparr>\<rparr>)"
proof -
  let ?h = "rs_host (d_render d)"
  have w: "w_host (wire_of d) = ?h" by (simp add: wire_of_def)
  have "pointer_inv ?h" using assms(1) by (simp add: desk_ok_def wire_ok_def wire_of_def settled_def pointer_inv_def)
  then have p: "pointer_inv h" using pointer_step_inv pointer_event_step [OF assms(2)] assms(1) by (simp add: desk_ok_def w)
  note k = stage_keeps [OF pointer_event_stage [OF assms(2), unfolded w]]
  have "settled h" using p rooted_cong [OF k(2,3)] assms(1) by (simp add: settled_def pointer_inv_def desk_ok_def)
  then show ?thesis using p k(1) assms(1) by (simp add: desk_ok_def wire_ok_def wire_of_def pointer_inv_def)
qed

lemma keyboard_step_ok:
  assumes "desk_ok d" "keyboard_step (rs_host (d_render d)) h"
  shows "desk_ok (d\<lparr>d_render := (d_render d)\<lparr>rs_host := h\<rparr>\<rparr>)"
proof -
  have "host_inv (rs_host (d_render d))" using assms(1) by (simp add: desk_ok_def wire_ok_def wire_of_def)
  then show ?thesis using keyboard_step_keeps [OF assms(2)] by (intro desk_ok_outline [OF assms(1)]) simp_all
qed

lemma desk_step_ok: "desk_step d d' \<Longrightarrow> desk_ok d \<Longrightarrow> desk_ok d'"
proof (induction rule: desk_step.induct)
  case (client d w)
  then have "wire_ok w \<and> settled (w_host w)" using tree_run_settled [of "wire_of d" w] by (auto simp: desk_ok_def wire_of_def)
  then show ?case by (simp add: desk_ok_def) (simp add: put_wire_def)
next
  case (frame g d d')
  then show ?case using desktop_frame_returns [of d g] by auto
qed (simp_all add: pointer_event_ok keyboard_step_ok, simp_all add: desk_ok_def wire_of_def)

interpretation desk: transition_system desk_step desk_ok
  by unfold_locales (rule desk_step_ok)

definition fresh_desktop :: "host \<Rightarrow> render_state \<Rightarrow> desktop" where
  "fresh_desktop h st = \<lparr>d_render = st\<lparr>rs_host := h\<rparr>, d_objects = Map.empty\<rparr>"

lemma fresh_desktop_ok:
  assumes "trierarch_wayland_create ready dm timer device = Some h"
  shows "desk_ok (fresh_desktop h st)"
proof -
  have "settled h" using assms by (auto simp: trierarch_wayland_create_def settled_def pointer_live_def rooted_def split: if_splits)
  then show ?thesis using fresh_wire_ok [OF assms] by (simp add: desk_ok_def fresh_desktop_def wire_of_def fresh_wire_def)
qed

lemma client_run:
  assumes "(wire_step tree_request)\<^sup>*\<^sup>* (wire_of d) w"
  shows "desk_step\<^sup>*\<^sup>* d (put_wire w d)"
  using assms
proof (induction rule: rtranclp_induct)
  case base
  have "put_wire (wire_of d) d = d" by (simp add: put_wire_def wire_of_def)
  then show ?case by simp
next
  case (step y z)
  have "desk_step (put_wire y d) (put_wire z (put_wire y d))" using step.hyps(2) by (intro desk_step.client) simp
  moreover have "put_wire z (put_wire y d) = put_wire z d" by (simp add: put_wire_def)
  ultimately show ?case using step.IH by simp
qed

end
