(* ===== verification/Renderer_Objects.thy ===== *)
theory Renderer_Objects
  imports Render_Frame
begin

text \<open>
  The objects of EGL and OpenGL a renderer owns: the set-up makes what the handles of the structure say or nothing, the tear-down frees
  exactly that, and no frame changes a handle.
\<close>

section \<open>What set-up and tear-down make and free\<close>

text \<open>The objects the handles of a renderer stand for.\<close>

definition handles :: "renderer_context \<Rightarrow> bool \<times> bool \<times> bool \<times> bool \<times> bool \<times> bool \<times> bool" where
  "handles r = (rn_display r, rn_context r, rn_surface r, rn_background_program r, rn_texture_program r, rn_texture r, rn_destroy_sync r)"

definition owned_objects :: "renderer_context \<Rightarrow> egl_object set" where
  "owned_objects r = {Renderer_memory} \<union> {x. (x = Egl_display \<and> rn_display r) \<or> (x = Egl_context \<and> rn_context r) \<or>
     (x = Egl_surface \<and> rn_surface r) \<or> (x = Background_program \<and> rn_background_program r) \<or>
     (x = Texture_program \<and> rn_texture_program r) \<or> (x = Gl_texture \<and> rn_texture r) \<or> (x = Frame_fence \<and> rn_frame_fence r \<noteq> None)}"

lemma owned_simps [simp]:
  "Renderer_memory \<in> owned_objects r" "Egl_display \<in> owned_objects r \<longleftrightarrow> rn_display r" "Egl_context \<in> owned_objects r \<longleftrightarrow> rn_context r"
  "Egl_surface \<in> owned_objects r \<longleftrightarrow> rn_surface r" "Background_program \<in> owned_objects r \<longleftrightarrow> rn_background_program r"
  "Texture_program \<in> owned_objects r \<longleftrightarrow> rn_texture_program r" "Gl_texture \<in> owned_objects r \<longleftrightarrow> rn_texture r"
  "Frame_fence \<in> owned_objects r \<longleftrightarrow> rn_frame_fence r \<noteq> None" "Vertex_shader \<notin> owned_objects r" "Fragment_shader \<notin> owned_objects r"
  by (simp_all add: owned_objects_def)

lemma owned_server [simp]: "owned_objects (r\<lparr>rn_server := b\<rparr>) = owned_objects r"
  by (simp add: owned_objects_def)

lemma balance_make_program:
  "p \<in> {Background_program, Texture_program} \<Longrightarrow> balance x (snd (make_program p a)) = of_bool (fst (make_program p a) \<and> x = p)"
  by (cases x) (auto simp: make_program_def compile_shader_def Let_def)

text \<open>The tear-down frees every object once.\<close>

definition renderer_consistent :: "renderer_context \<Rightarrow> bool" where
  "renderer_consistent r \<longleftrightarrow>
     (rn_background_program r \<or> rn_texture_program r \<or> rn_texture r \<longrightarrow> rn_display r \<and> rn_surface r \<and> rn_context r) \<and>
     (rn_surface r \<or> rn_context r \<longrightarrow> rn_display r) \<and> (rn_frame_fence r = None \<or> rn_destroy_sync r)"

interpretation renderers: owner renderer_consistent owned_objects "\<lambda>r. trierarch_renderer_destroy (Some r)"
proof
  show "balance x (trierarch_renderer_destroy (Some r)) = - of_bool (x \<in> owned_objects r)" if "renderer_consistent r" for r x
    using that by (cases x) (auto simp: trierarch_renderer_destroy_def renderer_consistent_def)
qed

text \<open>A set-up that fails leaves nothing behind; one that succeeds has made what the handles say.\<close>

definition made_or_nothing :: "bool \<Rightarrow> renderer_context option \<times> egl_event list \<times> host \<Rightarrow> bool" where
  "made_or_nothing sync t = (case t of (None, e, h) \<Rightarrow> (\<forall>x. balance x e = 0)
     | (Some r, e, h) \<Rightarrow> accounts owned_objects e r \<and> handles r = (True, True, True, True, True, True, sync) \<and> rn_frame_fence r = None)"

lemma create_fail_nothing:
  "accounts owned_objects e r \<Longrightarrow> renderer_consistent r \<Longrightarrow> made_or_nothing sync (create_fail r e h)"
  using renderers.given_up [of e r] by (simp add: made_or_nothing_def create_fail_def)

lemma create_objects:
  assumes "make_objects a (load_functions a r) = (r', e')" "accounts owned_objects e r" "renderer_consistent r" "rn_frame_fence r = None"
    "handles r = (True, True, True, False, False, False, b)"
  shows "accounts owned_objects (e @ e') r'" "renderer_consistent r'" "rn_frame_fence r' = None"
    "handles r' = (True, True, True, rn_background_program r', rn_texture_program r', rn_texture r', ea_destroy_sync a)"
    "rn_valid r' \<longleftrightarrow> rn_background_program r' \<and> rn_texture_program r' \<and> rn_texture r'"
proof -
  have r': "r' = (load_functions a r)\<lparr>rn_width := fst (ea_window a), rn_height := snd (ea_window a),
      rn_background_program := fst (make_program Background_program (ea_background a)),
      rn_texture_program := fst (make_program Texture_program (ea_texture a)), rn_texture := ea_gen_texture a,
      rn_valid := fst (make_program Background_program (ea_background a)) \<and> fst (make_program Texture_program (ea_texture a)) \<and> ea_gen_texture a\<rparr>"
    and e': "e' = snd (make_program Background_program (ea_background a)) @ snd (make_program Texture_program (ea_texture a)) @
      (if ea_gen_texture a then [Made Gl_texture] else [])"
    using assms(1) by (auto simp: make_objects_def split: prod.splits)
  have h: "rn_display r" "rn_context r" "rn_surface r" "\<not> rn_background_program r" "\<not> rn_texture_program r" "\<not> rn_texture r"
    using assms(5) by (simp_all add: handles_def)
  show "rn_frame_fence r' = None" "rn_valid r' \<longleftrightarrow> rn_background_program r' \<and> rn_texture_program r' \<and> rn_texture r'"
    "renderer_consistent r'"
    "handles r' = (True, True, True, rn_background_program r', rn_texture_program r', rn_texture r', ea_destroy_sync a)"
    using h assms(4) by (simp_all add: r' load_functions_def renderer_consistent_def handles_def)
  have "balance x (e @ e') = of_bool (x \<in> owned_objects r')" for x
    using assms(2,4) h unfolding e' accounts_def by (cases x) (simp_all add: balance_make_program r' load_functions_def)
  then show "accounts owned_objects (e @ e') r'" by (simp add: accounts_def)
qed

lemma create_balance: "made_or_nothing (ea_destroy_sync a) (trierarch_renderer_create window a h)"
proof -
  define r1 where "r1 = zero_renderer\<lparr>rn_display := True\<rparr>"
  define r2 where "r2 = r1\<lparr>rn_context := True\<rparr>"
  define r3 where "r3 = r2\<lparr>rn_surface := True\<rparr>"
  note rs = r1_def r2_def r3_def zero_renderer_def
  have a0: "accounts owned_objects [Made Renderer_memory] zero_renderer"
    by (simp add: accounts_def owned_objects_def zero_renderer_def)
  have a1: "accounts owned_objects [Made Renderer_memory, Made Egl_display] r1"
    using accounts_made [OF a0, of Egl_display r1] by (simp add: owned_objects_def rs)
  have a2: "accounts owned_objects ([Made Renderer_memory, Made Egl_display] @ [Made Egl_context]) r2"
    by (rule accounts_made [OF a1]) (auto simp: owned_objects_def rs)
  have a3: "accounts owned_objects (([Made Renderer_memory, Made Egl_display] @ [Made Egl_context]) @ [Made Egl_surface]) r3"
    by (rule accounts_made [OF a2]) (auto simp: owned_objects_def rs)
  have c: "renderer_consistent zero_renderer" "renderer_consistent r1" "renderer_consistent r2" "renderer_consistent r3"
    by (simp_all add: renderer_consistent_def rs)
  obtain r4 e4 where m: "make_objects a (load_functions a r3) = (r4, e4)" by (cases "make_objects a (load_functions a r3)")
  note o = create_objects [OF m a3 c(4), of False]
  have r3: "rn_frame_fence r3 = None" "handles r3 = (True, True, True, False, False, False, False)" by (simp_all add: rs handles_def)
  note f = create_fail_nothing [where sync = "ea_destroy_sync a"]
  have fin: "made_or_nothing (ea_destroy_sync a)
      (Some (r4\<lparr>rn_server := True\<rparr>), (([Made Renderer_memory, Made Egl_display] @ [Made Egl_context]) @ [Made Egl_surface]) @ e4, k)"
    if "rn_valid r4" for k
    using that o r3 accounts_same [OF o(1) [OF r3], of "r4\<lparr>rn_server := True\<rparr>"]
    by (simp add: made_or_nothing_def) (simp add: handles_def)
  show ?thesis
    unfolding trierarch_renderer_create_def Let_def r1_def [symmetric] r2_def [symmetric] r3_def [symmetric] m prod.case
    using f [OF a0 c(1)] f [OF a1 c(2)] f [OF a2 c(3)] f [OF a3 c(4)] f [OF o(1,2) [OF r3]] fin
    by (auto simp: made_or_nothing_def [of _ "(None, [], h)"])
qed

section \<open>The life of a renderer\<close>

text \<open>Frames leave the handles alone, whether they are presented or not.\<close>

lemma handles_upd [simp]:
  "handles (r\<lparr>rn_frame_fence := f\<rparr>) = handles r" "handles (r\<lparr>rn_frame_fence_created := c\<rparr>) = handles r"
  "handles (r\<lparr>rn_frame_sequence := n\<rparr>) = handles r" "handles (r\<lparr>rn_width := w\<rparr>) = handles r" "handles (r\<lparr>rn_height := w\<rparr>) = handles r"
  "handles (r\<lparr>rn_observed_surface_commits := n\<rparr>) = handles r" "handles (r\<lparr>rn_observed_surface_damage := n\<rparr>) = handles r"
  "handles (r\<lparr>rn_last_buffer := b, rn_last_width := w, rn_last_height := w', rn_last_format := fm, rn_last_modifier := m,
     rn_last_import_path := p\<rparr>) = handles r"
  by (simp_all add: handles_def)

lemma handles_sync: "handles r' = handles r \<Longrightarrow> rn_destroy_sync r' = rn_destroy_sync r"
  by (simp add: handles_def)

definition keeps_handles :: "renderer_context \<Rightarrow> renderer_context \<Rightarrow> bool" where
  "keeps_handles r r' \<longleftrightarrow> handles r' = handles r \<and> (rn_frame_fence r' = None \<or> rn_destroy_sync r)"

lemma draw_surface_handles: "handles (rs_renderer (draw_surface g s px py st)) = handles (rs_renderer st)"
  "rn_frame_fence (rs_renderer (draw_surface g s px py st)) = rn_frame_fence (rs_renderer st)"
  by (simp_all add: draw_surface_def upd_host_def Let_def split: option.splits prod.splits)

interpretation handled: drawing "\<lambda>st. keeps_handles r (rs_renderer st)" g for r g
  by unfold_locales (simp_all add: keeps_handles_def draw_surface_handles upd_host_def)

lemma begin_handles:
  assumes "render_begin g st = Some st1" "keeps_handles r (rs_renderer st)"
  shows "keeps_handles r (rs_renderer st1)"
  using assms by (auto simp: render_begin_def keeps_handles_def Let_def trierarch_renderer_wait_idle_def
      split: option.splits if_splits)

lemma finish_handles:
  assumes "render_finish g updated st = Some (ok, st')" "keeps_handles r (rs_renderer st)"
  shows "keeps_handles r (rs_renderer st')"
  using assms handles_sync [of "rs_renderer st" r]
  by (auto simp: render_finish_def keeps_handles_def render_fence_def upd_host_def Let_def bind_eq_Some_conv split: if_splits)

lemma render_handles:
  assumes "trierarch_renderer_render g st = Some (ok, st')" "keeps_handles r (rs_renderer st)"
  shows "keeps_handles r (rs_renderer st')"
proof (cases "rn_valid (rs_renderer st)")
  case True
  then obtain st1 where st1: "render_begin g st = Some st1" using assms(1)
    by (auto simp: trierarch_renderer_render_def trierarch_renderer_valid_def bind_eq_Some_conv)
  have k: "keeps_handles r (rs_renderer st1)" by (rule begin_handles [OF st1 assms(2)])
  then have k': "keeps_handles r (rs_renderer st1\<lparr>rn_observed_surface_commits := n, rn_observed_surface_damage := m\<rparr>)"
    "keeps_handles r (rs_renderer (st1\<lparr>rs_renderer := rs_renderer st1\<lparr>rn_observed_surface_commits := n, rn_observed_surface_damage := m,
       rn_width := w, rn_height := w'\<rparr>\<rparr>))" for n m w w'
    by (simp_all add: keeps_handles_def)
  show ?thesis
    using assms(1) True st1 k'(1) finish_handles [OF _ handled.whole_output [OF _ k'(2)]]
    by (auto simp: trierarch_renderer_render_def trierarch_renderer_valid_def Let_def bind_eq_Some_conv split: if_splits)
qed (use assms in \<open>simp add: trierarch_renderer_render_def trierarch_renderer_valid_def\<close>)

text \<open>Frames with any outcome, and whatever the rest of the host does.\<close>

inductive renderer_life :: "render_state \<Rightarrow> render_state \<Rightarrow> bool" where
  frame: "trierarch_renderer_render g st = Some (ok, st') \<Longrightarrow> renderer_life st st'"
| elsewhere: "renderer_life st (st\<lparr>rs_host := h, rs_tvg := t, rs_counters := c\<rparr>)"

lemma life_handles: "renderer_life\<^sup>*\<^sup>* st st' \<Longrightarrow> keeps_handles r (rs_renderer st) \<Longrightarrow> keeps_handles r (rs_renderer st')"
  by (induction rule: rtranclp_induct) (auto elim!: renderer_life.cases intro: render_handles)

end
