(* ===== verification/Frame_Callbacks.thy ===== *)
theory Frame_Callbacks
  imports Render_Frame
begin

text \<open>
  The frame callbacks over a frame: the latch moves those of the surfaces that take part, a presented frame answers them
  in the order of the surfaces, and a frame that failed puts them back.
\<close>

definition callbacks_of :: "host \<Rightarrow> sid \<Rightarrow> rid list \<times> rid list" where
  "callbacks_of h s = (case h_surfaces h s of None \<Rightarrow> ([], [])
     | Some x \<Rightarrow> (s_committed_frame_callbacks x, s_presented_frame_callbacks x))"

text \<open>Everything else the frame looks at.\<close>

definition backdrop :: "host \<Rightarrow> (sid \<Rightarrow> (bool \<times> bid option \<times> sid option) option) \<times> foci \<times> sid list" where
  "backdrop h = (shown h, foci h, sids h)"

lemma backdrop_upd:
  assumes "h_surfaces h s \<noteq> None" "\<And>x. s_mapped (f x) = s_mapped x" "\<And>x. s_current (f x) = s_current x" "\<And>x. s_parent (f x) = s_parent x"
  shows "backdrop (upd_surface s f h) = backdrop h" "h_log (upd_surface s f h) = h_log h"
  using assms by (auto simp: backdrop_def shown_def upd_surface_def foci_def fun_eq_iff split: option.splits)

lemma backdrop_keep [simp]:
  "backdrop (upd_perf f h) = backdrop h" "backdrop (emits es h) = backdrop h"
  "h_log (upd_perf f h) = h_log h" "h_log (emits es h) = h_log h @ es"
  "callbacks_of (upd_perf f h) = callbacks_of h" "callbacks_of (emits es h) = callbacks_of h"
  by (simp_all add: backdrop_def shown_def callbacks_of_def foci_def fun_eq_iff) (simp_all add: access_defs)

lemma callbacks_upd:
  "h_surfaces h s = Some x \<Longrightarrow> callbacks_of (upd_surface s f h) =
     (callbacks_of h)(s := (s_committed_frame_callbacks (f x), s_presented_frame_callbacks (f x)))"
  by (auto simp: callbacks_of_def upd_surface_def fun_eq_iff)

lemma backdrop_live: "backdrop h' = backdrop h \<Longrightarrow> h_surfaces h' s = None \<longleftrightarrow> h_surfaces h s = None"
proof -
  assume "backdrop h' = backdrop h"
  then have "shown h' s = shown h s" by (simp add: backdrop_def)
  then show ?thesis by (auto simp: shown_def)
qed

lemma backdrop_dom: "backdrop h' = backdrop h \<Longrightarrow> dom (h_surfaces h') = dom (h_surfaces h)"
  using backdrop_live [of h' h] by (auto simp: dom_def)

lemma backdrop_participates:
  "backdrop h' = backdrop h \<Longrightarrow> surface_participates_in_output h' s = surface_participates_in_output h s"
  by (rule participates_view) (simp_all add: backdrop_def)

text \<open>A fold over surfaces that changes only the callbacks of the surface it is at.\<close>

locale callback_pass =
  fixes step :: "sid \<Rightarrow> host \<Rightarrow> host"
    and change :: "rid list \<times> rid list \<Rightarrow> rid list \<times> rid list"
    and events :: "rid list \<times> rid list \<Rightarrow> event list"
  assumes backdrop: "h_surfaces h s \<noteq> None \<Longrightarrow> backdrop (step s h) = backdrop h"
    and changes: "h_surfaces h s \<noteq> None \<Longrightarrow> callbacks_of (step s h) = (callbacks_of h)(s := change (callbacks_of h s))"
    and logs: "h_surfaces h s \<noteq> None \<Longrightarrow> h_log (step s h) = h_log h @ events (callbacks_of h s)"
begin

lemma whole:
  assumes "distinct ss" "set ss \<subseteq> dom (h_surfaces h)"
  shows "backdrop (fold step ss h) = backdrop h \<and>
    (\<forall>s. callbacks_of (fold step ss h) s = (if s \<in> set ss then change (callbacks_of h s) else callbacks_of h s)) \<and>
    h_log (fold step ss h) = h_log h @ concat (map (\<lambda>s. events (callbacks_of h s)) ss)"
  using assms
proof (induction ss arbitrary: h)
  case (Cons s ss)
  have s: "h_surfaces h s \<noteq> None" using Cons.prems(2) by auto
  have "set ss \<subseteq> dom (h_surfaces (step s h))" using Cons.prems(2) backdrop_live [OF backdrop [OF s]] by auto
  then have IH: "backdrop (fold step ss (step s h)) = backdrop h"
    "\<And>t. callbacks_of (fold step ss (step s h)) t = (if t \<in> set ss then change (callbacks_of (step s h) t) else callbacks_of (step s h) t)"
    "h_log (fold step ss (step s h)) = h_log (step s h) @ concat (map (\<lambda>t. events (callbacks_of (step s h) t)) ss)"
    using Cons.IH [of "step s h"] Cons.prems(1) backdrop [OF s] by simp_all
  have "map (\<lambda>t. events (callbacks_of (step s h) t)) ss = map (\<lambda>t. events (callbacks_of h t)) ss"
    using Cons.prems(1) changes [OF s] by (intro map_cong) auto
  with IH(3) logs [OF s] have "h_log (fold step ss (step s h)) = h_log h @ events (callbacks_of h s) @ concat (map (\<lambda>t. events (callbacks_of h t)) ss)"
    by (simp only: append_assoc)
  then show ?case using IH(1,2) changes [OF s] Cons.prems(1) by auto
qed simp

end

definition answers_to :: "u32 \<Rightarrow> rid list \<Rightarrow> event list" where
  "answers_to t cs = concat (map (\<lambda>c. [Callback_done c t, Destroyed c]) cs)"

interpretation damage: callback_pass clear_damage "\<lambda>c. c" "\<lambda>_. []"
  by unfold_locales (auto simp: clear_damage_def backdrop_upd callbacks_upd callbacks_of_def)

interpretation requeued: callback_pass requeue_one "\<lambda>(c, p). (c @ p, [])" "\<lambda>_. []"
  by unfold_locales (auto simp: requeue_one_def backdrop_upd callbacks_upd callbacks_of_def)

interpretation sent: callback_pass "send_callbacks_of t" "\<lambda>(c, p). (c, [])" "\<lambda>(c, p). answers_to t p" for t
  by unfold_locales (auto simp: send_callbacks_of_def answers_to_def backdrop_upd callbacks_upd callbacks_of_def Let_def dom_keep)

section \<open>The latch\<close>

lemma latch_one_callbacks:
  assumes "h_surfaces h s \<noteq> None"
  shows "backdrop (latch_one s h) = backdrop h" "h_log (latch_one s h) = h_log h"
    "callbacks_of (latch_one s h) = (callbacks_of h)(s := ([], snd (callbacks_of h s) @ fst (callbacks_of h s)))"
  using assms by (auto simp: latch_one_def Let_def backdrop_upd callbacks_upd callbacks_of_def)

definition takes_part :: "host \<Rightarrow> sid \<Rightarrow> bool" where
  "takes_part h s \<longleftrightarrow> surface_participates_in_output h s = Some (Some True)"

lemma latch_callbacks:
  assumes "latch_all ss h = Some h'" "family_ok h" "distinct ss" "set ss \<subseteq> dom (h_surfaces h)"
  shows "backdrop h' = backdrop h \<and> h_log h' = h_log h \<and>
    (\<forall>s. callbacks_of h' s = (if s \<in> set ss \<and> takes_part h s then ([], snd (callbacks_of h s) @ fst (callbacks_of h s)) else callbacks_of h s))"
  using assms
proof (induction ss arbitrary: h)
  case (Cons s ss)
  then obtain x where x: "h_surfaces h s = Some x" by auto
  obtain r where r: "surface_participates_in_output h s = Some r"
    using Cons.prems(1) by (cases "surface_participates_in_output h s") auto
  obtain b where b: "r = Some b" using participates_family [OF Cons.prems(2) _ r] x by auto
  show ?case
  proof (cases "b \<and> s_committed_frame_callbacks x \<noteq> []")
    case True
    let ?k = "latch_one s h"
    note k = latch_one_callbacks [of h s, unfolded x, simplified]
    have "family_ok ?k" using latch_one_children [OF x] Cons.prems(2) by simp
    moreover have "set ss \<subseteq> dom (h_surfaces ?k)" using Cons.prems(4) backdrop_live [OF k(1)] by auto
    moreover have "latch_all ss ?k = Some h'" using Cons.prems(1) r b x True by simp
    moreover have "takes_part ?k = takes_part h" using backdrop_participates [OF k(1)] by (simp add: takes_part_def fun_eq_iff)
    ultimately show ?thesis using Cons.IH [of ?k] Cons.prems(3) k r b True by (auto simp: takes_part_def)
  next
    case False
    then have "latch_all ss h = Some h'" using Cons.prems(1) r b x by (cases b) auto
    then have IH: "backdrop h' = backdrop h \<and> h_log h' = h_log h \<and>
      (\<forall>t. callbacks_of h' t = (if t \<in> set ss \<and> takes_part h t then ([], snd (callbacks_of h t) @ fst (callbacks_of h t)) else callbacks_of h t))"
      using Cons by simp
    moreover have "callbacks_of h s = ([], snd (callbacks_of h s) @ fst (callbacks_of h s))" if "takes_part h s"
      using that r b False x by (simp add: takes_part_def callbacks_of_def)
    ultimately show ?thesis using Cons.prems(3) by auto
  qed
qed simp

section \<open>The end of a frame\<close>

lemma host_inv_distinct: "host_inv h \<Longrightarrow> distinct (sids h)"
  by (auto simp: host_inv_def sane_def owned_def ledger_def)

lemma presented_callbacks:
  assumes "host_inv h"
  shows "callbacks_of (trierarch_wayland_frame_presented t h) s = (fst (callbacks_of h s), [])"
    "h_log (trierarch_wayland_frame_presented t h) = h_log h @ concat (map (\<lambda>s. answers_to t (snd (callbacks_of h s))) (sids h))"
proof -
  note d = host_inv_distinct [OF assms] and l = sids_live [OF assms]
  let ?h1 = "fold clear_damage (sids h) h"
  have 1: "backdrop ?h1 = backdrop h" "callbacks_of ?h1 = callbacks_of h" "h_log ?h1 = h_log h"
    using damage.whole [OF d l] by (auto simp: fun_eq_iff)
  have s1: "sids ?h1 = sids h" using 1(1) by (simp add: backdrop_def)
  have l1: "set (sids ?h1) \<subseteq> dom (h_surfaces ?h1)" using l backdrop_dom [OF 1(1)] s1 by simp
  note 2 = sent.whole [of "sids ?h1" ?h1 t]
  let ?h2 = "trierarch_surface_send_frame_callbacks t ?h1"
  have r: "same_but_repaint ?h2 (trierarch_wayland_frame_presented t h)"
    by (simp add: trierarch_wayland_frame_presented_def repaint_frame_done_def Let_def)
  have "callbacks_of (trierarch_wayland_frame_presented t h) s = callbacks_of ?h2 s"
    using same_but_repaintD [OF r] by (simp add: callbacks_of_def)
  also have "\<dots> = (fst (callbacks_of h s), [])"
  proof (cases "s \<in> set (sids h)")
    case True
    then show ?thesis using 2 d s1 l1 1(2) by (simp add: trierarch_surface_send_frame_callbacks_def case_prod_beta)
  next
    case False
    then have "h_surfaces h s = None" using assms by (auto simp: host_inv_def sane_def side_ok_def)
    then show ?thesis using 2 d s1 l1 1(2) False by (simp add: trierarch_surface_send_frame_callbacks_def callbacks_of_def)
  qed
  finally show "callbacks_of (trierarch_wayland_frame_presented t h) s = (fst (callbacks_of h s), [])" .
  show "h_log (trierarch_wayland_frame_presented t h) = h_log h @ concat (map (\<lambda>s. answers_to t (snd (callbacks_of h s))) (sids h))"
    using same_but_repaintD(8) [OF r] 2 d s1 l1 1(2,3) by (simp add: trierarch_surface_send_frame_callbacks_def case_prod_beta)
qed

lemma requeued_callbacks:
  assumes "host_inv h"
  shows "callbacks_of (trierarch_surface_requeue_frame_callbacks h) s = (fst (callbacks_of h s) @ snd (callbacks_of h s), [])"
proof (cases "s \<in> set (sids h)")
  case True
  then show ?thesis using requeued.whole [OF host_inv_distinct [OF assms] sids_live [OF assms]]
    by (simp add: trierarch_surface_requeue_frame_callbacks_def case_prod_beta)
next
  case False
  then have "h_surfaces h s = None" using assms by (auto simp: host_inv_def sane_def side_ok_def)
  then show ?thesis using False requeued.whole [OF host_inv_distinct [OF assms] sids_live [OF assms]]
    by (simp add: trierarch_surface_requeue_frame_callbacks_def callbacks_of_def)
qed

end
