(* ===== verification/Renderer_Properties.thy ===== *)
theory Renderer_Properties
  imports Renderer_Objects Frame_Callbacks
begin

text \<open>
  What the renderer promises: which surfaces a frame draws, that it returns, that no buffer is released while
  the GPU reads it, and that the upload by the CPU stays inside the pool. Two theorems state where the code falls short.
\<close>

section \<open>A host with a visible surface\<close>

lemma foci_commit: "foci (trierarch_surface_commit s h) = foci h"
proof -
  have 1: "foci (snd (commit_callbacks s h)) = foci h" for h
    by (simp add: commit_callbacks_def Let_def split: option.splits)
  have 2: "foci (commit_drop_current s h) = foci h" for h
    by (simp add: commit_drop_current_def trierarch_defer_buffer_release_def Let_def split: option.splits)
  have 3: "foci (trierarch_explicit_sync_wait b h) = foci h" "foci (trierarch_explicit_sync_adopt_release r p h) = foci h" for b r p h
    by (simp_all add: trierarch_explicit_sync_wait_def trierarch_explicit_sync_adopt_release_def Let_def split: option.splits)
  have 4: "foci (commit_sync s b h) = foci h" "foci (commit_drop_sync s h) = foci h" for b h
    by (simp_all add: commit_sync_def commit_drop_sync_def Let_def 3 split: option.splits)
  have 5: "foci (commit_map s p h) = foci h" for p h
    by (simp add: commit_map_def split: option.splits)
  have 6: "foci (commit_replace s p h) = foci h" for p h
    by (simp add: commit_replace_def Let_def 2 4 5 trierarch_output_enter_surface_def split: option.splits)
  have 7: "foci (commit_buffer s h) = foci h" for h
    by (simp add: commit_buffer_def Let_def 6 split: option.splits)
  have 8: "foci (commit_configure s h) = foci h" for h
    by (simp add: commit_configure_def trierarch_layer_surface_commit_def trierarch_surface_send_configure_def upd_layer_def Let_def
        split: option.splits prod.splits)
  have 9: "foci (commit_present s h) = foci h" for h
    by (simp add: commit_present_def split: option.splits)
  show ?thesis
    by (simp add: trierarch_surface_commit_def Let_def 1 [of h, unfolded snd_def] 7 8 9 split: option.splits prod.splits)
      (use 1 [of h] in auto)
qed

text \<open>The surface of the other witnesses after its commit, shown on the output.\<close>

definition lit :: host where
  "lit = upd_surface 7 (\<lambda>x. x\<lparr>s_mapped := True, s_layer_surface := None\<rparr>) (trierarch_surface_commit 7 attached)"

lemma lit_surfaces:
  obtains x where "h_surfaces lit = [7 \<mapsto> x]" "s_mapped x" "s_layer_surface x = None" "s_parent x = None" "s_current x = Some 9"
proof -
  obtain K w where h: "sane {} attached K {#}" "deferred_ok attached K w" using attached_inv by (rule host_invE)
  have on: "on_surface 7 attached (trierarch_surface_commit 7 attached)"
    using commit_sane [OF h, of 7] by (simp add: attached_set(2))
  obtain y where y: "h_surfaces (trierarch_surface_commit 7 attached) 7 = Some y" "s_current y = Some 9"
    by (rule committed_surface)
  have "h_surfaces lit = [7 \<mapsto> y\<lparr>s_mapped := True, s_layer_surface := None\<rparr>]"
    using y on by (auto simp: lit_def upd_surface_def on_surface_def attached_set(2))
  moreover have "s_parent y = None" using on y by (simp add: on_surface_def attached_set(2) new_surface_def)
  ultimately show ?thesis using that [of "y\<lparr>s_mapped := True, s_layer_surface := None\<rparr>"] y(2) by simp
qed

lemma lit_foci: "foci lit = foci boot"
proof -
  have "foci lit = foci attached" unfolding lit_def by (simp add: foci_commit)
  also have "foci attached = foci boot"
    unfolding attached_set(1)
    by (simp add: surface_set_pending_buffer_def mark_attached_def Let_def trierarch_buffer_ref_def one_buffer_def one_surface_def
        compositor_create_surface_def manager_create_u32_rgba_buffer_def single_pixel_buffer_create_def new_resource_def
        foci_upd_server split: option.splits) (simp add: foci_def)
  finally show ?thesis .
qed

lemma lit_host: "host_inv lit" "pointer_live lit" "rooted lit" "layers_ok lit"
proof -
  obtain y where "h_surfaces (trierarch_surface_commit 7 attached) 7 = Some y" by (rule committed_surface)
  then show "host_inv lit" unfolding lit_def by (intro host_inv_upd_surface committed_inv) simp_all
  obtain x where x: "h_surfaces lit = [7 \<mapsto> x]" "s_parent x = None" "s_layer_surface x = None" by (rule lit_surfaces)
  show "pointer_live lit" using lit_foci by (simp add: pointer_live_def foci_def)
  show "rooted lit" using x by (auto simp: rooted_def intro!: exI [of _ "[7]"] split: if_splits)
  show "layers_ok lit" using x by (auto simp: layers_ok_def split: if_splits)
qed

definition answers :: egl_answers where
  "answers = \<lparr>ea_calloc = True, ea_get_display = True, ea_initialize = True, ea_choose_config = True, ea_create_context = True,
     ea_create_surface = True, ea_make_current = True, ea_create_image = True, ea_destroy_image = True, ea_image_target = True,
     ea_native_client_buffer = True, ea_create_sync = True, ea_destroy_sync = True, ea_client_wait_sync = True,
     ea_extensions = Some ''EGL_EXT_image_dma_buf_import'', ea_bind = True, ea_query = True, ea_bound = True,
     ea_window = (800, 600), ea_background = \<lparr>sa_vertex = True, sa_fragment = True, sa_link = True\<rparr>,
     ea_texture = \<lparr>sa_vertex = True, sa_fragment = True, sa_link = True\<rparr>, ea_gen_texture = True\<rparr>"

lemmas create_defs = trierarch_renderer_create_def create_fail_def make_objects_def make_program_def compile_shader_def
  load_functions_def zero_renderer_def

text \<open>A graphics stack that imports every buffer and signals every fence; \<open>swaps\<close> is the result of the swap.\<close>

definition stack :: "bool \<Rightarrow> gl" where
  "stack swaps = \<lparr>gl_native = (\<lambda>_. True), gl_create_image = (\<lambda>_ _ _. True), gl_bound = (\<lambda>_ _. True), gl_dup = id,
     gl_sync_start = (\<lambda>_. True), gl_sync_end = (\<lambda>_. True), gl_malloc = True, gl_make_current = True, gl_window = (800, 600),
     gl_swap = swaps, gl_fence = Some 1, gl_wait = (\<lambda>_. True), gl_up = (\<lambda>_. True), gl_started_ns = 0, gl_swap_started_ns = 0,
     gl_finished_ns = 0\<rparr>"

definition scene :: "host \<Rightarrow> render_state" where
  "scene h = \<lparr>rs_host = h, rs_tvg = initial_tvg, rs_renderer = the (fst (trierarch_renderer_create True answers h)),
     rs_counters = zero_render_counters 0, rs_visits = [], rs_draws = [], rs_gpu = {}\<rparr>"

lemma scene_fields [simp]:
  "rs_host (scene h) = h" "rs_gpu (scene h) = {}" "rn_valid (rs_renderer (scene h))"
  "rn_client_wait_sync (rs_renderer (scene h))" "rn_destroy_sync (rs_renderer (scene h))"
  by (simp_all add: scene_def create_defs answers_def Let_def)

lemma stack_fields [simp]: "gl_make_current (stack swaps)" "gl_swap (stack swaps) = swaps" "waits (stack swaps)"
  by (simp_all add: stack_def waits_def)

section \<open>Which surfaces a frame draws\<close>

text \<open>C16: a frame draws exactly the surfaces that take part in the output according to the host (the surfaces whose frame
  callbacks it then latches), and each once unless a layer surface with a tiny viewport buffer is among them.\<close>

theorem frame_draws_participants:
  assumes "rn_valid (rs_renderer st)" "gl_make_current g" "host_inv (rs_host st)" "pointer_live (rs_host st)"
    "rooted (rs_host st)" "layers_ok (rs_host st)"
  shows "\<exists>ok st' h. trierarch_renderer_render g st = Some (ok, st') \<and> trierarch_flush_deferred_releases (rs_host st) = Some h \<and>
    (\<forall>s. s \<in> set (visited st') \<longleftrightarrow> surface_participates_in_output (rs_host st) s = Some (Some True)) \<and>
    (tiny_layers h \<or> distinct (visited st'))"
proof -
  obtain st1 where st1: "render_begin g st = Some st1" "host_inv (rs_host st1)" "h_surfaces (rs_host st1) = h_surfaces (rs_host st)"
    "foci (rs_host st1) = foci (rs_host st)" using begin_returns [OF assms(3)] by blast
  have h: "trierarch_flush_deferred_releases (rs_host st) = Some (rs_host st1)" by (rule begin_keeps(4) [OF st1(1)])
  obtain st' where st': "trierarch_renderer_render g st = Some (gl_make_current g \<and> gl_swap g, st')" "visited st' = output_order (rs_host st1)"
    using frame_returns [OF assms(1,3-5), of g] assms(2) h by auto
  note p = participates_cong [OF st1(3,4)]
  have "s \<in> set (visited st') \<longleftrightarrow> surface_participates_in_output (rs_host st) s = Some (Some True)" for s
    using output_order_member [OF st1(2), of s] assms(6) st'(2) p by simp
  moreover have "tiny_layers (rs_host st1) \<or> distinct (visited st')"
    using output_order_distinct [OF st1(2)] st'(2) by auto
  ultimately show ?thesis using st'(1) h by blast
qed

theorem frame_draws_participants_witness:
  "\<exists>ok st'. trierarch_renderer_render (stack True) (scene lit) = Some (ok, st') \<and> 7 \<in> set (visited st')"
proof -
  obtain ok st' where r: "trierarch_renderer_render (stack True) (scene lit) = Some (ok, st')"
    "\<forall>s. s \<in> set (visited st') \<longleftrightarrow> surface_participates_in_output lit s = Some (Some True)"
    using frame_draws_participants [of "scene lit" "stack True"] lit_host by auto
  obtain x where x: "h_surfaces lit = [7 \<mapsto> x]" "s_mapped x" "s_parent x = None" "s_current x = Some 9" by (rule lit_surfaces)
  have "foci lit = foci boot" by (rule lit_foci)
  with x have "surface_participates_in_output lit 7 = Some (Some True)"
    by (simp add: surface_participates_in_output_def ancestors_shown.simps foci_def)
  with r show ?thesis by blast
qed

section \<open>A frame returns\<close>

text \<open>Where the parents of the surfaces form no cycle a frame returns, whatever EGL answers; it reports success exactly when
  the context was made current and the swap succeeded, and it keeps the invariant of the host.\<close>

theorem frame_terminates:
  assumes "rn_valid (rs_renderer st)" "host_inv (rs_host st)" "pointer_live (rs_host st)" "rooted (rs_host st)"
  shows "\<exists>st'. trierarch_renderer_render g st = Some (gl_make_current g \<and> gl_swap g, st') \<and> host_inv (rs_host st')"
  using frame_returns [OF assms, of g] by blast

theorem frame_terminates_witness:
  "\<exists>st'. trierarch_renderer_render (stack False) (scene lit) = Some (False, st') \<and> host_inv (rs_host st')"
  using frame_terminates [of "scene lit" "stack False"] lit_host by simp

text \<open>C26: where some visible surfaces are closed under taking parents, which is a cycle of parents, the latch of the frame
  callbacks never returns.\<close>

theorem parent_cycle_hangs:
  assumes "family_ok h" "set (sids h) = dom (h_surfaces h)" "closed_under_parents h C" "a \<in> C"
  shows "trierarch_surface_latch_frame_callbacks h = None"
proof -
  have "visible h a" using assms(3,4) by (simp add: closed_under_parents_def)
  then have "a \<in> set (sids h)" using visible_live [of h a] assms(2) by auto
  then show ?thesis
    using latch_endless [OF assms(1,3,4)] assms(2) by (simp add: trierarch_surface_latch_frame_callbacks_def)
qed

text \<open>Two surfaces, each the subsurface of the other.\<close>

definition knot :: host where
  "knot = upd_server (sv_surfaces_update (\<lambda>_. [7, 8])) (boot\<lparr>h_surfaces :=
     [7 \<mapsto> (new_surface 3)\<lparr>s_mapped := True, s_current := Some 9, s_parent := Some 8, s_children := [8]\<rparr>,
      8 \<mapsto> (new_surface 4)\<lparr>s_mapped := True, s_current := Some 9, s_parent := Some 7, s_children := [7]\<rparr>]\<rparr>)"

theorem parent_cycle_hangs_witness: "trierarch_surface_latch_frame_callbacks knot = None"
proof -
  have "family_ok knot" by (auto simp: knot_def family_ok_iff children_of_def upd_server_def split: if_splits)
  moreover have "set (sids knot) = dom (h_surfaces knot)" by (auto simp: knot_def upd_server_def)
  moreover have "closed_under_parents knot {7, 8}"
    by (simp add: knot_def closed_under_parents_def visible_def upd_server_def)
  ultimately show ?thesis using parent_cycle_hangs [of knot "{7, 8}" 7] by simp
qed

section \<open>Frame callbacks\<close>

text \<open>C17: between frames no callback is latched, and a frame keeps that. A presented frame answers exactly the committed callbacks of the surfaces it has drawn, each
  with the frame's time and then its destruction, in the order of the surfaces; all others wait. A frame whose swap failed leaves every callback where it was.\<close>

theorem frame_callbacks_answered:
  assumes "rn_valid (rs_renderer st)" "gl_make_current g" "host_inv (rs_host st)" "pointer_live (rs_host st)" "rooted (rs_host st)"
    "\<And>s. snd (callbacks_of (rs_host st) s) = []"
  shows "\<exists>st' h. trierarch_renderer_render g st = Some (gl_swap g, st') \<and> trierarch_flush_deferred_releases (rs_host st) = Some h \<and>
    (if gl_swap g
     then (\<forall>s. callbacks_of (rs_host st') s = (if takes_part (rs_host st) s then [] else fst (callbacks_of (rs_host st) s), [])) \<and>
       h_log (rs_host st') = h_log h @ concat (map (\<lambda>s. answers_to (frame_time g) (fst (callbacks_of (rs_host st) s)))
         (filter (takes_part (rs_host st)) (sids (rs_host st))))
     else (\<forall>s. callbacks_of (rs_host st') s = callbacks_of (rs_host st) s))"
proof -
  obtain st' h1 h2 where r: "trierarch_renderer_render g st = Some (gl_swap g, st')" "trierarch_flush_deferred_releases (rs_host st) = Some h1"
    "trierarch_surface_latch_frame_callbacks h1 = Some h2" "rs_host st' = finished_host g h2"
    using frame_returns [OF assms(1,3-5), of g] assms(2) by auto
  obtain st1 where st1: "render_begin g st = Some st1" "host_inv (rs_host st1)" "h_surfaces (rs_host st1) = h_surfaces (rs_host st)"
    "foci (rs_host st1) = foci (rs_host st)" "sids (rs_host st1) = sids (rs_host st)" using begin_returns [OF assms(3)] by blast
  have h1: "h1 = rs_host st1" using begin_keeps(4) [OF st1(1)] r(2) by simp
  have c1: "callbacks_of h1 = callbacks_of (rs_host st)" "takes_part h1 = takes_part (rs_host st)" "host_inv h1" "sids h1 = sids (rs_host st)"
    using st1 participates_cong(1) [OF st1(3,4)] by (simp_all add: h1 callbacks_of_def takes_part_def fun_eq_iff)
  have l: "latch_all (sids h1) h1 = Some h2" using r(3) by (simp add: trierarch_surface_latch_frame_callbacks_def)
  have I2: "host_inv h2" by (rule latch_inv [OF l c1(3) sids_live [OF c1(3)]])
  have part: "s \<in> set (sids h1)" if "takes_part h1 s" for s
    using that c1(3) by (auto simp: takes_part_def surface_participates_in_output_def host_inv_def sane_def side_ok_def split: option.splits)
  have "family_ok h1" using c1(3) by (simp add: host_inv_def)
  note lc = latch_callbacks [OF l this host_inv_distinct [OF c1(3)] sids_live [OF c1(3)]]
  have c2: "callbacks_of h2 s = (if takes_part h1 s then ([], fst (callbacks_of h1 s)) else callbacks_of h1 s)" for s
    using lc part [of s] assms(6) c1(1) by (auto simp: prod_eq_iff)
  have s2: "sids h2 = sids h1" "h_log h2 = h_log h1" using lc by (simp_all add: backdrop_def)
  have "concat (map (\<lambda>s. answers_to t (snd (callbacks_of h2 s))) ss) =
      concat (map (\<lambda>s. answers_to t (fst (callbacks_of h1 s))) (filter (takes_part h1) ss))" for t ss
    using assms(6) c1(1) by (induction ss) (simp_all add: c2 answers_to_def)
  then have "h_log (rs_host st') = h_log h1 @ concat (map (\<lambda>s. answers_to (frame_time g) (fst (callbacks_of h1 s))) (filter (takes_part h1) (sids h1)))"
    if "gl_swap g" using that r(4) presented_callbacks(2) [OF I2] s2 by (simp add: finished_host_def)
  moreover have "callbacks_of (rs_host st') s = (if takes_part h1 s then [] else fst (callbacks_of h1 s), [])" if "gl_swap g" for s
    using that r(4) presented_callbacks(1) [OF I2] c2 [of s] by (simp add: finished_host_def)
  moreover have "callbacks_of (rs_host st') s = callbacks_of h1 s" if "\<not> gl_swap g" for s
    using that r(4) requeued_callbacks [OF I2] c2 [of s] assms(6) [of s] c1(1) by (simp add: finished_host_def prod_eq_iff)
  ultimately show ?thesis using r(1,2) c1 by auto
qed

text \<open>Two callbacks committed on the visible surface.\<close>

definition ringing :: host where
  "ringing = upd_surface 7 (\<lambda>x. x\<lparr>s_committed_frame_callbacks := [21, 22], s_presented_frame_callbacks := []\<rparr>) lit"

lemma distinct_singleton:
  assumes "distinct xs" "set xs = {a}"
  shows "xs = [a]"
proof -
  have "length xs = 1" using distinct_card [OF assms(1)] assms(2) by simp
  then show ?thesis using assms(2) by (cases xs) auto
qed

lemma ringing_host: "host_inv ringing" "pointer_live ringing" "rooted ringing" "takes_part ringing 7" "sids ringing = [7]"
  "\<And>s. callbacks_of ringing s = (if s = 7 then [21, 22] else [], [])"
proof -
  obtain x where x: "h_surfaces lit = [7 \<mapsto> x]" "s_mapped x" "s_parent x = None" "s_current x = Some 9" by (rule lit_surfaces)
  have b: "backdrop ringing = backdrop lit" unfolding ringing_def using x by (intro backdrop_upd) auto
  show "host_inv ringing" unfolding ringing_def using lit_host(1) x by (intro host_inv_upd_surface) auto
  then have "set (sids ringing) = {7}" using x by (auto simp: ringing_def host_inv_def sane_def side_ok_def upd_surface_def)
  then show "sids ringing = [7]"
    by (rule distinct_singleton [OF host_inv_distinct [OF \<open>host_inv ringing\<close>]])
  show "pointer_live ringing" using lit_foci b by (simp add: backdrop_def pointer_live_def foci_def)
  show "rooted ringing" using x by (auto simp: rooted_def ringing_def upd_surface_def intro!: exI [of _ "[7]"] split: if_splits)
  have "takes_part lit 7" using x lit_foci
    by (simp add: takes_part_def surface_participates_in_output_def ancestors_shown.simps foci_def)
  then show "takes_part ringing 7" using backdrop_participates [OF b] by (simp add: takes_part_def)
  show "callbacks_of ringing s = (if s = 7 then [21, 22] else [], [])" for s
    using x by (simp add: ringing_def callbacks_of_def upd_surface_def)
qed

theorem frame_callbacks_answered_witness:
  "\<exists>st' h. trierarch_renderer_render (stack True) (scene ringing) = Some (True, st') \<and>
     trierarch_flush_deferred_releases ringing = Some h \<and> h_log (rs_host st') = h_log h @ [Callback_done 21 0, Destroyed 21, Callback_done 22 0, Destroyed 22]"
proof -
  have "frame_time (stack True) = 0" by (simp add: frame_time_def stack_def)
  moreover obtain st' h where "trierarch_renderer_render (stack True) (scene ringing) = Some (True, st')"
    "trierarch_flush_deferred_releases ringing = Some h"
    "h_log (rs_host st') = h_log h @ concat (map (\<lambda>s. answers_to (frame_time (stack True)) (fst (callbacks_of ringing s)))
       (filter (takes_part ringing) (sids ringing)))"
    using frame_callbacks_answered [of "scene ringing" "stack True"] ringing_host by auto
  ultimately show ?thesis using ringing_host(4-6) by (auto simp: answers_to_def)
qed

section \<open>The GPU and the release of buffers\<close>


text \<open>After a frame whose swap failed there is no fence, so the next frame releases buffers although the GPU may still read everything the
  failed frame has drawn from images.\<close>

theorem failed_swap_unfenced:
  assumes "rn_valid (rs_renderer st)" "rn_client_wait_sync (rs_renderer st)" "rn_destroy_sync (rs_renderer st)" "gl_make_current g"
    "trierarch_renderer_render g st = Some (False, st')" "d \<in> set (rs_draws st')" "imported d" "render_begin g' st' = Some st1"
  shows "dr_buffer d \<in> rs_gpu st1"
  using failed_swap [OF assms(5,4,1,2,3)] begin_fencing(3) [OF assms(8)] assms(6,7) by (simp add: gpu_reads_draws_def)

text \<open>A surface that shows a buffer EGL knows.\<close>

definition wall :: host where
  "wall = upd_server (sv_surfaces_update (\<lambda>_. [7])) (boot\<lparr>h_surfaces :=
     [7 \<mapsto> (new_surface 3)\<lparr>s_mapped := True, s_current := Some 9\<rparr>],
     h_buffers := [9 \<mapsto> calloc_buffer\<lparr>b_references := 1, b_busy_users := 1, b_width := 8, b_height := 8, b_egl_buffer := True,
       b_egl_resource := Some 5\<rparr>]\<rparr>)"

definition wall_call :: draw_call where
  "wall_call = \<lparr>dr_surface = 7, dr_buffer = 9, dr_rect = (0, 0, 8, 8), dr_source = (0, 0, 1, 1), dr_path = Path_egl_wayland,
     dr_swizzle = False, dr_opaque = False\<rparr>"

lemma wall_fields [simp]: "sids wall = [7]" "h_surfaces wall = [7 \<mapsto> (new_surface 3)\<lparr>s_mapped := True, s_current := Some 9\<rparr>]"
  "h_buffers wall 9 = Some (calloc_buffer\<lparr>b_references := 1, b_busy_users := 1, b_width := 8, b_height := 8, b_egl_buffer := True,
       b_egl_resource := Some 5\<rparr>)" "h_deferred wall = None" "sv_cursor_surface (h_server wall) = None"
  by (simp_all add: wall_def upd_server_def)

lemma wall_draw:
  assumes "rs_host st = wall" "rn_create_image (rs_renderer st)" "rn_image_target (rs_renderer st)"
  shows "\<exists>st'. draw_surface (stack b) 7 0 0 st = st' \<and> rs_host st' = wall \<and> rs_draws st' = rs_draws st @ [wall_call] \<and>
    rs_gpu st' = insert 9 (rs_gpu st)"
  using assms by (simp add: draw_surface_def surface_extent_def new_surface_def zero_viewport_state_def calloc_buffer_def
      fill_texture_def import_buffer_def import_ahb_def import_egl_wayland_def stack_def wall_call_def texture_window_def c_div_def Let_def)

lemma wall_output:
  assumes "rs_host st = wall" "rn_create_image (rs_renderer st)" "rn_image_target (rs_renderer st)"
  shows "draw_output (stack b) st = Some (draw_surface (stack b) 7 0 0 st)"
proof -
  have d: "rs_host (draw_surface (stack b) 7 0 0 st) = wall" using wall_draw [OF assms] by blast
  have none: "draw_pass chosen (stack b) st = Some st" if "rs_host st = wall"
    "chosen \<in> {pass_background, pass_tiny, pass_top}" for chosen st
    using that by (auto simp: draw_pass_def pass_background_def pass_tiny_def pass_top_def is_tiny_viewport_underlay_def
        new_surface_def zero_viewport_state_def)
  have "draw_pass pass_normal (stack b) st = Some (draw_surface (stack b) 7 0 0 st)"
    using assms(1) by (simp add: draw_pass_def pass_normal_def is_tiny_viewport_underlay_def new_surface_def
        zero_viewport_state_def i32_wrap_def Let_def)
  with none [of st] none [OF d] show ?thesis using assms(1) d by (simp add: draw_output_def draw_cursor_def Let_def)
qed

lemma wall_flush: "trierarch_flush_deferred_releases (wall :: host) = Some wall"
  by (simp add: trierarch_flush_deferred_releases_def flush_loop.simps)

lemma wall_latch: "trierarch_surface_latch_frame_callbacks wall = Some wall"
  by (simp add: trierarch_surface_latch_frame_callbacks_def surface_participates_in_output_def ancestors_shown.simps new_surface_def)

lemma wall_begin:
  "\<exists>st1. render_begin (stack b) (scene wall) = Some st1 \<and> rs_host st1 = wall \<and> rs_gpu st1 = {} \<and> rs_draws st1 = [] \<and>
     rn_create_image (rs_renderer st1) \<and> rn_image_target (rs_renderer st1) \<and> fencing st1 = (None, True, True, True)"
  by (simp add: render_begin_def scene_def create_defs answers_def trierarch_renderer_wait_idle_def wall_flush
      fencing_def Let_def)

lemma wall_frame:
  "\<exists>st'. trierarch_renderer_render (stack b) (scene wall) = Some (b, st') \<and> rs_draws st' = [wall_call] \<and> rs_gpu st' = {9} \<and>
     rs_host st' = (if b then trierarch_wayland_frame_presented 0 wall else trierarch_surface_requeue_frame_callbacks wall)"
proof -
  obtain st1 where st1: "render_begin (stack b) (scene wall) = Some st1" "rs_host st1 = wall" "rs_gpu st1 = {}" "rs_draws st1 = []"
    "rn_create_image (rs_renderer st1)" "rn_image_target (rs_renderer st1)" "fencing st1 = (None, True, True, True)"
    using wall_begin by blast
  have d: "\<exists>st3. draw_output (stack b) (st1\<lparr>rs_renderer := r\<rparr>) = Some st3 \<and> rs_host st3 = wall \<and> rs_draws st3 = [wall_call] \<and>
    rs_gpu st3 = {9} \<and> fencing st3 = fencing (st1\<lparr>rs_renderer := r\<rparr>)" if "rn_create_image r" "rn_image_target r" for r
    using wall_draw [of "st1\<lparr>rs_renderer := r\<rparr>" b] wall_output [of "st1\<lparr>rs_renderer := r\<rparr>" b] st1 that by (auto simp: draw_surface_gpu)
  obtain r updated where r: "trierarch_renderer_render (stack b) (scene wall) =
      Option.bind (draw_output (stack b) (st1\<lparr>rs_renderer := r\<rparr>)) (render_finish (stack b) updated)"
    "fencing (st1\<lparr>rs_renderer := r\<rparr>) = fencing st1" "rn_create_image r" "rn_image_target r"
    using render_unfolds [OF _ st1(1)] st1(5,6) by auto
  obtain st3 where st3: "draw_output (stack b) (st1\<lparr>rs_renderer := r\<rparr>) = Some st3" "rs_host st3 = wall" "rs_draws st3 = [wall_call]"
    "rs_gpu st3 = {9}" "fencing st3 = (None, True, True, True)" using d [OF r(3,4)] r(2) st1(7) by auto
  then show ?thesis
    using r(1) by (auto simp: render_finish_def wall_latch Let_def upd_host_def render_fence_def stack_def fencing_def)
qed


theorem failed_swap_unfenced_witness:
  "\<exists>st st1. trierarch_renderer_render (stack False) (scene wall) = Some (False, st) \<and> render_begin (stack True) st = Some st1 \<and>
     9 \<in> rs_gpu st1"
proof -
  obtain st where st: "trierarch_renderer_render (stack False) (scene wall) = Some (False, st)" "rs_draws st = [wall_call]"
    "rs_host st = trierarch_surface_requeue_frame_callbacks wall" using wall_frame [of False] by auto
  have "h_deferred (trierarch_surface_requeue_frame_callbacks wall) = None"
    by (simp add: trierarch_surface_requeue_frame_callbacks_def requeue_one_def upd_surface_def)
  then have "\<exists>h. trierarch_flush_deferred_releases (trierarch_surface_requeue_frame_callbacks wall) = Some h"
    by (simp add: trierarch_flush_deferred_releases_def flush_loop.simps)
  then obtain st1 where st1: "render_begin (stack True) st = Some st1"
    using begin_flushes [of st] st(3) by auto
  have "dr_buffer wall_call \<in> rs_gpu st1"
    by (rule failed_swap_unfenced [of "scene wall" "stack False", OF _ _ _ _ st(1) _ _ st1]) (simp_all add: st imported_def wall_call_def)
  then show ?thesis using st(1) st1 by (auto simp: wall_call_def)
qed

section \<open>The objects of EGL\<close>

text \<open>C19: a renderer that could not be made leaves no object of EGL behind. One that was made is freed completely, each object once,
  after frames with any outcome; the fence of the last frame is freed as well.\<close>

theorem renderer_objects_freed:
  assumes "trierarch_renderer_create window a h = (r, e, h')"
  shows "case r of None \<Rightarrow> \<forall>x. balance x e = 0
    | Some r0 \<Rightarrow> \<forall>st st' x. rs_renderer st = r0 \<longrightarrow> renderer_life\<^sup>*\<^sup>* st st' \<longrightarrow>
        balance x (e @ trierarch_renderer_destroy (Some (rs_renderer st'))) =
          - of_bool (x = Frame_fence \<and> rn_frame_fence (rs_renderer st') \<noteq> None)"
proof (cases r)
  case None
  with create_balance [of a window h] show ?thesis by (simp add: assms made_or_nothing_def)
next
  case (Some r0)
  have c: "accounts owned_objects e r0" "handles r0 = (True, True, True, True, True, True, ea_destroy_sync a)" "rn_frame_fence r0 = None"
    using create_balance [of a window h] Some by (simp_all add: assms made_or_nothing_def)
  have "balance x (e @ trierarch_renderer_destroy (Some (rs_renderer st'))) =
      - of_bool (x = Frame_fence \<and> rn_frame_fence (rs_renderer st') \<noteq> None)"
    if "rs_renderer st = r0" "renderer_life\<^sup>*\<^sup>* st st'" for st st' x
  proof -
    have "keeps_handles r0 (rs_renderer st')"
      by (rule life_handles [OF that(2)]) (simp add: that(1) keeps_handles_def c(3))
    then have k: "handles (rs_renderer st') = handles r0" "rn_frame_fence (rs_renderer st') = None \<or> rn_destroy_sync (rs_renderer st')"
      using handles_sync [of "rs_renderer st'" r0] by (auto simp: keeps_handles_def)
    have "renderer_consistent (rs_renderer st')" using k c(2) by (simp add: renderer_consistent_def handles_def)
    from renderers.torn_down [OF c(1) this, of x] show ?thesis
      using k(1) c(2,3) by (cases x) (simp_all add: handles_def)
  qed
  with Some show ?thesis by simp
qed

theorem renderer_objects_freed_witness:
  "(\<exists>r e h. trierarch_renderer_create True answers boot = (Some r, e, h) \<and> balance Gl_texture (e @ trierarch_renderer_destroy (Some r)) = 0) \<and>
   (\<exists>e h. trierarch_renderer_create True (answers\<lparr>ea_gen_texture := False\<rparr>) boot = (None, e, h) \<and> balance Egl_context e = 0)"
proof
  obtain r e h where c: "trierarch_renderer_create True answers boot = (Some r, e, h)" by (simp add: create_defs answers_def Let_def)
  have "balance Gl_texture (e @ trierarch_renderer_destroy (Some (rs_renderer ((scene boot)\<lparr>rs_renderer := r\<rparr>)))) = 0"
    using renderer_objects_freed [OF c, unfolded option.case, rule_format,
        of "(scene boot)\<lparr>rs_renderer := r\<rparr>" "(scene boot)\<lparr>rs_renderer := r\<rparr>" Gl_texture]
    by simp
  with c show "\<exists>r e h. trierarch_renderer_create True answers boot = (Some r, e, h) \<and>
      balance Gl_texture (e @ trierarch_renderer_destroy (Some r)) = 0" by simp
  obtain e h where d: "trierarch_renderer_create True (answers\<lparr>ea_gen_texture := False\<rparr>) boot = (None, e, h)"
    by (simp add: create_defs answers_def Let_def)
  with renderer_objects_freed [OF d]
  show "\<exists>e h. trierarch_renderer_create True (answers\<lparr>ea_gen_texture := False\<rparr>) boot = (None, e, h) \<and> balance Egl_context e = 0" by simp
qed

section \<open>The upload by the CPU\<close>

text \<open>The checks of \<^verbatim>\<open>pool_create_buffer\<close> bound the size in integers: 32-bit factors do not wrap in 64 bits.\<close>

lemma pool_fits:
  assumes "\<not> pool_buffer_invalid q offset width height stride" "in_i32 offset" "in_i32 height" "in_i32 stride" "width \<le> 536870911"
  shows "0 < width \<and> 0 < height \<and> 0 \<le> offset \<and> width * 4 \<le> stride \<and> offset + stride * height \<le> uint (p_size q)"
proof -
  have b: "0 < width" "0 < height" "0 \<le> offset" "i32_wrap (width * 4) \<le> stride"
    "word_of_int offset + word_of_int stride * word_of_int height \<le> p_size q"
    using assms(1) by (auto simp: pool_buffer_invalid_def)
  have w: "width * 4 \<le> stride" using b(1,4) assms(5) by (simp add: in_i32_def)
  have "stride * height \<le> 2147483647 * 2147483647" using assms(3,4) b w by (intro mult_mono) (auto simp: in_i32_def)
  moreover have "0 \<le> stride * height" using b w by simp
  ultimately have "(offset + stride * height) mod 18446744073709551616 = offset + stride * height"
    using assms(2) b(3) by (intro mod_pos_pos_trivial) (auto simp: in_i32_def)
  moreover have "word_of_int offset + word_of_int stride * word_of_int height = (word_of_int (offset + stride * height) :: u64)"
    by simp
  ultimately have "uint (word_of_int offset + word_of_int stride * word_of_int height :: u64) = offset + stride * height"
    by (simp only: uint_word_of_int) (simp add: take_bit_eq_mod)
  with b(5) have "offset + stride * height \<le> uint (p_size q)" by (simp add: word_le_def)
  with b w show ?thesis by simp
qed

lemma row_in_buffer:
  assumes "row < nat height" "0 \<le> stride" "n \<le> stride"
  shows "int row * stride + n \<le> stride * height"
proof -
  have "(int row + 1) * stride \<le> height * stride" using assms by (intro mult_right_mono) auto
  with assms(3) show ?thesis by (simp add: algebra_simps)
qed

lemma pool_buffer_made:
  assumes "h_pools h p = Some q" "h_buffers h b = None"
    "h_buffers (pool_create_buffer client resource (Some p) (Some b) (Some r) offset width height stride format h) b = Some x"
  shows "\<not> pool_buffer_invalid q offset width height stride" "b_data x = Some (p_data q + nat offset)" "b_width x = width"
    "b_height x = height" "b_stride x = stride"
  using assms by (auto simp: pool_create_buffer_def Let_def upd_pool_def upd_buffer_def access_defs split: if_splits)

text \<open>C20: every range of bytes that the upload reads of a buffer made from a pool lies inside the mapping of the pool, padded rows included, for
  widths whose row length fits in 32 bits.\<close>

theorem cpu_upload_in_pool:
  assumes "h_pools h p = Some q" "h_buffers h b = None" "in_i32 offset" "in_i32 height" "in_i32 stride" "width \<le> 536870911"
    "h_buffers (pool_create_buffer client resource (Some p) (Some b) (Some r) offset width height stride format h) b = Some x"
    "cpu_reads g x = Some reads" "(start, len) \<in> set reads"
  shows "\<exists>a. b_data x = Some a \<and> 0 \<le> start \<and> 0 < len \<and> p_data q \<le> a \<and>
    int a + start + len \<le> int (p_data q) + uint (p_size q)"
proof -
  note x = pool_buffer_made [OF assms(1,2,7)]
  have f: "0 < width" "0 < height" "0 \<le> offset" "width * 4 \<le> stride" "offset + stride * height \<le> uint (p_size q)"
    using pool_fits [OF x(1) assms(3-6)] by auto
  have "packed_stride x = width * 4" using x(3) f(1) assms(6) by (simp add: packed_stride_def in_i32_def)
  then have "0 \<le> start \<and> 0 < len \<and> start + len \<le> stride * height"
    using assms(8,9) x(3-5) f row_in_buffer [of _ height stride "width * 4"]
    by (auto simp: cpu_reads_def split: if_splits)
  with x(2) f show ?thesis by auto
qed

text \<open>A pool of 4096 bytes and a buffer of 8 by 4 pixels with rows of 64 bytes at offset 128.\<close>

definition pooled_host :: host where
  "pooled_host = boot\<lparr>h_pools := [2 \<mapsto> \<lparr>p_data = 1000, p_size = 4096, p_references = 1, p_fd = 6, p_buffers = []\<rparr>]\<rparr>"

theorem cpu_upload_in_pool_witness:
  "\<exists>x. h_buffers (pool_create_buffer 1 3 (Some 2) (Some 9) (Some 5) 128 8 4 64 WL_SHM_FORMAT_XRGB8888 pooled_host) 9 = Some x \<and>
     cpu_reads (stack True) x = Some [(0, 32), (64, 32), (128, 32), (192, 32)] \<and> 1128 + 192 + (32 :: int) \<le> 1000 + 4096"
proof -
  let ?h = "pool_create_buffer 1 3 (Some 2) (Some 9) (Some 5) 128 8 4 64 WL_SHM_FORMAT_XRGB8888 pooled_host"
  obtain x where x: "h_buffers ?h 9 = Some x" "b_width x = 8" "b_height x = 4" "b_stride x = 64"
    by (simp add: pooled_host_def pool_create_buffer_def pool_buffer_invalid_def i32_wrap_def Let_def upd_pool_def upd_buffer_def)
  then have r: "cpu_reads (stack True) x = Some [(0, 32), (64, 32), (128, 32), (192, 32)]"
    by (simp add: cpu_reads_def packed_stride_def i32_wrap_def stack_def upt_rec)
  obtain a where "b_data x = Some a" "int a + 192 + 32 \<le> 1000 + 4096"
    using cpu_upload_in_pool [OF _ _ _ _ _ _ x(1) r, of _ 192 32] by (auto simp: pooled_host_def in_i32_def)
  then show ?thesis using x(1) r by auto
qed

end
