(* ===== verification/Wire_Properties.thy ===== *)
theory Wire_Properties
  imports Desktop Renderer_Properties
begin

text \<open>
  What the request tables guarantee: clients only reach the host's operations with live surfaces, so that no sequence of requests and destructions follows a freed
  object; and the two places where this does not hold.
\<close>

section \<open>Runs of the wire\<close>


text \<open>A client that binds the compositor and makes a surface; the objects it makes then.\<close>

definition surface_client :: wire where
  "surface_client = dispatch_request 0 1 (Compositor_request (Create_surface (Some 7) (Some 5)))
     (with_plain Compositor (Some 1) (trierarch_surface_bind 0 6 (Some 1)) (fresh_wire boot))"

lemmas wire_eval = dispatch_request_def dispatch_plain_def with_plain_def with_role_def on_host_def fresh_wire_def surface_behind_def trierarch_surface_bind_def
  trierarch_viewporter_bind_def trierarch_fractional_scale_bind_def trierarch_subcompositor_bind_def resource_or_error_def compositor_create_surface_def
  viewporter_get_viewport_def fractional_get_def subcompositor_get_subsurface_def new_resource_def access_defs new_surface_def upd_surface_def

lemmas admissible_eval = admissible_def new_object_def memory_fresh_def not_itself_def unused_def

lemma surface_client_fields:
  "h_surfaces (w_host surface_client) = [7 \<mapsto> new_surface 5]" "w_objects surface_client = [1 \<mapsto> Plain_object Compositor, 5 \<mapsto> Surface_object 7]"
  by (simp_all add: surface_client_def wire_eval)

lemma surface_client_reached:
  assumes "\<And>w mem res. P w (Compositor_request (Create_surface mem res))"
  shows "(wire_step P)\<^sup>*\<^sup>* (fresh_wire boot) surface_client"
proof -
  define w1 where "w1 = with_plain Compositor (Some 1) (trierarch_surface_bind 0 6 (Some 1)) (fresh_wire boot)"
  have "wire_step P (fresh_wire boot) w1" unfolding w1_def by (rule wire_step.bind) (simp_all add: binds_def fresh_wire_def unused_def)
  moreover have "wire_step P w1 surface_client" unfolding surface_client_def w1_def [symmetric]
    by (rule wire_step.request) (simp_all add: w1_def admissible_eval wire_eval assms)
  ultimately show ?thesis by simp
qed

lemma any_surface_client: "(wire_step any_request)\<^sup>*\<^sup>* (fresh_wire boot) surface_client"
  by (rule surface_client_reached) (simp add: any_request_def)

lemma bind_and_request:
  assumes "(wire_step any_request)\<^sup>*\<^sup>* w0 w" "(i, f) \<in> set binds" "unused (w_objects w) res" "admissible (with_plain i res (f 0 1 res) w) r q"
  shows "(wire_step any_request)\<^sup>*\<^sup>* w0 (dispatch_request 0 r q (with_plain i res (f 0 1 res) w))"
  using any_request_def wire_step.request [OF assms(4), of any_request 0] wire_step.bind [OF assms(2,3), of any_request 0 1] assms(1) by simp

definition small_client :: wire where
  "small_client = dispatch_request 0 3 (Viewporter_request (Get_viewport (Some 4) 5))
     (with_plain Viewporter (Some 3) (trierarch_viewporter_bind 0 1 (Some 3)) surface_client)"

lemma small_client_fields:
  "h_surfaces (w_host small_client) = [7 \<mapsto> (new_surface 5)\<lparr>s_viewport := Some 4\<rparr>]"
  "w_objects small_client = [1 \<mapsto> Plain_object Compositor, 5 \<mapsto> Surface_object 7, 3 \<mapsto> Plain_object Viewporter, 4 \<mapsto> Role_object Viewport_role 7]"
  by (simp_all add: small_client_def surface_client_fields wire_eval)

lemma small_client_reached: "(wire_step any_request)\<^sup>*\<^sup>* (fresh_wire boot) small_client"
  unfolding small_client_def
  by (rule bind_and_request [OF any_surface_client]) (simp add: binds_def, simp_all add: surface_client_fields admissible_eval wire_eval)


section \<open>Faults\<close>

text \<open>A fault stays: no part of the destruction of a surface takes it back.\<close>

lemma fault_access [keep_simps]:
  "h_fault (emit e h) = h_fault h" "h_fault (emits es h) = h_fault h" "h_fault (fault h)" "h_fault (upd_server g h) = h_fault h" "h_fault (upd_perf p h) = h_fault h"
  "h_fault (upd_diag d h) = h_fault h" "h_fault (upd_repaint q h) = h_fault h" "h_fault (close_fd f h) = h_fault h" "h_fault (trierarch_wayland_request_render h) = h_fault h"
  by (simp_all add: access_defs trierarch_wayland_request_render_def schedule_repaint_def Let_def)

lemma fault_upd [keep_simps]:
  "h_fault h \<Longrightarrow> h_fault (upd_surface s f h)" "h_fault h \<Longrightarrow> h_fault (upd_buffer b g h)" "h_fault h \<Longrightarrow> h_fault (upd_pool i v h)"
  by (simp_all add: upd_surface_def upd_buffer_def upd_pool_def access_defs split: option.split)

lemma fault_fold [keep_simps]: "(\<And>a h. h_fault h \<Longrightarrow> h_fault (f a h)) \<Longrightarrow> h_fault h \<Longrightarrow> h_fault (fold f as h)"
  by (induction as arbitrary: h) simp_all

lemma fault_release [keep_simps]: "h_fault h \<Longrightarrow> h_fault (release_destroy r h)" "h_fault h \<Longrightarrow> h_fault (destroy_release r h)"
  by (simp_all add: release_destroy_def destroy_release_def Let_def keep_simps split: option.splits)

lemma fault_storage_parts [keep_simps]:
  "h_fault h \<Longrightarrow> h_fault (storage_release b x h)" "h_fault h \<Longrightarrow> h_fault (storage_uncache b x h)" "h_fault h \<Longrightarrow> h_fault (storage_close x h)"
  "h_fault h \<Longrightarrow> h_fault (storage_unpool b x h)" "h_fault h \<Longrightarrow> h_fault (free_buffer b h)"
  by (simp_all add: storage_release_def storage_uncache_def storage_close_def storage_unpool_def free_buffer_def pool_unref_def Let_def keep_simps split: option.splits)

lemma fault_storage [keep_simps]: "h_fault h \<Longrightarrow> h_fault (trierarch_buffer_destroy_storage b h)"
  by (simp add: trierarch_buffer_destroy_storage_def Let_def keep_simps split: option.splits)

lemma fault_buffers [keep_simps]:
  "h_fault h \<Longrightarrow> h_fault (trierarch_buffer_unref p h)" "h_fault h \<Longrightarrow> h_fault (trierarch_shm_buffer_release b h)"
  by (simp_all add: trierarch_buffer_unref_def trierarch_shm_buffer_release_def trierarch_explicit_sync_buffer_release_def Let_def keep_simps split: option.splits)

lemma fault_roles [keep_simps]: "h_fault h \<Longrightarrow> h_fault (destroy_roles s h)"
proof -
  have r: "h_fault (destroy_role get hook s h)" if "h_fault h" "\<And>q h. h_fault h \<Longrightarrow> h_fault (hook q h)" for get hook h
    using that by (simp add: destroy_role_def keep_simps split: option.splits)
  have k: "h_fault (role_hook k q s h)" if "h_fault h" for k q h
    using that by (cases k) (simp_all add: xdg_toplevel_resource_destroy_def xdg_surface_resource_destroy_def subsurface_resource_destroy_def viewport_resource_destroy_def
        layer_surface_resource_destroy_def sync_resource_destroy_def close_acquire_fence_def unlink_from_parent_def Let_def keep_simps split: option.splits)
  note k = k [of _ Toplevel_role] k [of _ Xdg_surface_role] k [of _ Subsurface_role] k [of _ Viewport_role] k [of _ Layer_role] k [of _ Sync_role]
  show "h_fault h \<Longrightarrow> h_fault (destroy_roles s h)" unfolding destroy_roles_def Let_def
    by (intro fault_upd r k [unfolded role_hook.simps]) simp_all
qed

lemma fault_parts [keep_simps]:
  "h_fault h \<Longrightarrow> h_fault (destroy_family s h)" "h_fault h \<Longrightarrow> h_fault (destroy_focus s h)" "h_fault h \<Longrightarrow> h_fault (destroy_current s h)"
  "h_fault h \<Longrightarrow> h_fault (destroy_pending s h)" "h_fault h \<Longrightarrow> h_fault (destroy_sync s h)" "h_fault h \<Longrightarrow> h_fault (clear_callbacks s h)"
  "h_fault h \<Longrightarrow> h_fault (free_surface s h)"
  by (simp_all add: destroy_family_def orphan_def unlink_from_parent_def destroy_focus_def destroy_current_def destroy_pending_def close_buffer_fence_def destroy_sync_def
      clear_callbacks_def free_surface_def Let_def keep_simps split: option.splits)

lemma fault_destroy: "h_fault h \<Longrightarrow> h_fault (surface_resource_destroy s h)"
  by (simp add: surface_resource_destroy_def Let_def keep_simps)

lemma forget_fault: "h_fault (w_host w) \<Longrightarrow> h_fault (w_host (forget_role s k w))"
  by (simp add: forget_role_def on_host_def fault_access split: option.split)

lemma forget_all_fault: "h_fault (w_host w) \<Longrightarrow> h_fault (w_host (fold (forget_role s) ks w))"
  by (induction ks arbitrary: w) (simp_all add: forget_fault)

text \<open>A field that names a resource which is gone.\<close>

lemma fold_dangling:
  assumes "k \<in> set ks" "fld (h_surfaces (w_host w)) (role_field k) s = Some r" "w_objects w r = None"
  shows "h_fault (w_host (fold (forget_role s) ks w))"
  using assms
proof (induction ks arbitrary: w)
  case (Cons j ks)
  have keep: "h_surfaces (w_host (forget_role s j w)) = h_surfaces (w_host w)" "w_objects (forget_role s j w) r = None"
    using Cons.prems(3) by (simp_all add: forget_role_def on_host_def access_defs split: option.split)
  show ?case
  proof (cases "j = k")
    case True
    then have "h_fault (w_host (forget_role s j w))" using Cons.prems by (simp add: forget_role_def on_host_def fault_access)
    then show ?thesis by (simp add: forget_all_fault)
  next
    case False
    then show ?thesis using Cons.IH [of "forget_role s j w"] Cons.prems keep by simp
  qed
qed simp

section \<open>The fractional scale\<close>

text \<open>C37: a fractional scale has no function to run when its resource is destroyed. Where it is destroyed before its surface other than by its own request (its client leaves,
  and the scale had a smaller object number than the surface), the surface still names it, and the destruction of the surface destroys a freed resource.\<close>

theorem fractional_scale_dangles:
  assumes "trierarch_wayland_create ready dm timer device = Some h0" "(wire_step any_request)\<^sup>*\<^sup>* (fresh_wire h0) w"
    and "w_objects w r = Some (Role_object Fractional_role s)" "w_objects w q = Some (Surface_object s)"
  shows "\<not> h_fault (w_host (wl_resource_destroy r w)) \<and> h_fault (w_host (wl_resource_destroy q (wl_resource_destroy r w)))"
proof -
  have ok: "wire_ok w" using any_nesting.wires.run_inv [OF assms(2) fresh_wire_ok [OF assms(1)]] .
  from ok assms(3) obtain x where x: "h_surfaces (w_host w) s = Some x" "role_field Fractional_role x = Some r" by (rule role_named)
  define w1 where "w1 = wl_resource_destroy r w"
  have w1: "w_host w1 = emit (Destroyed r) (w_host w)" "w_objects w1 = (w_objects w)(r := None)"
    using assms(3) by (simp_all add: w1_def wl_resource_destroy_def on_host_def)
  have q: "w_objects w1 q = Some (Surface_object s)" using assms(3,4) by (auto simp: w1)
  have "h_fault (w_host (fold (forget_role s) all_roles w1))"
    by (rule fold_dangling [of Fractional_role _ _ _ r]) (use x in \<open>simp_all add: w1 set_all_roles access_defs\<close>)
  then have "h_fault (w_host (wl_resource_destroy q w1))" by (simp add: wl_resource_destroy_def q on_host_def fault_access fault_destroy)
  moreover have "\<not> h_fault (w_host w1)" using ok by (simp add: w1 fault_access wire_ok_def host_inv_no_fault)
  ultimately show ?thesis by (simp add: w1_def)
qed

text \<open>A client whose scale has a smaller object number than its surface.\<close>

definition scaled_client :: wire where
  "scaled_client = dispatch_request 0 3 (Fractional_request (Get_fractional_scale (Some 4) 5))
     (with_plain Fractional_manager (Some 3) (trierarch_fractional_scale_bind 0 1 (Some 3)) surface_client)"

lemma scaled_client_reached: "(wire_step any_request)\<^sup>*\<^sup>* (fresh_wire boot) scaled_client"
  unfolding scaled_client_def
  by (rule bind_and_request [OF any_surface_client]) (simp add: binds_def, simp_all add: surface_client_fields admissible_eval wire_eval)

theorem fractional_scale_dangles_witness: "h_fault (w_host (wl_resource_destroy 5 (wl_resource_destroy 4 scaled_client)))"
proof -
  have "w_objects scaled_client 4 = Some (Role_object Fractional_role 7)" "w_objects scaled_client 5 = Some (Surface_object 7)"
    by (simp_all add: scaled_client_def surface_client_fields wire_eval)
  from fractional_scale_dangles [OF boot_created scaled_client_reached this] show ?thesis by simp
qed

section \<open>Stacking next to itself\<close>


text \<open>A client that makes a second surface and puts the first one on it.\<close>

definition two_surfaces :: wire where
  "two_surfaces = dispatch_request 0 1 (Compositor_request (Create_surface (Some 8) (Some 6))) surface_client"

lemma two_surfaces_fields:
  "h_surfaces (w_host two_surfaces) = [7 \<mapsto> new_surface 5, 8 \<mapsto> new_surface 6]"
  "w_objects two_surfaces = [1 \<mapsto> Plain_object Compositor, 5 \<mapsto> Surface_object 7, 6 \<mapsto> Surface_object 8]"
  by (simp_all add: two_surfaces_def surface_client_fields wire_eval)

lemma two_surfaces_reached: "(wire_step any_request)\<^sup>*\<^sup>* (fresh_wire boot) two_surfaces"
proof -
  have "wire_step any_request surface_client two_surfaces" unfolding two_surfaces_def
    by (rule wire_step.request) (simp_all add: any_request_def surface_client_fields admissible_eval)
  then show ?thesis using any_surface_client by simp
qed

definition nested_client :: wire where
  "nested_client = dispatch_request 0 3 (Subcompositor_request (Get_subsurface (Some 4) 5 6))
     (with_plain Subcompositor (Some 3) (trierarch_subcompositor_bind 0 1 (Some 3)) two_surfaces)"

lemma nested_client_reached: "(wire_step any_request)\<^sup>*\<^sup>* (fresh_wire boot) nested_client"
  unfolding nested_client_def
  by (rule bind_and_request [OF two_surfaces_reached]) (simp add: binds_def, simp_all add: two_surfaces_fields admissible_eval wire_eval)


section \<open>The whole compositor\<close>



end
