(* ===== verification/Ime_Bridge.thy ===== *)
theory Ime_Bridge
  imports Linked_Queue
begin

text \<open>
  The input-method bridge (\<^verbatim>\<open>wayland-ime-bridge/src/main.c\<close>): a Wayland client that reads framed
  commits from a local socket, queues them and forwards them to the compositor's input-method
  protocol, version 1 or 2. The state is \<^verbatim>\<open>struct bridge\<close> with the requests it has sent as a log.

  A step that would follow a pointer to a freed message has the value \<open>None\<close>. What the program
  asks of its environment is the record \<open>ime_env\<close>: the allocator, the clock and whether
  \<^verbatim>\<open>wl_display_flush\<close> succeeds. Proxies of the Wayland connection are named by numbers. The
  traces to the log file are not part of the model.
\<close>

section \<open>State\<close>

definition MAX_COMMIT_BYTES :: nat where "MAX_COMMIT_BYTES = 65536"
definition MAX_QUEUED_MESSAGES :: u32 where "MAX_QUEUED_MESSAGES = 128"
definition CONTROL_FRAME_BIT :: u32 where "CONTROL_FRAME_BIT = 0x80000000"
definition CONTROL_KEYSYM :: u8 where "CONTROL_KEYSYM = 1"
definition KEY_STATE_RELEASED :: u32 where "KEY_STATE_RELEASED = 0"
definition KEY_STATE_PRESSED :: u32 where "KEY_STATE_PRESSED = 1"

datatype message = Message_text "u8 list" | Message_keysym (m_sym: u32) (m_state: u32)

text \<open>The requests the bridge sends, with the proxy they are sent on.\<close>

datatype ime_request =
    V1_commit_string "nat option" u32 "u8 list"
  | V1_keysym "nat option" u32 u32 u32 u32
  | V1_context_destroy "nat option"
  | V2_commit_string "nat option" "u8 list"
  | V2_delete_surrounding_text "nat option" u32 u32
  | V2_commit "nat option" u32

record bridge =
  br_input_method :: "nat option"
  br_context :: "nat option"
  br_input_method_manager_v2 :: "nat option"
  br_input_method_v2 :: "nat option"
  br_seat :: "nat option"
  br_queue :: "message lqueue"
  br_serial :: u32
  br_v2_serial :: u32
  br_queued_messages :: u32
  br_saw_input_method :: bool
  br_saw_input_method_v2 :: bool
  br_have_serial :: bool
  br_sent :: bool
  br_v2_active :: bool
  br_running :: bool
  br_log :: "ime_request list"

definition zero_bridge :: bridge where
  "zero_bridge = \<lparr>br_input_method = None, br_context = None, br_input_method_manager_v2 = None,
     br_input_method_v2 = None, br_seat = None, br_queue = lq_empty, br_serial = 0, br_v2_serial = 0,
     br_queued_messages = 0, br_saw_input_method = False, br_saw_input_method_v2 = False,
     br_have_serial = False, br_sent = False, br_v2_active = False, br_running = True, br_log = []\<rparr>"

text \<open>
  \<open>ev_alloc\<close> picks the address of the next message from the live ones, \<open>ev_text\<close> says whether a
  string of that many bytes can be allocated, \<open>ev_clock i\<close> is the monotonic time (seconds,
  nanoseconds) at the \<open>i\<close>-th message of a flush.
\<close>

record ime_env =
  ev_alloc :: "(addr \<rightharpoonup> message cell) \<Rightarrow> addr option"
  ev_text :: "nat \<Rightarrow> bool"
  ev_clock :: "nat \<Rightarrow> u64 \<times> u64"
  ev_flush :: bool

definition request :: "ime_request \<Rightarrow> bridge \<Rightarrow> bridge" where
  "request r b = b\<lparr>br_log := br_log b @ [r]\<rparr>"

section \<open>The queue\<close>

definition clear_pending_messages :: "bridge \<Rightarrow> bridge option" where
  "clear_pending_messages b =
     do { q \<leftarrow> lq_free (br_queue b);
          Some (b\<lparr>br_queue := q\<lparr>lq_tail := None\<rparr>, br_queued_messages := 0\<rparr>) }"

text \<open>
  The code \<^verbatim>\<open>enqueue_text\<close> and \<^verbatim>\<open>enqueue_keysym\<close> share: the bound, the allocation, the link.
\<close>

definition enqueue_message :: "ime_env \<Rightarrow> message \<Rightarrow> bridge \<Rightarrow> (bool \<times> bridge) option" where
  "enqueue_message env m b =
     (if br_queued_messages b = MAX_QUEUED_MESSAGES then Some (False, b)
      else case ev_alloc env (lq_cells (br_queue b)) of
             None \<Rightarrow> Some (False, b)
           | Some a \<Rightarrow>
               do { q \<leftarrow> lq_append a m (br_queue b);
                    Some (True, b\<lparr>br_queue := q, br_queued_messages := br_queued_messages b + 1\<rparr>) })"

definition enqueue_text :: "ime_env \<Rightarrow> u8 list \<Rightarrow> bridge \<Rightarrow> (bool \<times> bridge) option" where
  "enqueue_text env text b = enqueue_message env (Message_text text) b"

definition enqueue_keysym :: "ime_env \<Rightarrow> u32 \<Rightarrow> u32 \<Rightarrow> bridge \<Rightarrow> (bool \<times> bridge) option" where
  "enqueue_keysym env ks state b = enqueue_message env (Message_keysym ks state) b"

text \<open>The next message of the loops of \<^verbatim>\<open>try_commit\<close>.\<close>

definition next_message :: "bridge \<Rightarrow> (message \<times> bridge) option" where
  "next_message b =
     do { (m, q) \<leftarrow> lq_take (br_queue b);
          Some (m, b\<lparr>br_queue := q, br_queued_messages := br_queued_messages b - 1\<rparr>) }"

section \<open>Sending\<close>

text \<open>One message in protocol version 2; the result says whether it counts as committed.\<close>

definition v2_message :: "message \<Rightarrow> bridge \<Rightarrow> bool \<times> bridge" where
  "v2_message m b = (case m of
       Message_text text \<Rightarrow> (True, request (V2_commit_string (br_input_method_v2 b) text) b)
     | Message_keysym ks state \<Rightarrow>
         if state \<noteq> KEY_STATE_PRESSED then (False, b)
         else if ks = 0xff08 then
           (True, request (V2_delete_surrounding_text (br_input_method_v2 b) 1 0) b)
         else if ks = 0xffff then
           (True, request (V2_delete_surrounding_text (br_input_method_v2 b) 0 1) b)
         else if ks = 0xff0d then (True, request (V2_commit_string (br_input_method_v2 b) [10]) b)
         else if ks = 0xff09 then (True, request (V2_commit_string (br_input_method_v2 b) [9]) b)
         else (False, b))"

partial_function (option) v2_loop :: "nat \<Rightarrow> bridge \<Rightarrow> (nat \<times> bridge) option" where
  "v2_loop committed b =
     (if lq_head (br_queue b) = None then Some (committed, b)
      else do { (m, b1) \<leftarrow> next_message b;
                v2_loop (committed + of_bool (fst (v2_message m b1))) (snd (v2_message m b1)) })"

text \<open>\<^verbatim>\<open>(uint32_t)(now.tv_sec * 1000U + now.tv_nsec / 1000000U)\<close>.\<close>

definition milliseconds :: "u64 \<times> u64 \<Rightarrow> u32" where
  "milliseconds now = ucast (fst now * 1000 + snd now div 1000000)"

definition v1_message :: "ime_env \<Rightarrow> nat \<Rightarrow> message \<Rightarrow> bridge \<Rightarrow> bridge" where
  "v1_message env i m b = (case m of
       Message_text text \<Rightarrow> request (V1_commit_string (br_context b) (br_serial b) text) b
     | Message_keysym ks state \<Rightarrow>
         request (V1_keysym (br_context b) (br_serial b) (milliseconds (ev_clock env i)) ks state) b)"

partial_function (option) v1_loop :: "ime_env \<Rightarrow> nat \<Rightarrow> bridge \<Rightarrow> bridge option" where
  "v1_loop env committed b =
     (if lq_head (br_queue b) = None then Some b
      else do { (m, b1) \<leftarrow> next_message b;
                v1_loop env (committed + 1) (v1_message env committed m b1) })"

text \<open>The end of both branches: \<^verbatim>\<open>sent\<close> and the flush of the connection.\<close>

definition flush_sent :: "ime_env \<Rightarrow> bridge \<Rightarrow> bridge" where
  "flush_sent env b = b\<lparr>br_sent := True, br_running := (ev_flush env \<and> br_running b)\<rparr>"

definition try_commit :: "ime_env \<Rightarrow> bridge \<Rightarrow> bridge option" where
  "try_commit env b =
     (if (br_context b = None \<and> \<not> br_v2_active b) \<or> \<not> br_have_serial b \<or> lq_head (br_queue b) = None
      then Some b
      else if br_v2_active b then
        do { (committed, b1) \<leftarrow> v2_loop 0 b;
             if committed = 0 then Some b1
             else Some (flush_sent env (request (V2_commit (br_input_method_v2 b1) (br_v2_serial b1)) b1)) }
      else do { b1 \<leftarrow> v1_loop env 0 b; Some (flush_sent env b1) })"

section \<open>Events of protocol version 1\<close>

definition context_reset :: "nat \<Rightarrow> bridge \<Rightarrow> bridge option" where
  "context_reset context b =
     (if br_context b \<noteq> Some context then Some b
      else clear_pending_messages (b\<lparr>br_have_serial := False\<rparr>))"

definition context_commit_state :: "ime_env \<Rightarrow> nat \<Rightarrow> u32 \<Rightarrow> bridge \<Rightarrow> bridge option" where
  "context_commit_state env context serial b =
     (if br_context b \<noteq> Some context then Some b
      else try_commit env (b\<lparr>br_serial := serial, br_have_serial := True\<rparr>))"

definition input_method_activate :: "nat \<Rightarrow> bridge \<Rightarrow> bridge option" where
  "input_method_activate context b =
     do { b1 \<leftarrow> (if br_context b = None then Some b
                 else do { b1 \<leftarrow> clear_pending_messages b;
                           Some (request (V1_context_destroy (br_context b)) b1) });
          Some (b1\<lparr>br_context := Some context, br_have_serial := False\<rparr>) }"

definition input_method_deactivate :: "nat \<Rightarrow> bridge \<Rightarrow> bridge option" where
  "input_method_deactivate context b =
     do { b1 \<leftarrow> (if br_context b = Some context
                 then do { b1 \<leftarrow> clear_pending_messages b;
                           Some (b1\<lparr>br_context := None, br_have_serial := False\<rparr>) }
                 else Some b);
          Some (request (V1_context_destroy (Some context)) b1) }"

section \<open>Events of protocol version 2\<close>

definition input_method_v2_activate :: "nat \<Rightarrow> bridge \<Rightarrow> bridge option" where
  "input_method_v2_activate im b =
     (if br_input_method_v2 b \<noteq> Some im then Some b
      else Some (b\<lparr>br_v2_active := True, br_have_serial := False\<rparr>))"

definition input_method_v2_deactivate :: "nat \<Rightarrow> bridge \<Rightarrow> bridge option" where
  "input_method_v2_deactivate im b =
     (if br_input_method_v2 b \<noteq> Some im then Some b
      else clear_pending_messages (b\<lparr>br_v2_active := False, br_have_serial := False\<rparr>))"

definition input_method_v2_done :: "ime_env \<Rightarrow> nat \<Rightarrow> bridge \<Rightarrow> bridge option" where
  "input_method_v2_done env im b =
     (if br_input_method_v2 b \<noteq> Some im then Some b
      else try_commit env (b\<lparr>br_v2_serial := br_v2_serial b + 1, br_serial := br_v2_serial b + 1,
             br_have_serial := br_v2_active b\<rparr>))"

definition input_method_v2_unavailable :: "nat \<Rightarrow> bridge \<Rightarrow> bridge option" where
  "input_method_v2_unavailable im b =
     (if br_input_method_v2 b \<noteq> Some im then Some b
      else clear_pending_messages (b\<lparr>br_v2_active := False, br_have_serial := False\<rparr>))"

section \<open>Globals\<close>

text \<open>\<open>bound\<close> is what \<^verbatim>\<open>wl_registry_bind\<close> returns, \<open>None\<close> for \<^verbatim>\<open>NULL\<close>.\<close>

definition registry_global :: "string \<Rightarrow> u32 \<Rightarrow> nat option \<Rightarrow> bridge \<Rightarrow> bridge" where
  "registry_global interface version bound b =
     (if interface = ''wl_seat'' \<and> br_seat b = None \<and> 1 \<le> version then b\<lparr>br_seat := bound\<rparr>
      else if interface = ''zwp_input_method_v1'' \<and> br_input_method b = None \<and> 1 \<le> version then
        (case bound of None \<Rightarrow> b
         | Some _ \<Rightarrow> b\<lparr>br_input_method := bound, br_saw_input_method := True\<rparr>)
      else if interface = ''zwp_input_method_manager_v2'' \<and> br_input_method_manager_v2 b = None \<and>
          1 \<le> version then
        b\<lparr>br_input_method_manager_v2 := bound,
          br_saw_input_method_v2 := (bound \<noteq> None \<or> br_saw_input_method_v2 b)\<rparr>
      else b)"

text \<open>
  The choice \<^verbatim>\<open>main\<close> makes after the first round trip: version 2 only when version 1 was not
  announced. \<open>created\<close> is what \<^verbatim>\<open>get_input_method\<close> returns; \<open>None\<close> is
  \<^verbatim>\<open>EXIT_FAILURE\<close>.
\<close>

definition choose_input_method :: "bool \<Rightarrow> nat option \<Rightarrow> bridge \<Rightarrow> bridge option" where
  "choose_input_method roundtrip created b =
     (if \<not> roundtrip \<or> (\<not> br_saw_input_method b \<and> \<not> br_saw_input_method_v2 b) then None
      else
        let b1 = (if br_input_method b = None \<and> br_input_method_manager_v2 b \<noteq> None \<and> br_seat b \<noteq> None
                  then b\<lparr>br_input_method_v2 := created\<rparr> else b)
        in if br_input_method b1 = None \<and> br_input_method_v2 b1 = None then None else Some b1)"

end
