(* ===== verification/Ime_Framing.thy ===== *)
theory Ime_Framing
  imports Ime_Bridge
begin

text \<open>
  The socket of the input-method bridge: length-prefixed frames, the loop that consumes them and the
  main loop's handling of the sockets (\<^verbatim>\<open>wayland-ime-bridge/src/main.c\<close>, \<^verbatim>\<open>enqueue_control\<close> to
  \<^verbatim>\<open>dispatch_socket_mode\<close>).

  The buffer is the list of the \<^verbatim>\<open>*used\<close> bytes it holds. A frame is a big-endian word, whose top bit
  marks a control frame and whose other bits are the length, and that many bytes.
\<close>

section \<open>Frames\<close>

text \<open>\<^verbatim>\<open>ntohl\<close> of the word at the front of a buffer.\<close>

definition ntohl :: "u8 list \<Rightarrow> u32" where
  "ntohl bs = push_bit 24 (ucast (bs ! 0)) OR push_bit 16 (ucast (bs ! 1)) OR
     push_bit 8 (ucast (bs ! 2)) OR ucast (bs ! 3)"

definition enqueue_control :: "ime_env \<Rightarrow> u8 list \<Rightarrow> bridge \<Rightarrow> (bool \<times> bridge) option" where
  "enqueue_control env payload b =
     (if length payload \<noteq> 6 \<or> payload ! 0 \<noteq> CONTROL_KEYSYM \<or>
         (ucast (payload ! 1) \<noteq> KEY_STATE_RELEASED \<and> ucast (payload ! 1) \<noteq> KEY_STATE_PRESSED)
      then Some (False, b)
      else enqueue_keysym env (ntohl (drop 2 payload)) (ucast (payload ! 1)) b)"

definition frame_control :: "u8 list \<Rightarrow> bool" where
  "frame_control buffer \<longleftrightarrow> ntohl buffer AND CONTROL_FRAME_BIT \<noteq> 0"

definition frame_length :: "u8 list \<Rightarrow> nat" where
  "frame_length buffer = unat (ntohl buffer AND NOT CONTROL_FRAME_BIT)"

text \<open>The complete frame at the front of the buffer; the result is false when the client is dropped.\<close>

definition consume_frame :: "ime_env \<Rightarrow> u8 list \<Rightarrow> bridge \<Rightarrow> (bool \<times> bridge) option" where
  "consume_frame env buffer b =
     (let payload = take (frame_length buffer) (drop 4 buffer)
      in if br_context b = None \<and> \<not> br_v2_active b then Some (True, b)
         else if frame_control buffer then enqueue_control env payload b
         else if 0 \<in> set payload then Some (False, b)
         else if \<not> ev_text env (length payload + 1) then Some (False, b)
         else enqueue_text env payload b)"

text \<open>\<^verbatim>\<open>while (*used >= 4)\<close>: whether the client stays, what is left in the buffer, the bridge.\<close>

function frame_loop :: "ime_env \<Rightarrow> u8 list \<Rightarrow> bridge \<Rightarrow> (bool \<times> u8 list \<times> bridge) option" where
  "frame_loop env buffer b =
     (if length buffer < 4 then Some (True, buffer, b)
      else if frame_length buffer = 0 \<or> MAX_COMMIT_BYTES < frame_length buffer
        then Some (False, buffer, b)
      else if length buffer < 4 + frame_length buffer then Some (True, buffer, b)
      else do { (ok, b1) \<leftarrow> consume_frame env buffer b;
                if \<not> ok then Some (False, buffer, b1)
                else do { b2 \<leftarrow> try_commit env b1;
                          frame_loop env (drop (4 + frame_length buffer) buffer) b2 } })"
  by pat_completeness auto
termination by (relation "measure (\<lambda>(env, buffer, b). length buffer)") auto

declare frame_loop.simps [simp del]

text \<open>
  \<^verbatim>\<open>consume_client\<close> reads until the socket has no more data. What the successive calls of
  \<^verbatim>\<open>read\<close> return is a list: the bytes of each call, then how the last one ended.
\<close>

datatype read_end = Read_eof | Read_again | Read_error

fun consume_client ::
  "ime_env \<Rightarrow> u8 list list \<Rightarrow> read_end \<Rightarrow> u8 list \<Rightarrow> bridge \<Rightarrow> (bool \<times> u8 list \<times> bridge) option" where
  "consume_client env [] e buffer b = Some (e = Read_again, buffer, b)"
| "consume_client env (chunk # chunks) e buffer b =
     do { (ok, buffer1, b1) \<leftarrow> frame_loop env (buffer @ chunk) b;
          if \<not> ok then Some (False, buffer1, b1)
          else if length buffer1 = 4 + MAX_COMMIT_BYTES then Some (False, buffer1, b1)
          else consume_client env chunks e buffer1 b1 }"

section \<open>The main loop\<close>

text \<open>
  The events libwayland dispatches to the bridge; the listeners that ignore their event are
  \<open>Ime_ignored\<close>.
\<close>

datatype ime_event =
    Ime_activate nat | Ime_deactivate nat | Ime_reset nat | Ime_commit_state nat u32
  | Ime_v2_activate nat | Ime_v2_deactivate nat | Ime_v2_done nat | Ime_v2_unavailable nat
  | Ime_ignored

fun handle :: "ime_env \<Rightarrow> ime_event \<Rightarrow> bridge \<Rightarrow> bridge option" where
  "handle env (Ime_activate c) b = input_method_activate c b"
| "handle env (Ime_deactivate c) b = input_method_deactivate c b"
| "handle env (Ime_reset c) b = context_reset c b"
| "handle env (Ime_commit_state c s) b = context_commit_state env c s b"
| "handle env (Ime_v2_activate i) b = input_method_v2_activate i b"
| "handle env (Ime_v2_deactivate i) b = input_method_v2_deactivate i b"
| "handle env (Ime_v2_done i) b = input_method_v2_done env i b"
| "handle env (Ime_v2_unavailable i) b = input_method_v2_unavailable i b"
| "handle env Ime_ignored b = Some b"

fun dispatch_events :: "ime_env \<Rightarrow> ime_event list \<Rightarrow> bridge \<Rightarrow> bridge option" where
  "dispatch_events env [] b = Some b"
| "dispatch_events env (e # es) b = do { b1 \<leftarrow> handle env e b; dispatch_events env es b1 }"

text \<open>
  One iteration of \<^verbatim>\<open>dispatch_socket_mode\<close>. \<open>io\<close> holds what its system calls answer: whether the
  events already queued could be dispatched and which they were, the flush, \<^verbatim>\<open>poll\<close>, the events
  read, whether the display reported a hang-up, the accepted connection with the success of
  \<^verbatim>\<open>make_nonblocking\<close>, whether the client has something to report (its slot in \<^verbatim>\<open>fds\<close> is the
  client from before the \<^verbatim>\<open>accept\<close>) and what reading from the current client gives.
\<close>

record ime_io =
  io_prepared :: "ime_event list"
  io_prepare_ok :: bool
  io_flush_ok :: bool
  io_poll_ok :: bool
  io_display_in :: bool
  io_read_ok :: bool
  io_display_hangup :: bool
  io_events :: "ime_event list"
  io_dispatch_ok :: bool
  io_accept :: "(fd \<times> bool) option"
  io_client_ready :: bool
  io_chunks :: "u8 list list"
  io_end :: read_end

record ime_server =
  is_bridge :: bridge
  is_client :: "fd option"
  is_input :: "u8 list"
  is_closed :: "fd list"

definition close_client :: "ime_server \<Rightarrow> ime_server" where
  "close_client s = (case is_client s of None \<Rightarrow> s
     | Some c \<Rightarrow> s\<lparr>is_client := None, is_input := [], is_closed := c # is_closed s\<rparr>)"

definition accept_client :: "(fd \<times> bool) option \<Rightarrow> ime_server \<Rightarrow> ime_server" where
  "accept_client accepted s = (case accepted of
       None \<Rightarrow> s
     | Some (c, nonblocking) \<Rightarrow>
         if \<not> nonblocking then s\<lparr>is_closed := c # is_closed s\<rparr>
         else (close_client s)\<lparr>is_client := Some c, is_input := []\<rparr>)"

definition read_client :: "ime_env \<Rightarrow> bool \<Rightarrow> u8 list list \<Rightarrow> read_end \<Rightarrow> ime_server \<Rightarrow> ime_server option" where
  "read_client env ready chunks e s =
     (if is_client s = None \<or> \<not> ready then Some s
      else do { (ok, input, b) \<leftarrow> consume_client env chunks e (is_input s) (is_bridge s);
                let s1 = s\<lparr>is_bridge := b, is_input := input\<rparr>
                in Some (if ok then s1 else close_client s1) })"

text \<open>The result: 0 (\<open>True\<close>) or -1, and the state.\<close>

definition dispatch_socket_mode :: "ime_env \<Rightarrow> ime_io \<Rightarrow> ime_server \<Rightarrow> (bool \<times> ime_server) option" where
  "dispatch_socket_mode env io s =
     (let had_client = (is_client s \<noteq> None) in
      do { b1 \<leftarrow> dispatch_events env (io_prepared io) (is_bridge s);
           let s1 = s\<lparr>is_bridge := b1\<rparr> in
           if \<not> io_prepare_ok io \<or> \<not> io_flush_ok io \<or> \<not> io_poll_ok io \<or>
              (io_display_in io \<and> \<not> io_read_ok io) \<or> io_display_hangup io
           then Some (False, s1)
           else do { b2 \<leftarrow> dispatch_events env (io_events io) b1;
                     let s2 = s1\<lparr>is_bridge := b2\<rparr> in
                     if \<not> io_dispatch_ok io then Some (False, s2)
                     else do { s3 \<leftarrow> read_client env (had_client \<and> io_client_ready io) (io_chunks io) (io_end io)
                                       (accept_client (io_accept io) s2);
                               Some (True, s3) } } })"

end
