(* ===== verification/Ime_Safety.thy ===== *)
theory Ime_Safety
  imports Ime_Framing
begin

text \<open>
  The input-method bridge as a state machine: the queue is the list of messages it represents and
  never exceeds its bound, what is queued belongs to the active text input, and no request goes to
  a null or destroyed proxy.
\<close>

section \<open>The queue of the bridge\<close>

definition env_ok :: "ime_env \<Rightarrow> bool" where
  "env_ok env \<longleftrightarrow> (\<forall>m a. ev_alloc env m = Some a \<longrightarrow> m a = None)"

definition queue_ok :: "bridge \<Rightarrow> message list \<Rightarrow> bool" where
  "queue_ok b ms \<longleftrightarrow> lq_rep (br_queue b) ms \<and> br_queued_messages b = of_nat (length ms) \<and> length ms \<le> 128"

lemma queue_ok_cong:
  "br_queue b' = br_queue b \<Longrightarrow> br_queued_messages b' = br_queued_messages b \<Longrightarrow> queue_ok b' ms = queue_ok b ms"
  by (simp add: queue_ok_def)

lemma queue_ok_head: "queue_ok b ms \<Longrightarrow> lq_head (br_queue b) = None \<longleftrightarrow> ms = []"
  by (auto simp: queue_ok_def dest: lq_head_rep)

lemma clear_spec:
  assumes "queue_ok b ms"
  shows "\<exists>q. clear_pending_messages b = Some (b\<lparr>br_queue := q, br_queued_messages := 0\<rparr>) \<and> lq_rep q []"
  using lq_free_rep [of "br_queue b" ms] assms by (auto simp: clear_pending_messages_def queue_ok_def)

lemma next_message_spec:
  assumes "queue_ok b (m # ms)"
  shows "\<exists>q. next_message b = Some (m, b\<lparr>br_queue := q, br_queued_messages := of_nat (length ms)\<rparr>) \<and> lq_rep q ms"
  using lq_take_rep [of "br_queue b" m ms] assms by (auto simp: next_message_def queue_ok_def)

lemma of_nat_128: "n \<le> 128 \<Longrightarrow> of_nat n = (128 :: u32) \<longleftrightarrow> n = 128"
proof
  assume "n \<le> 128" "of_nat n = (128 :: u32)"
  then have "unat (of_nat n :: u32) = unat (128 :: u32)" by simp
  with \<open>n \<le> 128\<close> show "n = 128" by (simp add: unat_of_nat)
qed simp

text \<open>A full queue and a failed allocation refuse the message and change nothing.\<close>

lemma enqueue_spec:
  assumes "env_ok env" "queue_ok b ms"
  shows "enqueue_message env m b = Some (False, b) \<or>
    (\<exists>q. length ms < 128 \<and> lq_rep q (ms @ [m]) \<and>
      enqueue_message env m b = Some (True, b\<lparr>br_queue := q, br_queued_messages := of_nat (length ms + 1)\<rparr>))"
proof (cases "br_queued_messages b = MAX_QUEUED_MESSAGES \<or> ev_alloc env (lq_cells (br_queue b)) = None")
  case True
  then show ?thesis by (auto simp: enqueue_message_def)
next
  case False
  then obtain a where a: "ev_alloc env (lq_cells (br_queue b)) = Some a" by auto
  then have "lq_cells (br_queue b) a = None" using assms(1) by (simp add: env_ok_def)
  then obtain q where "lq_append a m (br_queue b) = Some q" "lq_rep q (ms @ [m])"
    using lq_append_rep [of "br_queue b" ms a m] assms(2) by (auto simp: queue_ok_def)
  with False a assms(2) show ?thesis
    by (auto simp: enqueue_message_def queue_ok_def MAX_QUEUED_MESSAGES_def of_nat_128)
qed

section \<open>What a flush of the queue sends\<close>

fun v2_requests :: "nat option \<Rightarrow> message \<Rightarrow> ime_request list" where
  "v2_requests im (Message_text text) = [V2_commit_string im text]"
| "v2_requests im (Message_keysym ks state) =
     (if state \<noteq> 1 then []
      else if ks = 0xff08 then [V2_delete_surrounding_text im 1 0]
      else if ks = 0xffff then [V2_delete_surrounding_text im 0 1]
      else if ks = 0xff0d then [V2_commit_string im [10]]
      else if ks = 0xff09 then [V2_commit_string im [9]] else [])"

fun v1_request :: "ime_env \<Rightarrow> nat option \<Rightarrow> u32 \<Rightarrow> nat \<times> message \<Rightarrow> ime_request" where
  "v1_request env c serial (i, Message_text text) = V1_commit_string c serial text"
| "v1_request env c serial (i, Message_keysym ks state) =
     V1_keysym c serial (milliseconds (ev_clock env i)) ks state"

lemma v2_message_spec:
  "v2_message m b = (v2_requests (br_input_method_v2 b) m \<noteq> [],
     b\<lparr>br_log := br_log b @ v2_requests (br_input_method_v2 b) m\<rparr>)"
  by (cases m) (auto simp: v2_message_def request_def KEY_STATE_PRESSED_def)

lemma v1_message_spec:
  "v1_message env i m b = b\<lparr>br_log := br_log b @ [v1_request env (br_context b) (br_serial b) (i, m)]\<rparr>"
  by (cases m) (simp_all add: v1_message_def request_def)

text \<open>Both loops end, send the messages in the order they were queued and leave the queue empty.\<close>

lemma v2_loop_spec:
  assumes "queue_ok b ms"
  shows "\<exists>q. lq_rep q [] \<and> v2_loop n b =
    Some (n + length (filter (\<lambda>m. v2_requests (br_input_method_v2 b) m \<noteq> []) ms),
      b\<lparr>br_queue := q, br_queued_messages := 0,
        br_log := br_log b @ concat (map (v2_requests (br_input_method_v2 b)) ms)\<rparr>)"
  using assms
proof (induction ms arbitrary: b n)
  case Nil
  with queue_ok_head [OF this] show ?case
    by (subst v2_loop.simps) (auto simp: queue_ok_def intro!: exI [of _ "br_queue b"])
next
  case (Cons m ms)
  obtain q where q: "next_message b = Some (m, b\<lparr>br_queue := q, br_queued_messages := of_nat (length ms)\<rparr>)"
    "lq_rep q ms"
    using next_message_spec [OF Cons.prems] by auto
  define b1 where "b1 = snd (v2_message m (b\<lparr>br_queue := q, br_queued_messages := of_nat (length ms)\<rparr>))"
  have "queue_ok b1 ms" using q(2) Cons.prems by (simp add: b1_def v2_message_spec queue_ok_def)
  from Cons.IH [OF this, of "n + of_bool (v2_requests (br_input_method_v2 b) m \<noteq> [])"]
  show ?case using Cons.prems q(1)
    by (subst v2_loop.simps, cases "v2_requests (br_input_method_v2 b) m = []")
      (simp_all add: queue_ok_head b1_def v2_message_spec)
qed

lemma v1_loop_spec:
  assumes "queue_ok b ms"
  shows "\<exists>q. lq_rep q [] \<and> v1_loop env n b = Some (b\<lparr>br_queue := q, br_queued_messages := 0,
    br_log := br_log b @ map (v1_request env (br_context b) (br_serial b)) (enumerate n ms)\<rparr>)"
  using assms
proof (induction ms arbitrary: b n)
  case Nil
  with queue_ok_head [OF this] show ?case
    by (subst v1_loop.simps) (auto simp: queue_ok_def intro!: exI [of _ "br_queue b"])
next
  case (Cons m ms)
  obtain q where q: "next_message b = Some (m, b\<lparr>br_queue := q, br_queued_messages := of_nat (length ms)\<rparr>)"
    "lq_rep q ms"
    using next_message_spec [OF Cons.prems] by auto
  define b1 where "b1 = v1_message env n m (b\<lparr>br_queue := q, br_queued_messages := of_nat (length ms)\<rparr>)"
  have "queue_ok b1 ms" using q(2) Cons.prems by (simp add: b1_def v1_message_spec queue_ok_def)
  from Cons.IH [OF this, of "n + 1"] show ?case using Cons.prems q(1)
    by (subst v1_loop.simps) (simp add: queue_ok_head b1_def v1_message_spec)
qed

text \<open>The requests of one \<^verbatim>\<open>try_commit\<close> on a queue that holds \<open>ms\<close>.\<close>

definition ready :: "bridge \<Rightarrow> bool" where
  "ready b \<longleftrightarrow> (br_context b \<noteq> None \<or> br_v2_active b) \<and> br_have_serial b"

definition v2_flush :: "bridge \<Rightarrow> message list \<Rightarrow> ime_request list" where
  "v2_flush b ms = (let rs = concat (map (v2_requests (br_input_method_v2 b)) ms)
     in if rs = [] then [] else rs @ [V2_commit (br_input_method_v2 b) (br_v2_serial b)])"

definition flush_requests :: "ime_env \<Rightarrow> bridge \<Rightarrow> message list \<Rightarrow> ime_request list" where
  "flush_requests env b ms =
     (if \<not> ready b then []
      else if br_v2_active b then v2_flush b ms
      else map (v1_request env (br_context b) (br_serial b)) (enumerate 0 ms))"

lemma concat_map_Nil: "concat (map f xs) = [] \<longleftrightarrow> filter (\<lambda>x. f x \<noteq> []) xs = []"
  by (induction xs) auto

lemma try_commit_spec:
  assumes "queue_ok b ms"
  shows "\<exists>b'. try_commit env b = Some b' \<and> queue_ok b' (if ready b then [] else ms) \<and>
    br_log b' = br_log b @ flush_requests env b ms \<and>
    br_context b' = br_context b \<and> br_v2_active b' = br_v2_active b \<and> br_have_serial b' = br_have_serial b \<and>
    br_input_method_v2 b' = br_input_method_v2 b \<and> br_serial b' = br_serial b \<and> br_v2_serial b' = br_v2_serial b"
proof (cases "\<not> ready b \<or> ms = []")
  case True
  then have "try_commit env b = Some b"
    using queue_ok_head [OF assms] by (auto simp: try_commit_def ready_def)
  with True assms show ?thesis by (auto simp: flush_requests_def v2_flush_def)
next
  case False
  then have g: "\<not> ((br_context b = None \<and> \<not> br_v2_active b) \<or> \<not> br_have_serial b \<or> lq_head (br_queue b) = None)"
    using queue_ok_head [OF assms] by (auto simp: ready_def)
  show ?thesis
  proof (cases "br_v2_active b")
    case True
    obtain q where "lq_rep q []" "v2_loop 0 b =
      Some (length (filter (\<lambda>m. v2_requests (br_input_method_v2 b) m \<noteq> []) ms),
        b\<lparr>br_queue := q, br_queued_messages := 0,
          br_log := br_log b @ concat (map (v2_requests (br_input_method_v2 b)) ms)\<rparr>)"
      using v2_loop_spec [OF assms, of 0] by auto
    moreover have "length (filter (\<lambda>m. v2_requests (br_input_method_v2 b) m \<noteq> []) ms) = 0 \<longleftrightarrow>
      concat (map (v2_requests (br_input_method_v2 b)) ms) = []"
      unfolding concat_map_Nil by (rule length_0_conv)
    ultimately show ?thesis
      unfolding try_commit_def if_not_P [OF g] if_P [OF True] using True False
      by (cases "concat (map (v2_requests (br_input_method_v2 b)) ms) = []")
        (simp_all del: concat_eq_Nil_conv add: flush_requests_def v2_flush_def flush_sent_def request_def
          queue_ok_def Let_def)
  next
    case v1: False
    obtain q where "lq_rep q []" "v1_loop env 0 b = Some (b\<lparr>br_queue := q, br_queued_messages := 0,
      br_log := br_log b @ map (v1_request env (br_context b) (br_serial b)) (enumerate 0 ms)\<rparr>)"
      using v1_loop_spec [OF assms, of env 0] by auto
    then show ?thesis
      unfolding try_commit_def if_not_P [OF g] using v1 False
      by (simp add: flush_requests_def flush_sent_def queue_ok_def)
  qed
qed

section \<open>The proxies the requests go to\<close>

fun request_proxy :: "ime_request \<Rightarrow> nat option" where
  "request_proxy (V1_commit_string c _ _) = c"
| "request_proxy (V1_keysym c _ _ _ _) = c"
| "request_proxy (V1_context_destroy c) = c"
| "request_proxy (V2_commit_string i _) = i"
| "request_proxy (V2_delete_surrounding_text i _ _) = i"
| "request_proxy (V2_commit i _) = i"

fun request_context :: "ime_request \<Rightarrow> nat option" where
  "request_context (V1_commit_string c _ _) = c"
| "request_context (V1_keysym c _ _ _ _) = c"
| "request_context (V1_context_destroy c) = c"
| "request_context _ = None"

text \<open>No request goes to a null proxy, and none to a context after its destruction.\<close>

fun log_safe :: "ime_request list \<Rightarrow> bool" where
  "log_safe [] \<longleftrightarrow> True"
| "log_safe (r # rs) \<longleftrightarrow> request_proxy r \<noteq> None \<and>
     (\<forall>c. r = V1_context_destroy (Some c) \<longrightarrow> (\<forall>q \<in> set rs. request_context q \<noteq> Some c)) \<and> log_safe rs"

lemma log_safe_append:
  "log_safe (xs @ ys) \<longleftrightarrow> log_safe xs \<and> log_safe ys \<and>
     (\<forall>c. V1_context_destroy (Some c) \<in> set xs \<longrightarrow> (\<forall>q \<in> set ys. request_context q \<noteq> Some c))"
  by (induction xs) auto

definition context_live :: "bridge \<Rightarrow> bool" where
  "context_live b \<longleftrightarrow> (\<forall>c. br_context b = Some c \<longrightarrow> V1_context_destroy (Some c) \<notin> set (br_log b))"

definition bridge_inv :: "bridge \<Rightarrow> bool" where
  "bridge_inv b \<longleftrightarrow> (\<exists>ms. queue_ok b ms \<and> (br_context b = None \<and> \<not> br_v2_active b \<longrightarrow> ms = [])) \<and>
     (br_v2_active b \<longrightarrow> br_input_method_v2 b \<noteq> None) \<and> log_safe (br_log b) \<and> context_live b"

lemma bridge_invE:
  assumes "bridge_inv b"
  obtains ms where "queue_ok b ms" "br_context b = None \<and> \<not> br_v2_active b \<longrightarrow> ms = []"
    "br_v2_active b \<longrightarrow> br_input_method_v2 b \<noteq> None" "log_safe (br_log b)" "context_live b"
  using assms by (auto simp: bridge_inv_def)

lemma zero_bridge_inv: "bridge_inv zero_bridge"
  by (auto simp: bridge_inv_def zero_bridge_def queue_ok_def context_live_def intro: lq_empty_rep)

lemma v1_request_proxy [simp]:
  "request_proxy (v1_request env c s im) = c" "request_context (v1_request env c s im) = c"
  "v1_request env c s im \<noteq> V1_context_destroy d"
  by (cases "(env, c, s, im)" rule: v1_request.cases; simp)+

lemma v2_requests_proxy:
  "r \<in> set (v2_requests i m) \<Longrightarrow> request_proxy r = i \<and> request_context r = None \<and> (\<forall>d. r \<noteq> V1_context_destroy d)"
  by (cases m) (auto split: if_splits)

lemma log_safe_no_destroy:
  assumes "\<And>r. r \<in> set rs \<Longrightarrow> request_proxy r \<noteq> None" "\<And>r d. r \<in> set rs \<Longrightarrow> r \<noteq> V1_context_destroy d"
  shows "log_safe rs"
  using assms by (induction rs) auto

lemma flush_requests_safe:
  assumes "br_v2_active b \<longrightarrow> br_input_method_v2 b \<noteq> None" "r \<in> set (flush_requests env b ms)"
  shows "request_proxy r \<noteq> None" "r \<noteq> V1_context_destroy d" "request_context r \<in> {None, br_context b}"
  using assms
  by (auto simp: flush_requests_def ready_def v2_flush_def Let_def split: if_splits dest!: v2_requests_proxy)

text \<open>\<^verbatim>\<open>try_commit\<close> keeps the invariant, whatever the environment.\<close>

lemma bridge_inv_cong:
  assumes "br_queue b' = br_queue b" "br_queued_messages b' = br_queued_messages b" "br_context b' = br_context b"
    "br_v2_active b' = br_v2_active b" "br_input_method_v2 b' = br_input_method_v2 b" "br_log b' = br_log b"
  shows "bridge_inv b' = bridge_inv b"
  unfolding bridge_inv_def context_live_def queue_ok_def assms ..

lemma try_commit_inv:
  assumes "bridge_inv b0" "bridge_inv b = bridge_inv b0"
  shows "\<exists>b'. try_commit env b = Some b' \<and> bridge_inv b'"
proof -
  obtain ms where i: "queue_ok b ms" "br_context b = None \<and> \<not> br_v2_active b \<longrightarrow> ms = []"
    "br_v2_active b \<longrightarrow> br_input_method_v2 b \<noteq> None" "log_safe (br_log b)" "context_live b"
    using assms bridge_invE by auto
  obtain b' where b': "try_commit env b = Some b'" "queue_ok b' (if ready b then [] else ms)"
    "br_log b' = br_log b @ flush_requests env b ms" "br_context b' = br_context b"
    "br_v2_active b' = br_v2_active b" "br_input_method_v2 b' = br_input_method_v2 b"
    using try_commit_spec [OF i(1), of env] by auto
  note f = flush_requests_safe [OF i(3), of _ env ms]
  have "log_safe (flush_requests env b ms)" using f(1,2) by (rule log_safe_no_destroy)
  moreover have "request_context r \<noteq> Some c"
    if "V1_context_destroy (Some c) \<in> set (br_log b)" "r \<in> set (flush_requests env b ms)" for c r
    using f(3) [OF that(2)] that(1) i(5) by (auto simp: context_live_def)
  ultimately have "log_safe (br_log b')" using i(4) by (auto simp: b'(3) log_safe_append)
  moreover have "context_live b'" using i(5) f(2) by (auto simp: context_live_def b'(3,4))
  moreover have "br_context b' = None \<and> \<not> br_v2_active b' \<longrightarrow> (if ready b then [] else ms) = []"
    using i(2) by (auto simp: b'(4,5))
  ultimately have "bridge_inv b'" using b'(2) i(3) unfolding bridge_inv_def b'(5,6) by blast
  with b'(1) show ?thesis by blast
qed

lemma enqueue_inv:
  assumes "env_ok env" "bridge_inv b" "br_context b \<noteq> None \<or> br_v2_active b"
  shows "\<exists>ok b'. enqueue_message env m b = Some (ok, b') \<and> bridge_inv b' \<and> (\<not> ok \<longrightarrow> b' = b)"
proof -
  obtain ms where i: "queue_ok b ms" "br_v2_active b \<longrightarrow> br_input_method_v2 b \<noteq> None"
    "log_safe (br_log b)" "context_live b"
    using assms(2) by (rule bridge_invE)
  from enqueue_spec [OF assms(1) i(1), of m] show ?thesis
  proof (elim disjE exE conjE)
    fix q assume q: "length ms < 128" "lq_rep q (ms @ [m])" "enqueue_message env m b =
      Some (True, b\<lparr>br_queue := q, br_queued_messages := of_nat (length ms + 1)\<rparr>)"
    have "queue_ok (b\<lparr>br_queue := q, br_queued_messages := of_nat (length ms + 1)\<rparr>) (ms @ [m])"
      using q(1,2) by (simp add: queue_ok_def)
    then have "bridge_inv (b\<lparr>br_queue := q, br_queued_messages := of_nat (length ms + 1)\<rparr>)"
      using i assms(3) unfolding bridge_inv_def context_live_def by auto
    with q(3) show ?thesis by auto
  qed (use assms(2) in auto)
qed

section \<open>The state machine\<close>

text \<open>
  What libwayland guarantees of the event it dispatches: the context an event names is a proxy the
  bridge has not destroyed.
\<close>

definition undestroyed :: "nat \<Rightarrow> bridge \<Rightarrow> bool" where
  "undestroyed c b \<longleftrightarrow> V1_context_destroy (Some c) \<notin> set (br_log b)"

fun event_ok :: "ime_event \<Rightarrow> bridge \<Rightarrow> bool" where
  "event_ok (Ime_activate c) b \<longleftrightarrow> undestroyed c b \<and> br_context b \<noteq> Some c"
| "event_ok (Ime_deactivate c) b \<longleftrightarrow> undestroyed c b"
| "event_ok _ b \<longleftrightarrow> True"

lemma clear_inv:
  assumes "queue_ok b ms" "br_v2_active b \<longrightarrow> br_input_method_v2 b \<noteq> None" "log_safe (br_log b)" "context_live b"
  shows "\<exists>q. clear_pending_messages b = Some (b\<lparr>br_queue := q, br_queued_messages := 0\<rparr>) \<and>
    queue_ok (b\<lparr>br_queue := q, br_queued_messages := 0\<rparr>) [] \<and>
    bridge_inv (b\<lparr>br_queue := q, br_queued_messages := 0\<rparr>)"
proof -
  obtain q where q: "clear_pending_messages b = Some (b\<lparr>br_queue := q, br_queued_messages := 0\<rparr>)" "lq_rep q []"
    using clear_spec [OF assms(1)] by auto
  then have "queue_ok (b\<lparr>br_queue := q, br_queued_messages := 0\<rparr>) []" by (simp add: queue_ok_def)
  with q(1) assms(2-4) show ?thesis unfolding bridge_inv_def context_live_def by auto
qed

lemma activate_inv:
  assumes "bridge_inv b" "undestroyed c b" "br_context b \<noteq> Some c"
  shows "\<exists>b'. input_method_activate c b = Some b' \<and> bridge_inv b'"
proof -
  obtain ms where i: "queue_ok b ms" "br_context b = None \<and> \<not> br_v2_active b \<longrightarrow> ms = []"
    "br_v2_active b \<longrightarrow> br_input_method_v2 b \<noteq> None" "log_safe (br_log b)" "context_live b"
    using assms(1) by (rule bridge_invE)
  show ?thesis
  proof (cases "br_context b")
    case None
    have "queue_ok (b\<lparr>br_context := Some c, br_have_serial := False\<rparr>) ms" using i(1) by (simp add: queue_ok_def)
    with None i assms(2) show ?thesis
      unfolding bridge_inv_def by (auto simp: input_method_activate_def context_live_def undestroyed_def)
  next
    case (Some d)
    obtain q where q: "clear_pending_messages b = Some (b\<lparr>br_queue := q, br_queued_messages := 0\<rparr>)" "lq_rep q []"
      using clear_spec [OF i(1)] by auto
    with Some i assms(2,3) show ?thesis
      by (auto simp: input_method_activate_def bridge_inv_def request_def queue_ok_def context_live_def
          undestroyed_def log_safe_append)
  qed
qed

lemma deactivate_inv:
  assumes "bridge_inv b" "undestroyed c b"
  shows "\<exists>b'. input_method_deactivate c b = Some b' \<and> bridge_inv b'"
proof -
  obtain ms where i: "queue_ok b ms" "br_context b = None \<and> \<not> br_v2_active b \<longrightarrow> ms = []"
    "br_v2_active b \<longrightarrow> br_input_method_v2 b \<noteq> None" "log_safe (br_log b)" "context_live b"
    using assms(1) by (rule bridge_invE)
  show ?thesis
  proof (cases "br_context b = Some c")
    case True
    obtain q where q: "clear_pending_messages b = Some (b\<lparr>br_queue := q, br_queued_messages := 0\<rparr>)" "lq_rep q []"
      using clear_spec [OF i(1)] by auto
    with True i assms(2) show ?thesis
      by (auto simp: input_method_deactivate_def bridge_inv_def request_def queue_ok_def context_live_def
          undestroyed_def log_safe_append)
  next
    case False
    have "queue_ok (request (V1_context_destroy (Some c)) b) ms" using i(1) by (simp add: queue_ok_def request_def)
    with False i assms(2) show ?thesis
      unfolding bridge_inv_def
      by (auto simp: input_method_deactivate_def request_def context_live_def undestroyed_def log_safe_append)
  qed
qed

text \<open>Every event is handled, and keeps the invariant.\<close>

lemma handle_inv:
  assumes "bridge_inv b" "event_ok e b"
  shows "\<exists>b'. handle env e b = Some b' \<and> bridge_inv b'"
proof -
  obtain ms where i: "queue_ok b ms" "br_context b = None \<and> \<not> br_v2_active b \<longrightarrow> ms = []"
    "br_v2_active b \<longrightarrow> br_input_method_v2 b \<noteq> None" "log_safe (br_log b)" "context_live b"
    using assms(1) by (rule bridge_invE)
  have clear: "\<exists>b'. clear_pending_messages b1 = Some b' \<and> bridge_inv b'"
    if "queue_ok b1 ms" "br_v2_active b1 \<longrightarrow> br_input_method_v2 b1 \<noteq> None" "br_log b1 = br_log b"
      "br_context b1 = br_context b" for b1
    using clear_inv [OF that(1,2)] i(4,5) that(3,4) by (auto simp: context_live_def)
  show ?thesis
  proof (cases e)
    case (Ime_commit_state c s)
    then show ?thesis
      using assms(1) by (auto simp: context_commit_state_def intro!: try_commit_inv [OF assms(1) bridge_inv_cong])
  next
    case (Ime_v2_done j)
    then show ?thesis
      using assms(1) by (auto simp: input_method_v2_done_def intro!: try_commit_inv [OF assms(1) bridge_inv_cong])
  next
    case (Ime_v2_activate j)
    have "queue_ok (b\<lparr>br_v2_active := True, br_have_serial := False\<rparr>) ms" using i(1) by (simp add: queue_ok_def)
    with Ime_v2_activate i assms(1) show ?thesis
      by (auto simp: input_method_v2_activate_def bridge_inv_def context_live_def)
  qed (use assms i clear in \<open>auto simp: context_reset_def input_method_v2_deactivate_def
    input_method_v2_unavailable_def queue_ok_def intro!: activate_inv deactivate_inv clear\<close>)
qed

text \<open>So is every buffer of the socket: the loop over its frames ends and keeps the invariant.\<close>

lemma consume_frame_inv:
  assumes "env_ok env" "bridge_inv b"
  shows "\<exists>ok b'. consume_frame env buffer b = Some (ok, b') \<and> bridge_inv b'"
proof (cases "br_context b = None \<and> \<not> br_v2_active b")
  case False
  then have "\<exists>ok b'. enqueue_message env m b = Some (ok, b') \<and> bridge_inv b'" for m
    using enqueue_inv [OF assms, of m] by auto
  with False assms(2) show ?thesis
    by (auto simp: consume_frame_def enqueue_control_def enqueue_keysym_def enqueue_text_def Let_def)
qed (use assms in \<open>auto simp: consume_frame_def\<close>)

lemma frame_loop_inv:
  assumes "env_ok env" "bridge_inv b"
  shows "\<exists>ok rest b'. frame_loop env buffer b = Some (ok, rest, b') \<and> bridge_inv b'"
  using assms
proof (induction env buffer b rule: frame_loop.induct)
  case (1 env buffer b)
  obtain ok b1 where c: "consume_frame env buffer b = Some (ok, b1)" "bridge_inv b1"
    using consume_frame_inv [OF 1(2,3)] by blast
  obtain b2 where t: "try_commit env b1 = Some b2" "bridge_inv b2"
    using try_commit_inv [OF c(2) refl] by blast
  show ?case
    using 1 c t by (subst frame_loop.simps) auto
qed

end
