(* ===== verification/Ime_Properties.thy ===== *)
theory Ime_Properties
  imports Ime_Safety
begin

text \<open>
  What the input-method bridge guarantees: how the bytes of the socket are cut into reads does not
  matter, every well-formed frame becomes the request it encodes, in order, and no run reaches a
  freed message, an overfull queue or a dead proxy.
\<close>

section \<open>Incomplete frames\<close>

definition incomplete :: "u8 list \<Rightarrow> bool" where
  "incomplete r \<longleftrightarrow> length r < 4 \<or>
     (0 < frame_length r \<and> frame_length r \<le> MAX_COMMIT_BYTES \<and> length r < 4 + frame_length r)"

lemma incomplete_bound: "incomplete r \<Longrightarrow> length r < 4 + MAX_COMMIT_BYTES"
  by (auto simp: incomplete_def MAX_COMMIT_BYTES_def)

lemma incomplete_loop: "incomplete r \<Longrightarrow> frame_loop env r b = Some (True, r, b)"
  by (subst frame_loop.simps) (auto simp: incomplete_def)

lemma frame_loop_incomplete: "frame_loop env buffer b = Some (True, r, b') \<Longrightarrow> incomplete r"
proof (induction env buffer b rule: frame_loop.induct)
  case (1 env buffer b)
  show ?case
  proof (cases "length buffer < 4 \<or> frame_length buffer = 0 \<or> MAX_COMMIT_BYTES < frame_length buffer \<or>
      length buffer < 4 + frame_length buffer")
    case True
    with "1.prems" show ?thesis by (subst (asm) frame_loop.simps) (auto simp: incomplete_def split: if_splits)
  next
    case False
    with "1.prems" obtain b1 b2 where "consume_frame env buffer b = Some (True, b1)"
      "try_commit env b1 = Some b2" "frame_loop env (drop (4 + frame_length buffer) buffer) b2 = Some (True, r, b')"
      by (subst (asm) frame_loop.simps) (auto simp: bind_eq_Some_conv split: if_splits)
    with False "1.IH" show ?thesis by auto
  qed
qed

text \<open>More bytes behind a buffer do not change how its own frames are read.\<close>

lemma frame_prefix:
  assumes "4 \<le> length x"
  shows "frame_length (x @ y) = frame_length x" "frame_control (x @ y) = frame_control x"
    "ntohl (x @ y) = ntohl x"
proof -
  have "(x @ y) ! i = x ! i" if "i < 4" for i using that assms by (simp add: nth_append)
  then show n: "ntohl (x @ y) = ntohl x" by (simp add: ntohl_def)
  then show "frame_length (x @ y) = frame_length x" "frame_control (x @ y) = frame_control x"
    by (simp_all add: frame_length_def frame_control_def)
qed

lemma consume_frame_prefix:
  assumes "4 + frame_length x \<le> length x"
  shows "consume_frame env (x @ y) b = consume_frame env x b"
  using assms by (simp add: consume_frame_def frame_prefix Let_def)

lemma frame_loop_append:
  "frame_loop env (x @ y) b = do { (ok, r, b') \<leftarrow> frame_loop env x b;
     if ok then frame_loop env (r @ y) b' else Some (False, r @ y, b') }"
proof (induction env x b rule: frame_loop.induct)
  case (1 env x b)
  consider (short) "length x < 4" | (bad) "4 \<le> length x" "frame_length x = 0 \<or> MAX_COMMIT_BYTES < frame_length x"
    | (part) "4 \<le> length x" "frame_length x \<noteq> 0" "frame_length x \<le> MAX_COMMIT_BYTES" "length x < 4 + frame_length x"
    | (whole) "4 \<le> length x" "frame_length x \<noteq> 0" "frame_length x \<le> MAX_COMMIT_BYTES" "4 + frame_length x \<le> length x"
    by linarith
  then show ?case
  proof cases
    case short
    then show ?thesis by (simp add: frame_loop.simps [of env x b])
  next
    case bad
    then show ?thesis
      by (subst frame_loop.simps, subst frame_loop.simps [of env x b]) (simp add: frame_prefix)
  next
    case part
    then show ?thesis by (simp add: frame_loop.simps [of env x b])
  next
    case whole
    have "frame_loop env (drop (4 + frame_length x) x @ y) b2 = do { (ok, r, b') \<leftarrow>
        frame_loop env (drop (4 + frame_length x) x) b2;
        if ok then frame_loop env (r @ y) b' else Some (False, r @ y, b') }"
      if "consume_frame env x b = Some (True, b1)" "try_commit env b1 = Some b2" for b1 b2
      using "1.IH" [of "(True, b1)" True b1 b2] that whole by auto
    moreover have "drop (4 + frame_length x) (x @ y) = drop (4 + frame_length x) x @ y" using whole by simp
    ultimately show ?thesis
      using whole
      by (subst frame_loop.simps, subst frame_loop.simps [of env x b])
        (auto simp: frame_prefix consume_frame_prefix split: option.splits Option.bind_splits)
  qed
qed

lemma consume_client_chunks:
  assumes "env_ok env" "bridge_inv b" "incomplete buffer"
  shows "\<exists>ok r1 r2 b'. consume_client env chunks Read_again buffer b = Some (ok, r1, b') \<and>
    frame_loop env (buffer @ concat chunks) b = Some (ok, r2, b') \<and> (ok \<longrightarrow> r1 = r2 \<and> incomplete r1)"
  using assms(2,3)
proof (induction chunks arbitrary: buffer b)
  case Nil
  then show ?case by (auto simp: incomplete_loop)
next
  case (Cons chunk chunks)
  obtain ok r b1 where l: "frame_loop env (buffer @ chunk) b = Some (ok, r, b1)" "bridge_inv b1"
    using frame_loop_inv [OF assms(1) Cons.prems(1), of "buffer @ chunk"] by blast
  have a: "frame_loop env (buffer @ concat (chunk # chunks)) b =
      (if ok then frame_loop env (r @ concat chunks) b1 else Some (False, r @ concat chunks, b1))"
    using frame_loop_append [of env "buffer @ chunk" "concat chunks" b] l(1) by simp
  show ?case
  proof (cases ok)
    case True
    have r: "incomplete r" using frame_loop_incomplete [of env "buffer @ chunk" b r b1] l(1) True by simp
    then have "length r \<noteq> 4 + MAX_COMMIT_BYTES" using incomplete_bound [of r] by auto
    with Cons.IH [OF l(2) r] l(1) True a show ?thesis by simp
  next
    case False
    with l(1) a show ?thesis by (intro exI [of _ False]) simp
  qed
qed

section \<open>The frame format\<close>

definition htonl :: "u32 \<Rightarrow> u8 list" where
  "htonl w = [ucast (drop_bit 24 w), ucast (drop_bit 16 w), ucast (drop_bit 8 w), ucast w]"

fun encode_frame :: "message \<Rightarrow> u8 list" where
  "encode_frame (Message_text text) = htonl (of_nat (length text)) @ text"
| "encode_frame (Message_keysym ks state) = htonl (CONTROL_FRAME_BIT OR 6) @ [1, ucast state] @ htonl ks"

fun sendable :: "message \<Rightarrow> bool" where
  "sendable (Message_text text) \<longleftrightarrow> text \<noteq> [] \<and> length text \<le> MAX_COMMIT_BYTES \<and> 0 \<notin> set text"
| "sendable (Message_keysym ks state) \<longleftrightarrow> state = 0 \<or> state = 1"

lemma length_htonl [simp]: "length (htonl w) = 4"
  by (simp add: htonl_def)

lemma ntohl_htonl [simp]: "ntohl (htonl w @ bs) = w"
proof (rule bit_word_eqI)
  fix n assume "n < LENGTH(32)"
  then consider "n < 8" | "8 \<le> n" "n < 16" | "16 \<le> n" "n < 24" | "24 \<le> n" "n < 32" by fastforce
  then show "bit (ntohl (htonl w @ bs)) n = bit w n"
    by cases (auto simp: ntohl_def htonl_def bit_simps)
qed

lemma not_control: "NOT CONTROL_FRAME_BIT = mask 31"
  by (simp add: CONTROL_FRAME_BIT_def mask_eq_exp_minus_1)

lemma text_header:
  assumes "n \<le> MAX_COMMIT_BYTES"
  shows "frame_length (htonl (of_nat n) @ bs) = n" "\<not> frame_control (htonl (of_nat n) @ bs)"
proof -
  have n: "n < 2 ^ 31" using assms by (simp add: MAX_COMMIT_BYTES_def)
  then have t: "take_bit 31 (of_nat n :: u32) = of_nat n"
    by (simp add: take_bit_nat_eq_self flip: of_nat_take_bit)
  show "frame_length (htonl (of_nat n) @ bs) = n"
    using t n by (simp add: frame_length_def not_control unat_of_nat flip: take_bit_eq_mask)
  have "of_nat n AND CONTROL_FRAME_BIT = take_bit 31 (of_nat n :: u32) AND CONTROL_FRAME_BIT" by (simp only: t)
  also have "\<dots> = (of_nat n AND (mask 31 AND CONTROL_FRAME_BIT) :: u32)"
    by (simp only: take_bit_eq_mask and.assoc)
  also have "mask 31 AND CONTROL_FRAME_BIT = (0 :: u32)" by (simp add: mask_eq_exp_minus_1 CONTROL_FRAME_BIT_def)
  finally show "\<not> frame_control (htonl (of_nat n) @ bs)" by (simp add: frame_control_def)
qed

lemma control_header:
  "frame_length (htonl (CONTROL_FRAME_BIT OR 6) @ bs) = 6" "frame_control (htonl (CONTROL_FRAME_BIT OR 6) @ bs)"
  by (simp_all add: frame_length_def frame_control_def CONTROL_FRAME_BIT_def)

definition generous :: "ime_env \<Rightarrow> bool" where
  "generous env \<longleftrightarrow> (\<forall>m. finite (dom m) \<and> card (dom m) < 128 \<longrightarrow> (\<exists>a. ev_alloc env m = Some a)) \<and> (\<forall>n. ev_text env n)"

lemma encoded_frame:
  assumes "sendable m"
  shows "frame_length (encode_frame m @ bs) + 4 = length (encode_frame m)" "0 < frame_length (encode_frame m @ bs)"
    "frame_length (encode_frame m @ bs) \<le> MAX_COMMIT_BYTES"
  using assms by (cases m; simp add: text_header control_header MAX_COMMIT_BYTES_def)+

lemma consume_encoded:
  assumes "sendable m" "br_context b \<noteq> None \<or> br_v2_active b" "\<And>n. ev_text env n"
  shows "consume_frame env (encode_frame m @ bs) b = enqueue_message env m b"
proof (cases m)
  case (Message_text t)
  with assms show ?thesis by (auto simp: consume_frame_def text_header enqueue_text_def Let_def)
next
  case (Message_keysym ks state)
  have "ucast (ucast state :: u8) = state" using assms(1) Message_keysym by auto
  with assms Message_keysym show ?thesis
    using ntohl_htonl [of ks "[]"]
    by (auto simp: consume_frame_def control_header enqueue_control_def enqueue_keysym_def CONTROL_KEYSYM_def
        KEY_STATE_RELEASED_def KEY_STATE_PRESSED_def Let_def)
qed

lemma lq_path_length: "lq_path m p as vs \<Longrightarrow> length as = length vs"
  by (induction m p as vs rule: lq_path.induct) (auto split: option.splits)

lemma lq_rep_card: "lq_rep q vs \<Longrightarrow> card (dom (lq_cells q)) = length vs"
  by (auto simp: lq_rep_def lq_cells_ok_def distinct_card dest: lq_path_length)

lemma enqueue_generous:
  assumes "env_ok env" "generous env" "queue_ok b ms" "length ms < 128"
  shows "\<exists>q. enqueue_message env m b = Some (True, b\<lparr>br_queue := q, br_queued_messages := of_nat (length ms + 1)\<rparr>) \<and>
    queue_ok (b\<lparr>br_queue := q, br_queued_messages := of_nat (length ms + 1)\<rparr>) (ms @ [m])"
proof -
  have "card (dom (lq_cells (br_queue b))) < 128" "finite (dom (lq_cells (br_queue b)))"
    using assms(3,4) lq_rep_card [of "br_queue b" ms] by (auto simp: queue_ok_def lq_rep_def lq_cells_ok_def)
  then obtain a where "ev_alloc env (lq_cells (br_queue b)) = Some a" using assms(2) by (auto simp: generous_def)
  moreover have "br_queued_messages b \<noteq> MAX_QUEUED_MESSAGES"
    using assms(3,4) by (simp add: queue_ok_def MAX_QUEUED_MESSAGES_def of_nat_128)
  ultimately have "enqueue_message env m b \<noteq> Some (False, b)"
    by (auto simp: enqueue_message_def bind_eq_Some_conv)
  with enqueue_spec [OF assms(1,3), of m] assms(4) show ?thesis by (auto simp: queue_ok_def)
qed

text \<open>One encoded message on a ready bridge with an empty queue: exactly its own requests.\<close>

lemma frame_loop_one:
  assumes "env_ok env" "generous env" "sendable m" "ready b" "queue_ok b []"
  shows "\<exists>b'. frame_loop env (encode_frame m @ bs) b = frame_loop env bs b' \<and> ready b' \<and> queue_ok b' [] \<and>
    br_log b' = br_log b @ flush_requests env b [m] \<and> br_context b' = br_context b \<and>
    br_v2_active b' = br_v2_active b \<and> br_have_serial b' = br_have_serial b \<and>
    br_input_method_v2 b' = br_input_method_v2 b \<and> br_serial b' = br_serial b \<and> br_v2_serial b' = br_v2_serial b"
proof -
  obtain q where q: "enqueue_message env m b = Some (True, b\<lparr>br_queue := q, br_queued_messages := 1\<rparr>)"
    "queue_ok (b\<lparr>br_queue := q, br_queued_messages := 1\<rparr>) [m]"
    using enqueue_generous [OF assms(1,2,5), of m] by auto
  define b1 where "b1 = b\<lparr>br_queue := q, br_queued_messages := 1\<rparr>"
  have b1: "ready b1 = ready b" "flush_requests env b1 ms = flush_requests env b ms" for ms
    by (simp_all add: b1_def ready_def flush_requests_def v2_flush_def)
  have p: "br_log b1 = br_log b" "br_context b1 = br_context b" "br_v2_active b1 = br_v2_active b"
    "br_have_serial b1 = br_have_serial b" "br_input_method_v2 b1 = br_input_method_v2 b"
    "br_serial b1 = br_serial b" "br_v2_serial b1 = br_v2_serial b"
    by (simp_all add: b1_def)
  obtain b' where b': "try_commit env b1 = Some b'" "queue_ok b' []" "br_log b' = br_log b1 @ flush_requests env b1 [m]"
    "br_context b' = br_context b1" "br_v2_active b' = br_v2_active b1" "br_have_serial b' = br_have_serial b1"
    "br_input_method_v2 b' = br_input_method_v2 b1" "br_serial b' = br_serial b1" "br_v2_serial b' = br_v2_serial b1"
    using try_commit_spec [OF q(2) [folded b1_def], of env] b1(1) assms(4) by auto
  have l: "length (encode_frame m @ bs) \<ge> 4 + frame_length (encode_frame m @ bs)"
    "drop (4 + frame_length (encode_frame m @ bs)) (encode_frame m @ bs) = bs"
    using encoded_frame(1) [OF assms(3), of bs] by simp_all
  have "consume_frame env (encode_frame m @ bs) b = Some (True, b1)"
    using consume_encoded [OF assms(3), of b env bs] assms(2,4) q(1) by (auto simp: ready_def generous_def b1_def)
  then have "frame_loop env (encode_frame m @ bs) b = frame_loop env bs b'"
    using l encoded_frame(2,3) [OF assms(3), of bs] b'(1) by (subst frame_loop.simps) simp
  with b' assms(4) show ?thesis unfolding p b1(2) by (auto simp: ready_def)
qed

lemma frame_loop_all:
  assumes "env_ok env" "generous env" "\<And>m. m \<in> set ms \<Longrightarrow> sendable m" "ready b" "queue_ok b []"
  shows "\<exists>b'. frame_loop env (concat (map encode_frame ms)) b = Some (True, [], b') \<and> queue_ok b' [] \<and>
    br_log b' = br_log b @ concat (map (\<lambda>m. flush_requests env b [m]) ms)"
  using assms(3-5)
proof (induction ms arbitrary: b)
  case Nil
  then show ?case by (auto simp: frame_loop.simps)
next
  case (Cons m ms)
  obtain b1 where b1: "frame_loop env (encode_frame m @ concat (map encode_frame ms)) b =
      frame_loop env (concat (map encode_frame ms)) b1" "ready b1" "queue_ok b1 []"
    "br_log b1 = br_log b @ flush_requests env b [m]" "br_context b1 = br_context b"
    "br_v2_active b1 = br_v2_active b" "br_have_serial b1 = br_have_serial b"
    "br_input_method_v2 b1 = br_input_method_v2 b" "br_serial b1 = br_serial b" "br_v2_serial b1 = br_v2_serial b"
    using frame_loop_one [OF assms(1,2) _ Cons.prems(2,3), of m "concat (map encode_frame ms)"] Cons.prems(1) by auto
  have "flush_requests env b1 [m'] = flush_requests env b [m']" for m'
    unfolding flush_requests_def ready_def v2_flush_def by (simp only: b1)
  with Cons.IH [OF _ b1(2,3)] Cons.prems(1) b1(1,4) show ?case by auto
qed

section \<open>The bridge as a state machine\<close>

text \<open>A step is an event of the connection or a buffer of the socket.\<close>

inductive ime_step :: "ime_env \<Rightarrow> bridge \<Rightarrow> bridge \<Rightarrow> bool" for env where
  event: "event_ok e b \<Longrightarrow> handle env e b = Some b' \<Longrightarrow> ime_step env b b'"
| frames: "frame_loop env buffer b = Some (ok, r, b') \<Longrightarrow> ime_step env b b'"

lemma ime_step_inv: "env_ok env \<Longrightarrow> ime_step env b b' \<Longrightarrow> bridge_inv b \<Longrightarrow> bridge_inv b'"
proof (erule ime_step.cases)
  fix e c c' assume "b = c" "b' = c'" "event_ok e c" "handle env e c = Some c'" "bridge_inv b"
  then show "bridge_inv b'" using handle_inv [of b e env] by auto
next
  fix buffer c ok r c'
  assume "b = c" "b' = c'" "frame_loop env buffer c = Some (ok, r, c')" "bridge_inv b" "env_ok env"
  then show "bridge_inv b'" using frame_loop_inv [of env b buffer] by auto
qed

text \<open>The allocator that takes the first free address.\<close>

fun first_free :: "nat \<Rightarrow> nat \<Rightarrow> (addr \<rightharpoonup> 'v) \<Rightarrow> addr option" where
  "first_free 0 a m = None"
| "first_free (Suc n) a m = (if m a = None then Some a else first_free n (Suc a) m)"

lemma first_free_unused: "first_free n a m = Some k \<Longrightarrow> m k = None"
  by (induction n a m rule: first_free.induct) (auto split: if_splits)

lemma first_free_full: "first_free n a m = None \<Longrightarrow> {a..<a + n} \<subseteq> dom m"
proof (induction n a m rule: first_free.induct)
  case (2 n a m)
  then have "m a \<noteq> None" "{Suc a..<Suc a + n} \<subseteq> dom m" by (auto split: if_splits)
  moreover have "{a..<a + Suc n} = insert a {Suc a..<Suc a + n}" by auto
  ultimately show ?case by auto
qed simp

definition simple_env :: ime_env where
  "simple_env = \<lparr>ev_alloc = first_free 200 1, ev_text = (\<lambda>_. True), ev_clock = (\<lambda>_. (1, 0)), ev_flush = True\<rparr>"

lemma simple_env_ok: "env_ok simple_env"
  by (auto simp: env_ok_def simple_env_def dest: first_free_unused)

lemma first_free_generous:
  assumes "finite (dom m)" "card (dom m) < n"
  shows "\<exists>a. first_free n k m = Some a"
proof (rule ccontr)
  assume "\<not> (\<exists>a. first_free n k m = Some a)"
  then have "{k..<k + n} \<subseteq> dom m" by (simp add: first_free_full)
  then have "card {k..<k + n} \<le> card (dom m)" by (rule card_mono [OF assms(1)])
  with assms(2) show False by simp
qed

interpretation ime_bridge: transition_system "\<lambda>b b'. \<exists>env. env_ok env \<and> ime_step env b b'" bridge_inv
  by unfold_locales (blast intro: ime_step_inv)

lemma simple_env_generous: "generous simple_env"
  unfolding generous_def
proof (intro conjI allI impI)
  fix m :: "addr \<rightharpoonup> message cell" assume "finite (dom m) \<and> card (dom m) < 128"
  then show "\<exists>a. ev_alloc simple_env m = Some a"
    using first_free_generous [of m 200 1] by (simp add: simple_env_def)
qed (simp add: simple_env_def)

section \<open>Properties\<close>

text \<open>C5: however the bytes of the socket are cut into reads, the bridge ends in the same state, with the
  same verdict on the client and the same unfinished frame; the buffer never fills up, so the guard
  \<^verbatim>\<open>*used == 4 + MAX_COMMIT_BYTES\<close> after the loop is never true.\<close>

theorem ime_chunking_irrelevant:
  assumes "env_ok env" "bridge_inv b"
  shows "\<exists>ok r1 r2 b'. consume_client env chunks Read_again [] b = Some (ok, r1, b') \<and>
    frame_loop env (concat chunks) b = Some (ok, r2, b') \<and>
    (ok \<longrightarrow> r1 = r2 \<and> length r1 < 4 + MAX_COMMIT_BYTES)"
proof -
  have "incomplete []" by (simp add: incomplete_def)
  from consume_client_chunks [OF assms this, of chunks] incomplete_bound show ?thesis by fastforce
qed

theorem ime_chunking_irrelevant_witness:
  "\<exists>ok r1 r2 b'. consume_client simple_env [[0], [0, 0, 1, 65, 0]] Read_again [] zero_bridge = Some (ok, r1, b') \<and>
    frame_loop simple_env [0, 0, 0, 1, 65, 0] zero_bridge = Some (ok, r2, b')"
  using ime_chunking_irrelevant [OF simple_env_ok zero_bridge_inv, of "[[0], [0, 0, 1, 65, 0]]"] by auto

text \<open>A bridge with an active context of protocol version 1.\<close>

definition active_bridge :: bridge where
  "active_bridge = zero_bridge\<lparr>br_input_method := Some 1, br_context := Some 5, br_serial := 3, br_have_serial := True\<rparr>"

lemma active_bridge_ready: "ready active_bridge" "queue_ok active_bridge []"
  by (simp_all add: active_bridge_def zero_bridge_def ready_def queue_ok_def lq_empty_rep)

text \<open>C6: a well-formed sequence of frames, decoded by the bridge, gives exactly the requests the
  encoded messages stand for, in their order, and leaves the queue and the buffer empty: for version 1 one
  \<^verbatim>\<open>commit_string\<close> or \<^verbatim>\<open>keysym\<close> per message on the active context with the current serial, for version 2
  the text operations with a \<^verbatim>\<open>commit\<close>.\<close>

theorem ime_frames_decoded:
  assumes "env_ok env" "generous env" "\<And>m. m \<in> set ms \<Longrightarrow> sendable m" "ready b" "queue_ok b []"
  shows "\<exists>b'. frame_loop env (concat (map encode_frame ms)) b = Some (True, [], b') \<and> queue_ok b' [] \<and>
    br_log b' = br_log b @ concat (map (\<lambda>m. if br_v2_active b then v2_flush b [m]
      else [v1_request env (br_context b) (br_serial b) (0, m)]) ms)"
proof -
  have "flush_requests env b [m] = (if br_v2_active b then v2_flush b [m]
      else [v1_request env (br_context b) (br_serial b) (0, m)])" for m
    using assms(4) by (simp add: flush_requests_def)
  with frame_loop_all [OF assms] show ?thesis by simp
qed

theorem ime_frames_decoded_witness:
  "\<exists>b'. frame_loop simple_env (concat (map encode_frame [Message_text [104, 105], Message_keysym 0xff0d 1]))
      active_bridge = Some (True, [], b') \<and>
    br_log b' = [V1_commit_string (Some 5) 3 [104, 105], V1_keysym (Some 5) 3 1000 0xff0d 1]"
proof -
  have "sendable m" if "m \<in> set [Message_text [104, 105], Message_keysym 0xff0d 1]" for m
    using that by (auto simp: MAX_COMMIT_BYTES_def)
  from ime_frames_decoded [OF simple_env_ok simple_env_generous this active_bridge_ready] show ?thesis
    by (fastforce simp: active_bridge_def zero_bridge_def simple_env_def milliseconds_def)
qed



text \<open>No event and no input stops the bridge: every handler and the loop over the frames return,
  without following a freed message.\<close>

theorem ime_handlers_return:
  assumes "env_ok env" "bridge_inv b" "event_ok e b"
  shows "(\<exists>b'. handle env e b = Some b') \<and> (\<exists>ok r b'. frame_loop env buffer b = Some (ok, r, b'))"
  using handle_inv [OF assms(2,3)] frame_loop_inv [OF assms(1,2)] by blast

theorem ime_handlers_return_witness:
  "\<exists>b'. handle simple_env (Ime_commit_state 5 9) zero_bridge = Some b'"
  using ime_handlers_return [OF simple_env_ok zero_bridge_inv, of "Ime_commit_state 5 9"] by simp

section \<open>The queue as a bounded buffer\<close>

text \<open>The abstract queue: a list of at most 128 messages that refuses a message when it is full.\<close>

datatype queue_op = Put message | Get | Clear
datatype queue_answer = Accepted | Refused | Message message | No_message | Cleared

fun bounded_buffer :: "queue_op \<Rightarrow> message list \<Rightarrow> queue_answer \<times> message list" where
  "bounded_buffer (Put m) ms = (if length ms < 128 then (Accepted, ms @ [m]) else (Refused, ms))"
| "bounded_buffer Get [] = (No_message, [])"
| "bounded_buffer Get (m # ms) = (Message m, ms)"
| "bounded_buffer Clear ms = (Cleared, [])"

text \<open>The same operations on the bridge; the loops of \<^verbatim>\<open>try_commit\<close> take a message while there is a head.\<close>

fun bridge_queue :: "ime_env \<Rightarrow> queue_op \<Rightarrow> bridge \<Rightarrow> (queue_answer \<times> bridge) option" where
  "bridge_queue env (Put m) b = map_option (\<lambda>(ok, b'). (if ok then Accepted else Refused, b')) (enqueue_message env m b)"
| "bridge_queue env Get b = (if lq_head (br_queue b) = None then Some (No_message, b)
     else map_option (\<lambda>(m, b'). (Message m, b')) (next_message b))"
| "bridge_queue env Clear b = map_option (\<lambda>b'. (Cleared, b')) (clear_pending_messages b)"

fun run_buffer :: "queue_op list \<Rightarrow> message list \<Rightarrow> queue_answer list \<times> message list" where
  "run_buffer [] ms = ([], ms)"
| "run_buffer (p # ps) ms = (let (r, ms1) = bounded_buffer p ms; (rs, ms2) = run_buffer ps ms1 in (r # rs, ms2))"

fun run_bridge :: "ime_env \<Rightarrow> queue_op list \<Rightarrow> bridge \<Rightarrow> (queue_answer list \<times> bridge) option" where
  "run_bridge env [] b = Some ([], b)"
| "run_bridge env (p # ps) b = do { (r, b1) \<leftarrow> bridge_queue env p b; (rs, b2) \<leftarrow> run_bridge env ps b1; Some (r # rs, b2) }"

lemma bridge_queue_simulates:
  assumes "env_ok env" "generous env" "queue_ok b ms"
  shows "\<exists>b'. bridge_queue env p b = Some (fst (bounded_buffer p ms), b') \<and> queue_ok b' (snd (bounded_buffer p ms))"
proof (cases p)
  case (Put m)
  show ?thesis
  proof (cases "length ms < 128")
    case True
    with enqueue_generous [OF assms(1,2,3), of m] Put show ?thesis by auto
  next
    case False
    then have "enqueue_message env m b = Some (False, b)"
      using assms(3) by (auto simp: enqueue_message_def queue_ok_def MAX_QUEUED_MESSAGES_def)
    with False assms(3) Put show ?thesis by simp
  qed
next
  case Get
  show ?thesis
  proof (cases ms)
    case Nil
    then show ?thesis using assms(3) Get by (auto simp: queue_ok_def lq_head_rep)
  next
    case (Cons m ns)
    then obtain q where "next_message b = Some (m, b\<lparr>br_queue := q, br_queued_messages := of_nat (length ns)\<rparr>)" "lq_rep q ns"
      using next_message_spec assms(3) by blast
    moreover have "lq_head (br_queue b) \<noteq> None" using assms(3) Cons lq_head_rep by (auto simp: queue_ok_def)
    ultimately show ?thesis using Cons Get assms(3) by (auto simp: queue_ok_def)
  qed
next
  case Clear
  obtain q where "lq_free (br_queue b) = Some q" "lq_rep (q\<lparr>lq_tail := None\<rparr>) []"
    using assms(3) lq_free_rep by (auto simp: queue_ok_def)
  with Clear show ?thesis by (auto simp: clear_pending_messages_def queue_ok_def)
qed

text \<open>C12: the linked queue of the bridge, with its counter, is a bounded first-in first-out buffer: every sequence of
  enqueuing, taking and clearing returns the answers the abstract buffer of 128 messages gives.\<close>

theorem ime_queue_refines_buffer:
  assumes "env_ok env" "generous env" "queue_ok b ms"
  shows "\<exists>b'. run_bridge env ps b = Some (fst (run_buffer ps ms), b') \<and> queue_ok b' (snd (run_buffer ps ms))"
  using assms(3)
proof (induction ps arbitrary: b ms)
  case (Cons p ps)
  from bridge_queue_simulates [OF assms(1,2) Cons.prems, of p] obtain b1
    where "bridge_queue env p b = Some (fst (bounded_buffer p ms), b1)" "queue_ok b1 (snd (bounded_buffer p ms))"
    by blast
  with Cons.IH [of b1 "snd (bounded_buffer p ms)"] show ?case by (auto simp: Let_def split: prod.splits)
qed simp

theorem ime_queue_refines_buffer_witness:
  "\<exists>b'. run_bridge simple_env [Put (Message_text [65]), Put (Message_keysym 0xff0d 1), Get, Get, Get] zero_bridge =
     Some ([Accepted, Accepted, Message (Message_text [65]), Message (Message_keysym 0xff0d 1), No_message], b')"
proof -
  have "queue_ok zero_bridge []" by (simp add: queue_ok_def zero_bridge_def lq_empty_rep)
  from ime_queue_refines_buffer [OF simple_env_ok simple_env_generous this,
      of "[Put (Message_text [65]), Put (Message_keysym 0xff0d 1), Get, Get, Get]"]
  show ?thesis by auto
qed

end
