(* ===== verification/Ime_Main.thy ===== *)
theory Ime_Main
  imports Ime_Properties
begin

text \<open>
  \<^verbatim>\<open>main\<close> of the input method bridge (\<^verbatim>\<open>wayland-ime-bridge/src/main.c\<close>): the two modes of the program, the listening socket, the loops and the
  shutdown. What the program does to descriptors, files and proxies of its own is a list of actions.
\<close>

section \<open>The listening socket\<close>

datatype main_action = Opened fd | Shut fd | Created string | Removed string | Context_gone nat | Method_gone nat | Manager_gone nat | Seat_gone nat |
  Disconnected

text \<open>\<open>la_absent\<close>: \<^verbatim>\<open>lstat\<close> fails with \<^verbatim>\<open>ENOENT\<close>.\<close>

record listen_answers =
  la_absent :: bool
  la_socket :: fd
  la_bind :: bool
  la_listen :: bool
  la_nonblocking :: bool
  la_chmod :: bool

definition listen_socket :: "listen_answers \<Rightarrow> string \<Rightarrow> fd \<times> main_action list" where
  "listen_socket a path =
     (if 108 \<le> length path then (-1, [])
      else if \<not> la_absent a then (-1, [])
      else
        let f = la_socket a
        in if f < 0 then (-1, [])
           else if \<not> la_bind a then (-1, [Opened f, Shut f])
           else if \<not> la_listen a \<or> \<not> la_nonblocking a then (-1, [Opened f, Created path, Shut f])
           else if \<not> la_chmod a then (-1, [Opened f, Created path, Shut f, Removed path])
           else (f, [Opened f, Created path]))"

section \<open>The loops\<close>

text \<open>
  A turn of the loop of the socket mode; a signal, which clears \<^verbatim>\<open>running\<close>, may come between two turns or during one. The result is 0 (\<open>True\<close>) or a failure once
  the loop has ended, \<open>None\<close> while it waits for more.
\<close>

datatype turn = Turn ime_io | Interrupted ime_io | Signal

definition stop_bridge :: "ime_server \<Rightarrow> ime_server" where
  "stop_bridge s = s\<lparr>is_bridge := (is_bridge s)\<lparr>br_running := False\<rparr>\<rparr>"

fun socket_loop :: "ime_env \<Rightarrow> turn list \<Rightarrow> ime_server \<Rightarrow> (bool option \<times> ime_server) option" where
  "socket_loop env [] s = Some (if br_running (is_bridge s) then None else Some True, s)"
| "socket_loop env (t # ts) s =
     (if \<not> br_running (is_bridge s) then Some (Some True, s)
      else case t of
          Signal \<Rightarrow> socket_loop env ts (stop_bridge s)
        | Interrupted io \<Rightarrow>
            do { (ok, s1) \<leftarrow> dispatch_socket_mode env io s;
                 Some (Some True, stop_bridge s1) }
        | Turn io \<Rightarrow>
            do { (ok, s1) \<leftarrow> dispatch_socket_mode env io s;
                 if ok then socket_loop env ts s1
                 else Some (Some (\<not> br_running (is_bridge s1)), s1) })"

text \<open>What \<^verbatim>\<open>wl_display_dispatch\<close> gives: the events it has delivered, or that the connection failed.\<close>

fun one_shot_loop :: "ime_env \<Rightarrow> ime_event list option list \<Rightarrow> bridge \<Rightarrow> (bool option \<times> bridge) option" where
  "one_shot_loop env [] b = Some (if br_sent b then Some True else None, b)"
| "one_shot_loop env (d # ds) b =
     (if br_sent b then Some (Some True, b)
      else case d of
          None \<Rightarrow> Some (Some False, b)
        | Some es \<Rightarrow> do { b1 \<leftarrow> dispatch_events env es b; one_shot_loop env ds b1 })"

section \<open>The program\<close>

record main_answers =
  ma_strdup :: bool
  ma_connected :: bool
  ma_globals :: "(string \<times> u32 \<times> nat option) list"
  ma_roundtrip :: bool
  ma_created :: "nat option"
  ma_listen :: listen_answers
  ma_turns :: "turn list"
  ma_dispatches :: "ime_event list option list"

datatype ime_mode = Socket_mode string | One_shot string

definition main_mode :: "string list \<Rightarrow> ime_mode option" where
  "main_mode args = (case args of
       [a, x] \<Rightarrow> if a = ''--socket'' then Some (Socket_mode x) else if a = ''--commit'' then Some (One_shot x) else None
     | _ \<Rightarrow> None)"

text \<open>The text of the one-shot mode is queued before there is a connection.\<close>

definition queue_text :: "ime_env \<Rightarrow> main_answers \<Rightarrow> ime_mode \<Rightarrow> bridge \<Rightarrow> (bool \<times> bridge) option" where
  "queue_text env a m b = (case m of
       Socket_mode _ \<Rightarrow> Some (True, b)
     | One_shot text \<Rightarrow>
         if text = [] then Some (False, b)
         else if \<not> ma_strdup a then Some (False, b)
         else enqueue_text env (map of_char text) b)"

definition bind_globals :: "(string \<times> u32 \<times> nat option) list \<Rightarrow> bridge \<Rightarrow> bridge" where
  "bind_globals gs b = fold (\<lambda>(i, v, p). registry_global i v p) gs b"

definition gone_if :: "(nat \<Rightarrow> main_action) \<Rightarrow> nat option \<Rightarrow> main_action list" where
  "gone_if f p = (case p of None \<Rightarrow> [] | Some x \<Rightarrow> [f x])"

text \<open>The end of \<^verbatim>\<open>main\<close>. A client is closed like any other connection.\<close>

definition shut_down :: "fd \<Rightarrow> string option \<Rightarrow> ime_server \<Rightarrow> (ime_server \<times> main_action list) option" where
  "shut_down listener path s =
     (let s1 = close_client s; b = is_bridge s1 in
      do { b1 \<leftarrow> clear_pending_messages b;
           Some (s1\<lparr>is_bridge := b1\<rparr>,
             (if 0 \<le> listener then [Shut listener] else []) @ (case path of None \<Rightarrow> [] | Some p \<Rightarrow> [Removed p]) @
             gone_if Context_gone (br_context b) @ gone_if Method_gone (br_input_method_v2 b) @
             gone_if Manager_gone (br_input_method_manager_v2 b) @ gone_if Seat_gone (br_seat b) @ [Disconnected]) })"

definition new_server :: "bridge \<Rightarrow> ime_server" where
  "new_server b = \<lparr>is_bridge = b, is_client = None, is_input = [], is_closed = []\<rparr>"

definition serve_mode :: "ime_env \<Rightarrow> main_answers \<Rightarrow> ime_mode \<Rightarrow> bridge \<Rightarrow> (bool option \<times> ime_server \<times> main_action list) option" where
  "serve_mode env a m b = (case m of
       Socket_mode path \<Rightarrow>
         (let (listener, as) = listen_socket (ma_listen a) path in
          if listener < 0 then Some (Some False, new_server b, as @ [Disconnected])
          else do { (r, s) \<leftarrow> socket_loop env (ma_turns a) (new_server b);
                    if r = None then Some (None, s, as)
                    else do { (s1, ds) \<leftarrow> shut_down listener (Some path) s; Some (r, s1, as @ ds) } })
     | One_shot _ \<Rightarrow>
         do { (r, b1) \<leftarrow> one_shot_loop env (ma_dispatches a) b;
              if r = None then Some (None, new_server b1, [])
              else do { (s1, ds) \<leftarrow> shut_down (-1) None (new_server b1); Some (r, s1, ds) } })"

definition ime_main :: "ime_env \<Rightarrow> main_answers \<Rightarrow> string list \<Rightarrow> (bool option \<times> ime_server \<times> main_action list) option" where
  "ime_main env a args = (case main_mode args of
       None \<Rightarrow> Some (Some False, new_server zero_bridge, [])
     | Some m \<Rightarrow>
         do { (ok, b) \<leftarrow> queue_text env a m zero_bridge;
              if \<not> ok then Some (Some False, new_server b, [])
              else if \<not> ma_connected a then Some (Some False, new_server b, [])
              else
                let b1 = bind_globals (ma_globals a) b
                in case choose_input_method (ma_roundtrip a) (ma_created a) b1 of
                     None \<Rightarrow> Some (Some False, new_server b1, [Disconnected])
                   | Some b2 \<Rightarrow> serve_mode env a m b2 })"

section \<open>The queue through a run\<close>

text \<open>
  However the connection behaves, a handler leaves the queue as it was or empties it, and it reports \<^verbatim>\<open>sent\<close> only when the texts of the queue have been committed.
  Nothing is assumed of the events.
\<close>

definition committed :: "u8 list \<Rightarrow> bridge \<Rightarrow> bool" where
  "committed t b \<longleftrightarrow> (\<exists>c n. V1_commit_string c n t \<in> set (br_log b) \<or> V2_commit_string c t \<in> set (br_log b))"

definition queue_step :: "message list \<Rightarrow> bridge \<Rightarrow> message list \<Rightarrow> bridge \<Rightarrow> bool" where
  "queue_step ms b ms' b' \<longleftrightarrow> queue_ok b' ms' \<and> set (br_log b) \<subseteq> set (br_log b') \<and> (ms = [] \<longrightarrow> ms' = [] \<and> br_sent b' = br_sent b) \<and>
     (ms' = ms \<and> br_sent b' = br_sent b \<or>
      ms' = [] \<and> (br_sent b' \<longrightarrow> br_sent b \<or> (\<forall>t. Message_text t \<in> set ms \<longrightarrow> committed t b')))"

lemma queue_step_trans:
  assumes "queue_step ms b ms' b'" "queue_step ms' b' ms'' b''"
  shows "queue_step ms b ms'' b''"
  using assms unfolding queue_step_def committed_def by (cases "ms' = []"; cases "ms = []") (simp_all, blast+)

lemma queue_step_same:
  assumes "queue_ok b ms" "br_queue b' = br_queue b" "br_queued_messages b' = br_queued_messages b" "br_sent b' = br_sent b" "set (br_log b) \<subseteq> set (br_log b')"
  shows "queue_step ms b ms b'"
  using assms queue_ok_cong [of b' b] by (simp add: queue_step_def)

lemma clear_step:
  assumes "queue_ok b ms"
  shows "\<exists>b'. clear_pending_messages b = Some b' \<and> queue_step ms b [] b' \<and> br_context b' = br_context b \<and> br_have_serial b' = br_have_serial b \<and>
    br_log b' = br_log b"
proof -
  obtain q where q: "clear_pending_messages b = Some (b\<lparr>br_queue := q, br_queued_messages := 0\<rparr>)" "lq_rep q []"
    using clear_spec [OF assms] by blast
  then show ?thesis by (simp add: queue_step_def queue_ok_def)
qed

lemma try_commit_step:
  assumes "queue_ok b ms"
  shows "\<exists>b' ms'. try_commit env b = Some b' \<and> queue_step ms b ms' b'"
proof (cases "\<not> ready b \<or> ms = []")
  case True
  then have "try_commit env b = Some b" using queue_ok_head [OF assms] by (auto simp: try_commit_def ready_def)
  then show ?thesis using queue_step_same [OF assms] by blast
next
  case False
  obtain b' where b': "try_commit env b = Some b'" "queue_ok b' []" "br_log b' = br_log b @ flush_requests env b ms"
    using try_commit_spec [OF assms, of env] False by auto
  have "committed t b'" if t: "Message_text t \<in> set ms" for t
  proof (cases "br_v2_active b")
    case True
    have m: "V2_commit_string (br_input_method_v2 b) t \<in> set (concat (map (v2_requests (br_input_method_v2 b)) ms))"
      using that by (auto intro!: bexI [of _ "Message_text t"])
    then have "concat (map (v2_requests (br_input_method_v2 b)) ms) \<noteq> []" by force
    with m have "V2_commit_string (br_input_method_v2 b) t \<in> set (flush_requests env b ms)"
      using True False by (simp add: flush_requests_def v2_flush_def Let_def del: concat_eq_Nil_conv set_concat)
    then show ?thesis using b'(3) by (auto simp: committed_def)
  next
    case v1: False
    obtain i where "i < length ms" "ms ! i = Message_text t" using t by (auto simp: in_set_conv_nth)
    then have "(i, Message_text t) \<in> set (enumerate 0 ms)" by (auto simp: in_set_enumerate_eq)
    then have "V1_commit_string (br_context b) (br_serial b) t \<in> set (flush_requests env b ms)"
      using v1 False by (force simp: flush_requests_def)
    then show ?thesis using b'(3) by (auto simp: committed_def)
  qed
  then show ?thesis using b' False by (intro exI [of _ b'] exI [of _ "[]"]) (auto simp: queue_step_def)
qed

lemma handle_step:
  assumes "queue_ok b ms"
  shows "\<exists>b' ms'. handle env e b = Some b' \<and> queue_step ms b ms' b'"
proof -
  have clear: "\<exists>b' ms'. clear_pending_messages b1 = Some b' \<and> queue_step ms b ms' b'" if "queue_step ms b ms b1" for b1
    using clear_step [of b1 ms] that queue_step_trans [OF that] by (meson queue_step_def)
  have commit: "\<exists>b' ms'. try_commit env b1 = Some b' \<and> queue_step ms b ms' b'" if "queue_step ms b ms b1" for b1
    using try_commit_step [of b1 ms env] that queue_step_trans [OF that] by (meson queue_step_def)
  note same = queue_step_same [OF assms]
  obtain b1 where b1: "clear_pending_messages b = Some b1" "queue_step ms b [] b1" using clear_step [OF assms] by blast
  have same': "\<exists>ms'. queue_step ms b ms' b2" if "br_queue b2 = br_queue b" "br_queued_messages b2 = br_queued_messages b" "br_sent b2 = br_sent b"
    "set (br_log b) \<subseteq> set (br_log b2)" for b2
    using same that by blast
  have after': "\<exists>ms'. queue_step ms b ms' b2" if "br_queue b2 = br_queue b1" "br_queued_messages b2 = br_queued_messages b1" "br_sent b2 = br_sent b1"
    "set (br_log b1) \<subseteq> set (br_log b2)" for b2
    using queue_step_trans [OF b1(2) queue_step_same [of b1 "[]" b2]] b1(2) that unfolding queue_step_def [of ms b] by blast
  show ?thesis
  proof (cases e)
    case (Ime_activate c)
    then show ?thesis using b1(1)
      by (cases "br_context b", (auto simp: input_method_activate_def intro!: same') [1]) (auto simp: input_method_activate_def request_def intro!: after')
  next
    case (Ime_deactivate c)
    then show ?thesis using b1(1)
      by (cases "br_context b = Some c", (auto simp: input_method_deactivate_def request_def intro!: after') [1])
        (auto simp: input_method_deactivate_def request_def intro!: same')
  next
    case (Ime_v2_activate i)
    then show ?thesis using same' by (auto simp: input_method_v2_activate_def)
  qed (use same clear commit in \<open>auto simp: context_reset_def context_commit_state_def input_method_v2_activate_def input_method_v2_deactivate_def
    input_method_v2_done_def input_method_v2_unavailable_def\<close>)
qed

lemma dispatch_step:
  assumes "queue_ok b ms"
  shows "\<exists>b' ms'. dispatch_events env es b = Some b' \<and> queue_step ms b ms' b'"
  using assms
proof (induction es arbitrary: b ms)
  case Nil
  then show ?case using queue_step_same [of b ms b] by auto
next
  case (Cons e es)
  obtain b1 ms1 where 1: "handle env e b = Some b1" "queue_step ms b ms1 b1" using handle_step [OF Cons.prems] by blast
  then obtain b2 ms2 where "dispatch_events env es b1 = Some b2" "queue_step ms1 b1 ms2 b2"
    using Cons.IH [of b1 ms1] by (auto simp: queue_step_def)
  then show ?case using 1 queue_step_trans by fastforce
qed

lemma one_shot_step:
  assumes "queue_ok b ms" "\<not> br_sent b"
  shows "\<exists>r b' ms'. one_shot_loop env ds b = Some (r, b') \<and> queue_step ms b ms' b' \<and> (r = Some True \<longleftrightarrow> br_sent b') \<and>
    ((\<forall>d \<in> set ds. d \<noteq> None) \<longrightarrow> r \<noteq> Some False)"
  using assms
proof (induction ds arbitrary: b ms)
  case Nil
  then show ?case using queue_step_same [of b ms b] by auto
next
  case (Cons d ds)
  show ?case
  proof (cases d)
    case None
    then show ?thesis using Cons.prems queue_step_same [of b ms b] by auto
  next
    case (Some es)
    obtain b1 ms1 where 1: "dispatch_events env es b = Some b1" "queue_step ms b ms1 b1" using dispatch_step [OF Cons.prems(1)] by blast
    show ?thesis
    proof (cases "br_sent b1")
      case True
      have "one_shot_loop env ds b1 = Some (Some True, b1)" using True by (cases ds) simp_all
      then show ?thesis using 1 Some Cons.prems True by auto
    next
      case False
      obtain r b2 ms2 where "one_shot_loop env ds b1 = Some (r, b2)" "queue_step ms1 b1 ms2 b2" "r = Some True \<longleftrightarrow> br_sent b2"
        "(\<forall>d \<in> set ds. d \<noteq> None) \<longrightarrow> r \<noteq> Some False"
        using Cons.IH [OF _ False, of ms1] 1(2) unfolding queue_step_def [of ms b] by metis
      then show ?thesis using 1(1) Some Cons.prems(2) queue_step_trans [OF 1(2)] by fastforce
    qed
  qed
qed

definition frozen :: "bridge \<Rightarrow> bridge \<Rightarrow> bool" where
  "frozen b b' \<longleftrightarrow> (br_queue b', br_queued_messages b', br_sent b', br_log b', br_context b', br_v2_active b', br_running b') =
     (br_queue b, br_queued_messages b, br_sent b, br_log b, br_context b, br_v2_active b, br_running b)"

lemma registry_frozen: "frozen b (registry_global i v p b)"
  by (cases p) (simp_all add: frozen_def registry_global_def)

lemma globals_frozen: "frozen b (bind_globals gs b)"
proof (induction gs arbitrary: b)
  case (Cons g gs)
  obtain i v p where g: "g = (i, v, p)" by (metis prod_cases3)
  have "bind_globals (g # gs) b = bind_globals gs (registry_global i v p b)" by (simp add: bind_globals_def g)
  then show ?case using Cons.IH [of "registry_global i v p b"] registry_frozen [of b i v p] by (simp add: frozen_def)
qed (simp add: bind_globals_def frozen_def)

lemma choose_frozen: "choose_input_method rt created b = Some b' \<Longrightarrow> frozen b b'"
  by (auto simp: choose_input_method_def Let_def frozen_def split: if_splits)

lemma shut_down_step:
  assumes "queue_ok (is_bridge s) ms"
  shows "\<exists>s' as. shut_down l p s = Some (s', as) \<and> is_client s' = None \<and> br_log (is_bridge s') = br_log (is_bridge s) \<and>
    is_closed s' = is_closed (close_client s) \<and>
    as = (if 0 \<le> l then [Shut l] else []) @ (case p of None \<Rightarrow> [] | Some x \<Rightarrow> [Removed x]) @
      gone_if Context_gone (br_context (is_bridge s)) @ gone_if Method_gone (br_input_method_v2 (is_bridge s)) @
      gone_if Manager_gone (br_input_method_manager_v2 (is_bridge s)) @ gone_if Seat_gone (br_seat (is_bridge s)) @ [Disconnected]"
proof -
  have c: "is_bridge (close_client s) = is_bridge s" "is_client (close_client s) = None" by (simp_all add: close_client_def split: option.splits)
  obtain b where "clear_pending_messages (is_bridge s) = Some b" "br_log b = br_log (is_bridge s)" using clear_step [OF assms] by blast
  then show ?thesis by (simp add: shut_down_def Let_def c)
qed

lemma queued_text:
  assumes "env_ok env" "queue_text env a (One_shot text) zero_bridge = Some (ok, b)"
  shows "if ok then text \<noteq> [] \<and> queue_ok b [Message_text (map of_char text)] \<and> \<not> br_sent b \<and> br_log b = [] \<and> br_context b = None \<and> \<not> br_v2_active b
    else queue_ok b []"
proof -
  have "queue_ok zero_bridge []" by (auto simp: queue_ok_def zero_bridge_def intro: lq_empty_rep)
  from enqueue_spec [OF assms(1) this, of "Message_text (map of_char text)"] show ?thesis
    using assms(2) \<open>queue_ok zero_bridge []\<close> by (auto simp: queue_text_def enqueue_text_def queue_ok_def zero_bridge_def split: if_splits)
qed

text \<open>In the one-shot mode the program returns or waits, and it succeeds exactly where \<^verbatim>\<open>sent\<close> was set.\<close>

lemma one_shot_main:
  assumes "env_ok env"
  shows "\<exists>r s as. ime_main env a [''--commit'', text] = Some (r, s, as) \<and>
    (r = Some True \<longrightarrow> text \<noteq> [] \<and> committed (map of_char text) (is_bridge s)) \<and>
    (r = Some True \<longrightarrow> (\<exists>b b'. queue_ok b [Message_text (map of_char text)] \<and> \<not> br_sent b \<and> br_context b = None \<and> \<not> br_v2_active b \<and>
       one_shot_loop env (ma_dispatches a) b = Some (Some True, b')))"
proof -
  have "\<exists>ok b. queue_text env a (One_shot text) zero_bridge = Some (ok, b)"
    using enqueue_spec [OF assms, of zero_bridge "[]" "Message_text (map of_char text)"]
    by (auto simp: queue_text_def enqueue_text_def queue_ok_def zero_bridge_def lq_empty_rep)
  then obtain ok b where q: "queue_text env a (One_shot text) zero_bridge = Some (ok, b)" by blast
  define b1 where "b1 = bind_globals (ma_globals a) b"
  have m: "main_mode [''--commit'', text] = Some (One_shot text)" by (simp add: main_mode_def)
  show ?thesis
  proof (cases "ok \<and> ma_connected a \<and> choose_input_method (ma_roundtrip a) (ma_created a) b1 \<noteq> None")
    case False
    then show ?thesis by (auto simp: ime_main_def m q b1_def Let_def)
  next
    case True
    then obtain b2 where ok: ok "ma_connected a" and b2: "choose_input_method (ma_roundtrip a) (ma_created a) b1 = Some b2" by blast
    have t: "text \<noteq> []" "queue_ok b [Message_text (map of_char text)]" "\<not> br_sent b" "br_log b = []" "br_context b = None" "\<not> br_v2_active b"
      using queued_text [OF assms q] ok(1) by simp_all
    have u: "queue_ok b2 [Message_text (map of_char text)]" "\<not> br_sent b2" "br_context b2 = None" "\<not> br_v2_active b2"
      using t choose_frozen [OF b2] globals_frozen [of b "ma_globals a"] by (simp_all add: b1_def frozen_def queue_ok_def)
    obtain r b3 ms where r: "one_shot_loop env (ma_dispatches a) b2 = Some (r, b3)" "queue_step [Message_text (map of_char text)] b2 ms b3"
      "r = Some True \<longleftrightarrow> br_sent b3"
      using one_shot_step [OF u(1,2), of env "ma_dispatches a"] by metis
    have c: "committed (map of_char text) b3" if "br_sent b3" using r(2) u(2) that by (auto simp: queue_step_def)
    have q3: "queue_ok (is_bridge (new_server b3)) ms" using r(2) by (simp add: queue_step_def new_server_def)
    obtain s' as where "shut_down (-1) None (new_server b3) = Some (s', as)" "br_log (is_bridge s') = br_log (is_bridge (new_server b3))"
      using shut_down_step [OF q3, of "-1" None] by blast
    then show ?thesis using ok b2 r u t(1) c by (auto simp: ime_main_def m q b1_def [symmetric] Let_def serve_mode_def new_server_def committed_def)
  qed
qed

section \<open>Descriptors of the socket mode\<close>

definition queue_fine :: "bridge \<Rightarrow> bool" where
  "queue_fine b \<longleftrightarrow> (\<exists>ms. queue_ok b ms)"

lemma queue_step_ok: "queue_step ms b ms' b' \<Longrightarrow> queue_ok b' ms'"
  by (simp add: queue_step_def)

lemma try_commit_fine:
  assumes "queue_fine b"
  shows "\<exists>b'. try_commit env b = Some b' \<and> queue_fine b'"
proof -
  obtain ms where ms: "queue_ok b ms" using assms by (auto simp: queue_fine_def)
  obtain b' ms' where "try_commit env b = Some b'" "queue_step ms b ms' b'" using try_commit_step [OF ms, of env] by blast
  then show ?thesis using queue_step_ok [of ms b ms' b'] by (auto simp: queue_fine_def)
qed

lemma dispatch_fine:
  assumes "queue_fine b"
  shows "\<exists>b'. dispatch_events env es b = Some b' \<and> queue_fine b'"
proof -
  obtain ms where ms: "queue_ok b ms" using assms by (auto simp: queue_fine_def)
  obtain b' ms' where "dispatch_events env es b = Some b'" "queue_step ms b ms' b'" using dispatch_step [OF ms, of env es] by blast
  then show ?thesis using queue_step_ok [of ms b ms' b'] by (auto simp: queue_fine_def)
qed

lemma consume_frame_fine:
  assumes "env_ok env" "queue_fine b"
  shows "\<exists>ok b'. consume_frame env buffer b = Some (ok, b') \<and> queue_fine b'"
proof -
  obtain ms where ms: "queue_ok b ms" using assms(2) by (auto simp: queue_fine_def)
  have full: "queue_fine (b\<lparr>br_queue := q, br_queued_messages := of_nat (length ms + 1)\<rparr>)" if "length ms < 128" "lq_rep q (ms @ [m])" for q m
    using that by (auto simp: queue_fine_def queue_ok_def intro!: exI [of _ "ms @ [m]"])
  have "\<exists>ok b'. enqueue_message env m b = Some (ok, b') \<and> queue_fine b'" for m
    using enqueue_spec [OF assms(1) ms, of m] assms(2) full by blast
  then show ?thesis using assms(2) by (auto simp: consume_frame_def enqueue_control_def enqueue_keysym_def enqueue_text_def Let_def)
qed

lemma frame_loop_fine:
  assumes "env_ok env" "queue_fine b"
  shows "\<exists>ok rest b'. frame_loop env buffer b = Some (ok, rest, b') \<and> queue_fine b'"
  using assms
proof (induction env buffer b rule: frame_loop.induct)
  case (1 env buffer b)
  obtain ok b1 where c: "consume_frame env buffer b = Some (ok, b1)" "queue_fine b1" using consume_frame_fine [OF 1(2,3)] by blast
  obtain b2 where t: "try_commit env b1 = Some b2" "queue_fine b2" using try_commit_fine [OF c(2)] by blast
  show ?case using 1 c t by (subst frame_loop.simps) auto
qed

lemma consume_client_fine:
  assumes "env_ok env" "queue_fine b"
  shows "\<exists>ok rest b'. consume_client env chunks e buffer b = Some (ok, rest, b') \<and> queue_fine b'"
  using assms
proof (induction chunks arbitrary: buffer b)
  case (Cons chunk chunks)
  obtain ok rest b1 where f: "frame_loop env (buffer @ chunk) b = Some (ok, rest, b1)" "queue_fine b1" using frame_loop_fine [OF Cons.prems] by blast
  show ?case using Cons.IH [OF Cons.prems(1) f(2), of rest] f by auto
qed simp

text \<open>The connections a turn has accepted; it accepts only where it succeeds.\<close>

definition accepted :: "ime_io \<Rightarrow> fd list" where
  "accepted io = (case io_accept io of None \<Rightarrow> [] | Some (c, _) \<Rightarrow> [c])"

definition owned_fds :: "ime_server \<Rightarrow> fd multiset" where
  "owned_fds s = mset (is_closed s) + (case is_client s of None \<Rightarrow> {#} | Some c \<Rightarrow> {#c#})"

lemma owned_fds_close [simp]: "owned_fds (close_client s) = owned_fds s" "is_client (close_client s) = None" "is_bridge (close_client s) = is_bridge s"
  "mset (is_closed (close_client s)) = owned_fds s"
  by (auto simp: owned_fds_def close_client_def split: option.splits)

lemma owned_fds_accept: "owned_fds (accept_client (io_accept io) s) = owned_fds s + mset (accepted io)" "is_bridge (accept_client (io_accept io) s) = is_bridge s"
proof -
  have "owned_fds ((close_client s)\<lparr>is_client := Some c, is_input := []\<rparr>) = owned_fds s + {#c#}" for c
    by (simp add: owned_fds_def [of "(close_client s)\<lparr>is_client := Some c, is_input := []\<rparr>"])
  then show "owned_fds (accept_client (io_accept io) s) = owned_fds s + mset (accepted io)"
    by (auto simp: accept_client_def accepted_def split: option.splits) (simp add: owned_fds_def)
  show "is_bridge (accept_client (io_accept io) s) = is_bridge s"
    by (simp add: accept_client_def split: option.splits prod.splits)
qed

lemma read_client_fine:
  assumes "env_ok env" "queue_fine (is_bridge s)"
  shows "\<exists>s'. read_client env has chunks e s = Some s' \<and> owned_fds s' = owned_fds s \<and> queue_fine (is_bridge s')"
proof -
  obtain ok rest b' where "consume_client env chunks e (is_input s) (is_bridge s) = Some (ok, rest, b')" "queue_fine b'"
    using consume_client_fine [OF assms] by blast
  moreover have "owned_fds (s\<lparr>is_bridge := b', is_input := rest\<rparr>) = owned_fds s" by (simp add: owned_fds_def)
  ultimately show ?thesis using assms(2) by (auto simp: read_client_def Let_def)
qed

lemma dispatch_socket_fine:
  assumes "env_ok env" "queue_fine (is_bridge s)"
  shows "\<exists>ok s'. dispatch_socket_mode env io s = Some (ok, s') \<and> owned_fds s' = owned_fds s + (if ok then mset (accepted io) else {#}) \<and> queue_fine (is_bridge s')"
proof -
  obtain b1 where 1: "dispatch_events env (io_prepared io) (is_bridge s) = Some b1" "queue_fine b1" using dispatch_fine [OF assms(2)] by blast
  obtain b2 where 2: "dispatch_events env (io_events io) b1 = Some b2" "queue_fine b2" using dispatch_fine [OF 1(2)] by blast
  have h: "owned_fds (s\<lparr>is_bridge := b\<rparr>) = owned_fds s" for b by (simp add: owned_fds_def)
  define s2 where "s2 = accept_client (io_accept io) (s\<lparr>is_bridge := b2\<rparr>)"
  have s2: "owned_fds s2 = owned_fds s + mset (accepted io)" "is_bridge s2 = b2" by (simp_all add: s2_def owned_fds_accept h)
  obtain s3 where 3: "read_client env (is_client s \<noteq> None \<and> io_client_ready io) (io_chunks io) (io_end io) s2 = Some s3" "owned_fds s3 = owned_fds s2" "queue_fine (is_bridge s3)"
    using read_client_fine [OF assms(1), of s2] 2(2) s2(2) by metis
  show ?thesis using 1 2 3 h s2(1) by (auto simp: dispatch_socket_mode_def Let_def s2_def [symmetric])
qed

text \<open>The connections of the turns the loop has taken.\<close>

fun accepted_by :: "ime_env \<Rightarrow> turn list \<Rightarrow> ime_server \<Rightarrow> fd list" where
  "accepted_by env [] s = []"
| "accepted_by env (t # ts) s =
     (if \<not> br_running (is_bridge s) then []
      else case t of Signal \<Rightarrow> accepted_by env ts (stop_bridge s)
        | Interrupted io \<Rightarrow> (case dispatch_socket_mode env io s of Some (True, s1) \<Rightarrow> accepted io | _ \<Rightarrow> [])
        | Turn io \<Rightarrow> (case dispatch_socket_mode env io s of Some (True, s1) \<Rightarrow> accepted io @ accepted_by env ts s1 | _ \<Rightarrow> []))"

lemma stop_bridge_fine: "owned_fds (stop_bridge s) = owned_fds s" "queue_fine (is_bridge (stop_bridge s)) = queue_fine (is_bridge s)"
  by (simp_all add: owned_fds_def stop_bridge_def queue_fine_def queue_ok_def)

lemma socket_loop_fine:
  assumes "env_ok env" "queue_fine (is_bridge s)"
  shows "\<exists>r s'. socket_loop env ts s = Some (r, s') \<and> owned_fds s' = owned_fds s + mset (accepted_by env ts s) \<and> queue_fine (is_bridge s')"
  using assms
proof (induction ts arbitrary: s)
  case (Cons t ts)
  show ?case
  proof (cases t)
    case (Turn io)
    obtain ok s1 where 1: "dispatch_socket_mode env io s = Some (ok, s1)" "owned_fds s1 = owned_fds s + (if ok then mset (accepted io) else {#})" "queue_fine (is_bridge s1)"
      using dispatch_socket_fine [OF Cons.prems] by blast
    show ?thesis using Cons.IH [OF Cons.prems(1) 1(3)] 1 Turn Cons.prems(2) by (auto simp: ac_simps)
  next
    case (Interrupted io)
    obtain ok s1 where 1: "dispatch_socket_mode env io s = Some (ok, s1)" "owned_fds s1 = owned_fds s + (if ok then mset (accepted io) else {#})" "queue_fine (is_bridge s1)"
      using dispatch_socket_fine [OF Cons.prems] by blast
    show ?thesis using 1 Interrupted Cons.prems(2) by (auto simp: stop_bridge_fine)
  next
    case Signal
    show ?thesis using Cons.IH [OF Cons.prems(1), of "stop_bridge s"] Signal Cons.prems(2) by (auto simp: stop_bridge_fine)
  qed
qed simp

lemma gone_if_quiet [simp]:
  "count_list (gone_if Context_gone p) (Opened f) = 0" "count_list (gone_if Context_gone p) (Shut f) = 0" "Removed x \<notin> set (gone_if Context_gone p)"
  "count_list (gone_if Method_gone p) (Opened f) = 0" "count_list (gone_if Method_gone p) (Shut f) = 0" "Removed x \<notin> set (gone_if Method_gone p)"
  "count_list (gone_if Manager_gone p) (Opened f) = 0" "count_list (gone_if Manager_gone p) (Shut f) = 0" "Removed x \<notin> set (gone_if Manager_gone p)"
  "count_list (gone_if Seat_gone p) (Opened f) = 0" "count_list (gone_if Seat_gone p) (Shut f) = 0" "Removed x \<notin> set (gone_if Seat_gone p)"
  by (simp_all add: gone_if_def split: option.splits)

lemma listen_actions:
  assumes "listen_socket a path = (l, as)"
  shows "Removed p \<in> set as \<Longrightarrow> la_absent a \<and> Created p \<in> set as"
    "0 \<le> l \<Longrightarrow> as = [Opened l, Created path] \<and> la_absent a" "l < 0 \<Longrightarrow> count_list as (Opened f) = count_list as (Shut f)"
  using assms by (auto simp: listen_socket_def Let_def split: if_splits)

section \<open>Properties\<close>

text \<open>The one-shot mode never follows a freed message, whatever events arrive; it reports success only after a request that commits exactly the text it was
  given has been sent.\<close>

theorem one_shot_commits_text:
  assumes "env_ok env"
  shows "\<exists>r s as. ime_main env a [''--commit'', text] = Some (r, s, as) \<and>
    (r = Some True \<longrightarrow> text \<noteq> [] \<and> committed (map of_char text) (is_bridge s))"
  using one_shot_main [OF assms, of a "text"] by blast

text \<open>When the text input is deactivated before it has told its state, the text of the one-shot mode is dropped: the program never
  succeeds afterwards, and it waits for ever while the connection lasts.\<close>

theorem one_shot_text_lost:
  assumes "env_ok env" "ma_dispatches a = Some [Ime_activate c, Ime_deactivate c] # ds"
  shows "\<exists>r s as. ime_main env a [''--commit'', text] = Some (r, s, as) \<and> r \<noteq> Some True"
proof -
  have lost: "one_shot_loop env (ma_dispatches a) b \<noteq> Some (Some True, b')"
    if b: "queue_ok b [Message_text (map of_char text)]" "\<not> br_sent b" "br_context b = None" for b b'
  proof -
    define b1 where "b1 = b\<lparr>br_context := Some c, br_have_serial := False\<rparr>"
    have q: "queue_ok b1 [Message_text (map of_char text)]" using b(1) by (simp add: b1_def queue_ok_def)
    obtain b2 where b2: "clear_pending_messages b1 = Some b2" "queue_step [Message_text (map of_char text)] b1 [] b2" "br_sent b2 = br_sent b1"
      using clear_spec [OF q] clear_step [OF q] by auto
    define b3 where "b3 = request (V1_context_destroy (Some c)) (b2\<lparr>br_context := None, br_have_serial := False\<rparr>)"
    have d: "dispatch_events env [Ime_activate c, Ime_deactivate c] b = Some b3"
      using b(3) b2(1) by (simp add: input_method_activate_def input_method_deactivate_def b1_def [symmetric] b3_def) (simp add: b1_def)
    have q3: "queue_ok b3 []" "\<not> br_sent b3"
      using b2(2,3) b(2) by (simp_all add: b3_def b1_def request_def queue_step_def queue_ok_def)
    obtain r b4 ms where "one_shot_loop env ds b3 = Some (r, b4)" "queue_step [] b3 ms b4" "r = Some True \<longleftrightarrow> br_sent b4"
      using one_shot_step [OF q3, of env ds] by metis
    then show ?thesis using d b(2) q3(2) assms(2) by (auto simp: queue_step_def)
  qed
  obtain r s as where "ime_main env a [''--commit'', text] = Some (r, s, as)"
    "r = Some True \<longrightarrow> (\<exists>b b'. queue_ok b [Message_text (map of_char text)] \<and> \<not> br_sent b \<and> br_context b = None \<and> \<not> br_v2_active b \<and>
       one_shot_loop env (ma_dispatches a) b = Some (Some True, b'))"
    using one_shot_main [OF assms(1), of a "text"] by blast
  then show ?thesis using lost by blast
qed

text \<open>C24: in the socket mode the program returns or waits, whatever arrives. It removes a file only where none was there before and it has
  created it itself. When it ends, it has closed the listening socket once and every connection it has accepted exactly once, and its own socket is removed.\<close>

theorem socket_mode_cleans_up:
  assumes "env_ok env" "queue_fine b"
  shows "\<exists>r s as. serve_mode env a (Socket_mode path) b = Some (r, s, as) \<and>
    (\<forall>p. Removed p \<in> set as \<longrightarrow> la_absent (ma_listen a) \<and> Created p \<in> set as) \<and>
    (r \<noteq> None \<longrightarrow> is_client s = None \<and> (\<forall>f. count_list as (Opened f) = count_list as (Shut f)) \<and>
       (0 \<le> fst (listen_socket (ma_listen a) path) \<longrightarrow>
          Removed path \<in> set as \<and> mset (is_closed s) = mset (accepted_by env (ma_turns a) (new_server b))))"
proof -
  obtain l as where l: "listen_socket (ma_listen a) path = (l, as)" by (meson surj_pair)
  note la = listen_actions [OF l]
  show ?thesis
  proof (cases "l < 0")
    case True
    then show ?thesis using l la(1,3) by (auto simp: serve_mode_def new_server_def)
  next
    case False
    have n: "queue_fine (is_bridge (new_server b))" "owned_fds (new_server b) = {#}" using assms(2) by (simp_all add: new_server_def owned_fds_def)
    obtain r s where s: "socket_loop env (ma_turns a) (new_server b) = Some (r, s)" "owned_fds s = mset (accepted_by env (ma_turns a) (new_server b))"
      "queue_fine (is_bridge s)" using socket_loop_fine [OF assms(1) n(1), of "ma_turns a"] n(2) by auto
    obtain ms where "queue_ok (is_bridge s) ms" using s(3) by (auto simp: queue_fine_def)
    from shut_down_step [OF this, of l "Some path"] obtain s' ds where d: "shut_down l (Some path) s = Some (s', ds)" "is_client s' = None"
      "mset (is_closed s') = owned_fds s" "\<And>f. count_list ds (Opened f) = 0" "\<And>f. count_list ds (Shut f) = of_bool (l = f)"
      "\<And>p. Removed p \<in> set ds \<longleftrightarrow> p = path"
      using False by auto
    have as: "as = [Opened l, Created path]" "la_absent (ma_listen a)" using la(2) False by auto
    show ?thesis using l s(1,2) d False as(2) by (cases "r = None") (auto simp: serve_mode_def as(1))
  qed
qed

definition listen_well :: listen_answers where
  "listen_well = \<lparr>la_absent = True, la_socket = 7, la_bind = True, la_listen = True, la_nonblocking = True, la_chmod = True\<rparr>"

definition one_connection :: ime_io where
  "one_connection = \<lparr>io_prepared = [], io_prepare_ok = True, io_flush_ok = True, io_poll_ok = True, io_display_in = False, io_read_ok = True,
     io_display_hangup = False, io_events = [], io_dispatch_ok = True, io_accept = Some (9, True), io_client_ready = False, io_chunks = [], io_end = Read_again\<rparr>"

definition started :: main_answers where
  "started = \<lparr>ma_strdup = True, ma_connected = True, ma_globals = [(''zwp_input_method_v1'', 1, Some 3)], ma_roundtrip = True, ma_created = None,
     ma_listen = listen_well, ma_turns = [Turn one_connection, Signal], ma_dispatches = []\<rparr>"

lemma zero_fine: "queue_fine zero_bridge"
  using zero_bridge_inv by (auto simp: bridge_inv_def queue_fine_def)

theorem socket_mode_cleans_up_witness:
  "\<exists>s as. serve_mode simple_env started (Socket_mode ''/run/ime'') zero_bridge = Some (Some True, s, as) \<and> Removed ''/run/ime'' \<in> set as \<and>
     mset (is_closed s) = {#9#} \<and> Shut 7 \<in> set as"
proof -
  have d: "dispatch_socket_mode simple_env one_connection (new_server zero_bridge) = Some (True, (new_server zero_bridge)\<lparr>is_client := Some 9\<rparr>)"
    by (simp add: dispatch_socket_mode_def one_connection_def new_server_def accept_client_def close_client_def read_client_def zero_bridge_def Let_def)
  have run: "br_running (is_bridge (new_server zero_bridge))" by (simp add: new_server_def zero_bridge_def)
  obtain r s as where r: "serve_mode simple_env started (Socket_mode ''/run/ime'') zero_bridge = Some (r, s, as)"
    "r \<noteq> None \<longrightarrow> (\<forall>f. count_list as (Opened f) = count_list as (Shut f)) \<and>
       (0 \<le> fst (listen_socket (ma_listen started) ''/run/ime'') \<longrightarrow> Removed ''/run/ime'' \<in> set as \<and>
          mset (is_closed s) = mset (accepted_by simple_env (ma_turns started) (new_server zero_bridge)))"
    using socket_mode_cleans_up [OF simple_env_ok zero_fine, of started "''/run/ime''"] by blast
  have l: "listen_socket (ma_listen started) ''/run/ime'' = (7, [Opened 7, Created ''/run/ime''])"
    by (simp add: listen_socket_def started_def listen_well_def)
  have "socket_loop simple_env (ma_turns started) (new_server zero_bridge) = Some (Some True, stop_bridge ((new_server zero_bridge)\<lparr>is_client := Some 9\<rparr>))"
    by (simp add: started_def d run stop_bridge_def)
  then have a: "r = Some True" "\<exists>ds. as = [Opened 7, Created ''/run/ime''] @ [Shut 7] @ ds"
    using r(1) l by (auto simp: serve_mode_def shut_down_def Let_def split: bind_splits)
  have "accepted_by simple_env (ma_turns started) (new_server zero_bridge) = [9]"
    by (simp add: started_def d run stop_bridge_def accepted_def) (simp add: one_connection_def)
  then show ?thesis using r a l by auto
qed

text \<open>A connection that activates a text input, tells its state and commits.\<close>

theorem one_shot_commits_text_witness:
  "\<exists>s as. ime_main simple_env (started\<lparr>ma_dispatches := [Some [Ime_activate 5], Some [Ime_commit_state 5 1]]\<rparr>) [''--commit'', ''hi''] = Some (Some True, s, as) \<and>
     committed (map of_char ''hi'') (is_bridge s)"
proof -
  let ?a = "started\<lparr>ma_dispatches := [Some [Ime_activate 5], Some [Ime_commit_state 5 1]]\<rparr>"
  have free: "first_free 200 (Suc 0) (\<lambda>x. None) = Some (Suc 0)" by (simp add: numeral_eq_Suc)
  have "\<exists>s as. ime_main simple_env ?a [''--commit'', ''hi''] = Some (Some True, s, as)"
    by (simp add: ime_main_def main_mode_def queue_text_def enqueue_text_def enqueue_message_def started_def simple_env_def zero_bridge_def
        lq_append_def lq_empty_def MAX_QUEUED_MESSAGES_def bind_globals_def registry_global_def choose_input_method_def serve_mode_def Let_def
        input_method_activate_def context_commit_state_def try_commit_def v1_loop.simps next_message_def lq_take_def v1_message_def request_def flush_sent_def
        shut_down_def new_server_def close_client_def clear_pending_messages_def lq_free.simps free)
  then show ?thesis using one_shot_commits_text [OF simple_env_ok, of ?a "''hi''"] by fastforce
qed

theorem one_shot_text_lost_witness:
  "\<exists>r s as. ime_main simple_env (started\<lparr>ma_dispatches := [Some [Ime_activate 5, Ime_deactivate 5], Some [Ime_activate 6, Ime_commit_state 6 1]]\<rparr>)
     [''--commit'', ''hi''] = Some (r, s, as) \<and> r \<noteq> Some True"
  by (rule one_shot_text_lost [OF simple_env_ok]) simp

end
