(* ===== verification/Jni_Safety.thy ===== *)
theory Jni_Safety
  imports Jni_Bridge
begin

text \<open>
  The threads of the JNI bridge as a state machine: the dispatcher's list and the queue share the heap
  of commands without overlapping, every command is executed in the order it was accepted, and every
  window reference has exactly one owner.
\<close>

section \<open>The two lists of commands\<close>

text \<open>\<open>xs\<close> is what the dispatcher has taken and not executed yet, \<open>ys\<close> what is queued.\<close>

definition jni_rep :: "jni \<Rightarrow> host_command list \<Rightarrow> host_command list \<Rightarrow> bool" where
  "jni_rep s xs ys \<longleftrightarrow> (\<exists>as bs. distinct (as @ bs) \<and> lq_path (lq_cells (j_commands s)) (j_local s) as xs \<and>
     lq_path (lq_cells (j_commands s)) (lq_head (j_commands s)) bs ys \<and>
     lq_tail (j_commands s) = (if bs = [] then None else Some (last bs)) \<and>
     dom (lq_cells (j_commands s)) = set as \<union> set bs)"

lemma jni_rep_cong:
  "j_commands s' = j_commands s \<Longrightarrow> j_local s' = j_local s \<Longrightarrow> jni_rep s' xs ys = jni_rep s xs ys"
  by (simp add: jni_rep_def)

lemma jni_rep_local: "jni_rep s xs ys \<Longrightarrow> j_local s = None \<longleftrightarrow> xs = []"
  unfolding jni_rep_def by (elim exE, rename_tac as bs, case_tac as) (auto simp: lq_path_Cons)

lemma jni_rep_append:
  assumes "jni_rep s xs ys" "lq_cells (j_commands s) a = None"
  shows "\<exists>q. lq_append a c (j_commands s) = Some q \<and> jni_rep (s\<lparr>j_commands := q\<rparr>) xs (ys @ [c])"
proof -
  let ?q = "j_commands s"
  obtain as bs where r: "distinct (as @ bs)" "lq_path (lq_cells ?q) (j_local s) as xs"
    "lq_path (lq_cells ?q) (lq_head ?q) bs ys" "lq_tail ?q = (if bs = [] then None else Some (last bs))"
    "dom (lq_cells ?q) = set as \<union> set bs"
    using assms(1) by (auto simp: jni_rep_def)
  have a: "a \<notin> set as" "a \<notin> set bs" using r(5) assms(2) by blast+
  show ?thesis
  proof (cases "bs = []")
    case True
    define q where "q = ?q\<lparr>lq_cells := (lq_cells ?q)(a \<mapsto> \<lparr>c_value = c, c_next = None\<rparr>),
      lq_head := Some a, lq_tail := Some a\<rparr>"
    have q: "lq_append a c ?q = Some q" "lq_head q = Some a" "lq_tail q = Some a"
      "lq_cells q = (lq_cells ?q)(a \<mapsto> \<lparr>c_value = c, c_next = None\<rparr>)"
      using r(4) True by (simp_all add: lq_append_def q_def)
    have "jni_rep (s\<lparr>j_commands := q\<rparr>) xs (ys @ [c])"
      unfolding jni_rep_def
      by (rule exI [of _ as], rule exI [of _ "[a]"]) (use r q a True in auto)
    with q(1) show ?thesis by blast
  next
    case False
    then obtain d where d: "lq_cells ?q (last bs) = Some d" using r(5) by fastforce
    have "lq_path ((lq_cells ?q)(a \<mapsto> \<lparr>c_value = c, c_next = None\<rparr>, last bs \<mapsto> d\<lparr>c_next := Some a\<rparr>))
        (lq_head ?q) (bs @ [a]) (ys @ [c])"
      using r(1) False a d by (intro lq_path_snoc r(3)) simp_all
    moreover have "last bs \<noteq> a" "last bs \<notin> set as" using a False r(1) by auto
    moreover define q where "q = ?q\<lparr>lq_cells := (lq_cells ?q)(a \<mapsto> \<lparr>c_value = c, c_next = None\<rparr>,
      last bs \<mapsto> d\<lparr>c_next := Some a\<rparr>), lq_tail := Some a\<rparr>"
    have q: "lq_append a c ?q = Some q" "lq_head q = lq_head ?q" "lq_tail q = Some a"
      "lq_cells q = (lq_cells ?q)(a \<mapsto> \<lparr>c_value = c, c_next = None\<rparr>, last bs \<mapsto> d\<lparr>c_next := Some a\<rparr>)"
      using r(4) d False \<open>last bs \<noteq> a\<close> by (simp_all add: lq_append_def q_def)
    ultimately have "jni_rep (s\<lparr>j_commands := q\<rparr>) xs (ys @ [c])"
      unfolding jni_rep_def
      by (intro exI [of _ as] exI [of _ "bs @ [a]"]) (use r q a False in auto)
    with q(1) show ?thesis by blast
  qed
qed

lemma jni_rep_take: "jni_rep s [] ys \<Longrightarrow> jni_rep (take_commands s) ys []"
  unfolding jni_rep_def take_commands_def by (elim exE, rename_tac as bs, rule_tac x = bs in exI, rule_tac x = "[]" in exI) auto

lemma jni_rep_free:
  assumes "jni_rep s (x # xs) ys"
  obtains a c where "j_local s = Some a" "lq_cells (j_commands s) a = Some c" "c_value c = x"
    "jni_rep ((free_command a s)\<lparr>j_local := c_next c\<rparr>) xs ys"
proof -
  obtain as bs where r: "distinct (as @ bs)" "lq_path (lq_cells (j_commands s)) (j_local s) as (x # xs)"
    "lq_path (lq_cells (j_commands s)) (lq_head (j_commands s)) bs ys"
    "lq_tail (j_commands s) = (if bs = [] then None else Some (last bs))"
    "dom (lq_cells (j_commands s)) = set as \<union> set bs"
    using assms by (auto simp: jni_rep_def)
  from r(2) obtain a as' where as: "as = a # as'" by (cases as) auto
  with r(2) obtain c where c: "j_local s = Some a" "lq_cells (j_commands s) a = Some c" "c_value c = x"
    "lq_path (lq_cells (j_commands s)) (c_next c) as' xs"
    by (auto simp: lq_path_Cons)
  have "jni_rep ((free_command a s)\<lparr>j_local := c_next c\<rparr>) xs ys"
    unfolding jni_rep_def
    by (rule exI [of _ as'], rule exI [of _ bs]) (use r c as in \<open>auto simp: free_command_def\<close>)
  with c that show ?thesis by blast
qed

section \<open>Windows\<close>

definition windows_of :: "host_command list \<Rightarrow> wid multiset" where
  "windows_of cs = mset (List.map_filter command_window cs)"

lemma windows_of_simps [simp]:
  "windows_of [] = {#}" "windows_of (c # cs) = mset_set (set_option (command_window c)) + windows_of cs"
  "windows_of (cs @ ds) = windows_of cs + windows_of ds"
  by (auto simp: windows_of_def List.map_filter_def split: option.splits)

definition owned_windows :: "jni \<Rightarrow> host_command list \<Rightarrow> bool" where
  "owned_windows s cs \<longleftrightarrow> \<not> j_overreleased s \<and>
     j_windows s = mset_set (set_option (j_native_window s)) + windows_of cs"

lemma window_release_owned:
  assumes "j_windows s = mset_set (set_option w) + W"
  shows "j_windows (window_release w s) = W" "j_overreleased (window_release w s) = j_overreleased s"
  using assms by (auto simp: window_release_def split: option.splits)

lemma window_frame [simp]:
  "j_commands (window_release w s) = j_commands s" "j_local (window_release w s) = j_local s"
  "j_native_window (window_release w s) = j_native_window s" "j_server (window_release w s) = j_server s"
  "j_accepted (window_release w s) = j_accepted s" "j_executed (window_release w s) = j_executed s"
  "j_thread (window_release w s) = j_thread s" "j_dispatch_running (window_release w s) = j_dispatch_running s"
  "j_commands (window_acquire w s) = j_commands s" "j_local (window_acquire w s) = j_local s"
  "j_native_window (window_acquire w s) = j_native_window s" "j_server (window_acquire w s) = j_server s"
  "j_accepted (window_acquire w s) = j_accepted s" "j_executed (window_acquire w s) = j_executed s"
  "j_thread (window_acquire w s) = j_thread s" "j_dispatch_running (window_acquire w s) = j_dispatch_running s"
  "j_overreleased (window_acquire w s) = j_overreleased s"
  "j_windows (window_acquire w s) = mset_set (set_option w) + j_windows s"
  by (simp_all add: window_release_def window_acquire_def split: option.splits)

lemma on_server_frame [simp]:
  "j_commands (on_server f s) = j_commands s" "j_local (on_server f s) = j_local s"
  "j_native_window (on_server f s) = j_native_window s" "j_windows (on_server f s) = j_windows s"
  "j_overreleased (on_server f s) = j_overreleased s" "j_accepted (on_server f s) = j_accepted s"
  "j_executed (on_server f s) = j_executed s" "j_thread (on_server f s) = j_thread s"
  "j_dispatch_running (on_server f s) = j_dispatch_running s" "(j_server (on_server f s) = None) = (j_server s = None)"
  by (simp_all add: on_server_def)

lemma free_frame [simp]:
  "j_local (free_command a s) = j_local s" "j_native_window (free_command a s) = j_native_window s"
  "j_windows (free_command a s) = j_windows s" "j_overreleased (free_command a s) = j_overreleased s"
  "j_accepted (free_command a s) = j_accepted s" "j_executed (free_command a s) = j_executed s"
  "j_thread (free_command a s) = j_thread s" "j_server (free_command a s) = j_server s"
  "j_dispatch_running (free_command a s) = j_dispatch_running s"
  by (simp_all add: free_command_def)

lemma execute_frame [simp]:
  "j_commands (execute env c s) = j_commands s" "j_local (execute env c s) = j_local s"
  "j_accepted (execute env c s) = j_accepted s" "j_executed (execute env c s) = j_executed s"
  "j_thread (execute env c s) = j_thread s" "(j_server (execute env c s) = None) = (j_server s = None)"
  "j_dispatch_running (execute env c s) = j_dispatch_running s"
  by (cases c; simp add: replace_renderer_def Let_def)+

text \<open>A command that is executed hands its window over to the server's renderer.\<close>

lemma execute_windows:
  assumes "owned_windows s (c # cs)"
  shows "owned_windows (execute env c s) cs"
proof (cases "\<exists>w. c = Attach_window w")
  case True
  then obtain w where c: "c = Attach_window w" by auto
  have "j_windows (s\<lparr>j_renderer := None\<rparr>) =
      mset_set (set_option (j_native_window s)) + (mset_set (set_option w) + windows_of cs)"
    using assms c by (simp add: owned_windows_def)
  from window_release_owned [OF this] assms show ?thesis
    by (simp add: c replace_renderer_def owned_windows_def Let_def)
next
  case False
  then show ?thesis using assms by (cases c) (simp_all add: owned_windows_def)
qed

section \<open>The invariant\<close>

definition jni_ok :: "jni \<Rightarrow> host_command list \<Rightarrow> host_command list \<Rightarrow> bool" where
  "jni_ok s xs ys \<longleftrightarrow> jni_rep s xs ys \<and> owned_windows s (xs @ ys) \<and>
     (if j_server s = None then xs = [] \<and> ys = [] else j_accepted s = j_executed s @ xs @ ys) \<and>
     (j_thread s \<longrightarrow> j_server s \<noteq> None) \<and> (\<not> j_thread s \<longrightarrow> xs = [])"

definition jni_inv :: "jni \<Rightarrow> bool" where
  "jni_inv s \<longleftrightarrow> (\<exists>xs ys. jni_ok s xs ys)"

lemma initial_inv: "jni_inv initial_jni"
  unfolding jni_inv_def by (intro exI [of _ "[]"])
    (auto simp: jni_ok_def jni_rep_def initial_jni_def owned_windows_def lq_empty_def)

lemma produce_ok:
  assumes "jni_rep s xs ys" "\<And>a. mem = Some a \<Longrightarrow> lq_cells (j_commands s) a = None"
    "j_server s \<noteq> None \<longrightarrow> j_accepted s = j_executed s @ xs @ ys"
  shows "produce mem c s = Some (False, s) \<or> (\<exists>q. produce mem c s =
    Some (True, s\<lparr>j_commands := q, j_accepted := j_accepted s @ [c]\<rparr>) \<and> j_server s \<noteq> None \<and>
    jni_rep (s\<lparr>j_commands := q, j_accepted := j_accepted s @ [c]\<rparr>) xs (ys @ [c]))"
proof (cases mem)
  case (Some a)
  obtain q where "lq_append a c (j_commands s) = Some q" "jni_rep (s\<lparr>j_commands := q\<rparr>) xs (ys @ [c])"
    using jni_rep_append [OF assms(1) assms(2) [OF Some], of c] by auto
  moreover have "jni_rep (s\<lparr>j_commands := q, j_accepted := j_accepted s @ [c]\<rparr>) xs (ys @ [c]) =
      jni_rep (s\<lparr>j_commands := q\<rparr>) xs (ys @ [c])"
    by (rule jni_rep_cong) simp_all
  ultimately show ?thesis using Some by (auto simp: produce_def enqueue_command_locked_def)
qed (simp add: produce_def)

text \<open>The loop that throws the queue away releases every window in it, and ends.\<close>

lemma discard_loop_ok:
  assumes "jni_rep s xs []" "owned_windows s xs"
  shows "\<exists>s'. discard_loop s = Some s' \<and> jni_rep s' [] [] \<and> owned_windows s' [] \<and>
    j_native_window s' = j_native_window s \<and> j_server s' = j_server s \<and> j_thread s' = j_thread s \<and>
    j_dispatch_running s' = j_dispatch_running s"
  using assms
proof (induction xs arbitrary: s)
  case Nil
  then show ?case using jni_rep_local [OF Nil(1)] by (subst discard_loop.simps) simp
next
  case (Cons x xs)
  obtain a c where c: "j_local s = Some a" "lq_cells (j_commands s) a = Some c" "c_value c = x"
    "jni_rep ((free_command a s)\<lparr>j_local := c_next c\<rparr>) xs []"
    using Cons.prems(1) by (rule jni_rep_free)
  define s1 where "s1 = (free_command a (window_release (command_window x) s))\<lparr>j_local := c_next c\<rparr>"
  have "jni_rep s1 xs []" using c(4) unfolding s1_def by (simp add: jni_rep_def free_command_def)
  moreover have "owned_windows s1 xs"
    using Cons.prems(2) window_release_owned [of s "command_window x" "mset_set (set_option (j_native_window s)) + windows_of xs"]
    by (simp add: s1_def owned_windows_def add.left_commute)
  ultimately show ?case using Cons.IH [of s1] c by (subst discard_loop.simps) (simp add: s1_def)
qed

lemma discard_commands_ok:
  assumes "jni_rep s [] ys" "owned_windows s ys"
  shows "\<exists>s'. discard_commands s = Some s' \<and> jni_rep s' [] [] \<and> owned_windows s' [] \<and>
    j_native_window s' = j_native_window s \<and> j_server s' = j_server s \<and> j_thread s' = j_thread s \<and>
    j_dispatch_running s' = j_dispatch_running s"
  using discard_loop_ok [OF jni_rep_take [OF assms(1)]] assms(2)
  by (simp add: discard_commands_def take_commands_def owned_windows_def)

lemma process_one_ok:
  assumes "jni_ok s (x # xs) ys"
  shows "\<exists>a s'. j_local s = Some a \<and> process_one env a s = Some s' \<and> jni_ok s' xs ys \<and> j_executed s' = j_executed s @ [x]"
proof -
  have r: "jni_rep s (x # xs) ys" using assms by (simp add: jni_ok_def)
  obtain a c where c: "j_local s = Some a" "lq_cells (j_commands s) a = Some c" "c_value c = x"
    "jni_rep ((free_command a s)\<lparr>j_local := c_next c\<rparr>) xs ys"
    using r by (rule jni_rep_free)
  define s' where "s' = (free_command a (execute env x s))\<lparr>j_local := c_next c, j_executed := j_executed s @ [x]\<rparr>"
  have "process_one env a s = Some s'" using c by (simp add: process_one_def s'_def)
  moreover have "jni_rep s' xs ys" using c(4) unfolding s'_def by (simp add: jni_rep_def free_command_def)
  moreover have "owned_windows s' (xs @ ys)"
    using execute_windows [of s x "xs @ ys" env] assms by (simp add: s'_def jni_ok_def owned_windows_def)
  moreover have "j_server s \<noteq> None" using assms by (auto simp: jni_ok_def split: if_splits)
  ultimately have "jni_ok s' xs ys" using assms by (auto simp: jni_ok_def s'_def)
  with c(1) \<open>process_one env a s = Some s'\<close> show ?thesis by (simp add: s'_def)
qed

lemma process_loop_ok:
  assumes "jni_ok s xs ys"
  shows "\<exists>s'. process_loop env s = Some s' \<and> jni_ok s' [] ys \<and> j_executed s' = j_executed s @ xs \<and>
    j_thread s' = j_thread s"
  using assms
proof (induction xs arbitrary: s)
  case Nil
  then have "j_local s = None" using jni_rep_local [of s "[]" ys] by (simp add: jni_ok_def)
  with Nil show ?case by (subst process_loop.simps) simp
next
  case (Cons x xs)
  obtain a s1 where s1: "j_local s = Some a" "process_one env a s = Some s1" "jni_ok s1 xs ys"
    "j_executed s1 = j_executed s @ [x]"
    using process_one_ok [OF Cons.prems] by blast
  have "j_thread s1 = j_thread s" using s1(2) by (auto simp: process_one_def bind_eq_Some_conv)
  with Cons.IH [OF s1(3)] s1 show ?case by (subst process_loop.simps) auto
qed

section \<open>The state machine\<close>

text \<open>
  The threads' steps. \<open>mem\<close> is a new address; the commands of the application other than a new
  window are all produced the same way. The join in \<^verbatim>\<open>nativeStop\<close> waits for the dispatcher.
\<close>

definition new_cell :: "addr option \<Rightarrow> jni \<Rightarrow> bool" where
  "new_cell mem s \<longleftrightarrow> (\<forall>a. mem = Some a \<longrightarrow> lq_cells (j_commands s) a = None)"

inductive jni_step :: "jni \<Rightarrow> jni \<Rightarrow> bool" where
  start: "new_cell mem s \<Longrightarrow> nativeStart runtime mode create mem ok s = Some (started, s') \<Longrightarrow> jni_step s s'"
| stop_begin: "jni_step s (nativeStop_begin s)"
| stop_end: "\<not> j_thread s \<Longrightarrow> nativeStop_end s = Some s' \<Longrightarrow> jni_step s s'"
| call: "new_cell mem s \<Longrightarrow> command_window c = None \<Longrightarrow> produce mem c s = Some (queued, s') \<Longrightarrow> jni_step s s'"
| attach: "new_cell mem s \<Longrightarrow> nativeAttachSurface window mem s = Some s' \<Longrightarrow> jni_step s s'"
| serve: "jni_step s (on_server f s)"
| take_all: "j_thread s \<Longrightarrow> j_local s = None \<Longrightarrow> jni_step s (take_commands s)"
| execute_one: "j_thread s \<Longrightarrow> j_local s = Some a \<Longrightarrow> process_one env a s = Some s' \<Longrightarrow> jni_step s s'"
| leave: "\<not> j_dispatch_running s \<Longrightarrow> j_local s = None \<Longrightarrow> jni_step s (s\<lparr>j_thread := False\<rparr>)"

lemma jni_okD:
  assumes "jni_ok s xs ys"
  shows "jni_rep s xs ys" "owned_windows s (xs @ ys)" "j_server s = None \<Longrightarrow> xs = [] \<and> ys = []"
    "j_server s \<noteq> None \<Longrightarrow> j_accepted s = j_executed s @ xs @ ys" "\<not> j_thread s \<Longrightarrow> xs = []"
    "j_thread s \<Longrightarrow> j_server s \<noteq> None"
  using assms by (auto simp: jni_ok_def split: if_splits)

lemma jni_okI:
  assumes "jni_rep s xs ys" "owned_windows s (xs @ ys)" "j_server s = None \<Longrightarrow> xs = [] \<and> ys = []"
    "j_server s \<noteq> None \<Longrightarrow> j_accepted s = j_executed s @ xs @ ys" "\<not> j_thread s \<Longrightarrow> xs = []"
    "j_thread s \<Longrightarrow> j_server s \<noteq> None"
  shows "jni_inv s"
  unfolding jni_inv_def jni_ok_def using assms by (intro exI [of _ xs] exI [of _ ys]) auto

lemma jni_inv_cong:
  assumes "j_commands s' = j_commands s" "j_local s' = j_local s" "j_native_window s' = j_native_window s"
    "j_windows s' = j_windows s" "j_overreleased s' = j_overreleased s" "j_accepted s' = j_accepted s"
    "j_executed s' = j_executed s" "j_thread s' = j_thread s" "(j_server s' = None) = (j_server s = None)"
  shows "jni_inv s' = jni_inv s"
  unfolding jni_inv_def jni_ok_def jni_rep_def owned_windows_def by (simp only: assms)

lemma stop_end_ok:
  assumes "jni_inv s" "\<not> j_thread s"
  shows "\<exists>s'. nativeStop_end s = Some s' \<and> jni_inv s' \<and> j_windows s' = {#} \<and> lq_cells (j_commands s') = Map.empty"
proof -
  obtain xs ys where s: "jni_ok s xs ys" using assms(1) by (auto simp: jni_inv_def)
  then have xs: "xs = []" using jni_okD(5) assms(2) by blast
  have "jni_rep (s\<lparr>j_dispatch_thread_started := False\<rparr>) [] ys" "owned_windows (s\<lparr>j_dispatch_thread_started := False\<rparr>) ys"
    using jni_okD(1,2) [OF s] xs by (simp_all add: jni_rep_def owned_windows_def)
  from discard_commands_ok [OF this] obtain s1 where s1:
    "discard_commands (s\<lparr>j_dispatch_thread_started := False\<rparr>) = Some s1" "jni_rep s1 [] []" "owned_windows s1 []"
    "j_thread s1 = j_thread s"
    by auto
  define s' where "s' = window_release (j_native_window s1)
    (s1\<lparr>j_renderer := None, j_server := None, j_dmabuf_enabled := False, j_native_window := None\<rparr>)"
  have "j_windows s' = {#}" "\<not> j_overreleased s'"
    using window_release_owned [of "s1\<lparr>j_renderer := None, j_server := None, j_dmabuf_enabled := False,
      j_native_window := None\<rparr>" "j_native_window s1" "{#}"] s1(3)
    by (auto simp: s'_def owned_windows_def)
  moreover have "jni_rep s' [] []" using s1(2) by (simp add: s'_def jni_rep_def)
  moreover have "j_server s' = None" "\<not> j_thread s'" "j_native_window s' = None"
    using s1(4) assms(2) by (simp_all add: s'_def)
  ultimately have "jni_inv s'"
    by (intro jni_okI [of s' "[]" "[]"]) (simp_all add: owned_windows_def)
  moreover have "lq_cells (j_commands s') = Map.empty"
    using \<open>jni_rep s' [] []\<close> by (simp add: jni_rep_def)
  moreover have "nativeStop_end s = Some s'" using s1(1) by (simp add: nativeStop_end_def s'_def)
  ultimately show ?thesis using \<open>j_windows s' = {#}\<close> by blast
qed

text \<open>Queueing on the dispatcher's side of the window references.\<close>

lemma produce_inv:
  assumes "jni_rep s xs ys" "new_cell mem s" "owned_windows s (xs @ ys @ [c])"
    "j_server s \<noteq> None \<Longrightarrow> j_accepted s = j_executed s @ xs @ ys" "\<not> j_thread s \<Longrightarrow> xs = []"
    "j_thread s \<Longrightarrow> j_server s \<noteq> None"
  shows "produce mem c s = Some (False, s) \<or>
    (\<exists>s'. produce mem c s = Some (True, s') \<and> jni_ok s' xs (ys @ [c]) \<and> j_server s' = j_server s \<and> j_thread s' = j_thread s)"
proof -
  consider "produce mem c s = Some (False, s)"
    | q where "produce mem c s = Some (True, s\<lparr>j_commands := q, j_accepted := j_accepted s @ [c]\<rparr>)" "j_server s \<noteq> None"
      "jni_rep (s\<lparr>j_commands := q, j_accepted := j_accepted s @ [c]\<rparr>) xs (ys @ [c])"
    using produce_ok [OF assms(1), of mem c] assms(2,4) by (auto simp: new_cell_def)
  then show ?thesis
  proof cases
    case 2
    then have "jni_ok (s\<lparr>j_commands := q, j_accepted := j_accepted s @ [c]\<rparr>) xs (ys @ [c])"
      using assms(3-6) by (auto simp: jni_ok_def owned_windows_def)
    with 2(1) show ?thesis by simp
  qed simp
qed

lemma start_dispatcher_ok:
  assumes s: "jni_ok s [] ys" "j_server s \<noteq> None" "\<not> j_thread s" "new_cell mem s" "j_dispatch_running s"
  shows "\<exists>s'. start_dispatcher mem ok s = Some s' \<and> jni_inv s'"
proof -
  have "\<exists>s1 zs. attach_retained mem s = Some s1 \<and> jni_ok s1 [] zs \<and> j_server s1 \<noteq> None \<and> \<not> j_thread s1"
  proof (cases "j_native_window s = None \<or> mem = None")
    case True
    then have "attach_retained mem s = Some s" by (auto simp: attach_retained_def split: option.splits)
    with s show ?thesis by blast
  next
    case False
    then obtain w a where w: "j_native_window s = Some w" "mem = Some a" by auto
    let ?s = "window_acquire (Some w) s" and ?c = "Attach_window (Some w)"
    have "jni_rep ?s [] ys" "owned_windows ?s ([] @ ys @ [?c])" "new_cell mem ?s"
      using jni_okD(1,2) [OF s(1)] s(4) by (simp_all add: jni_rep_def owned_windows_def new_cell_def)
    moreover have "j_accepted ?s = j_executed ?s @ [] @ ys" using jni_okD(4) [OF s(1,2)] by simp
    moreover have "produce mem ?c ?s \<noteq> Some (False, ?s)"
      using s(2,5) w by (auto simp: produce_def enqueue_command_locked_def bind_eq_Some_conv)
    ultimately obtain s1 where "produce mem ?c ?s = Some (True, s1)" "jni_ok s1 [] (ys @ [?c])"
      "j_server s1 = j_server s" "j_thread s1 = j_thread s"
      using produce_inv [of ?s "[]" ys mem ?c] s(2,3) by auto
    with w s(2,3) show ?thesis by (auto simp: attach_retained_def produce_def)
  qed
  then obtain s1 zs where s1: "attach_retained mem s = Some s1" "jni_ok s1 [] zs" "j_server s1 \<noteq> None" "\<not> j_thread s1"
    by blast
  show ?thesis
  proof (cases ok)
    case True
    have "jni_inv (s1\<lparr>j_dispatch_thread_started := True, j_thread := True\<rparr>)"
      using jni_okD(1,2,4) [OF s1(2)] s1(3)
      by (intro jni_okI [of _ "[]" zs]) (auto simp: jni_rep_def owned_windows_def)
    with True s1(1) show ?thesis by (simp add: start_dispatcher_def)
  next
    case False
    have "jni_rep (s1\<lparr>j_dispatch_running := False\<rparr>) [] zs" "owned_windows (s1\<lparr>j_dispatch_running := False\<rparr>) zs"
      using jni_okD(1,2) [OF s1(2)] by (simp_all add: jni_rep_def owned_windows_def)
    from discard_commands_ok [OF this] obtain s2 where s2: "discard_commands (s1\<lparr>j_dispatch_running := False\<rparr>) = Some s2"
      "jni_rep s2 [] []" "owned_windows s2 []" "j_thread s2 = j_thread s1"
      by auto
    have "jni_inv (s2\<lparr>j_server := None, j_dmabuf_enabled := False\<rparr>)"
      using s2 s1(4) by (intro jni_okI [of _ "[]" "[]"]) (simp_all add: jni_rep_def owned_windows_def)
    with False s1(1) s2(1) show ?thesis by (simp add: start_dispatcher_def)
  qed
qed

lemma start_ok:
  assumes "jni_inv s" "new_cell mem s"
  shows "\<exists>started s'. nativeStart runtime mode create mem ok s = Some (started, s') \<and> jni_inv s'"
proof (cases "runtime = None \<or> j_server s \<noteq> None \<or> create (mode \<noteq> Some ''shm'') = None")
  case True
  with assms(1) show ?thesis by (auto simp: nativeStart_def Let_def)
next
  case False
  then obtain h where h: "create (mode \<noteq> Some ''shm'') = Some h" "j_server s = None" "runtime \<noteq> None" by auto
  obtain xs ys where o: "jni_ok s xs ys" using assms(1) by (auto simp: jni_inv_def)
  let ?s = "s\<lparr>j_server := Some h, j_dmabuf_enabled := (mode \<noteq> Some ''shm''), j_dispatch_running := True,
    j_accepted := [], j_executed := []\<rparr>"
  have "\<not> j_thread s" using jni_okD(6) [OF o] h(2) by auto
  moreover have "jni_ok ?s [] []"
    using o h(2) calculation by (auto simp: jni_ok_def jni_rep_def owned_windows_def)
  ultimately obtain s' where "start_dispatcher mem ok ?s = Some s'" "jni_inv s'"
    using start_dispatcher_ok [of ?s "[]" mem ok] assms(2) by (auto simp: new_cell_def)
  with h show ?thesis by (auto simp: nativeStart_def Let_def)
qed

lemma attach_ok:
  assumes "jni_inv s" "new_cell mem s"
  shows "\<exists>s'. nativeAttachSurface window mem s = Some s' \<and> jni_inv s'"
proof -
  obtain xs ys where o: "jni_ok s xs ys" using assms(1) by (auto simp: jni_inv_def)
  note d = jni_okD [OF o]
  let ?s = "window_acquire window s"
  have r: "jni_rep ?s xs ys" "owned_windows ?s (xs @ ys @ [Attach_window window])" "new_cell mem ?s"
    using d(1,2) assms(2) by (simp_all add: jni_rep_def owned_windows_def new_cell_def)
  show ?thesis
  proof (cases "j_server s = None \<or> \<not> j_dispatch_running s")
    case True
    let ?t = "(window_release (j_native_window ?s) ?s)\<lparr>j_native_window := window\<rparr>"
    have "j_windows ?s = mset_set (set_option (j_native_window s)) + (mset_set (set_option window) + windows_of (xs @ ys))"
      using d(2) by (simp add: owned_windows_def)
    from window_release_owned [OF this] d(2) have "owned_windows ?t (xs @ ys)" by (simp add: owned_windows_def)
    moreover have "jni_rep ?t xs ys" using d(1) by (simp add: jni_rep_def)
    ultimately have "jni_inv ?t" using d(3-6) by (intro jni_okI [of _ xs ys]) simp_all
    with True show ?thesis by (simp add: nativeAttachSurface_def)
  next
    case False
    have "produce mem (Attach_window window) ?s = Some (False, ?s) \<or>
      (\<exists>s'. produce mem (Attach_window window) ?s = Some (True, s') \<and> jni_ok s' xs (ys @ [Attach_window window]) \<and>
        j_server s' = j_server ?s \<and> j_thread s' = j_thread ?s)"
      using d(4-6) by (intro produce_inv r) simp_all
    then show ?thesis
    proof (elim disjE exE conjE)
      assume p: "produce mem (Attach_window window) ?s = Some (False, ?s)"
      have "j_windows ?s = mset_set (set_option window) + j_windows s" by simp
      from window_release_owned [OF this] d(2) have "owned_windows (window_release window ?s) (xs @ ys)"
        by (simp add: owned_windows_def)
      moreover have "jni_rep (window_release window ?s) xs ys" using d(1) by (simp add: jni_rep_def)
      ultimately have "jni_inv (window_release window ?s)" using d(3-6) by (intro jni_okI [of _ xs ys]) simp_all
      with False p show ?thesis by (auto simp: nativeAttachSurface_def Let_def)
    next
      fix s' assume "produce mem (Attach_window window) ?s = Some (True, s')" "jni_ok s' xs (ys @ [Attach_window window])"
      with False show ?thesis by (auto simp: nativeAttachSurface_def jni_inv_def Let_def)
    qed
  qed
qed

lemma take_ok:
  assumes "jni_inv s" "j_thread s" "j_local s = None"
  shows "jni_inv (take_commands s)"
proof -
  obtain xs ys where o: "jni_ok s xs ys" using assms(1) by (auto simp: jni_inv_def)
  have "xs = []" using jni_rep_local [OF jni_okD(1) [OF o]] assms(3) by simp
  with o assms(2) have "jni_ok (take_commands s) ys []"
    using jni_rep_take [of s ys] by (auto simp: jni_ok_def owned_windows_def take_commands_def)
  then show ?thesis by (auto simp: jni_inv_def)
qed

lemma call_ok:
  assumes "jni_inv s" "new_cell mem s" "command_window c = None"
  shows "\<exists>queued s'. produce mem c s = Some (queued, s') \<and> jni_inv s'"
proof -
  obtain xs ys where o: "jni_ok s xs ys" using assms(1) by (auto simp: jni_inv_def)
  note d = jni_okD [OF o]
  have "owned_windows s (xs @ ys @ [c])" using d(2) assms(3) by (simp add: owned_windows_def)
  from produce_inv [OF d(1) assms(2) this d(4-6)] assms(1) show ?thesis by (auto simp: jni_inv_def)
qed

lemma jni_step_inv: "jni_step s s' \<Longrightarrow> jni_inv s \<Longrightarrow> jni_inv s'"
proof (induction rule: jni_step.induct)
  case (start mem s runtime mode create ok started s')
  then show ?case using start_ok [of s mem runtime mode create ok] by auto
next
  case (stop_end s s')
  then show ?case using stop_end_ok [of s] by auto
next
  case (call mem s c queued s')
  then show ?case using call_ok [of s mem c] by auto
next
  case (attach mem s window s')
  then show ?case using attach_ok [of s mem window] by auto
next
  case (execute_one s a env s')
  then obtain xs ys where o: "jni_ok s xs ys" by (auto simp: jni_inv_def)
  with execute_one.hyps(2) jni_rep_local [OF jni_okD(1) [OF o]] obtain x xs' where "xs = x # xs'" by (cases xs) auto
  with process_one_ok [of s x xs' ys env] o execute_one.hyps(2,3) show ?case by (auto simp: jni_inv_def)
next
  case (leave s)
  then obtain xs ys where o: "jni_ok s xs ys" by (auto simp: jni_inv_def)
  have "xs = []" using jni_rep_local [OF jni_okD(1) [OF o]] leave.hyps(2) by simp
  with jni_okD [OF o] show ?case
    by (intro jni_okI [of _ "[]" ys]) (simp_all add: jni_rep_def owned_windows_def)
next
  case (stop_begin s)
  then show ?case using jni_inv_cong [of "nativeStop_begin s" s] by (simp add: nativeStop_begin_def)
next
  case (serve s f)
  then show ?case using jni_inv_cong [of "on_server f s" s] by simp
qed (rule take_ok)

interpretation jni_threads: transition_system jni_step jni_inv
  by unfold_locales (rule jni_step_inv)

end
