(* ===== verification/Jni_Properties.thy ===== *)
theory Jni_Properties
  imports Jni_Safety Host_Properties
begin

text \<open>
  What the JNI bridge guarantees over every interleaving of the application's threads with the
  dispatcher, and two places where it does not do what it means to.
\<close>

section \<open>Order and ownership\<close>


text \<open>A bridge with a running server.\<close>

definition running_jni :: jni where
  "running_jni = initial_jni\<lparr>j_server := Some boot, j_dmabuf_enabled := True, j_dispatch_running := True,
     j_dispatch_thread_started := True, j_thread := True\<rparr>"

lemma running_reached: "jni_step\<^sup>*\<^sup>* initial_jni running_jni"
proof (rule r_into_rtranclp, rule jni_step.start)
  show "nativeStart (Some ''/run'') None (\<lambda>_. Some boot) None True initial_jni = Some (True, running_jni)"
    by (simp add: nativeStart_def initial_jni_def start_dispatcher_def attach_retained_def running_jni_def)
qed (simp add: new_cell_def)

lemma running_rep: "jni_ok running_jni [] []"
proof -
  obtain xs ys where "jni_ok running_jni xs ys"
    using jni_threads.run_inv [OF running_reached initial_inv] by (auto simp: jni_inv_def)
  then show ?thesis
    by (simp add: jni_ok_def running_jni_def initial_jni_def owned_windows_def jni_rep_def lq_empty_def)
qed


text \<open>\<^verbatim>\<open>process_commands\<close> ends, executes every queued command once and in order, and frees all of them.\<close>

theorem jni_process_all:
  assumes "jni_ok s [] ys" "j_thread s"
  shows "\<exists>s'. process_commands env s = Some s' \<and> j_executed s' = j_executed s @ ys \<and>
    lq_head (j_commands s') = None \<and> lq_cells (j_commands s') = Map.empty"
proof -
  have "jni_ok (take_commands s) ys []"
    using assms jni_rep_take [of s ys] by (auto simp: jni_ok_def owned_windows_def take_commands_def)
  from process_loop_ok [OF this, of env] obtain s' where s': "process_loop env (take_commands s) = Some s'"
    "jni_ok s' [] []" "j_executed s' = j_executed (take_commands s) @ ys"
    by blast
  have "jni_rep s' [] []" using s'(2) by (simp add: jni_ok_def)
  then have "lq_head (j_commands s') = None" "lq_cells (j_commands s') = Map.empty"
    by (auto simp: jni_rep_def)
  with s'(1,3) show ?thesis by (simp add: process_commands_def take_commands_def)
qed

theorem jni_process_all_witness:
  "\<exists>s'. process_commands \<lparr>je_to_fixed = \<lambda>_. 0, je_float = \<lambda>r. r, je_renderer = \<lambda>_. True\<rparr> running_jni = Some s'"
  using jni_process_all [OF running_rep] by (auto simp: running_jni_def)



section \<open>Start against stop\<close>

text \<open>\<^verbatim>\<open>nativeStart\<close> called between the two halves of \<^verbatim>\<open>nativeStop\<close> (with the buffer mode of the server
  that is being stopped) reports success and starts nothing; when the stop has finished there is no server.\<close>

theorem jni_start_during_stop:
  assumes "j_server s \<noteq> None" "j_dmabuf_enabled s = (mode \<noteq> Some ''shm'')" "runtime \<noteq> None"
  shows "nativeStart runtime mode create mem ok (nativeStop_begin s) = Some (True, nativeStop_begin s) \<and>
    (nativeStop_end (nativeStop_begin s) = Some s' \<longrightarrow> j_server s' = None)"
  using assms
  by (auto simp: nativeStart_def nativeStop_begin_def nativeStop_end_def bind_eq_Some_conv Let_def)

theorem jni_start_during_stop_witness:
  "nativeStart (Some ''/run'') None (\<lambda>_. None) None True (nativeStop_begin running_jni) =
     Some (True, nativeStop_begin running_jni)"
  using jni_start_during_stop [of running_jni None "Some ''/run''" "\<lambda>_. None" None True]
  by (simp add: running_jni_def)



section \<open>Input commands and the server\<close>

lemma output_size_pointer_inv:
  assumes "pointer_inv h"
  shows "pointer_inv (trierarch_wayland_set_output_size width height h)"
proof -
  have "h_surfaces (fold f rs k) = h_surfaces k \<and> h_server (fold f rs k) = h_server k"
    if "f = send_output_state \<or> f = send_xdg_output_state \<or> f = trierarch_surface_send_configure" for f rs k
    using that by (induction rs arbitrary: k) (auto simp: send_output_state_def send_xdg_output_state_def
      trierarch_surface_send_configure_def emits_def fault_def access_defs Let_def split: option.splits)
  then have "h_surfaces (trierarch_wayland_set_output_size width height h) = h_surfaces h \<and>
      sv_pointer_focus (h_server (trierarch_wayland_set_output_size width height h)) = sv_pointer_focus (h_server h) \<and>
      sv_cursor_surface (h_server (trierarch_wayland_set_output_size width height h)) = sv_cursor_surface (h_server h)"
    by (simp add: trierarch_wayland_set_output_size_def trierarch_xdg_output_notify_def Let_def)
  with assms set_output_size_inv [of h width height] show ?thesis by (simp add: pointer_inv_def pointer_live_def)
qed

text \<open>Pointer, cursor and output commands of the application keep the server memory-safe: executing one
  preserves the invariant of the host and the validity of its pointer and cursor surfaces.\<close>

theorem jni_commands_keep_host:
  assumes "j_server s = Some h" "host_inv h" "pointer_live h"
    "\<And>key pressed t. c \<noteq> Keyboard_key key pressed t \<and> c \<noteq> Keyboard_evdev key pressed t"
  shows "\<exists>h'. j_server (execute env c s) = Some h' \<and> host_inv h' \<and> pointer_live h'"
proof -
  have P: "pointer_inv h" using assms(2,3) by (simp add: pointer_inv_def)
  have "\<exists>h'. j_server (execute env c s) = Some h' \<and> pointer_inv h'"
    using assms(1,4) P by (cases c)
      (auto simp: on_server_def replace_renderer_def Let_def output_size_pointer_inv
        intro!: pointer_step_inv [OF _ P] pointer_step.intros split: option.splits)
  then show ?thesis by (auto simp: pointer_inv_def)
qed

theorem jni_commands_keep_host_witness:
  "\<exists>h'. j_server (execute \<lparr>je_to_fixed = \<lambda>_. 0, je_float = \<lambda>r. r, je_renderer = \<lambda>_. True\<rparr>
     (Output_size 800 600) running_jni) = Some h' \<and> host_inv h'"
  using jni_commands_keep_host [of running_jni boot "Output_size 800 600"] boot_inv
  by (auto simp: running_jni_def pointer_live_def)

end
