(* ===== verification/Session_Supervisor.thy ===== *)
theory Session_Supervisor
  imports C_Strings
begin

text \<open>
  The session supervisor (\<^verbatim>\<open>session-supervisor/src/main.c\<close>). It either watches the process that owns a
  session and ends the session when that process is gone, or observes the start of a session and starts
  the desktop's shell when it is missing.

  What the program reads of the system at one moment is the record \<open>world\<close>: the entries of
  \<^verbatim>\<open>/proc\<close>, for a process its owner, name, parent, arguments, environment and \<^verbatim>\<open>stat\<close> line, and the
  sockets of a directory. What it does to the system is a list of actions.
\<close>

definition DEFAULT_OBSERVE_MS :: int where "DEFAULT_OBSERVE_MS = 10000"
definition PLASMA_GRACE_MS :: int where "PLASMA_GRACE_MS = 4000"
definition POLL_MS :: int where "POLL_MS = 100"
definition MAX_KNOWN_SOCKETS :: nat where "MAX_KNOWN_SOCKETS = 32"
definition MAX_ENVIRONMENT_BYTES :: nat where "MAX_ENVIRONMENT_BYTES = 131072"

record world =
  w_proc :: "string list option"
  w_owned :: "int \<Rightarrow> bool"
  w_comm :: "int \<Rightarrow> string option"
  w_parent :: "int \<Rightarrow> int"
  w_cmdline :: "int \<Rightarrow> string option"
  w_environ :: "int \<Rightarrow> string option"
  w_stat :: "int \<Rightarrow> string option"
  w_directory :: "string \<Rightarrow> string list option"
  w_socket :: "string \<Rightarrow> string \<Rightarrow> bool"

section \<open>Looking around\<close>

fun is_decimal_rest :: "string \<Rightarrow> bool" where
  "is_decimal_rest [] \<longleftrightarrow> True"
| "is_decimal_rest (c # cs) \<longleftrightarrow> (if c < CHR ''0'' \<or> CHR ''9'' < c then False else is_decimal_rest cs)"

definition is_decimal :: "string \<Rightarrow> bool" where
  "is_decimal value \<longleftrightarrow> (if value = [] then False else is_decimal_rest value)"

text \<open>\<^verbatim>\<open>is_socket\<close>: a path that does not fit into \<^verbatim>\<open>PATH_MAX\<close> is no socket.\<close>

definition is_socket :: "world \<Rightarrow> string \<Rightarrow> string \<Rightarrow> bool" where
  "is_socket w directory name \<longleftrightarrow>
     (if 4096 \<le> length directory + 1 + length name then False else w_socket w directory name)"

text \<open>The names recorded so far; \<open>mem\<close> says whether the copy of a name can be allocated.\<close>

definition observe_entry :: "world \<Rightarrow> (string \<Rightarrow> bool) \<Rightarrow> string \<Rightarrow> string \<Rightarrow> string list \<Rightarrow> string list" where
  "observe_entry w mem directory name known =
     (if (name \<noteq> [] \<and> hd name = CHR ''.'') \<or> \<not> is_socket w directory name then known
      else if name \<in> set known \<or> length known = MAX_KNOWN_SOCKETS then known
      else if \<not> mem name then known
      else known @ [name])"

definition observe_sockets :: "world \<Rightarrow> (string \<Rightarrow> bool) \<Rightarrow> string \<Rightarrow> string list \<Rightarrow> string list" where
  "observe_sockets w mem directory known = (case w_directory w directory of
       None \<Rightarrow> known
     | Some entries \<Rightarrow> fold (observe_entry w mem directory) entries known)"

text \<open>\<^verbatim>\<open>process_comm\<close> reads the first line, at most 63 bytes.\<close>

definition process_comm :: "world \<Rightarrow> int \<Rightarrow> string option" where
  "process_comm w pid = (case w_comm w pid of None \<Rightarrow> None
     | Some text \<Rightarrow> if text = [] then None else Some (takeWhile (\<lambda>c. c \<noteq> CHR 0x0A) (take 63 text)))"

fun descend :: "world \<Rightarrow> nat \<Rightarrow> int \<Rightarrow> int \<Rightarrow> bool" where
  "descend w 0 process ancestor \<longleftrightarrow> False"
| "descend w (Suc depth) process ancestor \<longleftrightarrow>
     (if 1 < process then (if process = ancestor then True else descend w depth (w_parent w process) ancestor)
      else False)"

definition is_descendant_of :: "world \<Rightarrow> int \<Rightarrow> int \<Rightarrow> bool" where
  "is_descendant_of w process ancestor \<longleftrightarrow> descend w 64 process ancestor"

definition entry_pid :: "string \<Rightarrow> int" where
  "entry_pid name = to_pid (fst (strtol name))"

fun find_named :: "world \<Rightarrow> string \<Rightarrow> string list \<Rightarrow> int" where
  "find_named w name [] = 0"
| "find_named w name (e # es) =
     (if is_decimal e \<and> w_owned w (entry_pid e) \<and> process_comm w (entry_pid e) = Some name
      then entry_pid e else find_named w name es)"

definition find_process_named :: "world \<Rightarrow> string \<Rightarrow> int" where
  "find_process_named w name = (case w_proc w of None \<Rightarrow> 0 | Some entries \<Rightarrow> find_named w name entries)"

text \<open>The arguments of a process, one after the other, with the flag \<^verbatim>\<open>next_is_socket\<close>.\<close>

fun socket_argument :: "nat \<Rightarrow> bool \<Rightarrow> string list \<Rightarrow> string option" where
  "socket_argument socket_size next_is_socket [] = None"
| "socket_argument socket_size next_is_socket (a # as) =
     (if a = [] then socket_argument socket_size next_is_socket as
      else if next_is_socket then
        (if CHR ''/'' \<notin> set a \<and> length a < socket_size then Some a else None)
      else if a = ''--socket'' then socket_argument socket_size True as
      else if starts_with ''--socket='' a \<and> CHR ''/'' \<notin> set (drop 9 a) \<and> length (drop 9 a) < socket_size
        then Some (drop 9 a)
      else socket_argument socket_size next_is_socket as)"

definition read_command_socket :: "world \<Rightarrow> int \<Rightarrow> nat \<Rightarrow> string option" where
  "read_command_socket w pid socket_size = (case w_cmdline w pid of None \<Rightarrow> None
     | Some bytes \<Rightarrow> if bytes = [] then None else socket_argument socket_size False (c_strings (take 8191 bytes)))"

text \<open>\<open>None\<close> when there is no nested compositor, else its process and its socket.\<close>

fun find_kwin :: "world \<Rightarrow> int \<Rightarrow> string \<Rightarrow> nat \<Rightarrow> string list \<Rightarrow> (int \<times> string) option" where
  "find_kwin w session directory socket_size [] = None"
| "find_kwin w session directory socket_size (e # es) =
     (let pid = entry_pid e in
      if \<not> is_decimal e \<or> \<not> w_owned w pid \<or> process_comm w pid \<noteq> Some ''kwin_wayland'' \<or>
         \<not> is_descendant_of w pid session
      then find_kwin w session directory socket_size es
      else case read_command_socket w pid socket_size of
             None \<Rightarrow> find_kwin w session directory socket_size es
           | Some socket \<Rightarrow>
               if is_socket w directory socket then Some (pid, socket)
               else find_kwin w session directory socket_size es)"

definition find_nested_kwin_socket :: "world \<Rightarrow> int \<Rightarrow> string \<Rightarrow> nat \<Rightarrow> (int \<times> string) option" where
  "find_nested_kwin_socket w session directory socket_size =
     (case w_proc w of None \<Rightarrow> None | Some entries \<Rightarrow> find_kwin w session directory socket_size entries)"

section \<open>The environment of the shell\<close>

definition kept_entry :: "string \<Rightarrow> bool" where
  "kept_entry e \<longleftrightarrow> e \<noteq> [] \<and> \<not> starts_with ''WAYLAND_DISPLAY='' e"

text \<open>
  The first pass counts the entries, the second copies them into \<^verbatim>\<open>count + 2\<close> zeroed slots. \<open>mem i\<close>
  says whether the \<open>i\<close>-th allocation succeeds; \<open>None\<close> is \<^verbatim>\<open>NULL\<close>.
\<close>

definition environment_count :: "string list \<Rightarrow> nat" where
  "environment_count entries = length (filter kept_entry entries)"

fun copy_entries :: "(nat \<Rightarrow> bool) \<Rightarrow> string list \<Rightarrow> nat \<Rightarrow> string option list \<Rightarrow> (nat \<times> string option list) option" where
  "copy_entries mem [] output slots = Some (output, slots)"
| "copy_entries mem (e # es) output slots =
     (if \<not> kept_entry e then copy_entries mem es output slots
      else if \<not> mem (Suc output) then None
      else copy_entries mem es (Suc output) (slots[output := Some e]))"

record session_env =
  se_slots :: "string option list"
  se_output :: nat
  se_has_dbus :: bool
  se_has_runtime :: bool

definition session_environment :: "world \<Rightarrow> (nat \<Rightarrow> bool) \<Rightarrow> int \<Rightarrow> string \<Rightarrow> session_env option" where
  "session_environment w mem session socket = (case w_environ w session of
       None \<Rightarrow> None
     | Some bytes \<Rightarrow>
         (let entries = c_strings (take (MAX_ENVIRONMENT_BYTES - 1) bytes);
              count = environment_count entries
          in if \<not> mem 0 then None
             else case copy_entries mem entries 0 (replicate (count + 2) None) of
                    None \<Rightarrow> None
                  | Some (output, slots) \<Rightarrow>
                      if \<not> mem (Suc output) then None
                      else Some \<lparr>se_slots = slots[output := Some (''WAYLAND_DISPLAY='' @ socket)],
                        se_output = output,
                        se_has_dbus = list_ex (\<lambda>e. kept_entry e \<and> starts_with ''DBUS_SESSION_BUS_ADDRESS='' e) entries,
                        se_has_runtime = list_ex (\<lambda>e. kept_entry e \<and> starts_with ''XDG_RUNTIME_DIR='' e) entries\<rparr>))"

text \<open>The strings \<^verbatim>\<open>execve\<close> and \<^verbatim>\<open>free_environment\<close> see: up to the first null slot.\<close>

fun environment_strings :: "string option list \<Rightarrow> string list" where
  "environment_strings [] = []"
| "environment_strings (None # xs) = []"
| "environment_strings (Some s # xs) = s # environment_strings xs"

text \<open>What the supervisor does to the system.\<close>

datatype action =
    Kill int nat
  | Sleep int
  | Stop_container string
  | Launch "string list"
  | Log_matched int int string
  | Log_running
  | Log_unmatched

text \<open>
  \<^verbatim>\<open>launch_plasmashell\<close>: the process (0 when it was not started) and the actions; \<open>fork\<close> is what
  \<^verbatim>\<open>fork\<close> returns to the parent.
\<close>

definition launch_plasmashell ::
  "world \<Rightarrow> (nat \<Rightarrow> bool) \<Rightarrow> int \<Rightarrow> int \<Rightarrow> string \<Rightarrow> int \<times> action list" where
  "launch_plasmashell w mem fork session socket =
     (case session_environment w mem session socket of
        None \<Rightarrow> (0, [])
      | Some e \<Rightarrow>
          if \<not> se_has_dbus e \<or> \<not> se_has_runtime e then (0, [])
          else if fork < 0 then (0, [])
          else (fork, [Launch (environment_strings (se_slots e))]))"

section \<open>Watching the owner\<close>

text \<open>
  Field 22 of \<^verbatim>\<open>/proc/<pid>/stat\<close>, read by walking over twenty fields behind the last
  parenthesis; \<open>None\<close> when the line ends before.
\<close>

fun stat_walk :: "nat \<Rightarrow> string \<Rightarrow> u64 option" where
  "stat_walk 0 cursor = Some (fst (strtoull cursor))"
| "stat_walk (Suc n) cursor =
     (let end = snd (strtoull cursor)
      in if end = [] then None else stat_walk n (dropWhile (\<lambda>c. c = CHR '' '') (drop 1 end)))"

definition after_last_paren :: "string \<Rightarrow> string option" where
  "after_last_paren line = (if CHR '')'' \<notin> set line then None
     else Some (rev (takeWhile (\<lambda>c. c \<noteq> CHR '')'') (rev line))))"

text \<open>\<^verbatim>\<open>fgets\<close> reads one line of at most 511 bytes, with its newline.\<close>

definition first_line :: "nat \<Rightarrow> string \<Rightarrow> string" where
  "first_line n text = take n (takeWhile (\<lambda>c. c \<noteq> CHR 0x0A) text @
     (if CHR 0x0A \<in> set text then [CHR 0x0A] else []))"

definition owner_is_alive :: "world \<Rightarrow> int \<Rightarrow> u64 \<Rightarrow> bool" where
  "owner_is_alive w owner_pid owner_start_time = (case w_stat w owner_pid of
       None \<Rightarrow> False
     | Some text \<Rightarrow>
         if text = [] then False
         else case after_last_paren (first_line 511 text) of
                None \<Rightarrow> False
              | Some rest \<Rightarrow> stat_walk 19 (drop 1 rest) = Some owner_start_time)"

text \<open>
  \<open>worlds i\<close> is the system at the \<open>i\<close>-th poll. The loop may not end: the owner may live for ever.
\<close>

partial_function (option) watch_loop :: "(nat \<Rightarrow> world) \<Rightarrow> int \<Rightarrow> u64 \<Rightarrow> nat \<Rightarrow> nat option" where
  "watch_loop worlds owner_pid owner_start_time i =
     (if owner_is_alive (worlds i) owner_pid owner_start_time
      then watch_loop worlds owner_pid owner_start_time (Suc i) else Some i)"

definition watch_owner :: "(nat \<Rightarrow> world) \<Rightarrow> int \<Rightarrow> u64 \<Rightarrow> int \<Rightarrow> string option \<Rightarrow> action list option" where
  "watch_owner worlds owner_pid owner_start_time session_pgid stop_container =
     (case watch_loop worlds owner_pid owner_start_time 0 of
        None \<Rightarrow> None
      | Some _ \<Rightarrow>
          (case stop_container of
             Some name \<Rightarrow> Some [Stop_container name]
           | None \<Rightarrow>
               if 1 < session_pgid then Some [Kill (- session_pgid) 15, Sleep 250, Kill (- session_pgid) 9]
               else Some []))"

section \<open>Arguments\<close>

definition parse_milliseconds :: "string \<Rightarrow> int" where
  "parse_milliseconds value = (case strtol value of (ms, erange, end) \<Rightarrow>
     if erange \<or> end = value \<or> end \<noteq> [] \<or> ms < 0 \<or> 60000 < ms then -1 else ms)"

record options =
  op_runtime_directory :: "string option"
  op_log_path :: "string option"
  op_observe_milliseconds :: int
  op_owner_pid :: int
  op_owner_start_time :: u64
  op_session_pgid :: int
  op_stop_container :: "string option"

definition default_options :: options where
  "default_options = \<lparr>op_runtime_directory = None, op_log_path = None,
     op_observe_milliseconds = DEFAULT_OBSERVE_MS, op_owner_pid = 0, op_owner_start_time = 0,
     op_session_pgid = 0, op_stop_container = None\<rparr>"

fun parse_arguments :: "string list \<Rightarrow> options \<Rightarrow> options option" where
  "parse_arguments [] opts = Some opts"
| "parse_arguments [a] opts = None"
| "parse_arguments (a # v # as) opts =
     (if a = ''--runtime-dir'' then parse_arguments as (opts\<lparr>op_runtime_directory := Some v\<rparr>)
      else if a = ''--log'' then parse_arguments as (opts\<lparr>op_log_path := Some v\<rparr>)
      else if a = ''--observe-ms'' then
        parse_arguments as (opts\<lparr>op_observe_milliseconds := parse_milliseconds v\<rparr>)
      else if a = ''--owner-pid'' then parse_arguments as (opts\<lparr>op_owner_pid := to_pid (fst (strtol v))\<rparr>)
      else if a = ''--owner-start-time'' then
        parse_arguments as (opts\<lparr>op_owner_start_time := fst (strtoull v)\<rparr>)
      else if a = ''--pgid'' then parse_arguments as (opts\<lparr>op_session_pgid := to_pid (fst (strtol v))\<rparr>)
      else if a = ''--stop-container'' then parse_arguments as (opts\<lparr>op_stop_container := Some v\<rparr>)
      else None)"

datatype mode = Usage | Invalid | Watch int u64 int "string option" | Observe string string int

text \<open>\<^verbatim>\<open>!*stop_container || strpbrk(stop_container, "/ \t\n")\<close>\<close>

definition invalid_container :: "string \<Rightarrow> bool" where
  "invalid_container name \<longleftrightarrow> name = [] \<or> CHR ''/'' \<in> set name \<or> CHR '' '' \<in> set name \<or>
     CHR 0x09 \<in> set name \<or> CHR 0x0A \<in> set name"

definition watch_mode :: "options \<Rightarrow> mode" where
  "watch_mode p =
     (if op_owner_pid p \<le> 1 \<or> op_owner_start_time p = 0 \<or>
         (1 < op_session_pgid p) = (op_stop_container p \<noteq> None) then Invalid
      else if (case op_stop_container p of None \<Rightarrow> False | Some name \<Rightarrow> invalid_container name) then Invalid
      else Watch (op_owner_pid p) (op_owner_start_time p) (op_session_pgid p) (op_stop_container p))"

definition observe_mode :: "options \<Rightarrow> mode" where
  "observe_mode p = (case (op_runtime_directory p, op_log_path p) of
       (Some d, Some l) \<Rightarrow>
         if op_observe_milliseconds p < 0 then Invalid else Observe d l (op_observe_milliseconds p)
     | _ \<Rightarrow> Invalid)"

definition choose_mode :: "string list \<Rightarrow> mode" where
  "choose_mode args = (case parse_arguments args default_options of
       None \<Rightarrow> Usage
     | Some p \<Rightarrow>
         if 0 < op_owner_pid p \<or> 0 < op_owner_start_time p \<or> 0 < op_session_pgid p \<or> op_stop_container p \<noteq> None
         then watch_mode p else observe_mode p)"

section \<open>Observing a session\<close>

record observation =
  ob_known :: "string list"
  ob_socket_seen_at :: int
  ob_finished :: bool
  ob_actions :: "action list"

definition initial_observation :: observation where
  "initial_observation = \<lparr>ob_known = [], ob_socket_seen_at = -1, ob_finished = False, ob_actions = []\<rparr>"

text \<open>
  One turn of the loop at time \<open>elapsed\<close>; the flag says whether it breaks out. \<open>mem\<close> and
  \<open>fork\<close> are as above. The turn ends where \<^verbatim>\<open>supervise_child\<close> takes over.
\<close>

definition observe_turn ::
  "world \<Rightarrow> (string \<Rightarrow> bool) \<Rightarrow> (nat \<Rightarrow> bool) \<Rightarrow> int \<Rightarrow> string \<Rightarrow> int \<Rightarrow> observation \<Rightarrow> bool \<times> observation" where
  "observe_turn w names mem fork directory elapsed b0 =
     (let b = b0\<lparr>ob_known := observe_sockets w names directory (ob_known b0)\<rparr>;
          session = find_process_named w ''plasma_session''
      in if ob_finished b \<or> session = 0 then (False, b)
         else case find_nested_kwin_socket w session directory 256 of
                None \<Rightarrow> (False, b)
              | Some (kwin, socket) \<Rightarrow>
                  if kwin \<le> 0 then (False, b)
                  else
                    let b1 = (if ob_socket_seen_at b < 0
                              then b\<lparr>ob_socket_seen_at := elapsed,
                                     ob_actions := ob_actions b @ [Log_matched session kwin socket]\<rparr> else b)
                    in if 0 < find_process_named w ''plasmashell''
                       then (False, b1\<lparr>ob_finished := True, ob_actions := ob_actions b1 @ [Log_running]\<rparr>)
                       else if PLASMA_GRACE_MS \<le> elapsed - ob_socket_seen_at b1
                       then (True, b1\<lparr>ob_finished := True,
                              ob_actions := ob_actions b1 @ snd (launch_plasmashell w mem fork session socket)\<rparr>)
                       else (False, b1))"

text \<open>
  \<^verbatim>\<open>for (elapsed = 0; running && elapsed <= observe_milliseconds; elapsed += POLL_MS)\<close>; \<open>running i\<close> is
  the flag at the \<open>i\<close>-th turn.
\<close>

function observe_loop ::
  "(nat \<Rightarrow> world) \<Rightarrow> (nat \<Rightarrow> bool) \<Rightarrow> (string \<Rightarrow> bool) \<Rightarrow> (nat \<Rightarrow> bool) \<Rightarrow> int \<Rightarrow> string \<Rightarrow> int \<Rightarrow> nat \<Rightarrow>
     observation \<Rightarrow> observation" where
  "observe_loop worlds running names mem fork directory limit i b =
     (if \<not> running i \<or> limit < POLL_MS * int i then b
      else let (stop, b1) = observe_turn (worlds i) names mem fork directory (POLL_MS * int i) b
           in if stop \<or> POLL_MS * int i = limit then b1
              else observe_loop worlds running names mem fork directory limit (Suc i) b1)"
  by pat_completeness auto
termination
  by (relation "measure (\<lambda>(worlds, running, names, mem, fork, directory, limit, i, b). nat (limit + 1) - i)")
    (auto simp: POLL_MS_def)

declare observe_loop.simps [simp del]

definition observe :: "(nat \<Rightarrow> world) \<Rightarrow> (nat \<Rightarrow> bool) \<Rightarrow> (string \<Rightarrow> bool) \<Rightarrow> (nat \<Rightarrow> bool) \<Rightarrow> int \<Rightarrow> string \<Rightarrow> int \<Rightarrow> observation" where
  "observe worlds running names mem fork directory limit =
     (let b = observe_loop worlds running names mem fork directory limit 0 initial_observation
      in if ob_finished b then b else b\<lparr>ob_actions := ob_actions b @ [Log_unmatched]\<rparr>)"

section \<open>The managed shell\<close>

text \<open>
  The variables the signal handler shares with \<^verbatim>\<open>supervise_child\<close>, and the signals sent so far.
\<close>

record supervision =
  su_running :: bool
  su_managed_child :: int
  su_signals :: "(int \<times> nat) list"

definition stop :: "supervision \<Rightarrow> supervision" where
  "stop s = (let s1 = s\<lparr>su_running := False\<rparr>
     in if 0 < su_managed_child s1 then s1\<lparr>su_signals := su_signals s1 @ [(su_managed_child s1, 15)]\<rparr> else s1)"

text \<open>
  \<^verbatim>\<open>supervise_child\<close> polls until the child ends or the handler has run, and then waits for the child.
  The \<open>i\<close>-th poll sees the state \<open>at i\<close> of the handler's variables and the answer \<open>wait i\<close>.
\<close>

datatype wait_result = Wait_exited | Wait_none | Wait_interrupted | Wait_failed

datatype supervised = Child_exited | Wait_error | Blocking_wait

partial_function (option) supervise_loop ::
  "(nat \<Rightarrow> supervision) \<Rightarrow> (nat \<Rightarrow> wait_result) \<Rightarrow> nat \<Rightarrow> supervised option" where
  "supervise_loop at wait i =
     (if \<not> su_running (at i) then Some Blocking_wait
      else if wait i = Wait_exited then Some Child_exited
      else if wait i = Wait_failed then Some Wait_error
      else supervise_loop at wait (Suc i))"

definition register_child :: "int \<Rightarrow> supervision \<Rightarrow> supervision" where
  "register_child child s = s\<lparr>su_managed_child := child\<rparr>"

end
