(* ===== verification/Supervisor_Properties.thy ===== *)
theory Supervisor_Properties
  imports Session_Supervisor
begin

text \<open>
  What the session supervisor guarantees: the start time it reads from \<^verbatim>\<open>/proc\<close> is the one the kernel wrote,
  the session is ended only after its owner is gone and only by its own process group, the environment of
  the shell is the session's with one display, and the fallback shell is started at most once.
\<close>

section \<open>The environment\<close>

lemma copy_entries_spec:
  assumes "k + length (filter kept_entry es) \<le> length slots"
  shows "copy_entries (\<lambda>_. True) es k slots = Some (k + length (filter kept_entry es),
    take k slots @ map Some (filter kept_entry es) @ drop (k + length (filter kept_entry es)) slots)"
  using assms
proof (induction es arbitrary: k slots)
  case (Cons e es)
  show ?case
  proof (cases "kept_entry e")
    case True
    have l: "k < length slots" using Cons.prems True by simp
    have "copy_entries (\<lambda>_. True) es (Suc k) (slots[k := Some e]) =
      Some (Suc k + length (filter kept_entry es), take (Suc k) (slots[k := Some e]) @
        map Some (filter kept_entry es) @ drop (Suc k + length (filter kept_entry es)) (slots[k := Some e]))"
      using Cons.prems True by (intro Cons.IH) simp
    moreover have "take (Suc k) (slots[k := Some e]) = take k slots @ [Some e]"
      using l by (simp add: take_Suc_conv_app_nth)
    ultimately show ?thesis using True by simp
  qed (use Cons in simp)
qed simp

lemma environment_strings_all: "environment_strings (map Some xs @ None # ys) = xs"
  by (induction xs) simp_all

text \<open>C8: when the allocations succeed, the shell gets the session's environment in its order, without any
  \<^verbatim>\<open>WAYLAND_DISPLAY\<close> and with the nested socket as the only one, last; the copies stay within the
  \<^verbatim>\<open>count + 2\<close> slots and the array ends with a null pointer.\<close>

theorem environment_is_sessions:
  assumes "w_environ w session = Some bytes" "\<And>i. mem i"
  shows "\<exists>e. session_environment w mem session socket = Some e \<and>
    environment_strings (se_slots e) =
      filter kept_entry (c_strings (take (MAX_ENVIRONMENT_BYTES - 1) bytes)) @ [''WAYLAND_DISPLAY='' @ socket] \<and>
    se_output e + 2 = length (se_slots e) \<and> last (se_slots e) = None"
proof -
  define es where "es = c_strings (take (MAX_ENVIRONMENT_BYTES - 1) bytes)"
  define n d where "n = environment_count es" and "d = ''WAYLAND_DISPLAY='' @ socket"
  have m: "mem = (\<lambda>_. True)" using assms(2) by auto
  have n: "length (filter kept_entry es) = n" by (simp add: n_def environment_count_def)
  have "drop n (replicate (n + 2) None) = [None, None :: string option]"
    by (simp add: drop_replicate numeral_2_eq_2 del: add_2_eq_Suc' replicate.simps(2)) simp
  then have c: "copy_entries mem es 0 (replicate (n + 2) None) = Some (n, map Some (filter kept_entry es) @ [None, None])"
    using copy_entries_spec [of 0 es "replicate (n + 2) None"] by (simp only: n m length_replicate)
      (simp del: add_2_eq_Suc' replicate.simps(2))
  define slots where "slots = map Some (filter kept_entry es @ [d]) @ [None]"
  have u: "(map Some (filter kept_entry es) @ [None, None])[n := Some d] = slots"
    using n by (simp add: slots_def list_update_append)
  have "\<exists>e. session_environment w mem session socket = Some e \<and> se_slots e = slots \<and> se_output e = n"
    unfolding session_environment_def assms(1) option.case es_def [symmetric] n_def [symmetric] c Let_def
      prod.case d_def [symmetric] u by (simp add: m)
  moreover have "environment_strings slots = filter kept_entry es @ [d]"
    unfolding slots_def by (rule environment_strings_all)
  moreover have "n + 2 = length slots" "last slots = None" using n by (simp_all add: slots_def)
  ultimately show ?thesis unfolding es_def d_def by auto
qed

definition empty_world :: world where
  "empty_world = \<lparr>w_proc = None, w_owned = (\<lambda>_. False), w_comm = (\<lambda>_. None), w_parent = (\<lambda>_. 0),
     w_cmdline = (\<lambda>_. None), w_environ = (\<lambda>_. None), w_stat = (\<lambda>_. None), w_directory = (\<lambda>_. None),
     w_socket = (\<lambda>_ _. False)\<rparr>"

theorem environment_is_sessions_witness:
  "\<exists>e. session_environment (empty_world\<lparr>w_environ := (\<lambda>_. Some (joined [''A=1'', ''WAYLAND_DISPLAY=x'', ''B=2'']))\<rparr>)
     (\<lambda>_. True) 7 ''wayland-1'' = Some e \<and>
     environment_strings (se_slots e) = [''A=1'', ''B=2'', ''WAYLAND_DISPLAY=wayland-1'']"
proof -
  have "c_strings (joined [''A=1'', ''WAYLAND_DISPLAY=x'', ''B=2'']) = [''A=1'', ''WAYLAND_DISPLAY=x'', ''B=2'']"
    by (rule c_strings_joined) auto
  moreover have "take (MAX_ENVIRONMENT_BYTES - 1) (joined [''A=1'', ''WAYLAND_DISPLAY=x'', ''B=2'']) =
      joined [''A=1'', ''WAYLAND_DISPLAY=x'', ''B=2'']"
    by (simp add: MAX_ENVIRONMENT_BYTES_def joined_def)
  ultimately show ?thesis
    using environment_is_sessions [of "empty_world\<lparr>w_environ := (\<lambda>_. Some (joined [''A=1'', ''WAYLAND_DISPLAY=x'', ''B=2'']))\<rparr>"
      7 _ "\<lambda>_. True" "''wayland-1''"]
    by (auto simp: kept_entry_def)
qed

section \<open>The start time of the owner\<close>

definition show_int :: "int \<Rightarrow> string" where
  "show_int i = (if i < 0 then CHR ''-'' # show_nat (nat (- i)) else show_nat (nat i))"

lemma show_nat_hd: "\<exists>c cs. show_nat n = c # cs \<and> is_digit c"
  using show_nat_digits [of n] by (cases "show_nat n") auto

lemma digit_not: "is_digit c \<Longrightarrow> \<not> is_space c \<and> c \<noteq> CHR ''-'' \<and> c \<noteq> CHR ''+'' \<and> c \<noteq> CHR '' '' \<and> c \<noteq> CHR '')'' \<and> c \<noteq> CHR 0x0A"
  by (auto simp: is_digit_def is_space_def less_eq_char_def)

lemma show_nat_scan:
  assumes "r = [] \<or> \<not> is_digit (hd r)"
  shows "takeWhile is_digit (show_nat n @ r) = show_nat n" "dropWhile is_digit (show_nat n @ r) = r"
proof -
  have d: "\<forall>x \<in> set (show_nat n). is_digit x" using show_nat_digits [of n] by (simp add: list_all_iff)
  show "takeWhile is_digit (show_nat n @ r) = show_nat n" using d assms by (cases r) (auto simp: takeWhile_append2)
  show "dropWhile is_digit (show_nat n @ r) = r" using d assms by (cases r) (auto simp: dropWhile_append2)
qed

lemma strtoull_show_int:
  assumes "\<bar>i\<bar> < 2 ^ 64" "r = [] \<or> \<not> is_digit (hd r)"
  shows "strtoull (show_int i @ r) = (of_int i, r)"
proof (cases "i < 0")
  case True
  have "nat (- i) < 2 ^ 64" using assms(1) True by simp
  moreover have "scan_number (show_int i @ r) = (Some (True, show_nat (nat (- i))), r)"
    using True show_nat_scan [OF assms(2), of "nat (- i)"] show_nat_digits [of "nat (- i)"]
    by (simp add: scan_number_def show_int_def is_space_def Let_def)
  ultimately show ?thesis using True by (simp add: strtoull_def show_nat_value)
next
  case False
  obtain c cs where c: "show_nat (nat i) = c # cs" "is_digit c" using show_nat_hd by blast
  have "nat i < 2 ^ 64" using assms(1) False by simp
  moreover have "scan_number (show_int i @ r) = (Some (False, show_nat (nat i)), r)"
    using False show_nat_scan [OF assms(2), of "nat i"] c digit_not [OF c(2)]
    by (simp add: scan_number_def show_int_def Let_def)
  ultimately show ?thesis using False by (simp add: strtoull_def show_nat_value)
qed

text \<open>The line the kernel writes: the pid, the name in parentheses, the state, the other fields.\<close>

fun fields_text :: "int list \<Rightarrow> string" where
  "fields_text [] = [CHR 0x0A]"
| "fields_text [i] = show_int i @ [CHR 0x0A]"
| "fields_text (i # j # js) = show_int i @ CHR '' '' # fields_text (j # js)"

definition stat_line :: "nat \<Rightarrow> string \<Rightarrow> char \<Rightarrow> int list \<Rightarrow> string" where
  "stat_line pid comm state fs =
     show_nat pid @ '' ('' @ comm @ '') '' @ state # CHR '' '' # fields_text fs"

lemma show_int_hd: "\<exists>c cs. show_int i = c # cs \<and> c \<noteq> CHR '' ''"
  using show_nat_hd [of "nat i"] digit_not by (auto simp: show_int_def)

lemma fields_text_hd: "fs \<noteq> [] \<Longrightarrow> dropWhile (\<lambda>c. c = CHR '' '') (fields_text fs) = fields_text fs"
proof (cases fs rule: fields_text.cases)
  case (2 i)
  then show ?thesis using show_int_hd [of i] by auto
next
  case (3 i j js)
  then show ?thesis using show_int_hd [of i] by auto
qed simp

lemma stat_walk_fields:
  assumes "n < length fs" "\<And>i. i \<in> set fs \<Longrightarrow> \<bar>i\<bar> < 2 ^ 64"
  shows "stat_walk n (fields_text fs) = Some (of_int (fs ! n))"
  using assms
proof (induction n arbitrary: fs)
  case 0
  then obtain i js where fs: "fs = i # js" by (cases fs) auto
  have "\<exists>r. fields_text fs = show_int i @ r \<and> r \<noteq> [] \<and> \<not> is_digit (hd r)"
    by (cases js) (auto simp: fs is_digit_def less_eq_char_def)
  with 0 fs strtoull_show_int [of i] show ?case by auto
next
  case (Suc n)
  then obtain i j js where fs: "fs = i # j # js" by (cases fs rule: fields_text.cases) auto
  have "strtoull (fields_text fs) = (of_int i, CHR '' '' # fields_text (j # js))"
    using strtoull_show_int [of i "CHR '' '' # fields_text (j # js)"] Suc.prems(2) [of i]
    by (simp add: fs is_digit_def less_eq_char_def)
  then show ?case using Suc.IH [of "j # js"] Suc.prems by (simp add: fs fields_text_hd)
qed

lemma fields_text_chars: "c \<in> set (fields_text fs) \<Longrightarrow> c \<noteq> CHR '')''"
proof (induction fs rule: fields_text.induct)
  have d: "c \<in> set (show_int i) \<Longrightarrow> c \<noteq> CHR '')''" for i
    using show_nat_digits [of "nat i"] show_nat_digits [of "nat (- i)"] digit_not
    by (auto simp: show_int_def list_all_iff split: if_splits)
  { case 2 then show ?case using d by auto }
  { case 3 then show ?case using d by auto }
qed simp

lemma fields_text_line: "\<exists>t. fields_text fs = t @ [CHR 0x0A] \<and> CHR 0x0A \<notin> set t"
proof (induction fs rule: fields_text.induct)
  have d: "CHR 0x0A \<notin> set (show_int i)" for i
    using show_nat_digits [of "nat i"] show_nat_digits [of "nat (- i)"] digit_not
    by (auto simp: show_int_def list_all_iff)
  { case 2 then show ?case using d by auto }
  { case (3 i j js)
    then obtain t where "fields_text (j # js) = t @ [CHR 0x0A]" "CHR 0x0A \<notin> set t" by auto
    then show ?case using d [of i] by (auto intro!: exI [of _ "show_int i @ CHR '' '' # t"]) }
qed simp

lemma first_line_stat:
  assumes "CHR 0x0A \<notin> set comm" "state \<noteq> CHR 0x0A" "length (stat_line pid comm state fs) \<le> 511"
  shows "first_line 511 (stat_line pid comm state fs) = stat_line pid comm state fs"
proof -
  obtain t where t: "fields_text fs = t @ [CHR 0x0A]" "CHR 0x0A \<notin> set t" using fields_text_line by blast
  let ?u = "show_nat pid @ '' ('' @ comm @ '') '' @ state # CHR '' '' # t"
  have "CHR 0x0A \<notin> set ?u"
    using assms(1,2) t(2) show_nat_digits [of pid] digit_not by (auto simp: list_all_iff)
  moreover have s: "stat_line pid comm state fs = ?u @ [CHR 0x0A]" by (simp add: stat_line_def t(1))
  ultimately have "takeWhile (\<lambda>c. c \<noteq> CHR 0x0A) (stat_line pid comm state fs) = ?u"
    by (subst s, subst takeWhile_append2) auto
  with assms(3) s show ?thesis by (simp add: first_line_def)
qed

text \<open>C34: whatever the name of the process (parentheses and blanks included), the owner counts as alive
  exactly when the start time given on the command line is field 22 of the line the kernel wrote.\<close>

theorem owner_alive_iff_start_time:
  assumes "w_stat w pid = Some (stat_line n comm state fs)" "length (stat_line n comm state fs) \<le> 511"
    "CHR 0x0A \<notin> set comm" "state \<in> {CHR ''R'', CHR ''S'', CHR ''D'', CHR ''T'', CHR ''t'', CHR ''Z'', CHR ''X'', CHR ''I''}"
    "19 \<le> length fs" "\<And>i. i \<in> set fs \<Longrightarrow> \<bar>i\<bar> < 2 ^ 64"
  shows "owner_is_alive w pid t \<longleftrightarrow> t = of_int (fs ! 18)"
proof -
  have ne: "fs \<noteq> []" using assms(5) by auto
  let ?rest = "'' '' @ state # CHR '' '' # fields_text fs"
  have st: "\<not> is_space state" "\<not> is_digit state" "state \<noteq> CHR ''-''" "state \<noteq> CHR ''+''" "state \<noteq> CHR '')''" "state \<noteq> CHR 0x0A"
    using assms(4) by (auto simp: is_space_def is_digit_def less_eq_char_def)
  have line: "stat_line n comm state fs = (show_nat n @ '' ('' @ comm) @ CHR '')'' # ?rest" by (simp add: stat_line_def)
  have "CHR '')'' \<notin> set ?rest" using st(5) fields_text_chars by auto
  then have "takeWhile (\<lambda>c. c \<noteq> CHR '')'') (rev (stat_line n comm state fs)) = rev ?rest"
    unfolding line rev_append rev.simps(2) append_assoc by (subst takeWhile_append2) auto
  then have "after_last_paren (stat_line n comm state fs) = Some ?rest"
    by (simp add: after_last_paren_def line)
  moreover have "scan_number (state # CHR '' '' # fields_text fs) = (None, state # CHR '' '' # fields_text fs)"
    using st by (simp add: scan_number_def Let_def)
  then have "stat_walk (Suc 18) (state # CHR '' '' # fields_text fs) = stat_walk 18 (fields_text fs)"
    using fields_text_hd [of fs, OF ne] unfolding stat_walk.simps(2) Let_def by (auto simp: strtoull_def)
  then have "stat_walk 19 (state # CHR '' '' # fields_text fs) = stat_walk 18 (fields_text fs)" by simp
  moreover have "stat_line n comm state fs \<noteq> []" by (simp add: stat_line_def)
  ultimately show ?thesis
    using assms(1) first_line_stat [OF assms(3) st(6) assms(2)] stat_walk_fields [of 18 fs] assms(5,6)
    by (auto simp: owner_is_alive_def)
qed

theorem owner_alive_iff_start_time_witness:
  "owner_is_alive (empty_world\<lparr>w_stat := (\<lambda>_. Some (stat_line 42 ''a) b'' CHR ''S''
     [0,0,0,0,0,0,0,0,0,0,0,0,0,0,0,0,0,0,1234]))\<rparr>) 42 1234"
proof -
  let ?fs = "[0,0,0,0,0,0,0,0,0,0,0,0,0,0,0,0,0,0,1234] :: int list"
  have "length (stat_line 42 ''a) b'' CHR ''S'' ?fs) \<le> 511" by code_simp
  moreover have "\<bar>i\<bar> < 2 ^ 64" if "i \<in> set ?fs" for i using that by auto
  ultimately show ?thesis
    using owner_alive_iff_start_time [of "empty_world\<lparr>w_stat := (\<lambda>_. Some (stat_line 42 ''a) b'' CHR ''S'' ?fs))\<rparr>"
      42 42 "''a) b''" "CHR ''S''" ?fs 1234]
    by simp
qed

section \<open>Ending a session\<close>

lemma watch_loop_from:
  assumes "\<And>j. i \<le> j \<Longrightarrow> j < n \<Longrightarrow> owner_is_alive (worlds j) p t" "\<not> owner_is_alive (worlds n) p t" "i \<le> n"
  shows "watch_loop worlds p t i = Some n"
  using assms
proof (induction "n - i" arbitrary: i)
  case 0
  then show ?case by (subst watch_loop.simps) simp
next
  case (Suc d)
  then have "i < n" by simp
  with Suc show ?case by (subst watch_loop.simps) (auto simp: Suc_leI)
qed

lemma watch_loop_dead: "watch_loop worlds p t i = Some n \<Longrightarrow> \<not> owner_is_alive (worlds n) p t"
  by (induction rule: watch_loop.raw_induct [rotated, consumes 1]) (auto split: if_splits)

text \<open>For arguments the program accepts, the watch acts only after a poll found the owner gone, and
  then either stops the named container or signals the session's process group, whose number is above 1:
  never the supervisor's own group and never every process.\<close>

theorem watch_acts_safely:
  assumes "choose_mode args = Watch p t g c" "watch_owner worlds p t g c = Some actions"
  shows "1 < p \<and> (\<exists>n. \<not> owner_is_alive (worlds n) p t) \<and>
    ((\<exists>name. c = Some name \<and> name \<noteq> [] \<and> CHR ''/'' \<notin> set name \<and> actions = [Stop_container name]) \<or>
     (c = None \<and> 1 < g \<and> actions = [Kill (- g) 15, Sleep 250, Kill (- g) 9]))"
proof -
  obtain n where n: "watch_loop worlds p t 0 = Some n"
    using assms(2) by (auto simp: watch_owner_def split: option.splits)
  obtain q where "watch_mode q = Watch p t g c"
    using assms(1) by (auto simp: choose_mode_def observe_mode_def split: option.splits if_splits)
  then have "1 < p \<and> ((\<exists>name. c = Some name \<and> name \<noteq> [] \<and> CHR ''/'' \<notin> set name) \<or> (c = None \<and> 1 < g))"
    by (cases "op_stop_container q") (auto simp: watch_mode_def invalid_container_def split: if_splits dest: sym)
  with watch_loop_dead [OF n] assms(2) show ?thesis by (auto simp: watch_owner_def n)
qed

text \<open>When the owner is gone at some poll, the watch ends, at the first such poll.\<close>

theorem watch_ends:
  assumes "\<And>j. j < n \<Longrightarrow> owner_is_alive (worlds j) p t" "\<not> owner_is_alive (worlds n) p t"
  shows "watch_loop worlds p t 0 = Some n \<and> watch_owner worlds p t g c \<noteq> None"
proof -
  have "watch_loop worlds p t 0 = Some n" using assms by (intro watch_loop_from) auto
  then show ?thesis by (simp add: watch_owner_def split: option.splits)
qed

theorem watch_ends_witness: "watch_loop (\<lambda>_. empty_world) 42 7 0 = Some 0"
  using watch_ends [of 0 "\<lambda>_. empty_world" 42 7] by (simp add: owner_is_alive_def empty_world_def)

theorem watch_acts_safely_witness:
  "choose_mode [''--owner-pid'', ''42'', ''--owner-start-time'', ''7'', ''--pgid'', ''50''] = Watch 42 7 50 None \<and>
   watch_owner (\<lambda>_. empty_world) 42 7 50 None = Some [Kill (- 50) 15, Sleep 250, Kill (- 50) 9]"
proof -
  let ?args = "[''--owner-pid'', ''42'', ''--owner-start-time'', ''7'', ''--pgid'', ''50'']"
  have "strtol ''42'' = (42, False, [])" "strtoull ''7'' = (7, [])" "strtol ''50'' = (50, False, [])"
    by (simp_all add: strtol_def strtoull_def scan_number_def is_space_def is_digit_def less_eq_char_def
        digits_value_def digit_of_def LONG_MAX_def LONG_MIN_def)
  then have m: "choose_mode ?args = Watch 42 7 50 None"
    by (simp add: choose_mode_def watch_mode_def default_options_def to_pid_def in_i32_def)
  have "watch_loop (\<lambda>_. empty_world) 42 7 0 = Some 0"
    by (subst watch_loop.simps) (simp add: owner_is_alive_def empty_world_def)
  then obtain acts where a: "watch_owner (\<lambda>_. empty_world) 42 7 50 None = Some acts" by (simp add: watch_owner_def)
  with watch_acts_safely [OF m a] m show ?thesis by simp
qed

section \<open>Descendants\<close>

lemma descend_iff:
  "descend w n p a \<longleftrightarrow> (\<exists>k < n. (w_parent w ^^ k) p = a \<and> (\<forall>j < Suc k. 1 < (w_parent w ^^ j) p))"
proof (induction n arbitrary: p)
  case (Suc n)
  have "descend w (Suc n) p a \<longleftrightarrow> 1 < p \<and> (p = a \<or> descend w n (w_parent w p) a)" by simp
  also have "\<dots> \<longleftrightarrow> (\<exists>k < Suc n. (w_parent w ^^ k) p = a \<and> (\<forall>j < Suc k. 1 < (w_parent w ^^ j) p))"
    unfolding Ex_less_Suc2 All_less_Suc2 Suc.IH by (auto simp: funpow_Suc_right simp del: funpow.simps(2))
  finally show ?case .
qed simp

text \<open>A process counts as a descendant exactly when the ancestor is on its chain of parents within 64
  steps, with no process up to it being init or gone.\<close>

theorem descendant_iff_on_parent_chain:
  "is_descendant_of w p a \<longleftrightarrow> (\<exists>k < 64. (w_parent w ^^ k) p = a \<and> (\<forall>j \<le> k. 1 < (w_parent w ^^ j) p))"
  unfolding is_descendant_of_def descend_iff less_Suc_eq_le ..

theorem descendant_iff_on_parent_chain_witness:
  "is_descendant_of (empty_world\<lparr>w_parent := (\<lambda>p. if p = 9 then 5 else 1)\<rparr>) 9 5"
  by (rule descendant_iff_on_parent_chain [THEN iffD2], rule exI [of _ 1]) (simp add: le_Suc_eq)

section \<open>The observation\<close>

definition known_ok :: "string list \<Rightarrow> bool" where
  "known_ok known \<longleftrightarrow> distinct known \<and> length known \<le> MAX_KNOWN_SOCKETS"

lemma observe_entry_known: "known_ok known \<Longrightarrow> known_ok (observe_entry w mem d e known)"
  by (auto simp: known_ok_def observe_entry_def)

lemma observe_sockets_known: "known_ok known \<Longrightarrow> known_ok (observe_sockets w mem d known)"
proof -
  have "known_ok ks \<Longrightarrow> known_ok (fold (observe_entry w mem d) es ks)" for es ks
    by (induction es arbitrary: ks) (simp_all add: observe_entry_known)
  then show "known_ok known \<Longrightarrow> known_ok (observe_sockets w mem d known)"
    by (simp add: observe_sockets_def split: option.splits)
qed

fun is_launch :: "action \<Rightarrow> bool" where
  "is_launch (Launch _) \<longleftrightarrow> True"
| "is_launch _ \<longleftrightarrow> False"

text \<open>What an observation may do: start the shell and write the log.\<close>

fun harmless :: "action \<Rightarrow> bool" where
  "harmless (Kill _ _) \<longleftrightarrow> False"
| "harmless (Sleep _) \<longleftrightarrow> False"
| "harmless (Stop_container _) \<longleftrightarrow> False"
| "harmless _ \<longleftrightarrow> True"

definition launches :: "observation \<Rightarrow> nat" where
  "launches b = length (filter is_launch (ob_actions b))"

definition observation_ok :: "int \<Rightarrow> observation \<Rightarrow> bool" where
  "observation_ok limit b \<longleftrightarrow> known_ok (ob_known b) \<and> launches b \<le> of_bool (ob_finished b) \<and>
     -1 \<le> ob_socket_seen_at b \<and> (0 < launches b \<longrightarrow> PLASMA_GRACE_MS \<le> limit) \<and> list_all harmless (ob_actions b)"

lemma launch_at_most_one: "length (filter is_launch (snd (launch_plasmashell w mem fork session socket))) \<le> 1"
  by (simp add: launch_plasmashell_def split: option.splits)

lemma launch_harmless: "list_all harmless (snd (launch_plasmashell w mem fork session socket))"
  by (simp add: launch_plasmashell_def split: option.splits)

text \<open>The turn, once its searches are answered.\<close>

lemma observe_turn_ok:
  assumes "observation_ok limit b" "0 \<le> elapsed" "elapsed \<le> limit"
  shows "observation_ok limit (snd (observe_turn w names mem fork directory elapsed b))"
proof -
  define c where "c = b\<lparr>ob_known := observe_sockets w names directory (ob_known b)\<rparr>"
  have c: "observation_ok limit c"
    using assms(1) observe_sockets_known by (simp add: c_def observation_ok_def launches_def)
  let ?s = "find_process_named w ''plasma_session''"
  show ?thesis
  proof (cases "ob_finished c \<or> ?s = 0 \<or> find_nested_kwin_socket w ?s directory 256 = None")
    case True
    with c show ?thesis by (auto simp: observe_turn_def c_def [symmetric] Let_def)
  next
    case False
    then obtain kwin socket where k: "find_nested_kwin_socket w ?s directory 256 = Some (kwin, socket)" by auto
    define d where "d = (if ob_socket_seen_at c < 0
      then c\<lparr>ob_socket_seen_at := elapsed, ob_actions := ob_actions c @ [Log_matched ?s kwin socket]\<rparr> else c)"
    have d: "observation_ok limit d" "\<not> ob_finished d" "launches d = 0" "0 \<le> ob_socket_seen_at d"
      using c False assms(2) by (auto simp: d_def observation_ok_def launches_def)
    have "observe_turn w names mem fork directory elapsed b =
        (if kwin \<le> 0 then (False, c)
         else if 0 < find_process_named w ''plasmashell''
         then (False, d\<lparr>ob_finished := True, ob_actions := ob_actions d @ [Log_running]\<rparr>)
         else if PLASMA_GRACE_MS \<le> elapsed - ob_socket_seen_at d
         then (True, d\<lparr>ob_finished := True,
                ob_actions := ob_actions d @ snd (launch_plasmashell w mem fork ?s socket)\<rparr>)
         else (False, d))"
      using False k by (simp add: observe_turn_def c_def [symmetric] d_def [symmetric] Let_def)
    with c d assms(3) launch_at_most_one [of w mem fork ?s socket] launch_harmless [of w mem fork ?s socket] show ?thesis
      by (auto simp: observation_ok_def launches_def)
  qed
qed

lemma observe_loop_ok:
  assumes "observation_ok limit b"
  shows "observation_ok limit (observe_loop worlds running names mem fork directory limit i b)"
  using assms
proof (induction worlds running names mem fork directory limit i b rule: observe_loop.induct)
  case (1 worlds running names mem fork directory limit i b)
  show ?case
  proof (cases "\<not> running i \<or> limit < POLL_MS * int i")
    case True
    then show ?thesis using "1.prems" by (subst observe_loop.simps) simp
  next
    case False
    obtain br b1 where t: "observe_turn (worlds i) names mem fork directory (POLL_MS * int i) b = (br, b1)"
      by fastforce
    have "observation_ok limit b1"
      using observe_turn_ok [OF "1.prems", of "POLL_MS * int i" "worlds i" names mem fork directory] t False
      by (simp add: POLL_MS_def)
    with "1.IH" [of "(br, b1)" br b1] False t show ?thesis by (subst observe_loop.simps) auto
  qed
qed

text \<open>An observation ends, records at most 32 sockets and each of them once, and starts the fallback shell at
  most once, and never when the observation is shorter than the grace period; beside that it only writes the log.\<close>

theorem observation_bounded:
  "distinct (ob_known (observe worlds running names mem fork directory limit)) \<and>
   length (ob_known (observe worlds running names mem fork directory limit)) \<le> 32 \<and>
   launches (observe worlds running names mem fork directory limit) \<le> 1 \<and>
   (launches (observe worlds running names mem fork directory limit) = 0 \<or> 4000 \<le> limit) \<and>
   list_all harmless (ob_actions (observe worlds running names mem fork directory limit))"
proof -
  define b where "b = observe worlds running names mem fork directory limit"
  define c where "c = observe_loop worlds running names mem fork directory limit 0 initial_observation"
  have "observation_ok limit initial_observation"
    by (simp add: observation_ok_def initial_observation_def known_ok_def launches_def)
  then have "observation_ok limit c" unfolding c_def by (rule observe_loop_ok)
  then have "known_ok (ob_known c)" "launches c \<le> 1" "launches c = 0 \<or> 4000 \<le> limit" "list_all harmless (ob_actions c)"
    by (cases "ob_finished c"; auto simp: observation_ok_def PLASMA_GRACE_MS_def)+
  moreover have "ob_known b = ob_known c" "launches b = launches c" "list_all harmless (ob_actions b) = list_all harmless (ob_actions c)"
    by (simp_all add: b_def observe_def c_def [symmetric] Let_def launches_def)
  ultimately show ?thesis unfolding b_def [symmetric] by (simp add: known_ok_def MAX_KNOWN_SOCKETS_def)
qed

section \<open>The signal handler\<close>

text \<open>A termination signal that arrives after the fork and before the child is registered is lost for the
  child: nothing is sent to it, and the supervisor waits for it without a limit.\<close>

theorem stop_before_registration:
  assumes "su_managed_child s = 0"
  shows "su_signals (register_child child (stop s)) = su_signals s \<and>
    supervise_loop (\<lambda>_. register_child child (stop s)) wait i = Some Blocking_wait"
  using assms by (subst supervise_loop.simps) (simp add: register_child_def stop_def Let_def)

theorem stop_before_registration_witness:
  "su_signals (register_child 9 (stop \<lparr>su_running = True, su_managed_child = 0, su_signals = []\<rparr>)) = []"
  using stop_before_registration [of "\<lparr>su_running = True, su_managed_child = 0, su_signals = []\<rparr>" 9] by simp

end
