(* ===== verification/Supervisor_Main.thy ===== *)
theory Supervisor_Main
  imports Supervisor_Properties
begin

text \<open>
  The rest of \<^verbatim>\<open>session-supervisor/src/main.c\<close>: what it reads of \<^verbatim>\<open>/proc/<pid>/status\<close>, the processes it waits for, and \<^verbatim>\<open>main\<close>. A wait
  that is interrupted for ever does not return, so that the result is an option.
\<close>

section \<open>Processes\<close>

text \<open>The pieces \<^verbatim>\<open>fgets\<close> returns with a buffer of \<open>n + 1\<close> bytes.\<close>

lemma first_line_length: "n \<noteq> 0 \<Longrightarrow> cs \<noteq> [] \<Longrightarrow> 0 < length (first_line n cs)"
  by (cases cs) (auto simp: first_line_def)

function fgets_lines :: "nat \<Rightarrow> string \<Rightarrow> string list" where
  "fgets_lines n cs = (if n = 0 \<or> cs = [] then [] else first_line n cs # fgets_lines n (drop (length (first_line n cs)) cs))"
  by pat_completeness auto
termination
proof (relation "measure (length \<circ> snd)")
  show "\<not> (n = 0 \<or> cs = []) \<Longrightarrow> ((n, drop (length (first_line n cs)) cs), (n, cs)) \<in> measure (length \<circ> snd)" for n and cs :: string
    using first_line_length [of n cs] by auto
qed simp

declare fgets_lines.simps [simp del]

text \<open>\<^verbatim>\<open>sscanf(line, "PPid:\t%ld", &parsed)\<close>\<close>

definition scan_parent :: "string \<Rightarrow> int option" where
  "scan_parent line =
     (if take 5 line \<noteq> ''PPid:'' then None
      else let rest = dropWhile is_space (drop 5 line)
           in case strtol rest of (parsed, erange, end) \<Rightarrow> if end = rest then None else Some parsed)"

fun parent_line :: "string list \<Rightarrow> int" where
  "parent_line [] = 0"
| "parent_line (line # lines) = (case scan_parent line of Some parsed \<Rightarrow> to_pid parsed | None \<Rightarrow> parent_line lines)"

definition process_parent :: "string option \<Rightarrow> int" where
  "process_parent status = (case status of None \<Rightarrow> 0 | Some content \<Rightarrow> parent_line (fgets_lines 255 content))"

definition process_is_owned_by_current_user :: "nat option \<Rightarrow> nat \<Rightarrow> bool" where
  "process_is_owned_by_current_user owner uid \<longleftrightarrow> owner = Some uid"

text \<open>The lines a status file has, each with its newline and shorter than the buffer.\<close>

definition status_text :: "string list \<Rightarrow> string" where
  "status_text lines = concat (map (\<lambda>l. l @ [CHR 0x0A]) lines)"

lemma first_line_short:
  assumes "length l < n" "CHR 0x0A \<notin> set l"
  shows "first_line n (l @ CHR 0x0A # rest) = l @ [CHR 0x0A]"
proof -
  have "takeWhile (\<lambda>c. c \<noteq> CHR 0x0A) (l @ CHR 0x0A # rest) = l" using assms(2) by (induction l) auto
  then show ?thesis using assms(1) by (simp add: first_line_def)
qed

lemma fgets_status:
  "(\<And>l. l \<in> set lines \<Longrightarrow> length l < n \<and> CHR 0x0A \<notin> set l) \<Longrightarrow> fgets_lines n (status_text lines) = map (\<lambda>l. l @ [CHR 0x0A]) lines"
proof (induction lines)
  case Nil
  then show ?case by (simp add: status_text_def fgets_lines.simps)
next
  case (Cons l lines)
  then have l: "first_line n (l @ CHR 0x0A # status_text lines) = l @ [CHR 0x0A]" "0 < n"
    using Cons.prems [of l] by (auto intro: first_line_short dest: gr_implies_not0)
  have "status_text (l # lines) = l @ CHR 0x0A # status_text lines" by (simp add: status_text_def)
  then show ?case using l Cons by (simp add: fgets_lines.simps [of n "l @ _"])
qed

lemma strtol_show_nat:
  assumes "r = [] \<or> \<not> is_digit (hd r)" "int n \<le> LONG_MAX"
  shows "strtol (show_nat n @ r) = (int n, False, r)"
proof -
  obtain c cs where c: "show_nat n = c # cs" "is_digit c" using show_nat_hd by blast
  have "scan_number (show_nat n @ r) = (Some (False, show_nat n), r)"
    using show_nat_scan [OF assms(1), of n] c digit_not [OF c(2)] by (simp add: scan_number_def Let_def)
  then show ?thesis using assms(2) by (simp add: strtol_def show_nat_value LONG_MIN_def)
qed

text \<open>The kernel's line gives the parent, whatever the lines before it are.\<close>

lemma process_parent_reads:
  assumes "\<And>l. l \<in> set (before @ (''PPid:'' @ CHR 0x09 # show_nat p) # after) \<Longrightarrow> length l < 255 \<and> CHR 0x0A \<notin> set l"
    and "\<And>l. l \<in> set before \<Longrightarrow> take 5 (l @ [CHR 0x0A]) \<noteq> ''PPid:''" and "int p < 2 ^ 31"
  shows "process_parent (Some (status_text (before @ (''PPid:'' @ CHR 0x09 # show_nat p) # after))) = int p"
proof -
  let ?line = "''PPid:'' @ CHR 0x09 # show_nat p @ [CHR 0x0A]"
  have "dropWhile is_space (show_nat p @ [CHR 0x0A]) = show_nat p @ [CHR 0x0A]"
    using show_nat_hd [of p] digit_not by (auto simp: dropWhile_append)
  moreover have "strtol (show_nat p @ [CHR 0x0A]) = (int p, False, [CHR 0x0A])"
    using assms(3) by (intro strtol_show_nat) (simp_all add: is_digit_def less_eq_char_def LONG_MAX_def)
  ultimately have "scan_parent ?line = Some (int p)"
    using show_nat_hd [of p] by (auto simp: scan_parent_def is_space_def)
  then have "parent_line (?line # rest) = int p" for rest using assms(3) by (simp add: to_pid_def in_i32_def)
  moreover have "parent_line (map (\<lambda>l. l @ [CHR 0x0A]) before @ xs) = parent_line xs" for xs
    using assms(2) by (induction before) (simp_all add: scan_parent_def)
  ultimately have "parent_line (map (\<lambda>l. l @ [CHR 0x0A]) (before @ (''PPid:'' @ CHR 0x09 # show_nat p) # after)) = int p" by simp
  then show ?thesis unfolding process_parent_def by (subst option.case, subst fgets_status [OF assms(1)])
qed

section \<open>Waiting\<close>

text \<open>\<^verbatim>\<open>while (waitpid(child, &status, 0) < 0 && errno == EINTR) {}\<close>: the number of the call that was not interrupted.\<close>

partial_function (option) wait_loop :: "(nat \<Rightarrow> wait_result) \<Rightarrow> nat \<Rightarrow> nat option" where
  "wait_loop wait i = (if wait i = Wait_interrupted then wait_loop wait (Suc i) else Some i)"

lemma wait_loop_ends:
  assumes "wait n \<noteq> Wait_interrupted" "i \<le> n"
  shows "\<exists>k \<le> n. wait_loop wait i = Some k \<and> wait k \<noteq> Wait_interrupted"
  using assms(2)
proof (induction "n - i" arbitrary: i)
  case 0
  then show ?case using assms(1) by (subst wait_loop.simps) auto
next
  case (Suc d)
  then show ?case by (cases "wait i = Wait_interrupted") (subst wait_loop.simps, auto)+
qed

text \<open>
  What \<^verbatim>\<open>stop_droidspaces\<close> returns: the wait status of the command, 0 where the wait fails. \<open>fork\<close> is what \<^verbatim>\<open>fork\<close> returns to the parent.
\<close>

definition stop_droidspaces :: "int \<Rightarrow> (nat \<Rightarrow> wait_result) \<Rightarrow> int \<Rightarrow> string \<Rightarrow> (int \<times> action list) option" where
  "stop_droidspaces fork wait status container =
     (if fork < 0 then Some (1, [])
      else map_option (\<lambda>i. (if wait i = Wait_exited then status else 0, [Stop_container container])) (wait_loop wait 0))"

text \<open>
  \<^verbatim>\<open>supervise_child\<close>: \<open>at i\<close> and \<open>wait i\<close> are what the \<open>i\<close>-th poll sees, \<open>block\<close> answers the wait at the end. The variable \<^verbatim>\<open>managed_child\<close> is
  cleared on every way out.
\<close>

definition supervise_child :: "int \<Rightarrow> (supervision \<Rightarrow> nat \<Rightarrow> supervision) \<Rightarrow> (nat \<Rightarrow> wait_result) \<Rightarrow> (nat \<Rightarrow> wait_result) \<Rightarrow> supervision \<Rightarrow> supervised option" where
  "supervise_child child at wait block s =
     (case supervise_loop (at (register_child child s)) wait 0 of
        None \<Rightarrow> None
      | Some Blocking_wait \<Rightarrow> map_option (\<lambda>_. Blocking_wait) (wait_loop block 0)
      | Some r \<Rightarrow> Some r)"

section \<open>The program\<close>

text \<open>What the system answers: the log, the polls of the owner, the turns of the observation, and the processes.\<close>

record supervisor_answers =
  sa_log_opens :: bool
  sa_worlds :: "nat \<Rightarrow> world"
  sa_running :: "nat \<Rightarrow> bool"
  sa_names :: "string \<Rightarrow> bool"
  sa_mem :: "nat \<Rightarrow> bool"
  sa_fork :: int
  sa_at :: "supervision \<Rightarrow> nat \<Rightarrow> supervision"
  sa_wait :: "nat \<Rightarrow> wait_result"
  sa_block :: "nat \<Rightarrow> wait_result"
  sa_stop_status :: int

definition initial_supervision :: supervision where
  "initial_supervision = \<lparr>su_running = True, su_managed_child = 0, su_signals = []\<rparr>"

definition observe_session :: "supervisor_answers \<Rightarrow> string \<Rightarrow> int \<Rightarrow> (int \<times> action list) option" where
  "observe_session a directory limit =
     (let b = observe (sa_worlds a) (sa_running a) (sa_names a) (sa_mem a) (sa_fork a) directory limit
      in if 0 < launches b \<and> 0 < sa_fork a
         then map_option (\<lambda>_. (0, ob_actions b)) (supervise_child (sa_fork a) (sa_at a) (sa_wait a) (sa_block a) initial_supervision)
         else Some (0, ob_actions b))"

definition watch_session :: "supervisor_answers \<Rightarrow> int \<Rightarrow> u64 \<Rightarrow> int \<Rightarrow> string option \<Rightarrow> (int \<times> action list) option" where
  "watch_session a owner_pid owner_start_time session_pgid stop_container =
     (case watch_owner (sa_worlds a) owner_pid owner_start_time session_pgid stop_container of
        None \<Rightarrow> None
      | Some acts \<Rightarrow> (case stop_container of
            None \<Rightarrow> Some (0, acts)
          | Some name \<Rightarrow> stop_droidspaces (sa_fork a) (sa_block a) (sa_stop_status a) name))"

definition supervisor_main :: "string list \<Rightarrow> supervisor_answers \<Rightarrow> (int \<times> action list) option" where
  "supervisor_main args a = (case choose_mode args of
       Usage \<Rightarrow> Some (2, [])
     | Invalid \<Rightarrow> Some (2, [])
     | Watch p t g c \<Rightarrow> watch_session a p t g c
     | Observe directory log_path limit \<Rightarrow> if \<not> sa_log_opens a then Some (1, []) else observe_session a directory limit)"

section \<open>What the program does\<close>

lemma watch_mode_valid:
  assumes "choose_mode args = Watch p t g c"
  shows "1 < p \<and> ((\<exists>name. c = Some name \<and> \<not> invalid_container name) \<or> (c = None \<and> 1 < g))"
proof -
  obtain q where "watch_mode q = Watch p t g c"
    using assms by (auto simp: choose_mode_def observe_mode_def split: option.splits if_splits)
  then show ?thesis by (cases "op_stop_container q") (auto simp: watch_mode_def split: if_splits dest: sym)
qed

lemma watch_session_acts:
  assumes "watch_session a p t g c = Some (code, acts)" "c = None \<longrightarrow> 1 < g"
  shows "(\<exists>n. \<not> owner_is_alive (sa_worlds a n) p t) \<and>
    (case c of None \<Rightarrow> acts = [Kill (- g) 15, Sleep 250, Kill (- g) 9] | Some name \<Rightarrow> set acts \<subseteq> {Stop_container name})"
proof -
  obtain n where n: "watch_loop (sa_worlds a) p t 0 = Some n"
    using assms(1) by (auto simp: watch_session_def watch_owner_def split: option.splits)
  show ?thesis using watch_loop_dead [OF n] assms
    by (auto simp: watch_session_def watch_owner_def n stop_droidspaces_def split: option.splits if_splits)
qed


text \<open>The arguments of the witnesses, and a system whose owner is gone.\<close>

definition gone_answers :: supervisor_answers where
  "gone_answers = \<lparr>sa_log_opens = True, sa_worlds = \<lambda>_. empty_world, sa_running = \<lambda>_. True, sa_names = \<lambda>_. True, sa_mem = \<lambda>_. True, sa_fork = 8,
     sa_at = \<lambda>s _. s, sa_wait = \<lambda>_. Wait_exited, sa_block = \<lambda>_. Wait_exited, sa_stop_status = 256\<rparr>"

lemma watch_arguments:
  "choose_mode [''--owner-pid'', ''42'', ''--owner-start-time'', ''7'', ''--pgid'', ''50''] = Watch 42 7 50 None"
  "choose_mode [''--owner-pid'', ''42'', ''--owner-start-time'', ''7'', ''--stop-container'', ''x''] = Watch 42 7 0 (Some ''x'')"
proof -
  have n: "strtol ''42'' = (42, False, [])" "strtoull ''7'' = (7, [])" "strtol ''50'' = (50, False, [])"
    by (simp_all add: strtol_def strtoull_def scan_number_def is_space_def is_digit_def less_eq_char_def
        digits_value_def digit_of_def LONG_MAX_def LONG_MIN_def)
  show "choose_mode [''--owner-pid'', ''42'', ''--owner-start-time'', ''7'', ''--pgid'', ''50''] = Watch 42 7 50 None"
    using n by (simp add: choose_mode_def watch_mode_def default_options_def to_pid_def in_i32_def)
  show "choose_mode [''--owner-pid'', ''42'', ''--owner-start-time'', ''7'', ''--stop-container'', ''x''] = Watch 42 7 0 (Some ''x'')"
    using n by (simp add: choose_mode_def watch_mode_def default_options_def to_pid_def in_i32_def invalid_container_def)
qed

lemma gone_at_once: "watch_loop (sa_worlds gone_answers) 42 7 0 = Some 0"
  by (subst watch_loop.simps) (simp add: owner_is_alive_def empty_world_def gone_answers_def)


text \<open>The low byte of what \<^verbatim>\<open>main\<close> returns is the exit status, and the wait status of a process that has exited is its exit status times 256.\<close>

definition exit_status :: "int \<Rightarrow> int" where
  "exit_status r = r mod 256"

definition exited_status :: "int \<Rightarrow> int" where
  "exited_status code = code * 256"

text \<open>C36: the supervisor returns the wait status of the command that stops the container. Whatever the command's exit status, the supervisor then exits with 0: a container that
  could not be stopped looks as if it was.\<close>

theorem stop_failure_hidden:
  assumes "choose_mode args = Watch p t g (Some name)" "\<not> owner_is_alive (sa_worlds a 0) p t" "0 \<le> sa_fork a"
    "sa_block a 0 = Wait_exited" "sa_stop_status a = exited_status failure"
  shows "map_option (\<lambda>(r, acts). (exit_status r, acts)) (supervisor_main args a) = Some (0, [Stop_container name])"
proof -
  have "watch_loop (sa_worlds a) p t 0 = Some 0" using assms(2) by (subst watch_loop.simps) simp
  moreover have "wait_loop (sa_block a) 0 = Some 0" using assms(4) by (subst wait_loop.simps) simp
  ultimately show ?thesis using assms
    by (simp add: supervisor_main_def watch_session_def watch_owner_def stop_droidspaces_def exit_status_def exited_status_def)
qed

theorem stop_failure_hidden_witness:
  "map_option (\<lambda>(r, acts). (exit_status r, acts))
     (supervisor_main [''--owner-pid'', ''42'', ''--owner-start-time'', ''7'', ''--stop-container'', ''x''] gone_answers) = Some (0, [Stop_container ''x''])"
  by (rule stop_failure_hidden [OF watch_arguments(2), where failure = 1])
    (simp_all add: gone_answers_def owner_is_alive_def empty_world_def exited_status_def)

text \<open>An observation returns, once the shell it has started has ended.\<close>

lemma supervise_loop_ends:
  assumes "wait n = Wait_exited" "i \<le> n"
  shows "supervise_loop at wait i \<noteq> None"
  using assms(2)
proof (induction "n - i" arbitrary: i)
  case 0
  then show ?case using assms(1) by (subst supervise_loop.simps) auto
next
  case (Suc d)
  then have "supervise_loop at wait (Suc i) \<noteq> None" by simp
  then show ?case by (subst supervise_loop.simps) auto
qed

lemma observe_session_returns:
  assumes "sa_wait a n = Wait_exited" "sa_block a m \<noteq> Wait_interrupted"
  shows "\<exists>acts. observe_session a directory limit = Some (0, acts)"
proof -
  obtain r where r: "supervise_loop (sa_at a (register_child (sa_fork a) initial_supervision)) (sa_wait a) 0 = Some r"
    using supervise_loop_ends [where wait = "sa_wait a" and n = n and i = 0] assms(1) by auto
  obtain k where k: "wait_loop (sa_block a) 0 = Some k" using wait_loop_ends [where wait = "sa_block a" and n = m and i = 0] assms(2) by auto
  have "\<exists>q. supervise_child (sa_fork a) (sa_at a) (sa_wait a) (sa_block a) initial_supervision = Some q"
    by (cases r) (simp_all add: supervise_child_def r k)
  then show ?thesis by (auto simp: observe_session_def Let_def)
qed

end
