(* ===== verification/Input_Reader.thy ===== *)
theory Input_Reader
  imports C_Strings
begin

text \<open>
  The keyboard reader (\<^verbatim>\<open>input-reader/src/main.c\<close>): it finds external keyboards, reads their events, writes
  each key event as a frame to its standard output and, when it ends, releases the keys that are still
  pressed. One reader thread runs per slot of \<^verbatim>\<open>devices\<close>; the operations below are what the threads do
  between two calls of the system, under the locks.
\<close>

definition MAX_DEVICES :: nat where "MAX_DEVICES = 8"
definition FRAME_MAGIC :: u32 where "FRAME_MAGIC = 0x54524b42"
definition READER_POLL_MS :: int where "READER_POLL_MS = 250"
definition SCAN_MS :: int where "SCAN_MS = 1000"
definition KEY_MAX :: u16 where "KEY_MAX = 0x2ff"
definition EV_KEY :: u16 where "EV_KEY = 1"
definition KEY_Q :: nat where "KEY_Q = 16"
definition KEY_A :: nat where "KEY_A = 30"

section \<open>Frames\<close>

record input_event =
  ev_type :: u16
  ev_code :: u16
  ev_value :: u32
  ev_sec :: u64
  ev_usec :: u64

record key_frame =
  kf_magic :: u32
  kf_key :: u32
  kf_value :: u32
  kf_seconds :: u32
  kf_microseconds :: u32

definition frame_of :: "input_event \<Rightarrow> key_frame" where
  "frame_of e = \<lparr>kf_magic = FRAME_MAGIC, kf_key = ucast (ev_code e), kf_value = ev_value e,
     kf_seconds = ucast (ev_sec e), kf_microseconds = ucast (ev_usec e)\<rparr>"

text \<open>The bytes of the structure on a little-endian machine.\<close>

definition le32 :: "u32 \<Rightarrow> u8 list" where
  "le32 w = [ucast w, ucast (drop_bit 8 w), ucast (drop_bit 16 w), ucast (drop_bit 24 w)]"

definition frame_bytes :: "key_frame \<Rightarrow> u8 list" where
  "frame_bytes f = le32 (kf_magic f) @ le32 (kf_key f) @ le32 (kf_value f) @ le32 (kf_seconds f) @
     le32 (kf_microseconds f)"

text \<open>
  The loop of \<^verbatim>\<open>write_frame\<close>: \<open>writes i\<close> is the answer to the \<open>i\<close>-th call of \<^verbatim>\<open>write\<close>. The result
  is the success and the bytes that went out.
\<close>

datatype write_result = Written nat | Write_interrupted | Write_failed

partial_function (option) write_loop :: "(nat \<Rightarrow> write_result) \<Rightarrow> nat \<Rightarrow> u8 list \<Rightarrow> u8 list \<Rightarrow> (bool \<times> u8 list) option" where
  "write_loop writes i data out =
     (if data = [] then Some (True, out)
      else case writes i of
             Write_interrupted \<Rightarrow> write_loop writes (Suc i) data out
           | Write_failed \<Rightarrow> Some (False, out)
           | Written n \<Rightarrow>
               if n = 0 then Some (False, out)
               else write_loop writes (Suc i) (drop n data) (out @ take n data))"

definition write_frame :: "(nat \<Rightarrow> write_result) \<Rightarrow> input_event \<Rightarrow> (bool \<times> u8 list) option" where
  "write_frame writes e = write_loop writes 0 (frame_bytes (frame_of e)) []"

section \<open>Which devices are taken\<close>

definition has_key :: "u8 list option \<Rightarrow> nat \<Rightarrow> bool" where
  "has_key bits key = (case bits of None \<Rightarrow> False | Some bs \<Rightarrow> bit (bs ! (key div 8)) (key mod 8))"

text \<open>
  The answers of the device to the queries for its event types, keys, name and physical path; \<open>None\<close>
  is a query that failed.
\<close>

record device_info =
  di_events :: "u8 list option"
  di_keys :: "u8 list option"
  di_name :: "string option"
  di_phys :: "string option"

definition external_keyboard :: "device_info \<Rightarrow> bool" where
  "external_keyboard d =
     (case di_events d of None \<Rightarrow> False
      | Some bits \<Rightarrow>
          if \<not> bit (bits ! 0) 1 then False
          else if \<not> has_key (di_keys d) KEY_Q \<or> \<not> has_key (di_keys d) KEY_A then False
          else let name = (case di_name d of None \<Rightarrow> [] | Some n \<Rightarrow> n);
                   phys = (case di_phys d of None \<Rightarrow> [] | Some p \<Rightarrow> p)
               in if contains name ''gpio-keys'' \<or> contains name ''pmic'' \<or> contains name ''touch'' \<or>
                     contains name ''hall'' \<or> contains name ''uinput'' then False
                  else starts_with ''usb-'' phys \<or> CHR '':'' \<in> set phys)"

section \<open>State\<close>

record device =
  dv_path :: string
  dv_fd :: fd
  dv_active :: bool

record reader =
  rd_devices :: "device list"
  rd_pressed :: "bool list"
  rd_frames :: "key_frame list"
  rd_closed :: "fd list"

definition initial_reader :: reader where
  "initial_reader = \<lparr>rd_devices = replicate MAX_DEVICES \<lparr>dv_path = [], dv_fd = -1, dv_active = False\<rparr>,
     rd_pressed = replicate (unat KEY_MAX + 1) False, rd_frames = [], rd_closed = []\<rparr>"

definition already_active :: "string \<Rightarrow> reader \<Rightarrow> bool" where
  "already_active path s \<longleftrightarrow> list_ex (\<lambda>d. dv_active d \<and> dv_path d = path) (rd_devices s)"

fun free_slot :: "device list \<Rightarrow> nat option" where
  "free_slot [] = None"
| "free_slot (d # ds) = (if \<not> dv_active d \<and> dv_fd d < 0 then Some 0 else map_option Suc (free_slot ds))"

definition close_reader_fd :: "fd \<Rightarrow> reader \<Rightarrow> reader" where
  "close_reader_fd fd s = s\<lparr>rd_closed := fd # rd_closed s\<rparr>"

text \<open>
  One entry of \<^verbatim>\<open>scan_devices\<close>: \<open>fd\<close> is what \<^verbatim>\<open>open\<close> returns, \<open>thread_ok\<close> the success of
  \<^verbatim>\<open>pthread_create\<close>.
\<close>

definition scan_entry :: "string \<Rightarrow> fd \<Rightarrow> device_info \<Rightarrow> bool \<Rightarrow> reader \<Rightarrow> reader" where
  "scan_entry name fd info thread_ok s =
     (let path = ''/dev/input/'' @ name in
      if \<not> starts_with ''event'' name then s
      else if 4096 \<le> length path then s
      else if already_active path s then s
      else if fd < 0 then s
      else if \<not> external_keyboard info then close_reader_fd fd s
      else case free_slot (rd_devices s) of
             None \<Rightarrow> close_reader_fd fd s
           | Some i \<Rightarrow>
               if thread_ok
               then s\<lparr>rd_devices := (rd_devices s)[i := \<lparr>dv_path = path, dv_fd = fd, dv_active = True\<rparr>]\<rparr>
               else close_reader_fd fd
                 (s\<lparr>rd_devices := (rd_devices s)[i := \<lparr>dv_path = path, dv_fd = -1, dv_active = False\<rparr>]\<rparr>))"

section \<open>The reader threads\<close>

text \<open>
  The end of \<^verbatim>\<open>read_device\<close> for slot \<open>i\<close>, after a failed grab or when its loop is left.
\<close>

definition release_device :: "nat \<Rightarrow> reader \<Rightarrow> reader" where
  "release_device i s =
     (let d = rd_devices s ! i
      in (close_reader_fd (dv_fd d) s)\<lparr>rd_devices := (rd_devices s)[i := d\<lparr>dv_fd := -1, dv_active := False\<rparr>]\<rparr>)"

definition note_pressed :: "input_event \<Rightarrow> reader \<Rightarrow> reader" where
  "note_pressed e s = s\<lparr>rd_pressed := (rd_pressed s)[unat (ev_code e AND KEY_MAX) := (ev_value e \<noteq> 0)]\<rparr>"

text \<open>
  One event of the loop: whether the loop goes on, and the state. \<open>ok\<close> is the success of
  \<^verbatim>\<open>write_frame\<close>.
\<close>

definition read_event :: "bool \<Rightarrow> input_event \<Rightarrow> reader \<Rightarrow> bool \<times> reader" where
  "read_event ok e s =
     (if ev_type e \<noteq> EV_KEY then (True, s)
      else if \<not> ok then (False, s)
      else (True, note_pressed e (s\<lparr>rd_frames := rd_frames s @ [frame_of e]\<rparr>)))"

text \<open>
  What \<^verbatim>\<open>poll\<close> and \<^verbatim>\<open>read\<close> answer in one turn of the loop.
\<close>

datatype read_turn = Turn_idle | Turn_lost | Turn_event input_event

definition read_device_turn :: "nat \<Rightarrow> bool \<Rightarrow> read_turn \<Rightarrow> reader \<Rightarrow> reader" where
  "read_device_turn i ok t s = (case t of
       Turn_idle \<Rightarrow> s
     | Turn_lost \<Rightarrow> release_device i s
     | Turn_event e \<Rightarrow> (case read_event ok e s of (goes_on, s1) \<Rightarrow> if goes_on then s1 else release_device i s1))"

section \<open>The end\<close>

definition release_event :: "u64 \<times> u64 \<Rightarrow> nat \<Rightarrow> input_event" where
  "release_event now code = \<lparr>ev_type = EV_KEY, ev_code = of_nat code, ev_value = 0, ev_sec = fst now,
     ev_usec = snd now div 1000\<rparr>"

text \<open>\<open>ok code\<close> is the success of the frame for that key; the loop ends at the first failure.\<close>

fun release_loop :: "(nat \<Rightarrow> bool) \<Rightarrow> u64 \<times> u64 \<Rightarrow> nat list \<Rightarrow> reader \<Rightarrow> reader" where
  "release_loop ok now [] s = s"
| "release_loop ok now (code # codes) s =
     (if \<not> rd_pressed s ! code then release_loop ok now codes s
      else if \<not> ok code then s
      else release_loop ok now codes
        (s\<lparr>rd_frames := rd_frames s @ [frame_of (release_event now code)],
           rd_pressed := (rd_pressed s)[code := False]\<rparr>))"

definition release_pressed_keys :: "(nat \<Rightarrow> bool) \<Rightarrow> u64 \<times> u64 \<Rightarrow> reader \<Rightarrow> reader" where
  "release_pressed_keys ok now s = release_loop ok now [0..<unat KEY_MAX + 1] s"

text \<open>
  \<^verbatim>\<open>control_stdin_open\<close> on what \<^verbatim>\<open>poll\<close> and \<^verbatim>\<open>read\<close> answer; \<^verbatim>\<open>owner_alive\<close> on what \<^verbatim>\<open>kill(owner_pid, 0)\<close> answers.
\<close>

datatype stdin_poll = Poll_interrupted | Poll_error | Poll_nothing | Poll_hangup | Poll_other
  | Poll_readable (read_length: int) (read_retry: bool)

fun control_stdin_open :: "stdin_poll \<Rightarrow> bool" where
  "control_stdin_open Poll_interrupted = True"
| "control_stdin_open Poll_error = False"
| "control_stdin_open Poll_nothing = True"
| "control_stdin_open Poll_hangup = False"
| "control_stdin_open Poll_other = True"
| "control_stdin_open (Poll_readable n retry) =
     (if n = 0 then False else if n < 0 \<and> \<not> retry then False else True)"

definition owner_alive :: "int \<Rightarrow> bool \<Rightarrow> bool \<Rightarrow> bool" where
  "owner_alive owner_pid kill_ok permission = (if owner_pid \<le> 0 then True else if kill_ok then True else permission)"

text \<open>
  The pause between two scans. \<^verbatim>\<open>nanosleep\<close> refuses a time whose nanoseconds are not below \<open>10\<^sup>9\<close>,
  and does not sleep then.
\<close>

definition scan_delay :: "int \<times> int" where
  "scan_delay = (0, SCAN_MS * 1000000)"

definition settle_delay :: "int \<times> int" where
  "settle_delay = (0, READER_POLL_MS * 1000000)"

definition nanosleep_accepts :: "int \<times> int \<Rightarrow> bool" where
  "nanosleep_accepts t \<longleftrightarrow> 0 \<le> fst t \<and> 0 \<le> snd t \<and> snd t < 1000000000"

end
