(* ===== verification/Reader_Properties.thy ===== *)
theory Reader_Properties
  imports Input_Reader
begin

text \<open>
  What the keyboard reader guarantees: the frames are read back as they were written, the slots never hold a
  keyboard twice, and the keys a consumer believes to be pressed are released at the end; and what the index
  \<^verbatim>\<open>code & KEY_MAX\<close> does to the keys above it.
\<close>

section \<open>Frames\<close>

definition from_le32 :: "u8 list \<Rightarrow> u32" where
  "from_le32 bs = ucast (bs ! 0) OR push_bit 8 (ucast (bs ! 1)) OR push_bit 16 (ucast (bs ! 2)) OR
     push_bit 24 (ucast (bs ! 3))"

definition read_frame :: "u8 list \<Rightarrow> key_frame" where
  "read_frame bs = \<lparr>kf_magic = from_le32 bs, kf_key = from_le32 (drop 4 bs), kf_value = from_le32 (drop 8 bs),
     kf_seconds = from_le32 (drop 12 bs), kf_microseconds = from_le32 (drop 16 bs)\<rparr>"

lemma length_le32 [simp]: "length (le32 w) = 4"
  by (simp add: le32_def)

lemma from_le32 [simp]: "from_le32 (le32 w @ bs) = w" "from_le32 (le32 w) = w"
proof -
  show "from_le32 (le32 w @ bs) = w" for bs
  proof (rule bit_word_eqI)
    fix n assume "n < LENGTH(32)"
    then consider "n < 8" | "8 \<le> n" "n < 16" | "16 \<le> n" "n < 24" | "24 \<le> n" "n < 32" by fastforce
    then show "bit (from_le32 (le32 w @ bs)) n = bit w n"
      by cases (auto simp: from_le32_def le32_def bit_simps)
  qed
  from this [of "[]"] show "from_le32 (le32 w) = w" by simp
qed

lemma read_frame_bytes: "read_frame (frame_bytes f) = f"
  by (cases f) (simp add: read_frame_def frame_bytes_def)

text \<open>The loop sends a prefix of the data, and all of it when it succeeds.\<close>

lemma write_loop_prefix:
  "write_loop writes i data out = Some r \<Longrightarrow> \<exists>n. snd r = out @ take n data \<and> (fst r \<longrightarrow> snd r = out @ data)"
proof (induction rule: write_loop.raw_induct [rotated, consumes 1, case_names step])
  case (step wl writes i data out r)
  show ?case
  proof (cases "data = [] \<or> writes i = Write_failed \<or> writes i = Written 0")
    case True
    with step.hyps show ?thesis by (auto intro!: exI [of _ 0] split: if_splits)
  next
    case False
    then consider "writes i = Write_interrupted" "wl writes (Suc i) data out = Some r"
      | n where "writes i = Written n" "wl writes (Suc i) (drop n data) (out @ take n data) = Some r"
      using step.hyps by (cases "writes i") auto
    then show ?thesis
    proof cases
      case 1
      then show ?thesis using step.IH by blast
    next
      case 2
      from step.IH [OF 2(2)] obtain k where "snd r = (out @ take n data) @ take k (drop n data)"
        "fst r \<longrightarrow> snd r = (out @ take n data) @ drop n data"
        by blast
      then show ?thesis by (auto intro!: exI [of _ "n + k"] simp: take_add)
    qed
  qed
qed

lemma write_loop_progress:
  assumes "\<And>j. i \<le> j \<Longrightarrow> \<exists>n. writes j = Written n \<and> 0 < n"
  shows "write_loop writes i data out = Some (True, out @ data)"
  using assms
proof (induction "length data" arbitrary: i data out rule: less_induct)
  case less
  obtain n where n: "writes i = Written n" "0 < n" using less.prems by blast
  show ?case
  proof (cases "data = []")
    case False
    then have "length (drop n data) < length data" using n(2) by (cases data) auto
    from less.hyps [OF this, of "Suc i" "out @ take n data"] less.prems n False show ?thesis
      by (subst write_loop.simps) auto
  qed (simp add: write_loop.simps)
qed

text \<open>What \<^verbatim>\<open>write_frame\<close> has sent is always a prefix of the frame; when it reports success the whole frame went
  out, and reading it back gives the magic number and the event's code, value and time. When every call
  of \<^verbatim>\<open>write\<close> makes progress it does succeed, however short the writes are.\<close>

theorem write_frame_roundtrip:
  "(write_frame writes e = Some (ok, sent) \<longrightarrow> (\<exists>n. sent = take n (frame_bytes (frame_of e))) \<and>
      (ok \<longrightarrow> read_frame sent = frame_of e)) \<and>
   ((\<forall>j. \<exists>n. writes j = Written n \<and> 0 < n) \<longrightarrow> write_frame writes e = Some (True, frame_bytes (frame_of e)))"
proof (intro conjI impI)
  assume w: "write_frame writes e = Some (ok, sent)"
  from write_loop_prefix [OF this [unfolded write_frame_def]] show "\<exists>n. sent = take n (frame_bytes (frame_of e))"
    by auto
  show "read_frame sent = frame_of e" if ok
    using write_loop_prefix [OF w [unfolded write_frame_def]] that by (auto simp: read_frame_bytes)
next
  assume "\<forall>j. \<exists>n. writes j = Written n \<and> 0 < n"
  then show "write_frame writes e = Some (True, frame_bytes (frame_of e))"
    using write_loop_progress [of 0 writes "frame_bytes (frame_of e)" "[]"] by (simp add: write_frame_def)
qed

theorem write_frame_roundtrip_witness:
  "write_frame (\<lambda>_. Written 3) \<lparr>ev_type = 1, ev_code = 30, ev_value = 1, ev_sec = 5, ev_usec = 6\<rparr> =
     Some (True, frame_bytes (frame_of \<lparr>ev_type = 1, ev_code = 30, ev_value = 1, ev_sec = 5, ev_usec = 6\<rparr>))"
  using write_frame_roundtrip [of "\<lambda>_. Written 3" "\<lparr>ev_type = 1, ev_code = 30, ev_value = 1, ev_sec = 5, ev_usec = 6\<rparr>"]
  by simp

section \<open>Pressed keys\<close>

text \<open>The keys a consumer of the frames believes to be pressed.\<close>

definition held_step :: "key_frame \<Rightarrow> u32 set \<Rightarrow> u32 set" where
  "held_step f H = (if kf_value f = 0 then H - {kf_key f} else insert (kf_key f) H)"

definition held :: "key_frame list \<Rightarrow> u32 set" where
  "held fs = fold held_step fs {}"

lemma held_snoc [simp]: "held (fs @ [f]) = held_step f (held fs)"
  by (simp add: held_def)

text \<open>The key numbers the table tells apart: the bits of \<^verbatim>\<open>KEY_MAX\<close> only.\<close>

definition plain_key :: "u16 \<Rightarrow> bool" where
  "plain_key code \<longleftrightarrow> code AND KEY_MAX = code"

definition key_of :: "nat \<Rightarrow> u32" where
  "key_of code = ucast (of_nat code :: u16)"

definition table_ok :: "reader \<Rightarrow> bool" where
  "table_ok s \<longleftrightarrow> length (rd_pressed s) = 768 \<and>
     held (rd_frames s) = key_of ` {c. c < 768 \<and> rd_pressed s ! c}"

lemma KEY_MAX_768 [simp]: "unat KEY_MAX = 767"
  by (simp add: KEY_MAX_def)

lemma ucast16_inj: "(ucast (a :: u16) :: u32) = ucast b \<longleftrightarrow> a = b"
proof
  assume "(ucast a :: u32) = ucast b"
  then have "(ucast (ucast a :: u32) :: u16) = ucast (ucast b :: u32)" by simp
  then show "a = b" by (simp add: bit_eq_iff bit_simps)
qed simp

lemma key_of_unat: "key_of (unat (c :: u16)) = ucast c"
proof -
  have "bit c n \<Longrightarrow> n < 16" for n using bit_imp_le_length [of c n] by simp
  then show ?thesis by (auto simp: key_of_def bit_eq_iff bit_simps)
qed

lemma key_of_inj: "inj_on key_of {..<768}"
proof (rule inj_onI)
  fix c d :: nat assume c: "c \<in> {..<768}" "d \<in> {..<768}" and "key_of c = key_of d"
  then have "unat (of_nat c :: u16) = unat (of_nat d :: u16)" by (simp add: key_of_def ucast16_inj)
  with c show "c = d" by (simp add: unat_of_nat)
qed

lemma masked_less: "unat (c AND KEY_MAX) < 768"
proof -
  have "c AND KEY_MAX \<le> KEY_MAX" by (rule word_and_le1)
  then have "unat (c AND KEY_MAX) \<le> unat KEY_MAX" by (simp add: word_le_nat_alt)
  then show ?thesis by simp
qed

lemma plain_less: "plain_key c \<Longrightarrow> unat c < 768"
  using masked_less [of c] by (simp add: plain_key_def)

lemma table_upd:
  assumes "table_ok s" "c < 768" and key: "kf_key f = key_of c"
  shows "table_ok (s\<lparr>rd_frames := rd_frames s @ [f], rd_pressed := (rd_pressed s)[c := (kf_value f \<noteq> 0)]\<rparr>)"
proof -
  have "key_of ` ({d. d < 768 \<and> rd_pressed s ! d} - {c}) = key_of ` {d. d < 768 \<and> rd_pressed s ! d} - {key_of c}"
    using inj_on_image_set_diff [OF key_of_inj, of "{d. d < 768 \<and> rd_pressed s ! d}" "{c}"] assms(2) by auto
  moreover have "{d. d < 768 \<and> (rd_pressed s)[c := b] ! d} =
      (if b then insert c {d. d < 768 \<and> rd_pressed s ! d} else {d. d < 768 \<and> rd_pressed s ! d} - {c})" for b
    using assms by (auto simp: table_ok_def nth_list_update)
  ultimately show ?thesis using assms(1) key by (auto simp: table_ok_def held_step_def)
qed

lemma initial_table: "table_ok initial_reader"
  by (simp add: table_ok_def initial_reader_def held_def)

lemma read_event_table:
  assumes "table_ok s" "ev_type e = EV_KEY \<Longrightarrow> plain_key (ev_code e)"
  shows "table_ok (snd (read_event ok e s))"
proof (cases "ev_type e = EV_KEY \<and> ok")
  case True
  then have p: "plain_key (ev_code e)" using assms(2) by simp
  have "table_ok (s\<lparr>rd_frames := rd_frames s @ [frame_of e],
      rd_pressed := (rd_pressed s)[unat (ev_code e) := (kf_value (frame_of e) \<noteq> 0)]\<rparr>)"
    using table_upd [OF assms(1) plain_less [OF p], of "frame_of e"] by (simp add: frame_of_def key_of_unat)
  with True p show ?thesis by (simp add: read_event_def note_pressed_def plain_key_def frame_of_def)
qed (use assms in \<open>auto simp: read_event_def\<close>)

lemma release_loop_table:
  assumes "table_ok s" "\<And>c. c \<in> set codes \<Longrightarrow> c < 768 \<and> ok c"
  shows "table_ok (release_loop ok now codes s) \<and>
    (\<forall>c < 768. rd_pressed (release_loop ok now codes s) ! c \<longrightarrow> rd_pressed s ! c \<and> c \<notin> set codes)"
  using assms
proof (induction codes arbitrary: s)
  case (Cons code codes)
  show ?case
  proof (cases "rd_pressed s ! code")
    case True
    define t where "t = s\<lparr>rd_frames := rd_frames s @ [frame_of (release_event now code)], rd_pressed := (rd_pressed s)[code := False]\<rparr>"
    have "kf_key (frame_of (release_event now code)) = key_of code" "kf_value (frame_of (release_event now code)) = 0"
      by (simp_all add: frame_of_def release_event_def key_of_def)
    then have "table_ok t" 
      using table_upd [OF Cons.prems(1), of code "frame_of (release_event now code)"] Cons.prems(2) by (simp add: t_def)
    from Cons.IH [OF this] Cons.prems True show ?thesis
      by (auto simp: t_def table_ok_def nth_list_update split: if_splits)
  next
    case False
    with Cons.IH [OF Cons.prems(1)] Cons.prems show ?thesis by auto
  qed
qed simp

text \<open>The readers' turns for keys the table tells apart.\<close>

inductive key_step :: "reader \<Rightarrow> reader \<Rightarrow> bool" where
  scan: "key_step s (scan_entry name fd info thread_ok s)"
| turn: "(\<And>e. t = Turn_event e \<Longrightarrow> ev_type e = EV_KEY \<Longrightarrow> plain_key (ev_code e)) \<Longrightarrow>
    key_step s (read_device_turn i ok t s)"

lemma table_frame:
  "table_ok (close_reader_fd fd s) = table_ok s" "table_ok (s\<lparr>rd_devices := ds\<rparr>) = table_ok s"
  "table_ok (release_device i s) = table_ok s"
  by (simp_all add: table_ok_def close_reader_fd_def release_device_def Let_def)

lemma key_step_table: "key_step s s' \<Longrightarrow> table_ok s \<Longrightarrow> table_ok s'"
proof (induction rule: key_step.induct)
  case (turn t s i ok)
  show ?case
  proof (cases t)
    case (Turn_event e)
    have "table_ok (snd (read_event ok e s))" using turn Turn_event by (intro read_event_table) auto
    with Turn_event show ?thesis
      by (cases "read_event ok e s") (simp add: read_device_turn_def table_frame)
  qed (use turn in \<open>simp_all add: read_device_turn_def table_frame\<close>)
qed (simp add: scan_entry_def table_frame Let_def split: option.splits)

interpretation keys: transition_system key_step table_ok
  by unfold_locales (rule key_step_table)

text \<open>Where every frame can be written, the loop at the end releases every key of the table.\<close>

lemma all_released:
  assumes "table_ok s" "\<And>c. ok c"
  shows "held (rd_frames (release_pressed_keys ok now s)) = {}"
proof -
  have "table_ok (release_pressed_keys ok now s) \<and>
      (\<forall>c < 768. rd_pressed (release_pressed_keys ok now s) ! c \<longrightarrow> rd_pressed s ! c \<and> c \<notin> set [0..<768])"
    using release_loop_table [OF assms(1), of "[0..<768]" ok now] assms(2) by (simp add: release_pressed_keys_def)
  then show ?thesis by (auto simp: table_ok_def)
qed

lemma release_loop_devices [simp]: "rd_devices (release_loop ok now codes s) = rd_devices s"
  by (induction ok now codes s rule: release_loop.induct) simp_all

definition press :: "u16 \<Rightarrow> input_event" where
  "press code = \<lparr>ev_type = EV_KEY, ev_code = code, ev_value = 1, ev_sec = 0, ev_usec = 0\<rparr>"

lemma release_loop_keeps:
  assumes "k \<in> held (rd_frames s)" "\<And>c. c \<in> set codes \<Longrightarrow> rd_pressed s ! c \<Longrightarrow> key_of c \<noteq> k"
  shows "k \<in> held (rd_frames (release_loop ok now codes s))"
  using assms
proof (induction codes arbitrary: s)
  case (Cons code codes)
  let ?t = "s\<lparr>rd_frames := rd_frames s @ [frame_of (release_event now code)], rd_pressed := (rd_pressed s)[code := False]\<rparr>"
  have "k \<in> held (rd_frames (release_loop ok now codes ?t))" if "rd_pressed s ! code"
  proof (rule Cons.IH)
    show "k \<in> held (rd_frames ?t)"
      using Cons.prems that by (auto simp: held_step_def frame_of_def release_event_def key_of_def)
    show "key_of c \<noteq> k" if "c \<in> set codes" "rd_pressed ?t ! c" for c
      using Cons.prems(2) [of c] that
      by (cases "c = code"; cases "code < length (rd_pressed s)") (auto simp: list_update_beyond)
  qed
  then show ?case using Cons by auto
qed simp

text \<open>A key number outside the table's bits (0x100 to 0x1ff among them) is recorded under another key. Pressed and
  never released, it stays pressed for the consumer: at the end the helper releases the other key instead.\<close>

theorem aliased_key_stays_held:
  assumes "\<not> plain_key code"
  shows "ucast code \<in> held (rd_frames (release_pressed_keys ok now (snd (read_event True (press code) initial_reader))))"
  unfolding release_pressed_keys_def
proof (rule release_loop_keeps)
  let ?s = "snd (read_event True (press code) initial_reader)"
  show "ucast code \<in> held (rd_frames ?s)"
    by (simp add: read_event_def note_pressed_def press_def initial_reader_def held_def held_step_def frame_of_def)
  fix c assume c: "c \<in> set [0..<unat KEY_MAX + 1]" "rd_pressed ?s ! c"
  then have "c = unat (code AND KEY_MAX)"
    using masked_less [of code]
    by (auto simp: read_event_def note_pressed_def press_def initial_reader_def nth_list_update split: if_splits)
  then have "key_of c = ucast (code AND KEY_MAX)" by (simp add: key_of_unat)
  then show "key_of c \<noteq> ucast code" using assms by (auto simp: plain_key_def ucast16_inj)
qed

theorem aliased_key_stays_held_witness:
  "0x160 \<in> held (rd_frames (release_pressed_keys (\<lambda>_. True) (0, 0)
     (snd (read_event True (press 0x160) initial_reader))))"
  using aliased_key_stays_held [of "0x160" "\<lambda>_. True" "(0, 0)"] by (simp add: plain_key_def KEY_MAX_def)

section \<open>Slots\<close>

definition slot_ok :: "device \<Rightarrow> bool" where
  "slot_ok d \<longleftrightarrow> dv_active d = (0 \<le> dv_fd d)"

definition slots_ok :: "reader \<Rightarrow> bool" where
  "slots_ok s \<longleftrightarrow> length (rd_devices s) = MAX_DEVICES \<and> list_all slot_ok (rd_devices s) \<and>
     distinct (map dv_path (filter dv_active (rd_devices s)))"

lemma free_slot_bound: "free_slot ds = Some i \<Longrightarrow> i < length ds \<and> \<not> dv_active (ds ! i)"
  by (induction ds arbitrary: i) (auto split: if_splits)

lemma active_update:
  assumes "i < length ds" "\<not> dv_active (ds ! i)"
  shows "mset (map dv_path (filter dv_active (ds[i := d]))) =
    (if dv_active d then {#dv_path d#} else {#}) + mset (map dv_path (filter dv_active ds))"
  using assms
proof (induction ds arbitrary: i)
  case (Cons e ds)
  then show ?case by (cases i) auto
qed simp

lemma scan_slots:
  assumes "slots_ok s"
  shows "slots_ok (scan_entry name fd info thread_ok s)"
proof -
  have frame: "slots_ok (close_reader_fd fd s') = slots_ok s'" for s' fd
    by (simp add: slots_ok_def close_reader_fd_def)
  have ins: "slots_ok (s\<lparr>rd_devices := (rd_devices s)[i := d]\<rparr>)"
    if "free_slot (rd_devices s) = Some i" "slot_ok d" "\<not> already_active (dv_path d) s" for i d
  proof -
    have i: "i < length (rd_devices s)" "\<not> dv_active (rd_devices s ! i)" using free_slot_bound that(1) by blast+
    have "dv_path d \<notin> set (map dv_path (filter dv_active (rd_devices s)))"
      using that(3) by (auto simp: already_active_def list_ex_iff)
    then have "distinct (map dv_path (filter dv_active ((rd_devices s)[i := d])))"
      using mset_eq_imp_distinct_iff [of "map dv_path (filter dv_active ((rd_devices s)[i := d]))"
        "(if dv_active d then [dv_path d] else []) @ map dv_path (filter dv_active (rd_devices s))"]
        active_update [OF i, of d] assms unfolding slots_ok_def by (cases "dv_active d") simp_all
    moreover have "list_all slot_ok ((rd_devices s)[i := d])"
      using assms that(2) by (auto simp: slots_ok_def list_all_iff dest: set_update_subset_insert [THEN subsetD])
    ultimately show ?thesis using assms by (simp add: slots_ok_def)
  qed
  show ?thesis
    using assms ins by (auto simp: scan_entry_def frame Let_def slot_ok_def split: option.splits)
qed

lemma release_slots:
  assumes "slots_ok s" "i < MAX_DEVICES"
  shows "slots_ok (release_device i s)"
proof -
  let ?d = "rd_devices s ! i"
  let ?e = "?d\<lparr>dv_fd := -1, dv_active := False\<rparr>"
  have l: "length (rd_devices s) = MAX_DEVICES" using assms(1) by (simp add: slots_ok_def)
  have "distinct (map dv_path (filter dv_active (xs[j := e])))"
    if "distinct (map dv_path (filter dv_active xs))" "\<not> dv_active e" for xs j and e :: device
    using that
  proof (induction xs arbitrary: j)
    case (Cons x xs)
    have "set (filter dv_active (xs[k := e])) \<subseteq> set (filter dv_active xs)" for k
      using that(2) set_update_subset_insert [of xs k e] by auto
    with Cons show ?case by (cases j) (auto split: if_splits)
  qed simp
  moreover have "list_all slot_ok ((rd_devices s)[i := ?e])"
    using assms(1) by (auto simp: slots_ok_def list_all_iff slot_ok_def dest: set_update_subset_insert [THEN subsetD])
  ultimately show ?thesis
    using assms(1) by (simp add: slots_ok_def release_device_def close_reader_fd_def Let_def)
qed

text \<open>The steps of the scanner and of the readers of the eight slots, whatever the keys.\<close>

inductive reader_step :: "reader \<Rightarrow> reader \<Rightarrow> bool" where
  scan: "reader_step s (scan_entry name fd info thread_ok s)"
| turn: "i < MAX_DEVICES \<Longrightarrow> reader_step s (read_device_turn i ok t s)"

lemma reader_step_slots: "reader_step s s' \<Longrightarrow> slots_ok s \<Longrightarrow> slots_ok s'"
proof (induction rule: reader_step.induct)
  case (turn i s ok t)
  have "slots_ok (snd (read_event ok e s))" for e
    using turn.prems by (simp add: read_event_def note_pressed_def slots_ok_def)
  with turn release_slots show ?case
    by (auto simp: read_device_turn_def split: read_turn.splits prod.splits) (metis snd_conv)+
qed (rule scan_slots)

interpretation readers: transition_system reader_step slots_ok
  by unfold_locales (rule reader_step_slots)

lemma initial_slots: "slots_ok initial_reader"
  by (simp add: slots_ok_def initial_reader_def slot_ok_def MAX_DEVICES_def list_all_iff)



section \<open>The pause between scans\<close>

text \<open>The time the helper passes to \<^verbatim>\<open>nanosleep\<close> between two scans is not a valid one (its nanoseconds are
  \<open>10\<^sup>9\<close>), so the call fails at once and the scans follow each other without a pause; the final
  settling time is valid.\<close>

lemma scan_delay_invalid: "\<not> nanosleep_accepts scan_delay \<and> nanosleep_accepts settle_delay"
  by (simp add: nanosleep_accepts_def scan_delay_def settle_delay_def SCAN_MS_def READER_POLL_MS_def)

end
