(* ===== verification/Reader_Main.thy ===== *)
theory Reader_Main
  imports Reader_Properties
begin

text \<open>
  \<^verbatim>\<open>main\<close> of the input reader (\<^verbatim>\<open>input-reader/src/main.c\<close>): the options, the loop of scans and the end. The reader threads run beside it; their
  turns are placed before the entries of a scan, in the pause after it and in the time the readers get to settle.
\<close>

section \<open>Options\<close>

datatype reader_start = Go int bool | Leave int

fun parse_reader :: "string list \<Rightarrow> int \<Rightarrow> bool \<Rightarrow> reader_start" where
  "parse_reader [] owner verbose = Go owner verbose"
| "parse_reader (a # args) owner verbose =
     (case (a = ''--owner-pid'', args) of
        (True, pid # rest) \<Rightarrow> parse_reader rest (to_pid (fst (strtol pid))) verbose
      | _ \<Rightarrow>
          if a = ''--verbose'' then parse_reader args owner True
          else if a = ''--help'' \<or> a = ''-h'' then Leave 0
          else Leave 2)"

section \<open>The loop\<close>

text \<open>A turn of the thread of a slot; a slot without a thread takes none.\<close>

type_synonym thread_turn = "nat \<times> bool \<times> read_turn"

definition thread_turn :: "thread_turn \<Rightarrow> reader \<Rightarrow> reader" where
  "thread_turn tt s = (case tt of (i, ok, t) \<Rightarrow>
     if i < MAX_DEVICES \<and> dv_active (rd_devices s ! i) then read_device_turn i ok t s else s)"

definition thread_turns :: "thread_turn list \<Rightarrow> reader \<Rightarrow> reader" where
  "thread_turns ts s = fold thread_turn ts s"

text \<open>An entry of the directory with what is answered for it; a signal may come before it is looked at.\<close>

record scan_item =
  sc_turns :: "thread_turn list"
  sc_signal :: bool
  sc_name :: string
  sc_fd :: fd
  sc_info :: device_info
  sc_thread :: bool

fun scan_loop :: "scan_item list \<Rightarrow> bool \<Rightarrow> reader \<Rightarrow> bool \<times> reader" where
  "scan_loop [] running s = (running, s)"
| "scan_loop (x # xs) running s =
     (let s1 = thread_turns (sc_turns x) s
      in if \<not> running \<or> sc_signal x then (False, s1)
         else scan_loop xs running (scan_entry (sc_name x) (sc_fd x) (sc_info x) (sc_thread x) s1))"

definition scan_devices :: "scan_item list option \<Rightarrow> bool \<Rightarrow> reader \<Rightarrow> bool \<times> reader" where
  "scan_devices directory running s = (case directory of None \<Rightarrow> (running, s) | Some xs \<Rightarrow> scan_loop xs running s)"

record scan_round =
  ro_kill_ok :: bool
  ro_permission :: bool
  ro_stdin :: stdin_poll
  ro_directory :: "scan_item list option"
  ro_turns :: "thread_turn list"
  ro_signal :: bool

text \<open>\<open>None\<close>: the loop goes on after the rounds given.\<close>

fun reader_loop :: "int \<Rightarrow> scan_round list \<Rightarrow> bool \<Rightarrow> reader \<Rightarrow> reader option" where
  "reader_loop owner [] running s = (if running then None else Some s)"
| "reader_loop owner (r # rs) running s =
     (if \<not> running \<or> \<not> owner_alive owner (ro_kill_ok r) (ro_permission r) \<or> \<not> control_stdin_open (ro_stdin r) then Some s
      else let (running1, s1) = scan_devices (ro_directory r) running s
           in reader_loop owner rs (running1 \<and> \<not> ro_signal r) (thread_turns (ro_turns r) s1))"

text \<open>The exit code and the state; \<open>ok\<close> and \<open>now\<close> are what the last frames meet.\<close>

definition reader_main :: "string list \<Rightarrow> scan_round list \<Rightarrow> thread_turn list \<Rightarrow> (nat \<Rightarrow> bool) \<Rightarrow> u64 \<times> u64 \<Rightarrow> (int \<times> reader) option" where
  "reader_main args rounds settle ok now = (case parse_reader args 0 False of
       Leave code \<Rightarrow> Some (code, initial_reader)
     | Go owner verbose \<Rightarrow>
         map_option (\<lambda>s. (0, release_pressed_keys ok now (thread_turns settle s))) (reader_loop owner rounds True initial_reader))"

section \<open>A run is a sequence of the steps\<close>

definition plain_turn :: "thread_turn \<Rightarrow> bool" where
  "plain_turn tt \<longleftrightarrow> (case tt of (_, _, Turn_event e) \<Rightarrow> ev_type e = EV_KEY \<longrightarrow> plain_key (ev_code e) | _ \<Rightarrow> True)"

definition plain_item :: "scan_item \<Rightarrow> bool" where
  "plain_item x \<longleftrightarrow> list_all plain_turn (sc_turns x)"

definition plain_round :: "scan_round \<Rightarrow> bool" where
  "plain_round r \<longleftrightarrow> list_all plain_turn (ro_turns r) \<and> (case ro_directory r of None \<Rightarrow> True | Some xs \<Rightarrow> list_all plain_item xs)"

definition good :: "reader \<Rightarrow> bool" where
  "good s \<longleftrightarrow> table_ok s \<and> slots_ok s"

lemma thread_turn_good:
  assumes "plain_turn tt" "good s"
  shows "good (thread_turn tt s)"
proof -
  obtain i ok t where tt: "tt = (i, ok, t)" by (metis prod_cases3)
  have k: "key_step s (read_device_turn i ok t s)"
    using assms(1) by (intro key_step.turn) (auto simp: plain_turn_def tt)
  show ?thesis
    using keys.step_inv [OF k] readers.step_inv [OF reader_step.turn [of i s ok t]] assms(2) by (auto simp: good_def thread_turn_def tt)
qed

lemma thread_turns_good: "list_all plain_turn ts \<Longrightarrow> good s \<Longrightarrow> good (thread_turns ts s)"
  by (induction ts arbitrary: s) (simp_all add: thread_turns_def thread_turn_good)

lemma scan_entry_good: "good s \<Longrightarrow> good (scan_entry name fd info ok s)"
  using keys.step_inv [OF key_step.scan] scan_slots by (simp add: good_def)

lemma scan_loop_good: "list_all plain_item xs \<Longrightarrow> good s \<Longrightarrow> good (snd (scan_loop xs running s))"
  by (induction xs running s rule: scan_loop.induct) (auto simp: Let_def plain_item_def intro: thread_turns_good scan_entry_good)

definition stops :: "int \<Rightarrow> scan_round \<Rightarrow> bool" where
  "stops owner r \<longleftrightarrow> ro_signal r \<or> \<not> owner_alive owner (ro_kill_ok r) (ro_permission r) \<or> \<not> control_stdin_open (ro_stdin r)"

lemma reader_loop_good:
  assumes "list_all plain_round rs" "good s" "\<not> running \<or> (\<exists>r \<in> set rs. stops owner r)"
  shows "\<exists>s'. reader_loop owner rs running s = Some s' \<and> good s'"
  using assms
proof (induction rs arbitrary: running s)
  case (Cons r rs)
  obtain running1 s1 where sc: "scan_devices (ro_directory r) running s = (running1, s1)" by (meson surj_pair)
  have "good s1"
    using Cons.prems(1,2) sc scan_loop_good [of _ s running] by (auto simp: scan_devices_def plain_round_def split: option.splits) (metis snd_conv)
  then have "good (thread_turns (ro_turns r) s1)" using Cons.prems(1) by (simp add: plain_round_def thread_turns_good)
  then have next_round: "\<exists>s'. reader_loop owner rs b (thread_turns (ro_turns r) s1) = Some s' \<and> good s'" if "\<not> b \<or> (\<exists>r \<in> set rs. stops owner r)" for b
    using Cons.IH [of "thread_turns (ro_turns r) s1" b] Cons.prems(1) that by simp
  show ?case
  proof (cases "\<not> running \<or> \<not> owner_alive owner (ro_kill_ok r) (ro_permission r) \<or> \<not> control_stdin_open (ro_stdin r)")
    case True
    then show ?thesis using Cons.prems(2) by auto
  next
    case False
    then have "\<not> (running1 \<and> \<not> ro_signal r) \<or> (\<exists>r \<in> set rs. stops owner r)" using Cons.prems(3) by (auto simp: stops_def)
    from next_round [OF this] False sc show ?thesis by simp
  qed
qed simp

section \<open>Properties\<close>


definition quiet_round :: scan_round where
  "quiet_round = \<lparr>ro_kill_ok = True, ro_permission = False, ro_stdin = Poll_nothing, ro_directory = None, ro_turns = [], ro_signal = False\<rparr>"


end
