(* ===== verification/Handle_List.thy ===== *)
theory Handle_List
  imports Linked_Queue
begin

text \<open>
  The registries of the preload libraries: a global singly linked list of heap cells that grows at the
  front (\<^verbatim>\<open>token_bos\<close> of the GBM shim, \<^verbatim>\<open>compat_monitors\<close> of the libudev shim), searched on every call to
  tell the library's own objects from those of the real one, and unlinked through a pointer to the link.
  A walk that reaches a cell that is not allocated has the value \<open>None\<close>. \<open>hl_rep\<close> relates a list to
  the handles and values it holds; the locale \<open>handle_registry\<close> is what the two libraries rely on.
\<close>

section \<open>Operations\<close>

record 'v hlist =
  hl_head :: "addr option"
  hl_cells :: "addr \<rightharpoonup> 'v cell"

definition hl_empty :: "'v hlist" where
  "hl_empty = \<lparr>hl_head = None, hl_cells = Map.empty\<rparr>"

text \<open>\<^verbatim>\<open>node->next = head; head = node;\<close> for a node that has just been allocated at \<open>a\<close>.\<close>

definition hl_push :: "addr \<Rightarrow> 'v \<Rightarrow> 'v hlist \<Rightarrow> 'v hlist" where
  "hl_push a v l = \<lparr>hl_head = Some a, hl_cells = (hl_cells l)(a \<mapsto> \<lparr>c_value = v, c_next = hl_head l\<rparr>)\<rparr>"

text \<open>The walk from \<open>p\<close> to the first cell that satisfies the test.\<close>

partial_function (option) hl_find ::
  "(addr \<rightharpoonup> 'v cell) \<Rightarrow> (addr \<Rightarrow> 'v \<Rightarrow> bool) \<Rightarrow> addr option \<Rightarrow> addr option option" where
  "hl_find m P p = (case p of None \<Rightarrow> Some None | Some a \<Rightarrow>
     do { c \<leftarrow> m a; if P a (c_value c) then Some (Some a) else hl_find m P (c_next c) })"

text \<open>\<^verbatim>\<open>*it = next\<close>, where \<^verbatim>\<open>it\<close> points at the head or at the link of the cell before.\<close>

definition hl_set_link :: "addr option \<Rightarrow> addr option \<Rightarrow> 'v hlist \<Rightarrow> 'v hlist option" where
  "hl_set_link prev n l = (case prev of
       None \<Rightarrow> Some (l\<lparr>hl_head := n\<rparr>)
     | Some b \<Rightarrow> do { c \<leftarrow> hl_cells l b; Some (l\<lparr>hl_cells := (hl_cells l)(b \<mapsto> c\<lparr>c_next := n\<rparr>)\<rparr>) })"

partial_function (option) hl_unlink ::
  "(addr \<Rightarrow> 'v \<Rightarrow> bool) \<Rightarrow> addr option \<Rightarrow> addr option \<Rightarrow> 'v hlist \<Rightarrow> (addr option \<times> 'v hlist) option" where
  "hl_unlink P prev p l = (case p of None \<Rightarrow> Some (None, l) | Some a \<Rightarrow>
     do { c \<leftarrow> hl_cells l a;
          if P a (c_value c) then do { l' \<leftarrow> hl_set_link prev (c_next c) l; Some (Some a, l') }
          else hl_unlink P (Some a) (c_next c) l })"

definition hl_release :: "addr \<Rightarrow> 'v hlist \<Rightarrow> 'v hlist" where
  "hl_release a l = l\<lparr>hl_cells := (hl_cells l)(a := None)\<rparr>"

section \<open>The handles a list holds\<close>

fun hl_seg :: "(addr \<rightharpoonup> 'v cell) \<Rightarrow> addr option \<Rightarrow> (addr \<times> 'v) list \<Rightarrow> addr option \<Rightarrow> bool" where
  "hl_seg m p [] q \<longleftrightarrow> p = q"
| "hl_seg m p ((a, v) # xs) q \<longleftrightarrow> p = Some a \<and>
     (case m a of None \<Rightarrow> False | Some c \<Rightarrow> c_value c = v \<and> hl_seg m (c_next c) xs q)"

definition hl_rep :: "'v hlist \<Rightarrow> (addr \<times> 'v) list \<Rightarrow> bool" where
  "hl_rep l xs \<longleftrightarrow> distinct (map fst xs) \<and> hl_seg (hl_cells l) (hl_head l) xs None \<and>
     dom (hl_cells l) = fst ` set xs"

lemma hl_seg_append: "hl_seg m p (xs @ ys) q \<longleftrightarrow> (\<exists>r. hl_seg m p xs r \<and> hl_seg m r ys q)"
  by (induction m p xs q rule: hl_seg.induct) (auto split: option.splits)

lemma hl_seg_cong: "(\<And>a. a \<in> fst ` set xs \<Longrightarrow> m a = m' a) \<Longrightarrow> hl_seg m p xs q = hl_seg m' p xs q"
  by (induction m p xs q rule: hl_seg.induct) (auto split: option.splits)

lemma hl_seg_upd [simp]: "a \<notin> fst ` set xs \<Longrightarrow> hl_seg (m(a := c)) p xs q = hl_seg m p xs q"
  by (rule hl_seg_cong) auto

lemma hl_seg_lookup:
  "hl_seg m p xs q \<Longrightarrow> (a, v) \<in> set xs \<Longrightarrow> \<exists>c. m a = Some c \<and> c_value c = v"
  by (induction m p xs q rule: hl_seg.induct) (auto split: option.splits)

section \<open>The operations on the handles\<close>

lemma hl_empty_rep: "hl_rep hl_empty []"
  by (simp add: hl_rep_def hl_empty_def)

lemma hl_push_rep:
  assumes "hl_rep l xs" "a \<notin> fst ` set xs"
  shows "hl_rep (hl_push a v l) ((a, v) # xs)"
  using assms by (auto simp: hl_rep_def hl_push_def)

lemma hl_find_seg:
  "hl_seg m p xs None \<Longrightarrow> hl_find m P p = Some (map_option fst (List.find (\<lambda>(a, v). P a v) xs))"
proof (induction xs arbitrary: p)
  case Nil
  then show ?case by (simp add: hl_find.simps)
next
  case (Cons x xs)
  obtain a v where "x = (a, v)" by (cases x)
  with Cons show ?case by (subst hl_find.simps) (auto split: option.splits)
qed

lemma hl_find_rep:
  "hl_rep l xs \<Longrightarrow> hl_find (hl_cells l) P (hl_head l) = Some (map_option fst (List.find (\<lambda>(a, v). P a v) xs))"
  by (simp add: hl_rep_def hl_find_seg)

text \<open>The cell before the unlinked one gets its link; every other cell keeps its contents.\<close>

lemma hl_set_link_seg:
  assumes "hl_seg (hl_cells l) (hl_head l) (ys @ (a, v) # xs) None" "distinct (map fst (ys @ (a, v) # xs))"
    "hl_cells l a = Some c"
  shows "\<exists>l'. hl_set_link (if ys = [] then None else Some (fst (last ys))) (c_next c) l = Some l' \<and>
    hl_seg (hl_cells l') (hl_head l') (ys @ xs) None \<and> hl_cells l' a = hl_cells l a \<and> dom (hl_cells l') = dom (hl_cells l)"
proof (cases ys rule: rev_cases)
  case Nil
  with assms show ?thesis by (simp add: hl_set_link_def)
next
  case (snoc zs y)
  obtain b w where y: "y = (b, w)" by (cases y)
  obtain r d where s: "hl_seg (hl_cells l) (hl_head l) zs r" "r = Some b" "hl_cells l b = Some d" "c_value d = w"
    "c_next d = Some a" "hl_seg (hl_cells l) (c_next c) xs None"
    using assms(1,3) by (auto simp: snoc y hl_seg_append split: option.splits)
  have ne: "b \<noteq> a" "b \<notin> fst ` set zs" "b \<notin> fst ` set xs" using assms(2) by (auto simp: snoc y)
  have "hl_seg ((hl_cells l)(b \<mapsto> d\<lparr>c_next := c_next c\<rparr>)) (hl_head l) (zs @ [(b, w)] @ xs) None"
    unfolding hl_seg_append using s ne by (intro exI [of _ r] conjI exI [of _ "c_next c"]) simp_all
  with s ne show ?thesis by (auto simp: snoc y hl_set_link_def)
qed

lemma hl_unlink_seg:
  assumes "hl_seg (hl_cells l) (hl_head l) (ys @ xs) None" "distinct (map fst (ys @ xs))"
    "hl_seg (hl_cells l) p xs None"
  shows "case List.find (\<lambda>(a, v). P a v) xs of
      None \<Rightarrow> hl_unlink P (if ys = [] then None else Some (fst (last ys))) p l = Some (None, l)
    | Some (a, v) \<Rightarrow> \<exists>l'. hl_unlink P (if ys = [] then None else Some (fst (last ys))) p l = Some (Some a, l') \<and>
        hl_seg (hl_cells l') (hl_head l') (ys @ remove1 (a, v) xs) None \<and> hl_cells l' a = hl_cells l a \<and>
        dom (hl_cells l') = dom (hl_cells l)"
  using assms
proof (induction xs arbitrary: ys p)
  case Nil
  then show ?case by (simp add: hl_unlink.simps)
next
  case (Cons x xs)
  obtain a v where x: "x = (a, v)" by (cases x)
  with Cons.prems(3) obtain c where c: "p = Some a" "hl_cells l a = Some c" "c_value c = v"
    "hl_seg (hl_cells l) (c_next c) xs None"
    by (auto split: option.splits)
  show ?case
  proof (cases "P a v")
    case True
    from hl_set_link_seg [OF Cons.prems(1,2) [unfolded x] c(2)] True c(1-3) x show ?thesis
      by (subst hl_unlink.simps) auto
  next
    case False
    have e: "hl_unlink P (if ys = [] then None else Some (fst (last ys))) p l = hl_unlink P (Some a) (c_next c) l"
      using c False by (subst hl_unlink.simps) simp
    have f: "List.find (\<lambda>(a, v). P a v) (x # xs) = List.find (\<lambda>(a, v). P a v) xs" using False by (simp add: x)
    have ne: "(a, v) \<noteq> (b, w)" if "List.find (\<lambda>(a, v). P a v) xs = Some (b, w)" for b w
      using that False by (auto simp: find_Some_iff)
    have "hl_seg (hl_cells l) (hl_head l) ((ys @ [(a, v)]) @ xs) None" "distinct (map fst ((ys @ [(a, v)]) @ xs))"
      using Cons.prems(1,2) by (simp_all add: x)
    from Cons.IH [OF this c(4)] show ?thesis
      unfolding e f using ne by (cases "List.find (\<lambda>(a, v). P a v) xs") (auto simp: x)
  qed
qed

lemma remove1_handle:
  "distinct (map fst xs) \<Longrightarrow> (a, v) \<in> set xs \<Longrightarrow> remove1 (a, v) xs = filter (\<lambda>x. fst x \<noteq> a) xs"
  by (induction xs) (auto simp: rev_image_eqI intro!: filter_True [symmetric])

text \<open>Unlinking, reading the cell and freeing it: the pair is gone, the others are untouched.\<close>

lemma hl_unlink_rep:
  assumes "hl_rep l xs"
  shows "case List.find (\<lambda>(a, v). P a v) xs of
      None \<Rightarrow> hl_unlink P None (hl_head l) l = Some (None, l)
    | Some (a, v) \<Rightarrow> \<exists>l' c. hl_unlink P None (hl_head l) l = Some (Some a, l') \<and> hl_cells l' a = Some c \<and> c_value c = v \<and>
        hl_rep (hl_release a l') (filter (\<lambda>x. fst x \<noteq> a) xs)"
proof (cases "List.find (\<lambda>(a, v). P a v) xs")
  case None
  then show ?thesis using hl_unlink_seg [of l "[]" xs "hl_head l" P] assms by (simp add: hl_rep_def)
next
  case (Some x)
  obtain a v where x: "x = (a, v)" by (cases x)
  have av: "(a, v) \<in> set xs" using Some by (auto simp: x find_Some_iff in_set_conv_nth)
  obtain c where c: "hl_cells l a = Some c" "c_value c = v"
    using assms hl_seg_lookup [OF _ av, of "hl_cells l" "hl_head l" None] by (auto simp: hl_rep_def)
  obtain l' where l': "hl_unlink P None (hl_head l) l = Some (Some a, l')"
    "hl_seg (hl_cells l') (hl_head l') (remove1 (a, v) xs) None" "hl_cells l' a = hl_cells l a" "dom (hl_cells l') = dom (hl_cells l)"
    using hl_unlink_seg [of l "[]" xs "hl_head l" P] assms by (auto simp: hl_rep_def Some x)
  have d: "distinct (map fst xs)" "dom (hl_cells l) = fst ` set xs" using assms by (auto simp: hl_rep_def)
  have k: "remove1 (a, v) xs = filter (\<lambda>x. fst x \<noteq> a) xs" by (rule remove1_handle [OF d(1) av])
  have "distinct (map fst (filter (\<lambda>x. fst x \<noteq> a) xs))" using d(1) by (rule distinct_map_filter)
  moreover have "a \<notin> fst ` set (filter (\<lambda>x. fst x \<noteq> a) xs)" by auto
  note hl_seg_upd [OF this, of "hl_cells l'" None "hl_head l'" None]
  ultimately have "hl_rep (hl_release a l') (filter (\<lambda>x. fst x \<noteq> a) xs)"
    using l' d(2) k by (auto simp: hl_rep_def hl_release_def)
  with l' c show ?thesis by (auto simp: Some x)
qed

text \<open>Writing to a field of a registered object.\<close>

lemma hl_seg_update:
  assumes "hl_seg m p xs q" "m b = Some c"
  shows "hl_seg (m(b \<mapsto> c\<lparr>c_value := g (c_value c)\<rparr>)) p (map (\<lambda>(a, v). (a, if a = b then g v else v)) xs) q"
  using assms by (induction m p xs q rule: hl_seg.induct) (auto split: option.splits)

lemma hl_update_rep:
  assumes "hl_rep l xs" "hl_cells l b = Some c"
  shows "hl_rep (l\<lparr>hl_cells := (hl_cells l)(b \<mapsto> c\<lparr>c_value := g (c_value c)\<rparr>)\<rparr>)
    (map (\<lambda>(a, v). (a, if a = b then g v else v)) xs)"
proof -
  let ?ys = "map (\<lambda>(a, v). (a, if a = b then g v else v)) xs"
  have f: "map fst ?ys = map fst xs" by auto
  then have k: "fst ` set ?ys = fst ` set xs" by (metis list.set_map)
  have "insert b (fst ` set xs) = fst ` set xs" using assms by (auto simp: hl_rep_def)
  then show ?thesis
    using assms hl_seg_update [of "hl_cells l" "hl_head l" xs None b c g] unfolding hl_rep_def f k by simp
qed

section \<open>The interface\<close>

text \<open>The handles that are live after a sequence of registrations and removals.\<close>

datatype 'v handle_op = Register addr 'v | Remove addr

fun live_handles :: "'v handle_op list \<Rightarrow> (addr \<times> 'v) list \<Rightarrow> (addr \<times> 'v) list" where
  "live_handles [] xs = xs"
| "live_handles (Register a v # ps) xs = live_handles ps ((a, v) # xs)"
| "live_handles (Remove a # ps) xs = live_handles ps (filter (\<lambda>x. fst x \<noteq> a) xs)"

text \<open>The allocator gives no address that is in use.\<close>

fun fresh_handles :: "'v handle_op list \<Rightarrow> (addr \<times> 'v) list \<Rightarrow> bool" where
  "fresh_handles [] xs \<longleftrightarrow> True"
| "fresh_handles (Register a v # ps) xs \<longleftrightarrow> a \<notin> fst ` set xs \<and> fresh_handles ps ((a, v) # xs)"
| "fresh_handles (Remove a # ps) xs \<longleftrightarrow> fresh_handles ps (filter (\<lambda>x. fst x \<noteq> a) xs)"

fun run_handles :: "(addr \<Rightarrow> 'v \<Rightarrow> 's \<Rightarrow> 's) \<Rightarrow> (addr \<Rightarrow> 's \<Rightarrow> 's option) \<Rightarrow> 'v handle_op list \<Rightarrow> 's \<Rightarrow> 's option" where
  "run_handles reg rem [] s = Some s"
| "run_handles reg rem (Register a v # ps) s = run_handles reg rem ps (reg a v s)"
| "run_handles reg rem (Remove a # ps) s = do { s1 \<leftarrow> rem a s; run_handles reg rem ps s1 }"

locale handle_registry =
  fixes rep :: "'s \<Rightarrow> (addr \<times> 'v) list \<Rightarrow> bool" and known :: "addr option \<Rightarrow> 's \<Rightarrow> bool option"
    and reg :: "addr \<Rightarrow> 'v \<Rightarrow> 's \<Rightarrow> 's" and rem :: "addr \<Rightarrow> 's \<Rightarrow> 's option" and valid :: "addr \<Rightarrow> 'v \<Rightarrow> bool"
  assumes known_rep: "rep s xs \<Longrightarrow> known p s = Some (\<exists>a v. p = Some a \<and> (a, v) \<in> set xs)"
    and reg_rep: "rep s xs \<Longrightarrow> a \<notin> fst ` set xs \<Longrightarrow> valid a v \<Longrightarrow> rep (reg a v s) ((a, v) # xs)"
    and rem_rep: "rep s xs \<Longrightarrow> \<exists>s'. rem a s = Some s' \<and> rep s' (filter (\<lambda>x. fst x \<noteq> a) xs)"
begin

lemma run_rep:
  assumes "rep s xs" "fresh_handles ps xs" "\<And>a v. Register a v \<in> set ps \<Longrightarrow> valid a v"
  shows "\<exists>s'. run_handles reg rem ps s = Some s' \<and> rep s' (live_handles ps xs)"
  using assms
proof (induction ps arbitrary: s xs)
  case (Cons p ps)
  show ?case
  proof (cases p)
    case (Register a v)
    with Cons.prems reg_rep Cons.IH [of "reg a v s" "(a, v) # xs"] show ?thesis by auto
  next
    case (Remove a)
    obtain s1 where "rem a s = Some s1" "rep s1 (filter (\<lambda>x. fst x \<noteq> a) xs)" using rem_rep Cons.prems(1) by blast
    with Remove Cons.prems Cons.IH [of s1 "filter (\<lambda>x. fst x \<noteq> a) xs"] show ?thesis by auto
  qed
qed simp

text \<open>A pointer is recognised exactly when it is a handle that was registered and not removed since.\<close>

lemma known_after_run:
  assumes "rep s []" "fresh_handles ps []" "\<And>a v. Register a v \<in> set ps \<Longrightarrow> valid a v"
  shows "\<exists>s'. run_handles reg rem ps s = Some s' \<and>
    (\<forall>p. known p s' = Some (\<exists>a v. p = Some a \<and> (a, v) \<in> set (live_handles ps [])))"
  using run_rep [OF assms] known_rep by blast

end

end
