(* ===== verification/Gbm_Shim.thy ===== *)
theory Gbm_Shim
  imports Handle_List C_Strings Tvg_Scanout
begin

text \<open>
  The GBM preload library (\<^verbatim>\<open>gbm-shim/gbm_shim.c\<close>): buffers the desktop's compositor allocates are tokens
  of the host's service, buffers Mesa allocates and every object that is not a token stay with the real
  library. A buffer pointer is the address of its cell (\<open>None\<close> for a null pointer); a walk or an
  access that reaches a freed cell has the value \<open>None\<close>. The real library's functions are arguments, each of
  them possibly missing (\<^verbatim>\<open>dlsym\<close> gave a null pointer). Opened and closed descriptors, requests to
  the service and calls of the real library that return nothing are a log; diagnostics are left out.
\<close>

record gbm_bo =
  gb_token_fd :: fd
  gb_width :: u32
  gb_height :: u32
  gb_stride :: u32
  gb_format :: u32
  gb_modifier :: u64
  gb_user_data :: "addr option"

datatype gbm_event =
    Shim_open fd
  | Shim_close fd
  | Shim_request tvg_request
  | Real_destroy "addr option"
  | Real_unmap "addr option" "addr option"
  | Real_set_user_data "addr option" "addr option"

record shim =
  sh_bos :: "gbm_bo hlist"
  sh_errno :: int
  sh_log :: "gbm_event list"

definition initial_shim :: shim where
  "initial_shim = \<lparr>sh_bos = hl_empty, sh_errno = 0, sh_log = []\<rparr>"

definition note_events :: "gbm_event list \<Rightarrow> shim \<Rightarrow> shim" where
  "note_events es s = s\<lparr>sh_log := sh_log s @ es\<rparr>"

section \<open>Tokens and callers\<close>

definition is_token_bo :: "addr option \<Rightarrow> shim \<Rightarrow> bool option" where
  "is_token_bo bo s = (case bo of
       None \<Rightarrow> Some False
     | Some b \<Rightarrow> map_option (\<lambda>r. r \<noteq> None) (hl_find (hl_cells (sh_bos s)) (\<lambda>a _. a = b) (hl_head (sh_bos s))))"

text \<open>\<open>fname\<close> is the object file \<^verbatim>\<open>dladdr\<close> names for the calling address, if any.\<close>

definition addr_is_mesa :: "string option \<Rightarrow> bool" where
  "addr_is_mesa fname = (case fname of None \<Rightarrow> False
     | Some name \<Rightarrow> contains name ''libEGL'' \<or> contains name ''libgallium'' \<or> contains name ''libgbm'' \<or>
         contains name ''libdril'' \<or> contains name ''mesa'')"

section \<open>Allocation\<close>

text \<open>
  What the system answers: the environment variable, the socket, whether the path can be connected to,
  whether the whole request is sent, the number of bytes of the reply with the reply and the descriptor
  that came with it (\<open>None\<close> for a receive that failed), and the address \<^verbatim>\<open>calloc\<close> gives for the live cells.
\<close>

record gbm_answers =
  ga_path :: "string option"
  ga_socket :: "fd option"
  ga_connect :: "string \<Rightarrow> bool"
  ga_send :: bool
  ga_reply :: "(nat \<times> tvg_alloc_reply \<times> fd option) option"
  ga_calloc :: "(addr \<rightharpoonup> gbm_bo cell) \<Rightarrow> addr option"

definition connect_tvg :: "gbm_answers \<Rightarrow> shim \<Rightarrow> fd option \<times> shim" where
  "connect_tvg a s = (case ga_path a of
       None \<Rightarrow> (None, s)
     | Some path \<Rightarrow>
         if path = [] then (None, s)
         else (case ga_socket a of
                 None \<Rightarrow> (None, s)
               | Some fd \<Rightarrow>
                   if ga_connect a (take (SUN_PATH - 1) path) then (Some fd, note_events [Shim_open fd] s)
                   else (None, note_events [Shim_open fd, Shim_close fd] s)))"

definition REPLY_SIZE :: nat where "REPLY_SIZE = 24"

definition zero_reply :: tvg_alloc_reply where
  "zero_reply = \<lparr>rp_magic = 0, rp_status = 0, rp_stride = 0, rp_format = 0, rp_inode = 0\<rparr>"

text \<open>The token descriptor or -1, with the reply; a descriptor that came with the message is open.\<close>

definition receive_reply :: "gbm_answers \<Rightarrow> shim \<Rightarrow> fd \<times> tvg_alloc_reply \<times> shim" where
  "receive_reply a s = (case ga_reply a of
       None \<Rightarrow> (-1, zero_reply, s)
     | Some (n, reply, passed) \<Rightarrow>
         let s1 = (case passed of None \<Rightarrow> s | Some fd \<Rightarrow> note_events [Shim_open fd] s)
         in if n \<noteq> REPLY_SIZE then (-1, reply, s1)
            else (case passed of None \<Rightarrow> (-1, reply, s1) | Some fd \<Rightarrow> (fd, reply, s1)))"

definition GBM_BO_USE_RENDERING :: u32 where "GBM_BO_USE_RENDERING = 4"

definition token_request :: "u32 \<Rightarrow> u32 \<Rightarrow> u32 \<Rightarrow> tvg_request" where
  "token_request width height format =
     \<lparr>rq_magic = TVG_MAGIC, rq_type = TVG_REQUEST_ALLOC, rq_width = width, rq_height = height, rq_format = format,
      rq_stride = width * 4, rq_usage = GBM_BO_USE_RENDERING, rq_inode = 0, rq_res_id = 0\<rparr>"

definition new_bo :: "fd \<Rightarrow> u32 \<Rightarrow> u32 \<Rightarrow> tvg_alloc_reply \<Rightarrow> u32 \<Rightarrow> u64 \<Rightarrow> gbm_bo" where
  "new_bo token_fd width height reply format modifier =
     \<lparr>gb_token_fd = token_fd, gb_width = width, gb_height = height,
      gb_stride = (if rp_stride reply \<noteq> 0 then rp_stride reply else width * 4), gb_format = format,
      gb_modifier = modifier, gb_user_data = None\<rparr>"

definition remember_bo :: "addr \<Rightarrow> gbm_bo \<Rightarrow> shim \<Rightarrow> shim" where
  "remember_bo b bo s = s\<lparr>sh_bos := hl_push b bo (sh_bos s)\<rparr>"

definition create_token_bo :: "gbm_answers \<Rightarrow> u32 \<Rightarrow> u32 \<Rightarrow> u32 \<Rightarrow> u64 \<Rightarrow> shim \<Rightarrow> addr option \<times> shim" where
  "create_token_bo a width height format modifier s =
     (if width = 0 \<or> height = 0 then (None, s)
      else case connect_tvg a s of
        (None, s1) \<Rightarrow> (None, s1)
      | (Some fd, s1) \<Rightarrow>
          if \<not> ga_send a then (None, note_events [Shim_close fd] s1)
          else
            (case receive_reply a (note_events [Shim_request (token_request width height format)] s1) of
               (token_fd, reply, s2) \<Rightarrow>
                 let s3 = note_events [Shim_close fd] s2
                 in if token_fd < 0 \<or> rp_magic reply \<noteq> TVG_MAGIC \<or> rp_status reply \<noteq> 0
                    then (None, if 0 \<le> token_fd then note_events [Shim_close token_fd] s3 else s3)
                    else (case ga_calloc a (hl_cells (sh_bos s3)) of
                            None \<Rightarrow> (None, note_events [Shim_close token_fd] s3)
                          | Some b \<Rightarrow>
                              (Some b, remember_bo b (new_bo token_fd width height reply format modifier) s3))))"

text \<open>The real creation functions, where Mesa calls: \<open>real\<close> is their result.\<close>

definition gbm_bo_create ::
  "string option \<Rightarrow> addr option option \<Rightarrow> gbm_answers \<Rightarrow> u32 \<Rightarrow> u32 \<Rightarrow> u32 \<Rightarrow> shim \<Rightarrow> addr option \<times> shim" where
  "gbm_bo_create caller real a width height format s =
     (if addr_is_mesa caller then ((case real of None \<Rightarrow> None | Some bo \<Rightarrow> bo), s)
      else create_token_bo a width height format 0 s)"

definition first_modifier :: "u64 list option \<Rightarrow> u64" where
  "first_modifier modifiers = (case modifiers of Some (m # ms) \<Rightarrow> m | _ \<Rightarrow> 0)"

definition gbm_bo_create_with_modifiers ::
  "string option \<Rightarrow> addr option option \<Rightarrow> gbm_answers \<Rightarrow> u32 \<Rightarrow> u32 \<Rightarrow> u32 \<Rightarrow> u64 list option \<Rightarrow> shim \<Rightarrow>
   addr option \<times> shim" where
  "gbm_bo_create_with_modifiers caller real a width height format modifiers s =
     (if addr_is_mesa caller then ((case real of None \<Rightarrow> None | Some bo \<Rightarrow> bo), s)
      else create_token_bo a width height format (first_modifier modifiers) s)"

definition gbm_bo_create_with_modifiers2 ::
  "string option \<Rightarrow> addr option option \<Rightarrow> gbm_answers \<Rightarrow> u32 \<Rightarrow> u32 \<Rightarrow> u32 \<Rightarrow> u64 list option \<Rightarrow> shim \<Rightarrow>
   addr option \<times> shim" where
  "gbm_bo_create_with_modifiers2 caller real a width height format modifiers s =
     (if addr_is_mesa caller then ((case real of None \<Rightarrow> None | Some bo \<Rightarrow> bo), s)
      else create_token_bo a width height format (first_modifier modifiers) s)"

section \<open>Destruction\<close>

definition bo_at :: "addr option \<Rightarrow> shim \<Rightarrow> gbm_bo option" where
  "bo_at bo s = (case bo of None \<Rightarrow> None | Some b \<Rightarrow> map_option c_value (hl_cells (sh_bos s) b))"

definition gbm_bo_destroy :: "bool \<Rightarrow> addr option \<Rightarrow> shim \<Rightarrow> shim option" where
  "gbm_bo_destroy real bo s =
     do { token \<leftarrow> is_token_bo bo s;
          if \<not> token then Some (if real then note_events [Real_destroy bo] s else s)
          else do { b \<leftarrow> bo;
                    (found, l) \<leftarrow> hl_unlink (\<lambda>a _. a = b) None (hl_head (sh_bos s)) (sh_bos s);
                    v \<leftarrow> bo_at bo (s\<lparr>sh_bos := l\<rparr>);
                    Some ((if 0 \<le> gb_token_fd v then note_events [Shim_close (gb_token_fd v)] s else s)
                      \<lparr>sh_bos := hl_release b l\<rparr>) } }"

section \<open>Queries\<close>

text \<open>
  The shape of the queries: a token answers for itself, any other pointer is handed to the real function, and where
  that one is missing the result is a fixed value.
\<close>

definition answer :: "(gbm_bo \<Rightarrow> 'a) \<Rightarrow> (addr option \<Rightarrow> 'a) option \<Rightarrow> 'a \<Rightarrow> addr option \<Rightarrow> shim \<Rightarrow> 'a option" where
  "answer own real missing bo s =
     do { token \<leftarrow> is_token_bo bo s;
          if token then map_option own (bo_at bo s)
          else Some (case real of None \<Rightarrow> missing | Some f \<Rightarrow> f bo) }"

definition gbm_bo_get_fd :: "(fd \<Rightarrow> fd) \<Rightarrow> (addr option \<Rightarrow> fd) option \<Rightarrow> addr option \<Rightarrow> shim \<Rightarrow> fd option" where
  "gbm_bo_get_fd dup real = answer (\<lambda>v. if 0 \<le> gb_token_fd v then dup (gb_token_fd v) else -1) real (-1)"

definition gbm_bo_get_fd_for_plane ::
  "(fd \<Rightarrow> fd) \<Rightarrow> (addr option \<Rightarrow> fd) option \<Rightarrow> (addr option \<Rightarrow> int \<Rightarrow> fd) option \<Rightarrow> addr option \<Rightarrow> int \<Rightarrow> shim \<Rightarrow> fd option"
  where
  "gbm_bo_get_fd_for_plane dup real_fd real bo plane s =
     do { token \<leftarrow> is_token_bo bo s;
          if token then (if plane = 0 then gbm_bo_get_fd dup real_fd bo s else Some (-1))
          else Some (case real of None \<Rightarrow> -1 | Some f \<Rightarrow> f bo plane) }"

definition gbm_bo_get_stride :: "(addr option \<Rightarrow> u32) option \<Rightarrow> addr option \<Rightarrow> shim \<Rightarrow> u32 option" where
  "gbm_bo_get_stride real = answer gb_stride real 0"

definition gbm_bo_get_stride_for_plane ::
  "(addr option \<Rightarrow> int \<Rightarrow> u32) option \<Rightarrow> addr option \<Rightarrow> int \<Rightarrow> shim \<Rightarrow> u32 option" where
  "gbm_bo_get_stride_for_plane real bo plane s =
     answer (\<lambda>v. if plane = 0 then gb_stride v else 0) (map_option (\<lambda>f b. f b plane) real) 0 bo s"

definition gbm_bo_get_format :: "(addr option \<Rightarrow> u32) option \<Rightarrow> addr option \<Rightarrow> shim \<Rightarrow> u32 option" where
  "gbm_bo_get_format real = answer gb_format real 0"

definition gbm_bo_get_modifier :: "(addr option \<Rightarrow> u64) option \<Rightarrow> addr option \<Rightarrow> shim \<Rightarrow> u64 option" where
  "gbm_bo_get_modifier real = answer gb_modifier real 0"

definition gbm_bo_get_width :: "(addr option \<Rightarrow> u32) option \<Rightarrow> addr option \<Rightarrow> shim \<Rightarrow> u32 option" where
  "gbm_bo_get_width real = answer gb_width real 0"

definition gbm_bo_get_height :: "(addr option \<Rightarrow> u32) option \<Rightarrow> addr option \<Rightarrow> shim \<Rightarrow> u32 option" where
  "gbm_bo_get_height real = answer gb_height real 0"

definition gbm_bo_get_bpp :: "(addr option \<Rightarrow> u32) option \<Rightarrow> addr option \<Rightarrow> shim \<Rightarrow> u32 option" where
  "gbm_bo_get_bpp real bo s =
     do { token \<leftarrow> is_token_bo bo s; Some (if token then 32 else case real of None \<Rightarrow> 0 | Some f \<Rightarrow> f bo) }"

definition gbm_bo_get_plane_count :: "(addr option \<Rightarrow> int) option \<Rightarrow> addr option \<Rightarrow> shim \<Rightarrow> int option" where
  "gbm_bo_get_plane_count real bo s =
     do { token \<leftarrow> is_token_bo bo s; Some (if token then 1 else case real of None \<Rightarrow> 1 | Some f \<Rightarrow> f bo) }"

definition gbm_bo_get_offset :: "(addr option \<Rightarrow> int \<Rightarrow> u32) option \<Rightarrow> addr option \<Rightarrow> int \<Rightarrow> shim \<Rightarrow> u32 option" where
  "gbm_bo_get_offset real bo plane s =
     do { token \<leftarrow> is_token_bo bo s; Some (if token then 0 else case real of None \<Rightarrow> 0 | Some f \<Rightarrow> f bo plane) }"

definition gbm_bo_get_plane_fd ::
  "(fd \<Rightarrow> fd) \<Rightarrow> (addr option \<Rightarrow> fd) option \<Rightarrow> (addr option \<Rightarrow> int \<Rightarrow> fd) option \<Rightarrow> (addr option \<Rightarrow> int \<Rightarrow> fd) option \<Rightarrow>
   addr option \<Rightarrow> int \<Rightarrow> shim \<Rightarrow> fd option" where
  "gbm_bo_get_plane_fd dup real_fd real_plane real bo plane s =
     do { token \<leftarrow> is_token_bo bo s;
          if token then gbm_bo_get_fd_for_plane dup real_fd real_plane bo plane s
          else Some (case real of None \<Rightarrow> -1 | Some f \<Rightarrow> f bo plane) }"

text \<open>A handle is a union of eight bytes.\<close>

definition gbm_bo_get_handle :: "(addr option \<Rightarrow> u64) option \<Rightarrow> addr option \<Rightarrow> shim \<Rightarrow> u64 option" where
  "gbm_bo_get_handle real bo s =
     do { token \<leftarrow> is_token_bo bo s; Some (if \<not> token then (case real of None \<Rightarrow> 0 | Some f \<Rightarrow> f bo) else 0) }"

definition gbm_bo_get_handle_for_plane :: "(addr option \<Rightarrow> int \<Rightarrow> u64) option \<Rightarrow> addr option \<Rightarrow> int \<Rightarrow> shim \<Rightarrow> u64 option" where
  "gbm_bo_get_handle_for_plane real bo plane s =
     do { token \<leftarrow> is_token_bo bo s; Some (if \<not> token then (case real of None \<Rightarrow> 0 | Some f \<Rightarrow> f bo plane) else 0) }"

definition gbm_bo_map :: "(addr option \<Rightarrow> addr option) option \<Rightarrow> addr option \<Rightarrow> shim \<Rightarrow> (addr option \<times> shim) option" where
  "gbm_bo_map real bo s =
     do { token \<leftarrow> is_token_bo bo s;
          Some (if \<not> token then ((case real of None \<Rightarrow> None | Some f \<Rightarrow> f bo), s) else (None, s\<lparr>sh_errno := 22\<rparr>)) }"

definition gbm_bo_unmap :: "bool \<Rightarrow> addr option \<Rightarrow> addr option \<Rightarrow> shim \<Rightarrow> shim option" where
  "gbm_bo_unmap real bo map_data s =
     do { token \<leftarrow> is_token_bo bo s;
          Some (if \<not> token \<and> real then note_events [Real_unmap bo map_data] s else s) }"

definition gbm_bo_set_user_data :: "bool \<Rightarrow> addr option \<Rightarrow> addr option \<Rightarrow> shim \<Rightarrow> shim option" where
  "gbm_bo_set_user_data real bo data s =
     do { token \<leftarrow> is_token_bo bo s;
          if \<not> token then Some (if real then note_events [Real_set_user_data bo data] s else s)
          else do { b \<leftarrow> bo;
                    c \<leftarrow> hl_cells (sh_bos s) b;
                    Some (s\<lparr>sh_bos := (sh_bos s)\<lparr>hl_cells := (hl_cells (sh_bos s))
                      (b \<mapsto> c\<lparr>c_value := (c_value c)\<lparr>gb_user_data := data\<rparr>\<rparr>)\<rparr>\<rparr>) } }"

definition gbm_bo_get_user_data :: "(addr option \<Rightarrow> addr option) option \<Rightarrow> addr option \<Rightarrow> shim \<Rightarrow> addr option option" where
  "gbm_bo_get_user_data real = answer gb_user_data real None"

end
