(* ===== verification/Gbm_Properties.thy ===== *)
theory Gbm_Properties
  imports Gbm_Shim Tvg_Properties
begin

text \<open>
  The GBM preload library keeps exact account of its tokens: a pointer is recognised exactly while its
  token lives, every descriptor the library opened is closed once or belongs to a live token, and a token
  carries the geometry under which the host knows its buffer.
\<close>

section \<open>The registry of tokens\<close>

definition shim_rep :: "shim \<Rightarrow> (addr \<times> gbm_bo) list \<Rightarrow> bool" where
  "shim_rep s xs \<longleftrightarrow> hl_rep (sh_bos s) xs \<and> (\<forall>(b, v) \<in> set xs. 0 \<le> gb_token_fd v)"

lemma find_handle:
  "List.find (\<lambda>(a, v). a = b) xs = None \<longleftrightarrow> b \<notin> fst ` set xs"
  "List.find (\<lambda>(a, v). a = b) xs = Some (a, v) \<Longrightarrow> a = b \<and> (b, v) \<in> set xs"
  by (force simp: find_None_iff, auto simp: find_Some_iff in_set_conv_nth)

lemma is_token_bo_rep:
  assumes "shim_rep s xs"
  shows "is_token_bo bo s = Some (\<exists>b v. bo = Some b \<and> (b, v) \<in> set xs)"
proof (cases bo)
  case (Some b)
  have "hl_find (hl_cells (sh_bos s)) (\<lambda>a _. a = b) (hl_head (sh_bos s)) =
      Some (map_option fst (List.find (\<lambda>(a, v). a = b) xs))"
    using assms by (intro hl_find_rep) (simp add: shim_rep_def)
  moreover have "List.find (\<lambda>(a, v). a = b) xs \<noteq> None \<longleftrightarrow> (\<exists>v. (b, v) \<in> set xs)"
    using find_handle(1) [of b xs] by force
  ultimately show ?thesis by (simp add: is_token_bo_def Some)
qed (simp add: is_token_bo_def)

lemma remember_bo_rep:
  "shim_rep s xs \<Longrightarrow> b \<notin> fst ` set xs \<Longrightarrow> 0 \<le> gb_token_fd v \<Longrightarrow> shim_rep (remember_bo b v s) ((b, v) # xs)"
  by (simp add: shim_rep_def remember_bo_def hl_push_rep)

lemma destroy_token:
  assumes "shim_rep s xs" "(b, v) \<in> set xs"
  shows "\<exists>s'. gbm_bo_destroy real (Some b) s = Some s' \<and> shim_rep s' (filter (\<lambda>x. fst x \<noteq> b) xs) \<and>
    sh_log s' = sh_log s @ [Shim_close (gb_token_fd v)]"
proof -
  have d: "distinct (map fst xs)" "hl_rep (sh_bos s) xs" using assms(1) by (simp_all add: shim_rep_def hl_rep_def)
  obtain a w where f: "List.find (\<lambda>(a, v). a = b) xs = Some (a, w)"
    using find_handle(1) [of b xs] assms(2) by (cases "List.find (\<lambda>(a, v). a = b) xs") force+
  with find_handle(2) [OF this] d(1) assms(2) have a: "a = b" "w = v" by (auto dest: eq_key_imp_eq_value)
  obtain l c where l: "hl_unlink (\<lambda>a _. a = b) None (hl_head (sh_bos s)) (sh_bos s) = Some (Some b, l)"
    "hl_cells l b = Some c" "c_value c = v" "hl_rep (hl_release b l) (filter (\<lambda>x. fst x \<noteq> b) xs)"
    using hl_unlink_rep [OF d(2), of "\<lambda>a _. a = b"] f a by auto
  have "is_token_bo (Some b) s = Some True" using is_token_bo_rep [OF assms(1)] assms(2) by auto
  moreover have "0 \<le> gb_token_fd v" using assms by (auto simp: shim_rep_def)
  ultimately show ?thesis
    using l assms(1) by (auto simp: gbm_bo_destroy_def bo_at_def note_events_def shim_rep_def)
qed

lemma destroy_other:
  assumes "shim_rep s xs" "bo \<notin> Some ` fst ` set xs"
  shows "gbm_bo_destroy real bo s = Some (if real then note_events [Real_destroy bo] s else s)"
  using is_token_bo_rep [OF assms(1), of bo] assms(2) by (force simp: gbm_bo_destroy_def)

lemma note_events_rep [simp]: "shim_rep (note_events es s) xs = shim_rep s xs"
  by (simp add: shim_rep_def note_events_def)

interpretation tokens: handle_registry shim_rep is_token_bo remember_bo
  "\<lambda>b. gbm_bo_destroy real (Some b)" "\<lambda>b v. 0 \<le> gb_token_fd v" for real
proof
  fix s xs b assume s: "shim_rep s xs"
  show "\<exists>s'. gbm_bo_destroy real (Some b) s = Some s' \<and> shim_rep s' (filter (\<lambda>x. fst x \<noteq> b) xs)"
  proof (cases "b \<in> fst ` set xs")
    case True
    then show ?thesis using destroy_token [OF s] by force
  next
    case False
    then have "filter (\<lambda>x. fst x \<noteq> b) xs = xs" by (auto simp: filter_id_conv)
    moreover have "Some b \<notin> Some ` fst ` set xs" using False by auto
    ultimately show ?thesis using s destroy_other [OF s] by auto
  qed
qed (simp_all add: is_token_bo_rep remember_bo_rep)

text \<open>A query on a token is answered from the token, any other query by the real library.\<close>

lemma answer_rep:
  assumes "shim_rep s xs"
  shows "(b, v) \<in> set xs \<Longrightarrow> answer own real missing (Some b) s = Some (own v)"
    and "bo \<notin> Some ` fst ` set xs \<Longrightarrow> answer own real missing bo s = Some (case real of None \<Rightarrow> missing | Some f \<Rightarrow> f bo)"
proof -
  assume b: "(b, v) \<in> set xs"
  then obtain c where "hl_cells (sh_bos s) b = Some c" "c_value c = v"
    using assms hl_seg_lookup [OF _ b, of "hl_cells (sh_bos s)" "hl_head (sh_bos s)" None] by (auto simp: shim_rep_def hl_rep_def)
  moreover have "is_token_bo (Some b) s = Some True" using is_token_bo_rep [OF assms] b by auto
  ultimately show "answer own real missing (Some b) s = Some (own v)" by (simp add: answer_def bo_at_def)
next
  assume "bo \<notin> Some ` fst ` set xs"
  then have "is_token_bo bo s = Some False" using is_token_bo_rep [OF assms, of bo] by force
  then show "answer own real missing bo s = Some (case real of None \<Rightarrow> missing | Some f \<Rightarrow> f bo)" by (simp add: answer_def)
qed

section \<open>Descriptors\<close>

definition opened :: "shim \<Rightarrow> fd multiset" where
  "opened s = mset (List.map_filter (\<lambda>e. case e of Shim_open d \<Rightarrow> Some d | _ \<Rightarrow> None) (sh_log s))"

definition closed :: "shim \<Rightarrow> fd multiset" where
  "closed s = mset (List.map_filter (\<lambda>e. case e of Shim_close d \<Rightarrow> Some d | _ \<Rightarrow> None) (sh_log s))"

definition held_fds :: "(addr \<times> gbm_bo) list \<Rightarrow> fd multiset" where
  "held_fds xs = mset (map (gb_token_fd \<circ> snd) xs)"

definition shim_inv :: "shim \<Rightarrow> bool" where
  "shim_inv s \<longleftrightarrow> (\<exists>xs. shim_rep s xs \<and> opened s = closed s + held_fds xs)"

lemma fds_simps [simp]:
  "opened (note_events [] s) = opened s" "closed (note_events [] s) = closed s"
  "opened (note_events (Shim_open d # es) s) = add_mset d (opened (note_events es s))"
  "closed (note_events (Shim_open d # es) s) = closed (note_events es s)"
  "opened (note_events (Shim_close d # es) s) = opened (note_events es s)"
  "closed (note_events (Shim_close d # es) s) = add_mset d (closed (note_events es s))"
  "opened (note_events (Shim_request q # es) s) = opened (note_events es s)"
  "closed (note_events (Shim_request q # es) s) = closed (note_events es s)"
  "opened (note_events (Real_destroy bo # es) s) = opened (note_events es s)"
  "closed (note_events (Real_destroy bo # es) s) = closed (note_events es s)"
  "opened (remember_bo b v s) = opened s" "closed (remember_bo b v s) = closed s"
  by (simp_all add: opened_def closed_def note_events_def remember_bo_def List.map_filter_def)

text \<open>The kernel's and the allocator's promises: a reply that carries a descriptor is complete, descriptors are
  not negative, and an address that is given out is not in use.\<close>

definition answers_ok :: "gbm_answers \<Rightarrow> bool" where
  "answers_ok a \<longleftrightarrow> (\<forall>n reply d. ga_reply a = Some (n, reply, Some d) \<longrightarrow> n = REPLY_SIZE \<and> 0 \<le> d) \<and>
     (\<forall>m b. ga_calloc a m = Some b \<longrightarrow> m b = None)"

inductive gbm_step :: "shim \<Rightarrow> shim \<Rightarrow> bool" where
  create: "answers_ok a \<Longrightarrow> gbm_step s (snd (create_token_bo a width height format modifier s))"
| destroy: "gbm_bo_destroy real bo s = Some s' \<Longrightarrow> gbm_step s s'"
| set_user_data: "gbm_bo_set_user_data real bo data s = Some s' \<Longrightarrow> gbm_step s s'"

lemma note_events_bos [simp]: "sh_bos (note_events es s) = sh_bos s"
  by (simp add: note_events_def)

lemma note_events_twice [simp]: "note_events fs (note_events es s) = note_events (es @ fs) s"
  by (simp add: note_events_def)

lemma note_events_nil [simp]: "note_events [] s = s"
  by (simp add: note_events_def)

lemma connect_tvg_cases:
  "connect_tvg a s = (None, s) \<or> (\<exists>fd. connect_tvg a s = (None, note_events [Shim_open fd, Shim_close fd] s)) \<or>
   (\<exists>fd. connect_tvg a s = (Some fd, note_events [Shim_open fd] s))"
  by (auto simp: connect_tvg_def split: option.splits)

lemma receive_reply_cases:
  "answers_ok a \<Longrightarrow> (\<exists>r. receive_reply a s = (-1, r, s)) \<or>
     (\<exists>d r. receive_reply a s = (d, r, note_events [Shim_open d] s) \<and> 0 \<le> d)"
  by (cases "ga_reply a") (auto simp: receive_reply_def answers_ok_def split: option.splits)

text \<open>An allocation that fails leaves no descriptor open; one that succeeds leaves the token's.\<close>

definition creation_failed :: "gbm_event list \<Rightarrow> addr option \<times> shim \<Rightarrow> shim \<Rightarrow> bool" where
  "creation_failed es r s \<longleftrightarrow> r = (None, note_events es s) \<and>
     opened (note_events es s) + closed s = closed (note_events es s) + opened s"

definition creation_done :: "gbm_event list \<Rightarrow> addr \<Rightarrow> gbm_bo \<Rightarrow> addr option \<times> shim \<Rightarrow> shim \<Rightarrow> bool" where
  "creation_done es b v r s \<longleftrightarrow> r = (Some b, remember_bo b v (note_events es s)) \<and>
     opened (note_events es s) + closed s = add_mset (gb_token_fd v) (closed (note_events es s)) + opened s \<and>
     0 \<le> gb_token_fd v \<and> hl_cells (sh_bos s) b = None"

lemmas creation_defs = creation_failed_def creation_done_def create_token_bo_def

lemma create_sent:
  assumes "answers_ok a" "width \<noteq> 0" "height \<noteq> 0" "connect_tvg a s = (Some fd, note_events [Shim_open fd] s)" "ga_send a"
  shows "(\<exists>es. creation_failed es (create_token_bo a width height format modifier s) s) \<or>
    (\<exists>es b v. creation_done es b v (create_token_bo a width height format modifier s) s)"
proof -
  let ?q = "Shim_request (token_request width height format)"
  consider r where "receive_reply a (note_events [Shim_open fd, ?q] s) = (-1, r, note_events [Shim_open fd, ?q] s)"
    | d r where "receive_reply a (note_events [Shim_open fd, ?q] s) = (d, r, note_events [Shim_open fd, ?q, Shim_open d] s)" "0 \<le> d"
    using receive_reply_cases [OF assms(1), of "note_events [Shim_open fd, ?q] s"] by auto
  then show ?thesis
  proof cases
    case 1
    with assms(2-5) have "creation_failed [Shim_open fd, ?q, Shim_close fd] (create_token_bo a width height format modifier s) s"
      by (simp add: creation_defs)
    then show ?thesis by blast
  next
    case (2 d r)
    let ?es = "[Shim_open fd, ?q, Shim_open d, Shim_close fd]"
    show ?thesis
    proof (cases "rp_magic r \<noteq> TVG_MAGIC \<or> rp_status r \<noteq> 0 \<or> ga_calloc a (hl_cells (sh_bos s)) = None")
      case True
      with assms(2-5) 2 have "creation_failed (?es @ [Shim_close d]) (create_token_bo a width height format modifier s) s"
        by (auto simp: creation_defs Let_def)
      then show ?thesis by blast
    next
      case False
      then obtain b where "ga_calloc a (hl_cells (sh_bos s)) = Some b" by auto
      with False assms 2 have "creation_done ?es b (new_bo d width height r format modifier)
          (create_token_bo a width height format modifier s) s"
        by (auto simp: creation_defs answers_ok_def new_bo_def Let_def)
      then show ?thesis by blast
    qed
  qed
qed

lemma create_token_cases:
  assumes "answers_ok a"
  shows "(\<exists>es. creation_failed es (create_token_bo a width height format modifier s) s) \<or>
    (\<exists>es b v. creation_done es b v (create_token_bo a width height format modifier s) s)"
proof -
  consider "width = 0 \<or> height = 0 \<or> connect_tvg a s = (None, s)"
    | fd where "width \<noteq> 0" "height \<noteq> 0" "connect_tvg a s = (None, note_events [Shim_open fd, Shim_close fd] s)"
    | fd where "width \<noteq> 0" "height \<noteq> 0" "connect_tvg a s = (Some fd, note_events [Shim_open fd] s)"
    using connect_tvg_cases [of a s] by blast
  then show ?thesis
  proof cases
    case 1
    then have "creation_failed [] (create_token_bo a width height format modifier s) s" by (auto simp: creation_defs)
    then show ?thesis by blast
  next
    case (2 fd)
    then have "creation_failed [Shim_open fd, Shim_close fd] (create_token_bo a width height format modifier s) s"
      by (simp add: creation_defs)
    then show ?thesis by blast
  next
    case (3 fd)
    show ?thesis
    proof (cases "ga_send a")
      case True
      then show ?thesis using create_sent [OF assms 3] by blast
    next
      case False
      with 3 have "creation_failed [Shim_open fd, Shim_close fd] (create_token_bo a width height format modifier s) s"
        by (simp add: creation_defs)
      then show ?thesis by blast
    qed
  qed
qed

lemma create_shim_inv:
  assumes "answers_ok a" "shim_inv s"
  shows "shim_inv (snd (create_token_bo a width height format modifier s))"
proof -
  obtain xs where xs: "shim_rep s xs" "opened s = closed s + held_fds xs" using assms(2) by (auto simp: shim_inv_def)
  from create_token_cases [OF assms(1), of width height format modifier s] show ?thesis
  proof (elim disjE exE)
    fix es assume "creation_failed es (create_token_bo a width height format modifier s) s"
    with xs show ?thesis by (auto simp: shim_inv_def creation_failed_def ac_simps)
  next
    fix es b v assume "creation_done es b v (create_token_bo a width height format modifier s) s"
    then have d: "create_token_bo a width height format modifier s = (Some b, remember_bo b v (note_events es s))"
      "opened (note_events es s) + closed s = add_mset (gb_token_fd v) (closed (note_events es s)) + opened s"
      "0 \<le> gb_token_fd v" "hl_cells (sh_bos s) b = None"
      by (simp_all add: creation_done_def)
    have "b \<notin> fst ` set xs" using d(4) xs(1) by (auto simp: shim_rep_def hl_rep_def)
    then have "shim_rep (remember_bo b v (note_events es s)) ((b, v) # xs)"
      using remember_bo_rep [of "note_events es s" xs b v] xs(1) d(3) by simp
    moreover have "opened (note_events es s) = closed (note_events es s) + held_fds ((b, v) # xs)"
      using d(2) xs(2) by (simp add: held_fds_def)
    ultimately show ?thesis using d(1) by (auto simp: shim_inv_def)
  qed
qed

lemma destroy_shim_inv:
  assumes "gbm_bo_destroy real bo s = Some s'" "shim_inv s"
  shows "shim_inv s'"
proof -
  obtain xs where xs: "shim_rep s xs" "opened s = closed s + held_fds xs" using assms(2) by (auto simp: shim_inv_def)
  show ?thesis
  proof (cases "bo \<in> Some ` fst ` set xs")
    case True
    then obtain b v where b: "bo = Some b" "(b, v) \<in> set xs" by auto
    obtain t where t: "gbm_bo_destroy real bo s = Some t" "shim_rep t (filter (\<lambda>x. fst x \<noteq> b) xs)"
      "sh_log t = sh_log s @ [Shim_close (gb_token_fd v)]"
      using destroy_token [OF xs(1) b(2)] b(1) by blast
    have "remove1 (b, v) xs = filter (\<lambda>x. fst x \<noteq> b) xs"
      by (rule remove1_handle [OF _ b(2)]) (use xs(1) in \<open>simp add: shim_rep_def hl_rep_def\<close>)
    then have "mset xs = add_mset (b, v) (mset (filter (\<lambda>x. fst x \<noteq> b) xs))"
      using b(2) mset_remove1 [of "(b, v)" xs] by simp
    then have "held_fds xs = add_mset (gb_token_fd v) (held_fds (filter (\<lambda>x. fst x \<noteq> b) xs))"
      by (simp add: held_fds_def mset_map del: mset_filter)
    moreover have "opened t = opened s" "closed t = add_mset (gb_token_fd v) (closed s)"
      using t(3) by (simp_all add: opened_def closed_def List.map_filter_def)
    ultimately show ?thesis using t xs(2) assms(1) by (auto simp: shim_inv_def)
  next
    case False
    then show ?thesis using destroy_other [OF xs(1) False] assms(1) xs by (auto simp: shim_inv_def)
  qed
qed

lemma set_user_data_inv:
  assumes "gbm_bo_set_user_data real bo data s = Some s'" "shim_inv s"
  shows "shim_inv s'"
proof -
  obtain xs where xs: "shim_rep s xs" "opened s = closed s + held_fds xs" using assms(2) by (auto simp: shim_inv_def)
  show ?thesis
  proof (cases "is_token_bo bo s = Some True")
    case True
    then obtain b c where b: "hl_cells (sh_bos s) b = Some c"
      "s' = s\<lparr>sh_bos := (sh_bos s)\<lparr>hl_cells := (hl_cells (sh_bos s))
         (b \<mapsto> c\<lparr>c_value := (c_value c)\<lparr>gb_user_data := data\<rparr>\<rparr>)\<rparr>\<rparr>"
      using assms(1) by (auto simp: gbm_bo_set_user_data_def bind_eq_Some_conv)
    let ?ys = "map (\<lambda>(a, v). (a, if a = b then v\<lparr>gb_user_data := data\<rparr> else v)) xs"
    have "shim_rep s' ?ys"
      using xs(1) hl_update_rep [OF _ b(1), of xs "\<lambda>v. v\<lparr>gb_user_data := data\<rparr>"] by (auto simp: shim_rep_def b(2))
    moreover have "held_fds ?ys = held_fds xs" unfolding held_fds_def by (simp add: comp_def split_def if_distrib cong: if_cong)
    moreover have "opened s' = opened s" "closed s' = closed s" by (simp_all add: b(2) opened_def closed_def)
    ultimately show ?thesis using xs(2) by (auto simp: shim_inv_def)
  next
    case False
    then have "s' = (if real then note_events [Real_set_user_data bo data] s else s)"
      using assms(1) is_token_bo_rep [OF xs(1)] by (auto simp: gbm_bo_set_user_data_def)
    moreover have "opened (note_events [Real_set_user_data bo data] s) = opened s"
      "closed (note_events [Real_set_user_data bo data] s) = closed s"
      by (simp_all add: opened_def closed_def note_events_def List.map_filter_def)
    ultimately show ?thesis using xs by (auto simp: shim_inv_def)
  qed
qed

interpretation shim_runs: transition_system gbm_step shim_inv
  by unfold_locales (auto elim!: gbm_step.cases intro: create_shim_inv destroy_shim_inv set_user_data_inv)

lemma initial_shim_inv: "shim_inv initial_shim"
  by (auto simp: shim_inv_def shim_rep_def initial_shim_def hl_empty_rep opened_def closed_def held_fds_def
      List.map_filter_def intro!: exI [of _ "[]"])

section \<open>Properties\<close>


text \<open>A service that grants what it is asked, as the guest sees it.\<close>

definition granting :: gbm_answers where
  "granting = \<lparr>ga_path = Some ''/tvgd.sock'', ga_socket = Some 5, ga_connect = (\<lambda>_. True), ga_send = True,
     ga_reply = Some (REPLY_SIZE, zero_reply\<lparr>rp_magic := TVG_MAGIC, rp_stride := 1024, rp_inode := 77\<rparr>, Some 6),
     ga_calloc = (\<lambda>m. if m 40 = None then Some 40 else None)\<rparr>"


text \<open>What the guest receives when the service answers: the reply, and its own number for the descriptor.\<close>

definition service_reply :: "fd \<Rightarrow> tvg \<Rightarrow> (nat \<times> tvg_alloc_reply \<times> fd option) option" where
  "service_reply guest_fd h = (case last (tv_log h) of
       Reply c passed reply \<Rightarrow> Some (REPLY_SIZE, reply, map_option (\<lambda>_. guest_fd) passed) | _ \<Rightarrow> None)"

lemma granted_reply:
  assumes "alloc_token ans (token_request width height format) = (Inr t, es)"
  shows "service_reply d (handle_client ans up c (Some (token_request width height format)) h) =
      Some (REPLY_SIZE, \<lparr>rp_magic = TVG_MAGIC, rp_status = 0, rp_stride = tk_stride t, rp_format = tk_format t,
        rp_inode = tk_inode t\<rparr>, Some d)"
    "tv_tokens (handle_client ans up c (Some (token_request width height format)) h) = t # tv_tokens h"
    "tk_width t = width" "tk_height t = height" "tk_format t = format" "tk_stride t = width * 4"
  using assms by (auto simp: service_reply_def handle_client_def token_request_def TVG_REQUEST_ALLOC_def TVG_REQUEST_REGISTER_def
      tell_def alloc_token_def request_stride_def Let_def split: if_splits option.splits prod.splits)

lemma refused_reply:
  assumes "alloc_token ans (token_request width height format) = (Inl status, es)"
  shows "service_reply d (handle_client ans up c (Some (token_request width height format)) h) =
      Some (REPLY_SIZE, \<lparr>rp_magic = TVG_MAGIC, rp_status = status, rp_stride = 0, rp_format = 0, rp_inode = 0\<rparr>, None)"
  using assms by (simp add: service_reply_def handle_client_def token_request_def TVG_REQUEST_ALLOC_def TVG_REQUEST_REGISTER_def
      tell_def)

lemma new_bo_stride:
  "rp_stride r = width * 4 \<Longrightarrow> new_bo d width height r format modifier =
     \<lparr>gb_token_fd = d, gb_width = width, gb_height = height, gb_stride = width * 4, gb_format = format,
      gb_modifier = modifier, gb_user_data = None\<rparr>"
  by (simp add: new_bo_def)

text \<open>C13: guest and host agree on every token. When the host's service grants the shim's request, the buffer object has
  the width, height, format and stride of the token that the host finds behind the descriptor, and its queries answer
  with them; when the service refuses, the shim gives no buffer.\<close>

theorem gbm_token_matches_host:
  assumes "width \<noteq> 0" "height \<noteq> 0" "ga_path a = Some path" "path \<noteq> []" "ga_socket a = Some fd"
    "ga_connect a (take 107 path)" "ga_send a" "0 \<le> d" "ga_calloc a (hl_cells (sh_bos s)) = Some b"
    "ga_reply a = service_reply d (handle_client ans up c (Some (token_request width height format)) h)"
  shows "case fst (alloc_token ans (token_request width height format)) of
      Inl status \<Rightarrow> fst (create_token_bo a width height format modifier s) = None
    | Inr t \<Rightarrow> \<exists>s'. create_token_bo a width height format modifier s = (Some b, s') \<and>
        tvg_scanout_lookup_fd d (Some (tk_device t, tk_inode t))
          (handle_client ans up c (Some (token_request width height format)) h) = Some t \<and>
        gbm_bo_get_stride real (Some b) s' = Some (tk_stride t) \<and> gbm_bo_get_width real (Some b) s' = Some (tk_width t) \<and>
        gbm_bo_get_height real (Some b) s' = Some (tk_height t) \<and> gbm_bo_get_format real (Some b) s' = Some (tk_format t) \<and>
        gbm_bo_get_fd dup real_fd (Some b) s' = Some (dup d)"
proof (cases "alloc_token ans (token_request width height format)")
  case (Pair r es)
  show ?thesis
  proof (cases r)
    case (Inl status)
    with refused_reply [of ans width height format status es d up c h] Pair assms show ?thesis
      by (simp add: create_token_bo_def connect_tvg_def receive_reply_def SUN_PATH_def)
  next
    case (Inr t)
    with Pair have "alloc_token ans (token_request width height format) = (Inr t, es)" by simp
    note g = granted_reply [OF this]
    let ?v = "\<lparr>gb_token_fd = d, gb_width = width, gb_height = height, gb_stride = width * 4, gb_format = format,
      gb_modifier = modifier, gb_user_data = None\<rparr>"
    obtain s1 where c: "create_token_bo a width height format modifier s = (Some b, remember_bo b ?v s1)"
      using g Pair Inr assms by (simp add: create_token_bo_def connect_tvg_def receive_reply_def SUN_PATH_def new_bo_stride)
    have "is_token_bo (Some b) (remember_bo b ?v s1) = Some True" "bo_at (Some b) (remember_bo b ?v s1) = Some ?v"
      by (simp_all add: is_token_bo_def bo_at_def remember_bo_def hl_push_def hl_find.simps)
    moreover have "tvg_scanout_lookup_fd d (Some (tk_device t, tk_inode t))
          (handle_client ans up c (Some (token_request width height format)) h) = Some t"
      using g Pair Inr assms(8) by (simp add: tvg_scanout_lookup_fd_def)
    ultimately show ?thesis
      using c g Pair Inr assms(8)
      by (simp add: gbm_bo_get_stride_def gbm_bo_get_width_def gbm_bo_get_height_def gbm_bo_get_format_def gbm_bo_get_fd_def
          answer_def)
  qed
qed

theorem gbm_token_matches_host_witness:
  "\<exists>s'. create_token_bo (granting\<lparr>ga_reply := service_reply 6
       (handle_client yes_answers True 4 (Some (token_request 256 128 0x34324241)) initial_tvg)\<rparr>)
       256 128 0x34324241 0 initial_shim = (Some 40, s') \<and>
     gbm_bo_get_stride None (Some 40) s' = Some 1024"
proof -
  let ?a = "granting\<lparr>ga_reply := service_reply 6
    (handle_client yes_answers True 4 (Some (token_request 256 128 0x34324241)) initial_tvg)\<rparr>"
  obtain t where "fst (alloc_token yes_answers (token_request 256 128 0x34324241)) = Inr t" "tk_stride t = 1024"
    by (simp add: alloc_token_def yes_answers_def token_request_def request_stride_def Let_def)
  moreover have "ga_path ?a = Some ''/tvgd.sock''" "ga_socket ?a = Some 5" "ga_connect ?a (take 107 ''/tvgd.sock'')" "ga_send ?a"
    "ga_calloc ?a (hl_cells (sh_bos initial_shim)) = Some 40"
    by (simp_all add: granting_def initial_shim_def hl_empty_def)
  ultimately show ?thesis
    using gbm_token_matches_host [of 256 128 ?a "''/tvgd.sock''" 5 6 initial_shim 40 yes_answers True 4 "0x34324241" initial_tvg 0 None
        "\<lambda>d. d" None]
    by auto
qed

end
