(* ===== verification/Udev_Compat.thy ===== *)
theory Udev_Compat
  imports Handle_List
begin

text \<open>
  The libudev preload library (\<^verbatim>\<open>compat/src/libtrierarch-udev-compat.c\<close>): where the real library cannot open
  a monitor, the caller gets an idle one that is an \<^verbatim>\<open>eventfd\<close>; every other monitor stays with the real
  library. The handle of a fallback is the address of its cell. The real functions are arguments and may
  be missing; \<^verbatim>\<open>errno\<close> is recorded where this code writes it. Diagnostics are left out.
\<close>

record compat_monitor =
  cm_public_handle :: addr
  cm_fd :: fd

datatype udev_event = Eventfd_open fd | Eventfd_close fd

record udev_shim =
  us_monitors :: "compat_monitor hlist"
  us_errno :: int
  us_log :: "udev_event list"

definition initial_udev :: udev_shim where
  "initial_udev = \<lparr>us_monitors = hl_empty, us_errno = 0, us_log = []\<rparr>"

definition EAGAIN :: int where "EAGAIN = 11"
definition ENOMEM :: int where "ENOMEM = 12"
definition ENOSYS :: int where "ENOSYS = 38"

definition find_compat_monitor :: "addr option \<Rightarrow> udev_shim \<Rightarrow> addr option option" where
  "find_compat_monitor monitor s =
     hl_find (hl_cells (us_monitors s)) (\<lambda>_ v. Some (cm_public_handle v) = monitor) (hl_head (us_monitors s))"

definition remove_compat_monitor :: "addr option \<Rightarrow> udev_shim \<Rightarrow> (addr option \<times> udev_shim) option" where
  "remove_compat_monitor monitor s =
     do { (found, l) \<leftarrow> hl_unlink (\<lambda>_ v. Some (cm_public_handle v) = monitor) None (hl_head (us_monitors s)) (us_monitors s);
          Some (found, s\<lparr>us_monitors := l\<rparr>) }"

definition remember_monitor :: "addr \<Rightarrow> compat_monitor \<Rightarrow> udev_shim \<Rightarrow> udev_shim" where
  "remember_monitor a v s = s\<lparr>us_monitors := hl_push a v (us_monitors s)\<rparr>"

text \<open>
  \<open>real\<close> is what the real function returned, \<open>None\<close> when there is no such function; \<open>calloc\<close>
  and \<open>eventfd\<close> are the results of these calls.
\<close>

definition udev_monitor_new_from_netlink ::
  "addr option option \<Rightarrow> ((addr \<rightharpoonup> compat_monitor cell) \<Rightarrow> addr option) \<Rightarrow> fd option \<Rightarrow> udev_shim \<Rightarrow> addr option \<times> udev_shim" where
  "udev_monitor_new_from_netlink real calloc eventfd s = (case real of
       None \<Rightarrow> (None, s\<lparr>us_errno := ENOSYS\<rparr>)
     | Some (Some monitor) \<Rightarrow> (Some monitor, s)
     | Some None \<Rightarrow>
         (case calloc (hl_cells (us_monitors s)) of
            None \<Rightarrow> (None, s\<lparr>us_errno := ENOMEM\<rparr>)
          | Some a \<Rightarrow>
              (case eventfd of
                 None \<Rightarrow> (None, s)
               | Some d \<Rightarrow> (Some a, remember_monitor a \<lparr>cm_public_handle = a, cm_fd = d\<rparr>
                   (s\<lparr>us_log := us_log s @ [Eventfd_open d]\<rparr>)))))"

definition udev_monitor_unref :: "(addr option \<Rightarrow> addr option) option \<Rightarrow> addr option \<Rightarrow> udev_shim \<Rightarrow>
    (addr option \<times> udev_shim) option" where
  "udev_monitor_unref real monitor s =
     do { (found, s1) \<leftarrow> remove_compat_monitor monitor s;
          (case found of
             Some a \<Rightarrow>
               do { c \<leftarrow> hl_cells (us_monitors s1) a;
                    Some (None, s1\<lparr>us_log := us_log s1 @ [Eventfd_close (cm_fd (c_value c))],
                      us_monitors := hl_release a (us_monitors s1)\<rparr>) }
           | None \<Rightarrow> Some (case real of None \<Rightarrow> None | Some f \<Rightarrow> f monitor, s1)) }"

definition udev_monitor_filter_add_match_subsystem_devtype :: "(addr option \<Rightarrow> int) option \<Rightarrow> addr option \<Rightarrow> udev_shim \<Rightarrow> int option" where
  "udev_monitor_filter_add_match_subsystem_devtype real monitor s =
     do { found \<leftarrow> find_compat_monitor monitor s;
          Some (if found \<noteq> None then 0 else case real of None \<Rightarrow> -1 | Some f \<Rightarrow> f monitor) }"

definition udev_monitor_enable_receiving :: "(addr option \<Rightarrow> int) option \<Rightarrow> addr option \<Rightarrow> udev_shim \<Rightarrow> int option" where
  "udev_monitor_enable_receiving real monitor s =
     do { found \<leftarrow> find_compat_monitor monitor s;
          Some (if found \<noteq> None then 0 else case real of None \<Rightarrow> -1 | Some f \<Rightarrow> f monitor) }"

definition udev_monitor_get_fd :: "(addr option \<Rightarrow> fd) option \<Rightarrow> addr option \<Rightarrow> udev_shim \<Rightarrow> fd option" where
  "udev_monitor_get_fd real monitor s =
     do { found \<leftarrow> find_compat_monitor monitor s;
          (case found of
             Some a \<Rightarrow> map_option (\<lambda>c. cm_fd (c_value c)) (hl_cells (us_monitors s) a)
           | None \<Rightarrow> Some (case real of None \<Rightarrow> -1 | Some f \<Rightarrow> f monitor)) }"

definition udev_monitor_receive_device ::
  "(addr option \<Rightarrow> addr option) option \<Rightarrow> addr option \<Rightarrow> udev_shim \<Rightarrow> (addr option \<times> udev_shim) option" where
  "udev_monitor_receive_device real monitor s =
     do { found \<leftarrow> find_compat_monitor monitor s;
          Some (if found \<noteq> None then (None, s\<lparr>us_errno := EAGAIN\<rparr>)
                else (case real of None \<Rightarrow> None | Some f \<Rightarrow> f monitor, s)) }"

section \<open>The registry of fallbacks\<close>

definition udev_rep :: "udev_shim \<Rightarrow> (addr \<times> compat_monitor) list \<Rightarrow> bool" where
  "udev_rep s xs \<longleftrightarrow> hl_rep (us_monitors s) xs \<and> (\<forall>(a, v) \<in> set xs. cm_public_handle v = a)"

lemma find_monitor:
  assumes "\<forall>(a, v) \<in> set xs. cm_public_handle v = a" "distinct (map fst xs)"
  shows "List.find (\<lambda>(a, v). Some (cm_public_handle v) = monitor) xs =
    (case monitor of None \<Rightarrow> None | Some m \<Rightarrow> map_option (Pair m) (map_of xs m))"
  using assms by (induction xs) (auto split: option.splits)

lemma find_compat_monitor_rep:
  assumes "udev_rep s xs"
  shows "find_compat_monitor monitor s = Some (case monitor of None \<Rightarrow> None | Some m \<Rightarrow> map_option (\<lambda>_. m) (map_of xs m))"
proof -
  have "hl_rep (us_monitors s) xs" "\<forall>(a, v) \<in> set xs. cm_public_handle v = a" "distinct (map fst xs)"
    using assms by (simp_all add: udev_rep_def hl_rep_def)
  then show ?thesis
    using hl_find_rep [of "us_monitors s" xs "\<lambda>_ v. Some (cm_public_handle v) = monitor"] find_monitor [of xs monitor]
    by (auto simp: find_compat_monitor_def option.map_comp comp_def split: option.splits)
qed

lemma unref_fallback:
  assumes "udev_rep s xs" "map_of xs m = Some v"
  shows "\<exists>s'. udev_monitor_unref real (Some m) s = Some (None, s') \<and> udev_rep s' (filter (\<lambda>x. fst x \<noteq> m) xs) \<and>
    us_log s' = us_log s @ [Eventfd_close (cm_fd v)]"
proof -
  have r: "hl_rep (us_monitors s) xs" "\<forall>(a, v) \<in> set xs. cm_public_handle v = a" "distinct (map fst xs)"
    using assms(1) by (simp_all add: udev_rep_def hl_rep_def)
  obtain l c where "hl_unlink (\<lambda>_ v. Some (cm_public_handle v) = Some m) None (hl_head (us_monitors s)) (us_monitors s) =
      Some (Some m, l)" "hl_cells l m = Some c" "c_value c = v" "hl_rep (hl_release m l) (filter (\<lambda>x. fst x \<noteq> m) xs)"
    using hl_unlink_rep [OF r(1), of "\<lambda>_ v. Some (cm_public_handle v) = Some m"] find_monitor [OF r(2,3), of "Some m"] assms(2)
    by auto
  with r(2) show ?thesis by (auto simp: udev_monitor_unref_def remove_compat_monitor_def udev_rep_def)
qed

lemma unref_other:
  assumes "udev_rep s xs" "\<And>m. monitor = Some m \<Longrightarrow> map_of xs m = None"
  shows "udev_monitor_unref real monitor s = Some (case real of None \<Rightarrow> None | Some f \<Rightarrow> f monitor, s)"
proof -
  have r: "hl_rep (us_monitors s) xs" "\<forall>(a, v) \<in> set xs. cm_public_handle v = a" "distinct (map fst xs)"
    using assms(1) by (simp_all add: udev_rep_def hl_rep_def)
  have "List.find (\<lambda>(a, v). Some (cm_public_handle v) = monitor) xs = None"
    using find_monitor [OF r(2,3), of monitor] assms(2) by (auto split: option.splits)
  then have "hl_unlink (\<lambda>_ v. Some (cm_public_handle v) = monitor) None (hl_head (us_monitors s)) (us_monitors s) =
      Some (None, us_monitors s)"
    using hl_unlink_rep [OF r(1), of "\<lambda>_ v. Some (cm_public_handle v) = monitor"] by simp
  then show ?thesis by (simp add: udev_monitor_unref_def remove_compat_monitor_def)
qed

lemma remember_monitor_rep:
  "udev_rep s xs \<Longrightarrow> a \<notin> fst ` set xs \<Longrightarrow> cm_public_handle v = a \<Longrightarrow> udev_rep (remember_monitor a v s) ((a, v) # xs)"
  by (simp add: udev_rep_def remember_monitor_def hl_push_rep)

interpretation monitors: handle_registry udev_rep "\<lambda>m s. map_option (\<lambda>r. r \<noteq> None) (find_compat_monitor m s)"
  remember_monitor "\<lambda>a s. map_option snd (udev_monitor_unref real (Some a) s)" "\<lambda>a v. cm_public_handle v = a" for real
proof
  fix s xs p assume s: "udev_rep s xs"
  then have d: "distinct (map fst xs)" by (simp add: udev_rep_def hl_rep_def)
  show "map_option (\<lambda>r. r \<noteq> None) (find_compat_monitor p s) = Some (\<exists>a v. p = Some a \<and> (a, v) \<in> set xs)"
    using d by (auto simp: find_compat_monitor_rep [OF s] map_of_eq_None_iff split: option.splits)
next
  fix s xs a assume s: "udev_rep s xs"
  show "\<exists>s'. map_option snd (udev_monitor_unref real (Some a) s) = Some s' \<and> udev_rep s' (filter (\<lambda>x. fst x \<noteq> a) xs)"
  proof (cases "map_of xs a")
    case None
    then have "filter (\<lambda>x. fst x \<noteq> a) xs = xs" by (auto simp: filter_id_conv map_of_eq_None_iff)
    with None s unref_other [OF s, of "Some a"] show ?thesis by auto
  next
    case (Some v)
    from unref_fallback [OF s this, of real] show ?thesis by auto
  qed
qed (rule remember_monitor_rep)

section \<open>Properties\<close>

definition eventfds_opened :: "udev_shim \<Rightarrow> fd multiset" where
  "eventfds_opened s = mset (List.map_filter (\<lambda>e. case e of Eventfd_open d \<Rightarrow> Some d | _ \<Rightarrow> None) (us_log s))"

definition eventfds_closed :: "udev_shim \<Rightarrow> fd multiset" where
  "eventfds_closed s = mset (List.map_filter (\<lambda>e. case e of Eventfd_close d \<Rightarrow> Some d | _ \<Rightarrow> None) (us_log s))"

definition fallback_fds :: "(addr \<times> compat_monitor) list \<Rightarrow> fd multiset" where
  "fallback_fds xs = mset (map (cm_fd \<circ> snd) xs)"

definition udev_ok :: "udev_shim \<Rightarrow> (addr \<times> compat_monitor) list \<Rightarrow> bool" where
  "udev_ok s xs \<longleftrightarrow> udev_rep s xs \<and> eventfds_opened s = eventfds_closed s + fallback_fds xs"

definition udev_inv :: "udev_shim \<Rightarrow> bool" where
  "udev_inv s \<longleftrightarrow> (\<exists>xs. udev_ok s xs)"

lemmas eventfd_defs = eventfds_opened_def eventfds_closed_def fallback_fds_def List.map_filter_def

lemma udev_ok_errno [simp]: "udev_ok (s\<lparr>us_errno := e\<rparr>) xs = udev_ok s xs"
  by (simp add: udev_ok_def udev_rep_def eventfds_opened_def eventfds_closed_def)

text \<open>The calls that change the registry; the allocator gives no address that is in use.\<close>

inductive udev_step :: "udev_shim \<Rightarrow> udev_shim \<Rightarrow> bool" where
  new: "(\<And>m a. calloc m = Some a \<Longrightarrow> m a = None) \<Longrightarrow>
    udev_step s (snd (udev_monitor_new_from_netlink real calloc eventfd s))"
| unref: "udev_monitor_unref real monitor s = Some (r, s') \<Longrightarrow> udev_step s s'"
| receive: "udev_monitor_receive_device real monitor s = Some (r, s') \<Longrightarrow> udev_step s s'"

lemma new_monitor_ok:
  assumes "udev_ok s xs" "\<And>m a. calloc m = Some a \<Longrightarrow> m a = None"
  shows "udev_inv (snd (udev_monitor_new_from_netlink real calloc eventfd s))"
proof (cases "real = Some None \<and> calloc (hl_cells (us_monitors s)) \<noteq> None \<and> eventfd \<noteq> None")
  case True
  then obtain a d where a: "calloc (hl_cells (us_monitors s)) = Some a" "eventfd = Some d" by auto
  let ?s = "s\<lparr>us_log := us_log s @ [Eventfd_open d]\<rparr>"
  have "a \<notin> fst ` set xs" using assms(2) [OF a(1)] assms(1) by (auto simp: udev_ok_def udev_rep_def hl_rep_def)
  moreover have "udev_rep ?s xs" using assms(1) by (simp add: udev_ok_def udev_rep_def)
  ultimately have "udev_rep (remember_monitor a \<lparr>cm_public_handle = a, cm_fd = d\<rparr> ?s) ((a, \<lparr>cm_public_handle = a, cm_fd = d\<rparr>) # xs)"
    by (simp add: remember_monitor_rep)
  then have "udev_ok (remember_monitor a \<lparr>cm_public_handle = a, cm_fd = d\<rparr> ?s) ((a, \<lparr>cm_public_handle = a, cm_fd = d\<rparr>) # xs)"
    using assms(1) by (simp add: udev_ok_def remember_monitor_def eventfd_defs)
  with True a show ?thesis by (auto simp: udev_inv_def udev_monitor_new_from_netlink_def)
next
  case False
  then have "udev_ok (snd (udev_monitor_new_from_netlink real calloc eventfd s)) xs"
    using assms(1) by (auto simp: udev_monitor_new_from_netlink_def split: option.splits)
  then show ?thesis by (auto simp: udev_inv_def)
qed

lemma unref_ok:
  assumes "udev_ok s xs" "udev_monitor_unref real monitor s = Some (r, s')"
  shows "udev_inv s'"
proof (cases "\<exists>m v. monitor = Some m \<and> map_of xs m = Some v")
  case True
  then obtain m v where m: "monitor = Some m" "map_of xs m = Some v" by blast
  have x: "udev_rep s xs" "distinct (map fst xs)" using assms(1) by (simp_all add: udev_ok_def udev_rep_def hl_rep_def)
  have s': "udev_rep s' (filter (\<lambda>x. fst x \<noteq> m) xs)" "us_log s' = us_log s @ [Eventfd_close (cm_fd v)]"
    using unref_fallback [OF x(1) m(2), of real] assms(2) m(1) by auto
  have "(m, v) \<in> set xs" using m(2) by (rule map_of_SomeD)
  then have "mset xs = add_mset (m, v) (mset (filter (\<lambda>x. fst x \<noteq> m) xs))"
    using mset_remove1 [of "(m, v)" xs] remove1_handle [OF x(2)] by simp
  then have "fallback_fds xs = add_mset (cm_fd v) (fallback_fds (filter (\<lambda>x. fst x \<noteq> m) xs))"
    by (simp add: fallback_fds_def mset_map del: mset_filter)
  then have "udev_ok s' (filter (\<lambda>x. fst x \<noteq> m) xs)"
    using s' assms(1) by (simp add: udev_ok_def eventfds_opened_def eventfds_closed_def List.map_filter_def)
  then show ?thesis by (auto simp: udev_inv_def)
next
  case False
  then have "map_of xs m = None" if "monitor = Some m" for m using that by (cases "map_of xs m") auto
  then have "s' = s" using unref_other [of s xs monitor real] assms by (auto simp: udev_ok_def)
  then show ?thesis using assms(1) by (auto simp: udev_inv_def)
qed

lemma udev_step_inv: "udev_step s s' \<Longrightarrow> udev_inv s \<Longrightarrow> udev_inv s'"
proof (induction rule: udev_step.induct)
  case (new calloc s real eventfd)
  then show ?case using new_monitor_ok by (auto simp: udev_inv_def [of s])
next
  case (unref real monitor s r s')
  then show ?case using unref_ok by (auto simp: udev_inv_def [of s])
next
  case (receive real monitor s r s')
  then have "s' = s \<or> s' = s\<lparr>us_errno := EAGAIN\<rparr>"
    by (auto simp: udev_monitor_receive_device_def bind_eq_Some_conv split: if_splits)
  with receive.prems show ?case by (auto simp: udev_inv_def)
qed

interpretation udev_runs: transition_system udev_step udev_inv
  by unfold_locales (rule udev_step_inv)

lemma initial_udev_inv: "udev_inv initial_udev"
  by (auto simp: udev_inv_def udev_ok_def udev_rep_def initial_udev_def hl_empty_rep eventfd_defs intro!: exI [of _ "[]"])

text \<open>C27: in every state of the preload library there are fallback monitors, each with its \<^verbatim>\<open>eventfd\<close>, which are the only
  open ones; a call on such a monitor succeeds idly (filters and receiving can be set up, its descriptor is the
  \<^verbatim>\<open>eventfd\<close>, and there is never a device: the answer is \<^verbatim>\<open>EAGAIN\<close>), and a call on any other monitor is
  the real library's call, with nothing of the library's own state changed.\<close>

theorem udev_fallback_contract:
  assumes "udev_step\<^sup>*\<^sup>* initial_udev s"
  shows "\<exists>xs. eventfds_opened s = eventfds_closed s + fallback_fds xs \<and> (\<forall>m. case map_of xs m of
      Some v \<Rightarrow> udev_monitor_filter_add_match_subsystem_devtype f (Some m) s = Some 0 \<and>
        udev_monitor_enable_receiving e (Some m) s = Some 0 \<and>
        udev_monitor_get_fd g (Some m) s = Some (cm_fd v) \<and>
        udev_monitor_receive_device r (Some m) s = Some (None, s\<lparr>us_errno := EAGAIN\<rparr>)
    | None \<Rightarrow> udev_monitor_filter_add_match_subsystem_devtype f (Some m) s = Some (case f of None \<Rightarrow> -1 | Some k \<Rightarrow> k (Some m)) \<and>
        udev_monitor_enable_receiving e (Some m) s = Some (case e of None \<Rightarrow> -1 | Some k \<Rightarrow> k (Some m)) \<and>
        udev_monitor_get_fd g (Some m) s = Some (case g of None \<Rightarrow> -1 | Some k \<Rightarrow> k (Some m)) \<and>
        udev_monitor_receive_device r (Some m) s = Some (case r of None \<Rightarrow> None | Some k \<Rightarrow> k (Some m), s))"
proof -
  have "udev_inv s" using udev_runs.run_inv [OF assms initial_udev_inv] .
  then obtain xs where xs: "udev_rep s xs" "eventfds_opened s = eventfds_closed s + fallback_fds xs"
    by (auto simp: udev_inv_def udev_ok_def)
  have "map_option (\<lambda>c. cm_fd (c_value c)) (hl_cells (us_monitors s) m) = Some (cm_fd v)" if "map_of xs m = Some v" for m v
    using hl_seg_lookup [OF _ map_of_SomeD [OF that], of "hl_cells (us_monitors s)" "hl_head (us_monitors s)" None] xs(1)
    by (auto simp: udev_rep_def hl_rep_def)
  then show ?thesis
    by (intro exI [of _ xs] conjI allI xs(2))
      (auto simp: udev_monitor_filter_add_match_subsystem_devtype_def udev_monitor_enable_receiving_def udev_monitor_get_fd_def
        udev_monitor_receive_device_def find_compat_monitor_rep [OF xs(1)] split: option.splits)
qed

theorem udev_fallback_contract_witness:
  "\<exists>xs. eventfds_opened (snd (udev_monitor_new_from_netlink (Some None) (\<lambda>m. if m 8 = None then Some 8 else None) (Some 3) initial_udev)) =
     eventfds_closed (snd (udev_monitor_new_from_netlink (Some None) (\<lambda>m. if m 8 = None then Some 8 else None) (Some 3) initial_udev)) +
     fallback_fds xs"
proof -
  have "udev_step\<^sup>*\<^sup>* initial_udev
      (snd (udev_monitor_new_from_netlink (Some None) (\<lambda>m. if m 8 = None then Some 8 else None) (Some 3) initial_udev))"
    by (rule r_into_rtranclp, rule udev_step.new) (simp split: if_splits)
  from udev_fallback_contract [OF this] show ?thesis by blast
qed

end
