(* ===== verification/Server_Properties.thy ===== *)
theory Server_Properties
  imports Registry Host_Properties Tvg_Properties
begin

text \<open>
  What the set-up of the host promises: every global it publishes can be bound at every version it offers, and the objects it has made are freed.
\<close>

section \<open>Binding a published global\<close>

text \<open>What a bind leaves of the host: a resource of the client with the version, events for it, and nothing else but the list of the outputs.\<close>

definition bound :: "cid \<Rightarrow> nat \<Rightarrow> rid \<Rightarrow> host \<Rightarrow> host \<Rightarrow> bool" where
  "bound client v r h h' \<longleftrightarrow> h_version h' r = v \<and> h_client h' r = client \<and> h_surfaces h' = h_surfaces h \<and> h_buffers h' = h_buffers h \<and>
     (\<exists>es. h_log h' = h_log h @ es \<and> Post_no_memory client \<notin> set es \<and> Destroyed r \<notin> set es)"

lemma bound_resource:
  assumes "w = v" "Post_no_memory client \<notin> set es" "Destroyed r \<notin> set es"
  shows "bound client v r h (resource_or_error client w (Some r) es h)"
  using assms by (simp add: bound_def resource_or_error_def new_resource_def emits_def)

lemma bound_seat: "v \<le> 9 \<Longrightarrow> bound client v r h (trierarch_seat_bind client v (Some r) h)"
  by (auto simp: bound_def trierarch_seat_bind_def new_resource_def emits_def Let_def)

lemma bound_output: "v \<le> 4 \<Longrightarrow> bound client v r h (trierarch_output_bind client v (Some r) True h)"
  by (auto simp: bound_def trierarch_output_bind_def send_output_state_def output_state_def new_resource_def access_defs emits_def Let_def)

lemmas bind_defs = trierarch_surface_bind_def trierarch_subcompositor_bind_def trierarch_shm_bind_def trierarch_single_pixel_bind_def
  trierarch_viewporter_bind_def trierarch_pointer_constraints_bind_def trierarch_presentation_bind_def trierarch_xdg_shell_bind_def
  trierarch_xdg_output_bind_def trierarch_xdg_decoration_bind_def trierarch_fractional_scale_bind_def trierarch_relative_pointer_bind_def
  trierarch_android_wlegl_bind_def trierarch_data_device_bind_def trierarch_layer_shell_bind_def trierarch_explicit_sync_bind_def

lemma host_inv_bind:
  assumes "host_inv h"
  shows "host_inv (resource_or_error client v res es h)" "host_inv (trierarch_seat_bind client v res h)"
  using assms by (auto simp: resource_or_error_def trierarch_seat_bind_def Let_def split: option.splits)

lemma binders_published: "map fst (binders mem) = map fst published"
  by (simp add: binders_def published_def)

lemma binder_bound:
  assumes "(i, f) \<in> set (binders True)" "(i, n) \<in> set published" "v \<le> n"
  shows "bound client v r h (f client v (Some r) h)"
  using assms unfolding binders_def published_def
  by (auto simp: bind_defs sends_def intro!: bound_resource bound_seat bound_output)

lemma binder_inv:
  assumes "(i, f) \<in> set (binders mem)" "host_inv h"
  shows "host_inv (f client v res h)"
  using assms unfolding binders_def
  by (auto simp: bind_defs intro: host_inv_bind output_inv)

lemma binder_no_memory: "(i, f) \<in> set (binders mem) \<Longrightarrow> f client v None h = emit (Post_no_memory client) h"
  unfolding binders_def
  by (auto simp: bind_defs resource_or_error_def trierarch_seat_bind_def trierarch_output_bind_def)

text \<open>C22: Every global the set-up publishes has a function that binds it. At every version up to the published one, binding gives a resource of the client with exactly the version asked for, touches no surface and no
  buffer, reports no error and keeps the host's invariant; where the resource cannot be made, the client is told that there is no memory and nothing else happens.
\<close>

theorem globals_bind_at_version:
  assumes "(interface, n) \<in> set published" "v \<le> n" "host_inv h"
  shows "(\<exists>h'. bind_global interface client v (Some r) True h = Some h' \<and> bound client v r h h' \<and> host_inv h') \<and>
    bind_global interface client v None mem h = Some (emit (Post_no_memory client) h)"
proof -
  have "\<exists>f. map_of (binders mem) interface = Some f" for mem
    using assms(1) binders_published [of mem] by (metis fst_conv image_eqI list.set_map map_of_eq_None_iff not_None_eq)
  then obtain f g where f: "map_of (binders True) interface = Some f" and g: "map_of (binders mem) interface = Some g" by metis
  note f' = map_of_SomeD [OF f]
  have "\<exists>h'. bind_global interface client v (Some r) True h = Some h' \<and> bound client v r h h' \<and> host_inv h'"
    using binder_bound [OF f' assms(1,2), of client r h] binder_inv [OF f' assms(3), of client v "Some r"] f by (simp add: bind_global_def)
  moreover have "bind_global interface client v None mem h = Some (emit (Post_no_memory client) h)"
    using binder_no_memory [OF map_of_SomeD [OF g], of client v h] g by (simp add: bind_global_def)
  ultimately show ?thesis by blast
qed

theorem globals_bind_at_version_witness:
  "(\<exists>h'. bind_global ''xdg_wm_base'' 3 5 (Some 12) True boot = Some h' \<and> bound 3 5 12 boot h' \<and> host_inv h') \<and>
    bind_global ''xdg_wm_base'' 3 5 None False boot = Some (emit (Post_no_memory 3) boot)"
  by (rule globals_bind_at_version [where n = 6]) (simp_all add: published_def boot_inv)

section \<open>The objects of the server\<close>

text \<open>C21: A set-up that fails has freed everything it had made. After one that succeeds, whatever reporters connect and leave while the host runs, the tear-down frees every object that is left, once.
\<close>

theorem server_objects_freed:
  assumes "create_server a dir d t = (r, as, t')"
  shows "case r of None \<Rightarrow> \<forall>x. balance x (objects_of as) = 0
    | Some s \<Rightarrow> so_valid s \<and> (\<forall>cs s' bs x. serve_all cs s = (s', bs) \<longrightarrow>
        balance x (objects_of (as @ bs)) \<in> {0, 1} \<and> balance x (objects_of (as @ bs @ fst (trierarch_wayland_destroy s' t'))) = 0)"
proof (cases r)
  case None
  then show ?thesis using create_server_objects [OF assms] by simp
next
  case (Some s)
  then have s: "accounts server_owned (objects_of as) s" "so_valid s" "client_watched s" using create_server_objects [OF assms] by simp_all
  have "balance x (objects_of (as @ bs)) \<in> {0, 1} \<and> balance x (objects_of (as @ bs @ fst (trierarch_wayland_destroy s' t'))) = 0"
    if "serve_all cs s = (s', bs)" for cs s' bs x
  proof -
    have a: "accounts server_owned (objects_of as @ objects_of bs) s'" by (rule serve_all_balance [OF that s(3,1)])
    show ?thesis using servers.given_up [OF a, where t = t' and x = x] a by (simp add: accounts_def)
  qed
  with s(2) show ?thesis by (simp add: Some)
qed

definition all_well :: server_answers where
  "all_well = \<lparr>na_calloc = True, na_display = True, na_event_loop = True, na_malloc = True, na_wake_fd = 10, na_telemetry_fd = 11, na_repaint_fd = 12,
     na_wake_source = True, na_settime = True, na_telemetry_source = True, na_repaint_source = True, na_add_socket = True, na_tvg_socket = Some 13,
     na_tvg_bind = True, na_tvg_thread = True, na_errno = 0, na_fb_calloc = True, na_fb_socket = 14, na_fb_bind = True, na_fb_source = True\<rparr>"

lemma all_well_descriptors:
  "watch_descriptors all_well (fst (open_descriptors all_well (fst (copy_runtime_dir all_well (Some dir) s)))) =
     (s\<lparr>so_runtime_dir := Some dir, so_wake_fd := 10, so_telemetry_fd := 11, so_repaint_fd := 12, so_wake_source := True,
        so_telemetry_source := True, so_repaint_source := True\<rparr>, own [Made Wake_source, Made Telemetry_source, Made Repaint_source])"
  by (simp add: all_well_def copy_runtime_dir_def open_descriptors_def watch_descriptors_def make_if_def)

lemma all_well_feedback:
  "fst (feedback_device_create all_well (Some ''/run'')) = Some \<lparr>fo_listener_fd = 14, fo_listener_source = True, fo_client_fd = -1,
     fo_client_source = False, fo_socket_path = ''/run/dmabuf-feedback.sock''\<rparr>"
  by (simp add: all_well_def feedback_device_create_def feedback_zero_def Let_def)

lemma all_well_created:
  assumes "create_server all_well (Some ''/run'') True t = (r, as, t')"
  obtains s d where "r = Some s" "so_feedback s = Some d" "0 \<le> fo_listener_fd d" "fo_client_fd d = -1"
proof -
  have "fst (create_server all_well (Some ''/run'') True t) \<noteq> None \<and>
    (\<exists>d. so_feedback (the (fst (create_server all_well (Some ''/run'') True t))) = Some d \<and> 0 \<le> fo_listener_fd d \<and> fo_client_fd d = -1)"
    using all_well_feedback by (simp add: create_server_def start_services_def split_beta Let_def all_well_descriptors) (simp add: all_well_def server_zero_def)
  then show ?thesis using assms that by auto
qed

theorem server_objects_freed_witness:
  "\<exists>s as t'. create_server all_well (Some ''/run'') True initial_tvg = (Some s, as, t') \<and> so_feedback s \<noteq> None \<and>
     (\<exists>s' bs. serve_all [Connects 20 True] s = (s', bs) \<and> balance Feedback_client_fd (objects_of bs) = 1 \<and>
        balance Feedback_client_fd (objects_of (as @ bs @ fst (trierarch_wayland_destroy s' t'))) = 0)"
proof -
  obtain r as t' where c: "create_server all_well (Some ''/run'') True initial_tvg = (r, as, t')" by (metis prod_cases3)
  obtain s d where r: "r = Some s" "so_feedback s = Some d" "fo_client_fd d = -1" using all_well_created [OF c] by metis
  obtain s' bs where s: "serve_all [Connects 20 True] s = (s', bs)" by (meson surj_pair)
  have b: "balance Feedback_client_fd (objects_of bs) = 1"
    using s r by (simp add: serve_def feedback_accept_def Let_def make_if_def) auto
  have "balance Feedback_client_fd (objects_of (as @ bs @ fst (trierarch_wayland_destroy s' t'))) = 0"
    using server_objects_freed [OF c] s unfolding r(1) option.case by blast
  then show ?thesis using c s b r by (intro exI conjI) auto
qed

end
