(* ===== verification/Gpu_Probe.thy ===== *)
theory Gpu_Probe
  imports C_Strings
begin

text \<open>
  The guest's GPU probe (\<^verbatim>\<open>gpu-probe/guest/gpu_probe_guest.c\<close>, the messages of \<^verbatim>\<open>gpu-probe/protocol.h\<close>): three buffers of the host
  are imported, drawn into in turn and handed over, each guarded by fences. EGL, the sockets and the clock are answers. What the probe does to descriptors and
  buffers is a log.
\<close>

section \<open>Messages\<close>

definition PROBE_MAGIC :: u32 where "PROBE_MAGIC = 0x54524750"
definition PROBE_VERSION :: u16 where "PROBE_VERSION = 6"
definition PROBE_MAX_FDS :: nat where "PROBE_MAX_FDS = 8"
definition PROBE_HOST_BUFFER :: u16 where "PROBE_HOST_BUFFER = 3"
definition PROBE_RESULT :: u16 where "PROBE_RESULT = 4"
definition PROBE_OK :: u32 where "PROBE_OK = 0"
definition PROBE_BUFFER_COUNT :: nat where "PROBE_BUFFER_COUNT = 3"
definition PROBE_FRAME_COUNT :: nat where "PROBE_FRAME_COUNT = 180"

record probe_buffer =
  pb_magic :: u32
  pb_version :: u16
  pb_type :: u16
  pb_width :: u32
  pb_height :: u32
  pb_drm_format :: u32
  pb_stride :: u32
  pb_modifier :: u64
  pb_buffer_id :: u32

record probe_result =
  pr_magic :: u32
  pr_version :: u16
  pr_type :: u16
  pr_result :: u32
  pr_egl_error :: u32
  pr_buffer_id :: u32

text \<open>
  What \<^verbatim>\<open>recvmsg\<close> delivers beside the data: the first control message, whether it carries descriptors, the number of its data bytes
  and the descriptors.
\<close>

record control_message =
  cm_rights :: bool
  cm_bytes :: nat
  cm_fds :: "fd list"

section \<open>Extension strings\<close>

text \<open>\<^verbatim>\<open>strstr\<close> from a position: where the name begins.\<close>

function strstr_from :: "string \<Rightarrow> string \<Rightarrow> nat \<Rightarrow> nat option" where
  "strstr_from s name i =
     (if length s < i then None else if starts_with name (drop i s) then Some i else strstr_from s name (Suc i))"
  by pat_completeness auto
termination by (relation "measure (\<lambda>(s, name, i). Suc (length s) - i)") auto

declare strstr_from.simps [simp del]

lemma strstr_from_bound: "strstr_from s name i = Some j \<Longrightarrow> i \<le> j \<and> j \<le> length s \<and> starts_with name (drop j s)"
proof (induction s name i rule: strstr_from.induct)
  case (1 s name i)
  then show ?case by (subst (asm) strstr_from.simps) (auto split: if_splits)
qed

text \<open>The loop; its caller has excluded the empty name.\<close>

function extension_loop :: "string \<Rightarrow> string \<Rightarrow> nat \<Rightarrow> bool" where
  "extension_loop s name cursor =
     (if name = [] then False
      else case strstr_from s name cursor of
          None \<Rightarrow> False
        | Some j \<Rightarrow>
            if (j = 0 \<or> s ! (j - 1) = CHR '' '') \<and> (j + length name = length s \<or> s ! (j + length name) = CHR '' '') then True
            else extension_loop s name (j + length name))"
  by pat_completeness auto
termination
proof (relation "measure (\<lambda>(s, name, i). Suc (length s) - i)")
  fix s name :: string and cursor j assume "name \<noteq> []" "strstr_from s name cursor = Some j"
  with strstr_from_bound [of s name cursor j]
  show "((s, name, j + length name), s, name, cursor) \<in> measure (\<lambda>(s, name, i). Suc (length s) - i)" by (cases name) auto
qed simp

declare extension_loop.simps [simp del]

definition has_extension :: "string option \<Rightarrow> string \<Rightarrow> bool" where
  "has_extension extensions name = (case extensions of
       None \<Rightarrow> False
     | Some s \<Rightarrow> if name = [] \<or> CHR '' '' \<in> set name then False else extension_loop s name 0)"

section \<open>State\<close>

text \<open>\<open>Drawn i\<close>: slot \<open>i\<close> is rendered into; \<open>Handed i\<close>: it is handed to the host; \<open>Returned i f\<close>: the host gives it back with a fence; \<open>Deleted i\<close>: its framebuffer, texture and image are deleted.\<close>

datatype probe_event = Drawn nat | Handed nat | Returned nat fd | Waited fd | Fd_closed fd | Deleted nat

record guest_slot =
  sl_buffer :: "probe_buffer option"
  sl_image :: bool
  sl_reuse_fence_fd :: fd
  sl_received :: bool
  sl_in_flight :: bool

record probe =
  pg_slots :: "guest_slot list"
  pg_submitted :: nat
  pg_acknowledged :: nat
  pg_log :: "probe_event list"

definition zero_slot :: guest_slot where
  "zero_slot = \<lparr>sl_buffer = None, sl_image = False, sl_reuse_fence_fd = 0, sl_received = False, sl_in_flight = False\<rparr>"

definition zero_probe :: probe where
  "zero_probe = \<lparr>pg_slots = replicate PROBE_BUFFER_COUNT zero_slot, pg_submitted = 0, pg_acknowledged = 0, pg_log = []\<rparr>"

definition upd_slot :: "nat \<Rightarrow> (guest_slot \<Rightarrow> guest_slot) \<Rightarrow> probe \<Rightarrow> probe" where
  "upd_slot i f p = p\<lparr>pg_slots := (pg_slots p)[i := f (pg_slots p ! i)]\<rparr>"

definition say :: "probe_event list \<Rightarrow> probe \<Rightarrow> probe" where
  "say es p = p\<lparr>pg_log := pg_log p @ es\<rparr>"

section \<open>Sockets\<close>

record socket_answers =
  sa_socket :: fd
  sa_connect :: bool
  sa_hello :: bool

definition connect_socket :: "socket_answers \<Rightarrow> string \<Rightarrow> fd \<times> probe_event list" where
  "connect_socket a path =
     (if sa_socket a < 0 then (-1, [])
      else if 108 \<le> length path then (-1, [Fd_closed (sa_socket a)])
      else if \<not> sa_connect a then (-1, [Fd_closed (sa_socket a)])
      else (sa_socket a, []))"

text \<open>
  The two packets of a host buffer: the header, \<open>None\<close> where \<^verbatim>\<open>recv\<close> gives another length, then the handle: the number of bytes, whether it was truncated, the control message.
\<close>

record buffer_packets =
  bp_header :: "probe_buffer option"
  bp_bytes :: int
  bp_truncated :: bool
  bp_control :: "control_message option"

record received_buffer =
  rb_buffer :: probe_buffer
  rb_fds :: "fd list"
  rb_serialized_size :: int

definition buffer_header_ok :: "probe_buffer \<Rightarrow> bool" where
  "buffer_header_ok b \<longleftrightarrow> pb_magic b = PROBE_MAGIC \<and> pb_version b = PROBE_VERSION \<and> pb_type b = PROBE_HOST_BUFFER \<and>
     unat (pb_buffer_id b) < PROBE_BUFFER_COUNT"

definition receive_buffer :: "buffer_packets \<Rightarrow> received_buffer option" where
  "receive_buffer q = (case bp_header q of
       None \<Rightarrow> None
     | Some b \<Rightarrow>
         if \<not> buffer_header_ok b then None
         else if bp_bytes q \<le> 0 \<or> bp_truncated q then None
         else (case bp_control q of
             None \<Rightarrow> None
           | Some c \<Rightarrow>
               if \<not> cm_rights c then None
               else if cm_bytes c mod 4 \<noteq> 0 \<or> cm_bytes c div 4 < 1 \<or> PROBE_MAX_FDS < cm_bytes c div 4 then None
               else Some \<lparr>rb_buffer = b, rb_fds = take (cm_bytes c div 4) (cm_fds c), rb_serialized_size = bp_bytes q\<rparr>))"

definition close_received_host_buffer :: "received_buffer \<Rightarrow> probe_event list" where
  "close_received_host_buffer r = map Fd_closed (filter (\<lambda>f. 0 \<le> f) (rb_fds r))"

section \<open>The transport-only mode\<close>

text \<open>\<open>stat f\<close> is whether \<^verbatim>\<open>fstat\<close> accepts the descriptor; packets that do not come are refused ones.\<close>

fun receive_only_loop :: "(fd \<Rightarrow> bool) \<Rightarrow> buffer_packets list \<Rightarrow> nat \<Rightarrow> fd \<Rightarrow> int \<times> probe_event list" where
  "receive_only_loop stat qs 0 socket_fd = (0, [Fd_closed socket_fd])"
| "receive_only_loop stat qs (Suc n) socket_fd = (case qs of
       [] \<Rightarrow> (2, [Fd_closed socket_fd])
     | q # qs' \<Rightarrow> (case receive_buffer q of
           None \<Rightarrow> (2, [Fd_closed socket_fd])
         | Some r \<Rightarrow>
             if \<not> list_all stat (rb_fds r) then (3, close_received_host_buffer r @ [Fd_closed socket_fd])
             else (case receive_only_loop stat qs' n socket_fd of (code, es) \<Rightarrow> (code, close_received_host_buffer r @ es))))"

definition run_receive_only_probe :: "socket_answers \<Rightarrow> string \<Rightarrow> (fd \<Rightarrow> bool) \<Rightarrow> buffer_packets list \<Rightarrow> int \<times> probe_event list" where
  "run_receive_only_probe a path stat qs = (case connect_socket a path of (socket_fd, es) \<Rightarrow>
     if socket_fd < 0 \<or> \<not> sa_hello a then (1, es)
     else (case receive_only_loop stat qs PROBE_BUFFER_COUNT socket_fd of (code, es') \<Rightarrow> (code, es @ es')))"

section \<open>Rendering\<close>

record display_answers =
  da_function :: bool
  da_surfaceless :: bool
  da_platform_set :: bool
  da_default :: bool
  da_wayland :: bool
  da_legacy :: bool

text \<open>Whether there is a display, the path it was found on and whether a Wayland connection is kept for it.\<close>

definition create_probe_display :: "display_answers \<Rightarrow> bool \<times> string \<times> bool" where
  "create_probe_display a =
     (if da_function a \<and> da_surfaceless a then (True, ''explicit-surfaceless'', False)
      else if da_platform_set a \<and> da_default a then (True, ''environment-default'', False)
      else if \<not> da_wayland a then (False, ''none'', False)
      else if \<not> da_legacy a then (False, ''none'', False)
      else (True, ''parent-wayland'', True))"

text \<open>The answer of \<^verbatim>\<open>poll\<close> after the interrupted calls, and whether it reports an error for the descriptor.\<close>

definition wait_fence :: "int \<Rightarrow> bool \<Rightarrow> fd \<Rightarrow> probe \<Rightarrow> bool \<times> probe" where
  "wait_fence result bad f p =
     (let ok = (result = 1 \<and> \<not> bad) in (ok, say ((if ok then [Waited f] else []) @ [Fd_closed f]) p))"

record result_packet =
  rq_message :: "probe_result option"
  rq_control :: "control_message option"

definition result_ok :: "probe_result \<Rightarrow> bool" where
  "result_ok m \<longleftrightarrow> pr_magic m = PROBE_MAGIC \<and> pr_version m = PROBE_VERSION \<and> pr_type m = PROBE_RESULT \<and> unat (pr_buffer_id m) < PROBE_BUFFER_COUNT"

definition receive_host_result :: "result_packet \<Rightarrow> probe \<Rightarrow> bool \<times> probe" where
  "receive_host_result q p = (case rq_message q of
       None \<Rightarrow> (False, p)
     | Some m \<Rightarrow>
         if \<not> result_ok m then (False, p)
         else
           let i = unat (pr_buffer_id m)
           in if pr_result m \<noteq> PROBE_OK \<or> \<not> sl_in_flight (pg_slots p ! i) then (False, p)
              else (case rq_control q of
                  None \<Rightarrow> (False, p)
                | Some c \<Rightarrow>
                    if \<not> cm_rights c \<or> cm_bytes c \<noteq> 4 then (False, p)
                    else
                      let f = (case cm_fds c of [] \<Rightarrow> -1 | f # _ \<Rightarrow> f); p1 = upd_slot i (sl_reuse_fence_fd_update (\<lambda>_. f)) p
                      in if f < 0 then (False, p1)
                         else (True, say [Returned i f] ((upd_slot i (sl_in_flight_update (\<lambda>_. False)) p1)\<lparr>pg_acknowledged := pg_acknowledged p + 1\<rparr>))))"

text \<open>\<^verbatim>\<open>while (slot->in_flight)\<close>; no more packets means that the host has closed the connection.\<close>

fun await_slot :: "nat \<Rightarrow> result_packet list \<Rightarrow> probe \<Rightarrow> bool \<times> result_packet list \<times> probe" where
  "await_slot i [] p = (\<not> sl_in_flight (pg_slots p ! i), [], p)"
| "await_slot i (q # qs) p =
     (if \<not> sl_in_flight (pg_slots p ! i) then (True, q # qs, p)
      else (case receive_host_result q p of (ok, p1) \<Rightarrow> if ok then await_slot i qs p1 else (False, qs, p1)))"

record frame_answers =
  fr_poll :: int
  fr_poll_bad :: bool
  fr_sync :: bool
  fr_fence :: fd
  fr_gl_ok :: bool
  fr_sent :: bool

text \<open>The slot's own fence is waited for before it is drawn into again; the code is the one \<^verbatim>\<open>run_probe\<close> returns on failure.\<close>

definition reuse_slot :: "frame_answers \<Rightarrow> nat \<Rightarrow> probe \<Rightarrow> bool \<times> probe" where
  "reuse_slot a i p =
     (let f = sl_reuse_fence_fd (pg_slots p ! i)
      in if 0 \<le> f then wait_fence (fr_poll a) (fr_poll_bad a) f (upd_slot i (sl_reuse_fence_fd_update (\<lambda>_. -1)) p) else (True, p))"

definition draw_frame :: "bool \<Rightarrow> frame_answers \<Rightarrow> nat \<Rightarrow> probe \<Rightarrow> int option \<times> probe" where
  "draw_frame native a i p =
     (case reuse_slot a i p of (ok, p1) \<Rightarrow>
        if \<not> ok then (Some 10, p1)
        else
          let p2 = say [Drawn i] p1
          in if native \<and> \<not> fr_sync a then (Some 11, p2)
             else
               let f = (if native then fr_fence a else -1); closed = (if 0 \<le> f then [Fd_closed f] else [])
               in if (native \<and> f < 0) \<or> \<not> fr_gl_ok a \<or> \<not> fr_sent a then (Some 12, say closed p2)
                  else (None, (upd_slot i (sl_in_flight_update (\<lambda>_. True)) (say ([Handed i] @ closed) p2))\<lparr>pg_submitted := pg_submitted p2 + 1\<rparr>))"

fun frames_loop :: "bool \<Rightarrow> (nat \<Rightarrow> frame_answers) \<Rightarrow> nat list \<Rightarrow> result_packet list \<Rightarrow> probe \<Rightarrow> int option \<times> result_packet list \<times> probe" where
  "frames_loop native ans [] qs p = (None, qs, p)"
| "frames_loop native ans (n # ns) qs p =
     (let i = n mod PROBE_BUFFER_COUNT in
      case await_slot i qs p of (ok, qs1, p1) \<Rightarrow>
        if \<not> ok then (Some 9, qs1, p1)
        else (case draw_frame native (ans n) i p1 of (code, p2) \<Rightarrow>
          if code \<noteq> None then (code, qs1, p2) else frames_loop native ans ns qs1 p2))"

fun collect_results :: "result_packet list \<Rightarrow> probe \<Rightarrow> bool \<times> probe" where
  "collect_results [] p = (\<not> pg_acknowledged p < pg_submitted p, p)"
| "collect_results (q # qs) p =
     (if \<not> pg_acknowledged p < pg_submitted p then (True, p)
      else (case receive_host_result q p of (ok, p1) \<Rightarrow> if ok then collect_results qs p1 else (False, p1)))"

text \<open>The last fence of every slot; \<open>poll i\<close> answers for slot \<open>i\<close>.\<close>

fun last_fences :: "(nat \<Rightarrow> int \<times> bool) \<Rightarrow> nat list \<Rightarrow> probe \<Rightarrow> bool \<times> probe" where
  "last_fences poll [] p = (True, p)"
| "last_fences poll (i # is) p =
     (let f = sl_reuse_fence_fd (pg_slots p ! i);
          (ok, p1) = (if 0 \<le> f then wait_fence (fst (poll i)) (snd (poll i)) f p else (True, p))
      in if \<not> ok then (False, p1) else last_fences poll is (upd_slot i (sl_reuse_fence_fd_update (\<lambda>_. -1)) p1))"

record import_answers =
  ia_packets :: buffer_packets
  ia_image :: bool
  ia_framebuffer :: bool

fun import_loop :: "nat \<Rightarrow> import_answers list \<Rightarrow> probe \<Rightarrow> int option \<times> probe" where
  "import_loop 0 as p = (None, p)"
| "import_loop (Suc n) as p = (case as of
       [] \<Rightarrow> (Some 6, p)
     | a # as' \<Rightarrow> (case receive_buffer (ia_packets a) of
           None \<Rightarrow> (Some 6, p)
         | Some r \<Rightarrow>
             let i = unat (pb_buffer_id (rb_buffer r))
             in if sl_received (pg_slots p ! i) then (Some 6, p)
                else
                  let p1 = say (close_received_host_buffer r) (upd_slot i (\<lambda>x. x\<lparr>sl_buffer := Some (rb_buffer r), sl_reuse_fence_fd := -1, sl_image := ia_image a\<rparr>) p)
                  in if \<not> ia_image a then (Some 7, p1)
                     else if \<not> ia_framebuffer a then (Some 8, p1)
                     else import_loop n as' (upd_slot i (sl_received_update (\<lambda>_. True)) p1)))"

record probe_answers =
  pa_socket :: socket_answers
  pa_display :: display_answers
  pa_initialize :: bool
  pa_extensions :: "string option"
  pa_config :: bool
  pa_current :: bool
  pa_image_functions :: bool
  pa_fence_functions :: bool
  pa_imports :: "import_answers list"
  pa_frames :: "nat \<Rightarrow> frame_answers"
  pa_results :: "result_packet list"
  pa_last :: "nat \<Rightarrow> int \<times> bool"

definition native_fences :: "probe_answers \<Rightarrow> bool" where
  "native_fences a \<longleftrightarrow> has_extension (pa_extensions a) ''EGL_ANDROID_native_fence_sync'' \<and> pa_fence_functions a"

definition run_probe :: "probe_answers \<Rightarrow> string \<Rightarrow> int \<times> probe" where
  "run_probe a path = (case connect_socket (pa_socket a) path of (socket_fd, es) \<Rightarrow>
     let p = say es zero_probe
     in if socket_fd < 0 \<or> \<not> sa_hello (pa_socket a) then (1, p)
        else if \<not> fst (create_probe_display (pa_display a)) \<or> \<not> pa_initialize a then (2, p)
        else if \<not> pa_config a then (3, p)
        else if \<not> pa_current a then (4, p)
        else if \<not> pa_image_functions a then (5, p)
        else (case import_loop PROBE_BUFFER_COUNT (pa_imports a) p of
            (Some code, p1) \<Rightarrow> (code, p1)
          | (None, p1) \<Rightarrow> (case frames_loop (native_fences a) (pa_frames a) [0..<PROBE_FRAME_COUNT] (pa_results a) p1 of
                (Some code, qs, p2) \<Rightarrow> (code, p2)
              | (None, qs, p2) \<Rightarrow> (case collect_results qs p2 of (ok, p3) \<Rightarrow>
                    if \<not> ok then (13, p3)
                    else (case last_fences (pa_last a) [0..<PROBE_BUFFER_COUNT] p3 of (ok, p4) \<Rightarrow>
                      if \<not> ok then (14, p4) else (0, say (map Deleted [0..<PROBE_BUFFER_COUNT] @ [Fd_closed socket_fd]) p4))))))"

definition gpu_probe_main :: "probe_answers \<Rightarrow> (fd \<Rightarrow> bool) \<Rightarrow> buffer_packets list \<Rightarrow> string list \<Rightarrow> int" where
  "gpu_probe_main a stat qs args = (case args of
       [path] \<Rightarrow> fst (run_probe a path)
     | [option, path] \<Rightarrow> if option = ''--receive-only'' then fst (run_receive_only_probe (pa_socket a) path stat qs) else 64
     | _ \<Rightarrow> 64)"

end
