(* ===== verification/Gpu_Properties.thy ===== *)
theory Gpu_Properties
  imports Gpu_Probe
begin

text \<open>
  The probe's test for an extension is membership in the list of words, and the frames follow the protocol of the slots whatever the host sends.
\<close>

section \<open>Words of an extension string\<close>

fun words :: "string \<Rightarrow> string list" where
  "words [] = [[]]"
| "words (c # cs) = (if c = CHR '' '' then [] # words cs else (case words cs of w # ws \<Rightarrow> (c # w) # ws | [] \<Rightarrow> [[c]]))"

fun unwords :: "string list \<Rightarrow> string" where
  "unwords [] = []"
| "unwords [w] = w"
| "unwords (w # v # ws) = w @ CHR '' '' # unwords (v # ws)"

lemma words_not_Nil [simp]: "words s \<noteq> []"
  by (induction s) (auto split: list.splits)

lemma unwords_words [simp]: "unwords (words s) = s"
proof (induction s)
  case (Cons c cs)
  obtain w ws where w: "words cs = w # ws" by (cases "words cs") auto
  show ?case using Cons by (cases ws) (simp_all add: w)
qed simp

lemma words_space: "words (a @ CHR '' '' # b) = words a @ words b"
proof (induction a)
  case (Cons c a)
  then show ?case by (cases "words a") auto
qed simp

lemma words_plain: "CHR '' '' \<notin> set w \<Longrightarrow> words w = [w]"
  by (induction w) auto

lemma unwords_Cons: "unwords (w # ws) = w @ (if ws = [] then [] else CHR '' '' # unwords ws)"
  by (cases ws) simp_all

lemma unwords_split:
  "\<exists>a b. unwords (us @ w # vs) = a @ w @ b \<and> (a = [] \<or> last a = CHR '' '') \<and> (b = [] \<or> hd b = CHR '' '')"
proof (induction us)
  case Nil
  show ?case by (intro exI [of _ "[]"] exI [of _ "if vs = [] then [] else CHR '' '' # unwords vs"]) (simp add: unwords_Cons)
next
  case (Cons u us)
  then obtain a b where ab: "unwords (us @ w # vs) = a @ w @ b" "a = [] \<or> last a = CHR '' ''" "b = [] \<or> hd b = CHR '' ''" by blast
  show ?case by (intro exI [of _ "u @ CHR '' '' # a"] exI [of _ b]) (use ab in \<open>auto simp: unwords_Cons\<close>)
qed

text \<open>A name stands as a word where it is bounded by spaces or the ends.\<close>

definition word_at :: "string \<Rightarrow> string \<Rightarrow> nat \<Rightarrow> bool" where
  "word_at s name j \<longleftrightarrow> j \<le> length s \<and> starts_with name (drop j s) \<and> (j = 0 \<or> s ! (j - 1) = CHR '' '') \<and>
     (j + length name = length s \<or> s ! (j + length name) = CHR '' '')"

lemma word_at_words:
  assumes "CHR '' '' \<notin> set name"
  shows "(\<exists>j. word_at s name j) \<longleftrightarrow> name \<in> set (words s)"
proof
  assume "\<exists>j. word_at s name j"
  then obtain j where j: "j \<le> length s" "starts_with name (drop j s)" "j = 0 \<or> s ! (j - 1) = CHR '' ''"
    "j + length name = length s \<or> s ! (j + length name) = CHR '' ''" by (auto simp: word_at_def)
  from j(2) obtain post where post: "drop j s = name @ post" by (auto simp: starts_with_iff)
  have s: "s = take j s @ name @ post" using append_take_drop_id [of j s] post by simp
  have "words (name @ post) = name # tl (words (name @ post))"
  proof (cases post)
    case Nil
    then show ?thesis using words_plain [OF assms] by simp
  next
    case (Cons c cs)
    have l: "length s = j + length name + length post" using arg_cong [OF post, of length] j(1) by simp
    have "s ! (j + length name) = (name @ post) ! length name" using nth_drop [of j s "length name"] j(1) post by simp
    then have "c = CHR '' ''" using j(4) l Cons by (auto simp: nth_append)
    then show ?thesis using Cons words_space [of name cs] words_plain [OF assms] by simp
  qed
  then have n: "name \<in> set (words (name @ post))" by (metis list.set_intros(1))
  show "name \<in> set (words s)"
  proof (cases j)
    case 0
    then show ?thesis using s n by simp
  next
    case (Suc k)
    then have "take j s = take k s @ [CHR '' '']" using j(1,3) by (simp add: take_Suc_conv_app_nth)
    then have "words s = words (take k s) @ words (name @ post)" using s words_space [of "take k s" "name @ post"] by (metis append.assoc append_Cons append_Nil)
    then show ?thesis using n by simp
  qed
next
  assume "name \<in> set (words s)"
  then obtain us vs where "words s = us @ name # vs" by (auto simp: in_set_conv_decomp)
  then obtain a b where ab: "s = a @ name @ b" "a = [] \<or> last a = CHR '' ''" "b = [] \<or> hd b = CHR '' ''"
    using unwords_split [of us name vs] unwords_words [of s] by metis
  have 1: "length a = 0 \<or> s ! (length a - 1) = CHR '' ''"
    using ab(2) by (cases "a = []") (simp_all add: ab(1) nth_append last_conv_nth)
  have 2: "length a + length name = length s \<or> s ! (length a + length name) = CHR '' ''"
    using ab(3) by (cases b) (simp_all add: ab(1) nth_append)
  have "starts_with name (drop (length a) s)" by (simp add: ab(1))
  then have "word_at s name (length a)" using 1 2 by (simp add: word_at_def ab(1))
  then show "\<exists>j. word_at s name j" ..
qed

lemma strstr_first:
  "case strstr_from s name i of None \<Rightarrow> \<forall>k. i \<le> k \<and> k \<le> length s \<longrightarrow> \<not> starts_with name (drop k s)
   | Some j \<Rightarrow> \<forall>k. i \<le> k \<and> k < j \<longrightarrow> \<not> starts_with name (drop k s)"
proof (induction s name i rule: strstr_from.induct)
  case (1 s name i)
  show ?case using 1 by (subst strstr_from.simps) (auto split: option.splits simp: Suc_le_eq dest: le_neq_implies_less)
qed

lemma extension_loop_iff:
  assumes "name \<noteq> []" "CHR '' '' \<notin> set name"
  shows "extension_loop s name c \<longleftrightarrow> (\<exists>j \<ge> c. word_at s name j)"
  using assms
proof (induction s name c rule: extension_loop.induct)
  case (1 s name c)
  show ?case
  proof (cases "strstr_from s name c")
    case None
    then show ?thesis using strstr_first [where s = s and name = name and i = c] 1(2) by (subst extension_loop.simps) (auto simp: word_at_def)
  next
    case (Some j)
    note first = strstr_first [where s = s and name = name and i = c, unfolded Some option.case]
    have b: "c \<le> j" "j \<le> length s" "starts_with name (drop j s)" using strstr_from_bound [OF Some] by auto
    show ?thesis
    proof (cases "word_at s name j")
      case True
      then show ?thesis using Some b 1(2) by (subst extension_loop.simps) (auto simp: word_at_def)
    next
      case False
      have far: "j + length name \<le> k" if k: "c \<le> k" "word_at s name k" for k
      proof (rule ccontr)
        assume "\<not> j + length name \<le> k"
        moreover have "j < k" using first k False by (metis linorder_neqE_nat word_at_def)
        ultimately have r: "k - 1 - j < length name" "0 < k" by auto
        obtain post where "drop j s = name @ post" using b(3) by (auto simp: starts_with_iff)
        then have "s ! (k - 1) = name ! (k - 1 - j)"
          using nth_drop [of j s "k - 1 - j"] b(2) r \<open>j < k\<close> by (simp add: nth_append)
        then show False using k(2) r 1(3) nth_mem [OF r(1)] by (auto simp: word_at_def)
      qed
      have "extension_loop s name c = extension_loop s name (j + length name)"
        using Some b 1(2) False by (subst extension_loop.simps) (auto simp: word_at_def)
      also have "\<dots> = (\<exists>k \<ge> j + length name. word_at s name k)"
        using 1(1) [OF 1(2) Some _ 1(2,3)] False b by (auto simp: word_at_def)
      finally show ?thesis using far b(1) by (meson le_add1 le_trans)
    qed
  qed
qed

text \<open>The test for an extension finds exactly the words of the extension string, and none in a missing one.\<close>

theorem has_extension_words:
  "has_extension extensions name \<longleftrightarrow>
     name \<noteq> [] \<and> CHR '' '' \<notin> set name \<and> (\<exists>s. extensions = Some s \<and> name \<in> set (words s))"
  by (cases extensions) (auto simp: has_extension_def extension_loop_iff simp flip: word_at_words)

section \<open>The protocol of the slots\<close>

text \<open>
  The abstract protocol: a slot is drawn into when it is free, handed over, returned with a fence and free again only when that fence has been waited for; only a free slot is deleted. It allows
  the logs below; closing a descriptor is not part of it.
\<close>

datatype slot_phase = Free | Drawing | Held | Guarded fd

inductive allowed :: "probe_event list \<Rightarrow> (nat \<Rightarrow> slot_phase) \<Rightarrow> bool" where
  start: "allowed [] (\<lambda>_. Free)"
| drawn: "allowed es ph \<Longrightarrow> ph i = Free \<Longrightarrow> allowed (es @ [Drawn i]) (ph(i := Drawing))"
| handed: "allowed es ph \<Longrightarrow> ph i = Drawing \<Longrightarrow> allowed (es @ [Handed i]) (ph(i := Held))"
| returned: "allowed es ph \<Longrightarrow> ph i = Held \<Longrightarrow> allowed (es @ [Returned i f]) (ph(i := Guarded f))"
| waited: "allowed es ph \<Longrightarrow> ph i = Guarded f \<Longrightarrow> allowed (es @ [Waited f]) (ph(i := Free))"
| closed: "allowed es ph \<Longrightarrow> allowed (es @ [Fd_closed f]) ph"
| deleted: "allowed es ph \<Longrightarrow> ph i = Free \<Longrightarrow> allowed (es @ [Deleted i]) ph"

lemma allowed_closed: "allowed es ph \<Longrightarrow> allowed (es @ map Fd_closed fs) ph"
proof (induction fs arbitrary: es)
  case (Cons f fs)
  show ?case using Cons.IH [OF allowed.closed [OF Cons.prems]] by simp
qed simp

text \<open>The phase the state of a slot stands for.\<close>

definition phase_of :: "guest_slot \<Rightarrow> slot_phase" where
  "phase_of x = (if sl_in_flight x then Held else if 0 \<le> sl_reuse_fence_fd x then Guarded (sl_reuse_fence_fd x) else Free)"

definition phases :: "guest_slot list \<Rightarrow> nat \<Rightarrow> slot_phase" where
  "phases xs i = (if i < length xs then phase_of (xs ! i) else Free)"

definition flying :: "probe \<Rightarrow> nat" where
  "flying p = length (filter sl_in_flight (pg_slots p))"

definition follows :: "probe \<Rightarrow> bool" where
  "follows p \<longleftrightarrow> allowed (pg_log p) (phases (pg_slots p)) \<and> length (pg_slots p) = 3 \<and> pg_submitted p = pg_acknowledged p + flying p"

definition allowed_so_far :: "probe \<Rightarrow> bool" where
  "allowed_so_far p \<longleftrightarrow> (\<exists>ph. allowed (pg_log p) ph)"

lemma follows_allowed: "follows p \<Longrightarrow> allowed_so_far p"
  by (auto simp: follows_def allowed_so_far_def)

lemma phases_update: "i < length xs \<Longrightarrow> phases (xs[i := x]) = (phases xs)(i := phase_of x)"
  by (auto simp: phases_def)

lemma phases_at: "i < length xs \<Longrightarrow> phases xs i = phase_of (xs ! i)"
  by (simp add: phases_def)

lemma filter_update:
  "i < length xs \<Longrightarrow> length (filter P (xs[i := x])) + of_bool (P (xs ! i)) = length (filter P xs) + of_bool (P x)"
proof (induction xs arbitrary: i)
  case (Cons y ys)
  show ?case
  proof (cases i)
    case (Suc j)
    then show ?thesis using Cons.IH [of j] Cons.prems by simp
  qed simp
qed simp

lemma flying_update:
  assumes "i < length (pg_slots p)"
  shows "flying (upd_slot i f p) + of_bool (sl_in_flight (pg_slots p ! i)) = flying p + of_bool (sl_in_flight (f (pg_slots p ! i)))"
  using filter_update [OF assms, of sl_in_flight] by (simp add: flying_def upd_slot_def)

lemma say_simps [simp]:
  "pg_slots (say es p) = pg_slots p" "pg_submitted (say es p) = pg_submitted p" "pg_acknowledged (say es p) = pg_acknowledged p"
  "pg_log (say es p) = pg_log p @ es" "flying (say es p) = flying p"
  by (simp_all add: say_def flying_def)

lemma upd_slot_simps [simp]:
  "pg_submitted (upd_slot i f p) = pg_submitted p" "pg_acknowledged (upd_slot i f p) = pg_acknowledged p" "pg_log (upd_slot i f p) = pg_log p"
  "length (pg_slots (upd_slot i f p)) = length (pg_slots p)"
  "i < length (pg_slots p) \<Longrightarrow> pg_slots (upd_slot i f p) ! i = f (pg_slots p ! i)"
  "i < length (pg_slots p) \<Longrightarrow> phases (pg_slots (upd_slot i f p)) = (phases (pg_slots p))(i := phase_of (f (pg_slots p ! i)))"
  by (simp_all add: upd_slot_def phases_update)

lemma receive_result_follows:
  assumes "follows p" "receive_host_result q p = (ok, p1)"
  shows "if ok then follows p1 \<and> pg_submitted p1 = pg_submitted p else allowed_so_far p1"
proof -
  have weak: "allowed_so_far (upd_slot i f p)" for i f using assms(1) by (auto simp: follows_def allowed_so_far_def)
  have step: "follows (say [Returned i f] ((upd_slot i (sl_in_flight_update (\<lambda>_. False)) (upd_slot i (sl_reuse_fence_fd_update (\<lambda>_. f)) p))\<lparr>pg_acknowledged := pg_acknowledged p + 1\<rparr>))"
    if i: "i < 3" "sl_in_flight (pg_slots p ! i)" "0 \<le> f" for i f
  proof -
    let ?p1 = "upd_slot i (sl_reuse_fence_fd_update (\<lambda>_. f)) p"
    let ?p2 = "upd_slot i (sl_in_flight_update (\<lambda>_. False)) ?p1"
    have l: "length (pg_slots p) = 3" using assms(1) by (simp add: follows_def)
    have "allowed (pg_log p @ [Returned i f]) ((phases (pg_slots p))(i := Guarded f))"
      using assms(1) i l by (intro allowed.returned) (simp_all add: follows_def phases_at phase_of_def)
    then have a: "allowed (pg_log p @ [Returned i f]) (phases (pg_slots ?p2))" using i l by (simp add: phase_of_def)
    have "flying ?p1 = flying p" using flying_update [of i p "sl_reuse_fence_fd_update (\<lambda>_. f)"] i l by simp
    moreover have "flying ?p2 + 1 = flying ?p1" using flying_update [of i ?p1 "sl_in_flight_update (\<lambda>_. False)"] i l by simp
    ultimately show ?thesis using a l assms(1) by (simp add: follows_def flying_def)
  qed
  show ?thesis
    using assms(2) step weak follows_allowed [OF assms(1)]
    by (auto simp: receive_host_result_def result_ok_def PROBE_BUFFER_COUNT_def Let_def split: option.splits list.splits if_splits)
qed

lemma await_follows:
  assumes "follows p" "await_slot i qs p = (ok, qs1, p1)"
  shows "if ok then follows p1 \<and> \<not> sl_in_flight (pg_slots p1 ! i) \<and> pg_submitted p1 = pg_submitted p else allowed_so_far p1"
  using assms
proof (induction i qs p rule: await_slot.induct)
  case (2 i q qs p)
  obtain ok2 p2 where r: "receive_host_result q p = (ok2, p2)" by (meson surj_pair)
  note f = receive_result_follows [OF "2.prems"(1) r]
  show ?case using 2 r f follows_allowed [OF "2.prems"(1)] by (auto split: if_splits)
qed (auto simp: follows_allowed)

lemma wait_follows:
  assumes "allowed (pg_log p) ((phases (pg_slots p))(i := Guarded f))" "phases (pg_slots p) i = Free" "wait_fence r bad f p = (ok, p1)"
  shows "if ok then allowed (pg_log p1) (phases (pg_slots p1)) else allowed_so_far p1" "pg_slots p1 = pg_slots p" "pg_submitted p1 = pg_submitted p"
    "pg_acknowledged p1 = pg_acknowledged p"
proof -
  have "(phases (pg_slots p))(i := Free) = phases (pg_slots p)" using assms(2) by auto
  then have w: "allowed (pg_log p @ [Waited f]) (phases (pg_slots p))" using allowed.waited [OF assms(1), of i f] by simp
  show "if ok then allowed (pg_log p1) (phases (pg_slots p1)) else allowed_so_far p1"
    using assms(3) allowed.closed [OF w, of f] allowed.closed [OF assms(1), of f] by (auto simp: wait_fence_def Let_def allowed_so_far_def)
  show "pg_slots p1 = pg_slots p" "pg_submitted p1 = pg_submitted p" "pg_acknowledged p1 = pg_acknowledged p"
    using assms(3) by (auto simp: wait_fence_def Let_def)
qed

lemma unfenced:
  assumes "follows p" "i < 3" "\<not> sl_in_flight (pg_slots p ! i)" "f = sl_reuse_fence_fd (pg_slots p ! i)" "0 \<le> f"
    "p1 = upd_slot i (sl_reuse_fence_fd_update (\<lambda>_. -1)) p"
  shows "allowed (pg_log p1) ((phases (pg_slots p1))(i := Guarded f))" "phases (pg_slots p1) i = Free" "flying p1 = flying p" "length (pg_slots p1) = 3"
proof -
  have l: "length (pg_slots p) = 3" using assms(1) by (simp add: follows_def)
  have "(phases (pg_slots p))(i := Guarded f) = phases (pg_slots p)" using assms(2-5) l by (auto simp: phases_at phase_of_def)
  then show "allowed (pg_log p1) ((phases (pg_slots p1))(i := Guarded f))" using assms(1,2,6) l by (simp add: follows_def)
  show "phases (pg_slots p1) i = Free" using assms(2,3,6) l by (simp add: phase_of_def)
  show "flying p1 = flying p" using flying_update [of i p "sl_reuse_fence_fd_update (\<lambda>_. -1)"] assms(2,6) l by simp
  show "length (pg_slots p1) = 3" using assms(6) l by simp
qed

lemma reuse_follows:
  assumes "follows p" "i < 3" "\<not> sl_in_flight (pg_slots p ! i)" "reuse_slot a i p = (ok, p1)"
  shows "if ok then follows p1 \<and> phases (pg_slots p1) i = Free \<and> pg_submitted p1 = pg_submitted p else allowed_so_far p1"
proof (cases "0 \<le> sl_reuse_fence_fd (pg_slots p ! i)")
  case True
  define p2 where "p2 = upd_slot i (sl_reuse_fence_fd_update (\<lambda>_. -1)) p"
  note u = unfenced [OF assms(1-3) refl True p2_def]
  have w: "wait_fence (fr_poll a) (fr_poll_bad a) (sl_reuse_fence_fd (pg_slots p ! i)) p2 = (ok, p1)"
    using assms(4) True by (simp add: reuse_slot_def p2_def)
  note v = wait_follows [OF u(1,2) w]
  show ?thesis using v u(2-4) assms(1) by (auto simp: follows_def p2_def flying_def)
next
  case False
  then show ?thesis using assms by (auto simp: reuse_slot_def phases_at phase_of_def follows_def)
qed

lemma draw_follows:
  assumes "follows p" "i < 3" "\<not> sl_in_flight (pg_slots p ! i)" "draw_frame native a i p = (code, p1)"
  shows "if code = None then follows p1 \<and> pg_submitted p1 = pg_submitted p + 1 else allowed_so_far p1"
proof -
  obtain ok p2 where r: "reuse_slot a i p = (ok, p2)" by (meson surj_pair)
  note f = reuse_follows [OF assms(1-3) r]
  show ?thesis
  proof (cases ok)
    case False
    then show ?thesis using f r assms(4) by (auto simp: draw_frame_def)
  next
    case True
    then have p2: "follows p2" "phases (pg_slots p2) i = Free" "pg_submitted p2 = pg_submitted p" using f by auto
    have l: "length (pg_slots p2) = 3" using p2(1) by (simp add: follows_def)
    have d: "allowed (pg_log p2 @ [Drawn i]) ((phases (pg_slots p2))(i := Drawing))" using p2(1,2) by (auto simp: follows_def intro: allowed.drawn)
    then have h: "allowed ((pg_log p2 @ [Drawn i]) @ [Handed i]) ((phases (pg_slots p2))(i := Held))"
      using allowed.handed [OF d, of i] by simp
    define es where "es = map Fd_closed (if native \<and> 0 \<le> fr_fence a then [fr_fence a] else [])"
    have c: "allowed (pg_log p2 @ [Drawn i] @ es) ((phases (pg_slots p2))(i := Drawing))"
      "allowed (pg_log p2 @ [Drawn i] @ [Handed i] @ es) ((phases (pg_slots p2))(i := Held))"
      using allowed_closed [OF d] allowed_closed [OF h] by (simp_all add: es_def)
    define p3 where "p3 = upd_slot i (sl_in_flight_update (\<lambda>_. True)) (say ([Drawn i] @ [Handed i] @ es) p2)"
    have i: "\<not> sl_in_flight (pg_slots p2 ! i)" using p2(2) assms(2) l by (auto simp: phases_at phase_of_def split: if_splits)
    have "flying p3 = flying p2 + 1"
      using flying_update [of i "say ([Drawn i] @ [Handed i] @ es) p2" "sl_in_flight_update (\<lambda>_. True)"] assms(2) l i by (simp add: p3_def)
    then have s: "follows (p3\<lparr>pg_submitted := pg_submitted p2 + 1\<rparr>)"
      using c(2) p2(1) assms(2) l by (simp add: follows_def p3_def phase_of_def) (simp add: flying_def)
    show ?thesis
      using assms(4) s c(1) d p2(3) by (auto simp: draw_frame_def r True Let_def es_def p3_def allowed_so_far_def say_def split: if_splits)
  qed
qed

lemma frames_follow:
  assumes "follows p" "frames_loop native ans ns qs p = (code, qs1, p1)"
  shows "if code = None then follows p1 \<and> pg_submitted p1 = pg_submitted p + length ns else allowed_so_far p1"
  using assms
proof (induction native ans ns qs p rule: frames_loop.induct)
  case (2 native ans n ns qs p)
  define i where "i = n mod PROBE_BUFFER_COUNT"
  have i: "i < 3" by (simp add: i_def PROBE_BUFFER_COUNT_def)
  obtain ok qs2 p2 where a: "await_slot i qs p = (ok, qs2, p2)" by (metis prod_cases3)
  obtain c p3 where d: "draw_frame native (ans n) i p2 = (c, p3)" by (meson surj_pair)
  note fa = await_follows [OF "2.prems"(1) a]
  show ?case
  proof (cases "ok \<and> c = None")
    case False
    then show ?thesis using fa draw_follows [OF _ i _ d] "2.prems"(2) a d by (auto simp: i_def [symmetric] Let_def split: if_splits)
  next
    case True
    then have f: "follows p3" "pg_submitted p3 = pg_submitted p + 1" using fa draw_follows [OF _ i _ d] by auto
    have "frames_loop native ans ns qs2 p3 = (code, qs1, p1)" using "2.prems"(2) a d True by (simp add: i_def [symmetric] Let_def)
    then show ?thesis using "2.IH" [OF i_def a [symmetric] refl _ d [symmetric] _ f(1)] True f(2) by simp
  qed
qed simp

lemma collect_follows:
  assumes "follows p" "collect_results qs p = (ok, p1)"
  shows "if ok then follows p1 \<and> pg_submitted p1 = pg_submitted p \<and> pg_acknowledged p1 = pg_submitted p1 else allowed_so_far p1"
  using assms
proof (induction qs p rule: collect_results.induct)
  case (1 p)
  then show ?case using follows_allowed [of p] by (auto simp: follows_def)
next
  case (2 q qs p)
  obtain ok2 p2 where r: "receive_host_result q p = (ok2, p2)" by (meson surj_pair)
  note f = receive_result_follows [OF "2.prems"(1) r]
  show ?case
  proof (cases "pg_acknowledged p < pg_submitted p \<and> ok2")
    case True
    then show ?thesis using "2.IH" [OF _ r [symmetric]] "2.prems"(2) r f by (auto split: if_splits)
  next
    case False
    then show ?thesis using "2.prems" r f by (auto simp: follows_def split: if_splits)
  qed
qed

lemma wait_upd: "wait_fence r bad f p = (ok, p1) \<Longrightarrow> wait_fence r bad f (upd_slot i g p) = (ok, upd_slot i g p1)"
  by (auto simp: wait_fence_def Let_def upd_slot_def say_def)

lemma no_flight: "flying p = 0 \<Longrightarrow> i < length (pg_slots p) \<Longrightarrow> \<not> sl_in_flight (pg_slots p ! i)"
  by (auto simp: flying_def filter_empty_conv)

definition fenceless :: "probe \<Rightarrow> nat \<Rightarrow> bool" where
  "fenceless p i \<longleftrightarrow> phases (pg_slots p) i = Free"

lemma last_fences_follow:
  assumes "follows p" "flying p = 0" "last_fences poll is p = (ok, p1)" "set is \<subseteq> {..<3}" "distinct is"
  shows "if ok then follows p1 \<and> flying p1 = 0 \<and> pg_submitted p1 = pg_submitted p \<and> (\<forall>i. fenceless p i \<or> i \<in> set is \<longrightarrow> fenceless p1 i)
    else allowed_so_far p1"
  using assms
proof (induction poll "is" p rule: last_fences.induct)
  case (2 poll i js p)
  let ?f = "sl_reuse_fence_fd (pg_slots p ! i)"
  define u where "u = upd_slot i (sl_reuse_fence_fd_update (\<lambda>_. -1))"
  have i: "i < 3" and l: "length (pg_slots p) = 3" using "2.prems"(1,4) by (auto simp: follows_def)
  then have n: "\<not> sl_in_flight (pg_slots p ! i)" using no_flight [OF "2.prems"(2)] by simp
  obtain ok2 p2 where w: "(if 0 \<le> ?f then wait_fence (fst (poll i)) (snd (poll i)) ?f p else (True, p)) = (ok2, p2)" by (meson surj_pair)
  have step: "if ok2 then follows (u p2) \<and> flying (u p2) = 0 \<and> pg_submitted (u p2) = pg_submitted p \<and> (\<forall>j. fenceless p j \<or> j = i \<longrightarrow> fenceless (u p2) j)
      else allowed_so_far p2"
  proof (cases "0 \<le> ?f")
    case True
    note f = unfenced [OF "2.prems"(1) i n refl True refl, folded u_def]
    have "wait_fence (fst (poll i)) (snd (poll i)) ?f (u p) = (ok2, u p2)" using wait_upd w True by (simp add: u_def)
    note v = wait_follows [OF f(1,2) this]
    have "fenceless (u p) j" if "fenceless p j \<or> j = i" for j
      using that f(2) i l by (auto simp: fenceless_def u_def)
    then show ?thesis using v f(2-4) "2.prems"(1,2) w True
      by (cases ok2) (auto simp: follows_def fenceless_def flying_def u_def allowed_so_far_def)
  next
    case False
    have "flying (u p) = 0" using flying_update [of i p "sl_reuse_fence_fd_update (\<lambda>_. -1)"] i l n "2.prems"(2) by (simp add: u_def)
    moreover have "phases (pg_slots (u p)) = phases (pg_slots p)" using i l n False by (auto simp: u_def phases_at phase_of_def)
    moreover have "fenceless p i" using i l n False by (simp add: fenceless_def phases_at phase_of_def)
    ultimately show ?thesis using w False "2.prems"(1,2) by (auto simp: follows_def fenceless_def u_def)
  qed
  show ?case
  proof (cases ok2)
    case False
    then show ?thesis using "2.prems"(3) w step by (simp add: Let_def)
  next
    case True
    then have r: "last_fences poll js (u p2) = (ok, p1)" using "2.prems"(3) w by (simp add: Let_def u_def)
    show ?thesis using "2.IH" [OF refl w [symmetric] refl _ _ _ r [unfolded u_def]] step True "2.prems"(4,5) by (auto simp: u_def)
  qed
qed simp

section \<open>Imports\<close>

text \<open>After the imports every slot has been received, because every packet is for a slot that had none.\<close>

definition importing :: "nat \<Rightarrow> probe \<Rightarrow> bool" where
  "importing n p \<longleftrightarrow> length (pg_slots p) = 3 \<and> n + length (filter sl_received (pg_slots p)) = 3 \<and> pg_submitted p = 0 \<and> pg_acknowledged p = 0 \<and>
     allowed (pg_log p) (\<lambda>_. Free) \<and> list_all (\<lambda>x. \<not> sl_in_flight x \<and> (sl_received x \<longrightarrow> sl_reuse_fence_fd x = -1)) (pg_slots p)"

lemma receive_buffer_id: "receive_buffer q = Some r \<Longrightarrow> unat (pb_buffer_id (rb_buffer r)) < 3"
  by (auto simp: receive_buffer_def buffer_header_ok_def PROBE_BUFFER_COUNT_def split: option.splits if_splits)

lemma import_follows:
  assumes "importing n p" "import_loop n as p = (code, p1)"
  shows "if code = None then follows p1 \<and> flying p1 = 0 \<and> pg_submitted p1 = 0 else allowed_so_far p1"
  using assms
proof (induction n as p rule: import_loop.induct)
  case (1 as p)
  have "list_all sl_received (pg_slots p)"
    using "1.prems"(1) by (auto simp: importing_def list_all_iff) (metis filter_True length_filter_less less_irrefl)
  then have "\<not> sl_in_flight x \<and> phase_of x = Free" if "x \<in> set (pg_slots p)" for x
    using "1.prems"(1) that by (auto simp: importing_def list_all_iff phase_of_def)
  then have "phases (pg_slots p) = (\<lambda>_. Free)" "flying p = 0" by (auto simp: phases_def flying_def filter_empty_conv fun_eq_iff)
  then show ?case using "1.prems" by (auto simp: importing_def follows_def)
next
  case (2 n as p)
  have a: "allowed_so_far p" using "2.prems"(1) by (auto simp: importing_def allowed_so_far_def)
  show ?case
  proof (cases "\<exists>b bs r. as = b # bs \<and> receive_buffer (ia_packets b) = Some r \<and> \<not> sl_received (pg_slots p ! unat (pb_buffer_id (rb_buffer r)))")
    case False
    then show ?thesis using "2.prems"(2) a by (auto simp: Let_def split: list.splits option.splits)
  next
    case True
    then obtain b bs r where b: "as = b # bs" "receive_buffer (ia_packets b) = Some r" "\<not> sl_received (pg_slots p ! unat (pb_buffer_id (rb_buffer r)))" by blast
    define i where "i = unat (pb_buffer_id (rb_buffer r))"
    define p2 where "p2 = say (close_received_host_buffer r) (upd_slot i (\<lambda>x. x\<lparr>sl_buffer := Some (rb_buffer r), sl_reuse_fence_fd := -1, sl_image := ia_image b\<rparr>) p)"
    define p3 where "p3 = upd_slot i (sl_received_update (\<lambda>_. True)) p2"
    have i: "i < 3" "length (pg_slots p) = 3" using receive_buffer_id [OF b(2)] "2.prems"(1) by (simp_all add: i_def importing_def)
    have c: "allowed (pg_log p2) (\<lambda>_. Free)" using "2.prems"(1) by (simp add: p2_def importing_def close_received_host_buffer_def allowed_closed)
    have p3: "pg_slots p3 = (pg_slots p)[i := (pg_slots p ! i)\<lparr>sl_buffer := Some (rb_buffer r), sl_reuse_fence_fd := -1, sl_image := ia_image b, sl_received := True\<rparr>]"
      using i by (simp add: p3_def p2_def upd_slot_def say_def)
    have "importing n p3"
      unfolding importing_def p3
      using filter_update [of i "pg_slots p" sl_received] "2.prems"(1) b(3) i c
      by (auto simp: importing_def i_def p3_def p2_def list_all_iff dest!: set_update_subset_insert [THEN subsetD])
    note ih = "2.IH" [OF b(1) b(2) i_def b(3) [folded i_def] p2_def]
    show ?thesis
      using "2.prems"(2) ih [OF _ _ \<open>importing n p3\<close> [unfolded p3_def]] c b
      by (auto simp: Let_def i_def [symmetric] p2_def [symmetric] allowed_so_far_def split: if_splits)
  qed
qed

lemma import_code: "import_loop n as p = (c, p1) \<Longrightarrow> c \<noteq> Some 0"
  by (induction n as p rule: import_loop.induct) (auto simp: Let_def split: list.splits option.splits if_splits)

lemma frames_code: "frames_loop native ans ns qs p = (c, qs1, p1) \<Longrightarrow> c \<noteq> Some 0"
proof (induction native ans ns qs p rule: frames_loop.induct)
  case (2 native ans n ns qs p)
  obtain ok qs2 p2 where a: "await_slot (n mod PROBE_BUFFER_COUNT) qs p = (ok, qs2, p2)" by (metis prod_cases3)
  obtain c2 p3 where d: "draw_frame native (ans n) (n mod PROBE_BUFFER_COUNT) p2 = (c2, p3)" by (meson surj_pair)
  have "c2 \<noteq> Some 0" using d by (auto simp: draw_frame_def Let_def split: prod.splits if_splits)
  then show ?case using "2.IH" [OF refl a [symmetric] refl _ d [symmetric]] "2.prems" a d by (auto simp: Let_def split: if_splits)
qed simp

lemma allowed_deleted:
  assumes "allowed es ph" "\<forall>i. ph i = Free"
  shows "allowed (es @ map Deleted is @ [Fd_closed f]) ph"
  using assms(1)
proof (induction "is" arbitrary: es)
  case Nil
  then show ?case using allowed.closed by simp
next
  case (Cons i "is")
  show ?case using Cons.IH [OF allowed.deleted [OF Cons.prems, of i]] assms(2) by simp
qed

text \<open>Once the last fences have been waited for, every slot is free.\<close>

lemma fences_end:
  assumes "follows p3" "pg_submitted p3 = 180" "pg_acknowledged p3 = 180" "last_fences poll [0..<PROBE_BUFFER_COUNT] p3 = (ok, p4)"
  shows "if ok then (\<exists>ph. allowed (pg_log p4) ph \<and> (\<forall>i. ph i = Free)) \<and> pg_submitted p4 = 180 \<and> pg_acknowledged p4 = 180 else allowed_so_far p4"
proof -
  have p3: "flying p3 = 0" using assms(1-3) by (auto simp: follows_def)
  have "set [0..<PROBE_BUFFER_COUNT] \<subseteq> {..<3}" "distinct [0..<PROBE_BUFFER_COUNT]" by (auto simp: PROBE_BUFFER_COUNT_def)
  from last_fences_follow [OF assms(1) p3 assms(4) this]
  have r: "if ok then follows p4 \<and> flying p4 = 0 \<and> pg_submitted p4 = 180 \<and> (\<forall>i. fenceless p3 i \<or> i < 3 \<longrightarrow> fenceless p4 i) else allowed_so_far p4"
    using assms(2) by (simp add: PROBE_BUFFER_COUNT_def)
  have "fenceless p3 i" if "3 \<le> i" for i using assms(1) that by (simp add: fenceless_def phases_def follows_def)
  then have "fenceless p3 i \<or> i < 3" for i by (cases "i < 3") simp_all
  then show ?thesis using r by (auto simp: follows_def fenceless_def)
qed

text \<open>C23: whatever the host, EGL and the kernel answer, a slot is drawn into only while it is the guest's: first when it has been imported, afterwards only when the host has returned
  it and the fence it came with has been waited for. A run that succeeds has handed over 180 frames, got every one back and waited for every fence.\<close>

theorem probe_refines_slot_protocol:
  "\<exists>ph. allowed (pg_log (snd (run_probe a path))) ph \<and>
     (fst (run_probe a path) = 0 \<longrightarrow> (\<forall>i. ph i = Free) \<and>
        pg_submitted (snd (run_probe a path)) = 180 \<and> pg_acknowledged (snd (run_probe a path)) = 180)"
proof -
  obtain f es where c: "connect_socket (pa_socket a) path = (f, es)" by (meson surj_pair)
  define p where "p = say es zero_probe"
  have closed: "\<exists>fs. es = map Fd_closed fs"
    using c by (auto simp: connect_socket_def split: if_splits intro: exI [of _ "[sa_socket (pa_socket a)]"])
  have al: "allowed (pg_log p) (\<lambda>_. Free)"
    using closed allowed_closed [OF allowed.start] by (auto simp: p_def zero_probe_def)
  then have "importing 3 p"
    by (simp add: importing_def p_def zero_probe_def zero_slot_def PROBE_BUFFER_COUNT_def numeral_3_eq_3)
  obtain c1 p1 where i: "import_loop PROBE_BUFFER_COUNT (pa_imports a) p = (c1, p1)" by (meson surj_pair)
  note f1 = import_follows [OF \<open>importing 3 p\<close> i [unfolded PROBE_BUFFER_COUNT_def]]
  obtain c2 qs p2 where g: "frames_loop (native_fences a) (pa_frames a) [0..<PROBE_FRAME_COUNT] (pa_results a) p1 = (c2, qs, p2)" by (metis prod_cases3)
  obtain ok3 p3 where d: "collect_results qs p2 = (ok3, p3)" by (meson surj_pair)
  obtain ok4 p4 where e: "last_fences (pa_last a) [0..<PROBE_BUFFER_COUNT] p3 = (ok4, p4)" by (meson surj_pair)
  have start: "\<exists>ph. allowed (pg_log p) ph" using al by blast
  have run: "run_probe a path = (if f < 0 \<or> \<not> sa_hello (pa_socket a) then (1, p)
      else if \<not> fst (create_probe_display (pa_display a)) \<or> \<not> pa_initialize a then (2, p) else if \<not> pa_config a then (3, p)
      else if \<not> pa_current a then (4, p) else if \<not> pa_image_functions a then (5, p)
      else case c1 of Some code \<Rightarrow> (code, p1) | None \<Rightarrow> (case c2 of Some code \<Rightarrow> (code, p2) | None \<Rightarrow>
        if \<not> ok3 then (13, p3) else if \<not> ok4 then (14, p4) else (0, say (map Deleted [0..<PROBE_BUFFER_COUNT] @ [Fd_closed f]) p4)))"
    by (simp add: run_probe_def c p_def [symmetric] i g d e Let_def split: option.splits)
  have codes: "c1 = Some code \<Longrightarrow> code \<noteq> 0" "c2 = Some code \<Longrightarrow> code \<noteq> 0" for code
    using import_code [OF i] frames_code [OF g] by auto
  have f2: "if c2 = None then follows p2 \<and> pg_submitted p2 = 180 else allowed_so_far p2" if "c1 = None"
    using frames_follow [OF _ g] f1 that by (auto simp: PROBE_FRAME_COUNT_def)
  have f3: "if ok3 then follows p3 \<and> pg_submitted p3 = 180 \<and> pg_acknowledged p3 = 180 else allowed_so_far p3" if "c1 = None" "c2 = None"
    using collect_follows [OF _ d] f2 that by auto
  have f4: "if ok4 then (\<exists>ph. allowed (pg_log p4) ph \<and> (\<forall>i. ph i = Free)) \<and> pg_submitted p4 = 180 \<and> pg_acknowledged p4 = 180 else allowed_so_far p4"
    if "c1 = None" "c2 = None" "ok3"
    using fences_end [OF _ _ _ e] f3 that by auto
  have fin: "\<exists>ph. allowed (pg_log (say (map Deleted [0..<PROBE_BUFFER_COUNT] @ [Fd_closed f]) p4)) ph \<and> (\<forall>i. ph i = Free)"
    "pg_submitted p4 = 180" "pg_acknowledged p4 = 180" if "c1 = None" "c2 = None" "ok3" "ok4"
    using f4 [OF that(1-3)] that(4) allowed_deleted [of "pg_log p4"] by auto
  show ?thesis
    using start codes f1 f2 f3 f4 fin unfolding run allowed_so_far_def
    by (auto split: option.splits)
qed

section \<open>A host that returns every slot in turn\<close>

definition reply :: "nat \<Rightarrow> result_packet" where
  "reply n = \<lparr>rq_message = Some \<lparr>pr_magic = PROBE_MAGIC, pr_version = PROBE_VERSION, pr_type = PROBE_RESULT, pr_result = PROBE_OK, pr_egl_error = 0x3000,
     pr_buffer_id = of_nat (n mod 3)\<rparr>, rq_control = Some \<lparr>cm_rights = True, cm_bytes = 4, cm_fds = [40]\<rparr>\<rparr>"

definition smooth :: frame_answers where
  "smooth = \<lparr>fr_poll = 1, fr_poll_bad = False, fr_sync = True, fr_fence = 30, fr_gl_ok = True, fr_sent = True\<rparr>"

definition header :: "u32 \<Rightarrow> probe_buffer" where
  "header i = \<lparr>pb_magic = PROBE_MAGIC, pb_version = PROBE_VERSION, pb_type = PROBE_HOST_BUFFER, pb_width = 256, pb_height = 256, pb_drm_format = 0x34324241,
     pb_stride = 1024, pb_modifier = 0, pb_buffer_id = i\<rparr>"

definition host_buffer :: "u32 \<Rightarrow> import_answers" where
  "host_buffer i = \<lparr>ia_packets = \<lparr>bp_header = Some (header i), bp_bytes = 64, bp_truncated = False,
     bp_control = Some \<lparr>cm_rights = True, cm_bytes = 4, cm_fds = [20]\<rparr>\<rparr>, ia_image = True, ia_framebuffer = True\<rparr>"

definition fair_host :: probe_answers where
  "fair_host = \<lparr>pa_socket = \<lparr>sa_socket = 3, sa_connect = True, sa_hello = True\<rparr>,
     pa_display = \<lparr>da_function = True, da_surfaceless = True, da_platform_set = False, da_default = False, da_wayland = False, da_legacy = False\<rparr>,
     pa_initialize = True, pa_extensions = None, pa_config = True, pa_current = True, pa_image_functions = True, pa_fence_functions = True,
     pa_imports = map host_buffer [0, 1, 2], pa_frames = (\<lambda>_. smooth), pa_results = map reply [3..<183], pa_last = (\<lambda>_. (1, False))\<rparr>"

definition lent :: "guest_slot \<Rightarrow> bool" where
  "lent x \<longleftrightarrow> sl_in_flight x \<and> sl_reuse_fence_fd x = -1"

lemma unat_mod3: "unat (of_nat (n mod 3) :: u32) = n mod 3"
  by (simp add: unat_of_nat)

lemma reply_received:
  assumes "length (pg_slots p) = 3" "sl_in_flight (pg_slots p ! (n mod 3))"
  shows "\<exists>p1. receive_host_result (reply n) p = (True, p1) \<and> pg_submitted p1 = pg_submitted p \<and> pg_acknowledged p1 = pg_acknowledged p + 1 \<and>
    pg_slots p1 = (pg_slots p)[n mod 3 := (pg_slots p ! (n mod 3))\<lparr>sl_reuse_fence_fd := 40, sl_in_flight := False\<rparr>]"
  using assms by (simp add: receive_host_result_def reply_def result_ok_def unat_mod3 PROBE_BUFFER_COUNT_def upd_slot_def say_def Let_def)

lemma smooth_drawn:
  assumes "length (pg_slots p) = 3" "i < 3"
  shows "\<exists>p1. draw_frame False smooth i p = (None, p1) \<and> pg_submitted p1 = pg_submitted p + 1 \<and> pg_acknowledged p1 = pg_acknowledged p \<and>
    pg_slots p1 = (pg_slots p)[i := (pg_slots p ! i)\<lparr>sl_reuse_fence_fd := if 0 \<le> sl_reuse_fence_fd (pg_slots p ! i) then -1 else sl_reuse_fence_fd (pg_slots p ! i),
      sl_in_flight := True\<rparr>]"
  using assms by (simp add: draw_frame_def reuse_slot_def wait_fence_def smooth_def Let_def upd_slot_def say_def)

lemma frames_smooth:
  assumes "length (pg_slots p) = 3" "\<And>i. i < 3 \<Longrightarrow> lent (pg_slots p ! i)"
  shows "\<exists>p1. frames_loop False (\<lambda>_. smooth) ns (map reply ns @ qs) p = (None, qs, p1) \<and> length (pg_slots p1) = 3 \<and> (\<forall>i < 3. lent (pg_slots p1 ! i)) \<and>
    pg_submitted p1 = pg_submitted p + length ns \<and> pg_acknowledged p1 = pg_acknowledged p + length ns"
  using assms
proof (induction ns arbitrary: p)
  case (Cons n ns)
  define i where "i = n mod 3"
  have i: "i < 3" by (simp add: i_def)
  obtain p1 where 1: "receive_host_result (reply n) p = (True, p1)" "pg_submitted p1 = pg_submitted p" "pg_acknowledged p1 = pg_acknowledged p + 1"
    "pg_slots p1 = (pg_slots p)[i := (pg_slots p ! i)\<lparr>sl_reuse_fence_fd := 40, sl_in_flight := False\<rparr>]"
    using reply_received [of p n] Cons.prems i by (auto simp: i_def lent_def)
  have n1: "\<not> sl_in_flight (pg_slots p1 ! i)" "length (pg_slots p1) = 3" using 1(4) i Cons.prems(1) by simp_all
  have "await_slot i (map reply ns @ qs) p1 = (True, map reply ns @ qs, p1)" using n1(1) by (cases "map reply ns @ qs") simp_all
  then have aw: "await_slot i (reply n # map reply ns @ qs) p = (True, map reply ns @ qs, p1)" using 1(1) Cons.prems(2) [OF i] by (simp add: lent_def)
  obtain p2 where 2: "draw_frame False smooth i p1 = (None, p2)" "pg_submitted p2 = pg_submitted p1 + 1" "pg_acknowledged p2 = pg_acknowledged p1"
    "pg_slots p2 = (pg_slots p1)[i := (pg_slots p1 ! i)\<lparr>sl_reuse_fence_fd := if 0 \<le> sl_reuse_fence_fd (pg_slots p1 ! i) then -1 else sl_reuse_fence_fd (pg_slots p1 ! i),
      sl_in_flight := True\<rparr>]"
    using smooth_drawn [OF n1(2) i] by blast
  have l2: "length (pg_slots p2) = 3" using 2(4) n1(2) by simp
  have m2: "lent (pg_slots p2 ! j)" if "j < 3" for j
    using 2(4) 1(4) Cons.prems i that by (auto simp: lent_def nth_list_update)
  show ?case
    using Cons.IH [OF l2 m2] 1(2,3) 2(1-3) aw by (auto simp: i_def [symmetric] PROBE_BUFFER_COUNT_def Let_def)
qed simp

lemma frame_first:
  assumes "length (pg_slots p) = 3" "n < 3" "\<not> sl_in_flight (pg_slots p ! n)" "sl_reuse_fence_fd (pg_slots p ! n) = -1"
  shows "\<exists>p1. frames_loop False (\<lambda>_. smooth) (n # ns) qs p = frames_loop False (\<lambda>_. smooth) ns qs p1 \<and> pg_submitted p1 = pg_submitted p + 1 \<and>
    pg_acknowledged p1 = pg_acknowledged p \<and> pg_slots p1 = (pg_slots p)[n := (pg_slots p ! n)\<lparr>sl_reuse_fence_fd := -1, sl_in_flight := True\<rparr>]"
proof -
  have "await_slot n qs p = (True, qs, p)" using assms(3) by (cases qs) simp_all
  then show ?thesis using smooth_drawn [OF assms(1,2)] assms(2,4) by (auto simp: PROBE_BUFFER_COUNT_def Let_def)
qed

lemma collect_first:
  assumes "length (pg_slots p) = 3" "lent (pg_slots p ! (n mod 3))" "pg_acknowledged p < pg_submitted p"
  shows "\<exists>p1. collect_results (reply n # qs) p = collect_results qs p1 \<and> pg_submitted p1 = pg_submitted p \<and> pg_acknowledged p1 = pg_acknowledged p + 1 \<and>
    length (pg_slots p1) = 3 \<and> (\<forall>j. j \<noteq> n mod 3 \<longrightarrow> pg_slots p1 ! j = pg_slots p ! j)"
  using reply_received [OF assms(1)] assms by (fastforce simp: lent_def)

lemma last_fences_well: "fst (last_fences (\<lambda>_. (1, False)) is p)"
  by (induction "is" arbitrary: p) (simp_all add: wait_fence_def Let_def)

lemma fair_frames:
  assumes "length (pg_slots p) = 3" "\<And>i. i < 3 \<Longrightarrow> sl_reuse_fence_fd (pg_slots p ! i) = -1 \<and> \<not> sl_in_flight (pg_slots p ! i)" "pg_submitted p = 0" "pg_acknowledged p = 0"
  shows "\<exists>p1. frames_loop False (\<lambda>_. smooth) (0 # 1 # 2 # ns) (map reply ns @ qs) p = (None, qs, p1) \<and> length (pg_slots p1) = 3 \<and>
    (\<forall>i < 3. lent (pg_slots p1 ! i)) \<and> pg_submitted p1 = length ns + 3 \<and> pg_acknowledged p1 = length ns"
proof -
  let ?q = "map reply ns @ qs" and ?f = "frames_loop False (\<lambda>_. smooth)"
  obtain p1 where 1: "?f (0 # 1 # 2 # ns) ?q p = ?f (1 # 2 # ns) ?q p1" "pg_submitted p1 = 1" "pg_acknowledged p1 = 0"
    "pg_slots p1 = (pg_slots p)[0 := (pg_slots p ! 0)\<lparr>sl_reuse_fence_fd := -1, sl_in_flight := True\<rparr>]"
    using frame_first [of p 0 "1 # 2 # ns" ?q] assms by auto
  obtain p2 where 2: "?f (1 # 2 # ns) ?q p1 = ?f (2 # ns) ?q p2" "pg_submitted p2 = 2" "pg_acknowledged p2 = 0"
    "pg_slots p2 = (pg_slots p1)[1 := (pg_slots p1 ! 1)\<lparr>sl_reuse_fence_fd := -1, sl_in_flight := True\<rparr>]"
    using frame_first [of p1 1 "2 # ns" ?q] assms 1 by auto
  obtain p3 where 3: "?f (2 # ns) ?q p2 = ?f ns ?q p3" "pg_submitted p3 = 3" "pg_acknowledged p3 = 0"
    "pg_slots p3 = (pg_slots p2)[2 := (pg_slots p2 ! 2)\<lparr>sl_reuse_fence_fd := -1, sl_in_flight := True\<rparr>]"
    using frame_first [of p2 2 ns ?q] assms 1 2 by auto
  have l: "length (pg_slots p3) = 3" using 1 2 3 assms(1) by simp
  have "lent (pg_slots p3 ! i)" if "i < 3" for i
    using that 1(4) 2(4) 3(4) assms(1,2) by (auto simp: lent_def nth_list_update)
  from frames_smooth [OF l this, of ns qs]
  show ?thesis using 1(1) 2(1) 3(1-3) by auto
qed

lemma fair_collect:
  assumes "length (pg_slots p) = 3" "\<forall>i < 3. lent (pg_slots p ! i)" "pg_submitted p = 180" "pg_acknowledged p = 177"
  shows "fst (collect_results (map reply [180..<183]) p)"
proof -
  have ns: "map reply [180..<183] = [reply 180, reply 181, reply 182]" by (simp add: upt_conv_Cons)
  obtain p1 where 1: "collect_results [reply 180, reply 181, reply 182] p = collect_results [reply 181, reply 182] p1" "pg_submitted p1 = 180"
    "pg_acknowledged p1 = 178" "length (pg_slots p1) = 3" "pg_slots p1 ! 1 = pg_slots p ! 1" "pg_slots p1 ! 2 = pg_slots p ! 2"
    using collect_first [of p 180 "[reply 181, reply 182]"] assms by auto
  obtain p2 where 2: "collect_results [reply 181, reply 182] p1 = collect_results [reply 182] p2" "pg_submitted p2 = 180"
    "pg_acknowledged p2 = 179" "length (pg_slots p2) = 3" "pg_slots p2 ! 2 = pg_slots p ! 2"
    using collect_first [of p1 181 "[reply 182]"] assms 1 by auto
  obtain p3 where "collect_results [reply 182] p2 = collect_results [] p3" "pg_submitted p3 = 180" "pg_acknowledged p3 = 180"
    using collect_first [of p2 182 "[]"] assms 2 by auto
  then show ?thesis using 1(1) 2(1) ns by simp
qed

theorem probe_refines_slot_protocol_witness:
  "fst (run_probe fair_host ''/run/probe'') = 0 \<and> pg_acknowledged (snd (run_probe fair_host ''/run/probe'')) = 180"
proof -
  have n: "\<not> native_fences fair_host" by (simp add: native_fences_def fair_host_def has_extension_def)
  have "\<exists>p1. import_loop PROBE_BUFFER_COUNT (pa_imports fair_host) (say [] zero_probe) = (None, p1) \<and> length (pg_slots p1) = 3 \<and>
    (\<forall>i < 3. sl_reuse_fence_fd (pg_slots p1 ! i) = -1 \<and> \<not> sl_in_flight (pg_slots p1 ! i)) \<and> pg_submitted p1 = 0 \<and> pg_acknowledged p1 = 0"
    by (simp add: PROBE_BUFFER_COUNT_def fair_host_def host_buffer_def header_def receive_buffer_def buffer_header_ok_def PROBE_MAX_FDS_def numeral_3_eq_3
        zero_probe_def zero_slot_def upd_slot_def say_def close_received_host_buffer_def Let_def less_Suc_eq)
  then obtain p1 where p1: "import_loop PROBE_BUFFER_COUNT (pa_imports fair_host) (say [] zero_probe) = (None, p1)" "length (pg_slots p1) = 3"
    "\<And>i. i < 3 \<Longrightarrow> sl_reuse_fence_fd (pg_slots p1 ! i) = -1 \<and> \<not> sl_in_flight (pg_slots p1 ! i)" "pg_submitted p1 = 0" "pg_acknowledged p1 = 0" by blast
  obtain p2 where p2: "frames_loop False (\<lambda>_. smooth) [0..<180] (map reply [3..<183]) p1 = (None, map reply [180..<183], p2)" "length (pg_slots p2) = 3"
    "\<forall>i < 3. lent (pg_slots p2 ! i)" "pg_submitted p2 = 180" "pg_acknowledged p2 = 177"
  proof -
    have "[0..<180] = 0 # 1 # 2 # [3..<180]" by (simp add: upt_conv_Cons del: upt_Suc)
    moreover have "map reply [3..<183] = map reply [3..<180] @ map reply [180..<183]" unfolding map_append [symmetric] by (simp flip: upt_add_eq_append)
    ultimately show ?thesis using that fair_frames [OF p1(2-5), of "[3..<180]" "map reply [180..<183]"] by auto
  qed
  obtain p3 where p3: "collect_results (map reply [180..<183]) p2 = (True, p3)" using fair_collect [OF p2(2-5)] by (metis prod.collapse)
  obtain p4 where p4: "last_fences (\<lambda>_. (1, False)) [0..<PROBE_BUFFER_COUNT] p3 = (True, p4)" using last_fences_well by (metis prod.collapse)
  have a: "connect_socket (pa_socket fair_host) ''/run/probe'' = (3, [])" "sa_hello (pa_socket fair_host)" "fst (create_probe_display (pa_display fair_host))"
    "pa_initialize fair_host" "pa_config fair_host" "pa_current fair_host" "pa_image_functions fair_host" "pa_frames fair_host = (\<lambda>_. smooth)"
    "pa_results fair_host = map reply [3..<183]" "pa_last fair_host = (\<lambda>_. (1, False))"
    by (simp_all add: fair_host_def connect_socket_def create_probe_display_def)
  have "fst (run_probe fair_host ''/run/probe'') = 0"
    unfolding run_probe_def using n p1(1) p2(1) p3 p4 by (simp add: a Let_def PROBE_FRAME_COUNT_def del: upt_Suc)
  with probe_refines_slot_protocol [of fair_host "''/run/probe''"] show ?thesis by blast
qed

end
