(* ===== verification/Gpu_Export.thy ===== *)
theory Gpu_Export
  imports Ownership Buffer_Sources
begin

text \<open>
  The second GPU probe: an image of Vulkan exported as a dma-buf (\<^verbatim>\<open>gpu-probe/guest/vulkan_export.c\<close>), sent to the host's probe socket
  (\<^verbatim>\<open>gpu_probe_vulkan_export.c\<close>) or shown through the Wayland host (\<^verbatim>\<open>wayland_dmabuf_client.c\<close>). Vulkan and libwayland are answers; the objects
  the programs make and free are a log.
\<close>

section \<open>The exported image\<close>

datatype vk_object = Vk_instance | Vk_device | Vk_image | Vk_memory | Vk_pool | Device_list | Queue_list | Modifier_list | Export_fd

record vulkan_image =
  vi_instance :: bool
  vi_device :: bool
  vi_image :: bool
  vi_memory :: bool

definition no_image :: vulkan_image where
  "no_image = \<lparr>vi_instance = False, vi_device = False, vi_image = False, vi_memory = False\<rparr>"

record vk_answers =
  vk_instance :: bool
  vk_enumerate :: bool
  vk_device_count :: nat
  vk_devices_alloc :: bool
  vk_enumerate_again :: bool
  vk_queues_alloc :: bool
  vk_queue_counts :: "u32 list"
  vk_device :: bool
  vk_functions :: bool
  vk_modifier_count :: u32
  vk_modifiers_alloc :: bool
  vk_first_modifier :: u64
  vk_image :: bool
  vk_memory_types :: nat
  vk_type_bits :: u32
  vk_memory :: bool
  vk_bind :: bool
  vk_queue :: bool
  vk_pool :: bool
  vk_begin :: bool
  vk_end :: bool
  vk_submit :: bool
  vk_image_modifier :: "u64 option"
  vk_fd :: "fd option"
  vk_row_pitch :: u64

definition UINT32_MAX :: u32 where "UINT32_MAX = 0xffffffff"

text \<open>\<open>n\<close> types are left, the next one is \<open>i\<close>.\<close>

fun memory_type_loop :: "u32 \<Rightarrow> nat \<Rightarrow> nat \<Rightarrow> u32" where
  "memory_type_loop bits i 0 = UINT32_MAX"
| "memory_type_loop bits i (Suc n) = (if bits AND push_bit i 1 \<noteq> 0 then of_nat i else memory_type_loop bits (Suc i) n)"

definition select_memory_type :: "nat \<Rightarrow> u32 \<Rightarrow> u32" where
  "select_memory_type types bits = memory_type_loop bits 0 types"

fun queue_family_loop :: "u32 list \<Rightarrow> nat \<Rightarrow> u32" where
  "queue_family_loop [] i = UINT32_MAX"
| "queue_family_loop (c # cs) i = (if c \<noteq> 0 then of_nat i else queue_family_loop cs (Suc i))"

definition trierarch_guest_destroy_exportable_image :: "vulkan_image \<Rightarrow> vk_object lifetime list" where
  "trierarch_guest_destroy_exportable_image v =
     free_if (vi_memory v) Vk_memory @ free_if (vi_image v) Vk_image @ free_if (vi_device v) Vk_device @ free_if (vi_instance v) Vk_instance"

definition clear_exported_image :: "vk_answers \<Rightarrow> bool \<times> vk_object lifetime list" where
  "clear_exported_image a =
     (if \<not> vk_pool a then (False, [])
      else (vk_begin a \<and> vk_end a \<and> vk_submit a, [Made Vk_pool, Freed Vk_pool]))"

record exported =
  ex_image :: vulkan_image
  ex_fd :: fd
  ex_stride :: u32
  ex_modifier :: u64

text \<open>The \<^verbatim>\<open>goto fail\<close>.\<close>

definition export_fail :: "vulkan_image \<Rightarrow> vk_object lifetime list \<Rightarrow> exported option \<times> vk_object lifetime list" where
  "export_fail v e = (None, e @ trierarch_guest_destroy_exportable_image v)"

text \<open>From the physical device to the logical one, and from there to the memory; \<open>None\<close> where the code fails.\<close>

definition open_device :: "vk_answers \<Rightarrow> bool \<times> vk_object lifetime list" where
  "open_device a =
     (if \<not> vk_enumerate a \<or> vk_device_count a = 0 then (False, [])
      else if \<not> vk_devices_alloc a then (False, [])
      else if \<not> vk_enumerate_again a then (False, [Made Device_list, Freed Device_list])
      else
        let e = [Made Device_list, Freed Device_list]
        in if \<not> vk_queues_alloc a then (False, e)
           else
             let e1 = e @ [Made Queue_list, Freed Queue_list]
             in if queue_family_loop (vk_queue_counts a) 0 = UINT32_MAX then (False, e1)
                else if \<not> vk_device a then (False, e1)
                else (True, e1 @ [Made Vk_device]))"

definition make_image :: "vk_answers \<Rightarrow> bool \<times> vk_object lifetime list" where
  "make_image a =
     (if \<not> vk_functions a then (False, [])
      else if vk_modifier_count a = 0 then (False, [])
      else if \<not> vk_modifiers_alloc a then (False, [])
      else
        let e = [Made Modifier_list, Freed Modifier_list]
        in if \<not> vk_image a then (False, e) else (True, e @ [Made Vk_image]))"

definition trierarch_guest_create_exportable_image :: "vk_answers \<Rightarrow> exported option \<times> vk_object lifetime list" where
  "trierarch_guest_create_exportable_image a =
     (if \<not> vk_instance a then (None, [])
      else
        let v = no_image\<lparr>vi_instance := True\<rparr>; (d, e1) = open_device a; e = [Made Vk_instance] @ e1
        in if \<not> d then export_fail v e
           else
             let v1 = v\<lparr>vi_device := True\<rparr>; (m, e2) = make_image a; e' = e @ e2
             in if \<not> m then export_fail v1 e'
                else
                  let v2 = v1\<lparr>vi_image := True\<rparr>
                  in if select_memory_type (vk_memory_types a) (vk_type_bits a) = UINT32_MAX then export_fail v2 e'
                     else if \<not> vk_memory a then export_fail v2 e'
                     else
                       let v3 = v2\<lparr>vi_memory := True\<rparr>; e3 = e' @ [Made Vk_memory]; (c, e4) = clear_exported_image a
                       in if \<not> vk_bind a \<or> \<not> vk_queue a then export_fail v3 e3
                          else if \<not> c then export_fail v3 (e3 @ e4)
                          else (case vk_image_modifier a of
                              None \<Rightarrow> export_fail v3 (e3 @ e4)
                            | Some modifier \<Rightarrow> (case vk_fd a of
                                  None \<Rightarrow> export_fail v3 (e3 @ e4)
                                | Some f \<Rightarrow> (Some \<lparr>ex_image = v3, ex_fd = f, ex_stride = ucast (vk_row_pitch a), ex_modifier = modifier\<rparr>,
                                    e3 @ e4 @ [Made Export_fd]))))"

section \<open>The probe socket\<close>

record export_answers =
  ea_socket :: fd
  ea_connect :: bool
  ea_hello_sent :: bool
  ea_buffer_sent :: bool
  ea_accepted :: bool

text \<open>The descriptors closed, beside the result; a path that is too long leaves the socket open.\<close>

definition connect_export_socket :: "export_answers \<Rightarrow> string \<Rightarrow> fd \<times> fd list" where
  "connect_export_socket a path =
     (if ea_socket a < 0 \<or> 108 \<le> length path then (-1, [])
      else if \<not> ea_connect a then (-1, [ea_socket a])
      else (ea_socket a, []))"

definition send_to_probe_socket :: "vk_answers \<Rightarrow> export_answers \<Rightarrow> string \<Rightarrow> int \<times> vk_object lifetime list \<times> fd list" where
  "send_to_probe_socket v a path = (case trierarch_guest_create_exportable_image v of
       (None, e) \<Rightarrow> (1, e, [])
     | (Some x, e) \<Rightarrow>
         let (socket_fd, closed) = connect_export_socket a path;
             status = (if 0 \<le> socket_fd \<and> ea_hello_sent a \<and> ea_buffer_sent a then (if ea_accepted a then 0 else 3) else 2)
         in (status, e @ [Freed Export_fd] @ trierarch_guest_destroy_exportable_image (ex_image x),
             closed @ (if 0 \<le> socket_fd then [socket_fd] else [])))"

section \<open>The Wayland client\<close>

datatype wl_object = Wl_connection | Wl_registry | Bound_compositor | Bound_dmabuf | Bound_wm_base | Wl_surface | Xdg_surface | Xdg_toplevel |
  Buffer_params | Wl_buffer | Frame_callback | Dmabuf_fd

record dmabuf_client =
  dc_compositor :: bool
  dc_dmabuf :: bool
  dc_xdg_wm_base :: bool
  dc_compositor_version :: u32

definition no_client :: dmabuf_client where
  "no_client = \<lparr>dc_compositor = False, dc_dmabuf = False, dc_xdg_wm_base = False, dc_compositor_version = 0\<rparr>"

text \<open>The client's \<^verbatim>\<open>registry_global\<close>; \<open>bound\<close> is whether \<^verbatim>\<open>wl_registry_bind\<close> returns a proxy.\<close>

definition client_global :: "string \<Rightarrow> u32 \<Rightarrow> bool \<Rightarrow> dmabuf_client \<Rightarrow> dmabuf_client \<times> wl_object lifetime list" where
  "client_global interface version bound c =
     (if interface = ''wl_compositor'' then
        (c\<lparr>dc_compositor_version := (if version < 4 then version else 4), dc_compositor := bound\<rparr>, make_if bound Bound_compositor)
      else if interface = ''zwp_linux_dmabuf_v1'' then
        (let bind_version = (if version < 3 then version else 3)
         in if 3 \<le> bind_version then (c\<lparr>dc_dmabuf := bound\<rparr>, make_if bound Bound_dmabuf) else (c, []))
      else if interface = ''xdg_wm_base'' then (c\<lparr>dc_xdg_wm_base := bound\<rparr>, make_if bound Bound_wm_base)
      else (c, []))"

fun client_globals :: "(string \<times> u32 \<times> bool) list \<Rightarrow> dmabuf_client \<Rightarrow> dmabuf_client \<times> wl_object lifetime list" where
  "client_globals [] c = (c, [])"
| "client_globals ((i, v, b) # gs) c = (case client_global i v b c of (c1, e1) \<Rightarrow> (case client_globals gs c1 of (c2, e2) \<Rightarrow> (c2, e1 @ e2)))"

datatype client_event = Configure u32 | Ping u32 | Frame_done | Buffer_release | Other_event

text \<open>
  One round of a wait: the events \<^verbatim>\<open>wl_display_dispatch_pending\<close> delivers (\<open>None\<close> on failure), the flush, the answer of \<^verbatim>\<open>poll\<close> after the interrupted
  calls, the events \<^verbatim>\<open>wl_display_dispatch\<close> delivers.
\<close>

record wait_round =
  wr_pending :: "client_event list option"
  wr_flush :: bool
  wr_poll :: int
  wr_dispatch :: "client_event list option"

definition configured_by :: "client_event list \<Rightarrow> bool \<Rightarrow> bool" where
  "configured_by es c \<longleftrightarrow> c \<or> list_ex (\<lambda>e. case e of Configure _ \<Rightarrow> True | _ \<Rightarrow> False) es"

text \<open>\<open>n\<close> rounds are left; \<open>rs i\<close> answers the \<open>i\<close>-th of them.\<close>

fun dispatch_until_configured :: "nat \<Rightarrow> (nat \<Rightarrow> wait_round) \<Rightarrow> bool \<Rightarrow> bool" where
  "dispatch_until_configured 0 rs c = False"
| "dispatch_until_configured (Suc n) rs c = (let r = rs 0 in case wr_pending r of
       None \<Rightarrow> False
     | Some es \<Rightarrow>
         let c1 = configured_by es c
         in if c1 then True
            else if \<not> wr_flush r then False
            else if wr_poll r < 0 then False
            else if 0 < wr_poll r then
              (case wr_dispatch r of None \<Rightarrow> False | Some fs \<Rightarrow> dispatch_until_configured n (\<lambda>i. rs (Suc i)) (configured_by fs c1))
            else dispatch_until_configured n (\<lambda>i. rs (Suc i)) c1)"

record submitted_frame =
  sf_callback_done :: bool
  sf_buffer_released :: bool

definition frame_events :: "client_event list \<Rightarrow> submitted_frame \<Rightarrow> submitted_frame" where
  "frame_events es f = \<lparr>sf_callback_done = (sf_callback_done f \<or> Frame_done \<in> set es), sf_buffer_released = (sf_buffer_released f \<or> Buffer_release \<in> set es)\<rparr>"

text \<open>The result and the frame.\<close>

fun dispatch_until_released :: "nat \<Rightarrow> (nat \<Rightarrow> wait_round) \<Rightarrow> submitted_frame \<Rightarrow> bool \<times> submitted_frame" where
  "dispatch_until_released 0 rs f = (False, f)"
| "dispatch_until_released (Suc n) rs f = (let r = rs 0 in case wr_pending r of
       None \<Rightarrow> (False, f)
     | Some es \<Rightarrow>
         let f1 = frame_events es f
         in if \<not> wr_flush r then (False, f1)
            else if sf_callback_done f1 \<and> sf_buffer_released f1 then (True, f1)
            else if wr_poll r < 0 then (False, f1)
            else if 0 < wr_poll r then
              (case wr_dispatch r of None \<Rightarrow> (False, f1) | Some gs \<Rightarrow> dispatch_until_released n (\<lambda>i. rs (Suc i)) (frame_events gs f1))
            else dispatch_until_released n (\<lambda>i. rs (Suc i)) f1)"

record client_answers =
  ca_connect :: bool
  ca_globals :: "(string \<times> u32 \<times> bool) list"
  ca_roundtrip :: bool
  ca_roundtrip_again :: bool
  ca_surface :: bool
  ca_xdg_surface :: bool
  ca_toplevel :: bool
  ca_configure :: "nat \<Rightarrow> wait_round"
  ca_params :: bool
  ca_buffer :: bool
  ca_release :: "nat \<Rightarrow> wait_round"

text \<open>
  The labels at the end of the function, from the innermost on; \<open>f\<close> is the descriptor that is still the client's, \<open>x\<close> the exported image.
\<close>

definition client_out :: "bool \<Rightarrow> wl_object lifetime list" where
  "client_out f = free_if f Dmabuf_fd"

definition client_disconnect :: "dmabuf_client \<Rightarrow> bool \<Rightarrow> wl_object lifetime list" where
  "client_disconnect c f = free_if (dc_dmabuf c) Bound_dmabuf @ free_if (dc_xdg_wm_base c) Bound_wm_base @ free_if (dc_compositor c) Bound_compositor @
     [Freed Wl_registry, Freed Wl_connection] @ client_out f"

definition client_surface :: "dmabuf_client \<Rightarrow> bool \<Rightarrow> wl_object lifetime list" where
  "client_surface c f = [Freed Wl_surface] @ client_disconnect c f"

definition client_xdg_surface :: "dmabuf_client \<Rightarrow> bool \<Rightarrow> wl_object lifetime list" where
  "client_xdg_surface c f = [Freed Xdg_surface] @ client_surface c f"

definition client_toplevel :: "dmabuf_client \<Rightarrow> bool \<Rightarrow> wl_object lifetime list" where
  "client_toplevel c f = [Freed Xdg_toplevel] @ client_xdg_surface c f"

text \<open>The buffer is submitted; the client has forgotten the descriptor it has given to the connection.\<close>

definition submit_frame :: "client_answers \<Rightarrow> dmabuf_client \<Rightarrow> int \<times> wl_object lifetime list" where
  "submit_frame a c =
     (case dispatch_until_released 5 (ca_release a) \<lparr>sf_callback_done = False, sf_buffer_released = False\<rparr> of (ok, f) \<Rightarrow>
        (if ok then 0 else 1, [Made Frame_callback] @ free_if (sf_callback_done f) Frame_callback @ [Freed Wl_buffer] @ client_toplevel c False))"

definition show_buffer :: "client_answers \<Rightarrow> dmabuf_client \<Rightarrow> int \<times> wl_object lifetime list" where
  "show_buffer a c =
     (if \<not> ca_surface a then (1, client_disconnect c True)
      else if \<not> ca_xdg_surface a then (1, [Made Wl_surface] @ client_surface c True)
      else if \<not> ca_toplevel a then (1, [Made Wl_surface, Made Xdg_surface] @ client_xdg_surface c True)
      else
        let e = [Made Wl_surface, Made Xdg_surface, Made Xdg_toplevel]
        in if \<not> dispatch_until_configured 5 (ca_configure a) False then (1, e @ client_toplevel c True)
           else if \<not> ca_params a then (1, e @ client_toplevel c True)
           else
             let e1 = e @ [Made Buffer_params]
             in if \<not> ca_buffer a then (1, e1 @ [Freed Buffer_params] @ client_toplevel c False)
                else (case submit_frame a c of (status, es) \<Rightarrow> (status, e1 @ [Made Wl_buffer, Freed Buffer_params] @ es)))"

definition submit_wayland_dmabuf :: "client_answers \<Rightarrow> int \<times> wl_object lifetime list" where
  "submit_wayland_dmabuf a =
     (if \<not> ca_connect a then (1, [Made Dmabuf_fd] @ client_out True)
      else
        let (c, e1) = client_globals (ca_globals a) no_client; e = [Made Dmabuf_fd, Made Wl_connection, Made Wl_registry] @ e1
        in if \<not> ca_roundtrip a \<or> \<not> dc_compositor c \<or> \<not> dc_dmabuf c \<or> \<not> dc_xdg_wm_base c then (1, e @ client_disconnect c True)
           else if \<not> ca_roundtrip_again a then (1, e @ client_disconnect c True)
           else (case show_buffer a c of (status, es) \<Rightarrow> (status, e @ es)))"

text \<open>The descriptor leaves the exported image here and is accounted for in the log of the client.\<close>

definition trierarch_guest_submit_wayland_dmabuf :: "vk_answers \<Rightarrow> client_answers \<Rightarrow> int \<times> vk_object lifetime list \<times> wl_object lifetime list" where
  "trierarch_guest_submit_wayland_dmabuf v a = (case trierarch_guest_create_exportable_image v of
       (None, e) \<Rightarrow> (1, e, [])
     | (Some x, e) \<Rightarrow> (case submit_wayland_dmabuf a of (status, es) \<Rightarrow>
         (status, e @ [Freed Export_fd] @ trierarch_guest_destroy_exportable_image (ex_image x), es)))"

text \<open>What the client asks of the host: the parameters and the buffer.\<close>

definition GUEST_FORMAT_ABGR8888 :: u32 where "GUEST_FORMAT_ABGR8888 = 0x34324241"

definition modifier_halves :: "u64 \<Rightarrow> u32 \<times> u32" where
  "modifier_halves modifier = (ucast (drop_bit 32 modifier), ucast modifier)"

definition vulkan_probe_main :: "vk_answers \<Rightarrow> export_answers \<Rightarrow> client_answers \<Rightarrow> string list \<Rightarrow> int" where
  "vulkan_probe_main v a c args = (case args of
       [x] \<Rightarrow> if x = ''--wayland'' then fst (trierarch_guest_submit_wayland_dmabuf v c) else fst (send_to_probe_socket v a x)
     | _ \<Rightarrow> 64)"

section \<open>Ownership\<close>

definition vk_owned :: "exported \<Rightarrow> vk_object set" where
  "vk_owned x = {y. (y = Vk_instance \<and> vi_instance (ex_image x)) \<or> (y = Vk_device \<and> vi_device (ex_image x)) \<or> (y = Vk_image \<and> vi_image (ex_image x)) \<or>
     (y = Vk_memory \<and> vi_memory (ex_image x)) \<or> y = Export_fd}"

interpretation exports: owner "\<lambda>_. True" vk_owned "\<lambda>x. [Freed Export_fd] @ trierarch_guest_destroy_exportable_image (ex_image x)"
proof
  show "balance y ([Freed Export_fd] @ trierarch_guest_destroy_exportable_image (ex_image x)) = - of_bool (y \<in> vk_owned x)" for x y
    by (cases y) (simp_all add: trierarch_guest_destroy_exportable_image_def vk_owned_def)
qed

lemma open_device_balance: "balance x (snd (open_device a)) = of_bool (fst (open_device a) \<and> x = Vk_device)"
  by (cases x) (simp_all add: open_device_def Let_def)

lemma make_image_balance: "balance x (snd (make_image a)) = of_bool (fst (make_image a) \<and> x = Vk_image)"
  by (cases x) (simp_all add: make_image_def Let_def)

lemma clear_balance: "balance x (snd (clear_exported_image a)) = 0"
  by (cases x) (simp_all add: clear_exported_image_def)

lemma export_balance:
  assumes "trierarch_guest_create_exportable_image a = (r, e)"
  shows "case r of None \<Rightarrow> \<forall>x. balance x e = 0 | Some v \<Rightarrow> accounts vk_owned e v"
proof -
  obtain d e1 where d: "open_device a = (d, e1)" by (meson surj_pair)
  obtain m e2 where m: "make_image a = (m, e2)" by (meson surj_pair)
  obtain c e4 where c: "clear_exported_image a = (c, e4)" by (meson surj_pair)
  have b: "balance x e1 = of_bool (d \<and> x = Vk_device)" "balance x e2 = of_bool (m \<and> x = Vk_image)" "balance x e4 = 0" for x
    using open_device_balance [of x a] make_image_balance [of x a] clear_balance [of x a] by (simp_all add: d m c)
  have f: "balance x (trierarch_guest_destroy_exportable_image v) =
      - of_bool (x = Vk_memory \<and> vi_memory v \<or> x = Vk_image \<and> vi_image v \<or> x = Vk_device \<and> vi_device v \<or> x = Vk_instance \<and> vi_instance v)" for x v
    by (cases x) (simp_all add: trierarch_guest_destroy_exportable_image_def)
  show ?thesis
  proof (cases r)
    case None
    have "balance x e = 0" for x
      using assms None unfolding trierarch_guest_create_exportable_image_def d m c export_fail_def Let_def
      by (cases x) (auto simp: b f no_image_def split: if_splits option.splits)
    then show ?thesis by (simp add: None)
  next
    case (Some v)
    have "balance x e = of_bool (x \<in> vk_owned v)" for x
      using assms Some unfolding trierarch_guest_create_exportable_image_def d m c export_fail_def Let_def
      by (cases x) (auto simp: b no_image_def vk_owned_def split: if_splits option.splits)
    then show ?thesis by (simp add: Some accounts_def)
  qed
qed

end
