(* ===== verification/Export_Properties.thy ===== *)
theory Export_Properties
  imports Gpu_Export
begin

text \<open>
  The export probe: what it makes it frees, how its waits count, and what the host makes of its buffer.
\<close>

section \<open>Objects of the client\<close>

definition client_owned :: "dmabuf_client \<Rightarrow> wl_object set" where
  "client_owned c = {x. (x = Bound_compositor \<and> dc_compositor c) \<or> (x = Bound_dmabuf \<and> dc_dmabuf c) \<or> (x = Bound_wm_base \<and> dc_xdg_wm_base c)}"

definition global_object :: "wl_object \<Rightarrow> string" where
  "global_object x = (case x of Bound_compositor \<Rightarrow> ''wl_compositor'' | Bound_dmabuf \<Rightarrow> ''zwp_linux_dmabuf_v1'' | Bound_wm_base \<Rightarrow> ''xdg_wm_base'' | _ \<Rightarrow> [])"

lemma client_global_cases:
  obtains (compositor) "i = ''wl_compositor''" "client_global i v b c =
      (c\<lparr>dc_compositor_version := (if v < 4 then v else 4), dc_compositor := b\<rparr>, make_if b Bound_compositor)"
    | (dmabuf) "i = ''zwp_linux_dmabuf_v1''" "client_global i v b c = (c\<lparr>dc_dmabuf := b\<rparr>, make_if b Bound_dmabuf)"
    | (wm_base) "i = ''xdg_wm_base''" "client_global i v b c = (c\<lparr>dc_xdg_wm_base := b\<rparr>, make_if b Bound_wm_base)"
    | (none) "client_global i v b c = (c, [])"
  by (cases "i = ''wl_compositor''"; cases "i = ''zwp_linux_dmabuf_v1''"; cases "i = ''xdg_wm_base''"; cases "3 \<le> (if v < 3 then v else 3)")
    (simp_all add: client_global_def Let_def)

lemma client_global_balance:
  assumes "client_global i v b c = (c', e)"
  shows "global_object x \<noteq> i \<Longrightarrow> (x \<in> client_owned c' \<longleftrightarrow> x \<in> client_owned c) \<and> balance x e = 0"
    "global_object x = i \<Longrightarrow> x \<notin> client_owned c \<Longrightarrow> balance x e = of_bool (x \<in> client_owned c')"
proof -
  have o: "Bound_compositor \<in> client_owned c \<longleftrightarrow> dc_compositor c" "Bound_dmabuf \<in> client_owned c \<longleftrightarrow> dc_dmabuf c"
    "Bound_wm_base \<in> client_owned c \<longleftrightarrow> dc_xdg_wm_base c" "x \<in> client_owned c \<Longrightarrow> x \<in> {Bound_compositor, Bound_dmabuf, Bound_wm_base}" for c x
    by (auto simp: client_owned_def)
  have other: "x \<in> client_owned c' \<longleftrightarrow> x \<in> client_owned c" if "x \<notin> {Bound_compositor, Bound_dmabuf, Bound_wm_base}" for c c' x using o(4) that by blast
  show "global_object x \<noteq> i \<Longrightarrow> (x \<in> client_owned c' \<longleftrightarrow> x \<in> client_owned c) \<and> balance x e = 0"
    by (cases rule: client_global_cases [of i v b c]; cases x) (use assms o(1-3) other [of x] in \<open>auto simp: global_object_def\<close>)
  show "global_object x = i \<Longrightarrow> x \<notin> client_owned c \<Longrightarrow> balance x e = of_bool (x \<in> client_owned c')"
    by (cases rule: client_global_cases [of i v b c]; cases x) (use assms o(1-3) other [of x] in \<open>auto simp: global_object_def\<close>)
qed

lemma client_globals_balance:
  assumes "client_globals gs c = (c', e)" "distinct (map fst gs)" "\<And>x. global_object x \<in> set (map fst gs) \<Longrightarrow> x \<notin> client_owned c"
  shows "balance x e = of_bool (x \<in> client_owned c') - of_bool (x \<in> client_owned c)"
  using assms
proof (induction gs arbitrary: c e)
  case (Cons g gs)
  obtain i v b where g: "g = (i, v, b)" by (metis prod_cases3)
  obtain c1 e1 where 1: "client_global i v b c = (c1, e1)" by (meson surj_pair)
  obtain c2 e2 where 2: "client_globals gs c1 = (c2, e2)" by (meson surj_pair)
  have r: "c' = c2" "e = e1 @ e2" using Cons.prems(1) by (simp_all add: g 1 2)
  have free: "y \<notin> client_owned c1" if "global_object y \<in> set (map fst gs)" for y
    using client_global_balance(1) [OF 1, of y] Cons.prems(2,3) that by (force simp: g)
  have ih: "balance x e2 = of_bool (x \<in> client_owned c2) - of_bool (x \<in> client_owned c1)"
    using Cons.IH [OF 2 [folded r(1)] _ free] Cons.prems(2) r(1) by simp
  show ?case
  proof (cases "global_object x = i")
    case True
    then have "x \<notin> client_owned c" using Cons.prems(3) [of x] by (simp add: g)
    then show ?thesis using client_global_balance(2) [OF 1 True] ih by (simp add: r)
  next
    case False
    then show ?thesis using client_global_balance(1) [OF 1 False] ih by (simp add: r)
  qed
qed simp

lemma client_globals_no_client:
  assumes "client_globals gs no_client = (c, e)" "distinct (map fst gs)"
  shows "balance x e = of_bool (x \<in> client_owned c)"
  using client_globals_balance [OF assms] by (simp add: client_owned_def no_client_def)

text \<open>The chain of labels, as what each of them frees.\<close>

definition frees :: "dmabuf_client \<Rightarrow> bool \<Rightarrow> wl_object set \<Rightarrow> wl_object \<Rightarrow> int" where
  "frees c f xs x = - of_bool (x \<in> client_owned c) - of_bool (x \<in> {Wl_connection, Wl_registry} \<union> xs) - of_bool (f \<and> x = Dmabuf_fd)"

lemma label_balance:
  "balance x (client_disconnect c f) = frees c f {} x" "balance x (client_surface c f) = frees c f {Wl_surface} x"
  "balance x (client_xdg_surface c f) = frees c f {Wl_surface, Xdg_surface} x"
  "balance x (client_toplevel c f) = frees c f {Wl_surface, Xdg_surface, Xdg_toplevel} x"
  by (cases x; simp add: client_toplevel_def client_xdg_surface_def client_surface_def client_disconnect_def client_out_def client_owned_def frees_def)+

lemma submit_frame_balance:
  assumes "x \<noteq> Frame_callback"
  shows "balance x (snd (submit_frame a c)) = frees c False {Wl_surface, Xdg_surface, Xdg_toplevel, Wl_buffer} x"
proof -
  obtain ok f where "dispatch_until_released 5 (ca_release a) \<lparr>sf_callback_done = False, sf_buffer_released = False\<rparr> = (ok, f)" by (meson surj_pair)
  then show ?thesis using assms by (cases x) (simp_all add: submit_frame_def label_balance frees_def client_owned_def)
qed

lemma labels_make_nothing:
  "Made x \<notin> set (client_disconnect c f)" "Made x \<notin> set (client_surface c f)" "Made x \<notin> set (client_xdg_surface c f)" "Made x \<notin> set (client_toplevel c f)"
  by (simp_all add: client_toplevel_def client_xdg_surface_def client_surface_def client_disconnect_def client_out_def free_if_def)

text \<open>The descriptor is closed unless it has been given to the connection with the parameters of the buffer.\<close>

lemma show_buffer_balance:
  assumes "x \<noteq> Frame_callback" "show_buffer a c = (status, es)"
  shows "balance x es = frees c (Made Buffer_params \<notin> set es) {} x"
proof -
  obtain st fs where s: "submit_frame a c = (st, fs)" by (meson surj_pair)
  have b: "balance x fs = frees c False {Wl_surface, Xdg_surface, Xdg_toplevel, Wl_buffer} x" using submit_frame_balance [OF assms(1), of a c] by (simp add: s)
  have o: "client_owned c \<inter> {Wl_surface, Xdg_surface, Xdg_toplevel, Wl_buffer, Buffer_params, Dmabuf_fd} = {}" by (auto simp: client_owned_def)
  have m: "Made Buffer_params \<in> set es \<longleftrightarrow> ca_surface a \<and> ca_xdg_surface a \<and> ca_toplevel a \<and> dispatch_until_configured 5 (ca_configure a) False \<and> ca_params a"
    using assms(2) by (auto simp: show_buffer_def s Let_def labels_make_nothing split: if_splits)
  show ?thesis using assms b o unfolding m show_buffer_def Let_def s
    by (cases x) (auto simp: label_balance frees_def split: if_splits)
qed

lemma client_globals_make:
  assumes "client_globals gs c = (c', e)"
  shows "Made Buffer_params \<notin> set e"
  using assms
proof (induction gs arbitrary: c e)
  case (Cons g gs)
  obtain i v b where g: "g = (i, v, b)" by (metis prod_cases3)
  have "Made Buffer_params \<notin> set (snd (client_global i v b c))"
    by (cases rule: client_global_cases [of i v b c]) (simp_all add: make_if_def)
  then show ?case using Cons by (auto simp: g split: prod.splits)
qed simp

lemma client_balance:
  assumes "distinct (map fst (ca_globals a))" "x \<noteq> Frame_callback" "submit_wayland_dmabuf a = (status, es)"
  shows "balance x es = of_bool (x = Dmabuf_fd \<and> Made Buffer_params \<in> set es)"
proof -
  obtain c e where c: "client_globals (ca_globals a) no_client = (c, e)" by (meson surj_pair)
  obtain st fs where s: "show_buffer a c = (st, fs)" by (meson surj_pair)
  have b: "balance x e = of_bool (x \<in> client_owned c)" "balance x fs = frees c (Made Buffer_params \<notin> set fs) {} x"
    using client_globals_no_client [OF c assms(1), of x] show_buffer_balance [OF assms(2) s] by simp_all
  have o: "client_owned c \<inter> {Wl_connection, Wl_registry, Dmabuf_fd} = {}" by (auto simp: client_owned_def)
  show ?thesis using b o assms(2,3) client_globals_make [OF c] unfolding submit_wayland_dmabuf_def c Let_def prod.case s
    by (cases x) (auto simp: label_balance frees_def client_out_def labels_make_nothing free_if_def split: if_splits)
qed

text \<open>Whatever Vulkan and the compositor answer, the client frees every object of Vulkan and of Wayland it has made, once, where the compositor
  announces no global twice. Two things are left: the frame callback where the frame was never shown, and the descriptor once it has been passed to the connection,
  since a request sends a duplicate of it and the client forgets its own.\<close>

theorem export_client_frees:
  assumes "trierarch_guest_submit_wayland_dmabuf v a = (status, vk, wl)" "distinct (map fst (ca_globals a))"
  shows "(\<forall>x. balance x vk = 0) \<and> (\<forall>x. x \<noteq> Frame_callback \<longrightarrow> balance x wl = of_bool (x = Dmabuf_fd \<and> Made Buffer_params \<in> set wl))"
proof -
  obtain r e where c: "trierarch_guest_create_exportable_image v = (r, e)" by (meson surj_pair)
  note b = export_balance [OF c]
  show ?thesis
  proof (cases r)
    case None
    then show ?thesis using assms(1) b by (simp add: trierarch_guest_submit_wayland_dmabuf_def c)
  next
    case (Some y)
    then have "accounts vk_owned e y" using b by simp
    then have "balance x (e @ [Freed Export_fd] @ trierarch_guest_destroy_exportable_image (ex_image y)) = 0" for x by (rule exports.given_up) simp
    then show ?thesis
      using assms(1) Some client_balance [OF assms(2)] by (auto simp: trierarch_guest_submit_wayland_dmabuf_def c split: prod.splits)
  qed
qed

section \<open>The waits\<close>

text \<open>A round in which everything works and a batch of events arrives at once.\<close>

definition batch :: "client_event list \<Rightarrow> wait_round" where
  "batch es = \<lparr>wr_pending = Some [], wr_flush = True, wr_poll = 1, wr_dispatch = Some es\<rparr>"

lemma batch_steps:
  "dispatch_until_released (Suc n) (\<lambda>i. batch (bs i)) f =
     (if sf_callback_done f \<and> sf_buffer_released f then (True, f) else dispatch_until_released n (\<lambda>i. batch (bs (Suc i))) (frame_events (bs 0) f))"
  "dispatch_until_configured (Suc n) (\<lambda>i. batch (bs i)) c \<longleftrightarrow> c \<or> dispatch_until_configured n (\<lambda>i. batch (bs (Suc i))) (configured_by (bs 0) c)"
proof -
  have "frame_events [] f = f" "configured_by [] c = c" by (simp_all add: frame_events_def configured_by_def)
  then show "dispatch_until_released (Suc n) (\<lambda>i. batch (bs i)) f =
     (if sf_callback_done f \<and> sf_buffer_released f then (True, f) else dispatch_until_released n (\<lambda>i. batch (bs (Suc i))) (frame_events (bs 0) f))"
    "dispatch_until_configured (Suc n) (\<lambda>i. batch (bs i)) c \<longleftrightarrow> c \<or> dispatch_until_configured n (\<lambda>i. batch (bs (Suc i))) (configured_by (bs 0) c)"
    by (simp_all add: batch_def Let_def)
qed

lemma ex_less_Suc0: "(\<exists>k < Suc n. P k) \<longleftrightarrow> P 0 \<or> (\<exists>k < n. P (Suc k))"
  by (auto simp: less_Suc_eq_0_disj)

lemma released_batches:
  "fst (dispatch_until_released (Suc n) (\<lambda>i. batch (bs i)) f) \<longleftrightarrow>
     (sf_callback_done f \<or> (\<exists>k < n. Frame_done \<in> set (bs k))) \<and> (sf_buffer_released f \<or> (\<exists>k < n. Buffer_release \<in> set (bs k)))"
proof (induction n arbitrary: bs f)
  case (Suc n)
  show ?case using Suc.IH [of "\<lambda>i. bs (Suc i)" "frame_events (bs 0) f"]
    by (subst batch_steps) (auto simp: frame_events_def ex_less_Suc0 simp del: dispatch_until_released.simps)
qed (simp only: batch_steps dispatch_until_released.simps(1), auto)

lemma configured_batches:
  "dispatch_until_configured (Suc n) (\<lambda>i. batch (bs i)) c \<longleftrightarrow> c \<or> (\<exists>k < n. configured_by (bs k) False)"
proof (induction n arbitrary: bs c)
  case (Suc n)
  have "configured_by (bs 0) c \<longleftrightarrow> c \<or> configured_by (bs 0) False" by (auto simp: configured_by_def)
  then show ?case using Suc.IH [of "\<lambda>i. bs (Suc i)" "configured_by (bs 0) c"]
    by (subst batch_steps) (auto simp: ex_less_Suc0 simp del: dispatch_until_configured.simps)
qed (simp only: batch_steps dispatch_until_configured.simps(1), auto)

text \<open>The waits end after five batches of events, not after five seconds, and what the fifth one brings is not looked at: where a batch arrives in every round, they succeed exactly when what
  they wait for is in the first four.\<close>

theorem waits_count_batches:
  "(dispatch_until_configured 5 (\<lambda>i. batch (bs i)) False \<longleftrightarrow> (\<exists>k < 4. configured_by (bs k) False)) \<and>
   (fst (dispatch_until_released 5 (\<lambda>i. batch (bs i)) \<lparr>sf_callback_done = False, sf_buffer_released = False\<rparr>) \<longleftrightarrow>
      (\<exists>k < 4. Frame_done \<in> set (bs k)) \<and> (\<exists>k < 4. Buffer_release \<in> set (bs k)))"
proof -
  have n: "(5 :: nat) = Suc 4" by simp
  show ?thesis unfolding n configured_batches released_batches submitted_frame.simps by blast
qed

section \<open>The host's answer\<close>

lemma halves_joined: "push_bit 32 (ucast (ucast (drop_bit 32 m) :: u32)) OR ucast (ucast m :: u32) = (m :: u64)"
  by (rule bit_word_eqI) (auto simp: bit_simps)

text \<open>C25: the host puts the two halves of the modifier together as the client has taken them apart, and it makes the buffer with the client's size, stride and modifier when the modifier is the linear one; every other
  modifier the client may have picked ends in a protocol error and no buffer. The descriptor is no token, and the stride is at least a row and fits the host's signed field.\<close>

theorem host_takes_linear_export:
  assumes "0 \<le> f" "256 \<le> stride" "stride \<le> 0x7fffffff"
    "params_add params f 0 0 stride (fst (modifier_halves m)) (snd (modifier_halves m)) new_params h = (p1, h1)"
    "params_create_immed params None mapped (Some b) (Some r) 64 64 GUEST_FORMAT_ABGR8888 p1 h1 = (p2, h2)"
  shows "pr_modifier p1 = m \<and>
    (if m = 0
     then h_log h2 = h_log h \<and> (\<exists>x. h_buffers h2 = (h_buffers h)(b \<mapsto> x) \<and> b_width x = 64 \<and> b_height x = 64 \<and> b_stride x = sint stride \<and>
        b_dmabuf_modifier x = m \<and> b_dmabuf_fd x = f \<and> b_resource x = Some r)
     else h_buffers h2 = h_buffers h \<and> h_log h2 = h_log h @ [Post_error params Err_params_invalid_format])"
proof -
  have p1: "p1 = new_params\<lparr>pr_fd := f, pr_offset := 0, pr_stride := stride, pr_modifier := m, pr_added := True\<rparr>" "h1 = h"
    using assms(1,4) by (auto simp: params_add_def new_params_def modifier_halves_def halves_joined)
  have "\<not> params_rejected p1 64 64 GUEST_FORMAT_ABGR8888"
    using assms(1-3) by (simp add: params_rejected_def p1(1) new_params_def supported_format_def GUEST_FORMAT_ABGR8888_def DRM_FORMAT_ABGR8888_def INT32_MAX_def not_less)
  then show ?thesis
    using assms(5) p1
    by (cases "m = 0") (auto simp: params_create_immed_def make_dmabuf_buffer_def new_params_def Let_def upd_diag_def upd_server_def emit_def)
qed

theorem host_takes_linear_export_witness:
  "\<forall>h. h_log (snd (case params_add 4 7 0 0 256 0 5 new_params h of (p1, h1) \<Rightarrow>
     params_create_immed 4 None None (Some 8) (Some 9) 64 64 GUEST_FORMAT_ABGR8888 p1 h1)) = h_log h @ [Post_error 4 Err_params_invalid_format]"
proof
  fix h
  obtain p1 h1 where 1: "params_add 4 7 0 0 256 0 5 new_params h = (p1, h1)" by (meson surj_pair)
  obtain p2 h2 where 2: "params_create_immed 4 None None (Some 8) (Some 9) 64 64 GUEST_FORMAT_ABGR8888 p1 h1 = (p2, h2)" by (meson surj_pair)
  have "modifier_halves 5 = (0, 5)" by (simp add: modifier_halves_def)
  then show "h_log (snd (case params_add 4 7 0 0 256 0 5 new_params h of (p1, h1) \<Rightarrow>
     params_create_immed 4 None None (Some 8) (Some 9) 64 64 GUEST_FORMAT_ABGR8888 p1 h1)) = h_log h @ [Post_error 4 Err_params_invalid_format]"
    using host_takes_linear_export [of 7 256 4 5 h p1 h1 None 8 9 p2 h2] 1 2 by simp
qed

section \<open>A run of the client that shows its frame\<close>

definition vk_well :: vk_answers where
  "vk_well = \<lparr>vk_instance = True, vk_enumerate = True, vk_device_count = 1, vk_devices_alloc = True, vk_enumerate_again = True, vk_queues_alloc = True,
     vk_queue_counts = [1], vk_device = True, vk_functions = True, vk_modifier_count = 2, vk_modifiers_alloc = True, vk_first_modifier = 0, vk_image = True,
     vk_memory_types = 2, vk_type_bits = 2, vk_memory = True, vk_bind = True, vk_queue = True, vk_pool = True, vk_begin = True, vk_end = True, vk_submit = True,
     vk_image_modifier = Some 0, vk_fd = Some 6, vk_row_pitch = 256\<rparr>"

definition client_well :: client_answers where
  "client_well = \<lparr>ca_connect = True, ca_globals = [(''wl_compositor'', 6, True), (''zwp_linux_dmabuf_v1'', 4, True), (''xdg_wm_base'', 6, True)],
     ca_roundtrip = True, ca_roundtrip_again = True, ca_surface = True, ca_xdg_surface = True, ca_toplevel = True,
     ca_configure = (\<lambda>_. batch [Configure 1]), ca_params = True, ca_buffer = True, ca_release = (\<lambda>_. batch [Frame_done, Buffer_release])\<rparr>"

theorem export_client_frees_witness:
  "case trierarch_guest_submit_wayland_dmabuf vk_well client_well of (status, vk, wl) \<Rightarrow>
     status = 0 \<and> balance Vk_memory vk = 0 \<and> Made Vk_memory \<in> set vk \<and> balance Wl_buffer wl = 0 \<and> Made Wl_buffer \<in> set wl"
proof -
  obtain status vk wl where r: "trierarch_guest_submit_wayland_dmabuf vk_well client_well = (status, vk, wl)" by (metis prod_cases3)
  have d: "dispatch_until_configured 5 (ca_configure client_well) False"
    "dispatch_until_released 5 (ca_release client_well) \<lparr>sf_callback_done = False, sf_buffer_released = False\<rparr> =
       (True, \<lparr>sf_callback_done = True, sf_buffer_released = True\<rparr>)"
    by (simp_all add: client_well_def batch_def configured_by_def frame_events_def numeral_eq_Suc)
  have t: "select_memory_type 2 2 = 1" by code_simp
  have o: "fst (open_device vk_well)" "fst (make_image vk_well)" "fst (clear_exported_image vk_well)"
    by (simp_all add: open_device_def make_image_def clear_exported_image_def UINT32_MAX_def vk_well_def Let_def)
  have a: "vk_instance vk_well" "vk_memory_types vk_well = 2" "vk_type_bits vk_well = 2" "vk_memory vk_well" "vk_bind vk_well" "vk_queue vk_well"
    "vk_image_modifier vk_well = Some 0" "vk_fd vk_well = Some 6" by (simp_all add: vk_well_def)
  obtain e1 e2 e3 where e: "open_device vk_well = (True, e1)" "make_image vk_well = (True, e2)" "clear_exported_image vk_well = (True, e3)"
    using o by (metis prod.collapse)
  have "\<exists>x e. trierarch_guest_create_exportable_image vk_well = (Some x, e) \<and> Made Vk_memory \<in> set e"
    by (simp add: trierarch_guest_create_exportable_image_def a e t UINT32_MAX_def Let_def)
  then obtain x e where x: "trierarch_guest_create_exportable_image vk_well = (Some x, e)" "Made Vk_memory \<in> set e" by blast
  obtain c g where g: "client_globals (ca_globals client_well) no_client = (c, g)" "dc_compositor c" "dc_dmabuf c" "dc_xdg_wm_base c"
    by (simp add: client_well_def client_global_def no_client_def)
  have "\<exists>es. submit_wayland_dmabuf client_well = (0, es) \<and> Made Wl_buffer \<in> set es"
    using d by (simp add: submit_wayland_dmabuf_def g show_buffer_def submit_frame_def Let_def) (simp add: client_well_def)
  then have "status = 0" "Made Wl_buffer \<in> set wl" "Made Vk_memory \<in> set vk"
    using r x by (auto simp: trierarch_guest_submit_wayland_dmabuf_def)
  then show ?thesis using export_client_frees [OF r] r by (simp add: client_well_def)
qed

end
