(* ===== verification/Ime_Probe.thy ===== *)
theory Ime_Probe
  imports Ownership
begin

text \<open>
  The input method probe (\<^verbatim>\<open>input-method-probe/src/main.c\<close>): a client that prints what an input method of version 1 is told. The contexts it is given and destroys are
  a log; what it prints is left out.
\<close>

record ime_probe =
  ip_input_method :: bool
  ip_context :: "nat option"
  ip_saw_input_method :: bool

definition zero_ime_probe :: ime_probe where
  "zero_ime_probe = \<lparr>ip_input_method = False, ip_context = None, ip_saw_input_method = False\<rparr>"

text \<open>A new context comes with the event.\<close>

definition probe_activate :: "nat \<Rightarrow> ime_probe \<Rightarrow> ime_probe \<times> nat lifetime list" where
  "probe_activate c p = (p\<lparr>ip_context := Some c\<rparr>, Made c # (case ip_context p of None \<Rightarrow> [] | Some d \<Rightarrow> [Freed d]))"

definition probe_deactivate :: "nat \<Rightarrow> ime_probe \<Rightarrow> ime_probe \<times> nat lifetime list" where
  "probe_deactivate c p = (if ip_context p = Some c then p\<lparr>ip_context := None\<rparr> else p, [Freed c])"

definition probe_global :: "string \<Rightarrow> nat \<Rightarrow> bool \<Rightarrow> ime_probe \<Rightarrow> ime_probe" where
  "probe_global interface version bound p =
     (if interface \<noteq> ''zwp_input_method_v1'' then p
      else if version < 1 \<or> ip_input_method p then p
      else if \<not> bound then p\<lparr>ip_input_method := False\<rparr>
      else p\<lparr>ip_input_method := True, ip_saw_input_method := True\<rparr>)"

datatype method_event = Activates nat | Deactivates nat | Tells

definition handle_method_event :: "method_event \<Rightarrow> ime_probe \<Rightarrow> ime_probe \<times> nat lifetime list" where
  "handle_method_event e p = (case e of Activates c \<Rightarrow> probe_activate c p | Deactivates c \<Rightarrow> probe_deactivate c p | Tells \<Rightarrow> (p, []))"

fun probe_events :: "method_event list \<Rightarrow> ime_probe \<Rightarrow> ime_probe \<times> nat lifetime list" where
  "probe_events [] p = (p, [])"
| "probe_events (e # es) p = (case handle_method_event e p of (p1, l1) \<Rightarrow> (case probe_events es p1 of (p2, l2) \<Rightarrow> (p2, l1 @ l2)))"

definition probe_end :: "ime_probe \<Rightarrow> nat lifetime list" where
  "probe_end p = (case ip_context p of None \<Rightarrow> [] | Some c \<Rightarrow> [Freed c])"

text \<open>The exit code and the log; \<open>es\<close> are the events until a signal comes or the connection fails.\<close>

definition ime_probe_main :: "bool \<Rightarrow> (string \<times> nat \<times> bool) list \<Rightarrow> bool \<Rightarrow> method_event list \<Rightarrow> int \<times> nat lifetime list" where
  "ime_probe_main connected globals roundtrip es =
     (if \<not> connected then (1, [])
      else
        let p = fold (\<lambda>(i, v, b). probe_global i v b) globals zero_ime_probe
        in if \<not> roundtrip \<or> \<not> ip_saw_input_method p then (1, [])
           else (case probe_events es p of (p1, l) \<Rightarrow> (0, l @ probe_end p1)))"

section \<open>Every context is destroyed\<close>

definition probe_owned :: "ime_probe \<Rightarrow> nat set" where
  "probe_owned p = set_option (ip_context p)"

interpretation ime_probes: owner "\<lambda>_. True" probe_owned probe_end
  by unfold_locales (auto simp: probe_end_def probe_owned_def split: option.splits)

text \<open>What libwayland delivers: an activated context is new, a deactivated one is a proxy the client still has.\<close>

fun delivered :: "nat set \<Rightarrow> method_event list \<Rightarrow> ime_probe \<Rightarrow> bool" where
  "delivered seen [] p \<longleftrightarrow> True"
| "delivered seen (e # es) p \<longleftrightarrow>
     (case e of Activates c \<Rightarrow> c \<notin> seen | Deactivates c \<Rightarrow> c \<in> probe_owned p | Tells \<Rightarrow> True) \<and>
     delivered (case e of Activates c \<Rightarrow> insert c seen | _ \<Rightarrow> seen) es (fst (handle_method_event e p))"

lemma probe_events_account:
  assumes "accounts probe_owned l p" "probe_owned p \<subseteq> seen" "delivered seen es p" "probe_events es p = (p', l')"
  shows "accounts probe_owned (l @ l') p'"
  using assms
proof (induction es arbitrary: l p l' p' seen)
  case (Cons e es)
  obtain p1 l1 where 1: "handle_method_event e p = (p1, l1)" by (meson surj_pair)
  obtain p2 l2 where 2: "probe_events es p1 = (p2, l2)" by (meson surj_pair)
  have a: "accounts probe_owned (l @ l1) p1" "probe_owned p1 \<subseteq> (case e of Activates c \<Rightarrow> insert c seen | _ \<Rightarrow> seen)"
    using Cons.prems(1-3) 1
    by (auto simp: accounts_def handle_method_event_def probe_activate_def probe_deactivate_def probe_owned_def split: method_event.splits option.splits if_splits)
  have "delivered (case e of Activates c \<Rightarrow> insert c seen | _ \<Rightarrow> seen) es p1" using Cons.prems(3) 1 by simp
  from Cons.IH [OF a this 2] show ?case using Cons.prems(4) by (simp add: 1 2)
qed simp

lemma probe_global_context: "ip_context (probe_global i v b p) = ip_context p"
  by (simp add: probe_global_def)

lemma globals_context: "ip_context (fold (\<lambda>(i, v, b). probe_global i v b) gs p) = ip_context p"
  by (induction gs arbitrary: p) (auto simp: probe_global_context)

text \<open>The probe destroys every context it is given exactly once.\<close>

theorem probe_contexts_destroyed:
  assumes "\<And>p. ip_context p = None \<Longrightarrow> delivered {} es p"
  shows "balance c (snd (ime_probe_main connected globals roundtrip es)) = 0"
proof -
  define p where "p = fold (\<lambda>(i, v, b). probe_global i v b) globals zero_ime_probe"
  have p: "ip_context p = None" by (simp add: p_def globals_context zero_ime_probe_def)
  obtain p1 l where r: "probe_events es p = (p1, l)" by (meson surj_pair)
  have "accounts probe_owned ([] @ l) p1"
    by (rule probe_events_account [OF _ _ assms [OF p] r]) (simp_all add: accounts_def probe_owned_def p)
  then have "balance c (l @ probe_end p1) = 0" using ime_probes.given_up [of l p1 c] by simp
  then show ?thesis by (simp add: ime_probe_main_def p_def [symmetric] r)
qed

end
