(* ===== verification/Spec2Isabelle.thy ===== *)
theory Spec2Isabelle
  imports Host_Properties Wire_Properties Ime_Main Jni_Properties Supervisor_Main Reader_Main
    Tvg_Service Dmabuf_Feedback Gbm_Properties Udev_Compat Renderer_Properties Server_Properties
    Gpu_Properties Export_Properties Ime_Probe
begin

text \<open>
  Verification of the C programs of the repository: the Wayland host that shows a Linux desktop on
  Android, and the helper programs around it.

  \<^bold>\<open>The programs and how they interact.\<close> The host (\<^verbatim>\<open>wayland-host/src\<close>) is a Wayland compositor inside an
  Android application. The application's calls enter through \<^verbatim>\<open>jni_bridge.c\<close>, which queues them for a
  dispatcher thread; clients' requests arrive on the dispatcher thread through libwayland; the renderer
  samples the current buffers and reports each frame. Replaced buffers wait in a deferred list until the
  frame that may still read them is over. In the guest, the desktop's compositor allocates its buffers through
  the GBM preload library (\<^verbatim>\<open>gbm-shim\<close>), which asks the host's token service (\<^verbatim>\<open>tvg_scanout.c\<close>); the device reporter
  (\<^verbatim>\<open>dmabuf-device-report\<close>) tells the host which render node the guest uses; the libudev preload library (\<^verbatim>\<open>compat\<close>) replaces a
  monitor the guest may not open. The input method bridge (\<^verbatim>\<open>wayland-ime-bridge\<close>) feeds text from Android
  into a Wayland input method; the session supervisor (\<^verbatim>\<open>session-supervisor\<close>) watches the session and its owner; the
  input reader (\<^verbatim>\<open>input-reader\<close>) forwards hardware keys. The probes (\<^verbatim>\<open>gpu-probe\<close>, \<^verbatim>\<open>input-method-probe\<close>) try out a part of the system from the guest.

  \<^bold>\<open>How the code is modelled.\<close> A struct is a record with the source's fields; a pointer is the number of an object,
  with an option where it may be null; the heap is a map from these numbers. A pointer to a freed object is one
  outside the map: the host then sets \<open>h_fault\<close>, the smaller programs have the value \<open>None\<close>. Integers whose width
  matters are words. What the kernel, libwayland, EGL, the allocator or a real library answers is an argument of the operation that asks. What
  leaves a program (protocol events, closed descriptors, messages) is a log. Loops are recursive functions:
  structural or with a measure where the code's loop always ends, \<open>partial_function (option)\<close> where it depends
  on the heap, and then that they return is proved. The only bounds are the code's own (1024 entries of a scan,
  64 parents, 128 messages, 32 sockets, 8 devices).

  \<^bold>\<open>The library.\<close> \<open>Prelude\<close> has the types, C arithmetic, list operations and the locale \<open>transition_system\<close>
  (invariants over runs). \<open>Linked_Queue\<close> has the queue with head and tail that two programs spell out, and the
  locale \<open>fifo\<close>; \<open>Handle_List\<close> the registry of the preload libraries and the locale \<open>handle_registry\<close>;
  \<open>C_Strings\<close> the C string functions; \<open>Ownership\<close> the balance of objects made and freed and the locale \<open>owner\<close>, which the renderer, the server
  and the probes interpret.

  \<^bold>\<open>The host.\<close>
  \<^item> \<open>Host_State\<close>: \<^verbatim>\<open>server_internal.h\<close>. \<open>Repaint\<close>: the frame scheduling of \<^verbatim>\<open>compositor.c\<close>. \<open>Buffers\<close>: \<^verbatim>\<open>buffer_shm.c\<close>.
    \<open>Explicit_Sync\<close>, \<open>Subcompositor\<close>, \<open>Shell\<close>, \<open>Layer_Shell\<close>, \<open>Buffer_Sources\<close>, \<open>Surface\<close>, \<open>Seat\<close>: the files of these names
    and the small protocols around them.
  \<^item> \<open>Ledger\<close>, \<open>Deferred\<close>, \<open>Buffer_Safety\<close>, \<open>Buffer_Ops\<close>, \<open>Surface_Safety\<close>, \<open>Surface_Ops\<close>, \<open>Surface_Destroy\<close>, \<open>Host_Safety\<close>, \<open>Host_Steps\<close>,
    \<open>Host_System\<close>, \<open>Host_Requests\<close>, \<open>Seat_Safety\<close>: the invariant. It accounts for every reference to a buffer (its
    resource, the surfaces that show or await it, its deferred entries), for the shape of the deferred list and for the
    family tree of the surfaces, and every operation keeps it.
  \<^item> \<open>Host_Machine\<close>: the host as a transition system. \<open>Host_Properties\<close>: memory safety, exact counts, the commit, destruction,
    the pointer, the flush and the frames.
  \<^item> \<open>Interfaces\<close>: the request tables of the surfaces, of their role objects and of the globals, and the table of resources through which libwayland delivers a request to the
    object behind a resource. \<open>Role_View\<close>: what each operation leaves of the resources the surfaces name. \<open>Settled\<close>: what a frame needs beside the invariant, that the
    pointer points at live surfaces and that parents form no cycle. \<open>Wire_Safety\<close>: the table and the surfaces agree, and requests keep this. \<open>Wire_Machine\<close>: the host with its
    table as a transition system; the locale \<open>nesting\<close> is over which parents a step may give a surface, and is interpreted for any parents and for parents that form a tree.
    \<open>Keyboard_Safety\<close>: the keyboard is safe exactly while the surface with its focus exists. \<open>Desktop\<close>: the requests, the pointer, the keyboard, the frames of the renderer and the thread of the token service in any order. \<open>Wire_Properties\<close>: clients reach the host's
    operations only with live surfaces, every frame of every run returns, and the two requests for which this fails.
  \<^item> \<open>Jni_Bridge\<close>, \<open>Jni_Safety\<close>, \<open>Jni_Properties\<close>: the entry points and the dispatcher as interleaved steps; order of the commands and
    exactness of the window references. The commands drive the host's model.
  \<^item> \<open>Renderer\<close>: \<^verbatim>\<open>renderer.c\<close>. \<open>Render_Order\<close>: the surfaces a frame visits, by their lines of ancestors; the bound on the depth of the drawing is
    the number of surfaces, which is enough because the roots have no parent. \<open>Render_Frame\<close>: a frame returns and keeps the host's invariant; the locale \<open>drawing\<close> gives what drawing keeps;
    the fence between two frames. \<open>Renderer_Objects\<close>: the EGL objects. \<open>Frame_Callbacks\<close>: the locale \<open>callback_pass\<close> for the folds over the surfaces.
    \<open>Renderer_Properties\<close>: what is drawn, answered, released, freed and read.
  \<^item> \<open>Server_Life\<close>: set-up and tear-down of the server in \<^verbatim>\<open>compositor.c\<close> and of the feedback device, as the objects they make and free. \<open>Registry\<close>: the functions that bind the
    published globals, and the extensions without state (\<^verbatim>\<open>presentation.c\<close>, \<^verbatim>\<open>pointer_constraints.c\<close>, \<^verbatim>\<open>xdg_decoration.c\<close>, parts of \<^verbatim>\<open>protocol_stubs.c\<close>).
    \<open>Server_Properties\<close>: every published global can be bound at every version offered; nothing of the server is leaked.
  \<^item> \<open>Dmabuf_Feedback\<close>: the device report from guest to host, both ends. \<open>Tvg_Scanout\<close>, \<open>Tvg_Properties\<close>: the token service
    (\<^verbatim>\<open>tvg_scanout.c\<close>). \<open>Tvg_Service\<close>: its thread from start to stop beside the renderer; every descriptor and buffer is given back once.

  \<^bold>\<open>The helper programs.\<close> \<open>Ime_Bridge\<close>, \<open>Ime_Framing\<close>, \<open>Ime_Safety\<close>, \<open>Ime_Properties\<close>: the queue refines a bounded buffer, the decoder does not
    depend on how reads are cut. \<open>Ime_Main\<close>: \<^verbatim>\<open>main\<close> of the bridge with the listening socket, the loops of its two modes and the shutdown; the socket mode closes and removes
    exactly what it has made. \<open>Session_Supervisor\<close>, \<open>Supervisor_Properties\<close>: environment, owner watch, observation. \<open>Supervisor_Main\<close>: the processes it waits for and \<^verbatim>\<open>main\<close>; it
    signals only the group it was given and stops only a container whose name it has accepted, once its owner is gone.
    \<open>Input_Reader\<close>, \<open>Reader_Properties\<close>: frames, keys, device slots. \<open>Reader_Main\<close>: \<^verbatim>\<open>main\<close> of the reader beside its threads; it ends, and with no key held.
    \<open>Gbm_Shim\<close>, \<open>Gbm_Properties\<close>: tokens and descriptors, and their agreement with the token service. \<open>Udev_Compat\<close>: the fallback monitor.

  \<^bold>\<open>The probes.\<close> \<open>Gpu_Probe\<close>: \<^verbatim>\<open>gpu_probe_guest.c\<close>; \<open>Gpu_Properties\<close>: its log refines an abstract protocol of the slots, and its test for extensions finds whole words.
    \<open>Gpu_Export\<close>: \<^verbatim>\<open>vulkan_export.c\<close>, \<^verbatim>\<open>gpu_probe_vulkan_export.c\<close> and \<^verbatim>\<open>wayland_dmabuf_client.c\<close>; \<open>Export_Properties\<close>: what they free, how their waits count, and what the host's
    model makes of the exported buffer. \<open>Ime_Probe\<close>: \<^verbatim>\<open>input-method-probe\<close>; every context is destroyed once.

  A loop that waits for the outside world runs over the list of what the outside world does; where the list ends while the loop still waits, its result says so.

  \<^bold>\<open>Not modelled.\<close> The answers of EGL, OpenGL and Vulkan, the shaders and the floating-point coordinates of the vertices; the request tables of buffers,
  pools and the seat, whose requests are steps of the host without a look-up of the resource; the Rust launcher; patches and scripts for third-party code. Pixels are not modelled, nor are diagnostics.
\<close>

end
